(* ===== verification/Prelude.thy ===== *)
theory Prelude
  imports Main "HOL-Library.Char_ord" "HOL-Library.List_Lexorder"
begin

text \<open>
  Shared vocabulary of the development: the \<open>Error\<close> and \<open>Result\<close> types of
  \<open>src/lib/Result.h\<close>, the errno values the code returns, C character classes, the
  operations of \<open>std::string\<close> the program calls (searching, substrings, splitting on a
  character, decimal printing) and the lemma collections that carry the component proofs.
\<close>

named_theorems result_simps \<open>inversion of result sequencing\<close>
named_theorems str_simps \<open>evaluation and inversion of string operations\<close>

section \<open>Errors and results\<close>

text \<open>The struct \<open>Error\<close>: a code and a message. The one-argument constructor leaves the
  default code, \<open>-1\<close>.\<close>

record error =
  err_code :: int
  err_message :: string

definition Error :: "string \<Rightarrow> int \<Rightarrow> error" where
  "Error msg c = \<lparr>err_code = c, err_message = msg\<rparr>"

definition Error1 :: "string \<Rightarrow> error" where
  "Error1 msg = \<lparr>err_code = -1, err_message = msg\<rparr>"

lemma Error_sel [simp]:
  "err_code (Error m c) = c" "err_message (Error m c) = m"
  "err_code (Error1 m) = -1" "err_message (Error1 m) = m"
  by (simp_all add: Error_def Error1_def)

lemma Error_inject [simp]: "Error m c = Error m' c' \<longleftrightarrow> m = m' \<and> c = c'"
  by (auto simp: Error_def)

type_synonym 'a result = "error + 'a"

text \<open>\<open>Optional<Error>\<close> as a return type: \<open>None\<close> is success.\<close>

type_synonym status_opt = "error option"

fun and_then :: "'a result \<Rightarrow> ('a \<Rightarrow> 'b result) \<Rightarrow> 'b result" where
  "and_then (Inl e) f = Inl e"
| "and_then (Inr x) f = f x"

text \<open>Continue after a call that returns \<open>Optional<Error>\<close>.\<close>

fun unless_error :: "error option \<Rightarrow> 'b result \<Rightarrow> 'b result" where
  "unless_error (Some e) r = Inl e"
| "unless_error None r = r"

fun has_value :: "'a result \<Rightarrow> bool" where
  "has_value (Inl e) = False"
| "has_value (Inr x) = True"

lemma and_then_Inr [result_simps]:
  "and_then r f = Inr y \<longleftrightarrow> (\<exists>x. r = Inr x \<and> f x = Inr y)"
  by (cases r) auto

lemma and_then_Inl [result_simps]:
  "and_then r f = Inl e \<longleftrightarrow> r = Inl e \<or> (\<exists>x. r = Inr x \<and> f x = Inl e)"
  by (cases r) auto

lemma unless_error_Inr [result_simps]:
  "unless_error o' r = Inr y \<longleftrightarrow> o' = None \<and> r = Inr y"
  by (cases o') auto

lemma unless_error_Inl [result_simps]:
  "unless_error o' r = Inl e \<longleftrightarrow> o' = Some e \<or> (o' = None \<and> r = Inl e)"
  by (cases o') auto

lemma has_value_iff [result_simps]: "has_value r \<longleftrightarrow> (\<exists>x. r = Inr x)"
  by (cases r) auto

lemma and_then_assoc: "and_then (and_then r f) g = and_then r (\<lambda>x. and_then (f x) g)"
  by (cases r) auto

lemma and_then_cong [fundef_cong]:
  "r = r' \<Longrightarrow> (\<And>x. r' = Inr x \<Longrightarrow> f x = g x) \<Longrightarrow> and_then r f = and_then r' g"
  by (cases r') auto

text \<open>The errno values of the Linux ABI that the code stores in errors.\<close>

abbreviation EPERM :: int where "EPERM \<equiv> 1"
abbreviation ENOENT :: int where "ENOENT \<equiv> 2"
abbreviation EIO :: int where "EIO \<equiv> 5"
abbreviation E2BIG :: int where "E2BIG \<equiv> 7"
abbreviation EAGAIN :: int where "EAGAIN \<equiv> 11"
abbreviation ENOMEM :: int where "ENOMEM \<equiv> 12"
abbreviation EACCES :: int where "EACCES \<equiv> 13"
abbreviation EINVAL :: int where "EINVAL \<equiv> 22"
abbreviation EFBIG :: int where "EFBIG \<equiv> 27"
abbreviation ERANGE :: int where "ERANGE \<equiv> 34"
abbreviation ELOOP :: int where "ELOOP \<equiv> 40"
abbreviation ENODATA :: int where "ENODATA \<equiv> 61"
abbreviation ENOTSUP :: int where "ENOTSUP \<equiv> 95"

text \<open>\<open>map_result\<close> runs a fallible function over a list, left to right, and stops at the first
  error: the shape of every parsing loop of the program.\<close>

fun map_result :: "('a \<Rightarrow> 'b result) \<Rightarrow> 'a list \<Rightarrow> 'b list result" where
  "map_result f [] = Inr []"
| "map_result f (x # xs) = and_then (f x) (\<lambda>y. and_then (map_result f xs) (\<lambda>ys. Inr (y # ys)))"

lemma map_result_Inr_iff:
  "map_result f xs = Inr ys \<longleftrightarrow> list_all2 (\<lambda>x y. f x = Inr y) xs ys"
  by (induction xs arbitrary: ys) (auto simp: result_simps list_all2_Cons1)

lemma map_result_length: "map_result f xs = Inr ys \<Longrightarrow> length ys = length xs"
  by (simp add: map_result_Inr_iff list_all2_lengthD)

lemma map_result_set:
  "map_result f xs = Inr ys \<Longrightarrow> y \<in> set ys \<Longrightarrow> \<exists>x\<in>set xs. f x = Inr y"
  by (induction xs arbitrary: ys) (auto simp: result_simps)

text \<open>The first index-ordered error of a list of checks.\<close>

fun first_error :: "('a \<Rightarrow> error option) \<Rightarrow> 'a list \<Rightarrow> error option" where
  "first_error f [] = None"
| "first_error f (x # xs) = (case f x of Some e \<Rightarrow> Some e | None \<Rightarrow> first_error f xs)"

lemma first_error_None [result_simps]: "first_error f xs = None \<longleftrightarrow> (\<forall>x\<in>set xs. f x = None)"
  by (induction xs) (auto split: option.splits)

lemma first_error_Some:
  "first_error f xs = Some e \<Longrightarrow> \<exists>x\<in>set xs. f x = Some e"
  by (induction xs) (auto split: option.splits)

section \<open>Characters\<close>

text \<open>A \<open>char\<close> is a byte. \<open>byte c\<close> is its unsigned value.\<close>

abbreviation byte :: "char \<Rightarrow> nat" where "byte c \<equiv> of_char c"

abbreviation SQ :: char where "SQ \<equiv> CHR 0x27"
abbreviation DQ :: char where "DQ \<equiv> CHR 0x22"
abbreviation BSL :: char where "BSL \<equiv> CHR 0x5C"
abbreviation NL :: char where "NL \<equiv> CHR 0x0A"
abbreviation TAB :: char where "TAB \<equiv> CHR 0x09"
abbreviation NUL :: char where "NUL \<equiv> CHR 0x00"

text \<open>The character classes of \<open><cctype>\<close> in the C locale.\<close>

definition isspace :: "char \<Rightarrow> bool" where
  "isspace c \<longleftrightarrow> c = CHR 0x20 \<or> c = CHR 0x09 \<or> c = CHR 0x0A \<or> c = CHR 0x0B \<or> c = CHR 0x0C \<or> c = CHR 0x0D"

definition isdigit :: "char \<Rightarrow> bool" where
  "isdigit c \<longleftrightarrow> 48 \<le> byte c \<and> byte c \<le> 57"

definition isupper :: "char \<Rightarrow> bool" where
  "isupper c \<longleftrightarrow> 65 \<le> byte c \<and> byte c \<le> 90"

definition islower :: "char \<Rightarrow> bool" where
  "islower c \<longleftrightarrow> 97 \<le> byte c \<and> byte c \<le> 122"

definition isalpha :: "char \<Rightarrow> bool" where
  "isalpha c \<longleftrightarrow> isupper c \<or> islower c"

definition isalnum :: "char \<Rightarrow> bool" where
  "isalnum c \<longleftrightarrow> isalpha c \<or> isdigit c"

definition tolower :: "char \<Rightarrow> char" where
  "tolower c = (if isupper c then char_of (byte c + 32) else c)"

section \<open>Strings\<close>

text \<open>\<open>quoted s\<close> is \<open>s\<close> between single quotes, as in most of the error messages.\<close>

definition quoted :: "string \<Rightarrow> string" where
  "quoted s = [SQ] @ s @ [SQ]"

text \<open>\<open>c_str\<close> as a callee sees it: the characters before the terminator.\<close>

definition c_str :: "string \<Rightarrow> string" where
  "c_str s = takeWhile (\<lambda>c. c \<noteq> NUL) s"

lemma c_str_id [simp]: "NUL \<notin> set s \<Longrightarrow> c_str s = s"
  by (auto simp: c_str_def takeWhile_eq_all_conv)

lemma c_str_no_nul [simp]: "NUL \<notin> set (c_str s)"
  by (auto simp: c_str_def dest: set_takeWhileD)

text \<open>\<open>std::string::find (c)\<close>: the position of the first occurrence, \<open>None\<close> for \<open>npos\<close>.\<close>

fun find_char :: "char \<Rightarrow> string \<Rightarrow> nat option" where
  "find_char c [] = None"
| "find_char c (x # xs) = (if x = c then Some 0 else map_option Suc (find_char c xs))"

text \<open>\<open>find (c, pos)\<close>: the search starts at \<open>pos\<close>.\<close>

definition find_char_from :: "char \<Rightarrow> string \<Rightarrow> nat \<Rightarrow> nat option" where
  "find_char_from c s pos = map_option (\<lambda>i. pos + i) (find_char c (drop pos s))"

text \<open>\<open>rfind (c)\<close> and \<open>find_last_of\<close> with one character.\<close>

definition rfind_char :: "char \<Rightarrow> string \<Rightarrow> nat option" where
  "rfind_char c s = map_option (\<lambda>i. length s - Suc i) (find_char c (rev s))"

text \<open>\<open>substr (pos, n)\<close> for a position inside the string, and \<open>substr (pos)\<close>.\<close>

definition substr :: "nat \<Rightarrow> nat \<Rightarrow> string \<Rightarrow> string" where
  "substr pos n s = take n (drop pos s)"

fun starts_with :: "string \<Rightarrow> string \<Rightarrow> bool" where
  "starts_with [] s = True"
| "starts_with (p # ps) [] = False"
| "starts_with (p # ps) (x # xs) = (p = x \<and> starts_with ps xs)"

text \<open>\<open>find\<close> with a string argument: the first position where it occurs.\<close>

fun find_str :: "string \<Rightarrow> string \<Rightarrow> nat option" where
  "find_str p [] = (if p = [] then Some 0 else None)"
| "find_str p (x # xs) = (if starts_with p (x # xs) then Some 0 else map_option Suc (find_str p xs))"

text \<open>\<open>std::to_string\<close> of a natural number.\<close>

definition digit_char :: "nat \<Rightarrow> char" where
  "digit_char d = char_of (48 + d)"

fun to_string_nat :: "nat \<Rightarrow> string" where
  "to_string_nat n = (if n < 10 then [digit_char n] else to_string_nat (n div 10) @ [digit_char (n mod 10)])"

declare to_string_nat.simps [simp del]

definition to_string_int :: "int \<Rightarrow> string" where
  "to_string_int i = (if i < 0 then ''-'' @ to_string_nat (nat (- i)) else to_string_nat (nat i))"

lemma find_char_None [str_simps]: "find_char c s = None \<longleftrightarrow> c \<notin> set s"
  by (induction s) auto

lemma find_char_Some:
  "find_char c s = Some i \<longleftrightarrow> i < length s \<and> s ! i = c \<and> c \<notin> set (take i s)"
proof (induction s arbitrary: i)
  case Nil
  then show ?case by simp
next
  case (Cons x xs)
  then show ?case by (cases i) (auto simp: Cons)
qed

lemma find_char_append [str_simps]:
  "c \<notin> set xs \<Longrightarrow> find_char c (xs @ c # ys) = Some (length xs)"
  by (induction xs) auto

lemma find_char_bound: "find_char c s = Some i \<Longrightarrow> i < length s"
  by (simp add: find_char_Some)

lemma starts_with_iff [str_simps]: "starts_with p s \<longleftrightarrow> take (length p) s = p"
  by (induction p s rule: starts_with.induct) auto

lemma starts_with_append [simp]: "starts_with p (p @ s)"
  by (simp add: starts_with_iff)

lemma starts_with_ex: "starts_with p s \<longleftrightarrow> (\<exists>t. s = p @ t)"
  by (metis append_take_drop_id append_eq_conv_conj starts_with_iff)

lemma find_str_0: "find_str p s = Some 0 \<longleftrightarrow> starts_with p s"
  by (cases s) (auto simp: starts_with_iff split: if_splits)

lemma quoted_inject [simp]: "quoted s = quoted t \<longleftrightarrow> s = t"
  by (simp add: quoted_def)

text \<open>\<open>std::getline (stream, token, delimiter)\<close> on a string stream: fails (no token) when the
  stream is exhausted, otherwise gives the characters up to the delimiter, which is consumed.\<close>

fun span_until :: "char \<Rightarrow> string \<Rightarrow> string \<times> string" where
  "span_until c [] = ([], [])"
| "span_until c (x # xs) = (if x = c then ([], xs) else (let (a, b) = span_until c xs in (x # a, b)))"

definition getline :: "char \<Rightarrow> string \<Rightarrow> (string \<times> string) option" where
  "getline c s = (if s = [] then None else Some (span_until c s))"

lemma span_until_append [str_simps]:
  "c \<notin> set a \<Longrightarrow> span_until c (a @ c # b) = (a, b)"
  by (induction a) auto

lemma span_until_notin [str_simps]: "c \<notin> set a \<Longrightarrow> span_until c a = (a, [])"
  by (induction a) auto

lemma span_until_fst: "c \<notin> set (fst (span_until c s))"
  by (induction s) (auto simp: split_beta)

end
