(* ===== verification/OrderedMap.thy ===== *)
theory OrderedMap
  imports Prelude
begin

text \<open>
  \<open>std::map\<close>: the container behind parameters, the rule database, plan rules and metadata.
  It is modelled as an association list sorted by key, because the program iterates over its
  maps (the order of error checks, of serialised members and of partial updates is the key
  order). Keys compare as \<open>std::string\<close> does, lexicographically on unsigned bytes.
\<close>

type_synonym ('k, 'v) omap = "('k \<times> 'v) list"
type_synonym parameter_map = "(string, string) omap"

section \<open>Operations\<close>

definition om_find :: "('k, 'v) omap \<Rightarrow> 'k \<Rightarrow> 'v option" where
  "om_find m k = map_of m k"

text \<open>\<open>m[k] = v\<close>.\<close>

fun om_insert :: "'k::linorder \<Rightarrow> 'v \<Rightarrow> ('k, 'v) omap \<Rightarrow> ('k, 'v) omap" where
  "om_insert k v [] = [(k, v)]"
| "om_insert k v ((a, b) # m) =
     (if k < a then (k, v) # (a, b) # m
      else if k = a then (k, v) # m
      else (a, b) # om_insert k v m)"

text \<open>\<open>emplace\<close> and \<open>insert\<close>: an existing entry stays.\<close>

definition om_emplace :: "'k::linorder \<Rightarrow> 'v \<Rightarrow> ('k, 'v) omap \<Rightarrow> ('k, 'v) omap" where
  "om_emplace k v m = (case om_find m k of None \<Rightarrow> om_insert k v m | Some _ \<Rightarrow> m)"

definition om_erase :: "'k \<Rightarrow> ('k, 'v) omap \<Rightarrow> ('k, 'v) omap" where
  "om_erase k m = filter (\<lambda>kv. fst kv \<noteq> k) m"

definition om_keys :: "('k, 'v) omap \<Rightarrow> 'k set" where
  "om_keys m = fst ` set m"

text \<open>The representation invariant: strictly increasing keys.\<close>

definition om_inv :: "('k::linorder, 'v) omap \<Rightarrow> bool" where
  "om_inv m \<longleftrightarrow> sorted_wrt (<) (map fst m)"

section \<open>The map interface\<close>

text \<open>What clients of \<open>std::map\<close> rely on, and the two loops over a map that the program
  writes again and again: assigning every entry of one map to another, and emplacing.\<close>

locale std_map =
  fixes find :: "'m \<Rightarrow> 'k \<Rightarrow> 'v option"
    and insert :: "'k \<Rightarrow> 'v \<Rightarrow> 'm \<Rightarrow> 'm"
    and erase :: "'k \<Rightarrow> 'm \<Rightarrow> 'm"
    and inv :: "'m \<Rightarrow> bool"
  assumes find_insert: "find (insert k v m) = (find m)(k \<mapsto> v)"
    and find_erase: "find (erase k m) = (find m)(k := None)"
    and inv_insert: "inv m \<Longrightarrow> inv (insert k v m)"
    and inv_erase: "inv m \<Longrightarrow> inv (erase k m)"
begin

lemma find_fold_insert:
  "find (fold (\<lambda>(k, v). insert k v) kvs m) = (find m) ++ map_of (rev kvs)"
proof (induction kvs arbitrary: m)
  case Nil
  show ?case by simp
next
  case (Cons kv kvs)
  then show ?case
    by (cases kv) (auto simp: find_insert fun_eq_iff map_add_def split: option.splits)
qed

lemma inv_fold_insert: "inv m \<Longrightarrow> inv (fold (\<lambda>(k, v). insert k v) kvs m)"
  by (induction kvs arbitrary: m) (auto intro: inv_insert)

lemma find_insert_other: "k \<noteq> k' \<Longrightarrow> find (insert k v m) k' = find m k'"
  by (simp add: find_insert)

lemma find_insert_same [simp]: "find (insert k v m) k = Some v"
  by (simp add: find_insert)

lemma erase_then_insert: "find (insert k v (erase k m)) = (find m)(k \<mapsto> v)"
  by (simp add: find_insert find_erase fun_eq_iff)

end

section \<open>The sorted association list provides it\<close>

lemma om_find_Nil [simp]: "om_find [] k = None"
  by (simp add: om_find_def)

lemma om_find_Cons [simp]:
  "om_find ((a, b) # m) k = (if k = a then Some b else om_find m k)"
  by (simp add: om_find_def)

lemma om_find_insert: "om_find (om_insert k v m) = (om_find m)(k \<mapsto> v)"
  by (induction k v m rule: om_insert.induct) (auto simp: fun_eq_iff)

lemma om_find_erase: "om_find (om_erase k m) = (om_find m)(k := None)"
  by (induction m) (auto simp: om_erase_def om_find_def fun_eq_iff)

lemma om_keys_insert [simp]: "om_keys (om_insert k v m) = insert k (om_keys m)"
  by (induction k v m rule: om_insert.induct) (auto simp: om_keys_def)

lemma set_om_insert: "set (om_insert k v m) \<subseteq> insert (k, v) (set m)"
  by (induction k v m rule: om_insert.induct) auto

lemma om_keys_Nil [simp]: "om_keys [] = {}"
  by (simp add: om_keys_def)

lemma om_keys_Cons [simp]: "om_keys ((a, b) # m) = insert a (om_keys m)"
  by (simp add: om_keys_def)

lemma om_inv_Nil [simp]: "om_inv []"
  by (simp add: om_inv_def)

lemma om_inv_Cons: "om_inv ((a, b) # m) \<longleftrightarrow> (\<forall>k\<in>om_keys m. a < k) \<and> om_inv m"
  by (auto simp: om_inv_def om_keys_def)

lemma om_inv_insert: "om_inv m \<Longrightarrow> om_inv (om_insert k v m)"
proof (induction k v m rule: om_insert.induct)
  case (1 k v)
  show ?case by (simp add: om_inv_def)
next
  case (2 k v a b m)
  then show ?case by (auto simp: om_inv_Cons)
qed

lemma om_inv_erase: "om_inv m \<Longrightarrow> om_inv (om_erase k m)"
proof (induction m)
  case Nil
  then show ?case by (simp add: om_erase_def)
next
  case (Cons x m)
  then show ?case
    by (cases x) (auto simp: om_erase_def om_inv_Cons om_keys_def)
qed

interpretation om: std_map om_find om_insert om_erase om_inv
  by unfold_locales (simp_all add: om_find_insert om_find_erase om_inv_insert om_inv_erase)

lemma om_inv_emplace: "om_inv m \<Longrightarrow> om_inv (om_emplace k v m)"
  by (simp add: om_emplace_def om_inv_insert split: option.split)

lemma om_find_emplace:
  "om_find (om_emplace k v m) = (case om_find m k of None \<Rightarrow> (om_find m)(k \<mapsto> v) | Some _ \<Rightarrow> om_find m)"
  by (simp add: om_emplace_def om_find_insert split: option.split)

lemma om_find_None: "om_find m k = None \<longleftrightarrow> k \<notin> om_keys m"
  by (simp add: om_find_def om_keys_def map_of_eq_None_iff)

lemma om_find_Some_keys: "om_find m k = Some v \<Longrightarrow> k \<in> om_keys m"
  by (metis om_find_None option.distinct(1))

lemma om_inv_distinct: "om_inv m \<Longrightarrow> distinct (map fst m)"
  by (simp add: om_inv_def strict_sorted_iff)

lemma om_find_in_set: "om_inv m \<Longrightarrow> om_find m k = Some v \<longleftrightarrow> (k, v) \<in> set m"
  by (simp add: om_find_def om_inv_distinct)

text \<open>Two maps in canonical form with the same lookups are the same map.\<close>

lemma om_ext:
  assumes "om_inv m" "om_inv m'" "\<And>k. om_find m k = om_find m' k"
  shows "m = m'"
proof -
  have "set m = set m'"
    using assms by (auto simp flip: om_find_in_set)
  moreover have "sorted (map fst m)" "sorted (map fst m')" "distinct (map fst m)" "distinct (map fst m')"
    using assms(1,2) by (simp_all add: om_inv_def strict_sorted_iff)
  ultimately show ?thesis
    by (intro map_sorted_distinct_set_unique [of fst]) (auto simp: distinct_map)
qed

lemma map_of_rev: "distinct (map fst m) \<Longrightarrow> map_of (rev m) = map_of m"
  by (rule ext, rule option.expand)
    (auto simp: map_of_eq_None_iff map_of_eq_Some_iff rev_map [symmetric] dest!: map_of_SomeD)

text \<open>Inserting the entries of a map one by one into the empty map copies it.\<close>

lemma fold_om_insert: "om_inv m \<Longrightarrow> fold (\<lambda>(k, v). om_insert k v) m [] = m"
  using om.find_fold_insert [of m "[]"]
  by (intro om_ext om.inv_fold_insert) (simp_all add: om_find_def [abs_def] map_of_rev om_inv_distinct)

end
