(* ===== verification/Json.thy ===== *)
theory Json
  imports OrderedMap "HOL-Library.Word"
begin

unbundle bit_operations_syntax

text \<open>
  The JSON values of \<open>src/src/common/parson/parson.c\<close> and the part of its interface the
  program calls. A value is a tree; a pointer to a value, object or array that may be NULL is
  an option. An object keeps its members in insertion order with distinct names. A number is
  the bit pattern of its IEEE double. Allocation does not fail in the model. The parent pointer
  is not represented: the model has value semantics, so a value is attached exactly once, which
  is what the test \<open>value->parent != NULL\<close> enforces.
\<close>

section \<open>Values\<close>

datatype json =
    JNull
  | JString string
  | JNumber "64 word"
  | JObject "(string \<times> json) list"
  | JArray "json list"
  | JBoolean bool

type_synonym jobject = "(string \<times> json) list"

datatype json_value_type =
  JSONError | JSONNull | JSONString | JSONNumber | JSONObject | JSONArray | JSONBoolean

fun json_value_get_type :: "json option \<Rightarrow> json_value_type" where
  "json_value_get_type None = JSONError"
| "json_value_get_type (Some JNull) = JSONNull"
| "json_value_get_type (Some (JString s)) = JSONString"
| "json_value_get_type (Some (JNumber d)) = JSONNumber"
| "json_value_get_type (Some (JObject ms)) = JSONObject"
| "json_value_get_type (Some (JArray vs)) = JSONArray"
| "json_value_get_type (Some (JBoolean b)) = JSONBoolean"

fun json_value_get_object :: "json option \<Rightarrow> jobject option" where
  "json_value_get_object (Some (JObject ms)) = Some ms"
| "json_value_get_object v = None"

fun json_value_get_array :: "json option \<Rightarrow> json list option" where
  "json_value_get_array (Some (JArray vs)) = Some vs"
| "json_value_get_array v = None"

text \<open>The characters of a string value with the stored length, and as the C string they are
  when read up to the terminator.\<close>

fun json_value_get_string_desc :: "json option \<Rightarrow> string option" where
  "json_value_get_string_desc (Some (JString s)) = Some s"
| "json_value_get_string_desc v = None"

definition json_value_get_string :: "json option \<Rightarrow> string option" where
  "json_value_get_string v = map_option c_str (json_value_get_string_desc v)"

definition json_value_get_string_len :: "json option \<Rightarrow> nat" where
  "json_value_get_string_len v =
     (case json_value_get_string_desc v of None \<Rightarrow> 0 | Some s \<Rightarrow> length s)"

fun json_value_get_boolean :: "json option \<Rightarrow> int" where
  "json_value_get_boolean (Some (JBoolean b)) = (if b then 1 else 0)"
| "json_value_get_boolean v = -1"

lemma json_type_iff [simp]:
  "json_value_get_type v = JSONError \<longleftrightarrow> v = None"
  "json_value_get_type v = JSONNull \<longleftrightarrow> v = Some JNull"
  "json_value_get_type v = JSONString \<longleftrightarrow> (\<exists>s. v = Some (JString s))"
  "json_value_get_type v = JSONObject \<longleftrightarrow> (\<exists>ms. v = Some (JObject ms))"
  "json_value_get_type v = JSONArray \<longleftrightarrow> (\<exists>vs. v = Some (JArray vs))"
  "json_value_get_type v = JSONBoolean \<longleftrightarrow> (\<exists>b. v = Some (JBoolean b))"
  by (cases v rule: json_value_get_type.cases; simp)+

lemma json_value_get_object_iff [simp]:
  "json_value_get_object v = Some ms \<longleftrightarrow> v = Some (JObject ms)"
  "Some ms = json_value_get_object v \<longleftrightarrow> v = Some (JObject ms)"
  by (cases v rule: json_value_get_object.cases; auto)+

lemma json_value_get_array_iff [simp]:
  "json_value_get_array v = Some vs \<longleftrightarrow> v = Some (JArray vs)"
  by (cases v rule: json_value_get_array.cases) auto

lemma json_value_get_string_desc_iff [simp]:
  "json_value_get_string_desc v = Some s \<longleftrightarrow> v = Some (JString s)"
  by (cases v rule: json_value_get_string_desc.cases) auto

section \<open>Reading objects and arrays\<close>

definition json_object_get_count :: "jobject option \<Rightarrow> nat" where
  "json_object_get_count ob = (case ob of None \<Rightarrow> 0 | Some ms \<Rightarrow> length ms)"

text \<open>\<open>json_object_getn_value\<close>: the first member of that name, in order.\<close>

fun json_object_getn_value :: "jobject \<Rightarrow> string \<Rightarrow> json option" where
  "json_object_getn_value [] name = None"
| "json_object_getn_value ((n, v) # ms) name =
     (if n = name then Some v else json_object_getn_value ms name)"

definition json_object_get_value :: "jobject option \<Rightarrow> string \<Rightarrow> json option" where
  "json_object_get_value ob name =
     (case ob of None \<Rightarrow> None | Some ms \<Rightarrow> json_object_getn_value ms name)"

definition json_object_get_string :: "jobject option \<Rightarrow> string \<Rightarrow> string option" where
  "json_object_get_string ob name = json_value_get_string (json_object_get_value ob name)"

definition json_object_get_object :: "jobject option \<Rightarrow> string \<Rightarrow> jobject option" where
  "json_object_get_object ob name = json_value_get_object (json_object_get_value ob name)"

definition json_object_get_array :: "jobject option \<Rightarrow> string \<Rightarrow> json list option" where
  "json_object_get_array ob name = json_value_get_array (json_object_get_value ob name)"

definition json_object_get_name :: "jobject option \<Rightarrow> nat \<Rightarrow> string option" where
  "json_object_get_name ob i =
     (case ob of None \<Rightarrow> None | Some ms \<Rightarrow> if i < length ms then Some (fst (ms ! i)) else None)"

definition json_object_get_value_at :: "jobject option \<Rightarrow> nat \<Rightarrow> json option" where
  "json_object_get_value_at ob i =
     (case ob of None \<Rightarrow> None | Some ms \<Rightarrow> if i < length ms then Some (snd (ms ! i)) else None)"

definition json_object_has_value :: "jobject option \<Rightarrow> string \<Rightarrow> bool" where
  "json_object_has_value ob name = (json_object_get_value ob name \<noteq> None)"

definition json_array_get_count :: "json list option \<Rightarrow> nat" where
  "json_array_get_count a = (case a of None \<Rightarrow> 0 | Some vs \<Rightarrow> length vs)"

definition json_array_get_value :: "json list option \<Rightarrow> nat \<Rightarrow> json option" where
  "json_array_get_value a i =
     (case a of None \<Rightarrow> None | Some vs \<Rightarrow> if i < length vs then Some (vs ! i) else None)"

definition json_array_get_object :: "json list option \<Rightarrow> nat \<Rightarrow> jobject option" where
  "json_array_get_object a i = json_value_get_object (json_array_get_value a i)"

lemma json_object_getn_value_map_of: "json_object_getn_value ms name = map_of ms name"
  by (induction ms) auto

lemma json_object_get_value_Some [simp]:
  "json_object_get_value (Some ms) name = map_of ms name"
  by (simp add: json_object_get_value_def json_object_getn_value_map_of)

section \<open>UTF-8 validation\<close>

text \<open>Bytes as 32-bit words, so that the code's masks and shifts read as they are written.\<close>

definition is_cont :: "char \<Rightarrow> bool" where
  "is_cont b \<longleftrightarrow> (of_char b :: 32 word) AND 0xC0 = 0x80"

definition num_bytes_in_utf8_sequence :: "char \<Rightarrow> nat" where
  "num_bytes_in_utf8_sequence b =
     (let c = (of_char b :: 32 word) in
      if c = 0xC0 \<or> c = 0xC1 \<or> c > 0xF4 \<or> is_cont b then 0
      else if c AND 0x80 = 0 then 1
      else if c AND 0xE0 = 0xC0 then 2
      else if c AND 0xF0 = 0xE0 then 3
      else if c AND 0xF8 = 0xF0 then 4
      else 0)"

text \<open>The code point of the sequence at the front of the input, with its length; \<open>None\<close> where
  the lead byte or a continuation byte is wrong. The input is a C string: past its end the code
  reads the terminator, which is not a continuation byte.\<close>

fun utf8_code_point :: "nat \<Rightarrow> string \<Rightarrow> (32 word) option" where
  "utf8_code_point n [] = None"
| "utf8_code_point n (b0 # bs) =
     (if n = 1 then Some (of_char b0)
      else if n = 2 then
        (case bs of b1 # _ \<Rightarrow>
           if is_cont b1
           then Some (push_bit 6 (of_char b0 AND 0x1F) OR (of_char b1 AND 0x3F)) else None
         | _ \<Rightarrow> None)
      else if n = 3 then
        (case bs of b1 # b2 # _ \<Rightarrow>
           if is_cont b1 \<and> is_cont b2
           then Some (push_bit 6 (push_bit 6 (of_char b0 AND 0xF) OR (of_char b1 AND 0x3F))
                      OR (of_char b2 AND 0x3F)) else None
         | _ \<Rightarrow> None)
      else if n = 4 then
        (case bs of b1 # b2 # b3 # _ \<Rightarrow>
           if is_cont b1 \<and> is_cont b2 \<and> is_cont b3
           then Some (push_bit 6 (push_bit 6 (push_bit 6 (of_char b0 AND 0x7) OR (of_char b1 AND 0x3F))
                      OR (of_char b2 AND 0x3F)) OR (of_char b3 AND 0x3F)) else None
         | _ \<Rightarrow> None)
      else None)"

definition verify_utf8_sequence :: "string \<Rightarrow> nat option" where
  "verify_utf8_sequence s =
     (let n = (case s of [] \<Rightarrow> 0 | b # _ \<Rightarrow> num_bytes_in_utf8_sequence b) in
      case utf8_code_point n s of
        None \<Rightarrow> None
      | Some cp \<Rightarrow>
          if (cp < 0x80 \<and> n > 1) \<or> (cp < 0x800 \<and> n > 2) \<or> (cp < 0x10000 \<and> n > 3) then None
          else if cp > 0x10FFFF then None
          else if cp \<ge> 0xD800 \<and> cp \<le> 0xDFFF then None
          else Some n)"

lemma verify_utf8_sequence_pos: "verify_utf8_sequence s = Some n \<Longrightarrow> 0 < n \<and> s \<noteq> []"
  by (cases s) (auto simp: verify_utf8_sequence_def Let_def split: option.splits if_splits)

function is_valid_utf8 :: "string \<Rightarrow> bool" where
  "is_valid_utf8 s =
     (if s = [] then True
      else (case verify_utf8_sequence s of None \<Rightarrow> False | Some n \<Rightarrow> is_valid_utf8 (drop n s)))"
  by pat_completeness auto
termination
  by (relation "measure length") (auto dest: verify_utf8_sequence_pos)

declare is_valid_utf8.simps [simp del]

section \<open>Building values\<close>

text \<open>An infinity or a NaN has all exponent bits set.\<close>

definition is_number_invalid :: "64 word \<Rightarrow> bool" where
  "is_number_invalid d \<longleftrightarrow> drop_bit 52 d AND 0x7FF = 0x7FF"

definition json_value_init_string_with_len :: "string \<Rightarrow> json option" where
  "json_value_init_string_with_len s = (if is_valid_utf8 s then Some (JString s) else None)"

text \<open>\<open>json_value_init_string\<close> receives a C string.\<close>

definition json_value_init_string :: "string \<Rightarrow> json option" where
  "json_value_init_string s = json_value_init_string_with_len (c_str s)"

definition json_value_init_number :: "64 word \<Rightarrow> json option" where
  "json_value_init_number d = (if is_number_invalid d then None else Some (JNumber d))"

definition json_object_add :: "jobject \<Rightarrow> string \<Rightarrow> json \<Rightarrow> jobject option" where
  "json_object_add ms name v =
     (if json_object_getn_value ms name \<noteq> None then None else Some (ms @ [(name, v)]))"

fun replace_member :: "jobject \<Rightarrow> string \<Rightarrow> json \<Rightarrow> jobject" where
  "replace_member [] name v = []"
| "replace_member ((n, w) # ms) name v =
     (if n = name then (n, v) # ms else (n, w) # replace_member ms name v)"

text \<open>\<open>json_object_set_value\<close>: an existing member keeps its position.\<close>

definition json_object_set_value :: "jobject \<Rightarrow> string \<Rightarrow> json \<Rightarrow> jobject option" where
  "json_object_set_value ms name v =
     (if json_object_get_value (Some ms) name \<noteq> None then Some (replace_member ms name v)
      else json_object_add ms name v)"

definition json_object_set_string :: "jobject \<Rightarrow> string \<Rightarrow> string \<Rightarrow> jobject option" where
  "json_object_set_string ms name s =
     (case json_value_init_string s of None \<Rightarrow> None | Some v \<Rightarrow> json_object_set_value ms (c_str name) v)"

definition json_object_set_string_with_len :: "jobject \<Rightarrow> string \<Rightarrow> string \<Rightarrow> jobject option" where
  "json_object_set_string_with_len ms name s =
     (case json_value_init_string_with_len s of None \<Rightarrow> None
      | Some v \<Rightarrow> json_object_set_value ms (c_str name) v)"

definition json_array_append_string :: "json list \<Rightarrow> string \<Rightarrow> json list option" where
  "json_array_append_string vs s =
     (case json_value_init_string s of None \<Rightarrow> None | Some v \<Rightarrow> Some (vs @ [v]))"

text \<open>\<open>json_object_remove\<close>: the last member takes the place of the removed one.\<close>

fun find_index :: "string \<Rightarrow> jobject \<Rightarrow> nat option" where
  "find_index name [] = None"
| "find_index name ((n, v) # ms) = (if n = name then Some 0 else map_option Suc (find_index name ms))"

definition json_object_remove_at :: "jobject \<Rightarrow> nat \<Rightarrow> jobject" where
  "json_object_remove_at ms i =
     (if i = length ms - 1 then butlast ms else butlast (ms[i := last ms]))"

definition json_object_remove :: "jobject \<Rightarrow> string \<Rightarrow> jobject option" where
  "json_object_remove ms name =
     (case find_index name ms of None \<Rightarrow> None | Some i \<Rightarrow> Some (json_object_remove_at ms i))"

end
