(* ===== verification/JsonParse.thy ===== *)
theory JsonParse
  imports Json
begin

text \<open>
  The parser of \<open>src/src/common/parson/parson.c\<close>: \<open>json_parse_string\<close> and the static
  functions behind it. The input is a C string, so the model's lists hold no terminator and the
  end of the list is where the code reads the NUL byte. Every function returns the value and the
  rest of the input, or \<open>None\<close> where the code returns NULL. The conversion of number
  literals is the C library's \<open>strtod\<close>, a parameter: it gives the double's bits and the number
  of characters it consumed, \<open>None\<close> when it sets errno.
\<close>

type_synonym strtod_fun = "string \<Rightarrow> (64 word \<times> nat) option"

definition MAX_NESTING :: nat where
  "MAX_NESTING = 2048"

section \<open>Strings\<close>

definition skip_whitespaces :: "string \<Rightarrow> string" where
  "skip_whitespaces s = dropWhile isspace s"

definition hex_char_to_int :: "char \<Rightarrow> nat option" where
  "hex_char_to_int c =
     (if 48 \<le> byte c \<and> byte c \<le> 57 then Some (byte c - 48)
      else if 97 \<le> byte c \<and> byte c \<le> 102 then Some (byte c - 97 + 10)
      else if 65 \<le> byte c \<and> byte c \<le> 70 then Some (byte c - 65 + 10)
      else None)"

fun parse_utf16_hex :: "string \<Rightarrow> (32 word) option" where
  "parse_utf16_hex (a # b # c # d # s) =
     (case (hex_char_to_int a, hex_char_to_int b, hex_char_to_int c, hex_char_to_int d) of
        (Some x1, Some x2, Some x3, Some x4) \<Rightarrow>
          Some (push_bit 12 (of_nat x1) OR push_bit 8 (of_nat x2) OR push_bit 4 (of_nat x3) OR of_nat x4)
      | _ \<Rightarrow> None)"
| "parse_utf16_hex s = None"

definition byte_of :: "32 word \<Rightarrow> char" where
  "byte_of w = char_of (unat w)"

text \<open>\<open>parse_utf16\<close>, called behind the \<open>u\<close> of an escape: the UTF-8 bytes and the rest.\<close>

definition parse_utf16 :: "string \<Rightarrow> (string \<times> string) option" where
  "parse_utf16 s =
     (case parse_utf16_hex s of
        None \<Rightarrow> None
      | Some cp \<Rightarrow>
          if cp < 0x80 then Some ([byte_of cp], drop 4 s)
          else if cp < 0x800 then
            Some ([byte_of ((drop_bit 6 cp AND 0x1F) OR 0xC0), byte_of ((cp AND 0x3F) OR 0x80)], drop 4 s)
          else if cp < 0xD800 \<or> cp > 0xDFFF then
            Some ([byte_of ((drop_bit 12 cp AND 0x0F) OR 0xE0),
                   byte_of ((drop_bit 6 cp AND 0x3F) OR 0x80), byte_of ((cp AND 0x3F) OR 0x80)], drop 4 s)
          else if cp \<ge> 0xD800 \<and> cp \<le> 0xDBFF then
            (case drop 4 s of
               b # u # s' \<Rightarrow>
                 if b \<noteq> BSL \<or> u \<noteq> CHR ''u'' then None
                 else (case parse_utf16_hex s' of
                         None \<Rightarrow> None
                       | Some trail \<Rightarrow>
                           if trail < 0xDC00 \<or> trail > 0xDFFF then None
                           else let cp' = (push_bit 10 ((cp - 0xD800) AND 0x3FF)
                                           OR ((trail - 0xDC00) AND 0x3FF)) + 0x10000
                                in Some ([byte_of ((drop_bit 18 cp' AND 0x07) OR 0xF0),
                                          byte_of ((drop_bit 12 cp' AND 0x3F) OR 0x80),
                                          byte_of ((drop_bit 6 cp' AND 0x3F) OR 0x80),
                                          byte_of ((cp' AND 0x3F) OR 0x80)], drop 4 s'))
             | _ \<Rightarrow> None)
          else None)"

lemma parse_utf16_hex_length: "parse_utf16_hex s = Some w \<Longrightarrow> 4 \<le> length s"
  by (cases s rule: parse_utf16_hex.cases) auto

lemma parse_utf16_rest:
  assumes "parse_utf16 s = Some (bs, r)"
  shows "4 \<le> length s \<and> (r = drop 4 s \<or> (\<exists>b u s'. drop 4 s = b # u # s' \<and> r = drop 4 s'))"
proof -
  from assms obtain cp where "parse_utf16_hex s = Some cp"
    by (auto simp: parse_utf16_def split: option.splits)
  then have "4 \<le> length s" by (rule parse_utf16_hex_length)
  with assms show ?thesis
    by (auto simp: parse_utf16_def Let_def split: option.splits if_splits list.splits)
qed

lemma parse_utf16_length: "parse_utf16 s = Some (bs, r) \<Longrightarrow> length r < length s"
proof -
  assume "parse_utf16 s = Some (bs, r)"
  then have l: "4 \<le> length s" and "r = drop 4 s \<or> (\<exists>b u s'. drop 4 s = b # u # s' \<and> r = drop 4 s')"
    using parse_utf16_rest by blast+
  then have "length r \<le> length (drop 4 s)" by (auto dest!: arg_cong [where f = length])
  with l show ?thesis by simp
qed

text \<open>The one-character escapes.\<close>

definition simple_escape :: "char \<Rightarrow> char option" where
  "simple_escape c =
     (if c = DQ then Some DQ
      else if c = BSL then Some BSL
      else if c = CHR ''/'' then Some (CHR ''/'')
      else if c = CHR ''b'' then Some (CHR 0x08)
      else if c = CHR ''f'' then Some (CHR 0x0C)
      else if c = CHR ''n'' then Some (CHR 0x0A)
      else if c = CHR ''r'' then Some (CHR 0x0D)
      else if c = CHR ''t'' then Some (CHR 0x09)
      else None)"

text \<open>\<open>process_string\<close>: the content between the quotes, with the escapes replaced.\<close>

function process_string :: "string \<Rightarrow> string option" where
  "process_string [] = Some []"
| "process_string (c # cs) =
     (if c = BSL then
        (case cs of
           [] \<Rightarrow> None
         | e # es \<Rightarrow>
             (case simple_escape e of
                Some d \<Rightarrow> map_option (\<lambda>out. d # out) (process_string es)
              | None \<Rightarrow>
                  if e = CHR ''u'' then
                    (case parse_utf16 es of
                       None \<Rightarrow> None
                     | Some (bs, r) \<Rightarrow> map_option (\<lambda>out. bs @ out) (process_string r))
                  else None))
      else if byte c < 0x20 then None
      else map_option (\<lambda>out. c # out) (process_string cs))"
  by pat_completeness auto
termination
  by (relation "measure length") (auto dest: parse_utf16_length)

text \<open>\<open>skip_quotes\<close> behind the opening quote: the raw content and the rest.\<close>

fun skip_quotes :: "string \<Rightarrow> (string \<times> string) option" where
  "skip_quotes [] = None"
| "skip_quotes (c # cs) =
     (if c = DQ then Some ([], cs)
      else if c = BSL then
        (case cs of
           [] \<Rightarrow> None
         | d # ds \<Rightarrow> map_option (\<lambda>(raw, r). (c # d # raw, r)) (skip_quotes ds))
      else map_option (\<lambda>(raw, r). (c # raw, r)) (skip_quotes cs))"

definition get_quoted_string :: "string \<Rightarrow> (string \<times> string) option" where
  "get_quoted_string s =
     (case s of
        [] \<Rightarrow> None
      | c # cs \<Rightarrow>
          if c \<noteq> DQ then None
          else (case skip_quotes cs of
                  None \<Rightarrow> None
                | Some (raw, r) \<Rightarrow> map_option (\<lambda>str. (str, r)) (process_string raw)))"

lemma skip_quotes_length: "skip_quotes s = Some (raw, r) \<Longrightarrow> length r < length s"
  by (induction s arbitrary: raw rule: skip_quotes.induct)
    (fastforce split: if_splits list.splits)+

lemma get_quoted_string_length: "get_quoted_string s = Some (str, r) \<Longrightarrow> length r < length s"
  by (auto simp: get_quoted_string_def dest: skip_quotes_length split: list.splits if_splits option.splits)

lemma skip_whitespaces_length: "length (skip_whitespaces s) \<le> length s"
  by (simp add: skip_whitespaces_def length_dropWhile_le)

section \<open>Values\<close>

definition is_decimal :: "string \<Rightarrow> bool" where
  "is_decimal s \<longleftrightarrow>
     \<not> (length s > 1 \<and> s ! 0 = CHR ''0'' \<and> s ! 1 \<noteq> CHR ''.'') \<and>
     \<not> (length s > 2 \<and> take 2 s = ''-0'' \<and> s ! 2 \<noteq> CHR ''.'') \<and>
     CHR ''x'' \<notin> set s \<and> CHR ''X'' \<notin> set s"

definition parse_number_value :: "strtod_fun \<Rightarrow> string \<Rightarrow> (json \<times> string) option" where
  "parse_number_value strtod s =
     (case strtod s of
        None \<Rightarrow> None
      | Some (d, n) \<Rightarrow>
          if \<not> is_decimal (take n s) then None
          else map_option (\<lambda>v. (v, drop n s)) (json_value_init_number d))"

definition parse_boolean_value :: "string \<Rightarrow> (json \<times> string) option" where
  "parse_boolean_value s =
     (if starts_with ''true'' s then Some (JBoolean True, drop 4 s)
      else if starts_with ''false'' s then Some (JBoolean False, drop 5 s)
      else None)"

definition parse_null_value :: "string \<Rightarrow> (json \<times> string) option" where
  "parse_null_value s = (if starts_with ''null'' s then Some (JNull, drop 4 s) else None)"

definition parse_string_value :: "string \<Rightarrow> (json \<times> string) option" where
  "parse_string_value s = map_option (\<lambda>(str, r). (JString str, r)) (get_quoted_string s)"

text \<open>The recursive part. \<open>parse_members\<close> and \<open>parse_items\<close> are the loops of
  \<open>parse_object_value\<close> and \<open>parse_array_value\<close>, with the members and items read so far. The
  length tests before the next round of a loop hold in every call (\<open>parse_value_length\<close> below);
  they let the termination proof see that the input shrinks.\<close>

function parse_value :: "strtod_fun \<Rightarrow> nat \<Rightarrow> string \<Rightarrow> (json \<times> string) option"
  and parse_object_value :: "strtod_fun \<Rightarrow> nat \<Rightarrow> string \<Rightarrow> (json \<times> string) option"
  and parse_members :: "strtod_fun \<Rightarrow> nat \<Rightarrow> jobject \<Rightarrow> string \<Rightarrow> (json \<times> string) option"
  and parse_array_value :: "strtod_fun \<Rightarrow> nat \<Rightarrow> string \<Rightarrow> (json \<times> string) option"
  and parse_items :: "strtod_fun \<Rightarrow> nat \<Rightarrow> json list \<Rightarrow> string \<Rightarrow> (json \<times> string) option"
where
  "parse_value strtod nesting s0 =
     (if nesting > MAX_NESTING then None
      else let s = skip_whitespaces s0 in
        if s = [] then None
        else if hd s = CHR ''{'' then parse_object_value strtod (Suc nesting) s
        else if hd s = CHR ''['' then parse_array_value strtod (Suc nesting) s
        else if hd s = DQ then parse_string_value s
        else if hd s = CHR ''f'' \<or> hd s = CHR ''t'' then parse_boolean_value s
        else if hd s = CHR ''-'' \<or> isdigit (hd s) then parse_number_value strtod s
        else if hd s = CHR ''n'' then parse_null_value s
        else None)"
| "parse_object_value strtod nesting s =
     (if s = [] \<or> hd s \<noteq> CHR ''{'' then None
      else let t = skip_whitespaces (tl s) in
        if t \<noteq> [] \<and> hd t = CHR ''}'' then Some (JObject [], tl t)
        else parse_members strtod nesting [] t)"
| "parse_members strtod nesting ms s =
     (case get_quoted_string s of
        None \<Rightarrow> None
      | Some (key, s1) \<Rightarrow>
          if NUL \<in> set key then None
          else let s2 = skip_whitespaces s1 in
            if s2 = [] \<or> hd s2 \<noteq> CHR '':'' then None
            else (case parse_value strtod nesting (tl s2) of
                    None \<Rightarrow> None
                  | Some (v, s3) \<Rightarrow>
                      (case json_object_add ms key v of
                         None \<Rightarrow> None
                       | Some ms' \<Rightarrow>
                           let s4 = skip_whitespaces s3 in
                           if s4 = [] then None
                           else if hd s4 = CHR '','' then
                             (if length s4 \<le> length s
                              then parse_members strtod nesting ms' (skip_whitespaces (tl s4)) else None)
                           else if hd s4 = CHR ''}'' then Some (JObject ms', tl s4)
                           else None)))"
| "parse_array_value strtod nesting s =
     (if s = [] \<or> hd s \<noteq> CHR ''['' then None
      else let t = skip_whitespaces (tl s) in
        if t \<noteq> [] \<and> hd t = CHR '']'' then Some (JArray [], tl t)
        else parse_items strtod nesting [] t)"
| "parse_items strtod nesting vs s =
     (case parse_value strtod nesting s of
        None \<Rightarrow> None
      | Some (v, s3) \<Rightarrow>
          let s4 = skip_whitespaces s3 in
          if s4 = [] then None
          else if hd s4 = CHR '','' then
            (if length s4 \<le> length s
             then parse_items strtod nesting (vs @ [v]) (skip_whitespaces (tl s4)) else None)
          else if hd s4 = CHR '']'' then Some (JArray (vs @ [v]), tl s4)
          else None)"
  by pat_completeness auto

lemma skip_le_neq: "length (skip_whitespaces s) \<noteq> length s \<Longrightarrow> length (skip_whitespaces s) < length s"
  using skip_whitespaces_length [of s] by linarith

lemma skip_less: "length b < n \<Longrightarrow> length (skip_whitespaces b) - Suc 0 < n"
  using skip_whitespaces_length [of b] by linarith

lemma skip_tl_less: "s \<noteq> [] \<Longrightarrow> length (skip_whitespaces (tl s)) < length s"
  using skip_whitespaces_length [of "tl s"] by (cases s) auto

lemma skip_tl_less_le: "s \<noteq> [] \<Longrightarrow> length s \<le> n \<Longrightarrow> length (skip_whitespaces (tl s)) < n"
  using skip_tl_less [of s] by linarith

termination parse_value
  by (relation "measures [\<lambda>x. case x of Inl (Inl (_, _, s)) \<Rightarrow> length s | Inl (Inr (_, _, s)) \<Rightarrow> length s
      | Inr (Inl (_, _, _, s)) \<Rightarrow> length s | Inr (Inr (Inl (_, _, s))) \<Rightarrow> length s
      | Inr (Inr (Inr (_, _, _, s))) \<Rightarrow> length s,
    \<lambda>x. case x of Inl (Inl _) \<Rightarrow> 1 | Inl (Inr _) \<Rightarrow> 0 | Inr (Inl _) \<Rightarrow> 2
      | Inr (Inr (Inl _)) \<Rightarrow> 0 | Inr (Inr (Inr _)) \<Rightarrow> 2]")
    (auto dest!: get_quoted_string_length intro: skip_le_neq skip_less skip_tl_less skip_tl_less_le)

declare parse_value.simps [simp del] parse_object_value.simps [simp del] parse_members.simps [simp del]
  parse_array_value.simps [simp del] parse_items.simps [simp del]

text \<open>A parser consumes its input: what it leaves is never longer. So the length tests in the
  loops are always true.\<close>

lemma parse_number_value_length: "parse_number_value strtod s = Some (v, r) \<Longrightarrow> length r \<le> length s"
  by (auto simp: parse_number_value_def split: option.splits if_splits)

lemma parse_scalar_length:
  "parse_boolean_value s = Some (v, r) \<Longrightarrow> length r \<le> length s"
  "parse_null_value s = Some (v, r) \<Longrightarrow> length r \<le> length s"
  "parse_string_value s = Some (v, r) \<Longrightarrow> length r \<le> length s"
  by (auto simp: parse_boolean_value_def parse_null_value_def parse_string_value_def
      dest: get_quoted_string_length split: if_splits)

lemmas parse_value_induct =
  parse_value_parse_object_value_parse_members_parse_array_value_parse_items.induct

lemma parse_value_length_all:
  shows parse_value_length: "parse_value strtod n s = Some (v, r) \<Longrightarrow> length r \<le> length s"
    and parse_object_value_length: "parse_object_value strtod n s = Some (v, r) \<Longrightarrow> length r \<le> length s"
    and parse_members_length: "parse_members strtod n ms s = Some (v, r) \<Longrightarrow> length r \<le> length s"
    and parse_array_value_length: "parse_array_value strtod n s = Some (v, r) \<Longrightarrow> length r \<le> length s"
    and parse_items_length: "parse_items strtod n vs s = Some (v, r) \<Longrightarrow> length r \<le> length s"
proof (induction strtod n s and strtod n s and strtod n ms s and strtod n s and strtod n vs s
    arbitrary: v r and v r and v r and v r and v r rule: parse_value_induct)
  case (1 strtod nesting s0)
  have w: "length (skip_whitespaces s0) \<le> length s0" by (rule skip_whitespaces_length)
  from 1 show ?case
    by (auto simp: Let_def parse_value.simps [of strtod nesting s0] split: if_splits
        dest!: parse_number_value_length parse_scalar_length intro: le_trans [OF _ w])
next
  case (2 strtod nesting s)
  let ?t = "skip_whitespaces (tl s)"
  from "2.prems" have s: "s \<noteq> []" "hd s = CHR ''{''"
    and d: "r = tl ?t \<or> (\<not> (?t \<noteq> [] \<and> hd ?t = CHR ''}'') \<and> parse_members strtod nesting [] ?t = Some (v, r))"
    by (auto simp: Let_def parse_object_value.simps [of strtod nesting s] split: if_splits)
  then have "length r \<le> length ?t"
    using "2.IH" by auto
  with skip_tl_less [OF s(1)] show ?case by simp
next
  case (3 strtod nesting ms s)
  from "3.prems" obtain key s1 v' s3 ms' where q: "get_quoted_string s = Some (key, s1)" "NUL \<notin> set key"
      "skip_whitespaces s1 \<noteq> []" "hd (skip_whitespaces s1) = CHR '':''"
      "parse_value strtod nesting (tl (skip_whitespaces s1)) = Some (v', s3)"
      "json_object_add ms key v' = Some ms'" "skip_whitespaces s3 \<noteq> []"
    and d: "(hd (skip_whitespaces s3) = CHR '','' \<and> length (skip_whitespaces s3) \<le> length s \<and>
         parse_members strtod nesting ms' (skip_whitespaces (tl (skip_whitespaces s3))) = Some (v, r))
      \<or> r = tl (skip_whitespaces s3)"
    by (auto simp: Let_def parse_members.simps [of strtod nesting ms s] split: option.splits if_splits)
  have "length s3 \<le> length (tl (skip_whitespaces s1))"
    using "3.IH"(1) q by blast
  with q(1) have s3: "length s3 \<le> length s"
    using get_quoted_string_length skip_whitespaces_length [of s1] by fastforce
  from d show ?case
  proof
    assume "r = tl (skip_whitespaces s3)"
    with s3 skip_whitespaces_length [of s3] show ?case by simp
  next
    assume d: "hd (skip_whitespaces s3) = CHR '','' \<and> length (skip_whitespaces s3) \<le> length s \<and>
         parse_members strtod nesting ms' (skip_whitespaces (tl (skip_whitespaces s3))) = Some (v, r)"
    then have "length r \<le> length (skip_whitespaces (tl (skip_whitespaces s3)))"
      using "3.IH"(2) q by blast
    with d q skip_tl_less_le show ?case by fastforce
  qed
next
  case (4 strtod nesting s)
  let ?t = "skip_whitespaces (tl s)"
  from "4.prems" have s: "s \<noteq> []" "hd s = CHR ''[''"
    and d: "r = tl ?t \<or> (\<not> (?t \<noteq> [] \<and> hd ?t = CHR '']'') \<and> parse_items strtod nesting [] ?t = Some (v, r))"
    by (auto simp: Let_def parse_array_value.simps [of strtod nesting s] split: if_splits)
  then have "length r \<le> length ?t"
    using "4.IH" by auto
  with skip_tl_less [OF s(1)] show ?case by simp
next
  case (5 strtod nesting vs s)
  from "5.prems" obtain v' s3 where q: "parse_value strtod nesting s = Some (v', s3)" "skip_whitespaces s3 \<noteq> []"
    and d: "(hd (skip_whitespaces s3) = CHR '','' \<and> length (skip_whitespaces s3) \<le> length s \<and>
         parse_items strtod nesting (vs @ [v']) (skip_whitespaces (tl (skip_whitespaces s3))) = Some (v, r))
      \<or> r = tl (skip_whitespaces s3)"
    by (auto simp: Let_def parse_items.simps [of strtod nesting vs s] split: option.splits if_splits)
  have s3: "length s3 \<le> length s"
    using "5.IH"(1) q by blast
  from d show ?case
  proof
    assume "r = tl (skip_whitespaces s3)"
    with s3 skip_whitespaces_length [of s3] show ?case by simp
  next
    assume d: "hd (skip_whitespaces s3) = CHR '','' \<and> length (skip_whitespaces s3) \<le> length s \<and>
         parse_items strtod nesting (vs @ [v']) (skip_whitespaces (tl (skip_whitespaces s3))) = Some (v, r)"
    then have "length r \<le> length (skip_whitespaces (tl (skip_whitespaces s3)))"
      using "5.IH"(2) q by blast
    with d q skip_tl_less_le show ?case by fastforce
  qed
qed

section \<open>Entry point\<close>

text \<open>\<open>json_parse_string\<close> skips a UTF-8 byte order mark and parses one value. What follows the
  value is not looked at.\<close>

definition json_parse_string :: "strtod_fun \<Rightarrow> string \<Rightarrow> json option" where
  "json_parse_string strtod s =
     (let s' = (if starts_with [CHR 0xEF, CHR 0xBB, CHR 0xBF] s then drop 3 s else s)
      in map_option fst (parse_value strtod 0 s'))"

end
