(* ===== verification/JsonSerialize.thy ===== *)
theory JsonSerialize
  imports Json
begin

text \<open>
  The serialiser of \<open>src/src/common/parson/parson.c\<close>. \<open>json_serialize_to_string\<close> runs
  \<open>json_serialize_to_buffer_r\<close> twice, once without a buffer to learn the size and once to
  write; both passes make the same appends, so the model is the text they append. The member
  loop of an object looks each value up by its name; names are distinct (\<open>json_object_add\<close>
  refuses a second one), so the value is the member's own. The C library's rendering of a
  double with the format of the macro \<open>FLOAT_FORMAT\<close> is a parameter.
\<close>

type_synonym fmt_fun = "64 word \<Rightarrow> string"

definition parson_escape_slashes :: bool where
  "parson_escape_slashes = True"

definition hex_digit :: "nat \<Rightarrow> char" where
  "hex_digit d = (if d < 10 then char_of (48 + d) else char_of (97 + (d - 10)))"

text \<open>One iteration of \<open>json_serialize_string\<close>.\<close>

definition escape_char :: "char \<Rightarrow> string" where
  "escape_char c =
     (if c = DQ then [BSL, DQ]
      else if c = BSL then [BSL, BSL]
      else if c = CHR 0x08 then [BSL, CHR ''b'']
      else if c = CHR 0x0C then [BSL, CHR ''f'']
      else if c = CHR 0x0A then [BSL, CHR ''n'']
      else if c = CHR 0x0D then [BSL, CHR ''r'']
      else if c = CHR 0x09 then [BSL, CHR ''t'']
      else if byte c < 0x20 then
        [BSL, CHR ''u'', CHR ''0'', CHR ''0'', hex_digit (byte c div 16), hex_digit (byte c mod 16)]
      else if c = CHR ''/'' then (if parson_escape_slashes then [BSL, c] else [c])
      else [c])"

definition escape_string :: "string \<Rightarrow> string" where
  "escape_string s = concat (map escape_char s)"

definition json_serialize_string :: "string \<Rightarrow> string" where
  "json_serialize_string s = [DQ] @ escape_string s @ [DQ]"

definition append_indent :: "nat \<Rightarrow> string" where
  "append_indent level = concat (replicate level ''    '')"

text \<open>\<open>json_serialize_to_buffer_r\<close>, its item loop and its member loop.\<close>

fun json_serialize_r :: "fmt_fun \<Rightarrow> bool \<Rightarrow> nat \<Rightarrow> json \<Rightarrow> string"
  and serialize_items :: "fmt_fun \<Rightarrow> bool \<Rightarrow> nat \<Rightarrow> json list \<Rightarrow> string"
  and serialize_members :: "fmt_fun \<Rightarrow> bool \<Rightarrow> nat \<Rightarrow> jobject \<Rightarrow> string"
where
  "json_serialize_r fmt pretty level (JArray vs) =
     ''['' @ (if vs \<noteq> [] \<and> pretty then [NL] else [])
     @ serialize_items fmt pretty level vs
     @ (if vs \<noteq> [] \<and> pretty then append_indent level else []) @ '']''"
| "json_serialize_r fmt pretty level (JObject ms) =
     ''{'' @ (if ms \<noteq> [] \<and> pretty then [NL] else [])
     @ serialize_members fmt pretty level ms
     @ (if ms \<noteq> [] \<and> pretty then append_indent level else []) @ ''}''"
| "json_serialize_r fmt pretty level (JString s) = json_serialize_string s"
| "json_serialize_r fmt pretty level (JBoolean b) = (if b then ''true'' else ''false'')"
| "json_serialize_r fmt pretty level (JNumber d) = fmt d"
| "json_serialize_r fmt pretty level JNull = ''null''"
| "serialize_items fmt pretty level [] = []"
| "serialize_items fmt pretty level (v # vs) =
     (if pretty then append_indent (Suc level) else [])
     @ json_serialize_r fmt pretty (Suc level) v
     @ (if vs \<noteq> [] then '','' else [])
     @ (if pretty then [NL] else [])
     @ serialize_items fmt pretty level vs"
| "serialize_members fmt pretty level [] = []"
| "serialize_members fmt pretty level ((n, v) # ms) =
     (if pretty then append_indent (Suc level) else [])
     @ json_serialize_string n @ '':'' @ (if pretty then '' '' else [])
     @ json_serialize_r fmt pretty (Suc level) v
     @ (if ms \<noteq> [] then '','' else [])
     @ (if pretty then [NL] else [])
     @ serialize_members fmt pretty level ms"

definition json_serialize_to_string :: "fmt_fun \<Rightarrow> json \<Rightarrow> string" where
  "json_serialize_to_string fmt v = json_serialize_r fmt False 0 v"

definition json_serialize_to_string_pretty :: "fmt_fun \<Rightarrow> json \<Rightarrow> string" where
  "json_serialize_to_string_pretty fmt v = json_serialize_r fmt True 0 v"

section \<open>Well-formed values\<close>

text \<open>What every value built by the parser or by the setters satisfies, at every level: member
  names are distinct C strings. \<open>json_plain\<close> adds that there is no number.\<close>

fun json_wf :: "json \<Rightarrow> bool" where
  "json_wf (JObject ms) =
     (distinct (map fst ms) \<and> (\<forall>m\<in>set ms. NUL \<notin> set (fst m) \<and> json_wf (snd m)))"
| "json_wf (JArray vs) = (\<forall>v\<in>set vs. json_wf v)"
| "json_wf v = True"

fun json_plain :: "json \<Rightarrow> bool" where
  "json_plain (JObject ms) = (\<forall>m\<in>set ms. json_plain (snd m))"
| "json_plain (JArray vs) = (\<forall>v\<in>set vs. json_plain v)"
| "json_plain (JNumber d) = False"
| "json_plain v = True"

fun json_depth :: "json \<Rightarrow> nat" where
  "json_depth (JObject ms) = (if ms = [] then 0 else Suc (Max (set (map (\<lambda>m. json_depth (snd m)) ms))))"
| "json_depth (JArray vs) = (if vs = [] then 0 else Suc (Max (set (map json_depth vs))))"
| "json_depth v = 0"

lemma append_indent_space: "c \<in> set (append_indent n) \<Longrightarrow> isspace c"
  by (auto simp: append_indent_def isspace_def split: if_splits)

lemma json_depth_object_le:
  assumes "json_depth (JObject ms) + n \<le> k" "m \<in> set ms"
  shows "json_depth (snd m) + Suc n \<le> k"
proof -
  have "json_depth (snd m) \<le> Max (set (map (\<lambda>m. json_depth (snd m)) ms))"
    using assms(2) by (intro Max_ge) auto
  moreover have "ms \<noteq> []" using assms(2) by auto
  ultimately show ?thesis using assms(1) by auto
qed

lemma json_depth_array_le:
  assumes "json_depth (JArray vs) + n \<le> k" "v \<in> set vs"
  shows "json_depth v + Suc n \<le> k"
proof -
  have "json_depth v \<le> Max (set (map json_depth vs))"
    using assms(2) by (intro Max_ge) auto
  moreover have "vs \<noteq> []" using assms(2) by auto
  ultimately show ?thesis using assms(1) by auto
qed

end
