(* ===== verification/JsonRoundTrip.thy ===== *)
theory JsonRoundTrip
  imports JsonParse JsonSerialize
begin

text \<open>
  What the serialiser writes, the parser reads back: for strings, then for whole values, in the
  compact and in the pretty layout, at every nesting depth the parser admits.
\<close>

section \<open>Strings\<close>

lemma hex_char_hex_digit: "d < 16 \<Longrightarrow> hex_char_to_int (hex_digit d) = Some d"
  by (auto simp: hex_char_to_int_def hex_digit_def)

lemma or_16_of_nat: "m < 16 \<Longrightarrow> (16 :: 32 word) OR of_nat m = of_nat (16 + m)"
proof -
  assume "m < 16"
  then have "m \<in> set [0..<16]" by simp
  then show ?thesis
    by (simp add: upt_rec numeral_eq_Suc) (elim disjE; simp)
qed

lemma control_code_point:
  assumes "n < 32"
  shows "parse_utf16_hex (CHR ''0'' # CHR ''0'' # hex_digit (n div 16) # hex_digit (n mod 16) # s)
           = Some (of_nat n)"
proof -
  have z: "hex_char_to_int (CHR ''0'') = Some 0"
    by (simp add: hex_char_to_int_def)
  have d: "n div 16 < 16" using assms by simp
  have "push_bit 4 (of_nat (n div 16)) OR of_nat (n mod 16) = (of_nat n :: 32 word)"
  proof (cases "n < 16")
    case True
    then show ?thesis by simp
  next
    case False
    then have "n div 16 = 1" using assms by auto
    moreover from this have "n = 16 + n mod 16" using div_mult_mod_eq [of n 16] by simp
    ultimately show ?thesis using or_16_of_nat [of "n mod 16"] by simp
  qed
  then show ?thesis
    by (simp add: z hex_char_hex_digit [OF d] hex_char_hex_digit)
qed

lemma parse_utf16_control:
  assumes "byte c < 0x20"
  shows "parse_utf16 (CHR ''0'' # CHR ''0'' # hex_digit (byte c div 16) # hex_digit (byte c mod 16) # s)
           = Some ([c], s)"
proof -
  have "(of_nat (byte c) :: 32 word) < 0x80"
    using assms by (simp add: word_less_nat_alt unat_of_nat)
  moreover have "byte_of (of_nat (byte c)) = c"
    using assms by (simp add: byte_of_def unat_of_nat)
  ultimately show ?thesis
    unfolding parse_utf16_def control_code_point [OF assms] by simp
qed

lemma process_escape_char: "process_string (escape_char c @ s) = map_option (\<lambda>out. c # out) (process_string s)"
proof (cases "byte c < 0x20")
  case True
  then show ?thesis
    by (cases "process_string s") (simp_all add: escape_char_def simple_escape_def parse_utf16_control)
next
  case False
  then show ?thesis
    by (simp add: escape_char_def simple_escape_def parson_escape_slashes_def)
qed

lemma process_escape_string: "process_string (escape_string s) = Some s"
  by (induction s) (simp_all add: escape_string_def process_escape_char)

lemma hex_digit_plain: "d < 16 \<Longrightarrow> hex_digit d \<noteq> DQ \<and> hex_digit d \<noteq> BSL"
proof -
  have "\<forall>d\<in>set [0..<16]. hex_digit d \<noteq> DQ \<and> hex_digit d \<noteq> BSL"
    by code_simp
  then show "d < 16 \<Longrightarrow> ?thesis" by auto
qed

lemma skip_escape_char:
  "skip_quotes (escape_char c @ s) = map_option (\<lambda>(raw, r). (escape_char c @ raw, r)) (skip_quotes s)"
proof (cases "byte c < 0x20")
  case True
  then have "byte c div 16 < 16" by simp
  with True show ?thesis
    by (cases "skip_quotes s") (auto simp: escape_char_def hex_digit_plain)
next
  case False
  then show ?thesis
    by (cases "skip_quotes s") (auto simp: escape_char_def parson_escape_slashes_def)
qed

lemma skip_escape_string: "skip_quotes (escape_string s @ DQ # r) = Some (escape_string s, r)"
  by (induction s) (simp_all add: escape_string_def skip_escape_char)

lemma get_quoted_string_serialize: "get_quoted_string (json_serialize_string s @ r) = Some (s, r)"
  by (simp add: get_quoted_string_def json_serialize_string_def skip_escape_string process_escape_string)

section \<open>Values\<close>

definition blank :: "string \<Rightarrow> bool" where
  "blank w \<longleftrightarrow> (\<forall>c\<in>set w. isspace c)"

lemma blank_simps [simp]:
  "blank []" "blank (append_indent n)" "blank [NL]" "blank '' ''" "blank (a @ b) \<longleftrightarrow> blank a \<and> blank b"
  by (auto simp: blank_def append_indent_space) (simp_all add: isspace_def)

lemma skip_blank [simp]: "blank w \<Longrightarrow> skip_whitespaces (w @ s) = skip_whitespaces s"
  by (auto simp: skip_whitespaces_def blank_def dropWhile_append2)

lemma skip_visible [simp]: "\<not> isspace c \<Longrightarrow> skip_whitespaces (c # s) = c # s"
  by (simp add: skip_whitespaces_def)

lemma skip_idem [simp]: "skip_whitespaces (skip_whitespaces s) = skip_whitespaces s"
  by (simp add: skip_whitespaces_def)

lemma not_space [simp]:
  "\<not> isspace (CHR ''{'')" "\<not> isspace (CHR ''}'')" "\<not> isspace (CHR ''['')" "\<not> isspace (CHR '']'')"
  "\<not> isspace (CHR '','')" "\<not> isspace (CHR '':'')" "\<not> isspace DQ" "\<not> isspace (CHR ''t'')"
  "\<not> isspace (CHR ''f'')" "\<not> isspace (CHR ''n'')"
  by (simp_all add: isspace_def)

text \<open>Numbers are printed by \<open>sprintf\<close> and read by \<open>strtod\<close>. A number is read back if its text is one the
  parser accepts and \<open>strtod\<close> stops behind it, whatever the serialiser puts there.\<close>

definition ends_number :: "string \<Rightarrow> bool" where
  "ends_number s \<longleftrightarrow> s = [] \<or> isspace (hd s) \<or> hd s \<in> {CHR '','', CHR '']'', CHR ''}''}"

lemma ends_number_simps [simp]:
  "ends_number (CHR '','' # s)" "ends_number (CHR '']'' # s)" "ends_number (CHR ''}'' # s)" "ends_number (NL # s)"
  "blank w \<Longrightarrow> ends_number (w @ CHR '']'' # s)" "blank w \<Longrightarrow> ends_number (w @ CHR ''}'' # s)"
  by (cases w; simp add: ends_number_def blank_def isspace_def)+

definition reads_back :: "strtod_fun \<Rightarrow> fmt_fun \<Rightarrow> 64 word \<Rightarrow> bool" where
  "reads_back strtod fmt d \<longleftrightarrow>
     json_value_init_number d = Some (JNumber d) \<and> is_decimal (fmt d) \<and> NUL \<notin> set (fmt d)
     \<and> fmt d \<noteq> [] \<and> (hd (fmt d) = CHR ''-'' \<or> isdigit (hd (fmt d)))
     \<and> (\<forall>s. ends_number s \<longrightarrow> strtod (fmt d @ s) = Some (d, length (fmt d)))"

fun numbers_ok :: "strtod_fun \<Rightarrow> fmt_fun \<Rightarrow> json \<Rightarrow> bool" where
  "numbers_ok strtod fmt (JObject ms) = (\<forall>m\<in>set ms. numbers_ok strtod fmt (snd m))"
| "numbers_ok strtod fmt (JArray vs) = (\<forall>v\<in>set vs. numbers_ok strtod fmt v)"
| "numbers_ok strtod fmt (JNumber d) = reads_back strtod fmt d"
| "numbers_ok strtod fmt v = True"

lemma plain_numbers_ok: "json_plain v \<Longrightarrow> numbers_ok strtod fmt v"
  by (induction v) auto

lemma parse_number:
  assumes "reads_back strtod fmt d" "ends_number s"
  shows "parse_value strtod n (fmt d @ s) = (if n > MAX_NESTING then None else Some (JNumber d, s))"
proof -
  obtain c t where c: "fmt d = c # t" "c = CHR ''-'' \<or> isdigit c"
    using assms(1) by (cases "fmt d") (auto simp: reads_back_def)
  have "parse_number_value strtod (fmt d @ s) = Some (JNumber d, s)"
    using assms by (simp add: parse_number_value_def reads_back_def)
  moreover have "\<not> isspace c" "c \<notin> {CHR ''{'', CHR ''['', DQ, CHR ''f'', CHR ''t''}"
    using c(2) by (auto simp: isdigit_def isspace_def)
  ultimately show ?thesis using c by (simp add: parse_value.simps Let_def)
qed

text \<open>The loops without their (always true) length tests.\<close>

lemma parse_items_loop:
  "parse_items strtod n vs s =
     (case parse_value strtod n s of
        None \<Rightarrow> None
      | Some (v, s3) \<Rightarrow>
          let s4 = skip_whitespaces s3 in
          if s4 = [] then None
          else if hd s4 = CHR '','' then parse_items strtod n (vs @ [v]) (skip_whitespaces (tl s4))
          else if hd s4 = CHR '']'' then Some (JArray (vs @ [v]), tl s4)
          else None)"
proof -
  have "parse_value strtod n s = Some (v, s3) \<Longrightarrow> length (skip_whitespaces s3) \<le> length s" for v s3
    using parse_value_length skip_whitespaces_length le_trans by blast
  then show ?thesis
    by (simp add: parse_items.simps [of strtod n vs s] Let_def split: option.split)
qed

lemma parse_members_loop:
  "parse_members strtod n ms s =
     (case get_quoted_string s of
        None \<Rightarrow> None
      | Some (key, s1) \<Rightarrow>
          if NUL \<in> set key then None
          else let s2 = skip_whitespaces s1 in
            if s2 = [] \<or> hd s2 \<noteq> CHR '':'' then None
            else (case parse_value strtod n (tl s2) of
                    None \<Rightarrow> None
                  | Some (v, s3) \<Rightarrow>
                      (case json_object_add ms key v of
                         None \<Rightarrow> None
                       | Some ms' \<Rightarrow>
                           let s4 = skip_whitespaces s3 in
                           if s4 = [] then None
                           else if hd s4 = CHR '','' then
                             parse_members strtod n ms' (skip_whitespaces (tl s4))
                           else if hd s4 = CHR ''}'' then Some (JObject ms', tl s4)
                           else None)))"
proof -
  have "length (skip_whitespaces s3) \<le> length s"
    if "get_quoted_string s = Some (key, s1)" "parse_value strtod n (tl (skip_whitespaces s1)) = Some (v, s3)"
    for key s1 v s3
    using get_quoted_string_length [OF that(1)] parse_value_length [OF that(2)]
      skip_whitespaces_length [of s1] skip_whitespaces_length [of s3] by simp
  then show ?thesis
    by (auto simp: parse_members.simps [of strtod n ms s] Let_def split: option.split)
qed

lemma parse_value_blank: "blank w \<Longrightarrow> parse_value strtod n (w @ s) = parse_value strtod n s"
  by (simp add: parse_value.simps)

lemma parse_value_skip: "parse_value strtod n (skip_whitespaces s) = parse_value strtod n s"
  by (simp add: parse_value.simps)

lemma parse_items_skip: "parse_items strtod n vs (skip_whitespaces s) = parse_items strtod n vs s"
  by (subst (1 2) parse_items_loop) (simp add: parse_value_skip)

lemma serialize_items_nonempty_tl:
  "serialize_items fmt p l (v # vs) =
     (if p then append_indent (Suc l) else []) @ json_serialize_r fmt p (Suc l) v
     @ (if vs = [] then (if p then [NL] else [])
        else CHR '','' # (if p then [NL] else []) @ serialize_items fmt p l vs)"
  by simp

lemma parse_serialize_items:
  assumes "\<And>v s. v \<in> set vs \<Longrightarrow> ends_number s \<Longrightarrow> parse_value strtod n (json_serialize_r fmt p (Suc l) v @ s) = Some (v, s)"
    and "vs \<noteq> []" "blank w"
  shows "parse_items strtod n acc (serialize_items fmt p l vs @ w @ '']'' @ r) = Some (JArray (acc @ vs), r)"
  using assms
proof (induction vs arbitrary: acc)
  case Nil
  then show ?case by simp
next
  case (Cons v vs)
  let ?ind = "if p then append_indent (Suc l) else []" and ?nl = "if p then [NL] else []"
  have v: "parse_value strtod n (?ind @ json_serialize_r fmt p (Suc l) v @ s) = Some (v, s)" if "ends_number s" for s
    using that Cons.prems(1) by (simp add: parse_value_blank)
  show ?case
  proof (cases "vs = []")
    case True
    have "parse_items strtod n acc (?ind @ json_serialize_r fmt p (Suc l) v @ ?nl @ w @ '']'' @ r) =
        Some (JArray (acc @ [v]), r)"
      using Cons.prems(3) by (subst parse_items_loop) (simp add: v)
    with True show ?thesis by (simp only: serialize_items_nonempty_tl) simp
  next
    case False
    let ?rest = "serialize_items fmt p l vs @ w @ '']'' @ r"
    have "parse_items strtod n (acc @ [v]) ?rest = Some (JArray ((acc @ [v]) @ vs), r)"
      by (rule Cons.IH) (use Cons.prems False in auto)
    then have "parse_items strtod n (acc @ [v]) (skip_whitespaces (?nl @ ?rest)) = Some (JArray (acc @ v # vs), r)"
      by (simp add: parse_items_skip)
    then have "parse_items strtod n acc (?ind @ json_serialize_r fmt p (Suc l) v @ CHR '','' # ?nl @ ?rest) =
        Some (JArray (acc @ v # vs), r)"
      by (subst parse_items_loop) (simp add: v)
    with False show ?thesis by (simp only: serialize_items_nonempty_tl) simp
  qed
qed

lemma json_object_add_new:
  "n \<notin> fst ` set ms \<Longrightarrow> json_object_add ms n v = Some (ms @ [(n, v)])"
  by (simp add: json_object_add_def json_object_getn_value_map_of map_of_eq_None_iff)

lemma serialize_members_nonempty_tl:
  "serialize_members fmt p l ((k, v) # ms) =
     (if p then append_indent (Suc l) else []) @ json_serialize_string k @ CHR '':'' # (if p then '' '' else [])
     @ json_serialize_r fmt p (Suc l) v
     @ (if ms = [] then (if p then [NL] else [])
        else CHR '','' # (if p then [NL] else []) @ serialize_members fmt p l ms)"
  by simp

lemma skip_serialized_string [simp]:
  "skip_whitespaces (json_serialize_string k @ s) = json_serialize_string k @ s"
  by (simp add: json_serialize_string_def)

lemma parse_serialize_members:
  assumes "\<And>m s. m \<in> set ms \<Longrightarrow> ends_number s \<Longrightarrow>
      parse_value strtod n (json_serialize_r fmt p (Suc l) (snd m) @ s) = Some (snd m, s)"
    and "\<And>m. m \<in> set ms \<Longrightarrow> NUL \<notin> set (fst m)"
    and "distinct (map fst (acc @ ms))"
    and "ms \<noteq> []" "blank w"
  shows "parse_members strtod n acc (skip_whitespaces (serialize_members fmt p l ms @ w @ ''}'' @ r))
           = Some (JObject (acc @ ms), r)"
  using assms
proof (induction ms arbitrary: acc)
  case Nil
  then show ?case by simp
next
  case (Cons m ms)
  obtain k v where m: "m = (k, v)" by (cases m)
  let ?sp = "if p then '' '' else []" and ?nl = "if p then [NL] else []"
  have v: "parse_value strtod n (?sp @ json_serialize_r fmt p (Suc l) v @ s) = Some (v, s)" if "ends_number s" for s
    using that Cons.prems(1) [of m] by (simp add: parse_value_blank m)
  have k: "NUL \<notin> set k" and new: "json_object_add acc k v = Some (acc @ [(k, v)])"
    using Cons.prems(2) [of m] Cons.prems(3) by (auto simp: m json_object_add_new)
  show ?case
  proof (cases "ms = []")
    case True
    have "parse_members strtod n acc
        (json_serialize_string k @ CHR '':'' # ?sp @ json_serialize_r fmt p (Suc l) v @ ?nl @ w @ ''}'' @ r) =
        Some (JObject (acc @ [(k, v)]), r)"
      using Cons.prems(5) k by (subst parse_members_loop) (simp add: get_quoted_string_serialize v new)
    with True show ?thesis
      by (simp only: m serialize_members_nonempty_tl) (cases p; simp)
  next
    case False
    let ?rest = "serialize_members fmt p l ms @ w @ ''}'' @ r"
    have "parse_members strtod n (acc @ [(k, v)]) (skip_whitespaces ?rest) =
        Some (JObject ((acc @ [(k, v)]) @ ms), r)"
      by (rule Cons.IH) (use Cons.prems False m in auto)
    then have "parse_members strtod n acc
        (json_serialize_string k @ CHR '':'' # ?sp @ json_serialize_r fmt p (Suc l) v @ CHR '','' # ?nl @ ?rest) =
        Some (JObject (acc @ (k, v) # ms), r)"
      using k by (subst parse_members_loop) (simp add: get_quoted_string_serialize v new)
    with False show ?thesis
      by (simp only: m serialize_members_nonempty_tl) (cases p; simp)
  qed
qed

lemma parse_items_bracket:
  "parse_items strtod n vs s = Some r \<Longrightarrow> s \<noteq> [] \<Longrightarrow> hd s = CHR '']'' \<Longrightarrow> False"
  by (cases s) (auto simp: parse_items_loop parse_value.simps isdigit_def Let_def split: if_splits)

lemma parse_members_brace:
  "parse_members strtod n ms s = Some r \<Longrightarrow> s \<noteq> [] \<Longrightarrow> hd s = CHR ''}'' \<Longrightarrow> False"
  by (cases s) (auto simp: parse_members.simps get_quoted_string_def)

text \<open>Every value whose numbers the C library reads back. What follows matters for a number
  alone.\<close>

lemma parse_serialize_value:
  assumes "json_wf v" "numbers_ok strtod fmt v" "json_depth v + n \<le> MAX_NESTING"
    and "\<And>d. v = JNumber d \<Longrightarrow> ends_number s"
  shows "parse_value strtod n (json_serialize_r fmt p l v @ s) = Some (v, s)"
  using assms
proof (induction v arbitrary: n l s)
  case JNull
  then show ?case
    by (simp add: parse_value.simps Let_def isdigit_def parse_null_value_def)
next
  case (JString t)
  then show ?case
    by (simp add: parse_value.simps Let_def json_serialize_string_def parse_string_value_def isdigit_def
        get_quoted_string_serialize [unfolded json_serialize_string_def, simplified])
next
  case (JNumber d)
  then show ?case using parse_number [of strtod fmt d s n] by simp
next
  case (JBoolean b)
  then show ?case
    by (cases b) (simp_all add: parse_value.simps Let_def isdigit_def parse_boolean_value_def)
next
  case (JArray vs)
  have items: "parse_value strtod (Suc n) (json_serialize_r fmt p (Suc l) v @ s) = Some (v, s)"
    if "v \<in> set vs" "ends_number s" for v s
    using JArray.IH [OF that(1)] JArray.prems that json_depth_array_le by auto
  have n: "n \<le> MAX_NESTING" using JArray.prems by simp
  show ?case
  proof (cases "vs = []")
    case True
    with n show ?thesis
      by (simp add: parse_value.simps parse_array_value.simps Let_def)
  next
    case False
    let ?body = "(if p then [NL] else []) @ serialize_items fmt p l vs @ (if p then append_indent l else []) @ '']'' @ s"
    have "parse_items strtod (Suc n) [] (skip_whitespaces ?body) = Some (JArray ([] @ vs), s)"
      using parse_serialize_items [of vs strtod "Suc n" fmt p l "if p then append_indent l else []" "[]" s]
        items False by (simp add: parse_items_skip)
    then have "parse_array_value strtod (Suc n) (CHR ''['' # ?body) = Some (JArray vs, s)"
      by (auto simp: parse_array_value.simps Let_def dest: parse_items_bracket)
    with n False show ?thesis
      by (simp add: parse_value.simps Let_def)
  qed
next
  case (JObject ms)
  have members: "parse_value strtod (Suc n) (json_serialize_r fmt p (Suc l) (snd m) @ s) = Some (snd m, s)"
    if "m \<in> set ms" "ends_number s" for m s
  proof -
    have "json_wf (snd m)" "numbers_ok strtod fmt (snd m)"
      using JObject.prems that by auto
    then show ?thesis
      using JObject.IH [of m "snd m" "Suc n"] that json_depth_object_le [OF JObject.prems(3) that(1)]
      by (cases m) auto
  qed
  have n: "n \<le> MAX_NESTING" using JObject.prems by simp
  show ?case
  proof (cases "ms = []")
    case True
    with n show ?thesis
      by (simp add: parse_value.simps parse_object_value.simps Let_def)
  next
    case False
    let ?body = "(if p then [NL] else []) @ serialize_members fmt p l ms @ (if p then append_indent l else []) @ ''}'' @ s"
    have "parse_members strtod (Suc n) [] (skip_whitespaces ?body) = Some (JObject ([] @ ms), s)"
      using parse_serialize_members [of ms strtod "Suc n" fmt p l "[]" "if p then append_indent l else []" s]
        members False JObject.prems(1) by simp
    then have "parse_object_value strtod (Suc n) (CHR ''{'' # ?body) = Some (JObject ms, s)"
      by (auto simp: parse_object_value.simps Let_def dest: parse_members_brace)
    with n False show ?thesis
      by (simp add: parse_value.simps Let_def)
  qed
qed

section \<open>Documents\<close>

lemma serialized_no_bom:
  "numbers_ok strtod fmt v \<Longrightarrow> \<not> starts_with [CHR 0xEF, CHR 0xBB, CHR 0xBF] (json_serialize_r fmt p l v @ rest)"
  by (cases v) (auto simp: json_serialize_string_def reads_back_def isdigit_def append_eq_Cons_conv neq_Nil_conv)

lemma hex_digit_not_nul: "d < 16 \<Longrightarrow> NUL \<noteq> hex_digit d"
proof -
  assume "d < 16"
  then have "byte (hex_digit d) \<noteq> byte NUL" by (simp add: hex_digit_def)
  then show ?thesis by metis
qed

lemma escape_char_no_nul: "NUL \<notin> set (escape_char c)"
proof (cases "byte c < 32")
  case True
  then have "NUL \<noteq> hex_digit (byte c div 16)" by (intro hex_digit_not_nul) simp
  moreover have "NUL \<noteq> hex_digit (byte c mod 16)" by (intro hex_digit_not_nul) simp
  ultimately show ?thesis using True by (simp add: escape_char_def)
next
  case False
  then have "c \<noteq> NUL" by auto
  with False show ?thesis by (simp add: escape_char_def)
qed

lemma serialize_no_nul_parts:
  "NUL \<notin> set (json_serialize_string t)" "NUL \<notin> set (append_indent k)"
  using escape_char_no_nul append_indent_space [of NUL k]
  by (auto simp: json_serialize_string_def escape_string_def isspace_def)

lemma serialize_no_nul:
  shows "numbers_ok strtod fmt v \<Longrightarrow> NUL \<notin> set (json_serialize_r fmt p l v)"
    and "\<forall>v\<in>set vs. numbers_ok strtod fmt v \<Longrightarrow> NUL \<notin> set (serialize_items fmt p l vs)"
    and "\<forall>m\<in>set ms. numbers_ok strtod fmt (snd m) \<Longrightarrow> NUL \<notin> set (serialize_members fmt p l ms)"
  by (induction fmt p l v and fmt p l vs and fmt p l ms
      rule: json_serialize_r_serialize_items_serialize_members.induct)
    (auto simp: serialize_no_nul_parts reads_back_def)

lemma serialize_plain_no_nul: "json_plain v \<Longrightarrow> NUL \<notin> set (json_serialize_r fmt p l v)"
  by (rule serialize_no_nul(1) [OF plain_numbers_ok])

text \<open>
  A document whose numbers are read back, of member names that are distinct C strings and of nesting
  at most the parser's limit, survives printing and parsing, whichever layout is chosen and
  whatever text follows it. This is what makes a plan, a result document or a serialised rule
  payload readable by the program that reads it next.
\<close>

lemma parse_serialize_document:
  assumes "json_wf v" "numbers_ok strtod fmt v" "json_depth v \<le> MAX_NESTING" "\<And>d. v = JNumber d \<Longrightarrow> ends_number rest"
  shows "json_parse_string strtod (json_serialize_to_string fmt v @ rest) = Some v
    \<and> json_parse_string strtod (json_serialize_to_string_pretty fmt v @ rest) = Some v"
proof -
  have "json_parse_string strtod (json_serialize_r fmt p 0 v @ rest) = Some v" for p
    using parse_serialize_value [of v strtod fmt 0 rest p 0] assms serialized_no_bom [OF assms(2)]
    by (simp add: json_parse_string_def)
  then show ?thesis
    by (simp add: json_serialize_to_string_def json_serialize_to_string_pretty_def)
qed

text \<open>Without numbers there is nothing to ask of the C library.\<close>

lemma parse_serialize_plain:
  assumes "json_wf v" "json_plain v" "json_depth v \<le> MAX_NESTING"
  shows "json_parse_string strtod (json_serialize_to_string fmt v @ rest) = Some v
    \<and> json_parse_string strtod (json_serialize_to_string_pretty fmt v @ rest) = Some v"
  using assms by (intro parse_serialize_document plain_numbers_ok) auto

end
