(* ===== verification/StringTools.thy ===== *)
theory StringTools
  imports Prelude
begin

text \<open>
  \<open>src/lib/StringTools.cpp\<close>: shell escaping, trimming, case, comments and the checked integer
  conversions, over the \<open>strtol\<close> of the C library as \<open>std::stoi\<close> and \<open>std::stoull\<close> use it. The
  abstract specification of the escaping is how a shell reads the inside of a pair of
  double quotes.
\<close>

section \<open>Shell escaping\<close>

fun EscapeForShell :: "string \<Rightarrow> string" where
  "EscapeForShell [] = []"
| "EscapeForShell (c # cs) =
     (if c = BSL \<or> c = DQ \<or> c = CHR ''`'' \<or> c = CHR ''$'' then BSL # c # EscapeForShell cs
      else c # EscapeForShell cs)"

text \<open>How \<open>sh\<close> reads text after an opening double quote: up to the next unescaped double
  quote; a backslash is an escape only before dollar, backquote, double quote, backslash and
  newline (where both vanish); an unescaped dollar or backquote starts an expansion, which is
  \<open>None\<close> here, as is a missing closing quote.\<close>

fun shell_read_dquoted :: "string \<Rightarrow> (string \<times> string) option" where
  "shell_read_dquoted [] = None"
| "shell_read_dquoted (c # cs) =
     (if c = DQ then Some ([], cs)
      else if c = CHR ''$'' \<or> c = CHR ''`'' then None
      else if c = BSL then
        (case cs of
           [] \<Rightarrow> None
         | d # ds \<Rightarrow>
             if d = NL then shell_read_dquoted ds
             else if d = CHR ''$'' \<or> d = CHR ''`'' \<or> d = DQ \<or> d = BSL
             then map_option (\<lambda>(s, r). (d # s, r)) (shell_read_dquoted ds)
             else map_option (\<lambda>(s, r). (c # s, r)) (shell_read_dquoted cs))
      else map_option (\<lambda>(s, r). (c # s, r)) (shell_read_dquoted cs))"

lemma shell_read_escaped:
  "shell_read_dquoted (EscapeForShell s @ DQ # rest) = Some (s, rest)"
  by (induction s) auto

section \<open>Whitespace, comments and case\<close>

definition StringOrEmpty :: "string option \<Rightarrow> string" where
  "StringOrEmpty s = (case s of None \<Rightarrow> [] | Some t \<Rightarrow> t)"

definition IsAsciiWhitespace :: "char \<Rightarrow> bool" where
  "IsAsciiWhitespace c \<longleftrightarrow> c = CHR '' '' \<or> c = TAB \<or> c = NL \<or> c = CHR 0x0D \<or> c = CHR 0x0B \<or> c = CHR 0x0C"

definition TrimWhiteSpaces :: "string \<Rightarrow> string" where
  "TrimWhiteSpaces s = rev (dropWhile isspace (rev (dropWhile isspace s)))"

definition StripComment :: "string \<Rightarrow> string" where
  "StripComment s = (case find_char (CHR ''#'') s of None \<Rightarrow> s | Some i \<Rightarrow> take i s)"

definition ToLower :: "string \<Rightarrow> string" where
  "ToLower s = map tolower s"

lemma IsAsciiWhitespace_isspace: "IsAsciiWhitespace c \<longleftrightarrow> isspace c"
  by (auto simp: IsAsciiWhitespace_def isspace_def)

lemma dropWhile_hd: "dropWhile P xs \<noteq> [] \<Longrightarrow> \<not> P (hd (dropWhile P xs))"
  by (induction xs) auto

lemma dropWhile_decomp: "\<exists>u. (\<forall>x\<in>set u. P x) \<and> xs = u @ dropWhile P xs"
  by (metis set_takeWhileD takeWhile_dropWhile_id)

lemma TrimWhiteSpaces_decomp:
  "\<exists>u v. (\<forall>c\<in>set u. isspace c) \<and> (\<forall>c\<in>set v. isspace c) \<and> s = u @ TrimWhiteSpaces s @ v"
proof -
  obtain u where u: "\<forall>c\<in>set u. isspace c" "s = u @ dropWhile isspace s"
    using dropWhile_decomp [of isspace s] by auto
  obtain w where w: "\<forall>c\<in>set w. isspace c"
    "rev (dropWhile isspace s) = w @ dropWhile isspace (rev (dropWhile isspace s))"
    using dropWhile_decomp [of isspace "rev (dropWhile isspace s)"] by auto
  have "dropWhile isspace s = TrimWhiteSpaces s @ rev w"
    using arg_cong [OF w(2), of rev] by (simp add: TrimWhiteSpaces_def)
  with u w(1) show ?thesis
    by (metis set_rev)
qed

lemma TrimWhiteSpaces_ends:
  assumes "TrimWhiteSpaces s \<noteq> []"
  shows "\<not> isspace (hd (TrimWhiteSpaces s)) \<and> \<not> isspace (last (TrimWhiteSpaces s))"
proof -
  let ?d = "dropWhile isspace s" and ?r = "dropWhile isspace (rev (dropWhile isspace s))"
  have r: "?r \<noteq> []" using assms by (simp add: TrimWhiteSpaces_def)
  then have last: "\<not> isspace (last (TrimWhiteSpaces s))"
    using dropWhile_hd [OF r] by (simp add: TrimWhiteSpaces_def last_rev)
  have d: "?d \<noteq> []" using r by (metis dropWhile.simps(1) rev.simps(1))
  obtain w where w: "rev ?d = w @ ?r"
    using dropWhile_decomp [of isspace "rev ?d"] by auto
  then have "?d = rev ?r @ rev w" by (metis rev_append rev_rev_ident)
  then have "hd ?d = hd (rev ?r)" using r by (metis hd_append2 rev_is_Nil_conv)
  then have "\<not> isspace (hd (TrimWhiteSpaces s))"
    using dropWhile_hd [OF d] by (simp add: TrimWhiteSpaces_def)
  with last show ?thesis by simp
qed

lemma StripComment_no_hash: "CHR ''#'' \<notin> set (StripComment s)"
  by (auto simp: StripComment_def str_simps find_char_Some split: option.splits)

section \<open>Integer conversions\<close>

text \<open>The value of a digit; letters count from ten, as in \<open>strtol\<close>.\<close>

definition digit_value :: "char \<Rightarrow> nat" where
  "digit_value c =
     (if isdigit c then byte c - 48
      else if islower c then byte c - 87
      else if isupper c then byte c - 55
      else 99)"

definition is_digit_in :: "nat \<Rightarrow> char \<Rightarrow> bool" where
  "is_digit_in base c \<longleftrightarrow> digit_value c < base"

definition digits_value :: "nat \<Rightarrow> string \<Rightarrow> nat" where
  "digits_value base ds = foldl (\<lambda>n c. n * base + digit_value c) 0 ds"

text \<open>\<open>strtol (s, &end, base)\<close> for the bases of the program, 8 and 10, which have no prefix:
  the mathematical value and the number of characters consumed; \<open>None\<close> when there is no digit.\<close>

definition strtol :: "string \<Rightarrow> nat \<Rightarrow> (int \<times> nat) option" where
  "strtol s base =
     (let r = dropWhile isspace s;
          signed = (r \<noteq> [] \<and> (hd r = CHR ''-'' \<or> hd r = CHR ''+''));
          body = (if signed then tl r else r);
          ds = takeWhile (is_digit_in base) body;
          v = int (digits_value base ds)
      in if ds = [] then None
         else Some (if signed \<and> hd r = CHR ''-'' then - v else v,
                    (length s - length body) + length ds))"

abbreviation INT_MIN :: int where "INT_MIN \<equiv> - 2147483648"
abbreviation INT_MAX :: int where "INT_MAX \<equiv> 2147483647"
abbreviation UINT_MAX :: int where "UINT_MAX \<equiv> 4294967295"

definition TryStringToInt :: "string \<Rightarrow> nat \<Rightarrow> int result" where
  "TryStringToInt str base =
     (case strtol str base of
        None \<Rightarrow> Inl (Error (''Invalid integer value: '' @ str) EINVAL)
      | Some (v, consumed) \<Rightarrow>
          if v < INT_MIN \<or> INT_MAX < v then Inl (Error (''Integer value out of range: '' @ str) ERANGE)
          else if length str \<noteq> consumed then Inl (Error (''Invalid integer value: '' @ str) EINVAL)
          else Inr v)"

text \<open>\<open>stoull\<close> reports values over 64 bits as out of range, before the check of the number of
  characters consumed.\<close>

definition TryStringToUint :: "string \<Rightarrow> nat \<Rightarrow> int result" where
  "TryStringToUint str base =
     (let r = dropWhile IsAsciiWhitespace str in
      if r \<noteq> [] \<and> hd r = CHR ''-'' then
        and_then (TryStringToInt str base) (\<lambda>v.
          Inl (Error (''Invalid integer value (should be positive): '' @ to_string_int v) EINVAL))
      else
        (case strtol str base of
           None \<Rightarrow> Inl (Error (''Invalid integer value: '' @ str) EINVAL)
         | Some (v, consumed) \<Rightarrow>
             if 18446744073709551615 < v then Inl (Error (''Integer value out of range: '' @ str) ERANGE)
             else if length str \<noteq> consumed then Inl (Error (''Invalid integer value: '' @ str) EINVAL)
             else if UINT_MAX < v then Inl (Error (''Integer value out of range: '' @ str) ERANGE)
             else Inr v))"

lemma TryStringToInt_bounds:
  "TryStringToInt str base = Inr v \<Longrightarrow> INT_MIN \<le> v \<and> v \<le> INT_MAX"
  by (auto simp: TryStringToInt_def split: option.splits if_splits)

lemma strtol_nonneg:
  assumes "strtol s base = Some (v, n)" "dropWhile isspace s = [] \<or> hd (dropWhile isspace s) \<noteq> CHR ''-''"
  shows "0 \<le> v"
  using assms by (auto simp: strtol_def Let_def split: if_splits)

lemma TryStringToUint_bounds:
  assumes "TryStringToUint str base = Inr v"
  shows "0 \<le> v \<and> v \<le> UINT_MAX"
proof -
  have ws: "IsAsciiWhitespace = isspace" by (simp add: fun_eq_iff IsAsciiWhitespace_isspace)
  obtain n where st: "strtol str base = Some (v, n)" and le: "v \<le> UINT_MAX"
    and nm: "dropWhile isspace str = [] \<or> hd (dropWhile isspace str) \<noteq> CHR ''-''"
    using assms by (auto simp: TryStringToUint_def Let_def ws result_simps split: option.splits if_splits)
  show ?thesis using strtol_nonneg [OF st nm] le by simp
qed

subsection \<open>Reading back a printed number\<close>

lemma digit_value_digit_char: "d < 10 \<Longrightarrow> digit_value (digit_char d) = d"
  by (simp add: digit_value_def digit_char_def isdigit_def)

lemma isspace_digit_char: "d < 10 \<Longrightarrow> \<not> isspace (digit_char d)"
proof -
  assume "d < 10"
  then have "byte (digit_char d) = 48 + d" by (simp add: digit_char_def)
  then show ?thesis by (auto simp: isspace_def)
qed

lemma sign_digit_char: "d < 10 \<Longrightarrow> digit_char d \<noteq> CHR ''-'' \<and> digit_char d \<noteq> CHR ''+''"
proof -
  assume "d < 10"
  then have "byte (digit_char d) = 48 + d" by (simp add: digit_char_def)
  then show ?thesis by (auto simp: isspace_def)
qed

lemma to_string_nat_digits: "\<exists>ds. ds \<noteq> [] \<and> (\<forall>d\<in>set ds. d < 10) \<and> to_string_nat n = map digit_char ds"
proof (induction n rule: to_string_nat.induct)
  case (1 n)
  show ?case
  proof (cases "n < 10")
    case True
    then show ?thesis by (intro exI [of _ "[n]"]) (simp add: to_string_nat.simps)
  next
    case False
    then obtain ds where "\<forall>d\<in>set ds. d < 10" "to_string_nat (n div 10) = map digit_char ds"
      using 1 by blast
    then show ?thesis
      using False by (intro exI [of _ "ds @ [n mod 10]"]) (simp add: to_string_nat.simps [of n])
  qed
qed

lemma digits_value_snoc: "digits_value base (ds @ [c]) = digits_value base ds * base + digit_value c"
  by (simp add: digits_value_def)

lemma digits_value_to_string_nat: "digits_value 10 (to_string_nat n) = n"
proof (induction n rule: to_string_nat.induct)
  case (1 n)
  then show ?case
    by (cases "n < 10")
      (simp_all add: to_string_nat.simps [of n] digits_value_snoc digit_value_digit_char,
       simp add: digits_value_def digit_value_digit_char)
qed

lemma takeWhile_to_string_nat: "takeWhile (is_digit_in 10) (to_string_nat n) = to_string_nat n"
proof -
  obtain ds where "\<forall>d\<in>set ds. d < 10" "to_string_nat n = map digit_char ds"
    using to_string_nat_digits by blast
  then show ?thesis by (auto simp: takeWhile_eq_all_conv is_digit_in_def digit_value_digit_char)
qed

lemma to_string_nat_hd:
  "to_string_nat n \<noteq> [] \<and> \<not> isspace (hd (to_string_nat n))
   \<and> hd (to_string_nat n) \<noteq> CHR ''-'' \<and> hd (to_string_nat n) \<noteq> CHR ''+''"
proof -
  obtain ds where "ds \<noteq> []" "\<forall>d\<in>set ds. d < 10" "to_string_nat n = map digit_char ds"
    using to_string_nat_digits by blast
  then show ?thesis by (cases ds) (simp_all add: isspace_digit_char sign_digit_char)
qed

lemma dropWhile_id: "xs = [] \<or> \<not> P (hd xs) \<Longrightarrow> dropWhile P xs = xs"
  by (cases xs) auto

lemma strtol_to_string_int: "strtol (to_string_int i) 10 = Some (i, length (to_string_int i))"
proof (cases "i < 0")
  case True
  let ?t = "to_string_nat (nat (- i))"
  have s: "to_string_int i = CHR ''-'' # ?t" using True by (simp add: to_string_int_def)
  have "dropWhile isspace (CHR ''-'' # ?t) = CHR ''-'' # ?t" by (simp add: isspace_def)
  then show ?thesis
    using True to_string_nat_hd [of "nat (- i)"]
    by (simp add: s strtol_def Let_def takeWhile_to_string_nat digits_value_to_string_nat)
next
  case False
  let ?t = "to_string_nat (nat i)"
  have s: "to_string_int i = ?t" using False by (simp add: to_string_int_def)
  have "dropWhile isspace ?t = ?t" using to_string_nat_hd [of "nat i"] by (simp add: dropWhile_id)
  then show ?thesis
    using False to_string_nat_hd [of "nat i"]
    by (simp add: s strtol_def Let_def takeWhile_to_string_nat digits_value_to_string_nat)
qed

lemma TryStringToInt_to_string_int:
  "INT_MIN \<le> i \<Longrightarrow> i \<le> INT_MAX \<Longrightarrow> TryStringToInt (to_string_int i) 10 = Inr i"
  by (simp add: TryStringToInt_def strtol_to_string_int)

lemma TryStringToInt_out_of_range:
  "i < INT_MIN \<or> INT_MAX < i
   \<Longrightarrow> TryStringToInt (to_string_int i) 10 =
       Inl (Error (''Integer value out of range: '' @ to_string_int i) ERANGE)"
  by (simp add: TryStringToInt_def strtol_to_string_int)

end
