(* ===== verification/ContentVersion.thy ===== *)
theory ContentVersion
  imports StringTools
begin

text \<open>
  \<open>src/benchmarkio/ContentVersion.cpp\<close>: content versions MAJOR.MINOR.PATCH whose components
  stay decimal strings, so that comparison cannot overflow. The specification is the
  lexicographic order on the numbers that the components denote.
\<close>

record content_version =
  cv_major :: string
  cv_minor :: string
  cv_patch :: string

definition CompareDecimal :: "string \<Rightarrow> string \<Rightarrow> int" where
  "CompareDecimal l r =
     (if length l \<noteq> length r then (if length l < length r then -1 else 1)
      else if l \<noteq> r then (if l < r then -1 else 1)
      else 0)"

definition ValidComponent :: "string \<Rightarrow> bool" where
  "ValidComponent s \<longleftrightarrow> s \<noteq> [] \<and> (length s = 1 \<or> hd s \<noteq> CHR ''0'') \<and> (\<forall>c\<in>set s. isdigit c)"

definition content_version_error :: "string \<Rightarrow> error" where
  "content_version_error t =
     Error (''Invalid content version '' @ quoted t @ '': expected MAJOR.MINOR.PATCH'') EINVAL"

abbreviation DOT :: char where "DOT \<equiv> CHR ''.''"

definition ParseContentVersion :: "string \<Rightarrow> content_version result" where
  "ParseContentVersion t =
     (case find_char DOT t of
        None \<Rightarrow> Inl (content_version_error t)
      | Some first \<Rightarrow>
          (case find_char_from DOT t (first + 1) of
             None \<Rightarrow> Inl (content_version_error t)
           | Some second \<Rightarrow>
               if find_char_from DOT t (second + 1) \<noteq> None then Inl (content_version_error t)
               else
                 let v = \<lparr>cv_major = substr 0 first t,
                          cv_minor = substr (first + 1) (second - first - 1) t,
                          cv_patch = drop (second + 1) t\<rparr>
                 in if \<not> ValidComponent (cv_major v) \<or> \<not> ValidComponent (cv_minor v)
                       \<or> \<not> ValidComponent (cv_patch v)
                    then Inl (content_version_error t) else Inr v))"

definition CompareContentVersion :: "content_version \<Rightarrow> content_version \<Rightarrow> int" where
  "CompareContentVersion l r =
     (let major = CompareDecimal (cv_major l) (cv_major r) in
      if major \<noteq> 0 then major
      else let minor = CompareDecimal (cv_minor l) (cv_minor r) in
           if minor \<noteq> 0 then minor else CompareDecimal (cv_patch l) (cv_patch r))"

definition ContentVersionToString :: "content_version \<Rightarrow> string" where
  "ContentVersionToString v = cv_major v @ ''.'' @ cv_minor v @ ''.'' @ cv_patch v"

section \<open>Decimal comparison is numeric comparison\<close>

definition valid_version :: "content_version \<Rightarrow> bool" where
  "valid_version v \<longleftrightarrow> ValidComponent (cv_major v) \<and> ValidComponent (cv_minor v) \<and> ValidComponent (cv_patch v)"

abbreviation dec :: "string \<Rightarrow> nat" where "dec s \<equiv> digits_value 10 s"

lemma byte_inject: "byte c = byte d \<longleftrightarrow> c = d"
  by (metis char_of_char)

lemma byte_zero: "byte (CHR ''0'') = 48"
  by simp

lemma less_byte: "(c::char) < d \<longleftrightarrow> byte c < byte d"
  by (simp add: less_char_def)

lemma digit_value_bound: "isdigit c \<Longrightarrow> digit_value c \<le> 9"
  by (auto simp: digit_value_def isdigit_def)

lemma digits_value_foldl:
  "foldl (\<lambda>n c. n * b + digit_value c) a ds = a * b ^ length ds + digits_value b ds"
proof (induction ds rule: rev_induct)
  case Nil
  show ?case by (simp add: digits_value_def)
next
  case (snoc d ds)
  then show ?case by (simp add: digits_value_def algebra_simps)
qed

lemma dec_Cons: "dec (c # cs) = digit_value c * 10 ^ length cs + dec cs"
  using digits_value_foldl [of 10 "digit_value c" cs] by (simp add: digits_value_def)

lemma dec_upper: "\<forall>c\<in>set s. isdigit c \<Longrightarrow> dec s < 10 ^ length s"
proof (induction s)
  case Nil
  show ?case by (simp add: digits_value_def)
next
  case (Cons c cs)
  then have "digit_value c * 10 ^ length cs \<le> 9 * 10 ^ length cs" "dec cs < 10 ^ length cs"
    using digit_value_bound [of c] by simp_all
  then have "digit_value c * 10 ^ length cs + dec cs < 9 * 10 ^ length cs + 10 ^ length cs"
    by (rule add_le_less_mono)
  then show ?case by (simp add: dec_Cons)
qed

lemma dec_lower:
  assumes "ValidComponent s" "1 < length s"
  shows "10 ^ (length s - 1) \<le> dec s"
proof (cases s)
  case Nil
  then show ?thesis using assms by simp
next
  case (Cons c cs)
  have "isdigit c" "c \<noteq> CHR ''0''" using assms Cons by (auto simp: ValidComponent_def)
  moreover have "byte c \<noteq> 48" using calculation(2) by (metis byte_inject byte_zero)
  ultimately have "1 \<le> digit_value c" by (auto simp: digit_value_def isdigit_def)
  then have "10 ^ length cs \<le> digit_value c * 10 ^ length cs" by simp
  then have "10 ^ length cs \<le> digit_value c * 10 ^ length cs + dec cs" by (rule trans_le_add1)
  then show ?thesis by (simp only: Cons dec_Cons) simp
qed

lemma dec_less_same_length:
  assumes "length l = length r" "\<forall>c\<in>set l. isdigit c" "\<forall>c\<in>set r. isdigit c"
  shows "(l < r \<longleftrightarrow> dec l < dec r) \<and> (l = r \<longleftrightarrow> dec l = dec r)"
  using assms
proof (induction l r rule: list_induct2)
  case Nil
  show ?case by (simp add: digits_value_def)
next
  case (Cons x xs y ys)
  have u: "dec xs < 10 ^ length xs" "dec ys < 10 ^ length xs"
    using dec_upper [of xs] dec_upper [of ys] Cons by auto
  have dx: "digit_value x = byte x - 48" "48 \<le> byte x" "digit_value y = byte y - 48" "48 \<le> byte y"
    using Cons.prems by (auto simp: digit_value_def isdigit_def)
  consider "digit_value x < digit_value y" | "digit_value y < digit_value x" | "digit_value x = digit_value y"
    by linarith
  then show ?case
  proof cases
    case 1
    then have "Suc (digit_value x) * 10 ^ length xs \<le> digit_value y * 10 ^ length xs"
      by (intro mult_right_mono) auto
    then have "dec (x # xs) < dec (y # ys)" using u Cons.hyps by (simp add: dec_Cons)
    moreover have "x < y" using 1 dx by (simp add: less_byte)
    ultimately show ?thesis by auto
  next
    case 2
    then have "Suc (digit_value y) * 10 ^ length xs \<le> digit_value x * 10 ^ length xs"
      by (intro mult_right_mono) auto
    then have "dec (y # ys) < dec (x # xs)" using u Cons.hyps by (simp add: dec_Cons)
    moreover have "y < x" using 2 dx by (simp add: less_byte)
    ultimately show ?thesis by auto
  next
    case 3
    then have "byte x = byte y" using dx by linarith
    then have "x = y" by (simp only: byte_inject)
    then show ?thesis using Cons by (simp add: dec_Cons)
  qed
qed

lemma CompareDecimal_numeric:
  assumes "ValidComponent l" "ValidComponent r"
  shows "CompareDecimal l r = sgn (int (dec l) - int (dec r))"
proof -
  have pos: "length a < length b \<Longrightarrow> ValidComponent a \<Longrightarrow> ValidComponent b \<Longrightarrow> dec a < dec b" for a b
  proof -
    assume a: "length a < length b" "ValidComponent a" "ValidComponent b"
    then have "a \<noteq> []" by (simp add: ValidComponent_def)
    with a(1) have "1 < length b" by (cases a) auto
    then have "10 ^ (length b - 1) \<le> dec b" using dec_lower a(3) by blast
    moreover have "dec a < 10 ^ length a" using dec_upper a(2) by (simp add: ValidComponent_def)
    moreover have "(10::nat) ^ length a \<le> 10 ^ (length b - 1)" using a(1) by (intro power_increasing) auto
    ultimately show ?thesis by linarith
  qed
  show ?thesis
  proof (cases "length l = length r")
    case True
    then show ?thesis
      using dec_less_same_length [of l r] assms
      by (auto simp: CompareDecimal_def ValidComponent_def)
  next
    case False
    then consider "length l < length r" | "length r < length l" by linarith
    then show ?thesis
      using pos [OF _ assms] pos [OF _ assms(2,1)] by cases (simp_all add: CompareDecimal_def)
  qed
qed

lemma CompareDecimal_eq:
  assumes "ValidComponent l" "ValidComponent r"
  shows "CompareDecimal l r = 0 \<longleftrightarrow> l = r"
  by (simp add: CompareDecimal_def)

section \<open>Parsing\<close>

lemma no_dot_valid: "ValidComponent s \<Longrightarrow> DOT \<notin> set s"
  by (auto simp: ValidComponent_def isdigit_def)

lemma find_char_from_None: "find_char_from c s n = None \<longleftrightarrow> c \<notin> set (drop n s)"
  by (simp add: find_char_from_def str_simps)

lemma ParseContentVersion_complete:
  assumes "valid_version v"
  shows "ParseContentVersion (ContentVersionToString v) = Inr v"
proof -
  obtain a b c where v: "v = \<lparr>cv_major = a, cv_minor = b, cv_patch = c\<rparr>" by (cases v)
  have ok: "ValidComponent a" "ValidComponent b" "ValidComponent c"
    using assms by (simp_all add: valid_version_def v)
  then have nd: "DOT \<notin> set a" "DOT \<notin> set b" "DOT \<notin> set c" by (simp_all add: no_dot_valid)
  let ?t = "a @ DOT # b @ DOT # c"
  have first: "find_char DOT ?t = Some (length a)" using nd by (simp add: str_simps)
  have second: "find_char_from DOT ?t (length a + 1) = Some (length a + 1 + length b)"
    using nd by (simp add: find_char_from_def str_simps)
  have third: "find_char_from DOT ?t (length a + 1 + length b + 1) = None"
    using nd by (simp add: find_char_from_None)
  show ?thesis
    using first second third ok
    by (simp add: ParseContentVersion_def ContentVersionToString_def v Let_def substr_def)
qed

lemma ParseContentVersion_sound:
  assumes "ParseContentVersion t = Inr v"
  shows "valid_version v \<and> ContentVersionToString v = t"
proof -
  obtain i where i: "find_char DOT t = Some i"
    using assms by (auto simp: ParseContentVersion_def split: option.splits)
  obtain j where j: "find_char_from DOT t (i + 1) = Some j"
    using assms i by (auto simp: ParseContentVersion_def split: option.splits)
  have v: "valid_version v" "v = \<lparr>cv_major = substr 0 i t, cv_minor = substr (i + 1) (j - i - 1) t,
      cv_patch = drop (j + 1) t\<rparr>"
    using assms i j by (auto simp: ParseContentVersion_def valid_version_def Let_def split: if_splits)
  have i': "i < length t" "t ! i = DOT" using i by (simp_all add: find_char_Some)
  obtain k where k: "find_char DOT (drop (i + 1) t) = Some k" "j = i + 1 + k"
    using j by (auto simp: find_char_from_def)
  have k': "k < length (drop (i + 1) t)" "drop (i + 1) t ! k = DOT"
    using k(1) by (simp_all only: find_char_Some)
  have "t = take i t @ DOT # drop (i + 1) t" using id_take_nth_drop [OF i'(1)] i'(2) by simp
  moreover have "drop (i + 1) t = take k (drop (i + 1) t) @ DOT # drop (j + 1) t"
  proof -
    have "drop (i + 1) t = take k (drop (i + 1) t) @ drop (i + 1) t ! k # drop (Suc k) (drop (i + 1) t)"
      using k'(1) by (rule id_take_nth_drop)
    moreover have "drop (Suc k) (drop (i + 1) t) = drop (j + 1) t" by (simp add: k(2) add.commute)
    ultimately show ?thesis using k'(2) by simp
  qed
  ultimately have "t = take i t @ DOT # take k (drop (i + 1) t) @ DOT # drop (j + 1) t" by simp
  then show ?thesis using v(1) by (simp add: v(2) ContentVersionToString_def substr_def k(2))
qed

lemma CompareContentVersion_numeric:
  assumes "valid_version l" "valid_version r"
  shows "CompareContentVersion l r =
    (if dec (cv_major l) \<noteq> dec (cv_major r) then sgn (int (dec (cv_major l)) - int (dec (cv_major r)))
     else if dec (cv_minor l) \<noteq> dec (cv_minor r) then sgn (int (dec (cv_minor l)) - int (dec (cv_minor r)))
     else sgn (int (dec (cv_patch l)) - int (dec (cv_patch r))))"
  using assms by (simp add: CompareContentVersion_def valid_version_def CompareDecimal_numeric Let_def sgn_if)

end
