(* ===== verification/Base64.thy ===== *)
theory Base64
  imports Prelude
begin

unbundle bit_operations_syntax

text \<open>
  \<open>src/lib/Base64.cpp\<close>: the decoder of the payloads that arrive through the MMI interface.
  The specification is the encoder of RFC 4648, with padding.
\<close>

section \<open>The decoder\<close>

definition Base64Char :: "char \<Rightarrow> nat" where
  "Base64Char c =
     (if isupper c then byte c - 65
      else if islower c then byte c - 97 + 26
      else if isdigit c then byte c - 48 + 52
      else if c = CHR ''+'' then 62
      else if c = CHR ''/'' then 63
      else 0)"

definition IsBase64 :: "char \<Rightarrow> bool" where
  "IsBase64 c \<longleftrightarrow> isalnum c \<or> c = CHR ''+'' \<or> c = CHR ''/'' \<or> c = CHR ''=''"

definition byte0 :: "nat \<Rightarrow> nat \<Rightarrow> char" where
  "byte0 e0 e1 = char_of (push_bit 2 e0 OR drop_bit 4 e1)"

definition byte1 :: "nat \<Rightarrow> nat \<Rightarrow> char" where
  "byte1 e1 e2 = char_of (push_bit 4 (e1 AND 0x0f) OR drop_bit 2 e2)"

definition byte2 :: "nat \<Rightarrow> nat \<Rightarrow> char" where
  "byte2 e2 e3 = char_of (push_bit 6 (e2 AND 0x03) OR e3)"

text \<open>One group of four: the characters before the first \<open>=\<close> decide how many bytes it gives.\<close>

definition decode_group :: "string \<Rightarrow> string result" where
  "decode_group g =
     (case map Base64Char (takeWhile (\<lambda>c. c \<noteq> CHR ''='') g) of
        [e0, e1, e2, e3] \<Rightarrow> Inr [byte0 e0 e1, byte1 e1 e2, byte2 e2 e3]
      | [e0, e1, e2] \<Rightarrow> Inr [byte0 e0 e1, byte1 e1 e2]
      | [e0, e1] \<Rightarrow> Inr [byte0 e0 e1]
      | _ \<Rightarrow> Inl (Error ''Invalid base64'' EINVAL))"

fun decode_groups :: "string \<Rightarrow> string result" where
  "decode_groups (a # b # c # d # rest) =
     and_then (decode_group [a, b, c, d]) (\<lambda>x. and_then (decode_groups rest) (\<lambda>y. Inr (x @ y)))"
| "decode_groups _ = Inr []"

definition Base64Decode :: "string \<Rightarrow> string result" where
  "Base64Decode input =
     (if length input mod 4 \<noteq> 0 then Inl (Error ''Invalid base64 length'' EINVAL)
      else if \<not> list_all IsBase64 input then Inl (Error ''Invalid base64 character'' EINVAL)
      else decode_groups input)"

section \<open>The encoder of the standard\<close>

definition base64_digit :: "nat \<Rightarrow> char" where
  "base64_digit v =
     (if v < 26 then char_of (65 + v)
      else if v < 52 then char_of (97 + (v - 26))
      else if v < 62 then char_of (48 + (v - 52))
      else if v = 62 then CHR ''+'' else CHR ''/'')"

fun base64_encode :: "string \<Rightarrow> string" where
  "base64_encode [] = []"
| "base64_encode [x] =
     [base64_digit (byte x div 4), base64_digit (byte x mod 4 * 16), CHR ''='', CHR ''='']"
| "base64_encode [x, y] =
     [base64_digit (byte x div 4), base64_digit (byte x mod 4 * 16 + byte y div 16),
      base64_digit (byte y mod 16 * 4), CHR ''='']"
| "base64_encode (x # y # z # rest) =
     [base64_digit (byte x div 4), base64_digit (byte x mod 4 * 16 + byte y div 16),
      base64_digit (byte y mod 16 * 4 + byte z div 64), base64_digit (byte z mod 64)]
     @ base64_encode rest"

section \<open>Digits\<close>

lemma base64_digit [simp]:
  assumes "v < 64"
  shows "Base64Char (base64_digit v) = v" "IsBase64 (base64_digit v)" "base64_digit v \<noteq> CHR ''=''"
proof -
  consider "v < 26" | "26 \<le> v" "v < 52" | "52 \<le> v" "v < 62" | "v = 62" | "v = 63"
    using assms by linarith
  then have "Base64Char (base64_digit v) = v \<and> IsBase64 (base64_digit v) \<and> byte (base64_digit v) \<noteq> 61"
    by cases (auto simp add: base64_digit_def Base64Char_def IsBase64_def isalnum_def isalpha_def
        isupper_def islower_def isdigit_def)
  then show "Base64Char (base64_digit v) = v" "IsBase64 (base64_digit v)" "base64_digit v \<noteq> CHR ''=''"
    by auto
qed

lemma byte_bound: "byte c < 256"
  by (metis char_of_char of_char_of mod_less_divisor zero_less_numeral)

text \<open>Disjoint bit fields are sums.\<close>

lemma or_fields: "x < 2 ^ n \<Longrightarrow> push_bit n y OR x = y * 2 ^ n + (x::nat)"
proof -
  assume x: "x < 2 ^ n"
  have "push_bit n y AND x = 0"
  proof (rule bit_eqI)
    fix k
    have "bit x k \<Longrightarrow> k < n"
      using x by (metis bit_take_bit_iff take_bit_nat_eq_self)
    then show "bit (push_bit n y AND x) k = bit 0 k"
      by (auto simp: bit_and_iff bit_push_bit_iff)
  qed
  then show ?thesis by (simp flip: disjunctive_add_eq_or add: push_bit_eq_mult)
qed

lemma and_low: "x AND 0x0f = x mod 16" "x AND 0x03 = x mod (4::nat)"
  using take_bit_eq_mask [of 4 x] take_bit_eq_mask [of 2 x]
  by (simp_all add: take_bit_eq_mod mask_eq_exp_minus_1)

lemma fields:
  assumes "a < 256" "b < 256" "c < 256"
  shows "byte0 (a div 4) (a mod 4 * 16 + b div 16) = char_of a"
    and "byte1 (a mod 4 * 16 + b div 16) (b mod 16 * 4 + c div 64) = char_of b"
    and "byte2 (b mod 16 * 4 + c div 64) (c mod 64) = char_of c"
proof -
  have e1: "(a mod 4 * 16 + b div 16) div 16 = a mod 4" "(a mod 4 * 16 + b div 16) mod 16 = b div 16"
    using assms by simp_all
  have e2: "(b mod 16 * 4 + c div 64) div 4 = b mod 16" "(b mod 16 * 4 + c div 64) mod 4 = c div 64"
    using assms by simp_all
  show "byte0 (a div 4) (a mod 4 * 16 + b div 16) = char_of a"
    by (simp add: byte0_def drop_bit_eq_div e1 or_fields div_mult_mod_eq)
  have "b div 16 * 16 + b mod 16 = b" by (rule div_mult_mod_eq)
  then show "byte1 (a mod 4 * 16 + b div 16) (b mod 16 * 4 + c div 64) = char_of b"
    using assms(2) by (simp add: byte1_def drop_bit_eq_div and_low e1 e2 or_fields)
  have "c div 64 * 64 + c mod 64 = c" by (rule div_mult_mod_eq)
  then show "byte2 (b mod 16 * 4 + c div 64) (c mod 64) = char_of c"
    using assms(3) by (simp add: byte2_def and_low e2 or_fields)
qed

lemmas fields_bytes = fields [OF byte_bound byte_bound byte_bound]

lemma sextets [simp]:
  "byte x div 4 < 64" "byte x mod 4 * 16 + byte y div 16 < 64"
  "byte y mod 16 * 4 + byte z div 64 < 64" "byte z mod 64 < 64"
  "byte x mod 4 * 16 < 64" "byte y mod 16 * 4 < 64"
  using byte_bound [of x] byte_bound [of y] byte_bound [of z] by linarith+

section \<open>Decoding what the encoder wrote\<close>

lemma decode_groups_encode: "decode_groups (base64_encode s) = Inr s"
proof (induction s rule: base64_encode.induct)
  case (2 x)
  show ?case using fields(1) [OF byte_bound, of 0 0 x] by (simp add: decode_group_def)
next
  case (3 x y)
  show ?case
    using fields(1,2) [OF byte_bound byte_bound, of 0 x y] by (simp add: decode_group_def)
next
  case (4 x y z rest)
  then show ?case by (simp add: decode_group_def fields_bytes)
qed simp

lemma base64_encode_length: "length (base64_encode s) mod 4 = 0"
  by (induction s rule: base64_encode.induct) (simp_all add: mod_Suc)

lemma base64_encode_alphabet: "list_all IsBase64 (base64_encode s)"
  by (induction s rule: base64_encode.induct) (simp_all add: IsBase64_def [of "CHR ''=''"])

lemma Base64Decode_encode: "Base64Decode (base64_encode s) = Inr s"
  by (simp add: Base64Decode_def base64_encode_length base64_encode_alphabet decode_groups_encode)

section \<open>Size and errors\<close>

lemma decode_group_length: "decode_group g = Inr x \<Longrightarrow> length x \<le> 3"
  by (auto simp: decode_group_def split: list.splits)

lemma decode_groups_length: "decode_groups s = Inr t \<Longrightarrow> length t \<le> length s * 3 div 4"
proof (induction s arbitrary: t rule: decode_groups.induct)
  case (1 a b c d rest)
  then obtain x y where "decode_group [a, b, c, d] = Inr x" "decode_groups rest = Inr y" "t = x @ y"
    by (auto simp: result_simps)
  then show ?case using 1(1) [OF \<open>decode_group [a, b, c, d] = Inr x\<close>] decode_group_length by fastforce
qed auto

lemma Base64Decode_error_code: "Base64Decode s = Inl e \<Longrightarrow> err_code e = EINVAL"
proof -
  have g: "decode_group g = Inl e \<Longrightarrow> err_code e = EINVAL" for g
    by (auto simp: decode_group_def split: list.splits)
  have "decode_groups s = Inl e \<Longrightarrow> err_code e = EINVAL"
    by (induction s rule: decode_groups.induct) (auto simp: result_simps dest: g)
  then show "Base64Decode s = Inl e \<Longrightarrow> err_code e = EINVAL"
    by (auto simp: Base64Decode_def split: if_splits)
qed

text \<open>The decoder accepts padding inside the text, and drops characters behind a padding character
  of the same group.\<close>

lemma Base64Decode_inner_padding: "Base64Decode ''QQ==QQ=='' = Inr ''AA''"
  by code_simp

lemma Base64Decode_dropped_character: "Base64Decode ''QQ=A'' = Inr ''A''"
  by code_simp

end
