(* ===== verification/JsonWrapper.thy ===== *)
theory JsonWrapper
  imports JsonParse Base64
begin

text \<open>
  \<open>src/lib/JsonWrapper.cpp\<close>: the guard in front of the JSON parser. The wrapper owns a parsed
  value; here it is the value. \<open>ContainsNul\<close> rejects text that would give a string with an
  embedded terminator, which the C string accessors would cut short.
\<close>

text \<open>The scanning loop, with its \<open>inString\<close> flag; a backslash inside a string consumes the
  following character.\<close>

fun contains_nul_escape :: "bool \<Rightarrow> string \<Rightarrow> bool" where
  "contains_nul_escape inString [] = False"
| "contains_nul_escape inString (c # cs) =
     (if \<not> inString then contains_nul_escape (c = DQ) cs
      else if c = DQ then contains_nul_escape False cs
      else if c \<noteq> BSL then contains_nul_escape True cs
      else (case cs of
              [] \<Rightarrow> False
            | d # ds \<Rightarrow> if d = CHR ''u'' \<and> 4 \<le> length ds \<and> take 4 ds = ''0000'' then True
                        else contains_nul_escape True ds))"

definition ContainsNul :: "string \<Rightarrow> bool" where
  "ContainsNul input = (if NUL \<in> set input then True else contains_nul_escape False input)"

definition JsonWrapper_FromString :: "strtod_fun \<Rightarrow> string \<Rightarrow> json result" where
  "JsonWrapper_FromString strtod input =
     (if ContainsNul input then Inl (Error ''JSON input contains embedded NUL'' EINVAL)
      else case json_parse_string strtod (c_str input) of
             None \<Rightarrow> Inl (Error ''Failed to parse JSON'' EINVAL)
           | Some v \<Rightarrow> Inr v)"

definition JsonWrapper_FromBase64 :: "strtod_fun \<Rightarrow> string \<Rightarrow> json result" where
  "JsonWrapper_FromBase64 strtod input =
     and_then (Base64Decode input) (JsonWrapper_FromString strtod)"

definition JsonWrapper_FromJsonString :: "string \<Rightarrow> json result" where
  "JsonWrapper_FromJsonString input =
     (if NUL \<in> set input then Inl (Error ''JSON string contains embedded NUL'' EINVAL)
      else case json_value_init_string_with_len input of
             None \<Rightarrow> Inl (Error ''Failed to parse JSON-encoded string'' EINVAL)
           | Some v \<Rightarrow>
               if json_value_get_type (Some v) \<noteq> JSONString
               then Inl (Error ''Failed to parse a JSON-encoded string: the parsed value is not a string'' EINVAL)
               else Inr v)"

definition JsonWrapper_MakeObject :: "json result" where
  "JsonWrapper_MakeObject = Inr (JObject [])"

lemma FromString_Inr:
  "JsonWrapper_FromString strtod s = Inr v
   \<longleftrightarrow> \<not> ContainsNul s \<and> json_parse_string strtod s = Some v"
  by (auto simp: JsonWrapper_FromString_def ContainsNul_def split: option.splits if_splits)

lemma FromBase64_encode:
  "JsonWrapper_FromBase64 strtod (base64_encode s) = JsonWrapper_FromString strtod s"
  by (simp add: JsonWrapper_FromBase64_def Base64Decode_encode)

lemma FromString_error_code: "JsonWrapper_FromString strtod s = Inl e \<Longrightarrow> err_code e = EINVAL"
  by (auto simp: JsonWrapper_FromString_def split: option.splits if_splits)

lemma FromBase64_error_code: "JsonWrapper_FromBase64 strtod s = Inl e \<Longrightarrow> err_code e = EINVAL"
  using Base64Decode_error_code FromString_error_code
  by (auto simp: JsonWrapper_FromBase64_def result_simps)

end
