(* ===== verification/Status.thy ===== *)
theory Status
  imports Prelude
begin

text \<open>
  \<open>MmiResults.h\<close>, \<open>ResultEvidence.cpp\<close> and \<open>TypedComparison.h\<close> of the engine: the three statuses of an audit, how they combine, and the
  collectors of evidence that procedures feed. The statuses are ordered NonCompliant,
  NotApplicable, Compliant; conjunction is the minimum of that order.
\<close>

section \<open>Statuses\<close>

datatype status = Compliant | NonCompliant | NotApplicable

definition CombineAllOf :: "status \<Rightarrow> status \<Rightarrow> status" where
  "CombineAllOf a b =
     (if NonCompliant = a \<or> NonCompliant = b then NonCompliant
      else if NotApplicable = a \<or> NotApplicable = b then NotApplicable
      else Compliant)"

fun status_to_string :: "status \<Rightarrow> string" where
  "status_to_string Compliant = ''Compliant''"
| "status_to_string NotApplicable = ''NotApplicable''"
| "status_to_string NonCompliant = ''NonCompliant''"

instantiation status :: linorder
begin

fun status_rank :: "status \<Rightarrow> nat" where
  "status_rank NonCompliant = 0"
| "status_rank NotApplicable = 1"
| "status_rank Compliant = 2"

definition less_eq_status :: "status \<Rightarrow> status \<Rightarrow> bool" where
  "a \<le> b \<longleftrightarrow> status_rank a \<le> status_rank b"

definition less_status :: "status \<Rightarrow> status \<Rightarrow> bool" where
  "a < b \<longleftrightarrow> status_rank a < status_rank b"

instance
proof
  fix a b c :: status
  show "a < b \<longleftrightarrow> a \<le> b \<and> \<not> b \<le> a" by (auto simp: less_eq_status_def less_status_def)
  show "a \<le> a" by (simp add: less_eq_status_def)
  show "a \<le> b \<Longrightarrow> b \<le> c \<Longrightarrow> a \<le> c" by (simp add: less_eq_status_def)
  show "a \<le> b \<Longrightarrow> b \<le> a \<Longrightarrow> a = b" by (cases a; cases b) (simp_all add: less_eq_status_def)
  show "a \<le> b \<or> b \<le> a" by (auto simp: less_eq_status_def)
qed

end

lemma CombineAllOf_min: "CombineAllOf a b = min a b"
  by (cases a; cases b) (simp_all add: CombineAllOf_def min_def less_eq_status_def)

lemma CombineAllOf_simps [simp]:
  "CombineAllOf NonCompliant b = NonCompliant" "CombineAllOf b NonCompliant = NonCompliant"
  "CombineAllOf Compliant b = b" "CombineAllOf b Compliant = b"
  by (cases b; simp add: CombineAllOf_def)+

lemma CombineAllOf_Compliant: "CombineAllOf a b = Compliant \<longleftrightarrow> a = Compliant \<and> b = Compliant"
  by (cases a; cases b) (simp_all add: CombineAllOf_def)

lemma status_to_string_inject: "status_to_string a = status_to_string b \<longleftrightarrow> a = b"
  by (cases a; cases b) simp_all

section \<open>Typed comparison\<close>

datatype typed_comparison_operation =
  OpEqual | OpNotEqual | LessThan | LessOrEqual | GreaterThan | GreaterOrEqual

fun CompareTyped :: "'a::linorder \<Rightarrow> 'a \<Rightarrow> typed_comparison_operation \<Rightarrow> bool result" where
  "CompareTyped l r OpEqual = Inr (l = r)"
| "CompareTyped l r OpNotEqual = Inr (l \<noteq> r)"
| "CompareTyped l r LessThan = Inr (l < r)"
| "CompareTyped l r LessOrEqual = Inr (l \<le> r)"
| "CompareTyped l r GreaterThan = Inr (l > r)"
| "CompareTyped l r GreaterOrEqual = Inr (l \<ge> r)"

section \<open>Evidence over selected items\<close>

datatype state_satisfaction = Satisfied | NotSatisfied

text \<open>Every value of the enum is one of the two, so \<open>ValidateStateSatisfaction\<close> hands back its
  argument.\<close>

fun ValidateStateSatisfaction :: "state_satisfaction result \<Rightarrow> state_satisfaction result" where
  "ValidateStateSatisfaction (Inl e) = Inl e"
| "ValidateStateSatisfaction (Inr Satisfied) = Inr Satisfied"
| "ValidateStateSatisfaction (Inr NotSatisfied) = Inr NotSatisfied"

record completed_item_evidence =
  mHasSelected :: bool
  mAllSatisfied :: "state_satisfaction result"

definition CompletedItemEvidence_init :: completed_item_evidence where
  "CompletedItemEvidence_init = \<lparr>mHasSelected = False, mAllSatisfied = Inr Satisfied\<rparr>"

definition AddSelected :: "state_satisfaction result \<Rightarrow> completed_item_evidence \<Rightarrow> completed_item_evidence" where
  "AddSelected state ev =
     (let ev = ev\<lparr>mHasSelected := True\<rparr> in
      if \<not> has_value (mAllSatisfied ev) then ev
      else (case ValidateStateSatisfaction state of
              Inl e \<Rightarrow> ev\<lparr>mAllSatisfied := Inl e\<rparr>
            | Inr NotSatisfied \<Rightarrow> ev\<lparr>mAllSatisfied := Inr NotSatisfied\<rparr>
            | Inr Satisfied \<Rightarrow> ev))"

definition RecordError :: "error \<Rightarrow> completed_item_evidence \<Rightarrow> completed_item_evidence" where
  "RecordError e ev = (if has_value (mAllSatisfied ev) then ev\<lparr>mAllSatisfied := Inl e\<rparr> else ev)"

record comparison_evidence =
  mHasComparisons :: bool
  mAnySatisfied :: "state_satisfaction result"

definition SelectedItemComparisonEvidence_init :: comparison_evidence where
  "SelectedItemComparisonEvidence_init = \<lparr>mHasComparisons = False, mAnySatisfied = Inr NotSatisfied\<rparr>"

definition AddComparison :: "state_satisfaction result \<Rightarrow> comparison_evidence \<Rightarrow> comparison_evidence" where
  "AddComparison state ev =
     (let ev = ev\<lparr>mHasComparisons := True\<rparr> in
      if \<not> has_value (mAnySatisfied ev) then ev
      else (case ValidateStateSatisfaction state of
              Inl e \<Rightarrow> ev\<lparr>mAnySatisfied := Inl e\<rparr>
            | Inr Satisfied \<Rightarrow> ev\<lparr>mAnySatisfied := Inr Satisfied\<rparr>
            | Inr NotSatisfied \<Rightarrow> ev))"

definition empty_item_error :: error where
  "empty_item_error = Error ''Selected value item has no comparison results'' EINVAL"

definition AnyComparisonSatisfied :: "comparison_evidence \<Rightarrow> state_satisfaction result" where
  "AnyComparisonSatisfied ev = (if \<not> mHasComparisons ev then Inl empty_item_error else mAnySatisfied ev)"

record selected_items_evidence =
  mItems :: completed_item_evidence
  mHasEmptyItem :: bool

definition SelectedItemsEvidence_init :: selected_items_evidence where
  "SelectedItemsEvidence_init = \<lparr>mItems = CompletedItemEvidence_init, mHasEmptyItem = False\<rparr>"

definition AddItem :: "state_satisfaction result \<Rightarrow> selected_items_evidence \<Rightarrow> selected_items_evidence" where
  "AddItem a ev = ev\<lparr>mItems := AddSelected a (mItems ev)\<rparr>"

definition AddComparedItem :: "comparison_evidence \<Rightarrow> selected_items_evidence \<Rightarrow> selected_items_evidence" where
  "AddComparedItem item ev =
     (if \<not> mHasComparisons item
      then ev\<lparr>mHasEmptyItem := True, mItems := AddSelected (Inr NotSatisfied) (mItems ev)\<rparr>
      else ev\<lparr>mItems := AddSelected (AnyComparisonSatisfied item) (mItems ev)\<rparr>)"

definition RecordCollectionError :: "error \<Rightarrow> selected_items_evidence \<Rightarrow> selected_items_evidence" where
  "RecordCollectionError e ev = ev\<lparr>mItems := RecordError e (mItems ev)\<rparr>"

definition HasSelectedItems :: "selected_items_evidence \<Rightarrow> bool" where
  "HasSelectedItems ev = mHasSelected (mItems ev)"

definition AllSelectedItemsSatisfied :: "selected_items_evidence \<Rightarrow> state_satisfaction result" where
  "AllSelectedItemsSatisfied ev =
     and_then (mAllSatisfied (mItems ev)) (\<lambda>s. if mHasEmptyItem ev then Inl empty_item_error else Inr s)"

text \<open>What the collectors compute over everything added: the first error, else whether all are
  satisfied, or any.\<close>

fun first_Inl :: "'a result list \<Rightarrow> error option" where
  "first_Inl [] = None"
| "first_Inl (Inl e # rs) = Some e"
| "first_Inl (Inr x # rs) = first_Inl rs"

lemma ValidateStateSatisfaction_id [simp]: "ValidateStateSatisfaction s = s"
  by (cases s rule: ValidateStateSatisfaction.cases) simp_all

lemma AddSelected_fold_error:
  "mAllSatisfied ev = Inl e \<Longrightarrow> mAllSatisfied (fold AddSelected states ev) = Inl e"
  by (induction states arbitrary: ev) (simp_all add: AddSelected_def Let_def)

lemma AddSelected_fold:
  assumes "mAllSatisfied ev = Inr s"
  shows "mAllSatisfied (fold AddSelected states ev) =
    (case first_Inl states of
       Some e \<Rightarrow> Inl e
     | None \<Rightarrow> Inr (if s = Satisfied \<and> (\<forall>x\<in>set states. x = Inr Satisfied) then Satisfied else NotSatisfied))"
  using assms
proof (induction states arbitrary: ev s rule: first_Inl.induct)
  case 1
  then show ?case by (cases s) simp_all
next
  case (2 e rs)
  then have "mAllSatisfied (AddSelected (Inl e) ev) = Inl e" by (simp add: AddSelected_def)
  then show ?case by (simp add: AddSelected_fold_error)
next
  case (3 x rs)
  have "mAllSatisfied (AddSelected (Inr x) ev) = Inr (if x = NotSatisfied then NotSatisfied else s)"
    using 3(2) by (cases x) (simp_all add: AddSelected_def)
  from 3(1) [OF this] show ?case by (cases x) (auto split: option.split)
qed

lemma AddSelected_fold_has: "mHasSelected (fold AddSelected states ev) \<longleftrightarrow> mHasSelected ev \<or> states \<noteq> []"
proof (induction states arbitrary: ev)
  case (Cons s states)
  have "mHasSelected (AddSelected s ev)"
    by (simp add: AddSelected_def Let_def split: sum.split state_satisfaction.split)
  with Cons show ?case by simp
qed simp

lemma AddComparison_fold_error:
  "mAnySatisfied ev = Inl e \<Longrightarrow> mAnySatisfied (fold AddComparison states ev) = Inl e"
  by (induction states arbitrary: ev) (simp_all add: AddComparison_def Let_def)

lemma AddComparison_fold:
  assumes "mAnySatisfied ev = Inr s"
  shows "mAnySatisfied (fold AddComparison states ev) =
    (case first_Inl states of
       Some e \<Rightarrow> Inl e
     | None \<Rightarrow> Inr (if s = Satisfied \<or> Inr Satisfied \<in> set states then Satisfied else NotSatisfied))"
  using assms
proof (induction states arbitrary: ev s rule: first_Inl.induct)
  case 1
  then show ?case by (cases s) simp_all
next
  case (2 e rs)
  then have "mAnySatisfied (AddComparison (Inl e) ev) = Inl e" by (simp add: AddComparison_def)
  then show ?case by (simp add: AddComparison_fold_error)
next
  case (3 x rs)
  have "mAnySatisfied (AddComparison (Inr x) ev) = Inr (if x = Satisfied then Satisfied else s)"
    using 3(2) by (cases x) (simp_all add: AddComparison_def)
  from 3(1) [OF this] show ?case by (cases x) (auto split: option.split)
qed

end
