(* ===== verification/Indicators.thy ===== *)
theory Indicators
  imports Status
begin

text \<open>
  \<open>src/lib/Indicators.cpp\<close>: the tree of findings that an evaluation builds, and the stack of the
  nodes being evaluated. The code keeps raw pointers into the tree; the model keeps the path of
  each node on the stack, from the root, as child indices. The assertions of the code that the
  stack is not empty are preconditions: outside them the operations of the model leave the tree
  as it is, and the evaluator theorems show that it stays inside them.

  The second half is the abstract view the client proofs use: a node under construction
  together with the unfinished nodes above it, on which pushing, popping and adding are list
  operations.
\<close>

section \<open>The tree and its stack\<close>

datatype indicator = Indicator (message: string) (istatus: status)

datatype node =
  Node (procedureName: string) (nstatus: status) (children: "node list") (indicators: "indicator list")

record indicators_tree =
  mTreeRoot :: "node option"
  mEvaluationStack :: "nat list list"

definition IndicatorsTree_init :: indicators_tree where
  "IndicatorsTree_init = \<lparr>mTreeRoot = None, mEvaluationStack = []\<rparr>"

definition new_node :: "string \<Rightarrow> node" where
  "new_node name = Node name NonCompliant [] []"

fun node_at :: "nat list \<Rightarrow> node \<Rightarrow> node option" where
  "node_at [] n = Some n"
| "node_at (i # p) n = (if i < length (children n) then node_at p (children n ! i) else None)"

fun node_update :: "(node \<Rightarrow> node) \<Rightarrow> nat list \<Rightarrow> node \<Rightarrow> node" where
  "node_update f [] n = f n"
| "node_update f (i # p) n =
     (if i < length (children n)
      then Node (procedureName n) (nstatus n)
             ((children n)[i := node_update f p (children n ! i)]) (indicators n)
      else n)"

fun add_indicator :: "indicator \<Rightarrow> node \<Rightarrow> node" where
  "add_indicator x (Node nm s cs xs) = Node nm s cs (xs @ [x])"

fun add_child :: "node \<Rightarrow> node \<Rightarrow> node" where
  "add_child c (Node nm s cs xs) = Node nm s (cs @ [c]) xs"

fun set_node_status :: "status \<Rightarrow> node \<Rightarrow> node" where
  "set_node_status s (Node nm _ cs xs) = Node nm s cs xs"

text \<open>An update through the pointer on top of the stack.\<close>

definition update_back :: "(node \<Rightarrow> node) \<Rightarrow> indicators_tree \<Rightarrow> indicators_tree" where
  "update_back f it =
     (if mEvaluationStack it = [] then it
      else it\<lparr>mTreeRoot := map_option (node_update f (last (mEvaluationStack it))) (mTreeRoot it)\<rparr>)"

definition AddIndicator :: "string \<Rightarrow> status \<Rightarrow> indicators_tree \<Rightarrow> status \<times> indicators_tree" where
  "AddIndicator msg st it = (st, update_back (add_indicator (Indicator msg st)) it)"

definition ind_compliant :: "string \<Rightarrow> indicators_tree \<Rightarrow> status \<times> indicators_tree" where
  "ind_compliant msg = AddIndicator msg Compliant"

definition ind_noncompliant :: "string \<Rightarrow> indicators_tree \<Rightarrow> status \<times> indicators_tree" where
  "ind_noncompliant msg = AddIndicator msg NonCompliant"

definition ind_notapplicable :: "string \<Rightarrow> indicators_tree \<Rightarrow> status \<times> indicators_tree" where
  "ind_notapplicable msg = AddIndicator msg NotApplicable"

definition Push :: "string \<Rightarrow> indicators_tree \<Rightarrow> indicators_tree" where
  "Push name it =
     (case mTreeRoot it of
        None \<Rightarrow> it\<lparr>mTreeRoot := Some (new_node name), mEvaluationStack := mEvaluationStack it @ [[]]\<rparr>
      | Some r \<Rightarrow>
          if mEvaluationStack it = [] then it
          else let p = last (mEvaluationStack it) in
               (case node_at p r of
                  None \<Rightarrow> it
                | Some current \<Rightarrow>
                    it\<lparr>mTreeRoot := Some (node_update (add_child (new_node name)) p r),
                       mEvaluationStack := mEvaluationStack it @ [p @ [length (children current)]]\<rparr>))"

definition Pop :: "indicators_tree \<Rightarrow> indicators_tree" where
  "Pop it = it\<lparr>mEvaluationStack := butlast (mEvaluationStack it)\<rparr>"

definition Back :: "indicators_tree \<Rightarrow> node option" where
  "Back it = (if mEvaluationStack it = [] then None
              else Option.bind (mTreeRoot it) (node_at (last (mEvaluationStack it))))"

definition set_back_status :: "status \<Rightarrow> indicators_tree \<Rightarrow> indicators_tree" where
  "set_back_status s = update_back (set_node_status s)"

definition GetRootNode :: "indicators_tree \<Rightarrow> node option" where
  "GetRootNode it = mTreeRoot it"

section \<open>The open-node view\<close>

text \<open>\<open>open_tree n ps\<close>: \<open>n\<close> is the node under construction and \<open>ps\<close> the nodes above it, the
  nearest first, each without the child that is still open.\<close>

fun close_tree :: "node \<Rightarrow> node list \<Rightarrow> node" where
  "close_tree n [] = n"
| "close_tree n (p # ps) = close_tree (add_child n p) ps"

fun open_path :: "node list \<Rightarrow> nat list" where
  "open_path [] = []"
| "open_path (p # ps) = open_path ps @ [length (children p)]"

fun open_stack :: "node list \<Rightarrow> nat list list" where
  "open_stack [] = [[]]"
| "open_stack (p # ps) = open_stack ps @ [open_path (p # ps)]"

definition open_tree :: "node \<Rightarrow> node list \<Rightarrow> indicators_tree" where
  "open_tree n ps = \<lparr>mTreeRoot = Some (close_tree n ps), mEvaluationStack = open_stack ps\<rparr>"

lemma open_stack_not_empty [simp]: "open_stack ps \<noteq> []"
  by (cases ps) auto

lemma last_open_stack [simp]: "last (open_stack ps) = open_path ps"
  by (cases ps) auto

lemma node_update_append:
  "node_update f (p @ [i]) n =
     node_update (\<lambda>m. if i < length (children m)
       then Node (procedureName m) (nstatus m) ((children m)[i := f (children m ! i)]) (indicators m)
       else m) p n"
  by (induction p arbitrary: n) auto

lemma node_update_close: "node_update f (open_path ps) (close_tree n ps) = close_tree (f n) ps"
proof (induction ps arbitrary: n f)
  case Nil
  then show ?case by simp
next
  case (Cons p ps)
  show ?case by (cases p) (simp add: node_update_append Cons)
qed

lemma node_at_append:
  "node_at (p @ [i]) n =
     Option.bind (node_at p n) (\<lambda>m. if i < length (children m) then Some (children m ! i) else None)"
  by (induction p arbitrary: n) auto

lemma node_at_close: "node_at (open_path ps) (close_tree n ps) = Some n"
proof (induction ps arbitrary: n)
  case Nil
  then show ?case by simp
next
  case (Cons p ps)
  show ?case by (cases p) (simp add: node_at_append Cons)
qed

named_theorems open_tree_simps \<open>the operations on an open tree\<close>

lemma update_back_open [open_tree_simps]: "update_back f (open_tree n ps) = open_tree (f n) ps"
  by (simp add: update_back_def open_tree_def node_update_close)

lemma Push_init [open_tree_simps]: "Push name IndicatorsTree_init = open_tree (new_node name) []"
  by (simp add: Push_def IndicatorsTree_init_def open_tree_def)

lemma Push_open [open_tree_simps]: "Push name (open_tree n ps) = open_tree (new_node name) (n # ps)"
  by (simp add: Push_def open_tree_def node_at_close node_update_close Let_def)

lemma Pop_open [open_tree_simps]: "Pop (open_tree n (p # ps)) = open_tree (add_child n p) ps"
  by (simp add: Pop_def open_tree_def)

lemma Back_open [open_tree_simps]: "Back (open_tree n ps) = Some n"
  by (simp add: Back_def open_tree_def node_at_close)

lemma set_back_status_open [open_tree_simps]:
  "set_back_status s (open_tree n ps) = open_tree (set_node_status s n) ps"
  by (simp add: set_back_status_def open_tree_simps)

lemma AddIndicator_open [open_tree_simps]:
  "AddIndicator msg st (open_tree n ps) = (st, open_tree (add_indicator (Indicator msg st) n) ps)"
  by (simp add: AddIndicator_def open_tree_simps)

lemma GetRootNode_open [open_tree_simps]: "GetRootNode (Pop (open_tree n [])) = Some n"
  by (simp add: GetRootNode_def Pop_def open_tree_def)

lemma add_child_sel [simp]:
  "procedureName (add_child c n) = procedureName n" "nstatus (add_child c n) = nstatus n"
  "children (add_child c n) = children n @ [c]" "indicators (add_child c n) = indicators n"
  by (cases n; simp)+

lemma add_indicator_sel [simp]:
  "procedureName (add_indicator x n) = procedureName n" "nstatus (add_indicator x n) = nstatus n"
  "children (add_indicator x n) = children n" "indicators (add_indicator x n) = indicators n @ [x]"
  by (cases n; simp)+

lemma set_node_status_sel [simp]:
  "procedureName (set_node_status s n) = procedureName n" "nstatus (set_node_status s n) = s"
  "children (set_node_status s n) = children n" "indicators (set_node_status s n) = indicators n"
  by (cases n; simp)+

lemma new_node_sel [simp]:
  "procedureName (new_node nm) = nm" "nstatus (new_node nm) = NonCompliant"
  "children (new_node nm) = []" "indicators (new_node nm) = []"
  by (simp_all add: new_node_def)

text \<open>Two open trees are equal only when their parts are: nothing is lost in the concrete
  representation.\<close>

lemma add_child_inject: "add_child c n = add_child c' n' \<longleftrightarrow> c = c' \<and> n = n'"
  by (cases n; cases n') auto

lemma open_stack_length: "length (open_stack ps) = Suc (length ps)"
  by (induction ps) auto

lemma close_tree_inject:
  "length ps = length qs \<Longrightarrow> close_tree n ps = close_tree m qs \<Longrightarrow> n = m \<and> ps = qs"
proof (induction ps qs arbitrary: n m rule: list_induct2)
  case Nil
  then show ?case by simp
next
  case (Cons p ps q qs)
  from Cons.IH [of "add_child n p" "add_child m q"] Cons.prems
  show ?case by (simp add: add_child_inject)
qed

lemma open_tree_inject: "open_tree n ps = open_tree m qs \<longleftrightarrow> n = m \<and> ps = qs"
proof
  assume "open_tree n ps = open_tree m qs"
  then have eq: "close_tree n ps = close_tree m qs" "open_stack ps = open_stack qs"
    by (simp_all add: open_tree_def)
  from arg_cong [OF eq(2), of length] have "length ps = length qs"
    by (simp add: open_stack_length)
  with eq(1) show "n = m \<and> ps = qs" by (rule close_tree_inject [rotated])
qed simp

end
