(* ===== verification/Evaluator.thy ===== *)
theory Evaluator
  imports Indicators Json
begin

text \<open>
  \<open>src/lib/Evaluator.cpp\<close>: the interpreter of rule expressions. A rule is a JSON object whose
  first member names an operator (anyOf, allOf, not, Lua) or a builtin procedure. The state of
  an evaluation is the tree of indicators and the system the procedures inspect and change,
  the type parameter \<open>'w\<close> (the \<open>ContextInterface\<close>). The procedure map and the Lua interpreter
  are arguments of the evaluator. The log is not modelled.
\<close>

section \<open>The environment of an evaluation\<close>

datatype action = Audit | Remediate

datatype list_action = AnyOf | AllOf

type_synonym 'w outcome = "status result \<times> indicators_tree \<times> 'w"

type_synonym 'w action_func = "parameter_map \<Rightarrow> indicators_tree \<Rightarrow> 'w \<Rightarrow> 'w outcome"

record 'w procedure_actions =
  audit_fn :: "'w action_func option"
  remediate_fn :: "'w action_func option"

record 'w evaluator =
  mParameters :: parameter_map
  mProcedureMap :: "string \<Rightarrow> 'w procedure_actions option"
  mLuaEvaluator :: "string \<Rightarrow> action \<Rightarrow> indicators_tree \<Rightarrow> 'w \<Rightarrow> 'w outcome"

section \<open>Arguments of a procedure\<close>

text \<open>One iteration of the loop over the members. \<open>insert\<close> keeps an entry that is there.\<close>

definition argument_step :: "parameter_map \<Rightarrow> string \<times> json \<Rightarrow> parameter_map \<Rightarrow> parameter_map result" where
  "argument_step params kv res =
     (case kv of (key, val) \<Rightarrow>
        if json_value_get_type (Some val) \<noteq> JSONString
        then Inl (Error ''Argument type is not a string'' EINVAL)
        else
          let res = om_emplace key (the (json_value_get_string (Some val))) res;
              paramValue = the (om_find res key)
          in if paramValue \<noteq> [] \<and> hd paramValue = CHR ''$''
             then (case om_find params (tl paramValue) of
                     None \<Rightarrow> Inl (Error ''Unknown parameter'' EINVAL)
                   | Some v \<Rightarrow> Inr (om_insert key v res))
             else Inr res)"

fun argument_loop :: "parameter_map \<Rightarrow> jobject \<Rightarrow> parameter_map \<Rightarrow> parameter_map result" where
  "argument_loop params [] res = Inr res"
| "argument_loop params (kv # ms) res = and_then (argument_step params kv res) (argument_loop params ms)"

definition GetBuiltinProcedureArguments :: "parameter_map \<Rightarrow> json \<Rightarrow> parameter_map result" where
  "GetBuiltinProcedureArguments params v =
     (case v of
        JObject ms \<Rightarrow> argument_loop params ms []
      | _ \<Rightarrow> Inl (Error ''invalid argument'' EINVAL))"

section \<open>Leaves: builtin procedures and Lua\<close>

definition select_function :: "'w procedure_actions \<Rightarrow> action \<Rightarrow> 'w action_func option" where
  "select_function p act =
     (if act = Remediate
      then (case remediate_fn p of None \<Rightarrow> audit_fn p | Some fn \<Rightarrow> Some fn)
      else audit_fn p)"

definition EvaluateBuiltinProcedure ::
  "'w evaluator \<Rightarrow> action \<Rightarrow> string \<Rightarrow> json \<Rightarrow> indicators_tree \<Rightarrow> 'w \<Rightarrow> 'w outcome" where
  "EvaluateBuiltinProcedure ev act procedure_name value it w =
     (if json_value_get_type (Some value) \<noteq> JSONObject then (Inl (Error1 ''invalid argument''), it, w)
      else case GetBuiltinProcedureArguments (mParameters ev) value of
        Inl e \<Rightarrow> (Inl e, it, w)
      | Inr arguments \<Rightarrow>
          (case mProcedureMap ev procedure_name of
             None \<Rightarrow> (Inl (Error (''Unknown function '' @ quoted procedure_name) ENOENT), it, w)
           | Some p \<Rightarrow>
               (case select_function p act of
                  None \<Rightarrow> (Inl (Error ''Function not found'' ENOENT), it, w)
                | Some fn \<Rightarrow> fn arguments it w)))"

definition EvaluateLua ::
  "'w evaluator \<Rightarrow> action \<Rightarrow> json \<Rightarrow> indicators_tree \<Rightarrow> 'w \<Rightarrow> 'w outcome" where
  "EvaluateLua ev act value it w =
     (if json_value_get_type (Some value) \<noteq> JSONObject
      then (Inl (Error ''Lua value is not an object'' EINVAL), it, w)
      else case GetBuiltinProcedureArguments (mParameters ev) value of
        Inl e \<Rightarrow> (Inl e, it, w)
      | Inr arguments \<Rightarrow>
          (case om_find arguments ''script'' of
             None \<Rightarrow> (Inl (Error ''No script content provided'' EINVAL), it, w)
           | Some script \<Rightarrow> mLuaEvaluator ev script act it w))"

section \<open>The operators\<close>

definition action_name :: "list_action \<Rightarrow> string" where
  "action_name la = (if la = AnyOf then ''anyOf'' else ''allOf'')"

definition initial_status :: "list_action \<Rightarrow> status" where
  "initial_status la = (if la = AnyOf then NonCompliant else Compliant)"

text \<open>After the evaluation of a subexpression: on success the status goes to the node on top of
  the stack, which is popped; on failure everything stays as it is.\<close>

fun finish :: "'w outcome \<Rightarrow> 'w outcome" where
  "finish (Inl e, it, w) = (Inl e, it, w)"
| "finish (Inr s, it, w) = (Inr s, Pop (set_back_status s it), w)"

fun negate_outcome :: "'w outcome \<Rightarrow> 'w outcome" where
  "negate_outcome (Inl e, it, w) = (Inl e, it, w)"
| "negate_outcome (Inr s, it, w) =
     (Inr (if s = NotApplicable then NotApplicable
           else if s = Compliant then NonCompliant else Compliant), it, w)"

function EvaluateProcedure :: "'w evaluator \<Rightarrow> action \<Rightarrow> jobject option \<Rightarrow> indicators_tree \<Rightarrow> 'w \<Rightarrow> 'w outcome"
  and EvaluateList :: "'w evaluator \<Rightarrow> action \<Rightarrow> list_action \<Rightarrow> json \<Rightarrow> indicators_tree \<Rightarrow> 'w \<Rightarrow> 'w outcome"
  and EvaluateItems :: "'w evaluator \<Rightarrow> action \<Rightarrow> list_action \<Rightarrow> status \<Rightarrow> json list \<Rightarrow> indicators_tree \<Rightarrow> 'w \<Rightarrow> 'w outcome"
  and EvaluateNot :: "'w evaluator \<Rightarrow> action \<Rightarrow> json \<Rightarrow> indicators_tree \<Rightarrow> 'w \<Rightarrow> 'w outcome" where
  "EvaluateProcedure ev act None it w = (Inl (Error ''invalid json argument'' EINVAL), it, w)"
| "EvaluateProcedure ev act (Some []) it w = (Inl (Error1 ''Rule name or value is null''), it, w)"
| "EvaluateProcedure ev act (Some ((name, value) # ms)) it w =
     (if name = ''anyOf'' \<or> name = ''allOf''
      then finish (EvaluateList ev act (if name = ''anyOf'' then AnyOf else AllOf) value (Push name it) w)
      else if name = ''not'' then finish (EvaluateNot ev act value (Push ''not'' it) w)
      else if name = ''Lua'' then finish (EvaluateLua ev act value (Push ''Lua'' it) w)
      else finish (EvaluateBuiltinProcedure ev act name value (Push name it) w))"
| "EvaluateList ev act la value it w =
     (case value of
        JArray vs \<Rightarrow> EvaluateItems ev act la (initial_status la) vs it w
      | _ \<Rightarrow> (Inl (Error (action_name la @ '' value is not an array'') EINVAL), it, w))"
| "EvaluateItems ev act la accumulated [] it w = (Inr accumulated, it, w)"
| "EvaluateItems ev act la accumulated (v # vs) it w =
     (case EvaluateProcedure ev act (json_value_get_object (Some v)) it w of
        (Inl e, it', w') \<Rightarrow> (Inl e, it', w')
      | (Inr s, it', w') \<Rightarrow>
          if s = Compliant \<and> la = AnyOf then (Inr Compliant, it', w')
          else if s = NonCompliant \<and> la = AllOf then (Inr NonCompliant, it', w')
          else EvaluateItems ev act la (if s = NotApplicable then NotApplicable else accumulated) vs it' w')"
| "EvaluateNot ev act value it w =
     (case value of
        JObject ms \<Rightarrow> negate_outcome (EvaluateProcedure ev Audit (Some ms) it w)
      | _ \<Rightarrow> (Inl (Error ''not value is not an object'' EINVAL), it, w))"
  by pat_completeness auto

definition object_size :: "jobject option \<Rightarrow> nat" where
  "object_size ob = (case ob of None \<Rightarrow> 0 | Some ms \<Rightarrow> size (JObject ms))"

lemma object_size_Some [simp]: "object_size (Some ms) = size (JObject ms)"
  by (simp add: object_size_def)

lemma object_size_get [simp]:
  "2 * object_size (json_value_get_object (Some v)) \<le> Suc (2 * size v + 2 * k)"
  by (cases v) (simp_all add: object_size_def)

termination EvaluateProcedure
  by (relation "measure (case_sum
        (case_sum (\<lambda>(ev, act, ob, it, w). 2 * object_size ob) (\<lambda>(ev, act, la, v, it, w). 2 * size v))
        (case_sum (\<lambda>(ev, act, la, acc, vs, it, w). 2 * size_list size vs)
                  (\<lambda>(ev, act, v, it, w). Suc (2 * size v))))") (auto simp: less_Suc_eq_le)

definition ExecuteAudit ::
  "'w evaluator \<Rightarrow> string \<Rightarrow> jobject option \<Rightarrow> (indicators_tree \<Rightarrow> string result) \<Rightarrow> 'w
   \<Rightarrow> (status \<times> string) result \<times> indicators_tree \<times> 'w" where
  "ExecuteAudit ev rule_name ob format w =
     (case finish (EvaluateProcedure ev Audit ob (Push rule_name IndicatorsTree_init) w) of
        (Inl e, it, w') \<Rightarrow> (Inl e, it, w')
      | (Inr s, it, w') \<Rightarrow>
          (case format it of
             Inl e \<Rightarrow> (Inr (s, ''Failed to format payload: '' @ err_message e), it, w')
           | Inr payload \<Rightarrow> (Inr (s, payload), it, w')))"

definition ExecuteRemediation :: "'w evaluator \<Rightarrow> string \<Rightarrow> jobject option \<Rightarrow> 'w \<Rightarrow> 'w outcome" where
  "ExecuteRemediation ev rule_name ob w =
     finish (EvaluateProcedure ev Remediate ob (Push rule_name IndicatorsTree_init) w)"

end
