(* ===== verification/EvaluatorTree.thy ===== *)
theory EvaluatorTree
  imports Evaluator
begin

text \<open>
  What an evaluation promises about the indicators: the contract of a procedure (it adds to the
  node it is given and leaves the stack as it found it), and the theorem that the evaluator
  built from such procedures adds exactly one node per expression, whose status is the result
  and is explained by the statuses of its children. The formatters rely on it.
\<close>

section \<open>Statuses of the operators\<close>

text \<open>The reference semantics of the operators on the statuses of their operands.\<close>

definition list_status :: "list_action \<Rightarrow> status list \<Rightarrow> status" where
  "list_status la ss =
     (if la = AllOf then foldr CombineAllOf ss Compliant
      else if Compliant \<in> set ss then Compliant
      else if NotApplicable \<in> set ss then NotApplicable
      else NonCompliant)"

definition decisive :: "list_action \<Rightarrow> status" where
  "decisive la = (if la = AnyOf then Compliant else NonCompliant)"

fun negate_status :: "status \<Rightarrow> status" where
  "negate_status Compliant = NonCompliant"
| "negate_status NonCompliant = Compliant"
| "negate_status NotApplicable = NotApplicable"

lemma list_status_all_of:
  "list_status AllOf ss =
    (if NonCompliant \<in> set ss then NonCompliant
     else if NotApplicable \<in> set ss then NotApplicable else Compliant)"
proof (induction ss)
  case (Cons s ss)
  then show ?case by (cases s) (auto simp: list_status_def CombineAllOf_def)
qed (simp add: list_status_def)

lemma list_status_decisive:
  "list_status la ss =
    (if decisive la \<in> set ss then decisive la
     else if NotApplicable \<in> set ss then NotApplicable else initial_status la)"
proof (cases la)
  case AllOf
  then show ?thesis by (simp add: list_status_all_of decisive_def initial_status_def)
next
  case AnyOf
  then show ?thesis by (simp add: list_status_def decisive_def initial_status_def)
qed

text \<open>A node that the operators account for: nothing follows a decisive operand, and the status
  is that of the operator on the statuses of the children.\<close>

fun node_ok :: "node \<Rightarrow> bool" where
  "node_ok (Node nm s cs xs) \<longleftrightarrow>
     (\<forall>c\<in>set cs. node_ok c)
     \<and> (nm = ''anyOf'' \<longrightarrow> s = list_status AnyOf (map nstatus cs) \<and> (\<forall>c\<in>set (butlast cs). nstatus c \<noteq> Compliant))
     \<and> (nm = ''allOf'' \<longrightarrow> s = list_status AllOf (map nstatus cs) \<and> (\<forall>c\<in>set (butlast cs). nstatus c \<noteq> NonCompliant))
     \<and> (nm = ''not'' \<longrightarrow> length cs = 1 \<and> s = negate_status (nstatus (hd cs)))"

definition add_children :: "node list \<Rightarrow> node \<Rightarrow> node" where
  "add_children cs n = Node (procedureName n) (nstatus n) (children n @ cs) (indicators n)"

text \<open>How a node may change while a procedure runs.\<close>

definition grown :: "node \<Rightarrow> node \<Rightarrow> bool" where
  "grown n n' \<longleftrightarrow>
     (\<exists>cs xs. n' = Node (procedureName n) (nstatus n) (children n @ cs) (indicators n @ xs)
              \<and> (\<forall>c\<in>set cs. node_ok c))"

lemma grown_refl [simp]: "grown n n"
  unfolding grown_def by (rule exI [of _ "[]"], rule exI [of _ "[]"]) simp

lemma grown_trans:
  assumes "grown a b" "grown b c"
  shows "grown a c"
proof -
  obtain cs xs where b: "b = Node (procedureName a) (nstatus a) (children a @ cs) (indicators a @ xs)"
    and ok: "\<forall>c\<in>set cs. node_ok c"
    using assms(1) by (auto simp: grown_def)
  obtain ds ys where c: "c = Node (procedureName b) (nstatus b) (children b @ ds) (indicators b @ ys)"
    and ok': "\<forall>c\<in>set ds. node_ok c"
    using assms(2) by (auto simp: grown_def)
  show ?thesis
    unfolding grown_def
    by (rule exI [of _ "cs @ ds"], rule exI [of _ "xs @ ys"]) (use b c ok ok' in auto)
qed

lemma grown_add_indicator [simp]: "grown n (add_indicator x n)"
  unfolding grown_def by (rule exI [of _ "[]"], rule exI [of _ "[x]"]) (cases n, simp)

lemma grown_add_children: "\<forall>c\<in>set cs. node_ok c \<Longrightarrow> grown n (add_children cs n)"
  unfolding grown_def by (rule exI [of _ cs], rule exI [of _ "[]"]) (simp add: add_children_def)

lemma add_children_simps [simp]:
  "add_children [] n = n" "add_children cs (add_child c n) = add_children (c # cs) n"
  "add_children [c] n = add_child c n"
  by (cases n; simp add: add_children_def)+

section \<open>The contract of a procedure\<close>

locale procedure_contract =
  fixes run :: "indicators_tree \<Rightarrow> 'w \<Rightarrow> 'w outcome"
  assumes success_grows:
    "run (open_tree n ps) w = (Inr s, it, w') \<Longrightarrow> \<exists>n'. it = open_tree n' ps \<and> grown n n'"
begin

text \<open>Run inside a node of its own and closed by \<open>finish\<close>, it adds one child.\<close>

lemma finish_adds_node:
  assumes "finish (run (Push name (open_tree n ps)) w) = (Inr s, it, w')"
    and "name \<noteq> ''anyOf''" "name \<noteq> ''allOf''" "name \<noteq> ''not''"
  shows "\<exists>c. it = open_tree (add_child c n) ps \<and> nstatus c = s \<and> procedureName c = name \<and> node_ok c"
proof -
  obtain it1 where run: "run (open_tree (new_node name) (n # ps)) w = (Inr s, it1, w')"
    and it: "it = Pop (set_back_status s it1)"
    using assms(1) by (cases "run (open_tree (new_node name) (n # ps)) w" rule: finish.cases)
      (simp_all add: open_tree_simps)
  obtain n' where n': "it1 = open_tree n' (n # ps)" "grown (new_node name) n'"
    using success_grows [OF run] by blast
  then obtain cs xs where c: "n' = Node name NonCompliant cs xs" "\<forall>c\<in>set cs. node_ok c"
    by (auto simp: grown_def)
  have "it = open_tree (add_child (Node name s cs xs) n) ps"
    by (simp add: it n'(1) c(1) open_tree_simps)
  moreover have "node_ok (Node name s cs xs)" using c(2) assms(2-4) by simp
  ultimately show ?thesis by (intro exI [of _ "Node name s cs xs"]) simp
qed

end

text \<open>The contract of an evaluator: every procedure and the Lua interpreter keep theirs.\<close>

locale evaluator_contract =
  fixes ev :: "'w evaluator"
  assumes builtin: "mProcedureMap ev name = Some p \<Longrightarrow> select_function p act = Some fn
      \<Longrightarrow> procedure_contract (fn args)"
    and lua: "procedure_contract (mLuaEvaluator ev script act)"
begin

lemma builtin_contract: "procedure_contract (EvaluateBuiltinProcedure ev act name value)"
proof
  fix n ps w s it w'
  assume "EvaluateBuiltinProcedure ev act name value (open_tree n ps) w = (Inr s, it, w')"
  then obtain args p fn where "mProcedureMap ev name = Some p" "select_function p act = Some fn"
    and run: "fn args (open_tree n ps) w = (Inr s, it, w')"
    by (auto simp: EvaluateBuiltinProcedure_def split: if_splits sum.splits option.splits)
  then have "procedure_contract (fn args)" by (intro builtin)
  then show "\<exists>n'. it = open_tree n' ps \<and> grown n n'"
    using run by (rule procedure_contract.success_grows)
qed

lemma lua_contract: "procedure_contract (EvaluateLua ev act value)"
proof
  fix n ps w s it w'
  assume "EvaluateLua ev act value (open_tree n ps) w = (Inr s, it, w')"
  then obtain script where run: "mLuaEvaluator ev script act (open_tree n ps) w = (Inr s, it, w')"
    by (auto simp: EvaluateLua_def split: if_splits sum.splits option.splits)
  show "\<exists>n'. it = open_tree n' ps \<and> grown n n'"
    using lua run by (rule procedure_contract.success_grows)
qed

end

section \<open>One node per expression\<close>

lemma list_status_step:
  "(if decisive la \<in> set (s # ss) then decisive la
    else if NotApplicable \<in> set (s # ss) then NotApplicable else acc) =
   (if s = decisive la then decisive la
    else if decisive la \<in> set ss then decisive la
    else if NotApplicable \<in> set ss then NotApplicable
    else if s = NotApplicable then NotApplicable else acc)"
  by auto

lemma finish_Inr_iff:
  "finish r = (Inr s, it, w) \<longleftrightarrow> (\<exists>it1. r = (Inr s, it1, w) \<and> it = Pop (set_back_status s it1))"
  by (cases r rule: finish.cases) auto

lemma negate_outcome_Inr_iff:
  "negate_outcome r = (Inr s, it, w) \<longleftrightarrow> (\<exists>t. r = (Inr t, it, w) \<and> s = negate_status t)"
proof (cases r rule: negate_outcome.cases)
  case (2 t it w)
  then show ?thesis by (cases t) auto
qed auto

lemma node_ok_list:
  assumes "\<forall>c\<in>set cs. node_ok c" "\<forall>c\<in>set (butlast cs). nstatus c \<noteq> decisive la"
    and "s = list_status la (map nstatus cs)"
  shows "node_ok (Node (action_name la) s cs xs)"
  using assms by (cases la) (simp_all add: action_name_def decisive_def)

text \<open>The four statements of the simultaneous induction, for the evaluator that keeps its
  contract.\<close>

definition adds_procedure :: "jobject option \<Rightarrow> 'w outcome \<Rightarrow> indicators_tree \<Rightarrow> bool" where
  "adds_procedure ob r it0 \<longleftrightarrow>
     (\<forall>n ps s it w. it0 = open_tree n ps \<longrightarrow> r = (Inr s, it, w) \<longrightarrow>
        (\<exists>c. it = open_tree (add_child c n) ps \<and> nstatus c = s \<and> node_ok c
             \<and> procedureName c = fst (hd (the ob))))"

definition adds_list :: "list_action \<Rightarrow> status \<Rightarrow> 'w outcome \<Rightarrow> indicators_tree \<Rightarrow> bool" where
  "adds_list la acc r it0 \<longleftrightarrow>
     (\<forall>n ps s it w. it0 = open_tree n ps \<longrightarrow> r = (Inr s, it, w) \<longrightarrow>
        (\<exists>cs. it = open_tree (add_children cs n) ps \<and> (\<forall>c\<in>set cs. node_ok c)
              \<and> (\<forall>c\<in>set (butlast cs). nstatus c \<noteq> decisive la)
              \<and> s = (if decisive la \<in> nstatus ` set cs then decisive la
                     else if NotApplicable \<in> nstatus ` set cs then NotApplicable else acc)))"

definition adds_not :: "'w outcome \<Rightarrow> indicators_tree \<Rightarrow> bool" where
  "adds_not r it0 \<longleftrightarrow>
     (\<forall>n ps s it w. it0 = open_tree n ps \<longrightarrow> r = (Inr s, it, w) \<longrightarrow>
        (\<exists>c. it = open_tree (add_child c n) ps \<and> s = negate_status (nstatus c) \<and> node_ok c))"

lemma adds_listD:
  assumes "adds_list la acc r (open_tree n ps)" "r = (Inr s, it, w)"
  obtains cs where "it = open_tree (add_children cs n) ps" "\<forall>c\<in>set cs. node_ok c"
    "\<forall>c\<in>set (butlast cs). nstatus c \<noteq> decisive la"
    "s = (if decisive la \<in> nstatus ` set cs then decisive la
          else if NotApplicable \<in> nstatus ` set cs then NotApplicable else acc)"
  using assms unfolding adds_list_def by blast

lemma adds_list_Cons:
  assumes head: "adds_procedure ob r it0"
    and tail: "\<And>s it w. r = (Inr s, it, w) \<Longrightarrow> s \<noteq> decisive la \<Longrightarrow>
      adds_list la (if s = NotApplicable then NotApplicable else acc) (rest s it w) it"
  shows "adds_list la acc
    (case r of (Inl e, it, w) \<Rightarrow> (Inl e, it, w)
     | (Inr s, it, w) \<Rightarrow>
         if s = Compliant \<and> la = AnyOf then (Inr Compliant, it, w)
         else if s = NonCompliant \<and> la = AllOf then (Inr NonCompliant, it, w)
         else rest s it w) it0"
  unfolding adds_list_def
proof (intro allI impI)
  fix n ps s it w
  assume it0: "it0 = open_tree n ps"
  assume run: "(case r of (Inl e, it, w) \<Rightarrow> (Inl e, it, w)
     | (Inr s, it, w) \<Rightarrow>
         if s = Compliant \<and> la = AnyOf then (Inr Compliant, it, w)
         else if s = NonCompliant \<and> la = AllOf then (Inr NonCompliant, it, w)
         else rest s it w) = (Inr s, it, w)"
  obtain s1 it1 w1 where r: "r = (Inr s1, it1, w1)"
    using run by (cases r rule: finish.cases) auto
  obtain c where c: "it1 = open_tree (add_child c n) ps" "nstatus c = s1" "node_ok c"
    using head it0 r by (auto simp: adds_procedure_def)
  let ?goal = "\<lambda>cs. it = open_tree (add_children cs n) ps \<and> (\<forall>c\<in>set cs. node_ok c)
              \<and> (\<forall>c\<in>set (butlast cs). nstatus c \<noteq> decisive la)
              \<and> s = (if decisive la \<in> nstatus ` set cs then decisive la
                     else if NotApplicable \<in> nstatus ` set cs then NotApplicable else acc)"
  show "\<exists>cs. ?goal cs"
  proof (cases "s1 = decisive la")
    case True
    then have "s = s1 \<and> it = it1"
      using run r by (cases la) (simp_all add: decisive_def)
    then have "?goal [c]" using c True by simp
    then show ?thesis by blast
  next
    case False
    then have "rest s1 it1 w1 = (Inr s, it, w)"
      using run r by (cases la) (simp_all add: decisive_def)
    from adds_listD [OF tail [OF r False, unfolded c(1)] this [unfolded c(1)]]
    obtain cs where cs: "it = open_tree (add_children cs (add_child c n)) ps"
      "\<forall>c\<in>set cs. node_ok c" "\<forall>c\<in>set (butlast cs). nstatus c \<noteq> decisive la"
      "s = (if decisive la \<in> nstatus ` set cs then decisive la
            else if NotApplicable \<in> nstatus ` set cs then NotApplicable
            else if s1 = NotApplicable then NotApplicable else acc)" .
    have "?goal (c # cs)" using cs c(2,3) False by auto
    then show ?thesis by blast
  qed
qed

lemma adds_finish_list:
  assumes "adds_list la (initial_status la) r (Push (action_name la) it0)"
  shows "adds_procedure (Some ((action_name la, v) # ms)) (finish r) it0"
  unfolding adds_procedure_def finish_Inr_iff
proof (intro allI impI, elim exE conjE)
  fix n ps s it w it1
  assume it0: "it0 = open_tree n ps" and r: "r = (Inr s, it1, w)" and it: "it = Pop (set_back_status s it1)"
  have "adds_list la (initial_status la) r (open_tree (new_node (action_name la)) (n # ps))"
    using assms by (simp add: it0 open_tree_simps)
  from adds_listD [OF this r]
  obtain cs where cs: "it1 = open_tree (add_children cs (new_node (action_name la))) (n # ps)"
      "\<forall>c\<in>set cs. node_ok c" "\<forall>c\<in>set (butlast cs). nstatus c \<noteq> decisive la"
      "s = list_status la (map nstatus cs)"
    unfolding list_status_decisive set_map .
  have "it = open_tree (add_child (Node (action_name la) s cs []) n) ps"
    by (simp add: it cs(1) open_tree_simps add_children_def)
  then show "\<exists>c. it = open_tree (add_child c n) ps \<and> nstatus c = s \<and> node_ok c
      \<and> procedureName c = fst (hd (the (Some ((action_name la, v) # ms))))"
    using node_ok_list [OF cs(2,3,4)] by (intro exI [of _ "Node (action_name la) s cs []"]) simp
qed

lemma adds_finish_not:
  assumes "adds_not r (Push ''not'' it0)"
  shows "adds_procedure (Some ((''not'', v) # ms)) (finish r) it0"
  unfolding adds_procedure_def finish_Inr_iff
proof (intro allI impI, elim exE conjE)
  fix n ps s it w it1
  assume it0: "it0 = open_tree n ps" and r: "r = (Inr s, it1, w)" and it: "it = Pop (set_back_status s it1)"
  obtain c where c: "it1 = open_tree (add_child c (new_node ''not'')) (n # ps)"
      "s = negate_status (nstatus c)" "node_ok c"
    using assms it0 r by (auto simp: adds_not_def open_tree_simps)
  have "it = open_tree (add_child (Node ''not'' s [c] []) n) ps"
    by (simp add: it c(1) open_tree_simps new_node_def)
  then show "\<exists>c. it = open_tree (add_child c n) ps \<and> nstatus c = s \<and> node_ok c
      \<and> procedureName c = fst (hd (the (Some ((''not'', v) # ms))))"
    using c(2,3) by (intro exI [of _ "Node ''not'' s [c] []"]) simp
qed

lemma adds_finish_leaf:
  assumes "procedure_contract run" "name \<noteq> ''anyOf''" "name \<noteq> ''allOf''" "name \<noteq> ''not''"
  shows "adds_procedure (Some ((name, v) # ms)) (finish (run (Push name it0) w)) it0"
  using procedure_contract.finish_adds_node [OF assms(1) _ assms(2-4)]
  by (fastforce simp: adds_procedure_def)

lemma evaluation_adds_nodes:
  fixes ev :: "'w evaluator"
  shows "evaluator_contract ev \<Longrightarrow> adds_procedure ob (EvaluateProcedure ev act ob it w) it"
    and "evaluator_contract ev \<Longrightarrow> adds_list la (initial_status la) (EvaluateList ev act la v it w) it"
    and "evaluator_contract ev \<Longrightarrow> adds_list la acc (EvaluateItems ev act la acc vs it w) it"
    and "evaluator_contract ev \<Longrightarrow> adds_not (EvaluateNot ev act v it w) it"
proof (induction ev act ob it w and ev act la v it w and ev act la acc vs it w and ev act v it w
    rule: EvaluateProcedure_EvaluateList_EvaluateItems_EvaluateNot.induct)
  case (1 ev act it w)
  then show ?case by (simp add: adds_procedure_def)
next
  case (2 ev act it w)
  then show ?case by (simp add: adds_procedure_def)
next
  case (3 ev act name v ms it w)
  consider "name = ''anyOf''" | "name = ''allOf''" | "name = ''not''" | "name = ''Lua''"
    | "name \<noteq> ''anyOf''" "name \<noteq> ''allOf''" "name \<noteq> ''not''" "name \<noteq> ''Lua''"
    by blast
  then show ?case
  proof cases
    case 1
    then show ?thesis
      using adds_finish_list [of AnyOf _ it v ms] 3(1,3) by (simp add: action_name_def)
  next
    case 2
    then show ?thesis
      using adds_finish_list [of AllOf _ it v ms] 3(1,3) by (simp add: action_name_def)
  next
    case not: 3
    then show ?thesis using adds_finish_not [of _ it v ms] 3(2,3) by simp
  next
    case 4
    then show ?thesis
      using adds_finish_leaf [OF evaluator_contract.lua_contract [OF 3(3)]] by simp
  next
    case 5
    then show ?thesis
      using adds_finish_leaf [OF evaluator_contract.builtin_contract [OF 3(3)]] by simp
  qed
next
  case (4 ev act la v it w)
  then show ?case by (cases v) (simp_all add: adds_list_def)
next
  case (5 ev act la acc it w)
  then show ?case unfolding adds_list_def by (auto intro!: exI [of _ "[]"])
next
  case (6 ev act la acc v vs it w)
  show ?case
    unfolding EvaluateProcedure.simps EvaluateItems.simps
    by (rule adds_list_Cons [OF 6(1) [OF 6(3)]])
      (use 6(2,3) in \<open>cases la; force simp: decisive_def\<close>)
next
  case (7 ev act v it w)
  show ?case
  proof (cases v)
    case (JObject ms)
    have "adds_not (negate_outcome r) it0" if "adds_procedure (Some ms) r it0" for r :: "'w outcome" and it0
      unfolding adds_not_def negate_outcome_Inr_iff
      using that by (metis adds_procedure_def)
    with 7 JObject show ?thesis by simp
  qed (simp_all add: adds_not_def)
qed

section \<open>Whole audits\<close>

text \<open>The tree of an evaluation of rule \<open>name\<close> that gave \<open>s\<close>: its stack is empty and the root has one
  child, the expression of the rule, with the same status.\<close>

definition audit_tree :: "string \<Rightarrow> status \<Rightarrow> indicators_tree \<Rightarrow> bool" where
  "audit_tree name s it \<longleftrightarrow>
     mEvaluationStack it = []
     \<and> (\<exists>c. GetRootNode it = Some (Node name s [c] []) \<and> nstatus c = s \<and> node_ok c)"

context evaluator_contract
begin

lemma evaluation_tree:
  assumes "finish (EvaluateProcedure ev act ob (Push name IndicatorsTree_init) w) = (Inr s, it, w')"
  shows "audit_tree name s it"
proof -
  have "adds_procedure ob (EvaluateProcedure ev act ob (open_tree (new_node name) []) w)
      (open_tree (new_node name) [])"
    by (rule evaluation_adds_nodes(1)) (rule evaluator_contract_axioms)
  moreover obtain it1 where "EvaluateProcedure ev act ob (open_tree (new_node name) []) w = (Inr s, it1, w')"
    and it: "it = Pop (set_back_status s it1)"
    using assms by (auto simp: finish_Inr_iff open_tree_simps)
  ultimately obtain c where c: "it1 = open_tree (add_child c (new_node name)) []" "nstatus c = s" "node_ok c"
    unfolding adds_procedure_def by blast
  then show ?thesis
    by (simp add: it audit_tree_def open_tree_simps new_node_def)
      (simp add: Pop_def open_tree_def)
qed

lemma ExecuteAudit_tree:
  assumes "ExecuteAudit ev name ob format w = (Inr (s, payload), it, w')"
  shows "audit_tree name s it"
  using assms
  by (intro evaluation_tree [of Audit ob name w s it w'])
    (auto simp: ExecuteAudit_def split: prod.splits sum.splits)

lemma ExecuteRemediation_tree:
  assumes "ExecuteRemediation ev name ob w = (Inr s, it, w')"
  shows "audit_tree name s it"
  using assms by (intro evaluation_tree [of Remediate ob name w s it w']) (simp add: ExecuteRemediation_def)

end

end
