(* ===== verification/EvaluatorSem.thy ===== *)
theory EvaluatorSem
  imports Evaluator
begin

text \<open>
  The meaning of a rule expression: how the operators sequence their operands and combine
  their statuses (an inductive relation for the evaluation of a list of operands, with the
  short circuits of the code), how arguments are substituted, and that an audit never runs a
  remediation function.
\<close>

section \<open>Runs of operand lists\<close>

text \<open>\<open>operands_run ev act vs it w ss it' w'\<close>: evaluating all of \<open>vs\<close> in order succeeds with
  statuses \<open>ss\<close>.\<close>

inductive operands_run ::
  "'w evaluator \<Rightarrow> action \<Rightarrow> json list \<Rightarrow> indicators_tree \<Rightarrow> 'w \<Rightarrow> status list \<Rightarrow> indicators_tree \<Rightarrow> 'w \<Rightarrow> bool"
  for ev act where
  run_nil: "operands_run ev act [] it w [] it w"
| run_cons: "EvaluateProcedure ev act (json_value_get_object (Some v)) it w = (Inr s, it1, w1)
    \<Longrightarrow> operands_run ev act vs it1 w1 ss it2 w2
    \<Longrightarrow> operands_run ev act (v # vs) it w (s # ss) it2 w2"

inductive_simps run_nil_iff [simp]: "operands_run ev act [] it w ss it' w'"
inductive_simps run_cons_iff: "operands_run ev act (v # vs) it w ss it' w'"

lemma operands_run_length: "operands_run ev act vs it w ss it' w' \<Longrightarrow> length ss = length vs"
  by (induction rule: operands_run.induct) simp_all

lemma operands_run_functional:
  "operands_run ev act vs it w ss it1 w1 \<Longrightarrow> operands_run ev act vs it w ts it2 w2
   \<Longrightarrow> ss = ts \<and> it1 = it2 \<and> w1 = w2"
proof (induction arbitrary: ts it2 w2 rule: operands_run.induct)
  case (run_nil it w)
  then show ?case by simp
next
  case (run_cons v it w s it1 w1 vs ss it3 w3)
  from run_cons.prems run_cons.hyps(1) obtain ts' where "ts = s # ts'"
    "operands_run ev act vs it1 w1 ts' it2 w2"
    by (auto simp: run_cons_iff)
  then show ?case using run_cons.IH by auto
qed

definition stops :: "list_action \<Rightarrow> status \<Rightarrow> bool" where
  "stops la s \<longleftrightarrow> s = (if la = AnyOf then Compliant else NonCompliant)"

text \<open>How the evaluation of a list of operands can end: at the first operand whose status decides
  the operator, after the last operand, or at the first operand that fails.\<close>

definition ends_decided :: "list_action \<Rightarrow> status list \<Rightarrow> bool" where
  "ends_decided la ss \<longleftrightarrow> ss \<noteq> [] \<and> stops la (last ss) \<and> (\<forall>s\<in>set (butlast ss). \<not> stops la s)"

lemma ends_decided_Cons:
  "ends_decided la (s # ss) \<longleftrightarrow> (if ss = [] then stops la s else \<not> stops la s \<and> ends_decided la ss)"
  by (auto simp: ends_decided_def)

lemma EvaluateItems_Cons:
  "EvaluateItems ev act la acc (v # vs) it w =
     (case EvaluateProcedure ev act (json_value_get_object (Some v)) it w of
        (Inl e, it', w') \<Rightarrow> (Inl e, it', w')
      | (Inr s, it', w') \<Rightarrow>
          if stops la s then (Inr s, it', w')
          else EvaluateItems ev act la (if s = NotApplicable then NotApplicable else acc) vs it' w')"
  by (cases la) (auto simp: stops_def split: prod.split sum.split)

declare EvaluateItems.simps(2) [simp del]

lemma EvaluateItems_success:
  assumes "EvaluateItems ev act la acc vs it w = (Inr s, it', w')"
  shows "\<exists>k ss. k \<le> length vs \<and> operands_run ev act (take k vs) it w ss it' w' \<and>
     ((ends_decided la ss \<and> s = last ss)
      \<or> (k = length vs \<and> (\<forall>t\<in>set ss. \<not> stops la t) \<and> s = (if NotApplicable \<in> set ss then NotApplicable else acc)))"
  using assms
proof (induction vs arbitrary: acc it w)
  case Nil
  then show ?case by simp
next
  case (Cons v vs)
  obtain s1 it1 w1 where hd: "EvaluateProcedure ev act (json_value_get_object (Some v)) it w = (Inr s1, it1, w1)"
    using Cons.prems
    by (cases "EvaluateProcedure ev act (json_value_get_object (Some v)) it w" rule: finish.cases)
      (simp_all add: EvaluateItems_Cons)
  show ?case
  proof (cases "stops la s1")
    case True
    then have "s = s1" "it' = it1" "w' = w1" using Cons.prems hd by (simp_all add: EvaluateItems_Cons)
    moreover have "operands_run ev act (take 1 (v # vs)) it w [s1] it1 w1" using hd by (simp add: run_cons_iff)
    ultimately show ?thesis
      using True by (intro exI [of _ 1] exI [of _ "[s1]"]) (simp add: ends_decided_def)
  next
    case False
    let ?acc = "if s1 = NotApplicable then NotApplicable else acc"
    have "EvaluateItems ev act la ?acc vs it1 w1 = (Inr s, it', w')"
      using Cons.prems hd False by (simp add: EvaluateItems_Cons)
    from Cons.IH [OF this] obtain k ss where k: "k \<le> length vs"
      "operands_run ev act (take k vs) it1 w1 ss it' w'"
      "(ends_decided la ss \<and> s = last ss)
       \<or> (k = length vs \<and> (\<forall>t\<in>set ss. \<not> stops la t) \<and> s = (if NotApplicable \<in> set ss then NotApplicable else ?acc))"
      by blast
    have "operands_run ev act (take (Suc k) (v # vs)) it w (s1 # ss) it' w'"
      using hd k(2) by (auto simp: run_cons_iff)
    moreover have "(ends_decided la (s1 # ss) \<and> s = last (s1 # ss))
       \<or> (Suc k = length (v # vs) \<and> (\<forall>t\<in>set (s1 # ss). \<not> stops la t)
          \<and> s = (if NotApplicable \<in> set (s1 # ss) then NotApplicable else acc))"
      using k(3) False by (auto simp: ends_decided_Cons ends_decided_def)
    ultimately show ?thesis using k(1)
      by (intro exI [of _ "Suc k"] exI [of _ "s1 # ss"]) simp
  qed
qed

lemma EvaluateItems_failure:
  assumes "EvaluateItems ev act la acc vs it w = (Inl e, it', w')"
  shows "\<exists>k ss it1 w1. k < length vs \<and> operands_run ev act (take k vs) it w ss it1 w1
     \<and> (\<forall>t\<in>set ss. \<not> stops la t)
     \<and> EvaluateProcedure ev act (json_value_get_object (Some (vs ! k))) it1 w1 = (Inl e, it', w')"
  using assms
proof (induction vs arbitrary: acc it w)
  case Nil
  then show ?case by simp
next
  case (Cons v vs)
  show ?case
  proof (cases "EvaluateProcedure ev act (json_value_get_object (Some v)) it w" rule: finish.cases)
    case (1 e1 it1 w1)
    then show ?thesis using Cons.prems
      by (intro exI [of _ 0] exI [of _ "[]"] exI [of _ it] exI [of _ w]) (simp add: EvaluateItems_Cons)
  next
    case (2 s1 it1 w1)
    then have "\<not> stops la s1" and "EvaluateItems ev act la (if s1 = NotApplicable then NotApplicable else acc) vs it1 w1 = (Inl e, it', w')"
      using Cons.prems by (auto simp: EvaluateItems_Cons split: if_splits)
    from Cons.IH [OF this(2)] obtain k ss it2 w2 where "k < length vs"
      "operands_run ev act (take k vs) it1 w1 ss it2 w2" "\<forall>t\<in>set ss. \<not> stops la t"
      "EvaluateProcedure ev act (json_value_get_object (Some (vs ! k))) it2 w2 = (Inl e, it', w')"
      by blast
    then show ?thesis using 2 \<open>\<not> stops la s1\<close>
      by (intro exI [of _ "Suc k"] exI [of _ "s1 # ss"] exI [of _ it2] exI [of _ w2])
        (auto simp: run_cons_iff)
  qed
qed

section \<open>Arguments\<close>

text \<open>The value an argument should have: \<open>$name\<close> stands for the parameter of that name.\<close>

definition substituted :: "parameter_map \<Rightarrow> string \<Rightarrow> string option" where
  "substituted params t =
     (if t \<noteq> [] \<and> hd t = CHR ''$'' then om_find params (tl t) else Some t)"

lemma argument_step_new:
  assumes "om_find res key = None"
  shows "argument_step params (key, JString t) res =
    (case substituted params (c_str t) of
       None \<Rightarrow> Inl (Error ''Unknown parameter'' EINVAL)
     | Some x \<Rightarrow> Inr (om_insert key x (if c_str t \<noteq> [] \<and> hd (c_str t) = CHR ''$'' then om_insert key (c_str t) res else res)))"
  using assms
  by (auto simp: argument_step_def Let_def om_emplace_def om_find_insert substituted_def
      json_value_get_string_def split: option.splits)

lemma om_insert_twice: "om_insert k x (om_insert k y m) = om_insert k x m"
  by (induction k y m rule: om_insert.induct) auto

lemma argument_loop_Inr:
  assumes "argument_loop params ms res = Inr out" "distinct (map fst ms)"
    and "\<forall>k\<in>fst ` set ms. om_find res k = None" "om_inv res"
  shows "om_inv out \<and> (\<forall>k v. (k, v) \<in> set ms \<longrightarrow>
      (\<exists>t x. v = JString t \<and> substituted params (c_str t) = Some x \<and> om_find out k = Some x))
    \<and> (\<forall>k. k \<notin> fst ` set ms \<longrightarrow> om_find out k = om_find res k)"
  using assms
proof (induction ms arbitrary: res)
  case Nil
  then show ?case by simp
next
  case (Cons kv ms)
  obtain key v where kv: "kv = (key, v)" by (cases kv)
  obtain res1 where step: "argument_step params (key, v) res = Inr res1"
    and rest: "argument_loop params ms res1 = Inr out"
    using Cons.prems(1) by (auto simp: kv result_simps)
  obtain t where v: "v = JString t"
    using step by (cases v) (simp_all add: argument_step_def)
  have new: "om_find res key = None" using Cons.prems(3) by (simp add: kv)
  obtain x where x: "substituted params (c_str t) = Some x" and res1: "res1 = om_insert key x res"
    using step argument_step_new [OF new, of params t]
    by (auto simp: v om_insert_twice split: option.splits if_splits)
  have "om_inv out \<and> (\<forall>k v. (k, v) \<in> set ms \<longrightarrow>
      (\<exists>t x. v = JString t \<and> substituted params (c_str t) = Some x \<and> om_find out k = Some x))
    \<and> (\<forall>k. k \<notin> fst ` set ms \<longrightarrow> om_find out k = om_find res1 k)"
    using Cons.prems(2-4) by (intro Cons.IH [OF rest]) (auto simp: kv res1 om_find_insert om_inv_insert)
  moreover have "key \<notin> fst ` set ms" using Cons.prems(2) by (simp add: kv)
  ultimately show ?case
    using x by (auto simp: kv v res1 om_find_insert)
qed

section \<open>Audits do not remediate\<close>

text \<open>Two evaluators that agree on everything an audit may call.\<close>

definition same_audits :: "'w evaluator \<Rightarrow> 'w evaluator \<Rightarrow> bool" where
  "same_audits ev ev' \<longleftrightarrow>
     mParameters ev = mParameters ev'
     \<and> (\<forall>script. mLuaEvaluator ev script Audit = mLuaEvaluator ev' script Audit)
     \<and> (\<forall>name. map_option audit_fn (mProcedureMap ev name) = map_option audit_fn (mProcedureMap ev' name))"

lemma same_audits_builtin:
  assumes "same_audits ev ev'"
  shows "EvaluateBuiltinProcedure ev Audit name v it w = EvaluateBuiltinProcedure ev' Audit name v it w"
proof -
  have "map_option audit_fn (mProcedureMap ev name) = map_option audit_fn (mProcedureMap ev' name)"
    using assms by (simp add: same_audits_def)
  then show ?thesis
    using assms
    by (cases "mProcedureMap ev name"; cases "mProcedureMap ev' name")
      (auto simp: EvaluateBuiltinProcedure_def same_audits_def select_function_def split: sum.split)
qed

lemma same_audits_lua:
  "same_audits ev ev' \<Longrightarrow> EvaluateLua ev Audit v it w = EvaluateLua ev' Audit v it w"
  by (simp add: EvaluateLua_def same_audits_def split: sum.split option.split)

lemma same_audits_evaluation:
  shows "same_audits ev ev' \<Longrightarrow> act = Audit \<Longrightarrow> EvaluateProcedure ev act ob it w = EvaluateProcedure ev' act ob it w"
    and "same_audits ev ev' \<Longrightarrow> act = Audit \<Longrightarrow> EvaluateList ev act la v it w = EvaluateList ev' act la v it w"
    and "same_audits ev ev' \<Longrightarrow> act = Audit \<Longrightarrow> EvaluateItems ev act la acc vs it w = EvaluateItems ev' act la acc vs it w"
    and "same_audits ev ev' \<Longrightarrow> EvaluateNot ev act v it w = EvaluateNot ev' act v it w"
proof (induction ev act ob it w and ev act la v it w and ev act la acc vs it w and ev act v it w
    rule: EvaluateProcedure_EvaluateList_EvaluateItems_EvaluateNot.induct)
  case (3 ev act name v ms it w)
  then show ?case by (simp add: same_audits_builtin same_audits_lua)
next
  case (4 ev act la v it w)
  then show ?case by (cases v) simp_all
next
  case (6 ev act la acc v vs it w)
  then show ?case
    by (cases "EvaluateProcedure ev' act (json_value_get_object (Some v)) it w" rule: finish.cases)
      (auto simp: EvaluateItems.simps(2))
next
  case (7 ev act v it w)
  then show ?case by (cases v) simp_all
qed simp_all

end
