(* ===== verification/Formatters.thy ===== *)
theory Formatters
  imports EvaluatorTree JsonRoundTrip
begin

text \<open>
  The payload formatters of \<open>src/lib/Evaluator.cpp\<close>: functions from the finished indicator tree
  to text. They assert a root, and the nested list asserts the shape that an anyOf node has
  after a short-circuiting evaluation; \<open>nested_asserts\<close> collects the latter assertions, which
  are shown to hold on every tree an evaluation leaves.
\<close>

section \<open>Nested list\<close>

definition cMaxNodeCompliantIndicators :: nat where
  "cMaxNodeCompliantIndicators = 5"

datatype ignored = IgnoredNo | IgnoredYes

fun sEmojiMap :: "status \<Rightarrow> ignored \<Rightarrow> string" where
  "sEmojiMap Compliant IgnoredNo = [CHR 0xE2, CHR 0x9C, CHR 0x85]"
| "sEmojiMap Compliant IgnoredYes = [CHR 0xE2, CHR 0x9C, CHR 0x93]"
| "sEmojiMap NonCompliant IgnoredNo = [CHR 0xE2, CHR 0x9D, CHR 0x8C]"
| "sEmojiMap NonCompliant IgnoredYes = [CHR 0xF0, CHR 0x9F, CHR 0x87, CHR 0xBD]"
| "sEmojiMap NotApplicable IgnoredNo = [CHR 0xE2, CHR 0x9E, CHR 0x96]"
| "sEmojiMap NotApplicable IgnoredYes = [CHR 0xE2, CHR 0x80, CHR 0x93]"

definition nested_line :: "nat \<Rightarrow> status \<Rightarrow> ignored \<Rightarrow> string \<Rightarrow> string" where
  "nested_line depth s ign text = replicate depth TAB @ sEmojiMap s ign @ '' '' @ text @ [NL]"

fun nested_indicators :: "nat \<Rightarrow> indicator list \<Rightarrow> nat \<Rightarrow> ignored \<Rightarrow> string" where
  "nested_indicators count [] depth ign = []"
| "nested_indicators count (x # xs) depth ign =
     (let count = (if istatus x = Compliant then Suc count else count) in
      (if istatus x = Compliant \<and> count > cMaxNodeCompliantIndicators then []
       else nested_line depth (istatus x) ign (message x))
      @ nested_indicators count xs depth ign)"

text \<open>The loop over the children; \<open>rest\<close> tells whether the child is the last one.\<close>

fun nested_node :: "node \<Rightarrow> nat \<Rightarrow> ignored \<Rightarrow> string"
  and nested_children :: "string \<Rightarrow> nat \<Rightarrow> node list \<Rightarrow> nat \<Rightarrow> ignored \<Rightarrow> string" where
  "nested_node (Node nm s cs xs) depth ign =
     nested_children nm 0 cs depth ign @ nested_indicators 0 xs depth ign"
| "nested_children nm count [] depth ign = []"
| "nested_children nm count (c # rest) depth ign =
     (let count = (if nstatus c = Compliant then Suc count else count);
          ign1 = (if rest \<noteq> [] \<and> nm = ''anyOf'' then IgnoredYes else ign);
          ign2 = (if nm = ''not'' \<and> nstatus c \<noteq> NotApplicable then IgnoredYes else ign1)
      in (if nstatus c = Compliant \<and> count > cMaxNodeCompliantIndicators then []
          else nested_line depth (nstatus c) ign2 (procedureName c) @ nested_node c (Suc depth) ign2)
         @ nested_children nm count rest depth ign)"

definition NestedListFormatter_Format :: "indicators_tree \<Rightarrow> string result" where
  "NestedListFormatter_Format it =
     (case GetRootNode it of
        None \<Rightarrow> Inr []
      | Some n \<Rightarrow> Inr (nested_line 0 (nstatus n) IgnoredNo (procedureName n) @ nested_node n 1 IgnoredNo))"

text \<open>The assertion inside the loop, for a node and everything below it.\<close>

fun nested_asserts :: "node \<Rightarrow> bool" where
  "nested_asserts (Node nm s cs xs) \<longleftrightarrow>
     (nm = ''anyOf'' \<longrightarrow> (\<forall>c\<in>set (butlast cs). nstatus c \<noteq> Compliant))
     \<and> (\<forall>c\<in>set cs. nested_asserts c)"

section \<open>Compact list\<close>

definition compact_line :: "indicator \<Rightarrow> string" where
  "compact_line x =
     (if istatus x = Compliant then ''[Compliant] '' else ''[NonCompliant] '') @ message x @ [NL]"

fun compact_node :: "node \<Rightarrow> string" where
  "compact_node (Node nm s cs xs) = concat (map compact_line xs) @ concat (map compact_node cs)"

definition CompactListFormatter_Format :: "indicators_tree \<Rightarrow> string result" where
  "CompactListFormatter_Format it =
     (case GetRootNode it of None \<Rightarrow> Inr [] | Some n \<Rightarrow> Inr (compact_node n))"

section \<open>JSON\<close>

definition json_status :: "status \<Rightarrow> string" where
  "json_status s = (if s = Compliant then ''Compliant'' else ''NonCompliant'')"

definition json_string_error :: error where
  "json_string_error = Error ''Failed to set JSON object string'' ENOMEM"

text \<open>A setter of the JSON library, whose failure is the given error.\<close>

definition or_fail :: "'a option \<Rightarrow> error \<Rightarrow> 'a result" where
  "or_fail r e = (case r of None \<Rightarrow> Inl e | Some x \<Rightarrow> Inr x)"

fun json_indicators :: "indicator list \<Rightarrow> json list \<Rightarrow> json list result" where
  "json_indicators [] arr = Inr arr"
| "json_indicators (x # xs) arr =
     and_then (or_fail (json_object_set_string [] ''message'' (message x)) json_string_error) (\<lambda>ob.
     and_then (or_fail (json_object_set_string ob ''status'' (json_status (istatus x))) json_string_error) (\<lambda>ob.
       json_indicators xs (arr @ [JObject ob])))"

fun json_node :: "node \<Rightarrow> json list \<Rightarrow> json list result"
  and json_children :: "node list \<Rightarrow> json list \<Rightarrow> json list result" where
  "json_node (Node nm s cs xs) arr = and_then (json_children cs arr) (json_indicators xs)"
| "json_children [] arr = Inr arr"
| "json_children (c # cs) arr =
     and_then (or_fail (json_object_set_string [] ''procedure'' (procedureName c)) json_string_error) (\<lambda>ob.
     and_then (or_fail (json_object_set_string ob ''status'' (json_status (nstatus c))) json_string_error) (\<lambda>ob.
     and_then (json_node c []) (\<lambda>inner.
     and_then (or_fail (json_object_set_value ob ''indicators'' (JArray inner))
                 (Error ''Failed to set JSON object value'' ENOMEM)) (\<lambda>ob.
       json_children cs (arr @ [JObject ob])))))"

definition JsonFormatter_Format :: "fmt_fun \<Rightarrow> indicators_tree \<Rightarrow> string result" where
  "JsonFormatter_Format fmt it =
     (case GetRootNode it of
        None \<Rightarrow> Inr []
      | Some n \<Rightarrow> and_then (json_node n []) (\<lambda>arr. Inr (json_serialize_to_string_pretty fmt (JArray arr))))"

section \<open>Debug and last incompliance\<close>

definition separated :: "string \<Rightarrow> string list \<Rightarrow> string" where
  "separated sep ss = (case ss of [] \<Rightarrow> [] | s # rest \<Rightarrow> s @ concat (map (\<lambda>t. sep @ t) rest))"

fun debug_node :: "node \<Rightarrow> string" where
  "debug_node (Node nm s cs xs) =
     (if nm = ''anyOf'' \<or> nm = ''allOf''
      then ''{ '' @ nm @ '': ['' @ separated '', '' (map debug_node cs) @ '']} == ''
      else if nm = ''not''
      then ''{ '' @ nm @ '': '' @ (case map debug_node cs of [] \<Rightarrow> [] | d # _ \<Rightarrow> d) @ ''} == ''
      else ''{ '' @ nm @ '': '' @ separated '', '' (map message xs) @ '' } == '')
     @ (if s = Compliant then ''TRUE'' else ''FALSE'')"

definition DebugFormatter_Format :: "indicators_tree \<Rightarrow> string result" where
  "DebugFormatter_Format it =
     (case GetRootNode it of
        None \<Rightarrow> Inr []
      | Some n \<Rightarrow>
          (case children n of
             [] \<Rightarrow> Inl (Error ''No children found'' EINVAL)
           | c # _ \<Rightarrow> Inr (debug_node c)))"

fun last_incompliance :: "node \<Rightarrow> string" where
  "last_incompliance (Node nm s cs xs) =
     (if cs \<noteq> [] then last (map last_incompliance cs)
      else if xs = [] then ''No indicators found for '' @ nm
      else message (last xs))"

definition LastIncomplianceFormatter_Format :: "indicators_tree \<Rightarrow> string result" where
  "LastIncomplianceFormatter_Format it =
     (case GetRootNode it of
        None \<Rightarrow> Inr []
      | Some n \<Rightarrow> if nstatus n = Compliant then Inr ''Audit passed'' else Inr (last_incompliance n))"

section \<open>The assertions hold\<close>

lemma node_ok_nested_asserts: "node_ok n \<Longrightarrow> nested_asserts n"
  by (induction n rule: nested_asserts.induct) auto

lemma audit_tree_nested_asserts:
  "audit_tree name s it \<Longrightarrow> GetRootNode it = Some n \<Longrightarrow> nested_asserts n"
  by (auto simp: audit_tree_def dest: node_ok_nested_asserts)

lemma audit_tree_debug:
  "audit_tree name s it \<Longrightarrow> \<exists>text. DebugFormatter_Format it = Inr text"
  by (auto simp: audit_tree_def DebugFormatter_Format_def)

section \<open>The JSON payload as data\<close>

text \<open>The document that stands for a tree, independently of how the formatter builds it.\<close>

definition indicator_json :: "indicator \<Rightarrow> json" where
  "indicator_json x = JObject [(''message'', JString (message x)), (''status'', JString (json_status (istatus x)))]"

fun node_json :: "node \<Rightarrow> json" where
  "node_json (Node nm s cs xs) =
     JObject [(''procedure'', JString nm), (''status'', JString (json_status s)),
              (''indicators'', JArray (map node_json cs @ map indicator_json xs))]"

definition tree_json :: "node \<Rightarrow> json" where
  "tree_json n = JArray (map node_json (children n) @ map indicator_json (indicators n))"

definition clean :: "string \<Rightarrow> bool" where
  "clean s \<longleftrightarrow> NUL \<notin> set s \<and> is_valid_utf8 s"

fun node_clean :: "node \<Rightarrow> bool" where
  "node_clean (Node nm s cs xs) \<longleftrightarrow>
     clean nm \<and> (\<forall>c\<in>set cs. node_clean c) \<and> (\<forall>x\<in>set xs. clean (message x))"

lemma json_object_set_string_clean:
  "clean s \<Longrightarrow> NUL \<notin> set name \<Longrightarrow> name \<notin> fst ` set ms
   \<Longrightarrow> json_object_set_string ms name s = Some (ms @ [(name, JString s)])"
  by (simp add: clean_def json_object_set_string_def json_value_init_string_def
      json_value_init_string_with_len_def json_object_set_value_def json_object_add_def
      json_object_getn_value_map_of map_of_eq_None_iff)

lemma json_object_set_string_invalid:
  "\<not> is_valid_utf8 (c_str s) \<Longrightarrow> json_object_set_string ms name s = None"
  by (simp add: json_object_set_string_def json_value_init_string_def json_value_init_string_with_len_def)

lemma json_object_set_value_new:
  "name \<notin> fst ` set ms \<Longrightarrow> json_object_set_value ms name v = Some (ms @ [(name, v)])"
  by (simp add: json_object_set_value_def json_object_add_def json_object_getn_value_map_of map_of_eq_None_iff)

lemma or_fail_Some [simp]: "or_fail (Some x) e = Inr x" and or_fail_None [simp]: "or_fail None e = Inl e"
  by (simp_all add: or_fail_def)

text \<open>ASCII text is valid.\<close>

lemma unat_of_char: "unat (of_char c :: 32 word) = byte c"
proof -
  have "(of_char c :: 32 word) = of_nat (byte c)" by (simp only: of_nat_of_char)
  moreover have "byte c < 2 ^ 32"
    by (rule less_trans [OF nat_of_char_less_256]) simp
  ultimately show ?thesis by (simp only: unsigned_of_nat take_bit_nat_eq_self) (simp add: take_bit_nat_eq_self)
qed

lemma ascii_word:
  assumes "byte c < 128"
  shows "(of_char c :: 32 word) AND 0x80 = 0" "\<not> is_cont c" "(of_char c :: 32 word) < 0x80"
proof -
  let ?w = "of_char c :: 32 word"
  note unat = unat_of_char [of c]
  have "\<not> bit (byte c) 7" using assms by (simp add: bit_iff_odd)
  then have b: "\<not> bit ?w 7" by (simp add: bit_unsigned_iff flip: unat)
  then show "?w AND 0x80 = 0" using and_exp_eq_0_iff_not_bit [of ?w 7] by simp
  have "?w AND 0xC0 \<noteq> 0x80"
  proof
    assume "?w AND 0xC0 = 0x80"
    then have "bit (?w AND 0xC0) 7 = bit (0x80 :: 32 word) 7" by simp
    then show False using b by (simp add: bit_and_iff)
  qed
  then show "\<not> is_cont c" by (simp add: is_cont_def)
  show "?w < 0x80" using assms by (simp add: word_less_nat_alt unat)
qed

lemma is_valid_utf8_ascii: "\<forall>c\<in>set s. byte c < 128 \<Longrightarrow> is_valid_utf8 s"
proof (induction s)
  case Nil
  then show ?case by (simp add: is_valid_utf8.simps)
next
  case (Cons c cs)
  then have c: "byte c < 128" by simp
  note w = ascii_word [OF c]
  have "num_bytes_in_utf8_sequence c = 1"
    using w(1,2) c by (auto simp: num_bytes_in_utf8_sequence_def Let_def word_less_nat_alt unat_of_char
        simp flip: unat_of_char dest: arg_cong [of _ _ unat])
  then have "verify_utf8_sequence (c # cs) = Some 1"
    using c by (simp add: verify_utf8_sequence_def word_less_nat_alt word_le_nat_alt unat_of_char)
  then show ?case using Cons by (simp add: is_valid_utf8.simps [of "c # cs"])
qed

lemma json_status_clean [simp]: "clean (json_status s)"
proof -
  have "is_valid_utf8 (json_status s)"
    by (rule is_valid_utf8_ascii) (simp add: json_status_def)
  then show ?thesis by (simp add: clean_def json_status_def)
qed

lemma json_indicators_clean:
  "\<forall>x\<in>set xs. clean (message x) \<Longrightarrow> json_indicators xs arr = Inr (arr @ map indicator_json xs)"
proof (induction xs arbitrary: arr)
  case (Cons x xs)
  then show ?case by (simp add: json_object_set_string_clean indicator_json_def)
qed simp

lemma json_children_clean:
  assumes "\<And>c arr. c \<in> set cs \<Longrightarrow>
      json_node c arr = Inr (arr @ map node_json (children c) @ map indicator_json (indicators c))"
    and "\<forall>c\<in>set cs. clean (procedureName c)"
  shows "json_children cs arr = Inr (arr @ map node_json cs)"
  using assms
proof (induction cs arbitrary: arr)
  case Nil
  then show ?case by simp
next
  case (Cons c cs)
  obtain nm s ds xs where c: "c = Node nm s ds xs" by (cases c)
  define inner where "inner = map node_json ds @ map indicator_json xs"
  have inner: "json_node c [] = Inr inner" using Cons.prems(1) [of c "[]"] by (simp add: c inner_def)
  have s1: "json_object_set_string [] ''procedure'' (procedureName c) = Some [(''procedure'', JString nm)]"
    using Cons.prems(2) by (simp add: c json_object_set_string_clean)
  have s2: "json_object_set_string [(''procedure'', JString nm)] ''status'' (json_status (nstatus c)) =
      Some [(''procedure'', JString nm), (''status'', JString (json_status s))]"
    by (simp add: c json_object_set_string_clean)
  have s3: "json_object_set_value [(''procedure'', JString nm), (''status'', JString (json_status s))]
      ''indicators'' (JArray inner) =
      Some [(''procedure'', JString nm), (''status'', JString (json_status s)), (''indicators'', JArray inner)]"
    by (simp add: json_object_set_value_new)
  have obj: "JObject [(''procedure'', JString nm), (''status'', JString (json_status s)),
      (''indicators'', JArray inner)] = node_json c"
    by (simp add: c inner_def)
  have "json_children (c # cs) arr = json_children cs (arr @ [node_json c])"
    using s1 s2 s3 inner obj by simp
  also have "\<dots> = Inr ((arr @ [node_json c]) @ map node_json cs)"
    by (rule Cons.IH) (use Cons.prems in auto)
  finally show ?case by simp
qed

lemma node_clean_name: "node_clean c \<Longrightarrow> clean (procedureName c)"
  by (cases c) simp

lemma json_node_clean:
  "node_clean n \<Longrightarrow>
    json_node n arr = Inr (arr @ map node_json (children n) @ map indicator_json (indicators n))"
proof (induction n arbitrary: arr)
  case (Node nm s cs xs)
  then have "json_children cs arr = Inr (arr @ map node_json cs)"
    by (intro json_children_clean) (auto simp: node_clean_name)
  with Node show ?case by (simp add: json_indicators_clean)
qed

lemma node_json_plain: "json_plain (node_json n) \<and> json_wf (node_json n)"
  by (induction n) (auto simp: indicator_json_def)

lemma JsonFormatter_document:
  assumes "GetRootNode it = Some n" "node_clean n" "json_depth (tree_json n) \<le> MAX_NESTING"
  shows "\<exists>p. JsonFormatter_Format fmt it = Inr p \<and> json_parse_string strtod p = Some (tree_json n)"
proof -
  have "JsonFormatter_Format fmt it = Inr (json_serialize_to_string_pretty fmt (tree_json n))"
    using assms(1,2) by (simp add: JsonFormatter_Format_def json_node_clean tree_json_def)
  moreover have "json_wf (tree_json n)" "json_plain (tree_json n)"
    using node_json_plain by (auto simp: tree_json_def indicator_json_def)
  from parse_serialize_plain [OF this assms(3), of strtod fmt "[]"]
  have "json_parse_string strtod (json_serialize_to_string_pretty fmt (tree_json n)) = Some (tree_json n)"
    by simp
  ultimately show ?thesis by blast
qed

lemma json_indicators_invalid:
  "\<exists>x\<in>set xs. \<not> is_valid_utf8 (c_str (message x)) \<Longrightarrow> json_indicators xs arr = Inl json_string_error"
proof (induction xs arbitrary: arr)
  case (Cons x xs)
  show ?case
  proof (cases "is_valid_utf8 (c_str (message x))")
    case True
    have some: "is_valid_utf8 (c_str t) \<Longrightarrow> \<exists>ob'. json_object_set_string ob name t = Some ob'" for ob name t
      by (simp add: json_object_set_string_def json_value_init_string_def
          json_value_init_string_with_len_def json_object_set_value_def json_object_add_def
          json_object_getn_value_map_of)
    obtain ob1 where "json_object_set_string [] ''message'' (message x) = Some ob1"
      using some True by blast
    moreover obtain ob2 where "json_object_set_string ob1 ''status'' (json_status (istatus x)) = Some ob2"
      using some [of "json_status (istatus x)"] json_status_clean [of "istatus x"]
      by (auto simp: clean_def)
    ultimately show ?thesis using Cons True by auto
  next
    case False
    then show ?thesis by (simp add: json_object_set_string_invalid)
  qed
qed simp

end
