(* ===== verification/JsonOps.thy ===== *)
theory JsonOps
  imports JsonParse JsonSerialize
begin

text \<open>
  Deep copies and validation of JSON values (\<open>parson.c\<close>), and what the parser guarantees: every
  value it returns has distinct member names that are C strings, finite numbers and bounded
  nesting. Such values are copied without loss.
\<close>

section \<open>Deep copy\<close>

function json_value_deep_copy :: "json \<Rightarrow> json option"
  and copy_items :: "json list \<Rightarrow> json list \<Rightarrow> json list option"
  and copy_members :: "jobject \<Rightarrow> jobject \<Rightarrow> jobject \<Rightarrow> jobject option" where
  "json_value_deep_copy v =
     (case v of
        JArray vs \<Rightarrow> map_option JArray (copy_items vs [])
      | JObject ms \<Rightarrow> map_option JObject (copy_members ms ms [])
      | JBoolean b \<Rightarrow> Some (JBoolean b)
      | JNumber d \<Rightarrow> json_value_init_number d
      | JString s \<Rightarrow> Some (JString s)
      | JNull \<Rightarrow> Some JNull)"
| "copy_items [] out = Some out"
| "copy_items (v # vs) out =
     (case json_value_deep_copy v of None \<Rightarrow> None | Some v' \<Rightarrow> copy_items vs (out @ [v']))"
| "copy_members all [] out = Some out"
| "copy_members all ((key, w) # rest) out =
     (case json_object_getn_value all key of
        None \<Rightarrow> None
      | Some v \<Rightarrow>
          (case json_value_deep_copy v of
             None \<Rightarrow> None
           | Some v' \<Rightarrow>
               (case json_object_add out key v' of
                  None \<Rightarrow> None
                | Some out' \<Rightarrow> copy_members all rest out')))"
  by pat_completeness auto

lemma json_object_getn_value_size:
  "json_object_getn_value ms key = Some v \<Longrightarrow> size v < size (JObject ms)"
  by (induction ms) (fastforce split: if_splits)+

termination json_value_deep_copy
  by (relation "measures [case_sum (\<lambda>v. 2 * size v + 1)
        (case_sum (\<lambda>(vs, out). 2 * size_list size vs) (\<lambda>(all, rest, out). 2 * size (JObject all))),
      case_sum (\<lambda>v. 0) (case_sum (\<lambda>(vs, out). 0) (\<lambda>(all, rest, out). length rest))]")
    (auto dest: json_object_getn_value_size)

declare json_value_deep_copy.simps [simp del]

text \<open>Values without infinities or NaNs, whose member names are distinct C strings.\<close>

fun json_ok :: "json \<Rightarrow> bool" where
  "json_ok (JObject ms) = (distinct (map fst ms) \<and> (\<forall>m\<in>set ms. NUL \<notin> set (fst m) \<and> json_ok (snd m)))"
| "json_ok (JArray vs) = (\<forall>v\<in>set vs. json_ok v)"
| "json_ok (JNumber d) = (\<not> is_number_invalid d)"
| "json_ok v = True"

lemma json_ok_wf: "json_ok v \<Longrightarrow> json_wf v"
  by (induction v rule: json_ok.induct) auto

lemma copy_members_ok:
  assumes "\<And>k v. (k, v) \<in> set ms \<Longrightarrow> json_value_deep_copy v = Some v"
    and "distinct (map fst (done @ ms))" "all = done @ ms"
  shows "copy_members all ms done = Some all"
  using assms
proof (induction ms arbitrary: "done")
  case Nil
  then show ?case by simp
next
  case (Cons m ms)
  obtain k v where m: "m = (k, v)" by (cases m)
  have "json_object_getn_value all k = Some v"
  proof -
    have "map_of done k = None" using Cons.prems(2) by (auto simp: m map_of_eq_None_iff)
    then show ?thesis using Cons.prems(3) by (simp add: m json_object_getn_value_map_of map_add_def)
  qed
  moreover have "json_value_deep_copy v = Some v" using Cons.prems(1) m by auto
  moreover have "json_object_add done k v = Some (done @ [(k, v)])"
    using Cons.prems(2) by (auto simp: m json_object_add_def json_object_getn_value_map_of map_of_eq_None_iff)
  moreover have "copy_members all ms (done @ [(k, v)]) = Some all"
    using Cons.prems by (intro Cons.IH) (auto simp: m)
  ultimately show ?case by (simp add: m)
qed

lemma copy_items_ok:
  "(\<And>v. v \<in> set vs \<Longrightarrow> json_value_deep_copy v = Some v) \<Longrightarrow> copy_items vs out = Some (out @ vs)"
  by (induction vs arbitrary: out) auto

lemma json_value_deep_copy_ok: "json_ok v \<Longrightarrow> json_value_deep_copy v = Some v"
proof (induction v)
  case (JObject ms)
  then have "json_value_deep_copy w = Some w" if "(k, w) \<in> set ms" for k w
    using that by fastforce
  then have "copy_members ms ms [] = Some ms"
    using JObject.prems by (intro copy_members_ok) auto
  then show ?case by (simp add: json_value_deep_copy.simps)
next
  case (JArray vs)
  then have "copy_items vs [] = Some ([] @ vs)" by (intro copy_items_ok) auto
  then show ?case by (simp add: json_value_deep_copy.simps)
qed (simp_all add: json_value_deep_copy.simps json_value_init_number_def)

section \<open>What the parser returns\<close>

lemma json_object_add_ok:
  assumes "json_object_add ms k v = Some ms'" "json_ok (JObject ms)" "json_ok v" "NUL \<notin> set k"
  shows "json_ok (JObject ms')"
  using assms
  by (auto simp: json_object_add_def json_object_getn_value_map_of map_of_eq_None_iff split: if_splits)

lemma parse_scalar_ok:
  "parse_boolean_value s = Some (v, r) \<Longrightarrow> json_ok v \<and> json_depth v = 0"
  "parse_null_value s = Some (v, r) \<Longrightarrow> json_ok v \<and> json_depth v = 0"
  "parse_string_value s = Some (v, r) \<Longrightarrow> json_ok v \<and> json_depth v = 0"
  "parse_number_value strtod s = Some (v, r) \<Longrightarrow> json_ok v \<and> json_depth v = 0"
  by (auto simp: parse_boolean_value_def parse_null_value_def parse_string_value_def
      parse_number_value_def json_value_init_number_def split: if_splits option.splits)

text \<open>The nesting of what has been read, plus the nesting of the place it is read at.\<close>

definition within :: "nat \<Rightarrow> json \<Rightarrow> bool" where
  "within n v \<longleftrightarrow> json_ok v \<and> json_depth v + n \<le> MAX_NESTING"

lemma within_object:
  assumes "json_ok (JObject ms)" "\<forall>m\<in>set ms. within (Suc n) (snd m)" "n \<le> MAX_NESTING"
  shows "within n (JObject ms)"
proof (cases "ms = []")
  case True
  then show ?thesis using assms by (simp add: within_def)
next
  case False
  then have "Max (set (map (\<lambda>m. json_depth (snd m)) ms)) \<in> set (map (\<lambda>m. json_depth (snd m)) ms)"
    by (intro Max_in) auto
  then obtain m where "m \<in> set ms" "Max (set (map (\<lambda>m. json_depth (snd m)) ms)) = json_depth (snd m)"
    by auto
  then show ?thesis using assms False by (fastforce simp: within_def)
qed

lemma within_array:
  assumes "\<forall>v\<in>set vs. within (Suc n) v" "n \<le> MAX_NESTING"
  shows "within n (JArray vs)"
proof (cases "vs = []")
  case True
  then show ?thesis using assms by (simp add: within_def)
next
  case False
  then have "Max (set (map json_depth vs)) \<in> set (map json_depth vs)"
    by (intro Max_in) auto
  then obtain v where "v \<in> set vs" "Max (set (map json_depth vs)) = json_depth v"
    by auto
  then show ?thesis using assms False by (fastforce simp: within_def)
qed

lemma within_add:
  assumes "json_object_add ms k v = Some ms'" "\<forall>m\<in>set ms. within n (snd m)" "within n v"
  shows "\<forall>m\<in>set ms'. within n (snd m)"
  using assms by (auto simp: json_object_add_def split: if_splits)

lemma parse_within:
  shows "parse_value strtod n s = Some (v, r) \<Longrightarrow> within n v"
    and "parse_object_value strtod n s = Some (v, r) \<Longrightarrow> 0 < n \<Longrightarrow> n \<le> Suc MAX_NESTING \<Longrightarrow> within (n - 1) v"
    and "parse_members strtod n ms s = Some (v, r) \<Longrightarrow> 0 < n \<Longrightarrow> n \<le> Suc MAX_NESTING
      \<Longrightarrow> json_ok (JObject ms) \<Longrightarrow> \<forall>m\<in>set ms. within n (snd m) \<Longrightarrow> within (n - 1) v"
    and "parse_array_value strtod n s = Some (v, r) \<Longrightarrow> 0 < n \<Longrightarrow> n \<le> Suc MAX_NESTING \<Longrightarrow> within (n - 1) v"
    and "parse_items strtod n vs s = Some (v, r) \<Longrightarrow> 0 < n \<Longrightarrow> n \<le> Suc MAX_NESTING
      \<Longrightarrow> \<forall>m\<in>set vs. within n m \<Longrightarrow> within (n - 1) v"
proof (induction strtod n s and strtod n s and strtod n ms s and strtod n s and strtod n vs s
    arbitrary: v r and v r and v r and v r and v r rule: parse_value_induct)
  case (1 strtod nesting s0)
  let ?s = "skip_whitespaces s0"
  have n: "nesting \<le> MAX_NESTING" and s: "?s \<noteq> []"
    using 1(3) by (auto simp: Let_def parse_value.simps [of strtod nesting s0] split: if_splits)
  consider "hd ?s = CHR ''{''" "parse_object_value strtod (Suc nesting) ?s = Some (v, r)"
    | "hd ?s \<noteq> CHR ''{''" "hd ?s = CHR ''[''" "parse_array_value strtod (Suc nesting) ?s = Some (v, r)"
    | "json_ok v \<and> json_depth v = 0"
    using 1(3) parse_scalar_ok
    by (fastforce simp: Let_def parse_value.simps [of strtod nesting s0] split: if_splits)
  then show ?case
  proof cases
    case 1
    then show ?thesis using "1.IH"(1) n s by fastforce
  next
    case 2
    then show ?thesis using "1.IH"(2) n s by fastforce
  next
    case 3
    then show ?thesis using n by (simp add: within_def)
  qed
next
  case (2 strtod nesting s)
  let ?t = "skip_whitespaces (tl s)"
  have "v = JObject [] \<or> (\<not> (s = [] \<or> hd s \<noteq> CHR ''{'') \<and> \<not> (?t \<noteq> [] \<and> hd ?t = CHR ''}'')
      \<and> parse_members strtod nesting [] ?t = Some (v, r))"
    using "2.prems"(1) by (auto simp: Let_def parse_object_value.simps [of strtod nesting s] split: if_splits)
  then show ?case
    using "2.IH" "2.prems"(2,3) by (auto simp: within_def)
next
  case (3 strtod nesting ms s)
  from "3.prems"(1) obtain key s1 v' s3 ms' where q: "get_quoted_string s = Some (key, s1)" "NUL \<notin> set key"
      "skip_whitespaces s1 \<noteq> []" "hd (skip_whitespaces s1) = CHR '':''"
      "parse_value strtod nesting (tl (skip_whitespaces s1)) = Some (v', s3)"
      "json_object_add ms key v' = Some ms'" "skip_whitespaces s3 \<noteq> []"
    and d: "(hd (skip_whitespaces s3) = CHR '','' \<and> length (skip_whitespaces s3) \<le> length s \<and>
         parse_members strtod nesting ms' (skip_whitespaces (tl (skip_whitespaces s3))) = Some (v, r))
      \<or> v = JObject ms'"
    by (auto simp: Let_def parse_members.simps [of strtod nesting ms s] split: option.splits if_splits)
  have v': "within nesting v'" using "3.IH"(1) q by blast
  have ok: "json_ok (JObject ms')"
    using json_object_add_ok [OF q(6) "3.prems"(4) _ q(2)] v' by (simp add: within_def)
  have wi: "\<forall>m\<in>set ms'. within nesting (snd m)"
    using within_add [OF q(6) "3.prems"(5) v'] .
  from d show ?case
  proof
    assume "v = JObject ms'"
    then show ?thesis using within_object [OF ok, of "nesting - 1"] wi "3.prems"(2,3) by simp
  next
    assume d: "hd (skip_whitespaces s3) = CHR '','' \<and> length (skip_whitespaces s3) \<le> length s \<and>
         parse_members strtod nesting ms' (skip_whitespaces (tl (skip_whitespaces s3))) = Some (v, r)"
    then show ?thesis using "3.IH"(2) q ok wi "3.prems"(2,3) by blast
  qed
next
  case (4 strtod nesting s)
  let ?t = "skip_whitespaces (tl s)"
  have "v = JArray [] \<or> (\<not> (s = [] \<or> hd s \<noteq> CHR ''['') \<and> \<not> (?t \<noteq> [] \<and> hd ?t = CHR '']'')
      \<and> parse_items strtod nesting [] ?t = Some (v, r))"
    using "4.prems"(1) by (auto simp: Let_def parse_array_value.simps [of strtod nesting s] split: if_splits)
  then show ?case
    using "4.IH" "4.prems"(2,3) by (auto simp: within_def)
next
  case (5 strtod nesting vs s)
  from "5.prems"(1) obtain v' s3 where q: "parse_value strtod nesting s = Some (v', s3)" "skip_whitespaces s3 \<noteq> []"
    and d: "(hd (skip_whitespaces s3) = CHR '','' \<and> length (skip_whitespaces s3) \<le> length s \<and>
         parse_items strtod nesting (vs @ [v']) (skip_whitespaces (tl (skip_whitespaces s3))) = Some (v, r))
      \<or> v = JArray (vs @ [v'])"
    by (auto simp: Let_def parse_items.simps [of strtod nesting vs s] split: option.splits if_splits)
  have v': "within nesting v'" using "5.IH"(1) q by blast
  from d show ?case
  proof
    assume "v = JArray (vs @ [v'])"
    then show ?thesis using within_array [of "vs @ [v']" "nesting - 1"] v' "5.prems" by simp
  next
    assume d: "hd (skip_whitespaces s3) = CHR '','' \<and> length (skip_whitespaces s3) \<le> length s \<and>
         parse_items strtod nesting (vs @ [v']) (skip_whitespaces (tl (skip_whitespaces s3))) = Some (v, r)"
    moreover have "\<forall>m\<in>set (vs @ [v']). within nesting m" using v' "5.prems"(4) by simp
    ultimately show ?thesis using "5.IH"(2) q "5.prems"(2,3) by blast
  qed
qed

lemma json_parse_string_ok:
  "json_parse_string strtod s = Some v \<Longrightarrow> json_ok v \<and> json_wf v \<and> json_depth v \<le> MAX_NESTING"
  using parse_within(1) [of strtod 0]
  by (fastforce simp: json_parse_string_def Let_def within_def dest: json_ok_wf)

lemma json_parse_string_deep_copy:
  "json_parse_string strtod s = Some v \<Longrightarrow> json_value_deep_copy v = Some v"
  using json_parse_string_ok json_value_deep_copy_ok by blast

lemma json_ok_member: "json_ok (JObject ms) \<Longrightarrow> map_of ms k = Some v \<Longrightarrow> json_ok v"
  by (auto dest: map_of_SomeD)

end
