(* ===== verification/Procedure.thy ===== *)
theory Procedure
  imports JsonOps JsonWrapper StringTools
begin

text \<open>
  \<open>src/lib/Procedure.cpp\<close>: a rule's stored definition (audit and remediation expressions and
  parameters), the parser of user parameters in the form \<open>key=value key2="a value"\<close>, and the
  update of known parameters. Positions are indices into the input, as in the code.
\<close>

section \<open>Key/value text\<close>

function SkipSpaces :: "string \<Rightarrow> nat \<Rightarrow> nat" where
  "SkipSpaces input pos =
     (if pos < length input \<and> isspace (input ! pos) then SkipSpaces input (pos + 1) else pos)"
  by pat_completeness auto
termination by (relation "measure (\<lambda>(input, pos). length input - pos)") auto

declare SkipSpaces.simps [simp del]

definition ParseKey_bad_char :: error where
  "ParseKey_bad_char = Error1 ''Invalid key: only alphanumeric and underscore characters are allowed''"

definition ParseKey_bad_first :: error where
  "ParseKey_bad_first = Error1 ''Invalid key: first character must not be a digit''"

function ParseKey_loop :: "string \<Rightarrow> bool \<Rightarrow> nat \<Rightarrow> nat result" where
  "ParseKey_loop input first pos =
     (if pos < length input \<and> \<not> isspace (input ! pos) \<and> input ! pos \<noteq> CHR ''=''
      then if \<not> isalnum (input ! pos) \<and> input ! pos \<noteq> CHR ''_'' then Inl ParseKey_bad_char
           else if first \<and> isdigit (input ! pos) then Inl ParseKey_bad_first
           else ParseKey_loop input False (pos + 1)
      else Inr pos)"
  by pat_completeness auto
termination by (relation "measure (\<lambda>(input, first, pos). length input - pos)") auto

declare ParseKey_loop.simps [simp del]

definition ParseKey :: "string \<Rightarrow> nat \<Rightarrow> nat result" where
  "ParseKey input pos = ParseKey_loop input True pos"

text \<open>The loop of \<open>ParseQuotedValue\<close>: \<open>pos\<close> is the position before the increment in the loop
  head. It gives the position where it stopped and the value.\<close>

function ParseQuoted_loop :: "string \<Rightarrow> char \<Rightarrow> nat \<Rightarrow> string \<Rightarrow> nat \<times> string" where
  "ParseQuoted_loop input quote pos0 val =
     (let pos = pos0 + 1 in
      if pos < length input then
        if input ! pos = BSL then
          (let pos = pos + 1 in
           if length input \<le> pos then (pos, val)
           else if input ! pos = BSL then ParseQuoted_loop input quote pos (val @ [BSL])
           else if input ! pos = quote then ParseQuoted_loop input quote pos (val @ [quote])
           else (pos, val))
        else if input ! pos = quote then (pos + 1, val)
        else ParseQuoted_loop input quote pos (val @ [input ! pos])
      else (pos, val))"
  by pat_completeness auto
termination by (relation "measure (\<lambda>(input, quote, pos, val). length input - pos)") auto

declare ParseQuoted_loop.simps [simp del]

definition ParseQuotedValue :: "string \<Rightarrow> nat \<Rightarrow> nat \<times> string" where
  "ParseQuotedValue input pos = ParseQuoted_loop input (input ! pos) pos []"

function unquoted_end :: "string \<Rightarrow> nat \<Rightarrow> nat" where
  "unquoted_end input pos =
     (if pos < length input \<and> \<not> isspace (input ! pos) then unquoted_end input (pos + 1) else pos)"
  by pat_completeness auto
termination by (relation "measure (\<lambda>(input, pos). length input - pos)") auto

declare unquoted_end.simps [simp del]

text \<open>The value of a pair at \<open>pos\<close>, with the position behind it.\<close>

definition parse_value_at :: "string \<Rightarrow> nat \<Rightarrow> (string \<times> nat) result" where
  "parse_value_at input pos =
     (if input ! pos = DQ \<or> input ! pos = SQ then
        (case ParseQuotedValue input pos of (pos', val) \<Rightarrow>
           if input ! (pos' - 1) \<noteq> input ! pos
           then Inl (Error1 ''Invalid key-value pair: missing closing quote or invalid escape sequence'')
           else if length input \<le> pos' \<and> pos' - pos = 1
           then Inl (Error1 ''Invalid key-value pair: missing closing quote at the end of the input'')
           else if pos' < length input \<and> \<not> isspace (input ! pos')
           then Inl (Error1 ''Invalid key-value pair: space expected after quoted value'')
           else Inr (val, pos'))
      else let pos' = unquoted_end input pos in Inr (substr pos (pos' - pos) input, pos'))"

text \<open>One iteration of the loop of \<open>Parse\<close>, behind the leading spaces: the pair and the position
  behind it.\<close>

definition parse_pair :: "string \<Rightarrow> nat \<Rightarrow> ((string \<times> string) \<times> nat) result" where
  "parse_pair input keyStart =
     and_then (ParseKey input keyStart) (\<lambda>pos.
       if keyStart = pos then Inl (Error1 ''Invalid key-value pair: empty key'')
       else if length input \<le> pos \<or> input ! pos \<noteq> CHR ''=''
       then Inl (Error1 (''Invalid key-value pair: '' @ quoted ''='' @ '' expected''))
       else if length input \<le> pos + 1 \<or> isspace (input ! (pos + 1))
       then Inl (Error1 ''Invalid key-value pair: missing value'')
       else and_then (parse_value_at input (pos + 1)) (\<lambda>(val, pos').
         Inr ((substr keyStart (pos - keyStart) input, val), pos')))"

lemma SkipSpaces_ge: "pos \<le> SkipSpaces input pos"
proof (induction input pos rule: SkipSpaces.induct)
  case (1 input pos)
  then show ?case using SkipSpaces.simps [of input pos] by auto
qed

lemma ParseKey_loop_ge: "ParseKey_loop input first pos = Inr p \<Longrightarrow> pos \<le> p"
proof (induction input first pos rule: ParseKey_loop.induct)
  case (1 input first pos)
  then show ?case using ParseKey_loop.simps [of input first pos] by (auto split: if_splits)
qed

lemma ParseQuoted_loop_gt: "ParseQuoted_loop input quote pos val = (p, x) \<Longrightarrow> pos < p"
proof (induction input quote pos val rule: ParseQuoted_loop.induct)
  case (1 input quote pos val)
  show ?case
    using "1.prems" "1.IH" ParseQuoted_loop.simps [of input quote pos val]
    by (fastforce simp: Let_def split: if_splits)
qed

lemma unquoted_end_ge: "pos \<le> unquoted_end input pos"
proof (induction input pos rule: unquoted_end.induct)
  case (1 input pos)
  then show ?case using unquoted_end.simps [of input pos] by auto
qed

lemma parse_value_at_ge: "parse_value_at input pos = Inr (v, p) \<Longrightarrow> pos \<le> p"
  using unquoted_end_ge [of pos input]
  by (auto simp: parse_value_at_def ParseQuotedValue_def Let_def dest: ParseQuoted_loop_gt split: if_splits prod.splits)

lemma parse_pair_gt: "parse_pair input pos = Inr (kv, p) \<Longrightarrow> pos < p"
  by (auto simp: parse_pair_def ParseKey_def result_simps split: if_splits
      dest!: ParseKey_loop_ge parse_value_at_ge)

function parse_loop :: "string \<Rightarrow> nat \<Rightarrow> parameter_map \<Rightarrow> parameter_map result" where
  "parse_loop input pos res =
     (let p = SkipSpaces input pos in
      if length input \<le> p then Inr res
      else and_then (parse_pair input p) (\<lambda>r. parse_loop input (snd r) (om_emplace (fst (fst r)) (snd (fst r)) res)))"
  by pat_completeness auto
termination
proof (relation "measure (\<lambda>(input, pos, res). length input - pos)")
  fix input pos p r and res :: parameter_map
  assume "p = SkipSpaces input pos" "\<not> length input \<le> p" "parse_pair input p = Inr r"
  then show "((input, snd r, om_emplace (fst (fst r)) (snd (fst r)) res), input, pos, res)
      \<in> measure (\<lambda>(input, pos, res). length input - pos)"
    using SkipSpaces_ge [of pos input] parse_pair_gt [of input p "fst r" "snd r"] by auto
qed simp

declare parse_loop.simps [simp del]

definition ProcedureParameters_Parse :: "string \<Rightarrow> parameter_map result" where
  "ProcedureParameters_Parse input = parse_loop input 0 []"

section \<open>Parameters in a JSON object\<close>

text \<open>Every member is looked up again by its name.\<close>

fun parse_json_members :: "jobject \<Rightarrow> jobject \<Rightarrow> parameter_map \<Rightarrow> parameter_map result" where
  "parse_json_members all [] res = Inr res"
| "parse_json_members all ((key, _) # rest) res =
     (case json_object_get_string (Some all) key of
        None \<Rightarrow> Inl (Error1 ''Failed to get parameter name and value'')
      | Some v \<Rightarrow> parse_json_members all rest (om_emplace key v res))"

definition ProcedureParameters_ParseJson :: "jobject \<Rightarrow> parameter_map result" where
  "ProcedureParameters_ParseJson ms = parse_json_members ms ms []"

section \<open>The stored procedure\<close>

record proc =
  proc_parameters :: parameter_map
  proc_audit :: "json option"
  proc_remediation :: "json option"

definition Procedure_init :: proc where
  "Procedure_init = \<lparr>proc_parameters = [], proc_audit = None, proc_remediation = None\<rparr>"

definition SetParameters :: "parameter_map \<Rightarrow> proc \<Rightarrow> proc" where
  "SetParameters ps p = p\<lparr>proc_parameters := ps\<rparr>"

text \<open>The loop over the user's map, in key order. An unknown key stops it; the assignments made
  before it stay.\<close>

fun update_loop :: "parameter_map \<Rightarrow> parameter_map \<Rightarrow> error option \<times> parameter_map" where
  "update_loop [] ps = (None, ps)"
| "update_loop ((key, v) # user) ps =
     (if om_find ps key = None
      then (Some (Error1 (''User parameter '' @ quoted key @ '' not found'')), ps)
      else update_loop user (om_insert key v ps))"

definition UpdateFromMap :: "parameter_map \<Rightarrow> proc \<Rightarrow> error option \<times> proc" where
  "UpdateFromMap user p =
     (case update_loop user (proc_parameters p) of (e, ps) \<Rightarrow> (e, p\<lparr>proc_parameters := ps\<rparr>))"

definition UpdateUserParameters :: "strtod_fun \<Rightarrow> string \<Rightarrow> proc \<Rightarrow> error option \<times> proc" where
  "UpdateUserParameters strtod userParameters p =
     (case JsonWrapper_FromString strtod userParameters of
        Inr v \<Rightarrow>
          (case json_value_get_object (Some v) of
             None \<Rightarrow> (Some (Error ''A JSON object expected'' EINVAL), p)
           | Some ms \<Rightarrow>
               (case ProcedureParameters_ParseJson ms of
                  Inl e \<Rightarrow> (Some e, p)
                | Inr user \<Rightarrow> UpdateFromMap user p))
      | Inl _ \<Rightarrow>
          (case ProcedureParameters_Parse userParameters of
             Inl e \<Rightarrow> (Some e, p)
           | Inr user \<Rightarrow> UpdateFromMap user p))"

definition SetAudit :: "json \<Rightarrow> proc \<Rightarrow> error option \<times> proc" where
  "SetAudit rule p =
     (if proc_audit p \<noteq> None then (Some (Error1 ''Audit rule already set''), p)
      else (None, p\<lparr>proc_audit := json_value_deep_copy rule\<rparr>))"

definition SetRemediation :: "json \<Rightarrow> proc \<Rightarrow> error option \<times> proc" where
  "SetRemediation rule p =
     (if proc_remediation p \<noteq> None then (Some (Error1 ''Remediation rule already set''), p)
      else (None, p\<lparr>proc_remediation := json_value_deep_copy rule\<rparr>))"

definition proc_Audit :: "proc \<Rightarrow> jobject option" where
  "proc_Audit p = (case proc_audit p of None \<Rightarrow> None | Some v \<Rightarrow> json_value_get_object (Some v))"

definition proc_Remediation :: "proc \<Rightarrow> jobject option" where
  "proc_Remediation p = (case proc_remediation p of None \<Rightarrow> None | Some v \<Rightarrow> json_value_get_object (Some v))"

end
