(* ===== verification/ProcedureProps.thy ===== *)
theory ProcedureProps
  imports Procedure
begin

text \<open>
  Correctness of the parameter handling: the key/value parser reads back what a quoting writer
  wrote and accepts only identifiers as keys; an update never adds a parameter and, when it
  fails, has applied exactly the entries before the unknown key.
\<close>

section \<open>Updates\<close>

lemma update_loop_keys: "update_loop user ps = (e, ps') \<Longrightarrow> om_keys ps' = om_keys ps"
proof (induction user ps rule: update_loop.induct)
  case (2 key v user ps)
  then show ?case
    by (auto simp: om_find_None insert_absorb split: if_splits)
qed simp

lemma update_loop_inv: "update_loop user ps = (e, ps') \<Longrightarrow> om_inv ps \<Longrightarrow> om_inv ps'"
  by (induction user ps rule: update_loop.induct) (auto simp: om_inv_insert split: if_splits)

lemma update_loop_find:
  "update_loop user ps = (None, ps') \<Longrightarrow> distinct (map fst user)
   \<Longrightarrow> om_find ps' = om_find ps ++ map_of user \<and> om_keys user \<subseteq> om_keys ps"
proof (induction user ps rule: update_loop.induct)
  case (1 ps)
  then show ?case by (simp add: om_keys_def)
next
  case (2 key v user ps)
  then have known: "om_find ps key \<noteq> None"
    and rest: "om_find ps' = om_find (om_insert key v ps) ++ map_of user"
      "om_keys user \<subseteq> om_keys (om_insert key v ps)"
    and key: "key \<notin> fst ` set user"
    by (auto split: if_splits)
  have "map_of user key = None" using key by (simp add: map_of_eq_None_iff)
  then have "om_find ps' x = (om_find ps ++ map_of ((key, v) # user)) x" for x
    by (auto simp: rest(1) om_find_insert map_add_def split: option.splits)
  then have "om_find ps' = om_find ps ++ map_of ((key, v) # user)" by (simp add: fun_eq_iff)
  moreover have "key \<in> om_keys ps" using known by (auto simp: om_find_None)
  then have "om_keys ((key, v) # user) \<subseteq> om_keys ps" using rest(2) by (simp add: insert_absorb)
  ultimately show ?case by (rule conjI)
qed

text \<open>The split of the user's entries that an update makes.\<close>

lemma update_loop_split:
  "update_loop user ps = (Some e, ps')
   \<Longrightarrow> \<exists>before key v after. user = before @ (key, v) # after
       \<and> e = Error1 (''User parameter '' @ quoted key @ '' not found'')
       \<and> key \<notin> om_keys ps \<and> update_loop before ps = (None, ps')"
proof (induction user ps rule: update_loop.induct)
  case (1 ps)
  then show ?case by simp
next
  case (2 key v user ps)
  show ?case
  proof (cases "om_find ps key")
    case None
    then show ?thesis using "2.prems"
      by (intro exI [of _ "[]"] exI [of _ key] exI [of _ v] exI [of _ user]) (auto simp: om_find_None)
  next
    case (Some w)
    then obtain before k x after where split: "user = before @ (k, x) # after"
        "e = Error1 (''User parameter '' @ quoted k @ '' not found'')"
        "k \<notin> om_keys (om_insert key v ps)" "update_loop before (om_insert key v ps) = (None, ps')"
      using 2 by auto
    then show ?thesis using Some
      by (intro exI [of _ "(key, v) # before"] exI [of _ k] exI [of _ x] exI [of _ after]) auto
  qed
qed

section \<open>Parameters from JSON\<close>

lemma json_object_get_string_member:
  "distinct (map fst ms) \<Longrightarrow> (k, v) \<in> set ms \<Longrightarrow>
    json_object_get_string (Some ms) k = json_value_get_string (Some v)"
  by (simp add: json_object_get_string_def)

lemma parse_json_members_ok:
  assumes "parse_json_members all rest res = Inr out" "om_inv res"
  shows "om_inv out \<and> om_keys out = om_keys res \<union> fst ` set rest"
  using assms
proof (induction all rest res rule: parse_json_members.induct)
  case (2 all key u rest res)
  then obtain v where "json_object_get_string (Some all) key = Some v"
    "parse_json_members all rest (om_emplace key v res) = Inr out"
    by (auto split: option.splits)
  moreover have "om_keys (om_emplace key v res) = insert key (om_keys res)"
    by (auto simp: om_emplace_def insert_absorb dest: om_find_Some_keys split: option.split)
  ultimately show ?case using 2 by (auto simp: om_inv_emplace)
qed simp

section \<open>Reading at a position\<close>

text \<open>\<open>at s p t\<close>: what is left of \<open>s\<close> from position \<open>p\<close> is \<open>t\<close>.\<close>

definition at :: "string \<Rightarrow> nat \<Rightarrow> string \<Rightarrow> bool" where
  "at s p t \<longleftrightarrow> p \<le> length s \<and> drop p s = t"

lemma at_Cons:
  assumes "at s p (c # t)"
  shows "p < length s" "s ! p = c" "at s (Suc p) t"
proof -
  have "drop p s = c # t" "p < length s"
    using assms by (auto simp: at_def intro: ccontr)
  then show "p < length s" "s ! p = c" "at s (Suc p) t"
    by (auto simp: at_def nth_via_drop drop_Suc simp flip: tl_drop)
qed

lemma at_Nil: "at s p [] \<longleftrightarrow> p = length s"
  by (auto simp: at_def)

lemma at_append: "at s p (t @ u) \<Longrightarrow> at s (p + length t) u"
proof (induction t arbitrary: p)
  case (Cons c t)
  then show ?case using at_Cons(3) [of s p c "t @ u"] by fastforce
qed simp

lemma at_substr: "at s p (t @ u) \<Longrightarrow> substr p (length t) s = t"
  by (auto simp: at_def substr_def)

definition ident :: "string \<Rightarrow> bool" where
  "ident k \<longleftrightarrow> k \<noteq> [] \<and> (\<forall>c\<in>set k. isalnum c \<or> c = CHR ''_'') \<and> \<not> isdigit (hd k)"

lemma ident_char: "isalnum c \<or> c = CHR ''_'' \<Longrightarrow> \<not> isspace c \<and> c \<noteq> CHR ''=''"
  by (auto simp: isalnum_def isalpha_def isupper_def islower_def isdigit_def isspace_def)

lemma ParseKey_loop_at:
  assumes "at s p (k @ CHR ''='' # t)" "\<forall>c\<in>set k. isalnum c \<or> c = CHR ''_''"
    and "first \<Longrightarrow> k \<noteq> [] \<Longrightarrow> \<not> isdigit (hd k)"
  shows "ParseKey_loop s first p = Inr (p + length k)"
  using assms
proof (induction k arbitrary: p first)
  case Nil
  then have "s ! p = CHR ''=''" using at_Cons by auto
  then show ?case by (simp add: ParseKey_loop.simps [of s first p])
next
  case (Cons c k)
  then have p: "p < length s" "s ! p = c" "at s (Suc p) (k @ CHR ''='' # t)"
    using at_Cons [of s p c "k @ CHR ''='' # t"] by simp_all
  have "ParseKey_loop s False (Suc p) = Inr (Suc p + length k)"
    using Cons p(3) by (intro Cons.IH) auto
  then show ?case
    using p(1,2) Cons.prems(2,3) ident_char [of c]
    by (auto simp: ParseKey_loop.simps [of s first p])
qed

text \<open>How a writer quotes a value.\<close>

fun quote_value :: "string \<Rightarrow> string" where
  "quote_value [] = []"
| "quote_value (c # cs) = (if c = BSL \<or> c = DQ then [BSL, c] else [c]) @ quote_value cs"

lemma ParseQuoted_loop_at:
  assumes "at s (Suc p) (quote_value v @ DQ # t)"
  shows "ParseQuoted_loop s DQ p val = (p + 2 + length (quote_value v), val @ v)"
  using assms
proof (induction v arbitrary: p val)
  case Nil
  then have "Suc p < length s" "s ! Suc p = DQ" using at_Cons by auto
  then show ?case by (simp add: ParseQuoted_loop.simps [of s DQ p])
next
  case (Cons c v)
  show ?case
  proof (cases "c = BSL \<or> c = DQ")
    case True
    with Cons.prems have 1: "at s (Suc p) (BSL # c # quote_value v @ DQ # t)" by auto
    note p = at_Cons [OF 1]
    note q = at_Cons [OF p(3)]
    have "ParseQuoted_loop s DQ (p + 2) (val @ [c]) = (p + 2 + 2 + length (quote_value v), (val @ [c]) @ v)"
      using q(3) by (intro Cons.IH) simp
    then show ?thesis
      using True p(1,2) q(1,2) by (auto simp: ParseQuoted_loop.simps [of s DQ p])
  next
    case False
    with Cons.prems have 1: "at s (Suc p) (c # quote_value v @ DQ # t)" by auto
    note p = at_Cons [OF 1]
    have "ParseQuoted_loop s DQ (Suc p) (val @ [c]) = (Suc p + 2 + length (quote_value v), (val @ [c]) @ v)"
      using p(3) by (intro Cons.IH) simp
    then show ?thesis
      using False p(1,2) by (simp add: ParseQuoted_loop.simps [of s DQ p])
  qed
qed

definition pair_text :: "string \<times> string \<Rightarrow> string" where
  "pair_text kv = fst kv @ [CHR ''=''] @ [DQ] @ quote_value (snd kv) @ [DQ] @ '' ''"

lemma parse_pair_at:
  assumes "at s p (pair_text (k, v) @ t)" "ident k"
  shows "parse_pair s p = Inr ((k, v), p + length k + 3 + length (quote_value v))
    \<and> at s (p + length k + 3 + length (quote_value v)) ('' '' @ t)"
proof -
  let ?e = "p + length k"
  have k: "at s p (k @ CHR ''='' # DQ # quote_value v @ DQ # '' '' @ t)"
    using assms(1) by (simp add: pair_text_def)
  have key: "ParseKey s p = Inr ?e"
    unfolding ParseKey_def using k assms(2) by (intro ParseKey_loop_at) (auto simp: ident_def)
  note eq = at_Cons [OF at_append [OF k]]
  note dq = at_Cons [OF eq(3)]
  have quoted: "ParseQuotedValue s (Suc ?e) = (Suc ?e + 2 + length (quote_value v), v)"
    using ParseQuoted_loop_at [of s "Suc ?e" v "'' '' @ t" "[]"] dq by (simp add: ParseQuotedValue_def)
  have "at s (Suc (Suc ?e) + length (quote_value v)) (DQ # '' '' @ t)"
    using at_append [OF dq(3)] .
  note close = at_Cons [OF this]
  note space = at_Cons [of s _ "CHR '' ''" t, OF close(3) [simplified]]
  have val: "parse_value_at s (Suc ?e) = Inr (v, Suc ?e + 2 + length (quote_value v))"
    using quoted dq(2) close(2) space(1,2)
    by (simp add: parse_value_at_def isspace_def)
  have "substr p (length k) s = k" using at_substr [OF k] .
  moreover have "k \<noteq> []" using assms(2) by (simp add: ident_def)
  ultimately have "parse_pair s p = Inr ((k, v), Suc ?e + 2 + length (quote_value v))"
    using key eq(1,2) dq(1,2) val by (simp add: parse_pair_def isspace_def)
  moreover have "at s (Suc ?e + 2 + length (quote_value v)) ('' '' @ t)"
    using close(3) by simp
  ultimately show ?thesis by (simp add: numeral_3_eq_3)
qed

section \<open>Whole inputs\<close>

lemma SkipSpaces_at:
  assumes "at s p (t @ u)" "\<forall>c\<in>set t. isspace c" "u = [] \<or> \<not> isspace (hd u)"
  shows "SkipSpaces s p = p + length t"
  using assms
proof (induction t arbitrary: p)
  case Nil
  show ?case
  proof (cases u)
    case Nil
    then have "p = length s" using Nil.prems by (simp add: at_Nil)
    then show ?thesis by (simp add: SkipSpaces.simps [of s "length s"])
  next
    case (Cons d u')
    then show ?thesis
      using Nil.prems at_Cons(2) [of s p d u'] by (simp add: SkipSpaces.simps [of s p])
  qed
next
  case (Cons c t)
  then have p: "p < length s" "s ! p = c" "at s (Suc p) (t @ u)"
    using at_Cons [of s p c "t @ u"] by simp_all
  with Cons show ?case by (simp add: SkipSpaces.simps [of s p])
qed

lemma ident_hd: "ident k \<Longrightarrow> k \<noteq> [] \<and> \<not> isspace (hd k)"
  using ident_char [of "hd k"] by (cases k) (auto simp: ident_def)

lemma parse_loop_at:
  assumes "at s p (sp @ concat (map pair_text kvs))" "\<forall>c\<in>set sp. isspace c"
    and "\<forall>kv\<in>set kvs. ident (fst kv)"
  shows "parse_loop s p res = Inr (fold (\<lambda>(k, v). om_emplace k v) kvs res)"
  using assms
proof (induction kvs arbitrary: p sp res)
  case Nil
  then have "SkipSpaces s p = p + length sp" "length s = p + length sp"
    using SkipSpaces_at [of s p sp "[]"] at_append [of s p sp "[]"] by (auto simp: at_Nil)
  then show ?case by (simp add: parse_loop.simps [of s p])
next
  case (Cons kv kvs)
  obtain k v where kv: "kv = (k, v)" by (cases kv)
  let ?rest = "concat (map pair_text kvs)"
  have id: "ident k" using Cons.prems(3) by (simp add: kv)
  have start: "at s (p + length sp) (pair_text (k, v) @ ?rest)"
    using at_append [of s p sp "pair_text (k, v) @ ?rest"] Cons.prems(1) by (simp add: kv)
  have "SkipSpaces s p = p + length sp"
  proof (rule SkipSpaces_at)
    show "at s p (sp @ pair_text (k, v) @ ?rest)" using Cons.prems(1) by (simp add: kv)
    show "\<forall>c\<in>set sp. isspace c" by (rule Cons.prems(2))
    show "pair_text (k, v) @ ?rest = [] \<or> \<not> isspace (hd (pair_text (k, v) @ ?rest))"
      using ident_hd [OF id] by (simp add: pair_text_def)
  qed
  moreover have "p + length sp < length s"
    using start ident_hd [OF id] by (cases k) (auto simp: pair_text_def dest: at_Cons(1))
  moreover note pair = parse_pair_at [OF start id]
  let ?q = "p + length sp + length k + 3 + length (quote_value v)"
  have "parse_loop s ?q (om_emplace k v res) = Inr (fold (\<lambda>(k, v). om_emplace k v) kvs (om_emplace k v res))"
    using pair Cons.prems(3) by (intro Cons.IH [of ?q "'' ''"]) (auto simp: isspace_def)
  ultimately show ?case by (simp add: parse_loop.simps [of s p] kv pair [THEN conjunct1])
qed

lemma ProcedureParameters_Parse_pairs:
  assumes "\<forall>kv\<in>set kvs. ident (fst kv)"
  shows "ProcedureParameters_Parse (concat (map pair_text kvs)) = Inr (fold (\<lambda>(k, v). om_emplace k v) kvs [])"
  unfolding ProcedureParameters_Parse_def
  using assms by (intro parse_loop_at [of _ _ "[]"]) (auto simp: at_def)

text \<open>For a map in canonical form the fold rebuilds the map.\<close>

lemma fold_emplace_find:
  "distinct (map fst kvs) \<Longrightarrow> fst ` set kvs \<inter> om_keys m = {} \<Longrightarrow>
    om_find (fold (\<lambda>(k, v). om_emplace k v) kvs m) = om_find m ++ map_of kvs"
proof (induction kvs arbitrary: m)
  case (Cons kv kvs)
  obtain k v where kv: "kv = (k, v)" by (cases kv)
  have new: "om_find m k = None" using Cons.prems(2) by (auto simp: kv om_find_None)
  then have emp: "om_emplace k v m = om_insert k v m" by (simp add: om_emplace_def)
  have "om_find (fold (\<lambda>(k, v). om_emplace k v) kvs (om_insert k v m)) = om_find (om_insert k v m) ++ map_of kvs"
    using Cons.prems by (intro Cons.IH) (auto simp: kv)
  moreover have "map_of kvs k = None" using Cons.prems(1) by (simp add: kv map_of_eq_None_iff)
  ultimately have "om_find (fold (\<lambda>(k, v). om_emplace k v) (kv # kvs) m) x = (om_find m ++ map_of (kv # kvs)) x" for x
    by (auto simp: kv emp om_find_insert map_add_def split: option.splits)
  then show ?case by (rule ext)
qed (simp add: fun_eq_iff)

lemma fold_emplace_inv: "om_inv m \<Longrightarrow> om_inv (fold (\<lambda>(k, v). om_emplace k v) kvs m)"
  by (induction kvs arbitrary: m) (auto simp: om_inv_emplace)

lemma fold_emplace_id: "om_inv m \<Longrightarrow> fold (\<lambda>(k, v). om_emplace k v) m [] = m"
proof (rule om_ext)
  fix k
  assume "om_inv m"
  then have "om_find (fold (\<lambda>(k, v). om_emplace k v) m []) = om_find [] ++ map_of m"
    by (intro fold_emplace_find) (simp_all add: om_inv_distinct)
  then show "om_find (fold (\<lambda>(k, v). om_emplace k v) m []) k = om_find m k"
    by (simp add: om_find_def map_add_def split: option.split)
qed (simp_all add: fold_emplace_inv)

lemma ProcedureParameters_Parse_map:
  assumes "om_inv m" "\<forall>k\<in>om_keys m. ident k"
  shows "ProcedureParameters_Parse (concat (map pair_text m)) = Inr m"
  using ProcedureParameters_Parse_pairs [of m] fold_emplace_id [OF assms(1)] assms(2)
  by (auto simp: om_keys_def)

section \<open>Keys are identifiers\<close>

lemma ParseKey_loop_sound:
  "ParseKey_loop s first p = Inr q \<Longrightarrow> p \<le> length s \<Longrightarrow>
    q \<le> length s \<and> (\<forall>i. p \<le> i \<and> i < q \<longrightarrow> isalnum (s ! i) \<or> s ! i = CHR ''_'')
    \<and> (first \<and> p < q \<longrightarrow> \<not> isdigit (s ! p))"
proof (induction s first p rule: ParseKey_loop.induct)
  case (1 s first p)
  show ?case
  proof (cases "p < length s \<and> \<not> isspace (s ! p) \<and> s ! p \<noteq> CHR ''=''")
    case False
    then have "q = p" using "1.prems"(1) by (auto simp: ParseKey_loop.simps [of s first p])
    then show ?thesis using "1.prems"(2) by auto
  next
    case True
    then have c: "isalnum (s ! p) \<or> s ! p = CHR ''_''" "first \<Longrightarrow> \<not> isdigit (s ! p)"
      and rest: "ParseKey_loop s False (p + 1) = Inr q"
      using "1.prems"(1) ParseKey_loop.simps [of s first p] by (auto split: if_splits)
    have "q \<le> length s \<and> (\<forall>i. p + 1 \<le> i \<and> i < q \<longrightarrow> isalnum (s ! i) \<or> s ! i = CHR ''_'')"
      using 1 True c rest by auto
    then show ?thesis using c by (metis Suc_eq_plus1 Suc_leI le_neq_implies_less)
  qed
qed

lemma parse_pair_ident:
  assumes "parse_pair s p = Inr ((k, v), q)" "p < length s"
  shows "ident k"
proof -
  obtain e where e: "ParseKey s p = Inr e" "p \<noteq> e" "k = substr p (e - p) s"
    using assms(1) by (auto simp: parse_pair_def result_simps split: if_splits)
  then have loop: "ParseKey_loop s True p = Inr e" by (simp add: ParseKey_def)
  have pe: "p < e" using ParseKey_loop_ge [OF loop] e(2) by simp
  note sound = ParseKey_loop_sound [OF loop less_imp_le [OF assms(2)]]
  have len: "length k = e - p" using sound by (auto simp: e(3) substr_def)
  have nth: "k ! i = s ! (p + i)" if "i < e - p" for i
    using that sound by (auto simp: e(3) substr_def)
  have "isalnum (k ! i) \<or> k ! i = CHR ''_''" if "i < length k" for i
    using sound nth [of i] that len by auto
  then have "\<forall>c\<in>set k. isalnum c \<or> c = CHR ''_''" by (metis in_set_conv_nth)
  moreover have "hd k = s ! p"
    using nth [of 0] pe len by (cases k) auto
  ultimately show ?thesis using sound pe len by (auto simp: ident_def)
qed

lemma parse_loop_ident:
  "parse_loop s p res = Inr out \<Longrightarrow> om_inv res \<Longrightarrow> \<forall>k\<in>om_keys res. ident k
   \<Longrightarrow> om_inv out \<and> (\<forall>k\<in>om_keys out. ident k)"
proof (induction s p res rule: parse_loop.induct)
  case (1 s p res)
  show ?case
  proof (cases "length s \<le> SkipSpaces s p")
    case True
    then show ?thesis using "1.prems" by (simp add: parse_loop.simps [of s p])
  next
    case False
    then obtain k v q where pair: "parse_pair s (SkipSpaces s p) = Inr ((k, v), q)"
      and rest: "parse_loop s q (om_emplace k v res) = Inr out"
      using "1.prems"(1) by (auto simp: parse_loop.simps [of s p] result_simps)
    have "ident k" using parse_pair_ident [OF pair] False by simp
    moreover have "om_keys (om_emplace k v res) = insert k (om_keys res)"
      by (auto simp: om_emplace_def insert_absorb dest: om_find_Some_keys split: option.split)
    ultimately have "\<forall>x\<in>om_keys (om_emplace k v res). ident x" using "1.prems"(3) by simp
    with "1.IH" [OF refl False pair, unfolded fst_conv snd_conv, OF rest om_inv_emplace [OF "1.prems"(2)]]
    show ?thesis .
  qed
qed

lemma ProcedureParameters_Parse_ident:
  "ProcedureParameters_Parse s = Inr m \<Longrightarrow> om_inv m \<and> (\<forall>k\<in>om_keys m. ident k)"
  unfolding ProcedureParameters_Parse_def by (rule parse_loop_ident) auto

text \<open>The test for the closing quote looks at the last character only, so a value that ends in
  an escaped quote passes without being closed.\<close>

lemma unterminated_value_accepted:
  "ProcedureParameters_Parse (''k='' @ [DQ] @ ''a'' @ [BSL, DQ]) = Inr [(''k'', ''a'' @ [DQ])]"
  by code_simp

end
