(* ===== verification/Engine.thy ===== *)
theory Engine
  imports EvaluatorTree EvaluatorSem ProcedureProps
begin

text \<open>
  \<open>src/lib/Engine.cpp\<close>: the engine behind the MMI interface. It keeps the database of rules; the
  object name of a request carries the operation and the rule name (\<open>procedureX\<close>, \<open>initX\<close>,
  \<open>remediateX\<close>, \<open>auditX\<close>). A step of a session is one request; the session relation and its
  invariant are at the end.
\<close>

section \<open>State and environment\<close>

type_synonym database = "(string, proc) omap"

record 'w engine =
  mDatabase :: database
  mContext :: 'w

record 'w engine_env =
  env_strtod :: strtod_fun
  env_procedures :: "string \<Rightarrow> 'w procedure_actions option"
  env_lua :: "string \<Rightarrow> action \<Rightarrow> indicators_tree \<Rightarrow> 'w \<Rightarrow> 'w outcome"
  env_format :: "indicators_tree \<Rightarrow> string result"

definition evaluator_for :: "'w engine_env \<Rightarrow> parameter_map \<Rightarrow> 'w evaluator" where
  "evaluator_for env ps =
     \<lparr>mParameters = ps, mProcedureMap = env_procedures env, mLuaEvaluator = env_lua env\<rparr>"

section \<open>Operations\<close>

text \<open>The part of \<open>SetProcedure\<close> that builds the new entry from the parsed payload.\<close>

definition build_parameters :: "jobject \<Rightarrow> proc \<Rightarrow> proc result" where
  "build_parameters ms p =
     (case json_object_get_value (Some ms) ''parameters'' of
        None \<Rightarrow> Inr p
      | Some v \<Rightarrow>
          if json_value_get_type (Some v) \<noteq> JSONObject
          then Inl (Error1 (''The '' @ quoted ''parameters'' @ '' value is not an object''))
          else and_then (ProcedureParameters_ParseJson (the (json_value_get_object (Some v)))) (\<lambda>ps.
            Inr (SetParameters ps p)))"

definition build_remediation :: "jobject \<Rightarrow> proc \<Rightarrow> proc result" where
  "build_remediation ms p =
     (case json_object_get_value (Some ms) ''remediate'' of
        None \<Rightarrow> Inr p
      | Some v \<Rightarrow>
          if json_value_get_type (Some v) \<noteq> JSONObject
          then Inl (Error1 (''The '' @ quoted ''remediate'' @ '' value is not an object''))
          else (case SetRemediation v p of
                  (Some e, _) \<Rightarrow> Inl e
                | (None, p') \<Rightarrow> if proc_Remediation p' = None then Inl (Error1 ''Out of memory'') else Inr p'))"

definition build_procedure :: "json \<Rightarrow> proc result" where
  "build_procedure rule =
     (case json_value_get_object (Some rule) of
        None \<Rightarrow> Inl (Error1 ''Failed to parse JSON object'')
      | Some ms \<Rightarrow>
          (case json_object_get_value (Some ms) ''audit'' of
             None \<Rightarrow> Inl (Error1 (''Missing '' @ quoted ''audit'' @ '' object''))
           | Some v \<Rightarrow>
               if json_value_get_type (Some v) \<noteq> JSONObject
               then Inl (Error1 (''The '' @ quoted ''audit'' @ '' value is not an object''))
               else (case SetAudit v Procedure_init of
                       (Some e, _) \<Rightarrow> Inl e
                     | (None, p) \<Rightarrow>
                         if proc_Audit p = None then Inl (Error1 ''Out of memory'')
                         else and_then (build_remediation ms p) (build_parameters ms))))"

definition SetProcedure :: "strtod_fun \<Rightarrow> string \<Rightarrow> string \<Rightarrow> database \<Rightarrow> error option \<times> database" where
  "SetProcedure strtod rule_name payload db =
     (if rule_name = [] then (Some (Error ''Rule name is empty'' EINVAL), db)
      else
        let db = om_erase rule_name db in
        case (case JsonWrapper_FromBase64 strtod payload of
                Inr v \<Rightarrow> Inr v
              | Inl _ \<Rightarrow> JsonWrapper_FromString strtod payload) of
          Inl e \<Rightarrow> (Some e, db)
        | Inr rule \<Rightarrow>
            (case build_procedure rule of
               Inl e \<Rightarrow> (Some e, db)
             | Inr p \<Rightarrow> (None, om_emplace rule_name p db)))"

definition out_of_order :: error where
  "out_of_order = Error ''Out-of-order operation: procedure must be set first'' EINVAL"

definition InitAudit :: "strtod_fun \<Rightarrow> string \<Rightarrow> string \<Rightarrow> database \<Rightarrow> error option \<times> database" where
  "InitAudit strtod rule_name payload db =
     (if rule_name = [] then (Some (Error ''Rule name is empty'' EINVAL), db)
      else case om_find db rule_name of
        None \<Rightarrow> (Some out_of_order, db)
      | Some p \<Rightarrow>
          (case UpdateUserParameters strtod payload p of (e, p') \<Rightarrow> (e, om_insert rule_name p' db)))"

definition Engine_ExecuteRemediation ::
  "'w engine_env \<Rightarrow> string \<Rightarrow> string \<Rightarrow> 'w engine \<Rightarrow> status result \<times> 'w engine" where
  "Engine_ExecuteRemediation env rule_name payload en =
     (if rule_name = [] then (Inl (Error ''Rule name is empty'' EINVAL), en)
      else case om_find (mDatabase en) rule_name of
        None \<Rightarrow> (Inl out_of_order, en)
      | Some p \<Rightarrow>
          (case (case proc_Remediation p of None \<Rightarrow> proc_Audit p | Some ms \<Rightarrow> Some ms) of
             None \<Rightarrow> (Inl (Error1 (''Failed to get '' @ quoted ''remediate'' @ '' or '' @ quoted ''audit'' @ '' object'')), en)
           | Some remediation \<Rightarrow>
               (case UpdateUserParameters (env_strtod env) payload p of
                  (Some e, p') \<Rightarrow> (Inl e, en\<lparr>mDatabase := om_insert rule_name p' (mDatabase en)\<rparr>)
                | (None, p') \<Rightarrow>
                    (case ExecuteRemediation (evaluator_for env (proc_parameters p')) rule_name
                            (Some remediation) (mContext en) of
                       (r, it, w) \<Rightarrow>
                         (r, en\<lparr>mDatabase := om_insert rule_name p' (mDatabase en), mContext := w\<rparr>)))))"

abbreviation procedurePrefix :: string where "procedurePrefix \<equiv> ''procedure''"
abbreviation initPrefix :: string where "initPrefix \<equiv> ''init''"
abbreviation remediatePrefix :: string where "remediatePrefix \<equiv> ''remediate''"
abbreviation auditPrefix :: string where "auditPrefix \<equiv> ''audit''"

definition status_of_error :: "error option \<times> database \<Rightarrow> 'w engine \<Rightarrow> status result \<times> 'w engine" where
  "status_of_error r en =
     ((case fst r of Some e \<Rightarrow> Inl e | None \<Rightarrow> Inr Compliant), en\<lparr>mDatabase := snd r\<rparr>)"

definition MmiSet :: "'w engine_env \<Rightarrow> string option \<Rightarrow> string \<Rightarrow> 'w engine \<Rightarrow> status result \<times> 'w engine" where
  "MmiSet env object_name payload en =
     (case object_name of
        None \<Rightarrow> (Inl (Error ''Invalid argument'' EINVAL), en)
      | Some name \<Rightarrow>
          if find_str procedurePrefix name = Some 0
          then status_of_error (SetProcedure (env_strtod env) (drop (length procedurePrefix) name) payload (mDatabase en)) en
          else if find_str initPrefix name = Some 0
          then status_of_error (InitAudit (env_strtod env) (drop (length initPrefix) name) payload (mDatabase en)) en
          else if find_str remediatePrefix name = Some 0
          then Engine_ExecuteRemediation env (drop (length remediatePrefix) name) payload en
          else (Inl (Error1 ''Invalid object name''), en))"

definition MmiGet ::
  "'w engine_env \<Rightarrow> string option \<Rightarrow> 'w engine \<Rightarrow> (status \<times> string) result \<times> 'w engine" where
  "MmiGet env object_name en =
     (case object_name of
        None \<Rightarrow> (Inl (Error ''Invalid argument'' EINVAL), en)
      | Some name \<Rightarrow>
          if find_str auditPrefix name \<noteq> Some 0 then (Inl (Error ''Invalid object name'' EINVAL), en)
          else
            let rule_name = drop (length auditPrefix) name in
            if rule_name = [] then (Inl (Error ''Rule name is empty'' EINVAL), en)
            else case om_find (mDatabase en) rule_name of
              None \<Rightarrow> (Inl (Error ''Rule not found'' EINVAL), en)
            | Some p \<Rightarrow>
                if proc_Audit p = None
                then (Inl (Error1 (''Failed to get '' @ quoted ''audit'' @ '' object'')), en)
                else (case ExecuteAudit (evaluator_for env (proc_parameters p)) rule_name (proc_Audit p)
                             (env_format env) (mContext en) of
                        (r, it, w) \<Rightarrow> (r, en\<lparr>mContext := w\<rparr>)))"

definition GetParameters :: "string \<Rightarrow> 'w engine \<Rightarrow> parameter_map" where
  "GetParameters rule_name en =
     (case om_find (mDatabase en) rule_name of None \<Rightarrow> [] | Some p \<Rightarrow> proc_parameters p)"

end
