(* ===== verification/EngineProps.thy ===== *)
theory EngineProps
  imports Engine
begin

text \<open>
  Sessions of the engine: requests as steps, the database invariant, what a request may change,
  and the order of requests a client must follow.
\<close>

declare json_ok.simps(1) [simp del]

section \<open>The database invariant\<close>

definition proc_ok :: "proc \<Rightarrow> bool" where
  "proc_ok p \<longleftrightarrow>
     (\<exists>ms. proc_audit p = Some (JObject ms) \<and> json_ok (JObject ms))
     \<and> (proc_remediation p = None \<or> (\<exists>ms. proc_remediation p = Some (JObject ms) \<and> json_ok (JObject ms)))
     \<and> om_inv (proc_parameters p)"

definition db_ok :: "database \<Rightarrow> bool" where
  "db_ok db \<longleftrightarrow> om_inv db \<and> (\<forall>k p. om_find db k = Some p \<longrightarrow> k \<noteq> [] \<and> proc_ok p)"

lemma db_ok_insert: "db_ok db \<Longrightarrow> k \<noteq> [] \<Longrightarrow> proc_ok p \<Longrightarrow> db_ok (om_insert k p db)"
  by (auto simp: db_ok_def om_inv_insert om_find_insert split: if_splits)

lemma db_ok_erase: "db_ok db \<Longrightarrow> db_ok (om_erase k db)"
  by (auto simp: db_ok_def om_inv_erase om_find_erase split: if_splits)

lemma proc_ok_audit: "proc_ok p \<Longrightarrow> \<exists>ms. proc_Audit p = Some ms"
  by (auto simp: proc_ok_def proc_Audit_def)

lemma om_emplace_erased: "om_emplace k v (om_erase k db) = om_insert k v (om_erase k db)"
  by (simp add: om_emplace_def om_find_erase)

lemma Procedure_init_sel [simp]:
  "proc_audit Procedure_init = None" "proc_remediation Procedure_init = None"
  "proc_parameters Procedure_init = []"
  by (simp_all add: Procedure_init_def)

lemma json_get_member_ok:
  "json_ok (JObject ms) \<Longrightarrow> json_object_get_value (Some ms) k = Some v \<Longrightarrow> json_ok v"
  using json_ok_member by simp

text \<open>What \<open>build_procedure\<close> makes of a well-formed payload, as one equation: the memory errors
  cannot happen.\<close>

definition payload_proc :: "jobject \<Rightarrow> jobject \<Rightarrow> jobject option \<Rightarrow> parameter_map \<Rightarrow> proc \<Rightarrow> bool" where
  "payload_proc ms a r ps p \<longleftrightarrow>
     map_of ms ''audit'' = Some (JObject a)
     \<and> map_of ms ''remediate'' = map_option JObject r
     \<and> (case map_of ms ''parameters'' of
          None \<Rightarrow> ps = []
        | Some v \<Rightarrow> \<exists>pms. v = JObject pms \<and> ProcedureParameters_ParseJson pms = Inr ps)
     \<and> p = \<lparr>proc_parameters = ps, proc_audit = Some (JObject a), proc_remediation = map_option JObject r\<rparr>"

lemma SetAudit_init:
  "json_ok v \<Longrightarrow> SetAudit v Procedure_init = (None, Procedure_init\<lparr>proc_audit := Some v\<rparr>)"
  by (simp add: SetAudit_def json_value_deep_copy_ok)

lemma SetRemediation_new:
  "json_ok v \<Longrightarrow> proc_remediation p = None \<Longrightarrow> SetRemediation v p = (None, p\<lparr>proc_remediation := Some v\<rparr>)"
  by (simp add: SetRemediation_def json_value_deep_copy_ok)

lemma build_procedure_Inr:
  assumes "build_procedure rule = Inr p" "json_ok rule"
  shows "\<exists>ms a r ps. rule = JObject ms \<and> payload_proc ms a r ps p"
proof -
  obtain ms where rule: "rule = JObject ms"
    using assms(1) by (cases rule) (simp_all add: build_procedure_def)
  have ok: "json_ok (JObject ms)" using assms(2) rule by simp
  obtain a where a: "map_of ms ''audit'' = Some (JObject a)"
    using assms(1) by (auto simp: rule build_procedure_def split: option.splits if_splits)
  have aok: "json_ok (JObject a)" using json_ok_member [OF ok a] .
  let ?p0 = "Procedure_init\<lparr>proc_audit := Some (JObject a)\<rparr>"
  obtain p1 where p1: "build_remediation ms ?p0 = Inr p1" and p: "build_parameters ms p1 = Inr p"
    using assms(1) a SetAudit_init [OF aok]
    by (auto simp: rule build_procedure_def result_simps proc_Audit_def)
  obtain r where r: "map_of ms ''remediate'' = map_option JObject r"
    and p1': "p1 = ?p0\<lparr>proc_remediation := map_option JObject r\<rparr>"
  proof (cases "map_of ms ''remediate''")
    case None
    then have "p1 = ?p0" using p1 by (simp add: build_remediation_def)
    then show ?thesis using None that [of None] by (simp add: Procedure_init_def)
  next
    case (Some v)
    then obtain rm where v: "v = JObject rm"
      using p1 by (auto simp: build_remediation_def split: if_splits)
    have "json_ok (JObject rm)" using json_ok_member [OF ok] Some v by blast
    then show ?thesis using p1 that [of "Some rm"] Some v
      by (simp add: build_remediation_def SetRemediation_new proc_Remediation_def)
  qed
  obtain ps where ps: "case map_of ms ''parameters'' of
          None \<Rightarrow> ps = []
        | Some v \<Rightarrow> \<exists>pms. v = JObject pms \<and> ProcedureParameters_ParseJson pms = Inr ps"
    and p': "p = p1\<lparr>proc_parameters := ps\<rparr>"
  proof (cases "map_of ms ''parameters''")
    case None
    then have "p = p1" using p by (simp add: build_parameters_def)
    then show ?thesis using None that [of "[]"] by (simp add: p1' Procedure_init_def)
  next
    case (Some v)
    then obtain pms ps where "v = JObject pms" "ProcedureParameters_ParseJson pms = Inr ps"
      "p = SetParameters ps p1"
      using p by (auto simp: build_parameters_def result_simps split: if_splits)
    then show ?thesis using that [of ps] Some by (simp add: SetParameters_def)
  qed
  have "payload_proc ms a r ps p"
    using a r ps by (simp add: payload_proc_def p' p1' Procedure_init_def)
  then show ?thesis using rule by blast
qed

lemma payload_proc_ok:
  assumes "payload_proc ms a r ps p" "json_ok (JObject ms)"
  shows "proc_ok p"
proof -
  have "json_ok (JObject a)"
    using assms(1) json_ok_member [OF assms(2), of "''audit''" "JObject a"] by (simp add: payload_proc_def)
  moreover have "r = Some rm \<Longrightarrow> json_ok (JObject rm)" for rm
    using assms(1) json_ok_member [OF assms(2), of "''remediate''" "JObject rm"] by (simp add: payload_proc_def)
  moreover have "om_inv ps"
    using assms(1) parse_json_members_ok
    by (fastforce simp: payload_proc_def ProcedureParameters_ParseJson_def split: option.splits)
  ultimately show ?thesis using assms(1) by (cases r) (auto simp: payload_proc_def proc_ok_def)
qed

section \<open>Setting a procedure\<close>

definition payload_rule :: "strtod_fun \<Rightarrow> string \<Rightarrow> json result" where
  "payload_rule strtod payload =
     (case JsonWrapper_FromBase64 strtod payload of
        Inr v \<Rightarrow> Inr v
      | Inl _ \<Rightarrow> JsonWrapper_FromString strtod payload)"

lemma SetProcedure_unfold:
  "SetProcedure strtod k payload db =
     (if k = [] then (Some (Error ''Rule name is empty'' EINVAL), db)
      else case and_then (payload_rule strtod payload) build_procedure of
        Inl e \<Rightarrow> (Some e, om_erase k db)
      | Inr p \<Rightarrow> (None, om_insert k p (om_erase k db)))"
  by (auto simp: SetProcedure_def payload_rule_def Let_def om_emplace_erased split: sum.splits)

lemma payload_rule_ok: "payload_rule strtod payload = Inr v \<Longrightarrow> json_ok v"
  using json_parse_string_ok
  by (auto simp: payload_rule_def JsonWrapper_FromBase64_def result_simps FromString_Inr split: sum.splits)

lemma SetProcedure_db_ok: "db_ok db \<Longrightarrow> SetProcedure strtod k payload db = (e, db') \<Longrightarrow> db_ok db'"
proof -
  assume db: "db_ok db" and set: "SetProcedure strtod k payload db = (e, db')"
  show "db_ok db'"
  proof (cases "\<exists>p. k \<noteq> [] \<and> and_then (payload_rule strtod payload) build_procedure = Inr p")
    case True
    then obtain v p where k: "k \<noteq> []" and v: "payload_rule strtod payload = Inr v"
      and p: "build_procedure v = Inr p"
      by (auto simp: result_simps)
    obtain ms a r ps where "v = JObject ms" "payload_proc ms a r ps p"
      using build_procedure_Inr [OF p payload_rule_ok [OF v]] by blast
    then have "proc_ok p" using payload_proc_ok payload_rule_ok [OF v] by blast
    then show ?thesis using set k v p db
      by (auto simp: SetProcedure_unfold intro!: db_ok_insert db_ok_erase)
  next
    case False
    then have "db' = db \<or> db' = om_erase k db"
      using set by (auto simp: SetProcedure_unfold split: if_splits sum.splits)
    then show ?thesis using db db_ok_erase by blast
  qed
qed

lemma SetProcedure_frame:
  "SetProcedure strtod k payload db = (e, db') \<Longrightarrow> k' \<noteq> k \<Longrightarrow> om_find db' k' = om_find db k'"
  by (auto simp: SetProcedure_unfold om_find_insert om_find_erase split: if_splits sum.splits)

lemma SetProcedure_error_erases:
  "SetProcedure strtod k payload db = (Some e, db') \<Longrightarrow> k \<noteq> [] \<Longrightarrow> om_find db' k = None"
  by (auto simp: SetProcedure_unfold om_find_erase split: if_splits sum.splits)

lemma SetProcedure_success:
  assumes "SetProcedure strtod k payload db = (None, db')"
  shows "\<exists>ms a r ps p. payload_rule strtod payload = Inr (JObject ms) \<and> payload_proc ms a r ps p
     \<and> om_find db' = (om_find db)(k \<mapsto> p)"
proof -
  obtain v p where v: "payload_rule strtod payload = Inr v" and p: "build_procedure v = Inr p"
    and db': "db' = om_insert k p (om_erase k db)"
    using assms by (auto simp: SetProcedure_unfold result_simps split: if_splits sum.splits)
  obtain ms a r ps where "v = JObject ms" "payload_proc ms a r ps p"
    using build_procedure_Inr [OF p payload_rule_ok [OF v]] by blast
  moreover have "om_find db' = (om_find db)(k \<mapsto> p)"
    unfolding db' by (rule om.erase_then_insert)
  ultimately show ?thesis using v by blast
qed

section \<open>Updating and running\<close>

lemma UpdateFromMap_ok:
  assumes "UpdateFromMap user p = (e, p')"
  shows "om_keys (proc_parameters p') = om_keys (proc_parameters p)
    \<and> proc_audit p' = proc_audit p \<and> proc_remediation p' = proc_remediation p
    \<and> (om_inv (proc_parameters p) \<longrightarrow> om_inv (proc_parameters p'))"
  using assms update_loop_keys update_loop_inv
  by (auto simp: UpdateFromMap_def split: prod.splits)

lemma UpdateUserParameters_ok:
  assumes "UpdateUserParameters strtod payload p = (e, p')"
  shows "om_keys (proc_parameters p') = om_keys (proc_parameters p)
    \<and> proc_audit p' = proc_audit p \<and> proc_remediation p' = proc_remediation p
    \<and> (om_inv (proc_parameters p) \<longrightarrow> om_inv (proc_parameters p'))"
  using assms UpdateFromMap_ok
  by (auto simp: UpdateUserParameters_def split: sum.splits option.splits)

lemma UpdateUserParameters_proc_ok:
  "UpdateUserParameters strtod payload p = (e, p') \<Longrightarrow> proc_ok p \<Longrightarrow> proc_ok p'"
  using UpdateUserParameters_ok [of strtod payload p e p'] by (simp add: proc_ok_def)

section \<open>Requests\<close>

datatype request = MSet "string option" string | MGet "string option"

text \<open>One request as a step from engine to engine. The reply is dropped: the session relation is
  about the state.\<close>

inductive request_step :: "'w engine_env \<Rightarrow> 'w engine \<Rightarrow> request \<Rightarrow> 'w engine \<Rightarrow> bool"
  for env where
  set_step: "MmiSet env name payload en = (r, en') \<Longrightarrow> request_step env en (MSet name payload) en'"
| get_step: "MmiGet env name en = (r, en') \<Longrightarrow> request_step env en (MGet name) en'"

inductive_cases set_stepE: "request_step env en (MSet name payload) en'"
inductive_cases get_stepE: "request_step env en (MGet name) en'"

inductive session :: "'w engine_env \<Rightarrow> 'w engine \<Rightarrow> request list \<Rightarrow> 'w engine \<Rightarrow> bool"
  for env where
  session_nil: "session env en [] en"
| session_step: "session env en rs en1 \<Longrightarrow> request_step env en1 r en2 \<Longrightarrow> session env en (rs @ [r]) en2"

lemma MmiGet_database: "MmiGet env name en = (r, en') \<Longrightarrow> mDatabase en' = mDatabase en"
  by (auto simp: MmiGet_def Let_def split: option.splits if_splits prod.splits)

definition addressed :: "string \<Rightarrow> request \<Rightarrow> string option" where
  "addressed prefix r =
     (case r of
        MSet (Some name) payload \<Rightarrow> if starts_with prefix name then Some (drop (length prefix) name) else None
      | _ \<Rightarrow> None)"

lemma InitAudit_cases:
  assumes "InitAudit strtod k payload db = (e, db')"
  shows "db' = db \<or> (\<exists>p p'. k \<noteq> [] \<and> om_find db k = Some p \<and> UpdateUserParameters strtod payload p = (e, p')
           \<and> db' = om_insert k p' db)"
  using assms by (auto simp: InitAudit_def split: if_splits option.splits prod.splits)

lemma Remediation_cases:
  assumes "Engine_ExecuteRemediation env k payload en = (r, en')"
  shows "en' = en \<or> (\<exists>p p' e. k \<noteq> [] \<and> om_find (mDatabase en) k = Some p
           \<and> UpdateUserParameters (env_strtod env) payload p = (e, p')
           \<and> mDatabase en' = om_insert k p' (mDatabase en))"
  using assms
  by (auto simp: Engine_ExecuteRemediation_def split: if_splits option.splits prod.splits)

lemma MmiSet_cases:
  assumes "MmiSet env name payload en = (r, en')"
  obtains (same) "mDatabase en' = mDatabase en"
  | (procedure) k e where "addressed procedurePrefix (MSet name payload) = Some k"
      "SetProcedure (env_strtod env) k payload (mDatabase en) = (e, mDatabase en')"
  | (update) k p p' e where "k \<noteq> []" "om_find (mDatabase en) k = Some p"
      "UpdateUserParameters (env_strtod env) payload p = (e, p')"
      "mDatabase en' = om_insert k p' (mDatabase en)"
      "addressed initPrefix (MSet name payload) = Some k \<or> addressed remediatePrefix (MSet name payload) = Some k"
proof (cases name)
  case None
  then show ?thesis using assms same by (simp add: MmiSet_def)
next
  case (Some n)
  consider "starts_with procedurePrefix n"
    | "\<not> starts_with procedurePrefix n" "starts_with initPrefix n"
    | "\<not> starts_with procedurePrefix n" "\<not> starts_with initPrefix n" "starts_with remediatePrefix n"
    | "\<not> starts_with procedurePrefix n" "\<not> starts_with initPrefix n" "\<not> starts_with remediatePrefix n"
    by blast
  then show ?thesis
  proof cases
    case 1
    let ?k = "drop (length procedurePrefix) n"
    obtain e db' where set: "SetProcedure (env_strtod env) ?k payload (mDatabase en) = (e, db')"
      by (cases "SetProcedure (env_strtod env) ?k payload (mDatabase en)")
    then have "mDatabase en' = db'"
      using assms 1 by (auto simp: MmiSet_def Some find_str_0 status_of_error_def)
    then show ?thesis using procedure [of ?k e] set 1 by (simp add: addressed_def Some)
  next
    case 2
    let ?k = "drop (length initPrefix) n"
    obtain e db' where init: "InitAudit (env_strtod env) ?k payload (mDatabase en) = (e, db')"
      by (cases "InitAudit (env_strtod env) ?k payload (mDatabase en)")
    then have "mDatabase en' = db'"
      using assms 2 by (auto simp: MmiSet_def Some find_str_0 status_of_error_def)
    then show ?thesis
      using InitAudit_cases [OF init] same update [of ?k] 2 by (auto simp: addressed_def Some)
  next
    case 3
    let ?k = "drop (length remediatePrefix) n"
    have "Engine_ExecuteRemediation env ?k payload en = (r, en')"
      using assms 3 by (simp add: MmiSet_def Some find_str_0)
    from Remediation_cases [OF this] show ?thesis
      using same update [of ?k] 3 by (auto simp: addressed_def Some)
  next
    case 4
    then show ?thesis using assms same by (simp add: MmiSet_def Some find_str_0)
  qed
qed

lemma request_step_db_ok: "request_step env en r en' \<Longrightarrow> db_ok (mDatabase en) \<Longrightarrow> db_ok (mDatabase en')"
proof (induction rule: request_step.induct)
  case (set_step name payload en r en')
  from set_step.hyps show ?case
  proof (cases rule: MmiSet_cases)
    case same
    then show ?thesis using set_step by simp
  next
    case (procedure k e)
    then show ?thesis using SetProcedure_db_ok set_step by blast
  next
    case (update k p p' e)
    then have "proc_ok p" using set_step by (auto simp: db_ok_def)
    then have "proc_ok p'" using UpdateUserParameters_proc_ok update(3) by blast
    then show ?thesis using db_ok_insert set_step update by simp
  qed
next
  case (get_step name en r en')
  then show ?case by (simp add: MmiGet_database)
qed

lemma session_db_ok: "session env en rs en' \<Longrightarrow> db_ok (mDatabase en) \<Longrightarrow> db_ok (mDatabase en')"
  by (induction rule: session.induct) (auto intro: request_step_db_ok)

text \<open>The names of a rule's parameters and its expressions are fixed from one \<open>procedure\<close> request
  for the rule to the next.\<close>

definition rule_shape :: "database \<Rightarrow> string \<Rightarrow> (string set \<times> json option \<times> json option) option" where
  "rule_shape db k =
     map_option (\<lambda>p. (om_keys (proc_parameters p), proc_audit p, proc_remediation p)) (om_find db k)"

lemma request_step_shape:
  assumes "request_step env en r en'" "addressed procedurePrefix r \<noteq> Some k"
  shows "rule_shape (mDatabase en') k = rule_shape (mDatabase en) k"
  using assms
proof (induction rule: request_step.induct)
  case (set_step name payload en r en')
  from set_step.hyps show ?case
  proof (cases rule: MmiSet_cases)
    case same
    then show ?thesis by simp
  next
    case (procedure k' e)
    then show ?thesis using SetProcedure_frame set_step.prems by (fastforce simp: rule_shape_def)
  next
    case (update k' p p' e)
    then show ?thesis
      using UpdateUserParameters_ok [OF update(3)] by (auto simp: rule_shape_def om_find_insert)
  qed
next
  case (get_step name en r en')
  then show ?case by (simp add: MmiGet_database)
qed

lemma session_shape:
  "session env en rs en' \<Longrightarrow> \<forall>r\<in>set rs. addressed procedurePrefix r \<noteq> Some k
   \<Longrightarrow> rule_shape (mDatabase en') k = rule_shape (mDatabase en) k"
proof (induction rule: session.induct)
  case (session_nil en)
  then show ?case by simp
next
  case (session_step en rs en1 r en2)
  then show ?case using request_step_shape [OF session_step.hyps(2), of k] by simp
qed

text \<open>Requests for a rule that has not been set change nothing.\<close>

lemma unset_rule_requests:
  assumes "om_find (mDatabase en) k = None" "k \<noteq> []"
  shows "MmiSet env (Some (''init'' @ k)) payload en = (Inl out_of_order, en)
    \<and> MmiSet env (Some (''remediate'' @ k)) payload en = (Inl out_of_order, en)
    \<and> MmiGet env (Some (''audit'' @ k)) en = (Inl (Error ''Rule not found'' EINVAL), en)
    \<and> err_code out_of_order = EINVAL"
  using assms
  by (simp add: MmiSet_def MmiGet_def InitAudit_def Engine_ExecuteRemediation_def status_of_error_def
      find_str_0 Let_def out_of_order_def)

end
