(* ===== verification/Bindings.thy ===== *)
theory Bindings
  imports EvaluatorTree StringTools
begin

text \<open>
  \<open>src/lib/Bindings.h\<close>, \<open>BindingParsers.cpp\<close>, \<open>Separated.h\<close>: from the string arguments of a rule
  to the typed parameters of a procedure. A field of a parameter structure is its name with the
  function that reads the argument of that name, if there is one, into the structure. The
  handlers turn a procedure on the structure into one on the argument map.
\<close>

section \<open>Parsers of single values\<close>

definition Parse_string :: "string \<Rightarrow> string result" where
  "Parse_string input = Inr input"

definition Parse_int :: "string \<Rightarrow> int result" where
  "Parse_int input = TryStringToInt input 10"

definition strcaseeq :: "string \<Rightarrow> string \<Rightarrow> bool" where
  "strcaseeq a b \<longleftrightarrow> map tolower a = map tolower b"

definition Parse_bool :: "string \<Rightarrow> bool result" where
  "Parse_bool input =
     (let s = takeWhile (\<lambda>c. c \<noteq> NUL) input in
      if strcaseeq ''true'' s \<or> strcaseeq ''1'' s \<or> strcaseeq ''yes'' s then Inr True
      else if strcaseeq ''false'' s \<or> strcaseeq ''0'' s \<or> strcaseeq ''no'' s then Inr False
      else Inl (Error (''Unsupported boolean value string representation: '' @ input) EINVAL))"

abbreviation LONG_MAX :: int where "LONG_MAX \<equiv> 9223372036854775807"

definition octal_error :: "string \<Rightarrow> string \<Rightarrow> error" where
  "octal_error input what = Error (''Failed to parse octal value '' @ quoted input @ '': '' @ what) EINVAL"

text \<open>\<open>mode_t\<close> has 32 bits.\<close>

definition Parse_mode :: "string \<Rightarrow> int result" where
  "Parse_mode input =
     (case strtol input 8 of
        None \<Rightarrow> Inl (octal_error input ''stol'')
      | Some (v, consumed) \<Rightarrow>
          if v < - LONG_MAX - 1 \<or> LONG_MAX < v then Inl (octal_error input ''stol'')
          else if consumed \<noteq> length input then Inl (octal_error input ''Unconsumed suffix in octal value'')
          else if v < 0 then Inl (octal_error input ''Negative octal value'')
          else if UINT_MAX < v then Inl (octal_error input ''Octal value out of range for mode_t'')
          else Inr v)"

text \<open>\<open>Separated<T, c>::Parse\<close>: one item per \<open>getline\<close>.\<close>

fun getlines :: "nat \<Rightarrow> char \<Rightarrow> string \<Rightarrow> string list" where
  "getlines 0 c s = []"
| "getlines (Suc k) c s = (case getline c s of None \<Rightarrow> [] | Some (item, rest) \<Rightarrow> item # getlines k c rest)"

definition Parse_separated :: "char \<Rightarrow> (string \<Rightarrow> 'a result) \<Rightarrow> string \<Rightarrow> 'a list result" where
  "Parse_separated c parse input = map_result parse (getlines (Suc (length input)) c input)"

definition Separated_ToString :: "char \<Rightarrow> ('a \<Rightarrow> string) \<Rightarrow> 'a list \<Rightarrow> string" where
  "Separated_ToString c show items =
     foldl (\<lambda>a b. a @ (if length a > 0 then [c] else []) @ show b) [] items"

text \<open>An enumeration: the table of \<open>MapEnum\<close>.\<close>

definition Parse_enum :: "(string \<times> 'a) list \<Rightarrow> string \<Rightarrow> 'a result" where
  "Parse_enum table input =
     (case map_of table input of
        None \<Rightarrow> Inl (Error (''Invalid value '' @ quoted input @ '' for enumeration parameter'') EINVAL)
      | Some v \<Rightarrow> Inr v)"

section \<open>Structures\<close>

type_synonym 'p field = "string \<times> (string option \<Rightarrow> 'p \<Rightarrow> 'p result)"

definition optional_field :: "string \<Rightarrow> (string \<Rightarrow> 'a result) \<Rightarrow> ('a option \<Rightarrow> 'p \<Rightarrow> 'p) \<Rightarrow> 'p field" where
  "optional_field key parse store =
     (key, \<lambda>raw p. case raw of
        None \<Rightarrow> Inr p
      | Some s \<Rightarrow> and_then (parse s) (\<lambda>v. Inr (store (Some v) p)))"

definition required_field :: "string \<Rightarrow> (string \<Rightarrow> 'a result) \<Rightarrow> ('a \<Rightarrow> 'p \<Rightarrow> 'p) \<Rightarrow> 'p field" where
  "required_field key parse store =
     (key, \<lambda>raw p. case raw of
        None \<Rightarrow> Inl (Error (''Missing required '' @ quoted key @ '' parameter'') EINVAL)
      | Some s \<Rightarrow> and_then (parse s) (\<lambda>v. Inr (store v p)))"

fun ParseParameterAt :: "'p field list \<Rightarrow> parameter_map \<Rightarrow> 'p \<Rightarrow> 'p result" where
  "ParseParameterAt [] args p = Inr p"
| "ParseParameterAt ((key, read) # flds) args p =
     and_then (read (om_find args key) p) (ParseParameterAt flds args)"

definition unknown_parameter :: "'p field list \<Rightarrow> string \<times> string \<Rightarrow> error option" where
  "unknown_parameter flds arg =
     (if fst arg \<in> set (map fst flds) then None
      else Some (Error (''Unknown parameter '' @ quoted (fst arg)) EINVAL))"

definition too_many_arguments :: error where
  "too_many_arguments = Error ''Too many arguments provided'' EINVAL"

definition ParseArguments :: "'p field list \<Rightarrow> 'p \<Rightarrow> parameter_map \<Rightarrow> 'p result" where
  "ParseArguments flds init args =
     (if length flds < length args then Inl too_many_arguments
      else unless_error (first_error (unknown_parameter flds) args) (ParseParameterAt flds args init))"

section \<open>Handlers\<close>

definition ParametrizedProcedureHandler ::
  "'p field list \<Rightarrow> 'p \<Rightarrow> ('p \<Rightarrow> indicators_tree \<Rightarrow> 'w \<Rightarrow> 'w outcome) \<Rightarrow> 'w action_func" where
  "ParametrizedProcedureHandler flds init procedure args it w =
     (case ParseArguments flds init args of
        Inl e \<Rightarrow> (Inl e, it, w)
      | Inr p \<Rightarrow> procedure p it w)"

definition UnparametrizedProcedureHandler :: "(indicators_tree \<Rightarrow> 'w \<Rightarrow> 'w outcome) \<Rightarrow> 'w action_func" where
  "UnparametrizedProcedureHandler procedure args it w =
     (if args \<noteq> [] then (Inl too_many_arguments, it, w) else procedure it w)"

section \<open>Properties\<close>

lemma ParseArguments_keys:
  assumes "ParseArguments flds init args = Inr p"
  shows "om_keys args \<subseteq> fst ` set flds"
  using assms
  by (auto simp: ParseArguments_def result_simps unknown_parameter_def om_keys_def split: if_splits)

lemma ParseParameterAt_required:
  assumes "ParseParameterAt flds args p = Inr q" "(key, read) \<in> set flds"
  shows "\<exists>p1 p2. read (om_find args key) p1 = Inr p2"
  using assms by (induction flds args p rule: ParseParameterAt.induct) (auto simp: result_simps)

lemma ParseArguments_required:
  assumes "ParseArguments flds init args = Inr p" "required_field key parse store \<in> set flds"
  shows "\<exists>s v. om_find args key = Some s \<and> parse s = Inr v"
proof -
  have "ParseParameterAt flds args init = Inr p"
    using assms(1) by (auto simp: ParseArguments_def result_simps split: if_splits)
  from ParseParameterAt_required [OF this, of key "snd (required_field key parse store)"]
  show ?thesis using assms(2)
    by (auto simp: required_field_def result_simps split: option.splits)
qed

lemma handler_contract:
  assumes "\<And>p. procedure_contract (procedure p)"
  shows "procedure_contract (ParametrizedProcedureHandler flds init procedure args)"
proof
  fix n ps w s it w'
  assume "ParametrizedProcedureHandler flds init procedure args (open_tree n ps) w = (Inr s, it, w')"
  then obtain p where "procedure p (open_tree n ps) w = (Inr s, it, w')"
    by (auto simp: ParametrizedProcedureHandler_def split: sum.splits)
  then show "\<exists>n'. it = open_tree n' ps \<and> grown n n'"
    by (rule procedure_contract.success_grows [OF assms])
qed

lemma Parse_mode_bounds: "Parse_mode s = Inr m \<Longrightarrow> 0 \<le> m \<and> m < 2 ^ 32"
  by (auto simp: Parse_mode_def split: option.splits if_splits)

text \<open>A separated list reads back what was written, when no item contains the separator and the
  last one is not empty.\<close>

lemma getline_Cons: "c \<notin> set a \<Longrightarrow> getline c (a @ c # b) = Some (a, b)"
  by (simp add: getline_def str_simps)

lemma getline_last: "c \<notin> set a \<Longrightarrow> a \<noteq> [] \<Longrightarrow> getline c a = Some (a, [])"
  by (simp add: getline_def str_simps)

fun joined :: "char \<Rightarrow> string list \<Rightarrow> string" where
  "joined c [] = []"
| "joined c [a] = a"
| "joined c (a # b # bs) = a @ c # joined c (b # bs)"

lemma getlines_joined:
  assumes "\<forall>a\<in>set items. c \<notin> set a" "items = [] \<or> last items \<noteq> []" "length (joined c items) < k"
  shows "getlines k c (joined c items) = items"
  using assms
proof (induction c items arbitrary: k rule: joined.induct)
  case (1 c)
  then show ?case by (cases k) (simp_all add: getline_def)
next
  case (2 c a)
  then show ?case
    by (cases k; cases "k - 1") (simp_all add: getline_last, simp add: getline_def)
next
  case (3 c a b bs)
  then obtain j where k: "k = Suc j" by (cases k) auto
  have "getlines j c (joined c (b # bs)) = b # bs"
    using 3 k by (intro "3.IH") auto
  then show ?case using 3 by (simp add: k getline_Cons)
qed

lemma Parse_separated_joined:
  assumes "\<forall>a\<in>set items. c \<notin> set a" "items = [] \<or> last items \<noteq> []"
  shows "Parse_separated c Parse_string (joined c items) = Inr items"
proof -
  have "map_result Parse_string xs = Inr xs" for xs
    by (induction xs) (simp_all add: Parse_string_def)
  then show ?thesis
    unfolding Parse_separated_def getlines_joined [OF assms lessI] by blast
qed

text \<open>The comparison reads the C string, so anything behind a NUL character is ignored.\<close>

lemma Parse_bool_ignores_suffix: "Parse_bool (''true'' @ NUL # x) = Inr True"
  by (simp add: Parse_bool_def strcaseeq_def Let_def)

text \<open>A procedure receives only declared parameters, all the required ones, each as its parser reads it.\<close>

lemma ParseArguments_accepts:
  assumes "ParseArguments flds init args = Inr p"
  shows "om_keys args \<subseteq> fst ` set flds \<and> length args \<le> length flds
    \<and> (\<forall>key parse store. required_field key parse store \<in> set flds
         \<longrightarrow> (\<exists>s v. om_find args key = Some s \<and> parse s = Inr v))"
  using assms ParseArguments_keys [OF assms] ParseArguments_required [OF assms]
  by (fastforce simp: ParseArguments_def split: if_splits)

end
