(* ===== verification/TestingProcedures.thy ===== *)
theory TestingProcedures
  imports Bindings
begin

text \<open>
  \<open>src/lib/procedures/TestingProcedures.cpp\<close> with its entries of the generated
  \<open>ProcedureMap.cpp\<close>: the procedures with a fixed outcome that rules use as controls. They are
  the first providers of the procedure contract.
\<close>

record testing_params =
  tp_message :: "string option"

definition TestingProcedureParams_fields :: "testing_params field list" where
  "TestingProcedureParams_fields =
     [optional_field ''message'' Parse_string (\<lambda>v p. p\<lparr>tp_message := v\<rparr>)]"

definition TestingProcedureParams_init :: testing_params where
  "TestingProcedureParams_init = \<lparr>tp_message = None\<rparr>"

text \<open>A procedure that reports its message, if any, with a fixed status.\<close>

definition with_message :: "status \<Rightarrow> testing_params \<Rightarrow> indicators_tree \<Rightarrow> 'w \<Rightarrow> 'w outcome" where
  "with_message s params it w =
     (case tp_message params of
        Some m \<Rightarrow> (case AddIndicator m s it of (s', it') \<Rightarrow> (Inr s', it', w))
      | None \<Rightarrow> (Inr s, it, w))"

definition RemediateRemediationFailure :: "testing_params \<Rightarrow> indicators_tree \<Rightarrow> 'w \<Rightarrow> 'w outcome" where
  "RemediateRemediationFailure = with_message NonCompliant"

definition RemediateRemediationNotApplicable :: "testing_params \<Rightarrow> indicators_tree \<Rightarrow> 'w \<Rightarrow> 'w outcome" where
  "RemediateRemediationNotApplicable = with_message NotApplicable"

definition RemediateRemediationSuccess :: "testing_params \<Rightarrow> indicators_tree \<Rightarrow> 'w \<Rightarrow> 'w outcome" where
  "RemediateRemediationSuccess = with_message Compliant"

definition AuditAuditFailure :: "testing_params \<Rightarrow> indicators_tree \<Rightarrow> 'w \<Rightarrow> 'w outcome" where
  "AuditAuditFailure = with_message NonCompliant"

definition AuditAuditSuccess :: "testing_params \<Rightarrow> indicators_tree \<Rightarrow> 'w \<Rightarrow> 'w outcome" where
  "AuditAuditSuccess = with_message Compliant"

definition AuditAuditNotApplicable :: "testing_params \<Rightarrow> indicators_tree \<Rightarrow> 'w \<Rightarrow> 'w outcome" where
  "AuditAuditNotApplicable = with_message NotApplicable"

record parametrized_params =
  pp_result :: string

definition TestingProcedureParametrizedParams_fields :: "parametrized_params field list" where
  "TestingProcedureParametrizedParams_fields =
     [required_field ''result'' Parse_string (\<lambda>v p. p\<lparr>pp_result := v\<rparr>)]"

definition RemediateRemediationParametrized :: "parametrized_params \<Rightarrow> indicators_tree \<Rightarrow> 'w \<Rightarrow> 'w outcome" where
  "RemediateRemediationParametrized params it w =
     (if pp_result params = ''success'' then (Inr Compliant, it, w)
      else if pp_result params = ''failure'' then (Inr NonCompliant, it, w)
      else (Inl (Error1 (''Invalid '' @ quoted ''result'' @ '' parameter'')), it, w))"

record get_param_values_params =
  KEY1 :: "string option"
  KEY2 :: "string option"
  KEY3 :: "string option"

definition TestingProcedureGetParamValuesParams_fields :: "get_param_values_params field list" where
  "TestingProcedureGetParamValuesParams_fields =
     [optional_field ''KEY1'' Parse_string (\<lambda>v p. p\<lparr>KEY1 := v\<rparr>),
      optional_field ''KEY2'' Parse_string (\<lambda>v p. p\<lparr>KEY2 := v\<rparr>),
      optional_field ''KEY3'' Parse_string (\<lambda>v p. p\<lparr>KEY3 := v\<rparr>)]"

text \<open>The loop over the three members, with the accumulated text.\<close>

fun param_values :: "(string \<times> string option) list \<Rightarrow> bool \<Rightarrow> string \<Rightarrow> string" where
  "param_values [] first rv = rv"
| "param_values ((key, member) # keys) first rv =
     (case member of
        None \<Rightarrow> param_values keys first rv
      | Some v \<Rightarrow> param_values keys False (rv @ (if first then [] else '', '') @ key @ ''='' @ v))"

definition AuditAuditGetParamValues :: "get_param_values_params \<Rightarrow> indicators_tree \<Rightarrow> 'w \<Rightarrow> 'w outcome" where
  "AuditAuditGetParamValues params it w =
     (let rv = param_values [(''KEY1'', KEY1 params), (''KEY2'', KEY2 params), (''KEY3'', KEY3 params)] True []
      in case AddIndicator rv Compliant it of (s, it') \<Rightarrow> (Inr s, it', w))"

section \<open>Their entries in the procedure map\<close>

definition testing_handler :: "(testing_params \<Rightarrow> indicators_tree \<Rightarrow> 'w \<Rightarrow> 'w outcome) \<Rightarrow> 'w action_func" where
  "testing_handler = ParametrizedProcedureHandler TestingProcedureParams_fields TestingProcedureParams_init"

definition testing_procedure_map :: "(string \<times> 'w procedure_actions) list" where
  "testing_procedure_map =
    [(''AuditFailure'', \<lparr>audit_fn = Some (testing_handler AuditAuditFailure), remediate_fn = None\<rparr>),
     (''AuditGetParamValues'',
       \<lparr>audit_fn = Some (ParametrizedProcedureHandler TestingProcedureGetParamValuesParams_fields
           \<lparr>KEY1 = None, KEY2 = None, KEY3 = None\<rparr> AuditAuditGetParamValues), remediate_fn = None\<rparr>),
     (''AuditNotApplicable'', \<lparr>audit_fn = Some (testing_handler AuditAuditNotApplicable), remediate_fn = None\<rparr>),
     (''AuditSuccess'', \<lparr>audit_fn = Some (testing_handler AuditAuditSuccess), remediate_fn = None\<rparr>),
     (''RemediationFailure'', \<lparr>audit_fn = None, remediate_fn = Some (testing_handler RemediateRemediationFailure)\<rparr>),
     (''RemediationNotApplicable'', \<lparr>audit_fn = None, remediate_fn = Some (testing_handler RemediateRemediationNotApplicable)\<rparr>),
     (''RemediationParametrized'',
       \<lparr>audit_fn = None, remediate_fn = Some (ParametrizedProcedureHandler TestingProcedureParametrizedParams_fields
           \<lparr>pp_result = []\<rparr> RemediateRemediationParametrized)\<rparr>),
     (''RemediationSuccess'', \<lparr>audit_fn = None, remediate_fn = Some (testing_handler RemediateRemediationSuccess)\<rparr>)]"

section \<open>They keep the contract\<close>

interpretation with_message: procedure_contract "with_message s params" for s params
  by unfold_locales
    (auto simp: with_message_def AddIndicator_open split: option.splits)

interpretation parametrized: procedure_contract "RemediateRemediationParametrized params" for params
  by unfold_locales
    (auto simp: RemediateRemediationParametrized_def split: if_splits)

interpretation param_values: procedure_contract "AuditAuditGetParamValues params" for params
  by unfold_locales
    (auto simp: AuditAuditGetParamValues_def AddIndicator_open)

lemma testing_procedures_contract:
  assumes "map_of testing_procedure_map name = Some p" "select_function p act = Some fn"
  shows "procedure_contract (fn args)"
proof -
  have "map_of testing_procedure_map name = Some p \<Longrightarrow> p \<in> snd ` set testing_procedure_map"
    by (metis imageI map_of_SomeD snd_conv)
  then have "fn \<in> {f. \<exists>p\<in>snd ` set testing_procedure_map. audit_fn p = Some f \<or> remediate_fn p = Some f}"
    using assms by (auto simp: select_function_def split: if_splits option.splits)
  moreover have "\<And>s. procedure_contract (testing_handler (with_message s) args)"
    unfolding testing_handler_def by (rule handler_contract) (rule with_message.procedure_contract_axioms)
  moreover have "procedure_contract (ParametrizedProcedureHandler TestingProcedureGetParamValuesParams_fields
           \<lparr>KEY1 = None, KEY2 = None, KEY3 = None\<rparr> AuditAuditGetParamValues args)"
    by (rule handler_contract) (rule param_values.procedure_contract_axioms)
  moreover have "procedure_contract (ParametrizedProcedureHandler TestingProcedureParametrizedParams_fields
           \<lparr>pp_result = []\<rparr> RemediateRemediationParametrized args)"
    by (rule handler_contract) (rule parametrized.procedure_contract_axioms)
  ultimately show ?thesis
    by (auto simp: testing_procedure_map_def AuditAuditFailure_def AuditAuditSuccess_def
        AuditAuditNotApplicable_def RemediateRemediationFailure_def RemediateRemediationSuccess_def
        RemediateRemediationNotApplicable_def)
qed

text \<open>The evaluator over these procedures, on a build without the Lua interpreter.\<close>

definition testing_evaluator :: "parameter_map \<Rightarrow> 'w evaluator" where
  "testing_evaluator ps =
     \<lparr>mParameters = ps, mProcedureMap = map_of testing_procedure_map,
      mLuaEvaluator = (\<lambda>script act it w. (Inl (Error1 ''Lua is not available''), it, w))\<rparr>"

interpretation testing: evaluator_contract "testing_evaluator ps" for ps
proof (unfold_locales, goal_cases)
  case (1 name p act fn args n ps s it w')
  then have "map_of testing_procedure_map name = Some p" by (simp add: testing_evaluator_def)
  from testing_procedures_contract [OF this 1(2)] 1(3)
  show ?case by (rule procedure_contract.success_grows)
next
  case 2
  then show ?case by (simp add: testing_evaluator_def)
qed

end
