(* ===== verification/DistributionInfo.thy ===== *)
theory DistributionInfo
  imports OrderedMap
begin

text \<open>
  \<open>src/lib/DistributionInfo.cpp\<close>: the parser of \<open>/etc/os-release\<close> and of the override
  file, the tables of operating systems, architectures and distributions, and the text of a
  \<open>DistributionInfo\<close>. The content of a file is an argument (\<open>None\<close> when it cannot be
  opened), and so is the answer of \<open>uname\<close>. Shown: the text of a \<open>DistributionInfo\<close> is an
  override file that is read back.
\<close>

section \<open>Types and tables\<close>

datatype OSType = Linux

datatype LinuxDistribution =
  Ubuntu | Centos | RHEL | SUSE | OracleLinux | Mariner | Debian | AzureLinux | AmazonLinux
  | AlmaLinux | RockyLinux | AKS

datatype Architecture = x86_64 | aarch64

record DistributionInfo =
  osType :: OSType
  architecture :: Architecture
  distribution :: LinuxDistribution
  version :: string

definition DistributionInfo_init :: DistributionInfo where
  "DistributionInfo_init = \<lparr>osType = Linux, architecture = x86_64, distribution = Ubuntu, version = []\<rparr>"

definition GetOSTypeMap :: "(string \<times> OSType) list" where
  "GetOSTypeMap = [(''Linux'', Linux)]"

definition GetArchitectureMap :: "(string \<times> Architecture) list" where
  "GetArchitectureMap = [(''x86_64'', x86_64), (''aarch64'', aarch64)]"

definition GetDistributionMap :: "(string \<times> LinuxDistribution) list" where
  "GetDistributionMap =
     [(''ubuntu'', Ubuntu), (''centos'', Centos), (''rhel'', RHEL), (''sles'', SUSE),
      (''ol'', OracleLinux), (''mariner'', Mariner), (''debian'', Debian), (''azurelinux'', AzureLinux),
      (''amzn'', AmazonLinux), (''almalinux'', AlmaLinux), (''rocky'', RockyLinux), (''aks'', AKS)]"

text \<open>\<open>RevertMap\<close>: the first key of a value wins; a missing value is an exception.\<close>

definition RevertMap :: "('k \<times> 'v) list \<Rightarrow> ('v \<times> 'k) list" where
  "RevertMap m = map (\<lambda>(k, v). (v, k)) m"

definition to_string_OSType :: "OSType \<Rightarrow> string option" where
  "to_string_OSType x = map_of (RevertMap GetOSTypeMap) x"

definition to_string_Architecture :: "Architecture \<Rightarrow> string option" where
  "to_string_Architecture x = map_of (RevertMap GetArchitectureMap) x"

definition to_string_LinuxDistribution :: "LinuxDistribution \<Rightarrow> string option" where
  "to_string_LinuxDistribution x = map_of (RevertMap GetDistributionMap) x"

definition ParseOSType :: "string \<Rightarrow> OSType result" where
  "ParseOSType s = (case map_of GetOSTypeMap s of
     Some x \<Rightarrow> Inr x | None \<Rightarrow> Inl (Error (''Unsupported OS type: '' @ s) EINVAL))"

definition ParseArchitecture :: "string \<Rightarrow> Architecture result" where
  "ParseArchitecture s = (case map_of GetArchitectureMap s of
     Some x \<Rightarrow> Inr x | None \<Rightarrow> Inl (Error (''Unsupported architecture: '' @ s) EINVAL))"

definition ParseLinuxDistribution :: "string \<Rightarrow> LinuxDistribution result" where
  "ParseLinuxDistribution s = (case map_of GetDistributionMap s of
     Some x \<Rightarrow> Inr x | None \<Rightarrow> Inl (Error (''Unsupported Linux distribution: '' @ s) EINVAL))"

section \<open>The parser of the files\<close>

text \<open>The stream iterator is the rest of the input; advancing it at the end leaves it there. A
  comment is skipped up to its newline, which the step behind it consumes.\<close>

definition skip_comment :: "string \<Rightarrow> string" where
  "skip_comment s = tl (dropWhile (\<lambda>c. c \<noteq> NL) s)"

lemma skip_comment_length: "length (skip_comment s) \<le> length s"
  using length_dropWhile_le [of "\<lambda>c. c \<noteq> NL" s] by (simp add: skip_comment_def)

function Release_ParseKey_loop :: "string \<Rightarrow> string \<Rightarrow> bool \<Rightarrow> (string \<times> string) result" where
  "Release_ParseKey_loop [] key hasSpaces =
     (if key = [] then Inr ([], []) else Inl (Error ''Unexpected end of input while parsing a key'' EINVAL))"
| "Release_ParseKey_loop (c # s) key hasSpaces =
     (if c = CHR ''='' then
        (if key = [] then Inl (Error (''Unexpected '' @ quoted ''='' @ '' at the start of a key'') EINVAL)
         else Inr (key, s))
      else if c = CHR ''#'' then
        (if key \<noteq> [] then Inl (Error (''Unexpected comment character '' @ quoted ''#'' @ '' in a key'') EINVAL)
         else Release_ParseKey_loop (skip_comment s) key hasSpaces)
      else if isspace c then Release_ParseKey_loop s key (if key \<noteq> [] then True else hasSpaces)
      else if hasSpaces then Inl (Error ''Unexpected space in a key'' EINVAL)
      else Release_ParseKey_loop s (key @ [c]) hasSpaces)"
  by pat_completeness auto
termination by (relation "measure (\<lambda>(s, key, sp). length s)") (auto simp: le_imp_less_Suc skip_comment_length)

definition Release_ParseKey :: "string \<Rightarrow> (string \<times> string) result" where
  "Release_ParseKey input = Release_ParseKey_loop input [] False"

fun Release_ParseValue_loop :: "string \<Rightarrow> string \<Rightarrow> bool \<Rightarrow> (string \<times> string) result" where
  "Release_ParseValue_loop [] val in_quotes =
     (if in_quotes then Inl (Error ''Unexpected end of input while parsing a quoted value'' EINVAL)
      else Inr (val, []))"
| "Release_ParseValue_loop (c # s) val in_quotes =
     (if c = DQ then
        (if in_quotes then Inr (val, s)
         else if val \<noteq> [] then Inl (Error ''Unexpected quote character past the start of value'' EINVAL)
         else Release_ParseValue_loop s val True)
      else if c = CHR ''#'' \<and> \<not> in_quotes then Inr (val, skip_comment s)
      else if isspace c then
        (if \<not> in_quotes then Inr (val, s) else Release_ParseValue_loop s val in_quotes)
      else Release_ParseValue_loop s (val @ [c]) in_quotes)"

definition Release_ParseValue :: "string \<Rightarrow> (string \<times> string) result" where
  "Release_ParseValue input = Release_ParseValue_loop input [] False"

lemma Release_ParseKey_loop_rest:
  "Release_ParseKey_loop s key sp = Inr (k, r) \<Longrightarrow> k \<noteq> [] \<Longrightarrow> length r < length s"
  by (induction s key sp rule: Release_ParseKey_loop.induct)
     (auto split: if_splits intro: less_SucI dest: order_less_le_trans [OF _ skip_comment_length])

lemma Release_ParseValue_loop_rest: "Release_ParseValue_loop s val q = Inr (v, r) \<Longrightarrow> length r \<le> length s"
  by (induction s val q rule: Release_ParseValue_loop.induct)
     (auto split: if_splits intro: le_SucI skip_comment_length)

function ParseInfo_loop :: "string \<Rightarrow> (string, string) omap \<Rightarrow> (string, string) omap result" where
  "ParseInfo_loop input m =
     (if input = [] then Inr m
      else case Release_ParseKey input of
        Inl e \<Rightarrow> Inl e
      | Inr (key, rest) \<Rightarrow>
          if key = [] then Inr m
          else (case Release_ParseValue rest of
                  Inl e \<Rightarrow> Inl e
                | Inr (val, rest') \<Rightarrow> ParseInfo_loop rest' (om_insert key val m)))"
  by pat_completeness auto
termination
  by (relation "measure (\<lambda>(s, m). length s)")
     (auto simp: Release_ParseKey_def Release_ParseValue_def dest!: Release_ParseKey_loop_rest Release_ParseValue_loop_rest)

declare ParseInfo_loop.simps [simp del]

type_synonym file_system = "string \<Rightarrow> string option"

definition ParseDistributionInfoFile :: "file_system \<Rightarrow> string \<Rightarrow> (string, string) omap result" where
  "ParseDistributionInfoFile files path =
     (case files path of
        None \<Rightarrow> Inl (Error (''Failed to open '' @ path) ENOENT)
      | Some content \<Rightarrow> ParseInfo_loop content [])"

section \<open>Distribution information\<close>

text \<open>\<open>uname\<close> gives the system name and the machine, or an error number with its text.\<close>

type_synonym uname_result = "(int \<times> string) + (string \<times> string)"

definition ParseEtcOsRelease :: "file_system \<Rightarrow> uname_result \<Rightarrow> string \<Rightarrow> DistributionInfo result" where
  "ParseEtcOsRelease files unm path =
     and_then (ParseDistributionInfoFile files path) (\<lambda>osReleaseInfo.
     case om_find osReleaseInfo ''ID'' of
       None \<Rightarrow> Inl (Error (path @ '' does not contain '' @ quoted ''ID'' @ '' field'') EINVAL)
     | Some i \<Rightarrow> and_then (ParseLinuxDistribution i) (\<lambda>d.
     case om_find osReleaseInfo ''VERSION_ID'' of
       None \<Rightarrow> Inl (Error (path @ '' does not contain '' @ quoted ''VERSION_ID'' @ '' field'') EINVAL)
     | Some v \<Rightarrow>
     (case unm of
       Inl (code, text) \<Rightarrow> Inl (Error (''Failed to get system information: '' @ text) code)
     | Inr (sysname, machine) \<Rightarrow>
         and_then (ParseOSType sysname) (\<lambda>os.
         and_then (ParseArchitecture machine) (\<lambda>arch.
           Inr \<lparr>osType = os, architecture = arch, distribution = d, version = v\<rparr>)))))"

definition missing_field :: "string \<Rightarrow> string \<Rightarrow> error" where
  "missing_field path name = Error (path @ '' file does not contain '' @ quoted name @ '' field'') EINVAL"

definition ParseOverrideFile :: "file_system \<Rightarrow> string \<Rightarrow> DistributionInfo result" where
  "ParseOverrideFile files path =
     and_then (ParseDistributionInfoFile files path) (\<lambda>osReleaseInfo.
     case om_find osReleaseInfo ''OS'' of
       None \<Rightarrow> Inl (missing_field path ''OS'')
     | Some o' \<Rightarrow> and_then (ParseOSType o') (\<lambda>os.
     case om_find osReleaseInfo ''ARCH'' of
       None \<Rightarrow> Inl (missing_field path ''ARCH'')
     | Some a \<Rightarrow> and_then (ParseArchitecture a) (\<lambda>arch.
     case om_find osReleaseInfo ''DISTRO'' of
       None \<Rightarrow> Inl (missing_field path ''DISTRO'')
     | Some d \<Rightarrow> and_then (ParseLinuxDistribution d) (\<lambda>distro.
     case om_find osReleaseInfo ''VERSION'' of
       None \<Rightarrow> Inl (missing_field path ''VERSION'')
     | Some v \<Rightarrow> Inr \<lparr>osType = os, architecture = arch, distribution = distro, version = v\<rparr>))))"

definition to_string_DistributionInfo :: "DistributionInfo \<Rightarrow> string" where
  "to_string_DistributionInfo x =
     ''OS='' @ [DQ] @ the (to_string_OSType (osType x)) @ [DQ]
     @ '' ARCH='' @ [DQ] @ the (to_string_Architecture (architecture x)) @ [DQ]
     @ '' DISTRO='' @ [DQ] @ the (to_string_LinuxDistribution (distribution x)) @ [DQ]
     @ '' VERSION='' @ [DQ] @ version x @ [DQ]"

section \<open>The tables are inverse to each other\<close>

lemma to_string_OSType_some: "\<exists>s. to_string_OSType x = Some s"
  by (cases x) (simp add: to_string_OSType_def RevertMap_def GetOSTypeMap_def)

lemma to_string_Architecture_some: "\<exists>s. to_string_Architecture x = Some s"
  by (cases x) (simp_all add: to_string_Architecture_def RevertMap_def GetArchitectureMap_def)

lemma to_string_LinuxDistribution_some: "\<exists>s. to_string_LinuxDistribution x = Some s"
  by (cases x) (simp_all add: to_string_LinuxDistribution_def RevertMap_def GetDistributionMap_def)

lemma ParseOSType_iff: "ParseOSType s = Inr x \<longleftrightarrow> to_string_OSType x = Some s"
  by (cases x) (auto simp: ParseOSType_def to_string_OSType_def RevertMap_def GetOSTypeMap_def)

lemma ParseArchitecture_iff: "ParseArchitecture s = Inr x \<longleftrightarrow> to_string_Architecture x = Some s"
  by (cases x) (auto simp: ParseArchitecture_def to_string_Architecture_def RevertMap_def GetArchitectureMap_def)

lemma ParseLinuxDistribution_iff:
  "ParseLinuxDistribution s = Inr x \<longleftrightarrow> to_string_LinuxDistribution x = Some s"
  by (cases x)
     (auto simp: ParseLinuxDistribution_def to_string_LinuxDistribution_def RevertMap_def GetDistributionMap_def)

text \<open>Names in the tables are words: no quotes, spaces or slashes.\<close>

definition table_word :: "string \<Rightarrow> bool" where
  "table_word s \<longleftrightarrow> s \<noteq> [] \<and> (\<forall>c\<in>set s. c \<noteq> DQ \<and> c \<noteq> CHR ''/'' \<and> \<not> isspace c)"

lemma table_word_OSType: "to_string_OSType x = Some s \<Longrightarrow> table_word s"
  by (cases x) (auto simp: to_string_OSType_def RevertMap_def GetOSTypeMap_def table_word_def isspace_def)

lemma table_word_Architecture: "to_string_Architecture x = Some s \<Longrightarrow> table_word s"
  by (cases x) (auto simp: to_string_Architecture_def RevertMap_def GetArchitectureMap_def table_word_def isspace_def)

lemma table_word_LinuxDistribution: "to_string_LinuxDistribution x = Some s \<Longrightarrow> table_word s"
  by (cases x) (auto simp: to_string_LinuxDistribution_def RevertMap_def GetDistributionMap_def table_word_def isspace_def)

section \<open>Reading back the text of a DistributionInfo\<close>

lemma Release_ParseValue_loop_quoted:
  "DQ \<notin> set v \<Longrightarrow> Release_ParseValue_loop (v @ DQ # s) acc True = Inr (acc @ filter (\<lambda>c. \<not> isspace c) v, s)"
  by (induction v arbitrary: acc) auto

lemma Release_ParseValue_quoted:
  "DQ \<notin> set v \<Longrightarrow> Release_ParseValue (DQ # v @ DQ # s) = Inr (filter (\<lambda>c. \<not> isspace c) v, s)"
  by (simp add: Release_ParseValue_def Release_ParseValue_loop_quoted)

lemma filter_table_word [simp]: "table_word s \<Longrightarrow> filter (\<lambda>c. \<not> isspace c) s = s"
  by (simp add: table_word_def)

lemma table_word_DQ [simp]: "table_word s \<Longrightarrow> DQ \<notin> set s"
  by (auto simp: table_word_def)

definition plain_key :: "string \<Rightarrow> bool" where
  "plain_key k \<longleftrightarrow> k \<noteq> [] \<and> (\<forall>c\<in>set k. c \<noteq> CHR ''='' \<and> c \<noteq> CHR ''#'' \<and> \<not> isspace c)"

lemma Release_ParseKey_loop_plain:
  "(\<forall>c\<in>set k. c \<noteq> CHR ''='' \<and> c \<noteq> CHR ''#'' \<and> \<not> isspace c) \<Longrightarrow> acc @ k \<noteq> []
   \<Longrightarrow> Release_ParseKey_loop (k @ CHR ''='' # s) acc False = Inr (acc @ k, s)"
  by (induction k arbitrary: acc) auto

lemma Release_ParseKey_plain: "plain_key k \<Longrightarrow> Release_ParseKey (k @ CHR ''='' # s) = Inr (k, s)"
  by (simp add: plain_key_def Release_ParseKey_def Release_ParseKey_loop_plain)

lemma Release_ParseKey_space: "Release_ParseKey (CHR '' '' # s) = Release_ParseKey s"
  by (simp add: Release_ParseKey_def isspace_def)

lemma ParseInfo_loop_Nil: "ParseInfo_loop [] m = Inr m"
  by (subst ParseInfo_loop.simps) simp

lemma ParseInfo_loop_pair:
  assumes "Release_ParseKey input = Inr (key, DQ # v @ DQ # rest)" "key \<noteq> []" "DQ \<notin> set v"
  shows "ParseInfo_loop input m = ParseInfo_loop rest (om_insert key (filter (\<lambda>c. \<not> isspace c) v) m)"
proof -
  have "input \<noteq> []" using assms(1,2) by (cases input) (auto simp: Release_ParseKey_def)
  then show ?thesis
    using assms by (subst ParseInfo_loop.simps) (simp add: Release_ParseValue_quoted)
qed

lemma ParseInfo_loop_entry:
  assumes "plain_key key" "DQ \<notin> set v"
  shows "ParseInfo_loop (key @ CHR ''='' # DQ # v @ DQ # rest) m =
      ParseInfo_loop rest (om_insert key (filter (\<lambda>c. \<not> isspace c) v) m)"
    and "ParseInfo_loop (CHR '' '' # key @ CHR ''='' # DQ # v @ DQ # rest) m =
      ParseInfo_loop rest (om_insert key (filter (\<lambda>c. \<not> isspace c) v) m)"
proof -
  have "key \<noteq> []" using assms(1) by (simp add: plain_key_def)
  then show "ParseInfo_loop (key @ CHR ''='' # DQ # v @ DQ # rest) m =
      ParseInfo_loop rest (om_insert key (filter (\<lambda>c. \<not> isspace c) v) m)"
    and "ParseInfo_loop (CHR '' '' # key @ CHR ''='' # DQ # v @ DQ # rest) m =
      ParseInfo_loop rest (om_insert key (filter (\<lambda>c. \<not> isspace c) v) m)"
    by (rule ParseInfo_loop_pair [rotated]; simp add: assms Release_ParseKey_space Release_ParseKey_plain)+
qed

lemma override_keys: "plain_key ''OS''" "plain_key ''ARCH''" "plain_key ''DISTRO''" "plain_key ''VERSION''"
  by (simp_all add: plain_key_def isspace_def)

lemma ParseInfo_loop_text:
  assumes "table_word a" "table_word b" "table_word c" "DQ \<notin> set v"
  shows "ParseInfo_loop (''OS='' @ [DQ] @ a @ [DQ] @ '' ARCH='' @ [DQ] @ b @ [DQ] @ '' DISTRO='' @ [DQ] @ c @ [DQ]
           @ '' VERSION='' @ [DQ] @ v @ [DQ]) [] =
    Inr (om_insert ''VERSION'' (filter (\<lambda>c. \<not> isspace c) v)
      (om_insert ''DISTRO'' c (om_insert ''ARCH'' b (om_insert ''OS'' a []))))"
proof -
  have filters: "filter (\<lambda>c. \<not> isspace c) a = a" "filter (\<lambda>c. \<not> isspace c) b = b" "filter (\<lambda>c. \<not> isspace c) c = c"
    using assms by simp_all
  have dq: "DQ \<notin> set a" "DQ \<notin> set b" "DQ \<notin> set c" using assms by simp_all
  have 4: "ParseInfo_loop ('' VERSION='' @ [DQ] @ v @ [DQ]) m =
      Inr (om_insert ''VERSION'' (filter (\<lambda>c. \<not> isspace c) v) m)" for m
    using ParseInfo_loop_entry(2) [OF override_keys(4) assms(4), of "[]" m] by (simp add: ParseInfo_loop_Nil)
  have 3: "ParseInfo_loop ('' DISTRO='' @ [DQ] @ c @ [DQ] @ r) m = ParseInfo_loop r (om_insert ''DISTRO'' c m)" for r m
    using ParseInfo_loop_entry(2) [OF override_keys(3) dq(3), of r m] by (simp only: filters) simp
  have 2: "ParseInfo_loop ('' ARCH='' @ [DQ] @ b @ [DQ] @ r) m = ParseInfo_loop r (om_insert ''ARCH'' b m)" for r m
    using ParseInfo_loop_entry(2) [OF override_keys(2) dq(2), of r m] by (simp only: filters) simp
  have 1: "ParseInfo_loop (''OS='' @ [DQ] @ a @ [DQ] @ r) m = ParseInfo_loop r (om_insert ''OS'' a m)" for r m
    using ParseInfo_loop_entry(1) [OF override_keys(1) dq(1), of r m] by (simp only: filters) simp
  show ?thesis by (simp only: 1 2 3 4)
qed

lemma override_file_text:
  assumes "files path = Some (to_string_DistributionInfo x)" and "DQ \<notin> set (version x)"
  shows "ParseOverrideFile files path = Inr (x\<lparr>version := filter (\<lambda>c. \<not> isspace c) (version x)\<rparr>)"
proof -
  obtain a b c where names: "to_string_OSType (osType x) = Some a" "to_string_Architecture (architecture x) = Some b"
    "to_string_LinuxDistribution (distribution x) = Some c"
    using to_string_OSType_some to_string_Architecture_some to_string_LinuxDistribution_some by blast
  note words = table_word_OSType [OF names(1)] table_word_Architecture [OF names(2)] table_word_LinuxDistribution [OF names(3)]
  have "ParseDistributionInfoFile files path =
      Inr (om_insert ''VERSION'' (filter (\<lambda>c. \<not> isspace c) (version x))
        (om_insert ''DISTRO'' c (om_insert ''ARCH'' b (om_insert ''OS'' a []))))"
    using ParseInfo_loop_text [OF words assms(2)] assms(1) names
    by (simp add: ParseDistributionInfoFile_def to_string_DistributionInfo_def)
  then show ?thesis
    using names by (simp add: ParseOverrideFile_def om_find_insert ParseOSType_iff [THEN iffD2]
        ParseArchitecture_iff [THEN iffD2] ParseLinuxDistribution_iff [THEN iffD2])
qed

end
