(* ===== verification/BenchmarkInfo.thy ===== *)
theory BenchmarkInfo
  imports DistributionInfo
begin

text \<open>
  \<open>src/lib/BenchmarkInfo.cpp\<close>: the identity of a benchmark, its payload key, and the test
  whether it applies to a distribution. \<open>fnmatch\<close> is modelled for flags 0 and patterns without
  brackets in the C locale, the patterns that \<open>ValidateGlobbing\<close> lets through. Shown: the parser
  of payload keys is the inverse of \<open>to_string\<close>, and a sanitized version satisfies its pattern
  exactly if the pattern has no lone backslash at its end.
\<close>

record BenchmarkInfo =
  framework :: string
  bi_distribution :: LinuxDistribution
  bi_version :: string
  benchmarkVersion :: string
  bi_section :: string

text \<open>\<open>strchr\<close> also finds the NUL that ends its string.\<close>

definition ValidateGlobbing :: "string \<Rightarrow> error option" where
  "ValidateGlobbing v =
     (if \<exists>c\<in>set v. c \<in> {CHR ''['', CHR '']'', CHR ''{'', CHR ''}'', NUL}
      then Some (Error (''Invalid benchmark distribution version: '' @ v
              @ ''. Globbing characters [ ] { } are not allowed.'') EINVAL)
      else None)"

text \<open>One \<open>getline\<close> up to a slash whose token must not be empty.\<close>

definition next_token :: "string \<Rightarrow> string \<Rightarrow> (string \<times> string) result" where
  "next_token msg s =
     (case getline (CHR ''/'') s of
        None \<Rightarrow> Inl (Error msg EINVAL)
      | Some (t, rest) \<Rightarrow> if t = [] then Inl (Error msg EINVAL) else Inr (t, rest))"

definition BenchmarkInfo_Parse :: "string \<Rightarrow> BenchmarkInfo result" where
  "BenchmarkInfo_Parse payloadKey =
     (case getline (CHR ''/'') payloadKey of
        None \<Rightarrow> Inl (Error (''Invalid payload key format: must start with '' @ quoted ''/'') EINVAL)
      | Some (token, s1) \<Rightarrow>
     if token \<noteq> [] then Inl (Error (''Invalid payload key format: must start with '' @ quoted ''/'') EINVAL)
     else and_then (next_token ''Invalid payload key format: missing benchmark framework'' s1) (\<lambda>(fw, s2).
     (case getline (CHR ''/'') s2 of
        None \<Rightarrow> Inl (Error ''Invalid benchmark payload key format: missing distribution'' EINVAL)
      | Some (token, s3) \<Rightarrow>
     and_then (ParseLinuxDistribution token) (\<lambda>d.
     and_then (next_token ''Invalid benchmark payload key format: missing distribution version'' s3) (\<lambda>(v, s4).
     unless_error (ValidateGlobbing v)
     (and_then (next_token ''Invalid benchmark payload key format: missing benchmark version'' s4) (\<lambda>(bv, s5).
     (case getline NL s5 of
        None \<Rightarrow> Inl (Error ''Invalid benchmark payload key format: missing benchmark section'' EINVAL)
      | Some (sec, s6) \<Rightarrow>
        if sec = [] then Inl (Error ''Invalid benchmark payload key format: missing benchmark section'' EINVAL)
        else Inr \<lparr>framework = fw, bi_distribution = d, bi_version = v, benchmarkVersion = bv, bi_section = sec\<rparr>))))))))"

definition FromMetadata :: "string \<Rightarrow> string \<Rightarrow> string \<Rightarrow> string \<Rightarrow> BenchmarkInfo result" where
  "FromMetadata fw d v bv =
     (if fw = [] then Inl (Error ''Benchmark framework must not be empty'' EINVAL)
      else and_then (ParseLinuxDistribution d) (\<lambda>distro.
        if v = [] then Inl (Error ''Benchmark distribution version must not be empty'' EINVAL)
        else unless_error (ValidateGlobbing v)
          (if bv = [] then Inl (Error ''Benchmark version must not be empty'' EINVAL)
           else Inr \<lparr>framework = fw, bi_distribution = distro, bi_version = v, benchmarkVersion = bv, bi_section = []\<rparr>)))"

function fnmatch :: "string \<Rightarrow> string \<Rightarrow> bool" where
  "fnmatch [] s = (s = [])"
| "fnmatch (p # ps) s =
     (if p = CHR ''*'' then fnmatch ps s \<or> (case s of [] \<Rightarrow> False | x # t \<Rightarrow> fnmatch (p # ps) t)
      else if p = CHR ''?'' then (case s of [] \<Rightarrow> False | x # t \<Rightarrow> fnmatch ps t)
      else if p = BSL then
        (case ps of [] \<Rightarrow> False
         | q # qs \<Rightarrow> (case s of [] \<Rightarrow> False | x # t \<Rightarrow> x = q \<and> fnmatch qs t))
      else (case s of [] \<Rightarrow> False | x # t \<Rightarrow> x = p \<and> fnmatch ps t))"
  by pat_completeness auto
termination by (relation "measure (\<lambda>(p, s). length p + length s)") auto

definition BenchmarkInfo_Match :: "BenchmarkInfo \<Rightarrow> DistributionInfo \<Rightarrow> bool" where
  "BenchmarkInfo_Match b di =
     (distribution di = bi_distribution b \<and> fnmatch (c_str (bi_version b)) (c_str (version di)))"

fun sanitize :: "string \<Rightarrow> string" where
  "sanitize [] = []"
| "sanitize [c] = (if c = BSL \<or> c = CHR ''*'' then [] else if c = CHR ''?'' then ''x'' else [c])"
| "sanitize (c # d # s) =
     (if c = BSL then d # sanitize s
      else if c = CHR ''*'' then sanitize (d # s)
      else if c = CHR ''?'' then CHR ''x'' # sanitize (d # s)
      else c # sanitize (d # s))"

definition SanitizedVersion :: "BenchmarkInfo \<Rightarrow> string" where
  "SanitizedVersion b = sanitize (bi_version b)"

definition to_string_BenchmarkInfo :: "BenchmarkInfo \<Rightarrow> string" where
  "to_string_BenchmarkInfo b =
     ''/'' @ framework b @ ''/'' @ the (to_string_LinuxDistribution (bi_distribution b)) @ ''/'' @ bi_version b @ ''/''
     @ benchmarkVersion b @ ''/'' @ bi_section b"

section \<open>Payload keys\<close>

lemma span_until_Pair:
  "span_until c s = (a, b) \<Longrightarrow> c \<notin> set a \<and> (s = a @ c # b \<or> s = a \<and> b = [])"
  by (induction s arbitrary: a) (auto split: if_splits prod.splits)

lemma getline_Some:
  "getline c s = Some (a, b) \<Longrightarrow> s \<noteq> [] \<and> c \<notin> set a \<and> (s = a @ c # b \<or> s = a \<and> b = [])"
  using span_until_Pair [of c s a b] by (simp add: getline_def split: if_splits)

lemma next_token_Inr:
  "next_token msg s = Inr (t, r) \<Longrightarrow>
     t \<noteq> [] \<and> CHR ''/'' \<notin> set t \<and> (s = t @ ''/'' @ r \<or> s = t \<and> r = [])"
  using getline_Some [of "CHR ''/''" s t r] by (auto simp: next_token_def split: if_splits option.splits)

definition key_ok :: "BenchmarkInfo \<Rightarrow> bool" where
  "key_ok b \<longleftrightarrow> framework b \<noteq> [] \<and> CHR ''/'' \<notin> set (framework b)
     \<and> bi_version b \<noteq> [] \<and> CHR ''/'' \<notin> set (bi_version b) \<and> ValidateGlobbing (bi_version b) = None
     \<and> benchmarkVersion b \<noteq> [] \<and> CHR ''/'' \<notin> set (benchmarkVersion b)
     \<and> bi_section b \<noteq> [] \<and> NL \<notin> set (bi_section b)"

definition line_end :: "string \<Rightarrow> bool" where
  "line_end s \<longleftrightarrow> s = [] \<or> hd s = NL"

lemma distribution_name:
  "to_string_LinuxDistribution d = Some a \<Longrightarrow> a \<noteq> [] \<and> CHR ''/'' \<notin> set a"
  using table_word_LinuxDistribution [of d a] by (auto simp: table_word_def)

lemma getline_token [simp]: "CHR ''/'' \<notin> set a \<Longrightarrow> getline (CHR ''/'') (a @ CHR ''/'' # r) = Some (a, r)"
  by (simp add: getline_def str_simps)

lemma next_token_slash [simp]:
  "a \<noteq> [] \<Longrightarrow> CHR ''/'' \<notin> set a \<Longrightarrow> next_token msg (a @ CHR ''/'' # r) = Inr (a, r)"
  by (simp add: next_token_def)

lemma getline_section: "a \<noteq> [] \<Longrightarrow> NL \<notin> set a \<Longrightarrow> line_end r \<Longrightarrow> \<exists>r'. getline NL (a @ r) = Some (a, r')"
  by (cases r) (auto simp: getline_def str_simps line_end_def)

lemma Parse_to_string:
  assumes "key_ok b" "line_end r"
  shows "BenchmarkInfo_Parse (to_string_BenchmarkInfo b @ r) = Inr b"
proof -
  obtain a where a: "to_string_LinuxDistribution (bi_distribution b) = Some a"
    using to_string_LinuxDistribution_some by blast
  note name = distribution_name [OF a]
  obtain r' where r': "getline NL (bi_section b @ r) = Some (bi_section b, r')"
    using assms getline_section [of "bi_section b" r] by (auto simp: key_ok_def)
  have first: "getline (CHR ''/'') (CHR ''/'' # x) = Some ([], x)" for x
    by (simp add: getline_def)
  show ?thesis
    using assms a name r' ParseLinuxDistribution_iff [of a "bi_distribution b"]
    by (simp add: BenchmarkInfo_Parse_def to_string_BenchmarkInfo_def key_ok_def first)
qed

lemma Parse_Inr:
  assumes "BenchmarkInfo_Parse key = Inr b"
  shows "key_ok b \<and> (\<exists>r. key = to_string_BenchmarkInfo b @ r \<and> line_end r)"
proof -
  obtain s1 where s1: "getline (CHR ''/'') key = Some ([], s1)"
    using assms by (auto simp: BenchmarkInfo_Parse_def split: option.splits if_splits)
  then obtain fw s2 where s2: "next_token ''Invalid payload key format: missing benchmark framework'' s1 = Inr (fw, s2)"
    using assms by (auto simp: BenchmarkInfo_Parse_def result_simps)
  then obtain tok s3 d where s3: "getline (CHR ''/'') s2 = Some (tok, s3)" "ParseLinuxDistribution tok = Inr d"
    using assms s1 by (auto simp: BenchmarkInfo_Parse_def result_simps split: option.splits)
  then obtain v s4 where s4: "next_token ''Invalid benchmark payload key format: missing distribution version'' s3 = Inr (v, s4)"
      "ValidateGlobbing v = None"
    using assms s1 s2 by (auto simp: BenchmarkInfo_Parse_def result_simps)
  then obtain bv s5 where s5: "next_token ''Invalid benchmark payload key format: missing benchmark version'' s4 = Inr (bv, s5)"
    using assms s1 s2 s3 by (auto simp: BenchmarkInfo_Parse_def result_simps)
  then obtain sec s6 where s6: "getline NL s5 = Some (sec, s6)" "sec \<noteq> []"
    and b: "b = \<lparr>framework = fw, bi_distribution = d, bi_version = v, benchmarkVersion = bv, bi_section = sec\<rparr>"
    using assms s1 s2 s3 s4 by (auto simp: BenchmarkInfo_Parse_def result_simps split: option.splits if_splits)
  have sec: "s5 \<noteq> []" "NL \<notin> set sec" "\<exists>r. s5 = sec @ r \<and> line_end r"
    using getline_Some [OF s6(1)] by (auto simp: line_end_def)
  have bv: "s4 = bv @ ''/'' @ s5" "bv \<noteq> []" "CHR ''/'' \<notin> set bv"
    using next_token_Inr [OF s5] sec(1) by auto
  have v: "s3 = v @ ''/'' @ s4" "v \<noteq> []" "CHR ''/'' \<notin> set v"
    using next_token_Inr [OF s4(1)] bv by auto
  have tok: "s2 = tok @ ''/'' @ s3" "to_string_LinuxDistribution d = Some tok"
    using getline_Some [OF s3(1)] s3(2) v by (auto simp: ParseLinuxDistribution_iff)
  have fw: "s1 = fw @ ''/'' @ s2" "fw \<noteq> []" "CHR ''/'' \<notin> set fw"
    using next_token_Inr [OF s2] tok by auto
  have key: "key = ''/'' @ s1"
    using getline_Some [OF s1] fw by auto
  show ?thesis
    using key fw tok v bv sec b s4(2) s6(2) by (auto simp: key_ok_def to_string_BenchmarkInfo_def)
qed

section \<open>Sanitized versions\<close>

fun lone_backslash :: "string \<Rightarrow> bool" where
  "lone_backslash [] = False"
| "lone_backslash [c] = (c = BSL)"
| "lone_backslash (c # d # s) = (if c = BSL then lone_backslash s else lone_backslash (d # s))"

declare fnmatch.simps(2) [simp del]

lemma fnmatch_star: "fnmatch ps s \<Longrightarrow> fnmatch (CHR ''*'' # ps) s"
  by (simp add: fnmatch.simps(2) [of "CHR ''*''"])

lemma fnmatch_one [simp]:
  "fnmatch (CHR ''?'' # ps) (x # s) = fnmatch ps s"
  "fnmatch (BSL # q # ps) (q # s) = fnmatch ps s"
  "p \<noteq> CHR ''*'' \<Longrightarrow> p \<noteq> CHR ''?'' \<Longrightarrow> p \<noteq> BSL \<Longrightarrow> fnmatch (p # ps) (p # s) = fnmatch ps s"
  by (simp_all add: fnmatch.simps(2) [of p] fnmatch.simps(2) [of BSL] fnmatch.simps(2) [of "CHR ''?''"])

lemma fnmatch_sanitize: "\<not> lone_backslash p \<Longrightarrow> fnmatch p (sanitize p)"
  by (induction p rule: lone_backslash.induct) (auto simp: fnmatch_star)

lemma lone_backslash_rest:
  "lone_backslash (p # ps) \<Longrightarrow> p \<noteq> BSL \<Longrightarrow> lone_backslash ps"
  "lone_backslash (BSL # q # qs) \<Longrightarrow> lone_backslash qs"
  by (cases ps) auto

lemma fnmatch_lone_backslash: "lone_backslash p \<Longrightarrow> \<not> fnmatch p s"
proof (induction p s rule: fnmatch.induct)
  case (1 s)
  then show ?case by simp
next
  case (2 p ps s)
  then show ?case
    by (subst fnmatch.simps(2)) (auto split: list.splits dest: lone_backslash_rest)
qed

lemma sanitize_set: "set (sanitize p) \<subseteq> insert (CHR ''x'') (set p)"
  by (induction p rule: sanitize.induct) auto

lemma Match_SanitizedVersion:
  assumes "ValidateGlobbing (bi_version b) = None"
  shows "BenchmarkInfo_Match b \<lparr>osType = os, architecture = arch, distribution = bi_distribution b, version = SanitizedVersion b\<rparr>
    \<longleftrightarrow> \<not> lone_backslash (bi_version b)"
proof -
  have nul: "NUL \<notin> set (bi_version b)" using assms by (auto simp: ValidateGlobbing_def split: if_splits)
  then have "NUL \<notin> set (sanitize (bi_version b))" using sanitize_set [of "bi_version b"] by auto
  then show ?thesis
    using nul fnmatch_sanitize fnmatch_lone_backslash
    by (auto simp: BenchmarkInfo_Match_def SanitizedVersion_def)
qed

end
