(* ===== verification/EngineInterface.thy ===== *)
theory EngineInterface
  imports Engine Formatters BenchmarkInfo
begin

text \<open>
  \<open>src/lib/ComplianceEngineInterface.cpp\<close> and \<open>src/adapters/mc/complianceengine/Baseline.c\<close>: the C
  interface of the engine. A session is the engine with the distribution it detected; a handle
  that may be NULL is an option. An MMI call gives a return code, and for a get the payload with
  its size. Pointers to the results are never NULL. Telemetry and the configuration of the log
  are not represented. Shown: the payload of a get tells PASS exactly for the statuses that
  count as passed, and a benchmark is applicable exactly when its payload key names a pattern
  that the detected distribution matches.
\<close>

section \<open>Sessions\<close>

record 'w session =
  ses_engine :: "'w engine"
  mDistributionInfo :: "DistributionInfo result"

definition cDefaultOverrideFilePath :: string where
  "cDefaultOverrideFilePath = ''/etc/kompli/system_id.override''"

definition cDefaultEtcOsReleasePath :: string where
  "cDefaultEtcOsReleasePath = ''/etc/os-release''"

text \<open>\<open>stat_result\<close> is the outcome of \<open>stat\<close> on the override file, 0 if it exists.\<close>

definition LoadDistributionInfo :: "file_system \<Rightarrow> uname_result \<Rightarrow> int \<Rightarrow> DistributionInfo result" where
  "LoadDistributionInfo files unm stat_result =
     (if stat_result = 0 then ParseOverrideFile files cDefaultOverrideFilePath
      else if stat_result = ENOENT then ParseEtcOsRelease files unm cDefaultEtcOsReleasePath
      else Inl (Error ''Failed to access override file'' stat_result))"

definition formatter_for :: "fmt_fun \<Rightarrow> string \<Rightarrow> indicators_tree \<Rightarrow> string result" where
  "formatter_for fmt clientName =
     (if clientName = ''ModuleTestClient'' then DebugFormatter_Format
      else if clientName = ''ComplianceEngine'' then NestedListFormatter_Format
      else JsonFormatter_Format fmt)"

text \<open>The environment of the sessions of a client: its formatter is fixed at open.\<close>

definition client_env :: "fmt_fun \<Rightarrow> string \<Rightarrow> 'w engine_env \<Rightarrow> 'w engine_env" where
  "client_env fmt clientName env = env\<lparr>env_format := formatter_for fmt clientName\<rparr>"

definition ComplianceEngineMmiOpen ::
  "file_system \<Rightarrow> uname_result \<Rightarrow> int \<Rightarrow> 'w \<Rightarrow> 'w session option" where
  "ComplianceEngineMmiOpen files unm stat_result w =
     (case LoadDistributionInfo files unm stat_result of
        Inl e \<Rightarrow> None
      | Inr info \<Rightarrow> Some \<lparr>ses_engine = \<lparr>mDatabase = [], mContext = w\<rparr>, mDistributionInfo = Inr info\<rparr>)"

section \<open>Requests\<close>

abbreviation MMI_OK :: int where "MMI_OK \<equiv> 0"

definition critical :: "error \<Rightarrow> bool" where
  "critical e \<longleftrightarrow> err_code e = ENOMEM"

text \<open>The payload text of an audit: an error that is not critical is a failed audit, and a passed
  one is marked.\<close>

definition audit_text :: "status \<Rightarrow> string \<Rightarrow> string" where
  "audit_text s payload = (if s = Compliant \<or> s = NotApplicable then ''PASS'' @ payload else payload)"

definition audit_result :: "(status \<times> string) result \<Rightarrow> status \<times> string" where
  "audit_result r =
     (case r of
        Inl e \<Rightarrow> (NonCompliant, ''Audit failed with a non-critical error: '' @ err_message e)
      | Inr x \<Rightarrow> x)"

definition ComplianceEngineMmiGet ::
  "fmt_fun \<Rightarrow> 'w engine_env \<Rightarrow> string option \<Rightarrow> string option \<Rightarrow> 'w session option
   \<Rightarrow> (int \<times> string option \<times> int) \<times> 'w session option" where
  "ComplianceEngineMmiGet fmt env componentName objectName session =
     (case (componentName, objectName, session) of
        (Some c, Some ob, Some ses) \<Rightarrow>
          if c \<noteq> ''ComplianceEngine'' then ((EINVAL, None, 0), session)
          else (case MmiGet env (Some ob) (ses_engine ses) of
            (r, en) \<Rightarrow>
              let session' = Some (ses\<lparr>ses_engine := en\<rparr>) in
              if (case r of Inl e \<Rightarrow> critical e | Inr x \<Rightarrow> False) then ((ENOMEM, None, 0), session')
              else (case audit_result r of
                (s, payload) \<Rightarrow>
                  (case JsonWrapper_FromJsonString (audit_text s payload) of
                     Inl e \<Rightarrow> ((ENOMEM, None, 0), session')
                   | Inr v \<Rightarrow>
                       let text = json_serialize_to_string fmt v
                       in ((MMI_OK, Some text, int (length text)), session'))))
      | _ \<Rightarrow> ((EINVAL, None, 0), session))"

text \<open>The request payload of a set: a JSON string gives its characters, an object its text.\<close>

definition real_payload :: "fmt_fun \<Rightarrow> strtod_fun \<Rightarrow> string \<Rightarrow> string option" where
  "real_payload fmt strtod payloadStr =
     (if NUL \<in> set payloadStr then None
      else case JsonWrapper_FromString strtod payloadStr of
        Inl e \<Rightarrow> None
      | Inr (JString s) \<Rightarrow> if NUL \<in> set s then None else Some s
      | Inr (JObject ms) \<Rightarrow> Some (json_serialize_to_string fmt (JObject ms))
      | Inr v \<Rightarrow> None)"

definition ComplianceEngineMmiSet ::
  "fmt_fun \<Rightarrow> 'w engine_env \<Rightarrow> string option \<Rightarrow> string option \<Rightarrow> string option \<Rightarrow> int \<Rightarrow> 'w session option
   \<Rightarrow> int \<times> 'w session option" where
  "ComplianceEngineMmiSet fmt env componentName objectName payload payloadSizeBytes session =
     (case (componentName, objectName, payload, session) of
        (Some c, Some ob, Some p, Some ses) \<Rightarrow>
          if payloadSizeBytes < 0 then (EINVAL, session)
          else if c \<noteq> ''ComplianceEngine'' then (EINVAL, session)
          else (case real_payload fmt (env_strtod env) (take (nat payloadSizeBytes) p) of
            None \<Rightarrow> (EINVAL, session)
          | Some text \<Rightarrow>
              (case MmiSet env (Some ob) text (ses_engine ses) of
                 (r, en) \<Rightarrow>
                   (if (case r of Inl e \<Rightarrow> critical e | Inr s \<Rightarrow> False) then ENOMEM else MMI_OK,
                    Some (ses\<lparr>ses_engine := en\<rparr>))))
      | _ \<Rightarrow> (EINVAL, session))"

definition ComplianceEngineCheckApplicability :: "string option \<Rightarrow> 'w session option \<Rightarrow> int" where
  "ComplianceEngineCheckApplicability payloadKey session =
     (case (session, payloadKey) of
        (Some ses, Some key) \<Rightarrow>
          (case mDistributionInfo ses of
             Inl e \<Rightarrow> EINVAL
           | Inr info \<Rightarrow>
               (case BenchmarkInfo_Parse key of
                  Inl e \<Rightarrow> EINVAL
                | Inr benchmark \<Rightarrow> if BenchmarkInfo_Match benchmark info then 0 else EINVAL))
      | _ \<Rightarrow> EINVAL)"

section \<open>Baseline.c\<close>

record 'w baseline =
  gComplianceEngine :: "'w session option"
  gIsMmiLoaded :: bool

definition BaselineIsValidResourceIdRuleId :: "string option \<Rightarrow> string option \<Rightarrow> string option \<Rightarrow> int" where
  "BaselineIsValidResourceIdRuleId resourceId ruleId payloadKey = 0"

definition BaselineIsCorrectDistribution :: "string option \<Rightarrow> 'w baseline \<Rightarrow> int" where
  "BaselineIsCorrectDistribution payloadKey b = ComplianceEngineCheckApplicability payloadKey (gComplianceEngine b)"

definition BaselineInitialize :: "file_system \<Rightarrow> uname_result \<Rightarrow> int \<Rightarrow> 'w \<Rightarrow> 'w baseline \<Rightarrow> 'w baseline" where
  "BaselineInitialize files unm stat_result w b =
     b\<lparr>gComplianceEngine := ComplianceEngineMmiOpen files unm stat_result w\<rparr>"

definition BaselineShutdown :: "'w baseline \<Rightarrow> 'w baseline" where
  "BaselineShutdown b =
     (if gComplianceEngine b = None then b\<lparr>gIsMmiLoaded := False\<rparr>
      else b\<lparr>gComplianceEngine := None, gIsMmiLoaded := False\<rparr>)"

definition BaselineMmiLoad :: "'w baseline \<Rightarrow> 'w baseline" where
  "BaselineMmiLoad b =
     (if gComplianceEngine b = None then b
      else if gIsMmiLoaded b then b
      else b\<lparr>gIsMmiLoaded := True\<rparr>)"

definition BaselineMmiUnload :: "'w baseline \<Rightarrow> 'w baseline" where
  "BaselineMmiUnload b =
     (if gComplianceEngine b = None then b
      else if \<not> gIsMmiLoaded b then b
      else b\<lparr>gIsMmiLoaded := False\<rparr>)"

text \<open>Where the payload is longer than a positive maximum, the code writes the terminator to the
  wrong address (\<open>*payload[n]\<close> is \<open>*(payload[n])\<close>); there the call has no result.\<close>

definition BaselineMmiGet ::
  "fmt_fun \<Rightarrow> 'w engine_env \<Rightarrow> string option \<Rightarrow> string option \<Rightarrow> nat \<Rightarrow> 'w baseline
   \<Rightarrow> ((int \<times> string option \<times> int) \<times> 'w baseline) option" where
  "BaselineMmiGet fmt env componentName objectName maxPayloadSizeBytes b =
     (if componentName = None \<or> objectName = None then Some ((EINVAL, None, 0), b)
      else case ComplianceEngineMmiGet fmt env componentName objectName (gComplianceEngine b) of
        ((r, payload, len), ses) \<Rightarrow>
          if r = MMI_OK \<and> payload \<noteq> None \<and> 0 < len \<and> 0 < maxPayloadSizeBytes \<and> int maxPayloadSizeBytes < len
          then None
          else Some ((r, payload, len), b\<lparr>gComplianceEngine := ses\<rparr>))"

definition BaselineMmiSet ::
  "fmt_fun \<Rightarrow> 'w engine_env \<Rightarrow> string option \<Rightarrow> string option \<Rightarrow> string option \<Rightarrow> int \<Rightarrow> 'w baseline \<Rightarrow> int \<times> 'w baseline" where
  "BaselineMmiSet fmt env componentName objectName payload payloadSizeBytes b =
     (case ComplianceEngineMmiSet fmt env componentName objectName payload payloadSizeBytes (gComplianceEngine b) of
        (r, ses) \<Rightarrow> (r, b\<lparr>gComplianceEngine := ses\<rparr>))"

section \<open>What a get reports\<close>

lemma BaselineMmiGet_unlimited:
  "\<exists>r b'. BaselineMmiGet fmt env c ob 0 b = Some (r, b')"
  by (auto simp: BaselineMmiGet_def split: prod.splits)

text \<open>The payload of an accepted get is the JSON text of the audit text.\<close>

lemma FromJsonString_Inr:
  "JsonWrapper_FromJsonString t = Inr v \<longleftrightarrow> NUL \<notin> set t \<and> is_valid_utf8 t \<and> v = JString t"
  by (auto simp: JsonWrapper_FromJsonString_def json_value_init_string_with_len_def)

lemma MmiGet_payload:
  assumes "ComplianceEngineMmiGet fmt env (Some c) (Some ob) (Some ses) = ((MMI_OK, Some p, n), ses')"
    and "MmiGet env (Some ob) (ses_engine ses) = (r, en)"
  shows "ses' = Some (ses\<lparr>ses_engine := en\<rparr>)
    \<and> (\<exists>s t. audit_result r = (s, t) \<and> NUL \<notin> set (audit_text s t) \<and> is_valid_utf8 (audit_text s t)
         \<and> p = json_serialize_to_string fmt (JString (audit_text s t)) \<and> n = int (length p))"
  using assms
  by (auto simp: ComplianceEngineMmiGet_def Let_def FromJsonString_Inr split: if_splits prod.splits sum.splits)

lemma parse_serialized_string:
  "json_parse_string strtod (json_serialize_to_string fmt (JString t)) = Some (JString t)"
  using parse_serialize_plain [of "JString t" strtod fmt "[]"] by simp

section \<open>Passed audits\<close>

lemma emoji_not_PASS: "sEmojiMap s ign @ t \<noteq> CHR ''P'' # u"
  by (cases s; cases ign) simp_all

lemma nested_list_not_PASS: "NestedListFormatter_Format it = Inr p \<Longrightarrow> \<not> starts_with ''PASS'' p"
  by (auto simp: NestedListFormatter_Format_def nested_line_def starts_with_ex emoji_not_PASS split: option.splits)

text \<open>The text of a failed audit under the nested list formatter never starts with PASS, so the
  mark tells the status.\<close>

lemma MmiGet_text_PASS:
  fixes env :: "'w engine_env"
  assumes "env_format env = NestedListFormatter_Format" and "MmiGet env ob en = (r, en')"
    and "audit_result r = (s, t)"
  shows "starts_with ''PASS'' (audit_text s t) \<longleftrightarrow> s = Compliant \<or> s = NotApplicable"
proof (cases r)
  case (Inl e)
  then show ?thesis using assms(3) by (auto simp: audit_result_def audit_text_def)
next
  case (Inr x)
  then have x: "r = Inr (s, t)" using assms(3) by (simp add: audit_result_def)
  then obtain ev :: "'w evaluator" and name obj w it w' where "ExecuteAudit ev name obj NestedListFormatter_Format w = (Inr (s, t), it, w')"
    using assms(1,2) by (auto simp: MmiGet_def Let_def split: option.splits if_splits prod.splits)
  then have "\<not> starts_with ''PASS'' t"
    by (auto simp: ExecuteAudit_def nested_list_not_PASS split: prod.splits sum.splits)
  then show ?thesis by (auto simp: audit_text_def)
qed

section \<open>Applicability\<close>

lemma CheckApplicability_iff:
  "ComplianceEngineCheckApplicability key session = 0 \<longleftrightarrow>
     (\<exists>ses info b r. session = Some ses \<and> mDistributionInfo ses = Inr info \<and> key_ok b \<and> line_end r
        \<and> key = Some (to_string_BenchmarkInfo b @ r) \<and> BenchmarkInfo_Match b info)"
proof
  assume "ComplianceEngineCheckApplicability key session = 0"
  then obtain ses k info b where "session = Some ses" "key = Some k" "mDistributionInfo ses = Inr info"
    "BenchmarkInfo_Parse k = Inr b" "BenchmarkInfo_Match b info"
    by (auto simp: ComplianceEngineCheckApplicability_def split: option.splits sum.splits if_splits)
  then show "\<exists>ses info b r. session = Some ses \<and> mDistributionInfo ses = Inr info \<and> key_ok b \<and> line_end r
        \<and> key = Some (to_string_BenchmarkInfo b @ r) \<and> BenchmarkInfo_Match b info"
    using Parse_Inr [of k b] by blast
next
  assume "\<exists>ses info b r. session = Some ses \<and> mDistributionInfo ses = Inr info \<and> key_ok b \<and> line_end r
        \<and> key = Some (to_string_BenchmarkInfo b @ r) \<and> BenchmarkInfo_Match b info"
  then show "ComplianceEngineCheckApplicability key session = 0"
    by (auto simp: ComplianceEngineCheckApplicability_def Parse_to_string)
qed

end
