(* ===== verification/Sockets.thy ===== *)
theory Sockets
  imports StringTools Json
begin

text \<open>
  \<open>src/common/commonutils/SocketUtils.c\<close>: reading the head of an HTTP response from the socket
  of the management platform. A socket is the string of bytes the peer sends before it closes;
  a \<open>read\<close> of n bytes takes n of them, or those that are left. Shown: a response with a
  Content-Length header is split into status, length and body.
\<close>

section \<open>C numbers\<close>

text \<open>\<open>atoi\<close> of the C library: leading white space, a sign, digits; the value saturates at the
  range of \<open>long\<close> and is cut to 32 bits.\<close>

definition int_of_long :: "int \<Rightarrow> int" where
  "int_of_long x = (x + 2 ^ 31) mod 2 ^ 32 - 2 ^ 31"

definition atoi :: "string \<Rightarrow> int" where
  "atoi s =
     int_of_long (case strtol s 10 of None \<Rightarrow> 0 | Some (v, n) \<Rightarrow> max (- (2 ^ 63)) (min (2 ^ 63 - 1) v))"

section \<open>Reading\<close>

text \<open>Bytes are appended to the buffer one at a time until the searched text is in it. The
  buffer is searched as a C string. Without a match the buffer is released.\<close>

fun ReadUntil_loop :: "string \<Rightarrow> string \<Rightarrow> string \<Rightarrow> string option \<times> string" where
  "ReadUntil_loop what buffer [] = (None, [])"
| "ReadUntil_loop what buffer (c # s) =
     (let buffer = buffer @ [c] in
      if find_str what (c_str buffer) \<noteq> None then (Some buffer, s)
      else ReadUntil_loop what buffer s)"

definition ReadUntilStringFound :: "string \<Rightarrow> string \<Rightarrow> string option \<times> string" where
  "ReadUntilStringFound what s = ReadUntil_loop what [] s"

definition CRLF :: string where
  "CRLF = [CHR 0x0D, CHR 0x0A]"

text \<open>The status after the prefix: a space and three digits, the first one from 1 to 5. The
  three characters are read only if the space is there.\<close>

definition valid_status :: "string \<Rightarrow> bool" where
  "valid_status st \<longleftrightarrow> length st = 3 \<and> isdigit (st ! 0) \<and> 49 \<le> byte (st ! 0) \<and> byte (st ! 0) \<le> 53
     \<and> isdigit (st ! 1) \<and> isdigit (st ! 2)"

definition ReadHttpStatusFromSocket :: "string \<Rightarrow> int \<times> string" where
  "ReadHttpStatusFromSocket s =
     (case ReadUntilStringFound ''HTTP/1.1'' s of
        (None, rest) \<Rightarrow> (404, rest)
      | (Some buffer, rest) \<Rightarrow>
          if rest \<noteq> [] \<and> hd rest = CHR '' '' then
            (let st = take 3 (tl rest); rest' = drop 3 (tl rest)
             in (if valid_status st then atoi st else 404, rest'))
          else (404, tl rest))"

definition contentLengthLabel :: string where
  "contentLengthLabel = ''Content-Length: ''"

definition ReadHttpContentLengthFromSocket :: "string \<Rightarrow> int \<times> string" where
  "ReadHttpContentLengthFromSocket s =
     (case ReadUntilStringFound (CRLF @ CRLF) s of
        (None, rest) \<Rightarrow> (0, rest)
      | (Some buffer, rest) \<Rightarrow>
          (case find_str contentLengthLabel (c_str buffer) of
             None \<Rightarrow> (0, rest)
           | Some i \<Rightarrow>
               let isolated = take 63 (takeWhile isdigit (drop (i + length contentLengthLabel) (c_str buffer)))
               in (if isolated \<noteq> [] then atoi isolated else 0, rest)))"

section \<open>Searching\<close>

text \<open>The loop stops behind the first occurrence of the text.\<close>

lemma find_str_Some: "find_str p s = Some i \<Longrightarrow> \<exists>u. s = take i s @ p @ u \<and> i \<le> length s"
proof (induction s arbitrary: i)
  case Nil
  then show ?case by (simp split: if_splits)
next
  case (Cons x s)
  show ?case
  proof (cases "starts_with p (x # s)")
    case True
    then show ?thesis using Cons.prems starts_with_ex [of p "x # s"] by auto
  next
    case False
    then obtain j where j: "i = Suc j" "find_str p s = Some j" using Cons.prems by auto
    then show ?thesis using Cons.IH [OF j(2)] by auto
  qed
qed

lemma find_str_None_append: "find_str p (a @ b) = None \<Longrightarrow> find_str p a = None"
proof (induction a)
  case Nil
  then show ?case by (cases b; cases p) (auto split: if_splits)
next
  case (Cons x a)
  have "\<not> starts_with p (x # a)"
    using Cons.prems by (metis append_Cons append_assoc find_str_0 option.simps(3) starts_with_ex)
  then show ?case using Cons by (simp split: if_splits)
qed

lemma find_str_append: "find_str p (a @ p @ b) \<noteq> None"
proof (induction a)
  case Nil
  then show ?case by (cases p; cases b) (simp_all add: str_simps)
next
  case (Cons x a)
  then show ?case by auto
qed

lemma ReadUntil_loop_found:
  assumes "NUL \<notin> set buffer" "NUL \<notin> set a" "what \<noteq> []"
    and "a \<noteq> []" "find_str what (buffer @ butlast a) = None" "find_str what (buffer @ a) \<noteq> None"
  shows "ReadUntil_loop what buffer (a @ s) = (Some (buffer @ a), s)"
  using assms
proof (induction a arbitrary: buffer)
  case Nil
  then show ?case by simp
next
  case (Cons c a)
  show ?case
  proof (cases "a = []")
    case True
    then show ?thesis using Cons.prems by auto
  next
    case False
    have "find_str what (buffer @ [c]) = None"
      using Cons.prems(5) False find_str_None_append [of what "buffer @ [c]" "butlast a"] by simp
    then show ?thesis using Cons.prems False Cons.IH [of "buffer @ [c]"] by simp
  qed
qed

lemma find_str_first:
  assumes "find_str p (a @ butlast p) = None" "p \<noteq> []"
  shows "find_str p (a @ p @ b) = Some (length a)"
  using assms(1)
proof (induction a)
  case Nil
  show ?case by (simp add: find_str_0)
next
  case (Cons x a)
  have "\<not> starts_with p (x # a @ p @ b)"
  proof
    assume "starts_with p (x # a @ p @ b)"
    then have "take (length p) (x # a @ p @ b) = p" by (simp add: starts_with_iff)
    then have "take (length p) (x # a @ butlast p) = p"
      using assms(2) by (cases p rule: rev_cases) (auto simp: take_Cons split: nat.splits)
    then show False using Cons.prems by (simp add: starts_with_iff)
  qed
  then show ?case using Cons by (simp split: if_splits)
qed

section \<open>A well-formed response\<close>

lemma length_to_string_nat: "n < 10 ^ Suc k \<Longrightarrow> length (to_string_nat n) \<le> Suc k"
proof (induction k arbitrary: n)
  case 0
  then show ?case by (simp add: to_string_nat.simps)
next
  case (Suc k)
  then have "n div 10 < 10 ^ Suc k" by auto
  then show ?case using Suc.IH [of "n div 10"] by (simp add: to_string_nat.simps [of n])
qed

lemma strtol_to_string_nat: "strtol (to_string_nat n) 10 = Some (int n, length (to_string_nat n))"
  using strtol_to_string_int [of "int n"] by (simp add: to_string_int_def)

lemma atoi_to_string_nat: "n < 2 ^ 31 \<Longrightarrow> atoi (to_string_nat n) = int n"
  by (simp add: atoi_def strtol_to_string_nat int_of_long_def)

lemma isdigit_to_string_nat: "c \<in> set (to_string_nat n) \<Longrightarrow> isdigit c"
proof -
  assume c: "c \<in> set (to_string_nat n)"
  obtain ds where "\<forall>d\<in>set ds. d < 10" "to_string_nat n = map digit_char ds"
    using to_string_nat_digits by blast
  then obtain d where "d < 10" "c = digit_char d" using c by auto
  then show ?thesis by (simp add: isdigit_def digit_char_def)
qed

lemma to_string_nat_no_nul: "NUL \<notin> set (to_string_nat n)"
  using isdigit_to_string_nat [of NUL n] by (auto simp: isdigit_def)

text \<open>The head of a response behind the status code, up to the length. The blank line and the
  label must not occur earlier.\<close>

definition head_ok :: "string \<Rightarrow> nat \<Rightarrow> bool" where
  "head_ok pre n \<longleftrightarrow> NUL \<notin> set pre
     \<and> find_str contentLengthLabel (pre @ butlast contentLengthLabel) = None
     \<and> find_str (CRLF @ CRLF) (pre @ contentLengthLabel @ to_string_nat n @ butlast (CRLF @ CRLF)) = None"

definition http_rest :: "string \<Rightarrow> nat \<Rightarrow> string \<Rightarrow> string" where
  "http_rest pre n body = pre @ contentLengthLabel @ to_string_nat n @ CRLF @ CRLF @ body"

lemma content_length_read:
  assumes "head_ok pre n" "n < 2 ^ 31"
  shows "ReadHttpContentLengthFromSocket (http_rest pre n body) = (int n, body)"
proof -
  let ?d = "to_string_nat n"
  let ?b = "pre @ contentLengthLabel @ ?d @ CRLF @ CRLF"
  have nul: "NUL \<notin> set ?b"
    using assms(1) to_string_nat_no_nul [of n] by (simp add: head_ok_def contentLengthLabel_def CRLF_def)
  have none: "find_str (CRLF @ CRLF) (butlast ?b) = None"
    using assms(1) by (simp add: head_ok_def CRLF_def butlast_append)
  have some: "find_str (CRLF @ CRLF) ?b \<noteq> None"
    using find_str_append [of "CRLF @ CRLF" "pre @ contentLengthLabel @ ?d" "[]"] by simp
  have "ReadUntil_loop (CRLF @ CRLF) [] (?b @ body) = (Some ([] @ ?b), body)"
    by (rule ReadUntil_loop_found) (use nul none some in \<open>simp_all add: CRLF_def\<close>)
  then have read: "ReadUntilStringFound (CRLF @ CRLF) (http_rest pre n body) = (Some ?b, body)"
    by (simp add: ReadUntilStringFound_def http_rest_def)
  have label: "find_str contentLengthLabel ?b = Some (length pre)"
    using assms(1) by (intro find_str_first) (simp_all add: head_ok_def contentLengthLabel_def)
  have "n < 10 ^ Suc 9" using assms(2) by simp
  from length_to_string_nat [OF this] have len: "length ?d \<le> 63" by simp
  have digits: "takeWhile isdigit (?d @ CRLF @ CRLF) = ?d"
    using isdigit_to_string_nat [of _ n] by (subst takeWhile_append2) (auto simp: CRLF_def isdigit_def)
  show ?thesis
    using read label nul digits len to_string_nat_hd [of n] atoi_to_string_nat [OF assms(2)]
    by (simp add: ReadHttpContentLengthFromSocket_def)
qed

lemma status_read:
  assumes "100 \<le> st" "st < 600"
  shows "ReadHttpStatusFromSocket (''HTTP/1.1'' @ '' '' @ to_string_nat st @ rest) = (int st, rest)"
proof -
  have "ReadUntilStringFound ''HTTP/1.1'' (''HTTP/1.1'' @ x) = (Some ''HTTP/1.1'', x)" for x
    by (simp add: ReadUntilStringFound_def c_str_def)
  moreover have digits: "to_string_nat st =
      [digit_char (st div 100), digit_char (st div 10 mod 10), digit_char (st mod 10)]"
  proof -
    have "\<not> st < 10" "\<not> st div 10 < 10" "st div 100 < 10" using assms by auto
    then show ?thesis
      by (simp add: to_string_nat.simps [of st] to_string_nat.simps [of "st div 10"]
          to_string_nat.simps [of "st div 100"] div_mult2_eq [symmetric])
  qed
  moreover have "valid_status (to_string_nat st)"
  proof -
    have "st div 100 \<le> 5" "1 \<le> st div 100" "st div 10 mod 10 \<le> 9" "st mod 10 \<le> 9" using assms by auto
    then show ?thesis by (simp add: digits valid_status_def digit_char_def isdigit_def)
  qed
  moreover have "atoi (to_string_nat st) = int st" using assms by (intro atoi_to_string_nat) simp
  ultimately show ?thesis by (simp add: ReadHttpStatusFromSocket_def)
qed

end
