(* ===== verification/FileAccess.thy ===== *)
theory FileAccess
  imports Prelude "HOL-Library.Word"
begin

unbundle bit_operations_syntax

text \<open>
  The access checks of \<open>src/common/commonutils/FileUtils.c\<close>. A file is its
  owner, group and mode bits; the state maps the existing names to them. System calls may fail:
  the environment gives the error number, 0 for success. The reason text and the log are not
  represented. Shown: what \<open>SetFileAccess\<close> establishes, \<open>CheckFileAccess\<close> confirms, except
  for a sticky bit.
\<close>

section \<open>Files\<close>

record file_stat =
  st_uid :: "32 word"
  st_gid :: "32 word"
  st_mode :: "32 word"

type_synonym files = "string \<rightharpoonup> file_stat"

text \<open>The outcome of the calls of a run: \<open>stat\<close>, \<open>chown\<close> and \<open>chmod\<close> give 0 or an error number.
  A failed \<open>chown\<close> or \<open>stat\<close> is returned as \<open>-1\<close>.\<close>

record file_calls =
  stat_errno :: "string \<Rightarrow> int"
  chown_errno :: "string \<Rightarrow> int"
  chmod_errno :: "string \<Rightarrow> int"

abbreviation S_ISVTX :: "32 word" where "S_ISVTX \<equiv> 0x200"
abbreviation mode_mask :: "32 word" where "mode_mask \<equiv> 0xFFF"

definition FileExists :: "files \<Rightarrow> string option \<Rightarrow> bool" where
  "FileExists fs name = (case name of None \<Rightarrow> False | Some n \<Rightarrow> fs n \<noteq> None)"

text \<open>An owner or group of \<open>-1\<close> is not compared.\<close>

definition id_matches :: "int \<Rightarrow> 32 word \<Rightarrow> bool" where
  "id_matches desired actual \<longleftrightarrow> desired = -1 \<or> word_of_int desired = actual"

definition CheckFileAccess :: "file_calls \<Rightarrow> files \<Rightarrow> string option \<Rightarrow> int \<Rightarrow> int \<Rightarrow> 32 word \<Rightarrow> int" where
  "CheckFileAccess calls fs name desiredOwnerId desiredGroupId desiredAccess =
     (case name of
        None \<Rightarrow> EINVAL
      | Some n \<Rightarrow>
          if FileExists fs name then
            (if stat_errno calls n \<noteq> 0 then -1
             else
               let st = the (fs n) in
               if \<not> id_matches desiredOwnerId (st_uid st) \<or> \<not> id_matches desiredGroupId (st_gid st) then ENOENT
               else
                 let currentMode = st_mode st AND mode_mask;
                     desiredMode = desiredAccess AND mode_mask AND NOT S_ISVTX
                 in if currentMode \<noteq> desiredMode then ENOENT else 0)
          else 0)"

text \<open>\<open>chmod\<close> keeps the bits of the file type.\<close>

definition set_mode :: "32 word \<Rightarrow> 32 word \<Rightarrow> 32 word" where
  "set_mode old new = (old AND NOT mode_mask) OR (new AND mode_mask)"

lemma set_mode_mask [simp]: "set_mode old new AND mode_mask = new AND mode_mask"
  by (rule bit_word_eqI) (auto simp: set_mode_def bit_simps)

definition SetFileAccess ::
  "file_calls \<Rightarrow> string option \<Rightarrow> 32 word \<Rightarrow> 32 word \<Rightarrow> 32 word \<Rightarrow> files \<Rightarrow> int \<times> files" where
  "SetFileAccess calls name desiredOwnerId desiredGroupId desiredAccess fs =
     (case name of
        None \<Rightarrow> (EINVAL, fs)
      | Some n \<Rightarrow>
          if FileExists fs name then
            (if CheckFileAccess calls fs name (sint desiredOwnerId) (sint desiredGroupId) desiredAccess = 0 then (0, fs)
             else if chown_errno calls n \<noteq> 0 then (-1, fs)
             else
               let st = (the (fs n))\<lparr>st_uid := desiredOwnerId, st_gid := desiredGroupId\<rparr>;
                   fs = fs(n \<mapsto> st)
               in if chmod_errno calls n \<noteq> 0 then (chmod_errno calls n, fs)
                  else (0, fs(n \<mapsto> st\<lparr>st_mode := set_mode (st_mode st) desiredAccess\<rparr>)))
          else (0, fs))"

lemma id_matches_self [simp]: "id_matches (sint w) w"
  by (simp add: id_matches_def)

lemma SetFileAccess_establishes:
  assumes "SetFileAccess calls name u g m fs = (0, fs')" and "stat_errno calls (the name) = 0"
    and "m AND S_ISVTX = 0"
  shows "CheckFileAccess calls fs' name (sint u) (sint g) m = 0"
proof (cases name)
  case None
  then show ?thesis using assms by (simp add: SetFileAccess_def)
next
  case (Some n)
  have m: "m AND mode_mask AND NOT S_ISVTX = m AND mode_mask"
  proof (rule bit_word_eqI)
    fix i
    assume i: "i < LENGTH(32)"
    have "\<not> bit (m AND S_ISVTX) i" using assms(3) by simp
    then have "\<not> (bit m i \<and> bit S_ISVTX i)" by (simp only: bit_and_iff not_False_eq_True)
    then show "bit (m AND mode_mask AND NOT S_ISVTX) i = bit (m AND mode_mask) i"
      using i by (simp only: bit_and_iff bit_not_iff_eq) auto
  qed
  show ?thesis
  proof (cases "fs n")
    case None
    then have "fs' = fs" using assms(1) Some by (simp add: SetFileAccess_def FileExists_def)
    then show ?thesis using None Some by (simp add: CheckFileAccess_def FileExists_def)
  next
    case (Some st)
    then show ?thesis
      using assms \<open>name = Some n\<close> m
      by (auto simp: SetFileAccess_def FileExists_def Let_def CheckFileAccess_def split: if_splits)
  qed
qed

text \<open>The check drops the sticky bit from the mode it asks for, \<open>chmod\<close> does not: with that bit the
  two never agree.\<close>

lemma SetFileAccess_sticky:
  assumes "SetFileAccess calls (Some n) u g m fs = (0, fs')" "fs n \<noteq> None" "stat_errno calls n = 0"
    and "m AND S_ISVTX \<noteq> 0"
    and "CheckFileAccess calls fs (Some n) (sint u) (sint g) m \<noteq> 0"
  shows "CheckFileAccess calls fs' (Some n) (sint u) (sint g) m = ENOENT"
proof -
  obtain st where st: "fs n = Some st" using assms(2) by blast
  have "m AND mode_mask \<noteq> m AND mode_mask AND NOT S_ISVTX"
  proof
    assume eq: "m AND mode_mask = m AND mode_mask AND NOT S_ISVTX"
    have "m AND S_ISVTX = (m AND mode_mask) AND S_ISVTX"
      by (simp add: and.assoc)
    also have "\<dots> = (m AND mode_mask AND NOT S_ISVTX) AND S_ISVTX" by (subst eq) (rule refl)
    also have "\<dots> = 0" by (simp add: and.assoc)
    finally show False using assms(4) by simp
  qed
  then show ?thesis
    using assms st by (auto simp: SetFileAccess_def FileExists_def Let_def CheckFileAccess_def split: if_splits)
qed

end
