(* ===== verification/Daemons.thy ===== *)
theory Daemons
  imports Prelude
begin

text \<open>
  \<open>src/common/commonutils/DaemonUtils.c\<close>: services of the system, through \<open>systemctl\<close>. The shell
  is an argument, \<open>ExecuteCommand\<close> without output: a command and the state of the machine give
  the exit status and the next state. Shown: whatever is asked for, only commands of the fixed
  form with a plain service name reach the shell.
\<close>

type_synonym 'm shell = "string \<Rightarrow> 'm \<Rightarrow> int \<times> 'm"

definition MAX_DAEMON_NAME_LENGTH :: nat where
  "MAX_DAEMON_NAME_LENGTH = 256"

definition IsValidDaemonNameCharacter :: "char \<Rightarrow> bool" where
  "IsValidDaemonNameCharacter c \<longleftrightarrow> isalnum c \<or> c = CHR ''_'' \<or> c = CHR ''-'' \<or> c = CHR ''.''"

definition IsValidDaemonName :: "string option \<Rightarrow> bool" where
  "IsValidDaemonName name =
     (case name of
        None \<Rightarrow> False
      | Some n \<Rightarrow> 0 < length n \<and> length n < MAX_DAEMON_NAME_LENGTH \<and> (\<forall>c\<in>set n. IsValidDaemonNameCharacter c))"

definition ExecuteSystemctlCommand :: "'m shell \<Rightarrow> string option \<Rightarrow> string option \<Rightarrow> 'm \<Rightarrow> int \<times> 'm" where
  "ExecuteSystemctlCommand sh command daemonName m =
     (case (command, daemonName) of
        (Some c, Some n) \<Rightarrow>
          if \<not> IsValidDaemonName (Some n) then (EINVAL, m)
          else sh (''systemctl '' @ c @ '' '' @ n) m
      | _ \<Rightarrow> (EINVAL, m))"

definition CommandDaemon :: "'m shell \<Rightarrow> string \<Rightarrow> string option \<Rightarrow> 'm \<Rightarrow> bool \<times> 'm" where
  "CommandDaemon sh command daemonName m =
     (if \<not> IsValidDaemonName daemonName then (False, m)
      else case ExecuteSystemctlCommand sh (Some command) daemonName m of (r, m') \<Rightarrow> (r = 0, m'))"

definition IsDaemonActive :: "'m shell \<Rightarrow> string option \<Rightarrow> 'm \<Rightarrow> bool \<times> 'm" where
  "IsDaemonActive sh daemonName m =
     (if \<not> IsValidDaemonName daemonName then (False, m)
      else case ExecuteSystemctlCommand sh (Some ''is-active'') daemonName m of (r, m') \<Rightarrow> (r = 0, m'))"

definition EnableDaemon :: "'m shell \<Rightarrow> string option \<Rightarrow> 'm \<Rightarrow> bool \<times> 'm" where
  "EnableDaemon sh = CommandDaemon sh ''enable''"

definition StartDaemon :: "'m shell \<Rightarrow> string option \<Rightarrow> 'm \<Rightarrow> bool \<times> 'm" where
  "StartDaemon sh = CommandDaemon sh ''start''"

definition RestartDaemon :: "'m shell \<Rightarrow> string option \<Rightarrow> 'm \<Rightarrow> bool \<times> 'm" where
  "RestartDaemon sh = CommandDaemon sh ''restart''"

definition EnableAndStartDaemon :: "'m shell \<Rightarrow> string option \<Rightarrow> 'm \<Rightarrow> bool \<times> 'm" where
  "EnableAndStartDaemon sh daemonName m =
     (if \<not> IsValidDaemonName daemonName then (False, m)
      else case EnableDaemon sh daemonName m of
        (False, m1) \<Rightarrow> (False, m1)
      | (True, m1) \<Rightarrow>
          (case IsDaemonActive sh daemonName m1 of
             (True, m2) \<Rightarrow> (True, m2)
           | (False, m2) \<Rightarrow> StartDaemon sh daemonName m2))"

text \<open>\<open>IsPresent\<close> puts its argument into the command as it is.\<close>

definition IsPresent :: "'m shell \<Rightarrow> string option \<Rightarrow> 'm \<Rightarrow> int \<times> 'm" where
  "IsPresent sh what m =
     (case what of None \<Rightarrow> (EINVAL, m) | Some w \<Rightarrow> sh (''command -v '' @ w) m)"

section \<open>The commands that reach the shell\<close>

text \<open>A shell that records what it is asked to run, over any other shell.\<close>

definition recording :: "'m shell \<Rightarrow> ('m \<times> string list) shell" where
  "recording sh c x = (case sh c (fst x) of (r, m) \<Rightarrow> (r, m, snd x @ [c]))"

definition systemctl_command :: "string option \<Rightarrow> string \<Rightarrow> bool" where
  "systemctl_command name c \<longleftrightarrow>
     (\<exists>verb n. name = Some n \<and> IsValidDaemonName name
        \<and> verb \<in> {''is-active'', ''enable'', ''start'', ''restart''} \<and> c = ''systemctl '' @ verb @ '' '' @ n)"

definition only_systemctl :: "string option \<Rightarrow> (('m \<times> string list) \<Rightarrow> 'r \<times> 'm \<times> string list) \<Rightarrow> bool" where
  "only_systemctl name f \<longleftrightarrow>
     (\<forall>m cs r m' cs'. f (m, cs) = (r, m', cs') \<longrightarrow> (\<exists>ds. cs' = cs @ ds \<and> (\<forall>c\<in>set ds. systemctl_command name c)))"

lemma only_systemctl_command:
  assumes verb: "verb \<in> {''is-active'', ''enable'', ''start'', ''restart''}" and valid: "IsValidDaemonName name"
  shows "only_systemctl name (ExecuteSystemctlCommand (recording sh) (Some verb) name)"
proof -
  obtain n where n: "name = Some n" using valid by (cases name) (simp_all add: IsValidDaemonName_def)
  have cmd: "systemctl_command name (''systemctl '' @ verb @ '' '' @ n)"
    using verb valid n unfolding systemctl_command_def by blast
  have "ExecuteSystemctlCommand (recording sh) (Some verb) name = recording sh (''systemctl '' @ verb @ '' '' @ n)"
    using valid by (intro ext) (simp add: ExecuteSystemctlCommand_def n)
  moreover have "snd (snd (recording sh c x)) = snd x @ [c]" for c and x :: "'a \<times> string list"
    by (simp add: recording_def split: prod.splits)
  ultimately show ?thesis
    using cmd unfolding only_systemctl_def by (metis empty_iff empty_set set_ConsD snd_conv)
qed

lemma only_systemctl_seq:
  assumes "only_systemctl name f" "\<And>r. only_systemctl name (g r)"
  shows "only_systemctl name (\<lambda>m. case f m of (r, m') \<Rightarrow> g r m')"
  unfolding only_systemctl_def
proof (intro allI impI)
  fix m cs r m' cs'
  assume run: "(case f (m, cs) of (r, m') \<Rightarrow> g r m') = (r, m', cs')"
  obtain r1 m1 cs1 where f: "f (m, cs) = (r1, m1, cs1)" by (cases "f (m, cs)") auto
  have g: "g r1 (m1, cs1) = (r, m', cs')" using run f by simp
  obtain ds where ds: "cs1 = cs @ ds" "\<forall>c\<in>set ds. systemctl_command name c"
    using assms(1) f unfolding only_systemctl_def by blast
  obtain es where es: "cs' = cs1 @ es" "\<forall>c\<in>set es. systemctl_command name c"
    using assms(2) [of r1] g unfolding only_systemctl_def by blast
  show "\<exists>ds. cs' = cs @ ds \<and> (\<forall>c\<in>set ds. systemctl_command name c)"
    using ds es by (intro exI [of _ "ds @ es"]) auto
qed

lemma only_systemctl_return: "only_systemctl name (Pair r)" "only_systemctl name (\<lambda>m. (r, m))"
  by (auto simp: only_systemctl_def)

lemma only_systemctl_test:
  assumes "verb \<in> {''is-active'', ''enable'', ''start'', ''restart''}"
  shows "only_systemctl name (\<lambda>m. if \<not> IsValidDaemonName name then (False, m)
      else case ExecuteSystemctlCommand (recording sh) (Some verb) name m of (r, m') \<Rightarrow> (r = 0, m'))"
proof (cases "IsValidDaemonName name")
  case True
  have "only_systemctl name (\<lambda>m. case ExecuteSystemctlCommand (recording sh) (Some verb) name m of (r, m') \<Rightarrow> (r = 0, m'))"
    by (rule only_systemctl_seq [OF only_systemctl_command [OF assms True]]) (rule only_systemctl_return)
  then show ?thesis using True by simp
next
  case False
  then show ?thesis by (simp add: only_systemctl_return)
qed

lemma only_systemctl_CommandDaemon:
  assumes "verb \<in> {''enable'', ''start'', ''restart''}"
  shows "only_systemctl name (CommandDaemon (recording sh) verb name)"
proof -
  have "CommandDaemon (recording sh) verb name = (\<lambda>m. if \<not> IsValidDaemonName name then (False, m)
      else case ExecuteSystemctlCommand (recording sh) (Some verb) name m of (r, m') \<Rightarrow> (r = 0, m'))"
    by (rule ext) (simp add: CommandDaemon_def)
  then show ?thesis using only_systemctl_test [of verb name sh] assms by auto
qed

lemma only_systemctl_IsDaemonActive: "only_systemctl name (IsDaemonActive (recording sh) name)"
proof -
  have "IsDaemonActive (recording sh) name = (\<lambda>m. if \<not> IsValidDaemonName name then (False, m)
      else case ExecuteSystemctlCommand (recording sh) (Some ''is-active'') name m of (r, m') \<Rightarrow> (r = 0, m'))"
    by (rule ext) (simp add: IsDaemonActive_def)
  then show ?thesis using only_systemctl_test [of "''is-active''" name sh] by simp
qed

lemma only_systemctl_EnableAndStartDaemon: "only_systemctl name (EnableAndStartDaemon (recording sh) name)"
proof -
  let ?start = "\<lambda>r m. if r then (True, m) else StartDaemon (recording sh) name m"
  let ?active = "\<lambda>r m. if r then (case IsDaemonActive (recording sh) name m of (r, m) \<Rightarrow> ?start r m) else (False, m)"
  have start: "only_systemctl name (?start r)" for r
    using only_systemctl_CommandDaemon [of "''start''" name sh]
    by (cases r) (simp_all add: StartDaemon_def only_systemctl_return)
  have active: "only_systemctl name (?active r)" for r
    using only_systemctl_seq [OF only_systemctl_IsDaemonActive [of name sh] start]
    by (cases r) (simp_all add: only_systemctl_return)
  have enable: "only_systemctl name (EnableDaemon (recording sh) name)"
    using only_systemctl_CommandDaemon [of "''enable''" name sh] by (simp add: EnableDaemon_def)
  have "EnableAndStartDaemon (recording sh) name =
      (if IsValidDaemonName name then (\<lambda>m. case EnableDaemon (recording sh) name m of (r, m) \<Rightarrow> ?active r m)
       else (\<lambda>m. (False, m)))"
    by (rule ext) (auto simp: EnableAndStartDaemon_def split: prod.splits bool.splits)
  then show ?thesis
    using only_systemctl_seq [OF enable active] by (simp add: only_systemctl_return)
qed

end
