(* ===== verification/MpiClient.thy ===== *)
theory MpiClient
  imports Sockets FileAccess JsonParse
begin

text \<open>
  \<open>src/common/mpiclient/MpiClient.c\<close>: the client of the management platform, one HTTP request per
  call over a local socket. The global \<open>g_mpiHandle\<close> is an argument, the JSON text the platform
  returned for the session. The environment has the files (for the protection of the socket),
  the exchange with the server (an error number of \<open>socket\<close>, \<open>connect\<close> or \<open>send\<close>, or the bytes it
  answers) and \<open>errno\<close> behind an incomplete read. A response whose length is negative as an
  \<open>int\<close> makes the code read past its buffer; there the call has no result, \<open>None\<close>. Shown: a
  well-formed response is delivered as it was sent, and a successful get has a payload without
  terminators inside.
\<close>

record 'm mpi_env =
  mpi_strtod :: strtod_fun
  mpi_files :: "'m \<Rightarrow> files"
  mpi_set_files :: "files \<Rightarrow> 'm \<Rightarrow> 'm"
  mpi_calls :: file_calls
  mpi_exchange :: "string \<Rightarrow> 'm \<Rightarrow> (int + string) \<times> 'm"
  mpi_read_errno :: "'m \<Rightarrow> int"

text \<open>Status, response, its length, and the state behind the call.\<close>

type_synonym 'm mpi_outcome = "(int \<times> string option \<times> int \<times> 'm) option"

abbreviation MPI_OK :: int where "MPI_OK \<equiv> 0"
abbreviation HTTP_INTERNAL_SERVER_ERROR :: int where "HTTP_INTERNAL_SERVER_ERROR \<equiv> 500"

definition mpiSocket :: string where
  "mpiSocket = ''/run/osconfig/mpid.sock''"

definition dq :: "string \<Rightarrow> string" where
  "dq s = [DQ] @ s @ [DQ]"

definition errno_or :: "int \<Rightarrow> int \<Rightarrow> int" where
  "errno_or d e = (if e \<noteq> 0 then e else d)"

definition request_data :: "string \<Rightarrow> string \<Rightarrow> string" where
  "request_data name request =
     ''POST /'' @ name @ ''/ HTTP/1.1'' @ CRLF @ ''Host: OSConfig'' @ CRLF @ ''User-Agent: OSConfig'' @ CRLF
     @ ''Accept: */*'' @ CRLF @ ''Content-Type: application/json'' @ CRLF @ ''Content-Length: ''
     @ to_string_nat (length request) @ CRLF @ CRLF @ request"

text \<open>The socket belongs to root and has mode 06770, or is made so.\<close>

definition protect_socket :: "'m mpi_env \<Rightarrow> 'm \<Rightarrow> int \<times> 'm" where
  "protect_socket env m =
     (if CheckFileAccess (mpi_calls env) (mpi_files env m) (Some mpiSocket) 0 0 0xDF8 = 0 then (0, m)
      else case SetFileAccess (mpi_calls env) (Some mpiSocket) 0 0 0xDF8 (mpi_files env m) of
        (r, fs) \<Rightarrow> (r, mpi_set_files env fs m))"

text \<open>Status, length and body from the bytes of the server.\<close>

definition read_response :: "'m mpi_env \<Rightarrow> string \<Rightarrow> 'm \<Rightarrow> 'm mpi_outcome" where
  "read_response env s m =
     (let (httpStatus, s1) = ReadHttpStatusFromSocket s;
          status = (if httpStatus = 200 then MPI_OK else httpStatus);
          (len, s2) = ReadHttpContentLengthFromSocket s1;
          body = take (nat len) s2;
          response = body @ replicate (nat len - length body) NUL
      in if len < 0 then None
         else if int (length body) \<noteq> len then Some (errno_or EIO (mpi_read_errno env m), Some response, len, m)
         else Some (status, Some response, len, m))"

definition CallMpi :: "'m mpi_env \<Rightarrow> string \<Rightarrow> string \<Rightarrow> 'm \<Rightarrow> 'm mpi_outcome" where
  "CallMpi env name request m =
     (case protect_socket env m of
        (r, m1) \<Rightarrow>
          if r \<noteq> 0 then Some (r, None, 0, m1)
          else (case mpi_exchange env (request_data name request) m1 of
                  (Inl e, m2) \<Rightarrow> Some (errno_or EIO e, None, 0, m2)
                | (Inr s, m2) \<Rightarrow> read_response env s m2))"

definition ParseString :: "strtod_fun \<Rightarrow> string \<Rightarrow> string option" where
  "ParseString strtod jsonString =
     (case json_parse_string strtod (c_str jsonString) of
        None \<Rightarrow> None
      | Some v \<Rightarrow> json_value_get_string (Some v))"

section \<open>Sessions\<close>

definition CallMpiOpen :: "'m mpi_env \<Rightarrow> string option \<Rightarrow> nat \<Rightarrow> 'm \<Rightarrow> (string option \<times> 'm) option" where
  "CallMpiOpen env clientName maxPayloadSizeBytes m =
     (case clientName of
        None \<Rightarrow> Some (None, m)
      | Some client \<Rightarrow>
          let request = ''{ '' @ dq ''ClientName'' @ '': '' @ dq client @ '', '' @ dq ''MaxPayloadSizeBytes''
                        @ '': '' @ to_string_nat maxPayloadSizeBytes @ '' }''
          in (case CallMpi env ''MpiOpen'' request m of
                None \<Rightarrow> None
              | Some (status, response, len, m') \<Rightarrow>
                  Some (if status \<noteq> MPI_OK then None
                        else (case response of
                                None \<Rightarrow> None
                              | Some r \<Rightarrow> if ParseString (mpi_strtod env) r = None then None else Some (c_str r)), m')))"

definition CallMpiClose :: "'m mpi_env \<Rightarrow> string option \<Rightarrow> 'm \<Rightarrow> 'm option" where
  "CallMpiClose env clientSession m =
     (case clientSession of
        None \<Rightarrow> Some m
      | Some h \<Rightarrow>
          if h = [] then Some m
          else map_option (\<lambda>(status, response, len, m'). m')
                 (CallMpi env ''MpiClose'' (''{ '' @ dq ''ClientSession'' @ '': '' @ h @ '' }'') m))"

text \<open>The status the platform answers as a JSON string; anything that is no number counts as 0.\<close>

definition status_text :: "strtod_fun \<Rightarrow> string \<Rightarrow> int" where
  "status_text strtod response =
     (case ParseString strtod response of None \<Rightarrow> EINVAL | Some t \<Rightarrow> atoi t)"

definition set_status :: "'m mpi_env \<Rightarrow> 'm mpi_outcome \<Rightarrow> (int \<times> 'm) option" where
  "set_status env r =
     map_option (\<lambda>(status, response, len, m').
        (case response of
           Some t \<Rightarrow> if 0 < len then status_text (mpi_strtod env) t else status
         | None \<Rightarrow> status, m')) r"

definition session_ok :: "string option \<Rightarrow> bool" where
  "session_ok handle \<longleftrightarrow> handle \<noteq> None \<and> handle \<noteq> Some []"

definition CallMpiSet ::
  "'m mpi_env \<Rightarrow> string option \<Rightarrow> string option \<Rightarrow> string option \<Rightarrow> string option \<Rightarrow> int \<Rightarrow> 'm \<Rightarrow> (int \<times> 'm) option" where
  "CallMpiSet env handle componentName propertyName payload payloadSizeBytes m =
     (if \<not> session_ok handle then Some (EPERM, m)
      else case (componentName, propertyName, payload) of
        (Some c, Some p, Some v) \<Rightarrow>
          if payloadSizeBytes \<le> 0 then Some (EINVAL, m)
          else set_status env (CallMpi env ''MpiSet''
            (''{ '' @ dq ''ClientSession'' @ '': '' @ the handle @ '', '' @ dq ''ComponentName'' @ '': '' @ dq c @ '', ''
             @ dq ''ObjectName'' @ '': '' @ dq p @ '', '' @ dq ''Payload'' @ '': '' @ v @ '' }'') m)
      | _ \<Rightarrow> Some (EINVAL, m))"

definition CallMpiSetDesired :: "'m mpi_env \<Rightarrow> string option \<Rightarrow> string option \<Rightarrow> int \<Rightarrow> 'm \<Rightarrow> (int \<times> 'm) option" where
  "CallMpiSetDesired env handle payload payloadSizeBytes m =
     (if \<not> session_ok handle then Some (EPERM, m)
      else case payload of
        Some v \<Rightarrow>
          if payloadSizeBytes \<le> 0 then Some (EINVAL, m)
          else set_status env (CallMpi env ''MpiSetDesired''
            (''{ '' @ dq ''ClientSession'' @ '': '' @ the handle @ '', '' @ dq ''Payload'' @ '': '' @ v @ '' }'') m)
      | None \<Rightarrow> Some (EINVAL, m))"

text \<open>The payload of a get is dropped when the platform reports an internal error, or when its
  length is not that of the C string.\<close>

definition get_result :: "'m mpi_env \<Rightarrow> 'm mpi_outcome \<Rightarrow> 'm mpi_outcome" where
  "get_result env r =
     map_option (\<lambda>(status, response, len, m').
        if status = HTTP_INTERNAL_SERVER_ERROR then
          (case response of
             Some t \<Rightarrow> if 0 < len then (status_text (mpi_strtod env) t, None, 0, m')
                       else (EINVAL, response, len, m')
           | None \<Rightarrow> (EINVAL, None, len, m'))
        else (case response of
                Some t \<Rightarrow> if len \<noteq> int (length (c_str t)) then (EINVAL, None, 0, m') else (status, response, len, m')
              | None \<Rightarrow> (status, None, len, m'))) r"

definition CallMpiGet :: "'m mpi_env \<Rightarrow> string option \<Rightarrow> string option \<Rightarrow> string option \<Rightarrow> 'm \<Rightarrow> 'm mpi_outcome" where
  "CallMpiGet env handle componentName propertyName m =
     (if \<not> session_ok handle then Some (EPERM, None, 0, m)
      else case (componentName, propertyName) of
        (Some c, Some p) \<Rightarrow>
          get_result env (CallMpi env ''MpiGet''
            (''{ '' @ dq ''ClientSession'' @ '': '' @ the handle @ '', '' @ dq ''ComponentName'' @ '': '' @ dq c @ '', ''
             @ dq ''ObjectName'' @ '': '' @ dq p @ '' }'') m)
      | _ \<Rightarrow> Some (EINVAL, None, 0, m))"

text \<open>\<open>CallMpiGetReported\<close> drops the payload of an internal error in every case.\<close>

definition drop_error_payload :: "int \<Rightarrow> 'm mpi_outcome \<Rightarrow> 'm mpi_outcome" where
  "drop_error_payload raw r =
     (if raw = HTTP_INTERNAL_SERVER_ERROR
      then map_option (\<lambda>(status, response, len, m'). (status, None, 0, m')) r else r)"

definition CallMpiGetReported :: "'m mpi_env \<Rightarrow> string option \<Rightarrow> 'm \<Rightarrow> 'm mpi_outcome" where
  "CallMpiGetReported env handle m =
     (if \<not> session_ok handle then Some (EPERM, None, 0, m)
      else let r = CallMpi env ''MpiGetReported'' (''{ '' @ dq ''ClientSession'' @ '': '' @ the handle @ '' }'') m
           in drop_error_payload (case r of None \<Rightarrow> 0 | Some (status, _) \<Rightarrow> status) (get_result env r))"

section \<open>Properties\<close>

lemma read_response_ok:
  assumes "head_ok pre (length body)" "length body < 2 ^ 31" "100 \<le> st" "st < 600"
  shows "read_response env (''HTTP/1.1'' @ '' '' @ to_string_nat st @ http_rest pre (length body) body) m =
    Some (if st = 200 then MPI_OK else int st, Some body, int (length body), m)"
  using status_read [OF assms(3,4)] content_length_read [OF assms(1,2)]
  by (simp add: read_response_def)

lemma CallMpi_ok:
  assumes "protect_socket env m = (0, m1)"
    and "mpi_exchange env (request_data name request) m1 =
      (Inr (''HTTP/1.1'' @ '' '' @ to_string_nat st @ http_rest pre (length body) body), m2)"
    and "head_ok pre (length body)" "length body < 2 ^ 31" "100 \<le> st" "st < 600"
  shows "CallMpi env name request m =
    Some (if st = 200 then MPI_OK else int st, Some body, int (length body), m2)"
  using assms(1,2) read_response_ok [OF assms(3-6), of env m2] by (simp add: CallMpi_def)

lemma c_str_length: "length (c_str t) = length t \<Longrightarrow> NUL \<notin> set t"
  by (metis c_str_def c_str_no_nul takeWhile_eq_take take_all_iff order_refl)

text \<open>The response of \<open>CallMpi\<close> has the length it says.\<close>

lemma CallMpi_length:
  "CallMpi env name request m = Some (status, Some t, len, m') \<Longrightarrow> len = int (length t)"
  by (auto simp: CallMpi_def read_response_def Let_def split: prod.splits sum.splits if_splits)

lemma CallMpiGet_payload:
  assumes "CallMpiGet env handle c p m = Some (status, Some t, len, m')"
  shows "len = int (length t) \<and> (NUL \<notin> set t \<or> status = EINVAL)"
proof -
  obtain request raw t' len' where call: "CallMpi env ''MpiGet'' request m = Some (raw, t', len', m')"
    and res: "get_result env (Some (raw, t', len', m')) = Some (status, Some t, len, m')"
    using assms by (auto simp: CallMpiGet_def get_result_def split: option.splits if_splits)
  have t: "t' = Some t" "len' = len"
    using res by (auto simp: get_result_def split: option.splits if_splits)
  then have len: "len = int (length t)" using CallMpi_length [of env _ request m raw t len m'] call by simp
  have "raw = HTTP_INTERNAL_SERVER_ERROR \<Longrightarrow> status = EINVAL"
    using res by (simp add: t get_result_def split: if_splits)
  moreover have "length (c_str t) = length t" if "raw \<noteq> HTTP_INTERNAL_SERVER_ERROR"
  proof -
    have "len = int (length (c_str t))" using res that by (simp add: t get_result_def split: if_splits)
    with len show ?thesis by simp
  qed
  ultimately show ?thesis using len c_str_length [of t] by blast
qed

text \<open>A body that is a JSON string without a leading number is taken as success by a set, whatever
  the HTTP status.\<close>

lemma set_status_text:
  "0 < len \<Longrightarrow> ParseString (mpi_strtod env) t = Some u \<Longrightarrow> strtol u 10 = None
   \<Longrightarrow> set_status env (Some (status, Some t, len, m)) = Some (0, m)"
  by (simp add: set_status_def status_text_def atoi_def int_of_long_def)

end
