(* ===== verification/Resource.thy ===== *)
theory Resource
  imports EngineInterface MpiClient Daemons
begin

text \<open>
  \<open>src/adapters/mc/OsConfigResource.c\<close>: the resource provider of machine configuration. Its state
  are the file's globals, which live as long as the library and keep values from one call to the
  next. A string that may be NULL is an option, strings are C strings, and allocation succeeds.
  An input property counts as present when it exists with a value that is not NULL. The calls of
  the management infrastructure (MI) may fail: their results are an argument, by the name of the
  element or call. What a handler posts is a list of events; the messages of the log, which are
  also posted, are not represented.
\<close>

section \<open>State\<close>

record ('w, 'm) resource =
  g_resourceId :: "string option"
  g_ruleId :: "string option"
  g_payloadKey :: "string option"
  g_componentName :: "string option"
  g_initObjectName :: "string option"
  g_procedureObjectName :: "string option"
  g_procedureObjectValue :: "string option"
  g_reportedObjectName :: "string option"
  g_expectedObjectValue :: "string option"
  g_desiredObjectName :: "string option"
  g_desiredObjectValue :: "string option"
  g_reportedObjectValue :: "string option"
  g_reportedMpiResult :: "32 word"
  g_mpiHandle :: "string option"
  g_baseline :: "'w baseline"
  g_machine :: 'm

text \<open>The platform client, over the machine it runs on. \<open>CallMpiSet\<close> and \<open>CallMpiGet\<close> read the global
  handle, their first argument.\<close>

record 'm mpi_client =
  mc_open :: "string \<Rightarrow> nat \<Rightarrow> 'm \<Rightarrow> string option \<times> 'm"
  mc_close :: "string option \<Rightarrow> 'm \<Rightarrow> 'm"
  mc_set :: "string option \<Rightarrow> string option \<Rightarrow> string option \<Rightarrow> string option \<Rightarrow> int \<Rightarrow> 'm \<Rightarrow> int \<times> 'm"
  mc_get :: "string option \<Rightarrow> string option \<Rightarrow> string option \<Rightarrow> 'm \<Rightarrow> (int \<times> string option \<times> int) \<times> 'm"
  mc_shell :: "'m shell"

record ('w, 'm) resource_env =
  r_fmt :: fmt_fun
  r_engine :: "'w engine_env"
  r_client :: "'m mpi_client"
  r_mi :: "string \<Rightarrow> int"

record os_input =
  in_ResourceId :: "string option"
  in_RuleId :: "string option"
  in_PayloadKey :: "string option"
  in_ComponentName :: "string option"
  in_InitObjectName :: "string option"
  in_ProcedureObjectName :: "string option"
  in_ProcedureObjectValue :: "string option"
  in_ReportedObjectName :: "string option"
  in_ExpectedObjectValue :: "string option"
  in_DesiredObjectName :: "string option"
  in_DesiredObjectValue :: "string option"

abbreviation MI_RESULT_OK :: int where "MI_RESULT_OK \<equiv> 0"
abbreviation MI_RESULT_FAILED :: int where "MI_RESULT_FAILED \<equiv> 1"
abbreviation MI_RESULT_INVALID_PARAMETER :: int where "MI_RESULT_INVALID_PARAMETER \<equiv> 4"
abbreviation MI_RESULT_NOT_SUPPORTED :: int where "MI_RESULT_NOT_SUPPORTED \<equiv> 7"

definition g_defaultValue :: string where "g_defaultValue = ''-''"
definition g_passValue :: string where "g_passValue = ''PASS''"
definition g_failValue :: string where "g_failValue = ''FAIL''"
definition g_osconfig :: string where "g_osconfig = ''osconfig''"
definition g_mpiServer :: string where "g_mpiServer = ''osconfig-platform''"
definition gComponentName :: string where "gComponentName = ''ComplianceEngine''"
definition MPI_CLIENT_NAME :: string where "MPI_CLIENT_NAME = ''OSConfig Universal NRP''"
definition MAX_PAYLOAD_LENGTH :: nat where "MAX_PAYLOAD_LENGTH = 0"

text \<open>The engine session is opened for \<open>gComponentName\<close>, which selects its formatter.\<close>

definition engine_side :: "('w, 'm) resource_env \<Rightarrow> 'w engine_env" where
  "engine_side env = client_env (r_fmt env) gComponentName (r_engine env)"

section \<open>Loading and unloading the library\<close>

definition Initialize ::
  "('w, 'm) resource_env \<Rightarrow> file_system \<Rightarrow> uname_result \<Rightarrow> int \<Rightarrow> 'w \<Rightarrow> ('w, 'm) resource \<Rightarrow> ('w, 'm) resource" where
  "Initialize env files unm stat_result w s =
     s\<lparr>g_resourceId := None, g_ruleId := Some g_defaultValue, g_payloadKey := Some g_defaultValue,
       g_componentName := Some g_defaultValue, g_initObjectName := Some g_defaultValue,
       g_procedureObjectName := Some g_defaultValue, g_procedureObjectValue := Some g_defaultValue,
       g_reportedObjectName := Some g_defaultValue, g_expectedObjectValue := Some g_passValue,
       g_desiredObjectName := Some g_defaultValue, g_desiredObjectValue := Some g_failValue,
       g_machine := (if g_mpiHandle s \<noteq> None then mc_close (r_client env) (g_mpiHandle s) (g_machine s) else g_machine s),
       g_mpiHandle := None,
       g_baseline := BaselineInitialize files unm stat_result w (g_baseline s)\<rparr>"

definition Destroy :: "('w, 'm) resource_env \<Rightarrow> ('w, 'm) resource \<Rightarrow> ('w, 'm) resource" where
  "Destroy env s =
     (let s1 =
        (case g_mpiHandle s of
           None \<Rightarrow> s\<lparr>g_baseline := BaselineShutdown (g_baseline s)\<rparr>
         | Some h \<Rightarrow>
             (let m1 = mc_close (r_client env) (Some h) (g_machine s);
                  (active, m2) = IsDaemonActive (mc_shell (r_client env)) (Some g_osconfig) m1;
                  (r, m3) = RestartDaemon (mc_shell (r_client env)) (Some (if active then g_osconfig else g_mpiServer)) m2
              in s\<lparr>g_mpiHandle := None, g_machine := m3\<rparr>))
      in s1\<lparr>g_resourceId := None, g_ruleId := None, g_payloadKey := None, g_componentName := None,
           g_initObjectName := None, g_procedureObjectName := None, g_procedureObjectValue := None,
           g_reportedObjectName := None, g_expectedObjectValue := None, g_desiredObjectName := None,
           g_desiredObjectValue := None, g_reportedObjectValue := None\<rparr>)"

section \<open>The platform session\<close>

text \<open>The version is asked for only if the global handle is set, which is the case for no caller.\<close>

definition LogOsConfigVersion :: "('w, 'm) resource_env \<Rightarrow> ('w, 'm) resource \<Rightarrow> ('w, 'm) resource" where
  "LogOsConfigVersion env s =
     (case g_mpiHandle s of
        None \<Rightarrow> s
      | Some h \<Rightarrow>
          (case mc_get (r_client env) (Some h) (Some ''DeviceInfo'') (Some ''osConfigVersion'') (g_machine s) of
             (r, m) \<Rightarrow> s\<lparr>g_machine := m\<rparr>))"

definition RefreshMpiClientSession ::
  "('w, 'm) resource_env \<Rightarrow> string option \<Rightarrow> ('w, 'm) resource \<Rightarrow> string option \<times> ('w, 'm) resource" where
  "RefreshMpiClientSession env currentMpiHandle s =
     (let sh = mc_shell (r_client env);
          (active, m1) = (if currentMpiHandle \<noteq> None then IsDaemonActive sh (Some g_mpiServer) (g_machine s)
                          else (False, g_machine s))
      in if active then (currentMpiHandle, s\<lparr>g_machine := m1\<rparr>)
         else
           let m2 = (if currentMpiHandle \<noteq> None then mc_close (r_client env) currentMpiHandle m1 else m1);
               (present, m3) = IsPresent sh (Some g_mpiServer) m2;
               (started, m4) = (if present = 0 then EnableAndStartDaemon sh (Some g_mpiServer) m3 else (False, m3))
           in if started then
                (case mc_open (r_client env) MPI_CLIENT_NAME MAX_PAYLOAD_LENGTH m4 of
                   (None, m5) \<Rightarrow> (None, s\<lparr>g_machine := m5\<rparr>)
                 | (Some h, m5) \<Rightarrow> (Some h, LogOsConfigVersion env (s\<lparr>g_machine := m5\<rparr>)))
              else (None, s\<lparr>g_machine := m4\<rparr>))"

definition refresh_if_needed :: "('w, 'm) resource_env \<Rightarrow> ('w, 'm) resource \<Rightarrow> ('w, 'm) resource" where
  "refresh_if_needed env s =
     (if g_mpiHandle s = None
      then (case RefreshMpiClientSession env None s of (h, s') \<Rightarrow> s'\<lparr>g_mpiHandle := h\<rparr>)
      else s)"

section \<open>Setting and reading objects\<close>

definition SetDesiredObjectValueToDevice ::
  "('w, 'm) resource_env \<Rightarrow> string option \<Rightarrow> string option \<Rightarrow> string option \<Rightarrow> ('w, 'm) resource
   \<Rightarrow> int \<times> ('w, 'm) resource" where
  "SetDesiredObjectValueToDevice env componentName objectName objectValue s =
     (if componentName = None \<or> objectName = None \<or> objectValue = None then (MI_RESULT_INVALID_PARAMETER, s)
      else case json_value_init_string (the objectValue) of
        None \<Rightarrow> (MI_RESULT_FAILED, s\<lparr>g_reportedMpiResult := word_of_int ENOMEM\<rparr>)
      | Some v \<Rightarrow>
          let payload = json_serialize_to_string (r_fmt env) v;
              (r1, b) = BaselineMmiSet (r_fmt env) (engine_side env) componentName objectName (Some payload)
                          (int (length payload)) (g_baseline s);
              s1 = s\<lparr>g_baseline := b\<rparr>;
              s2 = (if r1 \<noteq> MPI_OK then refresh_if_needed env s1 else s1);
              (r2, m) = (if r1 \<noteq> MPI_OK \<and> g_mpiHandle s2 \<noteq> None
                         then mc_set (r_client env) (g_mpiHandle s2) componentName objectName (Some payload)
                                (int (length payload)) (g_machine s2)
                         else (r1, g_machine s2));
              s3 = s2\<lparr>g_machine := m\<rparr>
          in (MI_RESULT_OK, if r2 \<noteq> MPI_OK then s3\<lparr>g_reportedMpiResult := word_of_int r2\<rparr> else s3))"

text \<open>The reported value out of the payload of a get: return codes of both layers, and the value.\<close>

definition reported_value :: "strtod_fun \<Rightarrow> string option \<Rightarrow> int \<Rightarrow> int \<times> int \<times> string option" where
  "reported_value strtod objectValue len =
     (case objectValue of
        None \<Rightarrow> (ENODATA, MI_RESULT_FAILED, None)
      | Some p \<Rightarrow>
          (case json_parse_string strtod (c_str (take (nat len) p)) of
             None \<Rightarrow> (EINVAL, MI_RESULT_INVALID_PARAMETER, None)
           | Some v \<Rightarrow>
               (case json_value_get_string (Some v) of
                  None \<Rightarrow> (EINVAL, MI_RESULT_INVALID_PARAMETER, None)
                | Some t \<Rightarrow> (MPI_OK, MI_RESULT_OK, Some t))))"

definition is_set :: "string option \<Rightarrow> bool" where
  "is_set x \<longleftrightarrow> x \<noteq> None \<and> x \<noteq> Some g_defaultValue"

definition GetReportedObjectValueFromDevice ::
  "('w, 'm) resource_env \<Rightarrow> string option \<Rightarrow> ('w, 'm) resource \<Rightarrow> int \<times> ('w, 'm) resource" where
  "GetReportedObjectValueFromDevice env componentName s =
     (if componentName = None then (MI_RESULT_INVALID_PARAMETER, s)
      else
        let s0 = (if is_set (g_initObjectName s) \<and> is_set (g_desiredObjectValue s)
                  then snd (SetDesiredObjectValueToDevice env componentName (g_initObjectName s) (g_desiredObjectValue s) s)
                  else s);
            ((r1, payload1, len1), b) =
              the (BaselineMmiGet (r_fmt env) (engine_side env) componentName (g_reportedObjectName s0) MAX_PAYLOAD_LENGTH (g_baseline s0));
            s1 = s0\<lparr>g_baseline := b\<rparr>;
            s2 = (if r1 \<noteq> MPI_OK then refresh_if_needed env s1 else s1);
            ((r2, payload2, len2), m) =
              (if r1 \<noteq> MPI_OK \<and> g_mpiHandle s2 \<noteq> None
               then mc_get (r_client env) (g_mpiHandle s2) componentName (g_reportedObjectName s2) (g_machine s2)
               else ((r1, payload1, len1), g_machine s2));
            s3 = s2\<lparr>g_machine := m\<rparr>;
            (mpiResult, miResult, val) =
              (if r2 = MPI_OK then reported_value (env_strtod (r_engine env)) payload2 len2 else (r2, MI_RESULT_FAILED, None))
        in (miResult, s3\<lparr>g_reportedObjectValue := (if val = None then g_reportedObjectValue s3 else val),
                         g_reportedMpiResult := word_of_int mpiResult\<rparr>))"

section \<open>Reading the input\<close>

text \<open>A required property ends the call when it is absent; an optional one leaves the global as it is.\<close>

definition required :: "string option \<Rightarrow> (string option \<Rightarrow> 's \<Rightarrow> 's) \<Rightarrow> ('s \<Rightarrow> int \<times> 's) \<Rightarrow> 's \<Rightarrow> int \<times> 's" where
  "required v upd k s = (if v = None then (MI_RESULT_FAILED, s) else k (upd v s))"

definition optional :: "string option \<Rightarrow> (string option \<Rightarrow> 's \<Rightarrow> 's) \<Rightarrow> ('s \<Rightarrow> int \<times> 's) \<Rightarrow> 's \<Rightarrow> int \<times> 's" where
  "optional v upd k s = k (if v = None then s else upd v s)"

abbreviation set_ruleId where "set_ruleId v \<equiv> g_ruleId_update (\<lambda>_. v)"
abbreviation set_payloadKey where "set_payloadKey v \<equiv> g_payloadKey_update (\<lambda>_. v)"
abbreviation set_componentName where "set_componentName v \<equiv> g_componentName_update (\<lambda>_. v)"
abbreviation set_reportedObjectName where "set_reportedObjectName v \<equiv> g_reportedObjectName_update (\<lambda>_. v)"
abbreviation set_desiredObjectName where "set_desiredObjectName v \<equiv> g_desiredObjectName_update (\<lambda>_. v)"
abbreviation set_desiredObjectValue where "set_desiredObjectValue v \<equiv> g_desiredObjectValue_update (\<lambda>_. v)"
abbreviation set_expectedObjectValue where "set_expectedObjectValue v \<equiv> g_expectedObjectValue_update (\<lambda>_. v)"

text \<open>The procedure object is optional, but has a value when it has a name; then it is set at once.\<close>

definition procedure_object ::
  "('w, 'm) resource_env \<Rightarrow> os_input \<Rightarrow> (('w, 'm) resource \<Rightarrow> int \<times> ('w, 'm) resource)
   \<Rightarrow> ('w, 'm) resource \<Rightarrow> int \<times> ('w, 'm) resource" where
  "procedure_object env i k s =
     (let s1 = s\<lparr>g_procedureObjectName := in_ProcedureObjectName i\<rparr> in
      if in_ProcedureObjectName i = None then k s1
      else if in_ProcedureObjectValue i = None then (MI_RESULT_FAILED, s1\<lparr>g_procedureObjectValue := None\<rparr>)
      else let s2 = s1\<lparr>g_procedureObjectValue := in_ProcedureObjectValue i\<rparr>
           in k (snd (SetDesiredObjectValueToDevice env (g_componentName s2) (g_procedureObjectName s2)
                        (g_procedureObjectValue s2) s2)))"

definition init_object :: "os_input \<Rightarrow> (('w, 'm) resource \<Rightarrow> int \<times> ('w, 'm) resource)
   \<Rightarrow> ('w, 'm) resource \<Rightarrow> int \<times> ('w, 'm) resource" where
  "init_object i k s = k (s\<lparr>g_initObjectName := in_InitObjectName i\<rparr>)"

definition applicable ::
  "(('w, 'm) resource \<Rightarrow> int \<times> ('w, 'm) resource) \<Rightarrow> ('w, 'm) resource \<Rightarrow> int \<times> ('w, 'm) resource" where
  "applicable k s =
     (if BaselineIsCorrectDistribution (g_payloadKey s) (g_baseline s) \<noteq> 0 then (MI_RESULT_NOT_SUPPORTED, s)
      else k s)"

section \<open>What is posted\<close>

datatype mi_value =
    MI_STRING "string option"
  | MI_UINT32 "32 word"
  | MI_REASON string string

datatype mi_event =
    GetInstance "(string \<times> mi_value) list"
  | TestInstance bool
  | SetInstance
  | PostResult int

text \<open>MI calls in order: the result of the first one that fails, or success.\<close>

fun mi_calls :: "(string \<Rightarrow> int) \<Rightarrow> string list \<Rightarrow> int" where
  "mi_calls mi [] = MI_RESULT_OK"
| "mi_calls mi (c # cs) = (if mi c \<noteq> MI_RESULT_OK then mi c else mi_calls mi cs)"

section \<open>GetTargetResource\<close>

definition Get_read ::
  "('w, 'm) resource_env \<Rightarrow> os_input \<Rightarrow> ('w, 'm) resource \<Rightarrow> int \<times> ('w, 'm) resource" where
  "Get_read env i s =
     (required (in_RuleId i) set_ruleId
     (required (in_PayloadKey i) set_payloadKey
     (required (in_ComponentName i) set_componentName
     (init_object i
     (procedure_object env i
     (required (in_ReportedObjectName i) set_reportedObjectName
     (optional (in_DesiredObjectName i) set_desiredObjectName
     (optional (in_DesiredObjectValue i) set_desiredObjectValue
     (applicable (\<lambda>s.
        case GetReportedObjectValueFromDevice env (g_componentName s) s of
          (r, s') \<Rightarrow>
            if r \<noteq> MI_RESULT_OK then (r, s')
            else optional (in_ExpectedObjectValue i) set_expectedObjectValue (Pair MI_RESULT_OK) s'))))))))))
       (s\<lparr>g_resourceId := in_ResourceId i\<rparr>)"

definition Get_compliant :: "('w, 'm) resource \<Rightarrow> bool" where
  "Get_compliant s =
     (case g_expectedObjectValue s of None \<Rightarrow> False | Some e \<Rightarrow> starts_with e (the (g_reportedObjectValue s)))"

definition reason_code :: "bool \<Rightarrow> ('w, 'm) resource \<Rightarrow> string" where
  "reason_code isCompliant s =
     (if BaselineIsValidResourceIdRuleId (g_resourceId s) (g_ruleId s) (g_payloadKey s) = 0
      then (if isCompliant then ''BaselineSettingCompliant:{'' else ''BaselineSettingNotCompliant:{'')
           @ the (g_ruleId s) @ ''}''
      else (if isCompliant then ''Audit passed for an invalid resource and/or rule id. See /var/log/kompli/kompli.*''
            else ''Audit failed for an invalid resource and/or rule id. See /var/log/kompli/kompli.*''))"

text \<open>A compliant value is cut behind the expected prefix. There is no phrase when the value is
  shorter, which a compliant value is not.\<close>

definition reason_phrase :: "bool \<Rightarrow> string \<Rightarrow> string \<Rightarrow> string option" where
  "reason_phrase isCompliant reported expected =
     (if isCompliant then
        (if reported = expected then Some ''Audit passed''
         else if length expected < length reported then Some (drop (length expected) reported)
         else None)
      else if reported = g_failValue then Some ''Audit failed. See /var/log/kompli/kompli.*''
      else Some reported)"

definition when_given :: "string option \<Rightarrow> string \<Rightarrow> string option \<Rightarrow> (string \<times> mi_value) list" where
  "when_given input name val = (if input = None then [] else [(name, MI_STRING val)])"

definition Get_elements :: "os_input \<Rightarrow> ('w, 'm) resource \<Rightarrow> (string \<times> mi_value) list" where
  "Get_elements i s =
     [(''RuleId'', MI_STRING (g_ruleId s)), (''PayloadKey'', MI_STRING (g_payloadKey s)),
      (''ComponentName'', MI_STRING (g_componentName s)),
      (''ReportedObjectName'', MI_STRING (g_reportedObjectName s)),
      (''ReportedObjectValue'', MI_STRING (g_reportedObjectValue s))]
     @ when_given (in_ExpectedObjectValue i) ''ExpectedObjectValue'' (g_expectedObjectValue s)
     @ when_given (in_DesiredObjectName i) ''DesiredObjectName'' (g_desiredObjectName s)
     @ when_given (in_DesiredObjectValue i) ''DesiredObjectValue'' (g_desiredObjectValue s)
     @ when_given (in_ProcedureObjectName i) ''ProcedureObjectName'' (g_procedureObjectName s)
     @ when_given (in_ProcedureObjectValue i) ''ProcedureObjectValue'' (g_procedureObjectValue s)
     @ [(''ReportedMpiResult'', MI_UINT32 (g_reportedMpiResult s))]"

definition Get_output ::
  "('w, 'm) resource_env \<Rightarrow> os_input \<Rightarrow> ('w, 'm) resource \<Rightarrow> int \<times> mi_event list" where
  "Get_output env i s =
     (let isCompliant = Get_compliant s;
          elements = Get_elements i s;
          r1 = mi_calls (r_mi env) ([''GetTargetResource_Construct'', ''GetTargetResource_Set_MIReturn'', ''NewInstance''] @ map fst elements)
      in if r1 \<noteq> MI_RESULT_OK then (r1, [])
         else case reason_phrase isCompliant (the (g_reportedObjectValue s)) (the (g_expectedObjectValue s)) of
           None \<Rightarrow> (MI_RESULT_FAILED, [])
         | Some phrase \<Rightarrow>
             let reason = (''Reasons'', MI_REASON (reason_code isCompliant s) phrase);
                 r2 = mi_calls (r_mi env) [''NewInstance ReasonClass'', ''Code'', ''Phrase'', ''Reasons'', ''OutputResource'', ''GetTargetResource_Post'']
             in if r2 \<noteq> MI_RESULT_OK then (r2, [])
                else (MI_RESULT_OK, [GetInstance (elements @ [reason])]))"

definition Invoke_GetTargetResource ::
  "('w, 'm) resource_env \<Rightarrow> os_input option \<Rightarrow> ('w, 'm) resource \<Rightarrow> mi_event list \<times> ('w, 'm) resource" where
  "Invoke_GetTargetResource env inp s =
     (case inp of
        None \<Rightarrow> ([PostResult MI_RESULT_FAILED], s)
      | Some i \<Rightarrow>
          (case Get_read env i s of
             (r, s') \<Rightarrow>
               if r \<noteq> MI_RESULT_OK then ([PostResult r], s')
               else (case Get_output env i s' of (r', evs) \<Rightarrow> (evs @ [PostResult r'], s'))))"

section \<open>TestTargetResource\<close>

definition Test_read ::
  "('w, 'm) resource_env \<Rightarrow> os_input \<Rightarrow> ('w, 'm) resource \<Rightarrow> int \<times> ('w, 'm) resource" where
  "Test_read env i s =
     required (in_RuleId i) set_ruleId
     (required (in_PayloadKey i) set_payloadKey
     (required (in_ComponentName i) set_componentName
     (init_object i
     (required (in_ReportedObjectName i) set_reportedObjectName
     (optional (in_DesiredObjectValue i) set_desiredObjectValue
     (procedure_object env i
     (applicable (\<lambda>s. GetReportedObjectValueFromDevice env (g_componentName s) s)))))))) s"

definition Test_compliant :: "os_input \<Rightarrow> ('w, 'm) resource \<Rightarrow> bool" where
  "Test_compliant i s =
     (case g_reportedObjectValue s of
        None \<Rightarrow> False
      | Some reported \<Rightarrow>
          starts_with (case in_ExpectedObjectValue i of None \<Rightarrow> the (g_expectedObjectValue s) | Some e \<Rightarrow> e) reported)"

definition Invoke_TestTargetResource ::
  "('w, 'm) resource_env \<Rightarrow> os_input option \<Rightarrow> ('w, 'm) resource \<Rightarrow> mi_event list \<times> ('w, 'm) resource" where
  "Invoke_TestTargetResource env inp s =
     (case inp of
        None \<Rightarrow> ([PostResult MI_RESULT_FAILED], s)
      | Some i \<Rightarrow>
          (case Test_read env i s of
             (r, s') \<Rightarrow>
               if r \<noteq> MI_RESULT_OK then ([PostResult r], s')
               else let r' = mi_calls (r_mi env) [''TestTargetResource_Construct'', ''TestTargetResource_Set_MIReturn'']
                    in if r' \<noteq> MI_RESULT_OK then ([PostResult r'], s')
                       else ([TestInstance (Test_compliant i s'), PostResult MI_RESULT_OK], s')))"

section \<open>SetTargetResource\<close>

definition Set_read ::
  "('w, 'm) resource_env \<Rightarrow> os_input \<Rightarrow> ('w, 'm) resource \<Rightarrow> int \<times> ('w, 'm) resource" where
  "Set_read env i s =
     required (in_RuleId i) set_ruleId
     (required (in_PayloadKey i) set_payloadKey
     (required (in_ComponentName i) set_componentName
     (required (in_DesiredObjectName i) set_desiredObjectName
     (required (in_DesiredObjectValue i) set_desiredObjectValue
     (procedure_object env i
     (applicable (\<lambda>s. (MI_RESULT_OK,
        snd (SetDesiredObjectValueToDevice env (g_componentName s) (g_desiredObjectName s)
               (g_desiredObjectValue s) s))))))))) s"

definition Invoke_SetTargetResource ::
  "('w, 'm) resource_env \<Rightarrow> os_input option \<Rightarrow> ('w, 'm) resource \<Rightarrow> mi_event list \<times> ('w, 'm) resource" where
  "Invoke_SetTargetResource env inp s =
     (let (evs, r, s') =
        (case inp of
           None \<Rightarrow> ([], MI_RESULT_FAILED, s)
         | Some i \<Rightarrow>
             let r = mi_calls (r_mi env) [''SetTargetResource_Construct'', ''SetTargetResource_Set_MIReturn'']
             in if r \<noteq> MI_RESULT_OK then ([], r, s)
                else (case Set_read env i s of (r', s') \<Rightarrow> ([SetInstance], r', s')))
      in (evs @ [PostResult r], if r \<noteq> MI_RESULT_OK then s'\<lparr>g_reportedMpiResult := word_of_int r\<rparr> else s'))"

section \<open>The other operations\<close>

definition OsConfigResource_Load :: "('w, 'm) resource \<Rightarrow> mi_event list \<times> ('w, 'm) resource" where
  "OsConfigResource_Load s = ([PostResult MI_RESULT_OK], s\<lparr>g_baseline := BaselineMmiLoad (g_baseline s)\<rparr>)"

definition OsConfigResource_Unload :: "('w, 'm) resource \<Rightarrow> mi_event list \<times> ('w, 'm) resource" where
  "OsConfigResource_Unload s = ([PostResult MI_RESULT_OK], s\<lparr>g_baseline := BaselineMmiUnload (g_baseline s)\<rparr>)"

datatype unsupported = EnumerateInstances | GetInstanceCall | CreateInstance | ModifyInstance | DeleteInstance

definition OsConfigResource_unsupported :: "unsupported \<Rightarrow> ('w, 'm) resource \<Rightarrow> mi_event list \<times> ('w, 'm) resource" where
  "OsConfigResource_unsupported u s = ([PostResult MI_RESULT_NOT_SUPPORTED], s)"

datatype mi_request =
    LoadRequest | UnloadRequest
  | GetRequest "os_input option" | TestRequest "os_input option" | SetRequest "os_input option"
  | UnsupportedRequest unsupported

fun resource_step ::
  "('w, 'm) resource_env \<Rightarrow> mi_request \<Rightarrow> ('w, 'm) resource \<Rightarrow> mi_event list \<times> ('w, 'm) resource" where
  "resource_step env LoadRequest s = OsConfigResource_Load s"
| "resource_step env UnloadRequest s = OsConfigResource_Unload s"
| "resource_step env (GetRequest i) s = Invoke_GetTargetResource env i s"
| "resource_step env (TestRequest i) s = Invoke_TestTargetResource env i s"
| "resource_step env (SetRequest i) s = Invoke_SetTargetResource env i s"
| "resource_step env (UnsupportedRequest u) s = OsConfigResource_unsupported u s"

end
