(* ===== verification/ResourceProps.thy ===== *)
theory ResourceProps
  imports Resource
begin

text \<open>
  Properties of the resource provider: which globals a call changes, the invariant of its state,
  and the verdicts it posts. The end-to-end lemma follows a test from the input of machine
  configuration through the engine's audit and the two JSON layers to the posted result.
\<close>

section \<open>The globals a call changes\<close>

definition texts where
  "texts s = (g_resourceId s, g_ruleId s, g_payloadKey s, g_componentName s, g_initObjectName s,
     g_procedureObjectName s, g_procedureObjectValue s, g_reportedObjectName s, g_expectedObjectValue s,
     g_desiredObjectName s, g_desiredObjectValue s)"

lemma texts_sel:
  assumes "texts s = texts s'"
  shows "g_resourceId s = g_resourceId s'" "g_ruleId s = g_ruleId s'" "g_payloadKey s = g_payloadKey s'"
    "g_componentName s = g_componentName s'" "g_initObjectName s = g_initObjectName s'"
    "g_reportedObjectName s = g_reportedObjectName s'" "g_expectedObjectValue s = g_expectedObjectValue s'"
    "g_desiredObjectName s = g_desiredObjectName s'" "g_desiredObjectValue s = g_desiredObjectValue s'"
  using assms by (simp_all add: texts_def)

lemma texts_update [simp]:
  "texts (s\<lparr>g_baseline := b\<rparr>) = texts s" "texts (s\<lparr>g_machine := m\<rparr>) = texts s"
  "texts (s\<lparr>g_mpiHandle := h\<rparr>) = texts s" "texts (s\<lparr>g_reportedMpiResult := r\<rparr>) = texts s" "texts (s\<lparr>g_reportedObjectValue := v\<rparr>) = texts s"
  by (simp_all add: texts_def)

lemma texts_LogOsConfigVersion [simp]: "texts (LogOsConfigVersion env s) = texts s"
  by (simp add: LogOsConfigVersion_def split: option.splits prod.splits)

lemma texts_Refresh: "RefreshMpiClientSession env h s = (h', s') \<Longrightarrow> texts s' = texts s"
  by (auto simp: RefreshMpiClientSession_def Let_def split: prod.splits if_splits option.splits)

lemma texts_refresh_if_needed [simp]: "texts (refresh_if_needed env s) = texts s"
proof (cases "g_mpiHandle s")
  case None
  obtain h s' where r: "RefreshMpiClientSession env None s = (h, s')" by fastforce
  then show ?thesis using texts_Refresh [OF r] by (simp add: refresh_if_needed_def None)
qed (simp add: refresh_if_needed_def)

lemma texts_SetDesired [simp]: "texts (snd (SetDesiredObjectValueToDevice env c ob v s)) = texts s"
  by (simp add: SetDesiredObjectValueToDevice_def Let_def split: option.splits prod.splits)

lemma texts_GetReported: "texts (snd (GetReportedObjectValueFromDevice env c s)) = texts s"
  by (simp add: GetReportedObjectValueFromDevice_def Let_def split: prod.splits)

section \<open>Frames\<close>

text \<open>A frame is a relation between the states before and behind a call that holds for every
  elementary change the handlers make: the present values of the input they store, the procedure
  and initialisation objects, and whatever leaves the strings alone. Then it holds for the
  handlers. Frames that also allow a new expected value hold for a get, too.\<close>

definition framed :: "(('w, 'm) resource \<Rightarrow> ('w, 'm) resource \<Rightarrow> bool)
    \<Rightarrow> (('w, 'm) resource \<Rightarrow> int \<times> ('w, 'm) resource) \<Rightarrow> bool" where
  "framed R k \<longleftrightarrow> (\<forall>s. R s (snd (k s)))"

locale resource_frame =
  fixes R :: "('w, 'm) resource \<Rightarrow> ('w, 'm) resource \<Rightarrow> bool"
  assumes frame_trans: "R s t \<Longrightarrow> R t u \<Longrightarrow> R s u"
    and frame_texts: "texts t = texts s \<Longrightarrow> R s t"
    and frame_optional: "R s (s\<lparr>g_resourceId := v\<rparr>)" "R s (s\<lparr>g_initObjectName := v\<rparr>)"
      "R s (s\<lparr>g_procedureObjectName := v\<rparr>)" "R s (s\<lparr>g_procedureObjectValue := v\<rparr>)"
    and frame_value: "R s (s\<lparr>g_ruleId := Some x\<rparr>)" "R s (s\<lparr>g_payloadKey := Some x\<rparr>)"
      "R s (s\<lparr>g_componentName := Some x\<rparr>)" "R s (s\<lparr>g_reportedObjectName := Some x\<rparr>)"
      "R s (s\<lparr>g_desiredObjectName := Some x\<rparr>)" "R s (s\<lparr>g_desiredObjectValue := Some x\<rparr>)"
begin

lemma frame_refl: "R s s"
  by (rule frame_texts) simp

lemma framed_required:
  assumes "framed R k" "\<And>s x. v = Some x \<Longrightarrow> R s (upd v s)"
  shows "framed R (required v upd k)"
  using assms frame_trans frame_refl by (fastforce simp: framed_def required_def)

lemma framed_optional:
  assumes "framed R k" "\<And>s x. v = Some x \<Longrightarrow> R s (upd v s)"
  shows "framed R (optional v upd k)"
  using assms frame_trans by (fastforce simp: framed_def optional_def)

lemma framed_init_object: "framed R k \<Longrightarrow> framed R (init_object i k)"
  using frame_trans frame_optional(2) by (fastforce simp: framed_def init_object_def)

lemma framed_applicable: "framed R k \<Longrightarrow> framed R (applicable k)"
  using frame_refl by (simp add: framed_def applicable_def)

lemma framed_procedure_object:
  assumes "framed R k"
  shows "framed R (procedure_object env i k)"
  unfolding framed_def
proof
  fix s :: "('w, 'm) resource"
  let ?s1 = "s\<lparr>g_procedureObjectName := in_ProcedureObjectName i\<rparr>"
  have s1: "R s ?s1" by (rule frame_optional)
  have "R s (?s1\<lparr>g_procedureObjectValue := v\<rparr>)" for v using frame_trans [OF s1 frame_optional(4)] .
  moreover have "R s (snd (k (snd (SetDesiredObjectValueToDevice env c ob v t))))" if "R s t" for c ob v t
  proof -
    have "R t (snd (SetDesiredObjectValueToDevice env c ob v t))" by (rule frame_texts) simp
    then show ?thesis using that assms frame_trans unfolding framed_def by blast
  qed
  moreover have "R s (snd (k ?s1))" using assms s1 frame_trans unfolding framed_def by blast
  ultimately show "R s (snd (procedure_object env i k s))"
    by - (cases "in_ProcedureObjectName i"; cases "in_ProcedureObjectValue i"; simp add: procedure_object_def Let_def)
qed

lemma framed_reported: "framed R (\<lambda>s. GetReportedObjectValueFromDevice env (g_componentName s) s)"
  by (simp add: framed_def frame_texts texts_GetReported)

lemmas framed_rules =
  framed_required framed_optional framed_init_object framed_applicable framed_procedure_object

lemma framed_Test_read: "framed R (Test_read env i)"
  unfolding Test_read_def [abs_def] by (intro framed_rules framed_reported) (simp_all add: frame_value)

lemma framed_Set_read: "framed R (Set_read env i)"
proof -
  have "framed R (\<lambda>s. (MI_RESULT_OK, snd (SetDesiredObjectValueToDevice env (g_componentName s) (g_desiredObjectName s)
      (g_desiredObjectValue s) s)))"
    by (simp add: framed_def frame_texts)
  then show ?thesis
    unfolding Set_read_def [abs_def] by (intro framed_rules) (simp_all add: frame_value)
qed

lemma frame_Test: "R s (snd (Invoke_TestTargetResource env inp s))"
  using framed_Test_read [of env "the inp"] frame_refl
  by (auto simp: Invoke_TestTargetResource_def framed_def Let_def split: option.splits prod.splits) (metis snd_conv)+

lemma frame_Set: "R s (snd (Invoke_SetTargetResource env inp s))"
proof -
  have mpi: "R s t \<Longrightarrow> R s (t\<lparr>g_reportedMpiResult := r\<rparr>)" for t r
    using frame_trans frame_texts [of "t\<lparr>g_reportedMpiResult := r\<rparr>" t] by simp
  have read: "Set_read env i s = (r, t) \<Longrightarrow> R s t" for i r t
    using framed_Set_read [of env i] by (metis framed_def snd_conv)
  show ?thesis
    using read mpi frame_refl
    by (auto simp: Invoke_SetTargetResource_def Let_def split: option.splits prod.splits)
qed

end

locale resource_frame_get = resource_frame R
  for R :: "('w, 'm) resource \<Rightarrow> ('w, 'm) resource \<Rightarrow> bool" +
  assumes frame_expected: "R s (s\<lparr>g_expectedObjectValue := Some x\<rparr>)"
begin

lemma framed_tail:
  "framed R (\<lambda>s. case GetReportedObjectValueFromDevice env (g_componentName s) s of
     (r, s') \<Rightarrow> if r \<noteq> MI_RESULT_OK then (r, s')
                else optional (in_ExpectedObjectValue i) set_expectedObjectValue (Pair MI_RESULT_OK) s')"
  unfolding framed_def
proof
  fix s :: "('w, 'm) resource"
  obtain r t where rt: "GetReportedObjectValueFromDevice env (g_componentName s) s = (r, t)" by fastforce
  have t: "R s t" using framed_reported [of env] rt unfolding framed_def by (metis snd_conv)
  moreover have "R s (t\<lparr>g_expectedObjectValue := Some x\<rparr>)" for x using frame_trans [OF t frame_expected] .
  ultimately show "R s (snd (case GetReportedObjectValueFromDevice env (g_componentName s) s of
     (r, s') \<Rightarrow> if r \<noteq> MI_RESULT_OK then (r, s')
                else optional (in_ExpectedObjectValue i) set_expectedObjectValue (Pair MI_RESULT_OK) s'))"
    by (cases "in_ExpectedObjectValue i") (simp_all add: rt optional_def)
qed

lemma frame_Get_read: "R s (snd (Get_read env i s))"
proof -
  have "framed R (required (in_RuleId i) set_ruleId
     (required (in_PayloadKey i) set_payloadKey
     (required (in_ComponentName i) set_componentName
     (init_object i
     (procedure_object env i
     (required (in_ReportedObjectName i) set_reportedObjectName
     (optional (in_DesiredObjectName i) set_desiredObjectName
     (optional (in_DesiredObjectValue i) set_desiredObjectValue
     (applicable (\<lambda>s.
        case GetReportedObjectValueFromDevice env (g_componentName s) s of
          (r, s') \<Rightarrow>
            if r \<noteq> MI_RESULT_OK then (r, s')
            else optional (in_ExpectedObjectValue i) set_expectedObjectValue (Pair MI_RESULT_OK) s'))))))))))"
    by (intro framed_rules framed_tail) (simp_all add: frame_value)
  then show ?thesis
    using frame_trans [OF frame_optional(1)] unfolding framed_def Get_read_def by blast
qed

lemma frame_Get: "R s (snd (Invoke_GetTargetResource env inp s))"
  using frame_Get_read [of s env "the inp"] frame_refl
  by (auto simp: Invoke_GetTargetResource_def split: option.splits prod.splits)

lemma frame_step: "R s (snd (resource_step env req s))"
proof (cases req)
  case LoadRequest
  then show ?thesis by (simp add: OsConfigResource_Load_def frame_texts)
next
  case UnloadRequest
  then show ?thesis by (simp add: OsConfigResource_Unload_def frame_texts)
qed (simp_all add: frame_Get frame_Test frame_Set OsConfigResource_unsupported_def frame_refl)

end

section \<open>Invariant\<close>

text \<open>The strings that the handlers read without a test are there.\<close>

definition resource_ok :: "('w, 'm) resource \<Rightarrow> bool" where
  "resource_ok s \<longleftrightarrow> g_ruleId s \<noteq> None \<and> g_payloadKey s \<noteq> None \<and> g_componentName s \<noteq> None
     \<and> g_reportedObjectName s \<noteq> None \<and> g_expectedObjectValue s \<noteq> None
     \<and> g_desiredObjectName s \<noteq> None \<and> g_desiredObjectValue s \<noteq> None"

interpretation ok_frame: resource_frame_get "\<lambda>s t. resource_ok s \<longrightarrow> resource_ok t"
  by unfold_locales (auto simp: resource_ok_def texts_def)

interpretation expected_frame: resource_frame "\<lambda>s t. g_expectedObjectValue t = g_expectedObjectValue s"
  by unfold_locales (auto simp: texts_def)

lemma resource_ok_step: "resource_ok s \<Longrightarrow> resource_ok (snd (resource_step env req s))"
  using ok_frame.frame_step by blast

lemma resource_ok_Initialize: "resource_ok (Initialize env files unm stat w s)"
  by (simp add: resource_ok_def Initialize_def)

text \<open>Sessions of the library: after its initialisation any sequence of requests.\<close>

fun resource_run ::
  "('w, 'm) resource_env \<Rightarrow> mi_request list \<Rightarrow> ('w, 'm) resource \<Rightarrow> mi_event list list \<times> ('w, 'm) resource" where
  "resource_run env [] s = ([], s)"
| "resource_run env (q # qs) s =
     (case resource_step env q s of (ev, s1) \<Rightarrow>
        case resource_run env qs s1 of (evs, s2) \<Rightarrow> (ev # evs, s2))"

lemma resource_ok_run: "resource_ok s \<Longrightarrow> resource_ok (snd (resource_run env qs s))"
proof (induction qs arbitrary: s)
  case (Cons q qs)
  have "resource_ok (snd (resource_step env q s))" using Cons.prems by (rule resource_ok_step)
  then show ?case using Cons.IH by (simp add: split_beta)
qed simp

section \<open>From the engine to the reported value\<close>

text \<open>An audit whose text can be carried by a JSON string is read back as that text, without the
  platform.\<close>

definition audited :: "('w, 'm) resource_env \<Rightarrow> 'w session \<Rightarrow> string \<Rightarrow> status \<Rightarrow> string \<Rightarrow> 'w engine \<Rightarrow> bool" where
  "audited env ses ob st t en \<longleftrightarrow>
     (\<exists>r. MmiGet (engine_side env) (Some ob) (ses_engine ses) = (r, en)
        \<and> (case r of Inl e \<Rightarrow> \<not> critical e | Inr x \<Rightarrow> True) \<and> audit_result r = (st, t)
        \<and> clean (audit_text st t))"

lemma audited_MmiGet:
  assumes "audited env ses ob st t en"
  shows "ComplianceEngineMmiGet fmt (engine_side env) (Some ''ComplianceEngine'') (Some ob) (Some ses) =
    ((MMI_OK, Some (json_serialize_to_string fmt (JString (audit_text st t))),
      int (length (json_serialize_to_string fmt (JString (audit_text st t))))), Some (ses\<lparr>ses_engine := en\<rparr>))"
proof -
  obtain r where r: "MmiGet (engine_side env) (Some ob) (ses_engine ses) = (r, en)"
      "case r of Inl e \<Rightarrow> \<not> critical e | Inr x \<Rightarrow> True" "audit_result r = (st, t)" "clean (audit_text st t)"
    using assms by (auto simp: audited_def)
  have "JsonWrapper_FromJsonString (audit_text st t) = Inr (JString (audit_text st t))"
    using r(4) by (simp add: FromJsonString_Inr clean_def)
  then show ?thesis
    using r(1-3) by (cases r) (simp_all add: ComplianceEngineMmiGet_def Let_def)
qed

lemma c_str_take_all: "NUL \<notin> set p \<Longrightarrow> c_str (take (length p) p) = p"
  by simp

lemma serialized_no_nul: "NUL \<notin> set (json_serialize_to_string fmt (JString t))"
  by (simp only: json_serialize_to_string_def serialize_plain_no_nul json_plain.simps simp_thms)

lemma reported_value_string:
  assumes "clean t"
  shows "reported_value strtod (Some (json_serialize_to_string fmt (JString t)))
      (int (length (json_serialize_to_string fmt (JString t)))) = (MPI_OK, MI_RESULT_OK, Some t)"
  using assms serialized_no_nul [of fmt t] parse_serialized_string [of strtod fmt t]
  by (simp add: reported_value_def json_value_get_string_def clean_def)

lemma GetReported_audited:
  assumes "gComplianceEngine (g_baseline s) = Some ses" "g_reportedObjectName s = Some ob"
    and "g_initObjectName s = None" and "audited env ses ob st t en"
  shows "GetReportedObjectValueFromDevice env (Some ''ComplianceEngine'') s =
    (MI_RESULT_OK, s\<lparr>g_baseline := (g_baseline s)\<lparr>gComplianceEngine := Some (ses\<lparr>ses_engine := en\<rparr>)\<rparr>,
       g_reportedObjectValue := Some (audit_text st t), g_reportedMpiResult := 0\<rparr>)"
proof -
  let ?p = "json_serialize_to_string (r_fmt env) (JString (audit_text st t))"
  have get: "BaselineMmiGet (r_fmt env) (engine_side env) (Some ''ComplianceEngine'') (Some ob) MAX_PAYLOAD_LENGTH (g_baseline s) =
      Some ((MMI_OK, Some ?p, int (length ?p)), (g_baseline s)\<lparr>gComplianceEngine := Some (ses\<lparr>ses_engine := en\<rparr>)\<rparr>)"
    using audited_MmiGet [OF assms(4), of "r_fmt env"] assms(1)
    by (simp add: BaselineMmiGet_def MAX_PAYLOAD_LENGTH_def)
  have val: "reported_value strtod (Some ?p) (int (length ?p)) = (MPI_OK, MI_RESULT_OK, Some (audit_text st t))" for strtod
    using assms(4) by (intro reported_value_string) (auto simp: audited_def)
  show ?thesis
    using assms(2,3) get
    by (simp add: GetReportedObjectValueFromDevice_def is_set_def val)
qed

section \<open>The verdict of a test\<close>

text \<open>A test of a rule alone: the required properties, no initialisation and no procedure object, and
  PASS expected, by the input or by default.\<close>

definition plain_test :: "os_input \<Rightarrow> string \<Rightarrow> string \<Rightarrow> bool" where
  "plain_test i key ob \<longleftrightarrow>
     in_RuleId i \<noteq> None \<and> in_PayloadKey i = Some key \<and> in_ComponentName i = Some ''ComplianceEngine''
     \<and> in_InitObjectName i = None \<and> in_ProcedureObjectName i = None \<and> in_ReportedObjectName i = Some ob"

definition expects :: "os_input \<Rightarrow> ('w, 'm) resource \<Rightarrow> string" where
  "expects i s = (case in_ExpectedObjectValue i of None \<Rightarrow> the (g_expectedObjectValue s) | Some e \<Rightarrow> e)"

lemma applicable_here:
  "BaselineIsCorrectDistribution (g_payloadKey s) (g_baseline s) = 0 \<Longrightarrow> applicable k s = k s"
  by (simp add: applicable_def)

lemma Test_read_audited:
  assumes "plain_test i key ob"
    and "BaselineIsCorrectDistribution (Some key) (g_baseline s) = 0"
    and "gComplianceEngine (g_baseline s) = Some ses" and "audited env ses ob st t en"
  shows "\<exists>s'. Test_read env i s = (MI_RESULT_OK, s') \<and> g_reportedObjectValue s' = Some (audit_text st t)
    \<and> g_expectedObjectValue s' = g_expectedObjectValue s
    \<and> gComplianceEngine (g_baseline s') = Some (ses\<lparr>ses_engine := en\<rparr>)"
proof -
  define s1 where "s1 = s\<lparr>g_ruleId := in_RuleId i, g_payloadKey := Some key, g_componentName := Some ''ComplianceEngine'',
    g_initObjectName := None, g_reportedObjectName := Some ob\<rparr>"
  define s2 where "s2 = (if in_DesiredObjectValue i = None then s1 else s1\<lparr>g_desiredObjectValue := in_DesiredObjectValue i\<rparr>)
    \<lparr>g_procedureObjectName := None\<rparr>"
  have s2: "g_baseline s2 = g_baseline s" "g_payloadKey s2 = Some key" "g_componentName s2 = Some ''ComplianceEngine''"
    "g_initObjectName s2 = None" "g_reportedObjectName s2 = Some ob" "g_expectedObjectValue s2 = g_expectedObjectValue s"
    by (simp_all add: s2_def s1_def)
  obtain rule where rule: "in_RuleId i = Some rule" using assms(1) by (auto simp: plain_test_def)
  have "Test_read env i s = applicable (\<lambda>s. GetReportedObjectValueFromDevice env (g_componentName s) s) s2"
    using assms(1) by (simp add: Test_read_def plain_test_def required_def optional_def init_object_def procedure_object_def s2_def s1_def rule)
  also have "\<dots> = GetReportedObjectValueFromDevice env (Some ''ComplianceEngine'') s2"
    using assms(2) by (simp add: applicable_here s2)
  finally show ?thesis
    using GetReported_audited [of s2 ses ob env st t en] assms(3,4) by (simp add: s2)
qed

lemma Test_verdict:
  assumes "plain_test i key ob" "expects i s = g_passValue"
    and "BaselineIsCorrectDistribution (Some key) (g_baseline s) = 0"
    and "gComplianceEngine (g_baseline s) = Some ses" and "audited env ses ob st t en"
    and "\<forall>c. r_mi env c = MI_RESULT_OK"
  shows "\<exists>s'. Invoke_TestTargetResource env (Some i) s =
      ([TestInstance (st = Compliant \<or> st = NotApplicable), PostResult MI_RESULT_OK], s')
    \<and> gComplianceEngine (g_baseline s') = Some (ses\<lparr>ses_engine := en\<rparr>)"
proof -
  obtain s' where s': "Test_read env i s = (MI_RESULT_OK, s')" "g_reportedObjectValue s' = Some (audit_text st t)"
    "g_expectedObjectValue s' = g_expectedObjectValue s" "gComplianceEngine (g_baseline s') = Some (ses\<lparr>ses_engine := en\<rparr>)"
    using Test_read_audited [OF assms(1,3,4,5)] by blast
  have fmt: "env_format (engine_side env) = NestedListFormatter_Format"
    by (simp add: engine_side_def client_env_def formatter_for_def gComponentName_def)
  obtain r where "MmiGet (engine_side env) (Some ob) (ses_engine ses) = (r, en)" "audit_result r = (st, t)"
    using assms(5) by (auto simp: audited_def)
  from MmiGet_text_PASS [OF fmt this]
  have "Test_compliant i s' \<longleftrightarrow> st = Compliant \<or> st = NotApplicable"
    using s'(2,3) assms(2) by (auto simp: Test_compliant_def expects_def g_passValue_def split: option.splits)
  then show ?thesis
    using s' assms(6) by (simp add: Invoke_TestTargetResource_def)
qed

section \<open>Set answers success\<close>

definition complete_set :: "os_input \<Rightarrow> bool" where
  "complete_set i \<longleftrightarrow> in_RuleId i \<noteq> None \<and> in_PayloadKey i \<noteq> None \<and> in_ComponentName i \<noteq> None
     \<and> in_DesiredObjectName i \<noteq> None \<and> in_DesiredObjectValue i \<noteq> None"

lemma Set_answers:
  assumes "in_ProcedureObjectName i = None" "\<forall>c. r_mi env c = MI_RESULT_OK"
  shows "fst (Invoke_SetTargetResource env (Some i) s) =
    [SetInstance, PostResult (if \<not> complete_set i then MI_RESULT_FAILED
       else if BaselineIsCorrectDistribution (in_PayloadKey i) (g_baseline s) \<noteq> 0 then MI_RESULT_NOT_SUPPORTED
       else MI_RESULT_OK)]"
  using assms
  by (simp add: Invoke_SetTargetResource_def Set_read_def complete_set_def required_def procedure_object_def applicable_def)

lemma Set_refused:
  assumes "in_ProcedureObjectName i = None"
    and "\<not> complete_set i \<or> BaselineIsCorrectDistribution (in_PayloadKey i) (g_baseline s) \<noteq> 0"
  shows "g_baseline (snd (Invoke_SetTargetResource env (Some i) s)) = g_baseline s
    \<and> g_machine (snd (Invoke_SetTargetResource env (Some i) s)) = g_machine s"
  using assms
  by (auto simp add: Invoke_SetTargetResource_def Set_read_def complete_set_def required_def procedure_object_def applicable_def
      Let_def split: prod.splits)

section \<open>The expected value of earlier calls\<close>

text \<open>Only a get with an expected value changes it, and it stays for the tests that follow.\<close>

lemma expected_value_other:
  assumes "\<forall>i. req \<noteq> GetRequest (Some i)"
  shows "g_expectedObjectValue (snd (resource_step env req s)) = g_expectedObjectValue s"
proof (cases req)
  case (GetRequest inp)
  then show ?thesis using assms by (cases inp) (simp_all add: Invoke_GetTargetResource_def)
qed (simp_all add: expected_frame.frame_Test expected_frame.frame_Set OsConfigResource_Load_def
      OsConfigResource_Unload_def OsConfigResource_unsupported_def)

lemma expected_value_run:
  assumes "\<forall>i. GetRequest (Some i) \<notin> set qs"
  shows "g_expectedObjectValue (snd (resource_run env qs s)) = g_expectedObjectValue s"
  using assms
proof (induction qs arbitrary: s)
  case (Cons q qs)
  then have "g_expectedObjectValue (snd (resource_step env q s)) = g_expectedObjectValue s"
    by (intro expected_value_other) auto
  then show ?case using Cons by (simp add: split_beta)
qed simp

text \<open>A call that succeeds went through its last step.\<close>

definition ends_expecting :: "string option \<Rightarrow> (('w, 'm) resource \<Rightarrow> int \<times> ('w, 'm) resource) \<Rightarrow> bool" where
  "ends_expecting e k \<longleftrightarrow> (\<forall>s t. k s = (MI_RESULT_OK, t) \<longrightarrow> g_expectedObjectValue t = e)"

lemma ends_expecting_rules:
  "ends_expecting e k \<Longrightarrow> ends_expecting e (required v upd k)"
  "ends_expecting e k \<Longrightarrow> ends_expecting e (optional v upd k)"
  "ends_expecting e k \<Longrightarrow> ends_expecting e (init_object i k)"
  "ends_expecting e k \<Longrightarrow> ends_expecting e (applicable k)"
  "ends_expecting e k \<Longrightarrow> ends_expecting e (procedure_object env i k)"
  by (auto simp: ends_expecting_def required_def optional_def init_object_def applicable_def procedure_object_def
      Let_def split: if_splits)

lemma Get_read_expected:
  assumes "in_ExpectedObjectValue i = Some e" "Get_read env i s = (MI_RESULT_OK, t)"
  shows "g_expectedObjectValue t = Some e"
proof -
  have "ends_expecting (Some e) (\<lambda>s. case GetReportedObjectValueFromDevice env (g_componentName s) s of
          (r, s') \<Rightarrow> if r \<noteq> MI_RESULT_OK then (r, s')
            else optional (in_ExpectedObjectValue i) set_expectedObjectValue (Pair MI_RESULT_OK) s')"
    using assms(1) by (auto simp: ends_expecting_def optional_def split: prod.splits if_splits)
  then have "ends_expecting (Some e) (required (in_RuleId i) set_ruleId
     (required (in_PayloadKey i) set_payloadKey
     (required (in_ComponentName i) set_componentName
     (init_object i
     (procedure_object env i
     (required (in_ReportedObjectName i) set_reportedObjectName
     (optional (in_DesiredObjectName i) set_desiredObjectName
     (optional (in_DesiredObjectValue i) set_desiredObjectValue
     (applicable (\<lambda>s.
        case GetReportedObjectValueFromDevice env (g_componentName s) s of
          (r, s') \<Rightarrow>
            if r \<noteq> MI_RESULT_OK then (r, s')
            else optional (in_ExpectedObjectValue i) set_expectedObjectValue (Pair MI_RESULT_OK) s'))))))))))"
    by (intro ends_expecting_rules)
  then show ?thesis using assms(2) unfolding ends_expecting_def Get_read_def by blast
qed

lemma expects_after_get:
  assumes "Get_read env i s = (MI_RESULT_OK, t)" "in_ExpectedObjectValue i = Some e"
    and "\<forall>i. GetRequest (Some i) \<notin> set qs" "in_ExpectedObjectValue j = None"
  shows "expects j (snd (resource_run env (GetRequest (Some i) # qs) s)) = e"
proof -
  have "snd (resource_step env (GetRequest (Some i)) s) = t"
    using assms(1) by (simp add: Invoke_GetTargetResource_def split: prod.splits)
  then have "g_expectedObjectValue (snd (resource_run env (GetRequest (Some i) # qs) s)) = g_expectedObjectValue t"
    using expected_value_run [OF assms(3), of env t] by (auto simp: split_beta)
  then show ?thesis using Get_read_expected [OF assms(2,1)] assms(4) by (simp add: expects_def)
qed

text \<open>The phrase of a get is never missing.\<close>

lemma reason_phrase_exists:
  "(isCompliant \<longrightarrow> starts_with expected reported) \<Longrightarrow> reason_phrase isCompliant reported expected \<noteq> None"
  by (auto simp: reason_phrase_def starts_with_ex)

end
