(* ===== verification/Logging.thy ===== *)
theory Logging
  imports JsonRoundTrip
begin

text \<open>
  \<open>src/common/logging/Logging.c\<close> with the macro of \<open>Logging.h\<close> that writes a message, and
  \<open>src/common/commonutils/ConfigUtils.c\<close>: the log with its backup, which is rolled when it grows
  over the configured size, and the integers of the configuration file. Files are a map from
  names to content; the streams opened on the log succeed, and the stream's position is the end
  of the file. Shown: the log stays below its limit up to ten messages, and configured values
  lie in their ranges.
\<close>

section \<open>Levels and settings\<close>

datatype logging_level =
  LoggingLevelEmergency | LoggingLevelAlert | LoggingLevelCritical | LoggingLevelError
  | LoggingLevelWarning | LoggingLevelNotice | LoggingLevelInformational | LoggingLevelDebug

definition level_number :: "logging_level \<Rightarrow> int" where
  "level_number l =
     (case l of LoggingLevelEmergency \<Rightarrow> 0 | LoggingLevelAlert \<Rightarrow> 1 | LoggingLevelCritical \<Rightarrow> 2
      | LoggingLevelError \<Rightarrow> 3 | LoggingLevelWarning \<Rightarrow> 4 | LoggingLevelNotice \<Rightarrow> 5
      | LoggingLevelInformational \<Rightarrow> 6 | LoggingLevelDebug \<Rightarrow> 7)"

text \<open>A variable of the enumeration holds any integer.\<close>

definition GetLoggingLevelName :: "int \<Rightarrow> string" where
  "GetLoggingLevelName level =
     (if level = 0 then ''EMERGENCY'' else if level = 1 then ''ALERT'' else if level = 2 then ''CRITICAL''
      else if level = 3 then ''ERROR'' else if level = 4 then ''WARNING'' else if level = 5 then ''NOTICE''
      else if level = 6 then ''INFO'' else ''DEBUG'')"

definition IsLoggingLevelSupported :: "int \<Rightarrow> bool" where
  "IsLoggingLevelSupported level \<longleftrightarrow>
     level_number LoggingLevelEmergency \<le> level \<and> level \<le> level_number LoggingLevelDebug"

record log_settings =
  g_loggingLevel :: int
  g_maxLogSize :: nat
  g_maxLogSizeDebugMultiplier :: nat
  g_consoleLoggingEnabled :: bool

definition log_settings_init :: log_settings where
  "log_settings_init = \<lparr>g_loggingLevel = 6, g_maxLogSize = 1048576, g_maxLogSizeDebugMultiplier = 5,
     g_consoleLoggingEnabled = True\<rparr>"

definition SetLoggingLevel :: "int \<Rightarrow> log_settings \<Rightarrow> log_settings" where
  "SetLoggingLevel level st =
     st\<lparr>g_loggingLevel := (if IsLoggingLevelSupported level then level else level_number LoggingLevelInformational)\<rparr>"

definition IsDebugLoggingEnabled :: "log_settings \<Rightarrow> bool" where
  "IsDebugLoggingEnabled st \<longleftrightarrow> g_loggingLevel st = level_number LoggingLevelDebug"

definition IsConsoleLoggingEnabled :: "bool \<Rightarrow> log_settings \<Rightarrow> bool" where
  "IsConsoleLoggingEnabled isDaemon st = (if isDaemon then False else g_consoleLoggingEnabled st)"

section \<open>The log file\<close>

record os_log =
  logFileName :: string
  backLogFileName :: "string option"
  trimLogCount :: nat

type_synonym log_files = "string \<rightharpoonup> string"

definition maxLogTrim :: nat where "maxLogTrim = 1000"
definition UINT_MAX_nat :: nat where "UINT_MAX_nat = 4294967295"

text \<open>With debug logging five times the size, whatever the multiplier of the settings.\<close>

definition log_limit :: "log_settings \<Rightarrow> nat" where
  "log_limit st =
     (if IsDebugLoggingEnabled st
      then (if g_maxLogSize st < UINT_MAX_nat div 5 then g_maxLogSize st * 5 else UINT_MAX_nat)
      else g_maxLogSize st)"

definition log_size :: "os_log \<Rightarrow> log_files \<Rightarrow> nat" where
  "log_size lg fs = (case fs (logFileName lg) of None \<Rightarrow> 0 | Some c \<Rightarrow> length c)"

text \<open>Rolling: the log is renamed over its backup, which for the same name changes nothing, or is
  emptied when there is no backup or the renaming fails; then it is opened again.\<close>

definition roll :: "bool \<Rightarrow> os_log \<Rightarrow> log_files \<Rightarrow> log_files" where
  "roll rename_ok lg fs =
     (case backLogFileName lg of
        Some b \<Rightarrow>
          if rename_ok then
            (if b = logFileName lg then fs else fs(b := fs (logFileName lg), logFileName lg \<mapsto> []))
          else fs(logFileName lg \<mapsto> [])
      | None \<Rightarrow> fs(logFileName lg \<mapsto> []))"

definition next_count :: "nat \<Rightarrow> nat" where
  "next_count n = (if n < maxLogTrim then n + 1 else 1)"

definition TrimLog :: "log_settings \<Rightarrow> bool \<Rightarrow> os_log \<Rightarrow> log_files \<Rightarrow> os_log \<times> log_files" where
  "TrimLog st rename_ok lg fs =
     (let lg' = lg\<lparr>trimLogCount := next_count (trimLogCount lg)\<rparr> in
      if trimLogCount lg' mod 10 = 0 \<and> log_limit st \<le> log_size lg fs
      then (lg', roll rename_ok lg fs) else (lg', fs))"

text \<open>A message of a level that is on goes to the end of the file.\<close>

definition append_log :: "os_log \<Rightarrow> string \<Rightarrow> log_files \<Rightarrow> log_files" where
  "append_log lg text fs =
     fs(logFileName lg \<mapsto> (case fs (logFileName lg) of None \<Rightarrow> [] | Some c \<Rightarrow> c) @ text)"

definition OsConfigLog :: "log_settings \<Rightarrow> int \<Rightarrow> string \<Rightarrow> bool \<Rightarrow> os_log \<times> log_files \<Rightarrow> os_log \<times> log_files" where
  "OsConfigLog st level text rename_ok x =
     (if level \<le> g_loggingLevel st
      then (case TrimLog st rename_ok (fst x) (snd x) of (lg, fs) \<Rightarrow> (lg, append_log lg text fs))
      else x)"

fun log_messages :: "log_settings \<Rightarrow> (int \<times> string \<times> bool) list \<Rightarrow> os_log \<times> log_files \<Rightarrow> os_log \<times> log_files" where
  "log_messages st [] x = x"
| "log_messages st ((level, text, rename_ok) # ms) x = log_messages st ms (OsConfigLog st level text rename_ok x)"

section \<open>The size of the log\<close>

text \<open>Since the last check at most as many messages were written as the counter says.\<close>

definition log_bounded :: "log_settings \<Rightarrow> nat \<Rightarrow> os_log \<times> log_files \<Rightarrow> bool" where
  "log_bounded st L x \<longleftrightarrow> trimLogCount (fst x) \<le> maxLogTrim
     \<and> backLogFileName (fst x) \<noteq> Some (logFileName (fst x))
     \<and> log_size (fst x) (snd x) \<le> log_limit st + L * (trimLogCount (fst x) mod 10 + 1)"

lemma next_count_mod:
  "n \<le> maxLogTrim \<Longrightarrow> next_count n \<le> maxLogTrim
     \<and> next_count n mod 10 = (if n mod 10 = 9 then 0 else n mod 10 + 1)"
  by (auto simp: next_count_def maxLogTrim_def mod_Suc)

lemma log_size_append: "log_size lg (append_log lg text fs) = log_size lg fs + length text"
  by (simp add: log_size_def append_log_def split: option.splits)

lemma log_size_roll:
  "backLogFileName lg \<noteq> Some (logFileName lg) \<Longrightarrow> log_size lg (roll rename_ok lg fs) = 0"
  by (auto simp: log_size_def roll_def split: option.splits)

lemma log_size_count [simp]: "log_size (lg\<lparr>trimLogCount := n\<rparr>) fs = log_size lg fs"
  by (simp add: log_size_def)

lemma log_bounded_step:
  assumes "log_bounded st L x" "length text \<le> L"
  shows "log_bounded st L (OsConfigLog st level text rename_ok x)"
proof (cases "level \<le> g_loggingLevel st")
  case False
  then show ?thesis using assms by (simp add: OsConfigLog_def)
next
  case True
  obtain lg fs where x: "x = (lg, fs)" by (cases x)
  define n where "n = next_count (trimLogCount lg)"
  have inv: "trimLogCount lg \<le> maxLogTrim" "backLogFileName lg \<noteq> Some (logFileName lg)"
    "log_size lg fs \<le> log_limit st + L * (trimLogCount lg mod 10 + 1)"
    using assms(1) by (simp_all add: log_bounded_def x)
  have n: "n \<le> maxLogTrim" "n mod 10 = (if trimLogCount lg mod 10 = 9 then 0 else trimLogCount lg mod 10 + 1)"
    using next_count_mod [OF inv(1)] by (simp_all add: n_def)
  define fs' where "fs' = (if n mod 10 = 0 \<and> log_limit st \<le> log_size lg fs then roll rename_ok lg fs else fs)"
  have run: "OsConfigLog st level text rename_ok x =
      (lg\<lparr>trimLogCount := n\<rparr>, append_log (lg\<lparr>trimLogCount := n\<rparr>) text fs')"
    using True by (simp add: OsConfigLog_def TrimLog_def Let_def x n_def fs'_def)
  have "log_size lg fs' \<le> log_limit st + L * (n mod 10)"
  proof (cases "n mod 10 = 0")
    case True
    then show ?thesis using inv(2) by (auto simp: fs'_def log_size_roll)
  next
    case False
    then have "n mod 10 = trimLogCount lg mod 10 + 1" using n(2) by (simp split: if_splits)
    then show ?thesis using False inv(3) by (simp add: fs'_def)
  qed
  then have "log_size lg fs' + length text \<le> log_limit st + L * (n mod 10 + 1)"
    using assms(2) by simp
  then show ?thesis
    using n(1) inv(2) log_size_append [of "lg\<lparr>trimLogCount := n\<rparr>" "text" fs']
    by (simp add: log_bounded_def run)
qed

lemma log_bounded_messages:
  "log_bounded st L x \<Longrightarrow> \<forall>m\<in>set ms. length (fst (snd m)) \<le> L \<Longrightarrow> log_bounded st L (log_messages st ms x)"
  by (induction st ms x rule: log_messages.induct) (simp_all add: log_bounded_step)

lemma log_bounded_limit:
  assumes "log_bounded st L x"
  shows "log_size (fst x) (snd x) \<le> log_limit st + 10 * L"
proof -
  have "trimLogCount (fst x) mod 10 + 1 \<le> 10" by presburger
  then have "L * (trimLogCount (fst x) mod 10 + 1) \<le> L * 10" by (rule mult_le_mono2)
  moreover have "log_size (fst x) (snd x) \<le> log_limit st + L * (trimLogCount (fst x) mod 10 + 1)"
    using assms by (simp only: log_bounded_def)
  ultimately show ?thesis by linarith
qed

section \<open>The configuration\<close>

definition json_value_get_number :: "json option \<Rightarrow> 64 word" where
  "json_value_get_number v = (case v of Some (JNumber d) \<Rightarrow> d | _ \<Rightarrow> 0)"

definition json_object_get_number :: "jobject option \<Rightarrow> string \<Rightarrow> 64 word" where
  "json_object_get_number ob name = json_value_get_number (json_object_get_value ob name)"

text \<open>A double truncated to an integer, from its bits.\<close>

definition double_truncated :: "64 word \<Rightarrow> int" where
  "double_truncated d =
     (let e = uint (drop_bit 52 d AND 0x7FF);
          m = uint (d AND mask 52) + 2 ^ 52;
          mag = (if e = 0 then 0 else if 1075 \<le> e then m * 2 ^ nat (e - 1075) else m div 2 ^ nat (1075 - e))
      in if bit d 63 then - mag else mag)"

text \<open>The conversions of a double to \<open>int\<close> and \<open>long long\<close>: outside the range, where C leaves it
  undefined, they give the least integer, as the instructions of the platform do.\<close>

definition double_to_int :: "64 word \<Rightarrow> int" where
  "double_to_int d = (let v = double_truncated d in if - (2 ^ 31) \<le> v \<and> v < 2 ^ 31 then v else - (2 ^ 31))"

definition double_to_llong :: "64 word \<Rightarrow> int" where
  "double_to_llong d = (let v = double_truncated d in if - (2 ^ 63) \<le> v \<and> v < 2 ^ 63 then v else - (2 ^ 63))"

definition GetIntegerFromJsonConfig ::
  "strtod_fun \<Rightarrow> string option \<Rightarrow> string option \<Rightarrow> int \<Rightarrow> int \<Rightarrow> int \<Rightarrow> int" where
  "GetIntegerFromJsonConfig strtod valueName jsonString defaultValue minValue maxValue =
     (case valueName of
        None \<Rightarrow> defaultValue
      | Some name \<Rightarrow>
          if maxValue \<le> minValue then defaultValue
          else (case jsonString of
            None \<Rightarrow> defaultValue
          | Some text \<Rightarrow>
              (case json_parse_string strtod text of
                 None \<Rightarrow> defaultValue
               | Some root \<Rightarrow>
                   (case json_value_get_object (Some root) of
                      None \<Rightarrow> defaultValue
                    | Some ms \<Rightarrow>
                        let v = double_to_int (json_object_get_number (Some ms) name) in
                        if v = 0 \<and> minValue \<noteq> 0 \<and> maxValue \<noteq> 0 then defaultValue
                        else if v < minValue then minValue
                        else if maxValue < v then maxValue
                        else v))))"

definition GetLoggingLevelFromJsonConfig :: "strtod_fun \<Rightarrow> string option \<Rightarrow> int" where
  "GetLoggingLevelFromJsonConfig strtod js = GetIntegerFromJsonConfig strtod (Some ''LoggingLevel'') js 6 0 7"

definition GetMaxLogSizeFromJsonConfig :: "strtod_fun \<Rightarrow> string option \<Rightarrow> int" where
  "GetMaxLogSizeFromJsonConfig strtod js =
     GetIntegerFromJsonConfig strtod (Some ''MaxLogSize'') js 1048576 1024 1073741824"

definition GetMaxLogSizeDebugMultiplierFromJsonConfig :: "strtod_fun \<Rightarrow> string option \<Rightarrow> int" where
  "GetMaxLogSizeDebugMultiplierFromJsonConfig strtod js =
     GetIntegerFromJsonConfig strtod (Some ''MaxLogSizeDebugMultiplier'') js 5 1 10"

lemma config_bounds:
  "minValue \<le> defaultValue \<Longrightarrow> defaultValue \<le> maxValue \<Longrightarrow>
     minValue \<le> GetIntegerFromJsonConfig strtod name js defaultValue minValue maxValue
     \<and> GetIntegerFromJsonConfig strtod name js defaultValue minValue maxValue \<le> maxValue"
  by (auto simp: GetIntegerFromJsonConfig_def Let_def split: option.splits)

text \<open>A value that is not in the configuration takes its default, but the logging level, whose
  minimum is 0, becomes 0.\<close>

lemma config_missing:
  assumes "json_parse_string strtod text = Some (JObject ms)" "json_object_get_value (Some ms) name = None"
    and "minValue < maxValue"
  shows "GetIntegerFromJsonConfig strtod (Some name) (Some text) d minValue maxValue =
    (if minValue \<noteq> 0 \<and> maxValue \<noteq> 0 then d else if 0 < minValue then minValue else if maxValue < 0 then maxValue else 0)"
  using assms
  by (simp add: GetIntegerFromJsonConfig_def json_object_get_number_def json_value_get_number_def double_to_int_def double_truncated_def)

text \<open>The log stays below its limit plus ten messages.\<close>

lemma log_messages_bound:
  assumes "log_size lg fs \<le> log_limit st" "trimLogCount lg = 0" "backLogFileName lg \<noteq> Some (logFileName lg)"
    and "\<forall>m\<in>set ms. length (fst (snd m)) \<le> L"
  shows "case log_messages st ms (lg, fs) of (lg', fs') \<Rightarrow> log_size lg' fs' \<le> log_limit st + 10 * L"
proof -
  have "log_bounded st L (lg, fs)" using assms(1-3) by (simp add: log_bounded_def)
  from log_bounded_limit [OF log_bounded_messages [OF this assms(4)]] show ?thesis by (simp add: split_beta)
qed

text \<open>A configured integer lies in the range of its setting.\<close>

lemma configured_bounds:
  "0 \<le> GetLoggingLevelFromJsonConfig strtod js \<and> GetLoggingLevelFromJsonConfig strtod js \<le> 7
   \<and> 1024 \<le> GetMaxLogSizeFromJsonConfig strtod js \<and> GetMaxLogSizeFromJsonConfig strtod js \<le> 1073741824
   \<and> 1 \<le> GetMaxLogSizeDebugMultiplierFromJsonConfig strtod js
   \<and> GetMaxLogSizeDebugMultiplierFromJsonConfig strtod js \<le> 10"
  unfolding GetLoggingLevelFromJsonConfig_def GetMaxLogSizeFromJsonConfig_def
    GetMaxLogSizeDebugMultiplierFromJsonConfig_def
  using config_bounds [of 0 6 7] config_bounds [of 1024 1048576 1073741824] config_bounds [of 1 5 10] by simp

end
