(* ===== verification/InputSecurity.thy ===== *)
theory InputSecurity
  imports FileAccess
begin

text \<open>
  \<open>benchmarkio/InputSecurity.cpp\<close>: the checks in front of every file that kompli reads or writes
  as root. The answers of the system calls are a parameter, an error number or a value; the open
  descriptors are the state. Also the bounded read of a whole stream (\<open>ReadAllBounded\<close>), which
  the three readers of kompli share. Shown: a path is refused exactly if one of its components
  is \<open>..\<close>; a descriptor that is handed out belongs to a regular file that only root can write;
  a refusal leaks no descriptor; a read never returns more than its limit.
\<close>

section \<open>System calls\<close>

abbreviation S_IFMT :: "32 word" where "S_IFMT \<equiv> 0xF000"
abbreviation S_IFREG :: "32 word" where "S_IFREG \<equiv> 0x8000"
abbreviation S_IFDIR :: "32 word" where "S_IFDIR \<equiv> 0x4000"
abbreviation S_IFLNK :: "32 word" where "S_IFLNK \<equiv> 0xA000"
abbreviation S_IWGRP :: "32 word" where "S_IWGRP \<equiv> 0x10"
abbreviation S_IWOTH :: "32 word" where "S_IWOTH \<equiv> 0x2"
abbreviation O_NONBLOCK :: "32 word" where "O_NONBLOCK \<equiv> 0x800"

definition S_ISREG :: "32 word \<Rightarrow> bool" where
  "S_ISREG m \<longleftrightarrow> m AND S_IFMT = S_IFREG"

definition S_ISDIR :: "32 word \<Rightarrow> bool" where
  "S_ISDIR m \<longleftrightarrow> m AND S_IFMT = S_IFDIR"

definition S_ISLNK :: "32 word \<Rightarrow> bool" where
  "S_ISLNK m \<longleftrightarrow> m AND S_IFMT = S_IFLNK"

text \<open>The test \<open>st_mode & (S_IWGRP | S_IWOTH)\<close>.\<close>

definition writable_by_others :: "32 word \<Rightarrow> bool" where
  "writable_by_others m \<longleftrightarrow> m AND (S_IWGRP OR S_IWOTH) \<noteq> 0"

record input_calls =
  sys_stat :: "string \<Rightarrow> int + file_stat"
  sys_lstat :: "string \<Rightarrow> int + file_stat"
  sys_open :: "string \<Rightarrow> int + nat"
  sys_fstat :: "nat \<Rightarrow> int + file_stat"
  sys_getfl :: "nat \<Rightarrow> int + 32 word"
  sys_setfl :: "nat \<Rightarrow> 32 word \<Rightarrow> int option"
  sys_strerror :: "int \<Rightarrow> string"

type_synonym descriptors = "nat list"

abbreviation close_fd :: "nat \<Rightarrow> descriptors \<Rightarrow> descriptors" where
  "close_fd fd fds \<equiv> remove1 fd fds"

section \<open>Paths\<close>

definition RefusePathTraversal :: "string \<Rightarrow> bool" where
  "RefusePathTraversal path \<longleftrightarrow>
     path = ''..'' \<or> take 3 path = ''../'' \<or> find_str ''/../'' path \<noteq> None
     \<or> (length path \<ge> 3 \<and> drop (length path - 3) path = ''/..'')"

text \<open>The directory part of a path, as \<open>RefuseWritableParentDir\<close> and \<open>WritePlanFile\<close> take it.\<close>

definition parent_dir :: "string \<Rightarrow> string" where
  "parent_dir path =
     (case rfind_char (CHR ''/'') path of
        None \<Rightarrow> ''.''
      | Some slash \<Rightarrow> if slash = 0 then ''/'' else substr 0 slash path)"

definition RefuseWritableParentDir :: "input_calls \<Rightarrow> string \<Rightarrow> bool" where
  "RefuseWritableParentDir env path =
     (case sys_stat env (c_str (parent_dir path)) of
        Inl errno \<Rightarrow> True
      | Inr st \<Rightarrow>
          if st_uid st \<noteq> 0 then True
          else if writable_by_others (st_mode st) then True
          else False)"

section \<open>Opening an input file\<close>

definition OpenVerifiedInput :: "input_calls \<Rightarrow> string \<Rightarrow> descriptors \<Rightarrow> nat result \<times> descriptors" where
  "OpenVerifiedInput env path fds =
     (case sys_open env (c_str path) of
        Inl errno \<Rightarrow>
          if errno = ELOOP then (Inl (Error ''path is a symlink'' ELOOP), fds)
          else (Inl (Error (sys_strerror env errno) errno), fds)
      | Inr fd \<Rightarrow>
          let fds = fd # fds in
          case sys_fstat env fd of
            Inl errno \<Rightarrow> (Inl (Error (sys_strerror env errno) errno), close_fd fd fds)
          | Inr st \<Rightarrow>
              if \<not> S_ISREG (st_mode st) then (Inl (Error ''not a regular file'' ENOTSUP), close_fd fd fds)
              else
                case (case sys_getfl env fd of
                        Inl errno \<Rightarrow> Some errno
                      | Inr flags \<Rightarrow> sys_setfl env fd (flags AND NOT O_NONBLOCK)) of
                  Some errno \<Rightarrow> (Inl (Error (sys_strerror env errno) errno), close_fd fd fds)
                | None \<Rightarrow>
                    if st_uid st \<noteq> 0 then (Inl (Error ''not owned by root'' EPERM), close_fd fd fds)
                    else if writable_by_others (st_mode st)
                    then (Inl (Error ''writable by group or others'' EPERM), close_fd fd fds)
                    else (Inr fd, fds))"

definition RefuseUnsafeLogFile :: "input_calls \<Rightarrow> string \<Rightarrow> bool" where
  "RefuseUnsafeLogFile env path =
     (if RefusePathTraversal path then True
      else if RefuseWritableParentDir env path then True
      else case sys_lstat env (c_str path) of
        Inl errno \<Rightarrow> errno \<noteq> ENOENT
      | Inr st \<Rightarrow>
          if S_ISLNK (st_mode st) then True
          else if \<not> S_ISREG (st_mode st) then True
          else if st_uid st \<noteq> 0 then True
          else if writable_by_others (st_mode st) then True
          else False)"

section \<open>Reading a stream\<close>

text \<open>A stream as it is read: the bytes it delivers, and whether an input error ended it. The loop
  reads blocks and tests the limit behind each.\<close>

record stream =
  stream_bytes :: string
  stream_bad :: bool

abbreviation block_size :: nat where "block_size \<equiv> 65536"

function read_loop :: "nat \<Rightarrow> error \<Rightarrow> string \<Rightarrow> string \<Rightarrow> string result" where
  "read_loop cap too_big content rest =
     (if rest = [] then Inr content
      else let content = content @ take block_size rest in
        if length content > cap then Inl too_big
        else read_loop cap too_big content (drop block_size rest))"
  by pat_completeness auto
termination by (relation "measure (\<lambda>(cap, e, content, rest). length rest)") auto

declare read_loop.simps [simp del]

definition ReadAllBounded :: "nat \<Rightarrow> error \<Rightarrow> error \<Rightarrow> stream \<Rightarrow> string result" where
  "ReadAllBounded cap too_big io_error s =
     and_then (read_loop cap too_big [] (stream_bytes s)) (\<lambda>content.
       if stream_bad s then Inl io_error else Inr content)"

lemma read_loop_eq:
  "length content \<le> cap \<Longrightarrow> read_loop cap e content rest =
     (if length (content @ rest) > cap then Inl e else Inr (content @ rest))"
proof (induction cap e content rest rule: read_loop.induct)
  case (1 cap e content rest)
  have split: "take block_size rest @ drop block_size rest = rest" by simp
  show ?case
  proof (cases "rest = [] \<or> length (content @ take block_size rest) > cap")
    case True
    then show ?thesis
      using "1.prems" by (subst read_loop.simps) (auto simp: Let_def)
  next
    case False
    then have "read_loop cap e (content @ take block_size rest) (drop block_size rest) =
        (if length (content @ rest) > cap then Inl e else Inr (content @ rest))"
      using "1.IH" [OF _ refl] by (simp del: take_append drop_append add: append_assoc [symmetric] split)
    then show ?thesis using False by (subst read_loop.simps) (simp add: Let_def)
  qed
qed

lemma ReadAllBounded_eq:
  "ReadAllBounded cap too_big io_error s =
     (if length (stream_bytes s) > cap then Inl too_big
      else if stream_bad s then Inl io_error else Inr (stream_bytes s))"
  by (simp add: ReadAllBounded_def read_loop_eq)

section \<open>Components of a path\<close>

fun path_components :: "string \<Rightarrow> string list" where
  "path_components [] = [[]]"
| "path_components (c # s) =
     (if c = CHR ''/'' then [] # path_components s
      else (case path_components s of [] \<Rightarrow> [[c]] | p # ps \<Rightarrow> (c # p) # ps))"

lemma path_components_hd: "\<exists>ps. path_components s = takeWhile (\<lambda>c. c \<noteq> CHR ''/'') s # ps"
  by (induction s) auto

lemma takeWhile_slash:
  "takeWhile (\<lambda>c. c \<noteq> CHR ''/'') s = x \<longleftrightarrow>
     CHR ''/'' \<notin> set x \<and> (\<exists>b. s = x @ b \<and> (b = [] \<or> hd b = CHR ''/''))"
proof
  assume "takeWhile (\<lambda>c. c \<noteq> CHR ''/'') s = x"
  then show "CHR ''/'' \<notin> set x \<and> (\<exists>b. s = x @ b \<and> (b = [] \<or> hd b = CHR ''/''))"
    using hd_dropWhile [of "\<lambda>c. c \<noteq> CHR ''/''" s]
    by (auto dest: set_takeWhileD intro!: exI [of _ "dropWhile (\<lambda>c. c \<noteq> CHR ''/'') s"])
next
  assume "CHR ''/'' \<notin> set x \<and> (\<exists>b. s = x @ b \<and> (b = [] \<or> hd b = CHR ''/''))"
  then obtain b where b: "CHR ''/'' \<notin> set x" "s = x @ b" "b = [] \<or> hd b = CHR ''/''" by blast
  then show "takeWhile (\<lambda>c. c \<noteq> CHR ''/'') s = x"
    by (cases b) (auto simp: takeWhile_append takeWhile_eq_all_conv)
qed

lemma ex_append_Cons: "(\<exists>a. c # s = a @ t) \<longleftrightarrow> c # s = t \<or> (\<exists>a. s = a @ t)"
  by (auto simp: Cons_eq_append_conv)

lemma path_components_tl:
  "x \<in> set (tl (path_components s)) \<longleftrightarrow>
     CHR ''/'' \<notin> set x \<and> (\<exists>a b. s = a @ CHR ''/'' # x @ b \<and> (b = [] \<or> hd b = CHR ''/''))"
proof (induction s)
  case Nil
  then show ?case by simp
next
  case (Cons c s)
  obtain ps where ps: "path_components s = takeWhile (\<lambda>c. c \<noteq> CHR ''/'') s # ps"
    using path_components_hd by blast
  let ?at = "\<lambda>x s. \<exists>a b. s = a @ CHR ''/'' # x @ b \<and> (b = [] \<or> hd b = CHR ''/'')"
  have "?at x (c # s) \<longleftrightarrow> (\<exists>b. (\<exists>a. c # s = a @ CHR ''/'' # x @ b) \<and> (b = [] \<or> hd b = CHR ''/''))" for x
    by blast
  then have step: "?at x (c # s) \<longleftrightarrow> (c = CHR ''/'' \<and> (\<exists>b. s = x @ b \<and> (b = [] \<or> hd b = CHR ''/''))) \<or> ?at x s" for x
    unfolding ex_append_Cons by auto
  show ?case
  proof (cases "c = CHR ''/''")
    case True
    then have "x \<in> set (tl (path_components (c # s))) \<longleftrightarrow>
        takeWhile (\<lambda>c. c \<noteq> CHR ''/'') s = x \<or> x \<in> set (tl (path_components s))"
      using ps by auto
    then show ?thesis unfolding takeWhile_slash Cons step using True by blast
  next
    case False
    then have "tl (path_components (c # s)) = tl (path_components s)" using ps by simp
    then show ?thesis unfolding Cons.IH [symmetric] using Cons step False by simp
  qed
qed

lemma find_str_occurs: "find_str p s \<noteq> None \<longleftrightarrow> (\<exists>a b. s = a @ p @ b)"
proof (induction s)
  case Nil
  then show ?case by simp
next
  case (Cons c s)
  have "(\<exists>a b. c # s = a @ p @ b) \<longleftrightarrow> starts_with p (c # s) \<or> (\<exists>a b. s = a @ p @ b)"
    unfolding starts_with_ex using ex_append_Cons [of c s] by (metis (no_types))
  then show ?case using Cons by simp
qed

text \<open>The four tests see a component \<open>..\<close> wherever it stands, and nothing else.\<close>

lemma RefusePathTraversal_iff: "RefusePathTraversal path \<longleftrightarrow> ''..'' \<in> set (path_components path)"
proof -
  let ?ends = "\<lambda>b. b = [] \<or> hd b = CHR ''/''"
  obtain ps where "path_components path = takeWhile (\<lambda>c. c \<noteq> CHR ''/'') path # ps"
    using path_components_hd by blast
  then have "''..'' \<in> set (path_components path) \<longleftrightarrow>
      takeWhile (\<lambda>c. c \<noteq> CHR ''/'') path = ''..'' \<or> ''..'' \<in> set (tl (path_components path))"
    by auto
  also have "\<dots> \<longleftrightarrow> (\<exists>b. path = ''..'' @ b \<and> ?ends b) \<or> (\<exists>a b. path = a @ ''/..'' @ b \<and> ?ends b)"
    unfolding takeWhile_slash path_components_tl by simp
  also have "(\<exists>b. path = ''..'' @ b \<and> ?ends b) \<longleftrightarrow> path = ''..'' \<or> take 3 path = ''../''"
  proof -
    have "take 3 path = ''../'' \<longleftrightarrow> (\<exists>t. path = ''../'' @ t)"
      using starts_with_ex [of "''../''" path] by (simp add: starts_with_iff numeral_3_eq_3)
    moreover have "(\<exists>b. path = ''..'' @ b \<and> ?ends b) \<longleftrightarrow> path = ''..'' \<or> (\<exists>t. path = ''../'' @ t)"
      by (metis append.simps append_Nil2 list.collapse list.sel(1))
    ultimately show ?thesis by simp
  qed
  also have "(\<exists>a b. path = a @ ''/..'' @ b \<and> ?ends b) \<longleftrightarrow>
      find_str ''/../'' path \<noteq> None \<or> (length path \<ge> 3 \<and> drop (length path - 3) path = ''/..'')"
  proof -
    have "(\<exists>a. path = a @ ''/..'') \<longleftrightarrow> length path \<ge> 3 \<and> drop (length path - 3) path = ''/..''"
    proof
      assume "length path \<ge> 3 \<and> drop (length path - 3) path = ''/..''"
      then show "\<exists>a. path = a @ ''/..''" by (metis append_take_drop_id)
    qed auto
    moreover have "(\<exists>a b. path = a @ ''/..'' @ b \<and> ?ends b) \<longleftrightarrow>
        (\<exists>a b. path = a @ ''/../'' @ b) \<or> (\<exists>a. path = a @ ''/..'')"
      by (metis append.simps append_Nil2 list.collapse list.sel(1))
    ultimately show ?thesis by (simp only: find_str_occurs)
  qed
  finally show ?thesis by (simp add: RefusePathTraversal_def disj_assoc)
qed

section \<open>What an accepted file is\<close>

text \<open>A regular file that belongs to root and that nobody else can write.\<close>

definition trusted_file :: "file_stat \<Rightarrow> bool" where
  "trusted_file st \<longleftrightarrow> S_ISREG (st_mode st) \<and> st_uid st = 0 \<and> \<not> writable_by_others (st_mode st)"

lemma OpenVerifiedInput_Inr:
  assumes "OpenVerifiedInput env path fds = (Inr fd, fds')"
  shows "sys_open env (c_str path) = Inr fd \<and> fds' = fd # fds
    \<and> (\<exists>st. sys_fstat env fd = Inr st \<and> trusted_file st)"
  using assms by (auto simp: OpenVerifiedInput_def trusted_file_def Let_def split: sum.splits option.splits if_splits)

lemma OpenVerifiedInput_Inl:
  "OpenVerifiedInput env path fds = (Inl e, fds') \<Longrightarrow> fds' = fds"
  by (auto simp: OpenVerifiedInput_def Let_def split: sum.splits option.splits if_splits)

text \<open>A log file that is let through is new, or a trusted file and no link; its directory is root's.\<close>

lemma RefuseUnsafeLogFile_accepts:
  assumes "\<not> RefuseUnsafeLogFile env path"
  shows "''..'' \<notin> set (path_components path)
    \<and> (\<exists>st. sys_stat env (c_str (parent_dir path)) = Inr st \<and> st_uid st = 0 \<and> \<not> writable_by_others (st_mode st))
    \<and> (sys_lstat env (c_str path) = Inl ENOENT \<or> (\<exists>st. sys_lstat env (c_str path) = Inr st \<and> trusted_file st))"
  using assms
  by (auto simp: RefuseUnsafeLogFile_def RefuseWritableParentDir_def trusted_file_def
      RefusePathTraversal_iff split: sum.splits if_splits)

end
