(* ===== verification/BenchmarkDefinition.thy ===== *)
theory BenchmarkDefinition
  imports InputSecurity BenchmarkInfo ContentVersion JsonWrapper JsonOps JsonRoundTrip
begin

text \<open>
  \<open>benchmarkio/BenchmarkDefinition.cpp\<close> and \<open>Resource.hpp\<close>: the parser of benchmark
  definitions, from the text of a file to the list of rules. Rules are opaque here apart from
  their identity: the procedure is the compact JSON of the payload. Shown, of every document the
  parser lets through: its rules have distinct non-empty ids, carry the identity of the document,
  and the procedure text of a rule reads back as the payload object of the source.
\<close>

section \<open>Data\<close>

record metadata =
  md_description :: "string option"
  md_rationale :: "string option"
  md_fixtext :: "string option"
  md_severity :: "string option"
  md_references :: "string option"
  md_additional :: parameter_map

record parameter_metadata =
  defaultValue :: string
  pm_type :: string
  displayName :: "string option"
  validationRegex :: "string option"
  validationFailedMessage :: "string option"
  mandatory :: bool

record resource_rule =
  res_benchmarkInfo :: BenchmarkInfo
  resourceID :: string
  res_id :: string
  ruleId :: string
  res_procedure :: string
  res_payload :: "string option"
  res_ruleName :: string
  tags :: "string list"
  res_metadata :: metadata
  parameterMetadata :: "(string, parameter_metadata) omap"
  hasInitAudit :: bool

record benchmark_document =
  doc_name :: string
  doc_version :: content_version
  doc_benchmarkInfo :: BenchmarkInfo
  resources :: "resource_rule list"

abbreviation kMaxInputBytes :: nat where "kMaxInputBytes \<equiv> 8 * 1024 * 1024"
abbreviation kMaxRules :: nat where "kMaxRules \<equiv> 100000"
abbreviation kMaxTagBytes :: nat where "kMaxTagBytes \<equiv> 256"

definition kSupportedApiVersions :: "string list" where
  "kSupportedApiVersions = [''v1'']"

text \<open>\<open>JoinSet\<close>, over the set in its order.\<close>

fun JoinSet_loop :: "string \<Rightarrow> string list \<Rightarrow> string" where
  "JoinSet_loop joined [] = joined"
| "JoinSet_loop joined (v # vs) = JoinSet_loop ((if joined \<noteq> [] then joined @ '', '' else joined) @ v) vs"

abbreviation JoinSet :: "string list \<Rightarrow> string" where "JoinSet \<equiv> JoinSet_loop []"

definition def_error :: "string \<Rightarrow> string \<Rightarrow> error" where
  "def_error context msg = Error (''Benchmark definition '' @ context @ msg) EINVAL"

section \<open>Fields\<close>

definition ReadStringValue :: "string \<Rightarrow> string \<Rightarrow> string \<Rightarrow> string result" where
  "ReadStringValue v key context =
     (if NUL \<in> set v then Inl (def_error context ('' has an embedded NUL in '' @ quoted key)) else Inr v)"

definition RequiredStringAllowEmpty :: "jobject option \<Rightarrow> string \<Rightarrow> string \<Rightarrow> string result" where
  "RequiredStringAllowEmpty ob key context =
     (case json_object_get_value ob key of
        Some (JString s) \<Rightarrow> ReadStringValue s key context
      | _ \<Rightarrow> Inl (def_error context ('' is missing required string field '' @ quoted key)))"

definition RequiredString :: "jobject option \<Rightarrow> string \<Rightarrow> string \<Rightarrow> string result" where
  "RequiredString ob key context =
     (case json_object_get_value ob key of
        Some (JString s) \<Rightarrow>
          and_then (ReadStringValue s key context) (\<lambda>v.
            if v = [] then Inl (def_error context ('' has an empty '' @ quoted key @ '' field'')) else Inr v)
      | _ \<Rightarrow> Inl (def_error context ('' is missing required string field '' @ quoted key)))"

definition OptionalString :: "jobject option \<Rightarrow> string \<Rightarrow> string \<Rightarrow> string option result" where
  "OptionalString ob key context =
     (case json_object_get_value ob key of
        None \<Rightarrow> Inr None
      | Some (JString s) \<Rightarrow> and_then (ReadStringValue s key context) (\<lambda>v. Inr (Some v))
      | Some _ \<Rightarrow> Inl (def_error context ('' has a non-string '' @ quoted key @ '' field'')))"

definition SerializeProcedure :: "fmt_fun \<Rightarrow> jobject option \<Rightarrow> string \<Rightarrow> string result" where
  "SerializeProcedure fmt ob context =
     (case json_object_get_value ob ''payload'' of
        Some (JObject ms) \<Rightarrow> Inr (json_serialize_to_string fmt (JObject ms))
      | _ \<Rightarrow> Inl (def_error context ('' is missing an object '' @ quoted ''payload'' @ '' field'')))"

section \<open>Parameter metadata\<close>

definition mandatory_field :: "jobject option \<Rightarrow> string \<Rightarrow> bool result" where
  "mandatory_field ob context =
     (case json_object_get_value ob ''mandatory'' of
        None \<Rightarrow> Inr False
      | Some (JBoolean b) \<Rightarrow> Inr (json_value_get_boolean (Some (JBoolean b)) = 1)
      | Some _ \<Rightarrow> Inl (def_error context ('' has a '' @ quoted ''mandatory'' @ '' field that is not a boolean'')))"

text \<open>One round of the loop over the entries.\<close>

definition parameter_entry :: "string \<Rightarrow> string \<times> json \<Rightarrow> (string \<times> parameter_metadata) result" where
  "parameter_entry context entry =
     (case entry of (name, v) \<Rightarrow>
        if name = [] then Inl (def_error context ('' has a '' @ quoted ''parameterMetadata'' @ '' entry with an empty name''))
        else
          let entryContext = context @ ''.parameterMetadata.'' @ name in
          (case json_value_get_object (Some v) of
             None \<Rightarrow> Inl (def_error entryContext '' is not a JSON object'')
           | Some ms \<Rightarrow>
               let ob = Some ms in
               and_then (RequiredStringAllowEmpty ob ''default'' entryContext) (\<lambda>dflt.
               and_then (RequiredString ob ''type'' entryContext) (\<lambda>ty.
               if ty \<noteq> ''string''
               then Inl (def_error entryContext ('' has unsupported type '' @ quoted ty @ ''; only '' @ quoted ''string'' @ '' is supported''))
               else
               and_then (OptionalString ob ''displayName'' entryContext) (\<lambda>display.
               and_then (OptionalString ob ''validationRegex'' entryContext) (\<lambda>rx.
               and_then (OptionalString ob ''validationFailedMessage'' entryContext) (\<lambda>failed.
               and_then (mandatory_field ob entryContext) (\<lambda>mand.
                 Inr (name, \<lparr>defaultValue = dflt, pm_type = ty, displayName = display, validationRegex = rx,
                            validationFailedMessage = failed, mandatory = mand\<rparr>)))))))))"

fun parameter_loop :: "string \<Rightarrow> jobject \<Rightarrow> (string, parameter_metadata) omap \<Rightarrow> (string, parameter_metadata) omap result" where
  "parameter_loop context [] acc = Inr acc"
| "parameter_loop context (entry # ms) acc =
     and_then (parameter_entry context entry) (\<lambda>(name, pm). parameter_loop context ms (om_insert name pm acc))"

definition ParseParameterMetadata :: "jobject option \<Rightarrow> string \<Rightarrow> (string, parameter_metadata) omap result" where
  "ParseParameterMetadata ob context =
     (case json_object_get_value ob ''parameterMetadata'' of
        None \<Rightarrow> Inr []
      | Some (JObject ms) \<Rightarrow> parameter_loop context ms []
      | Some _ \<Rightarrow> Inl (def_error context ('' has a '' @ quoted ''parameterMetadata'' @ '' field that is not a JSON object'')))"

section \<open>Tags and metadata\<close>

definition tag_char :: "char \<Rightarrow> bool" where
  "tag_char c \<longleftrightarrow> islower c \<or> isdigit c \<or> c = CHR ''-''"

definition parse_tag :: "string \<Rightarrow> json \<Rightarrow> string result" where
  "parse_tag context v =
     (case v of
        JString tag \<Rightarrow>
          if kMaxTagBytes < length tag
          then Inl (Error (''Benchmark definition '' @ context @ '' has a '' @ quoted ''tags'' @ '' entry exceeding ''
                  @ to_string_nat kMaxTagBytes @ '' bytes'') E2BIG)
          else if NUL \<in> set tag then Inl (def_error context ('' has an embedded NUL in a '' @ quoted ''tags'' @ '' entry''))
          else (case find_char (CHR '':'') tag of
                  None \<Rightarrow> Inl (def_error context ('' has an invalid '' @ quoted ''tags'' @ '' entry''))
                | Some colon \<Rightarrow>
                    if colon = 0 \<or> colon + 1 = length tag \<or> \<not> list_all tag_char (take colon tag)
                    then Inl (def_error context ('' has an invalid '' @ quoted ''tags'' @ '' entry''))
                    else Inr tag)
      | _ \<Rightarrow> Inl (def_error context ('' has a non-string '' @ quoted ''tags'' @ '' entry'')))"

definition ParseTags :: "jobject option \<Rightarrow> string \<Rightarrow> string list result" where
  "ParseTags ob context =
     (case json_object_get_value ob ''tags'' of
        Some (JArray vs) \<Rightarrow> map_result (parse_tag context) vs
      | _ \<Rightarrow> Inl (def_error context ('' is missing an array '' @ quoted ''tags'' @ '' field'')))"

definition metadata_keys :: "string list" where
  "metadata_keys = [''description'', ''rationale'', ''fixtext'', ''severity'', ''references'']"

text \<open>The loop over the other members. \<open>OptionalString\<close> finds the member, since the name is its
  own.\<close>

fun additional_loop :: "jobject option \<Rightarrow> string \<Rightarrow> string list \<Rightarrow> parameter_map \<Rightarrow> parameter_map result" where
  "additional_loop ob context [] acc = Inr acc"
| "additional_loop ob context (name # names) acc =
     (if name \<in> set metadata_keys then additional_loop ob context names acc
      else and_then (OptionalString ob name context) (\<lambda>extra.
             additional_loop ob context names (om_emplace name (the extra) acc)))"

definition ParseMetadata :: "jobject option \<Rightarrow> string \<Rightarrow> metadata result" where
  "ParseMetadata ob context =
     (case json_object_get_object ob ''metadata'' of
        None \<Rightarrow> Inl (def_error context ('' is missing an object '' @ quoted ''metadata'' @ '' field''))
      | Some ms \<Rightarrow>
          let mob = Some ms; mctx = context @ ''.metadata'' in
          and_then (OptionalString mob ''description'' mctx) (\<lambda>description.
          and_then (OptionalString mob ''rationale'' mctx) (\<lambda>rationale.
          and_then (OptionalString mob ''fixtext'' mctx) (\<lambda>fixtext.
          and_then (OptionalString mob ''severity'' mctx) (\<lambda>severity.
          and_then (OptionalString mob ''references'' mctx) (\<lambda>references.
          and_then (additional_loop mob mctx (map fst ms) []) (\<lambda>additional.
            Inr \<lparr>md_description = description, md_rationale = rationale, md_fixtext = fixtext,
                 md_severity = severity, md_references = references, md_additional = additional\<rparr>)))))))"

section \<open>Rules\<close>

definition BenchmarkVersionWithoutOptionalPrefix :: "string \<Rightarrow> string" where
  "BenchmarkVersionWithoutOptionalPrefix v = (if v \<noteq> [] \<and> v ! 0 = CHR ''v'' then drop 1 v else v)"

abbreviation distribution_name :: "LinuxDistribution \<Rightarrow> string" where
  "distribution_name d \<equiv> the (to_string_LinuxDistribution d)"

definition ValidateLegacyPayloadKeyPrefix :: "BenchmarkInfo \<Rightarrow> BenchmarkInfo \<Rightarrow> string \<Rightarrow> error option" where
  "ValidateLegacyPayloadKeyPrefix key doc context =
     (if framework key \<noteq> framework doc
      then Some (def_error context ('' payloadKey framework '' @ quoted (framework key)
             @ '' disagrees with metadata framework '' @ quoted (framework doc)))
      else if bi_distribution key \<noteq> bi_distribution doc
      then Some (def_error context ('' payloadKey distribution '' @ quoted (distribution_name (bi_distribution key))
             @ '' disagrees with metadata distribution '' @ quoted (distribution_name (bi_distribution doc))))
      else if bi_version key \<noteq> bi_version doc
      then Some (def_error context ('' payloadKey distribution version '' @ quoted (bi_version key)
             @ '' disagrees with metadata distribution version '' @ quoted (bi_version doc)))
      else if BenchmarkVersionWithoutOptionalPrefix (benchmarkVersion key)
              \<noteq> BenchmarkVersionWithoutOptionalPrefix (benchmarkVersion doc)
      then Some (def_error context ('' payloadKey benchmark version '' @ quoted (benchmarkVersion key)
             @ '' disagrees with metadata benchmark version '' @ quoted (benchmarkVersion doc)))
      else None)"

text \<open>The identity of a rule: its \<open>id\<close>, or the section of a legacy rule, which must agree with
  the payload key.\<close>

definition rule_identity :: "jobject option \<Rightarrow> BenchmarkInfo \<Rightarrow> string \<Rightarrow> string result" where
  "rule_identity ob documentInfo context =
     (let hasId = json_object_has_value ob ''id'';
          hasSection = json_object_has_value ob ''section'';
          hasPayloadKey = json_object_has_value ob ''payloadKey''
      in if hasId then
           (if hasSection \<or> hasPayloadKey
            then Inl (def_error context ('' mixes the '' @ quoted ''id'' @ '' identity with legacy '' @ quoted ''section''
                   @ '' or '' @ quoted ''payloadKey'' @ '' fields''))
            else RequiredString ob ''id'' context)
         else if \<not> hasSection \<or> \<not> hasPayloadKey
         then Inl (def_error context ('' must contain either '' @ quoted ''id'' @ '' or the complete legacy ''
                @ quoted ''section'' @ '' and '' @ quoted ''payloadKey'' @ '' identity''))
         else
           and_then (RequiredString ob ''section'' context) (\<lambda>sec.
           and_then (RequiredString ob ''payloadKey'' context) (\<lambda>payloadKey.
           (case BenchmarkInfo_Parse payloadKey of
              Inl e \<Rightarrow> Inl (Error (''Failed to parse payloadKey of benchmark definition '' @ context @ '': ''
                         @ err_message e) (err_code e))
            | Inr info \<Rightarrow>
                unless_error (ValidateLegacyPayloadKeyPrefix info documentInfo context)
                (let keySection = map (\<lambda>c. if c = CHR ''/'' then CHR ''.'' else c) (bi_section info) in
                 if sec \<noteq> keySection
                 then Inl (def_error context ('' has a '' @ quoted ''section'' @ '' ('' @ quoted sec
                        @ '') that disagrees with its payloadKey section ('' @ quoted keySection @ '')''))
                 else Inr sec)))))"

definition ParseRule :: "fmt_fun \<Rightarrow> jobject option \<Rightarrow> nat \<Rightarrow> BenchmarkInfo \<Rightarrow> resource_rule result" where
  "ParseRule fmt ob index documentInfo =
     (let context = ''rule #'' @ to_string_nat index in
      and_then (RequiredString ob ''title'' context) (\<lambda>title.
      and_then (RequiredString ob ''ruleId'' context) (\<lambda>rule_id.
      and_then (RequiredString ob ''ruleName'' context) (\<lambda>rule_name.
      and_then (SerializeProcedure fmt ob context) (\<lambda>procedure.
      and_then (ParseParameterMetadata ob context) (\<lambda>pm.
      and_then (rule_identity ob documentInfo context) (\<lambda>i.
      and_then (ParseTags ob context) (\<lambda>ts.
      and_then (ParseMetadata ob context) (\<lambda>md.
        Inr \<lparr>res_benchmarkInfo = documentInfo, resourceID = title, res_id = i, ruleId = rule_id,
             res_procedure = procedure, res_payload = None, res_ruleName = rule_name, tags = ts,
             res_metadata = md, parameterMetadata = pm, hasInitAudit = True\<rparr>)))))))))"

section \<open>Documents\<close>

text \<open>The identity of a document: from labels and annotations, or, without them, from the payload
  key of its first rule.\<close>

definition hoisted_identity :: "json \<Rightarrow> json \<Rightarrow> BenchmarkInfo result" where
  "hoisted_identity labelsValue annotationsValue =
     (let labels = json_value_get_object (Some labelsValue);
          annotations = json_value_get_object (Some annotationsValue)
      in if labels = None then Inl (def_error (quoted ''metadata.labels'') '' is not an object'')
         else if annotations = None then Inl (def_error (quoted ''metadata.annotations'') '' is not an object'')
         else
           and_then (RequiredString labels ''framework'' ''metadata.labels'') (\<lambda>fw.
           and_then (RequiredString labels ''distribution'' ''metadata.labels'') (\<lambda>d.
           and_then (RequiredString labels ''distributionVersion'' ''metadata.labels'') (\<lambda>v.
           and_then (RequiredString annotations ''benchmarkVersion'' ''metadata.annotations'') (\<lambda>bv.
             case FromMetadata fw d v bv of
               Inl e \<Rightarrow> Inl (Error (''Benchmark definition has invalid file-level identity: '' @ err_message e) (err_code e))
             | Inr info \<Rightarrow> Inr info)))))"

definition not_an_object :: "nat \<Rightarrow> error" where
  "not_an_object i = Error (''Benchmark definition rule #'' @ to_string_nat i @ '' is not a JSON object'') EINVAL"

definition legacy_rule_check :: "nat \<times> json \<Rightarrow> error option" where
  "legacy_rule_check iv =
     (case iv of (i, v) \<Rightarrow>
        let ob = json_value_get_object (Some v) in
        if ob = None then Some (not_an_object i)
        else if json_object_has_value ob ''id'' \<or> \<not> json_object_has_value ob ''section''
                \<or> \<not> json_object_has_value ob ''payloadKey''
        then Some (Error ''Benchmark definition without hoisted identity must contain only complete legacy rule identities'' EINVAL)
        else None)"

definition legacy_identity :: "json list \<Rightarrow> BenchmarkInfo result" where
  "legacy_identity rules =
     unless_error (first_error legacy_rule_check (enumerate 0 rules))
       (and_then (RequiredString (json_array_get_object (Some rules) 0) ''payloadKey'' ''rule #0'') (\<lambda>key.
          case BenchmarkInfo_Parse key of
            Inl e \<Rightarrow> Inl (Error (''Failed to derive legacy benchmark identity from rule #0 payloadKey: ''
                       @ err_message e) (err_code e))
          | Inr info \<Rightarrow> Inr (info\<lparr>bi_section := []\<rparr>)))"

definition document_identity :: "jobject option \<Rightarrow> json list \<Rightarrow> BenchmarkInfo result" where
  "document_identity metadata rules =
     (case (json_object_get_value metadata ''labels'', json_object_get_value metadata ''annotations'') of
        (Some labels, Some annotations) \<Rightarrow> hoisted_identity labels annotations
      | (None, None) \<Rightarrow> legacy_identity rules
      | _ \<Rightarrow> Inl (Error (''Benchmark definition metadata must contain both '' @ quoted ''labels'' @ '' and ''
               @ quoted ''annotations'' @ '', or neither for a legacy document'') EINVAL))"

text \<open>The loop over the rules, with the set \<open>seenIds\<close> and the resources so far.\<close>

fun rules_loop ::
  "fmt_fun \<Rightarrow> BenchmarkInfo \<Rightarrow> nat \<Rightarrow> json list \<Rightarrow> string set \<Rightarrow> resource_rule list \<Rightarrow> resource_rule list result" where
  "rules_loop fmt info i [] seenIds acc = Inr acc"
| "rules_loop fmt info i (v # vs) seenIds acc =
     (case json_value_get_object (Some v) of
        None \<Rightarrow> Inl (not_an_object i)
      | Some ms \<Rightarrow>
          and_then (ParseRule fmt (Some ms) i info) (\<lambda>r.
            if res_id r \<in> seenIds
            then Inl (Error (''Benchmark definition has duplicate rule id '' @ quoted (res_id r)) EINVAL)
            else rules_loop fmt info (Suc i) vs (insert (res_id r) seenIds) (acc @ [r])))"

definition check_kind :: "jobject option \<Rightarrow> error option" where
  "check_kind root =
     (if RequiredString root ''kind'' ''document'' = Inr ''BenchmarkDefinition'' then None
      else Some (Error (''Benchmark definition has an unexpected or missing '' @ quoted ''kind'' @ '' (expected ''
             @ quoted ''BenchmarkDefinition'' @ '')'') EINVAL))"

definition required_object :: "jobject option \<Rightarrow> string \<Rightarrow> jobject result" where
  "required_object ob key =
     (case json_object_get_object ob key of
        None \<Rightarrow> Inl (Error (''Benchmark definition is missing the '' @ quoted key @ '' object'') EINVAL)
      | Some ms \<Rightarrow> Inr ms)"

definition rule_array :: "jobject option \<Rightarrow> json list result" where
  "rule_array spec =
     (case json_object_get_array spec ''rules'' of
        None \<Rightarrow> Inl (Error (''Benchmark definition is missing the '' @ quoted ''spec.rules'' @ '' array'') EINVAL)
      | Some rules \<Rightarrow>
          if length rules = 0
          then Inl (Error (''Benchmark definition '' @ quoted ''spec.rules'' @ '' must contain at least one rule'') EINVAL)
          else if length rules > kMaxRules
          then Inl (Error (''Benchmark definition has more than the maximum of '' @ to_string_nat kMaxRules @ '' rules'') E2BIG)
          else Inr rules)"

definition ParseDocument :: "fmt_fun \<Rightarrow> json \<Rightarrow> benchmark_document result" where
  "ParseDocument fmt document =
     (case json_value_get_object (Some document) of
        None \<Rightarrow> Inl (Error ''Benchmark definition is not a JSON object'' EINVAL)
      | Some ms \<Rightarrow>
          let root = Some ms in
          unless_error (check_kind root)
          (and_then (RequiredString root ''apiVersion'' ''document'') (\<lambda>apiVersion.
           if apiVersion \<notin> set kSupportedApiVersions
           then Inl (Error (''Benchmark definition has an unsupported '' @ quoted ''apiVersion'' @ ''; supported: ''
                  @ JoinSet kSupportedApiVersions) EINVAL)
           else
           and_then (required_object root ''metadata'') (\<lambda>metadata.
           and_then (RequiredString (Some metadata) ''name'' ''metadata'') (\<lambda>name.
           and_then (required_object root ''spec'') (\<lambda>spec.
           and_then (RequiredString (Some spec) ''version'' ''spec'') (\<lambda>versionText.
           and_then (ParseContentVersion versionText) (\<lambda>ver.
           and_then (rule_array (Some spec)) (\<lambda>rules.
           and_then (document_identity (Some metadata) rules) (\<lambda>info.
           and_then (rules_loop fmt info 0 rules {} []) (\<lambda>rs.
             Inr \<lparr>doc_name = name, doc_version = ver, doc_benchmarkInfo = info, resources = rs\<rparr>)))))))))))"

definition BenchmarkDefinition_ParseString :: "strtod_fun \<Rightarrow> fmt_fun \<Rightarrow> string \<Rightarrow> benchmark_document result" where
  "BenchmarkDefinition_ParseString strtod fmt js =
     (if NUL \<in> set js then Inl (Error ''Benchmark definition contains a NUL byte'' EINVAL)
      else case JsonWrapper_FromString strtod js of
        Inl e \<Rightarrow> Inl (Error (''Failed to parse benchmark definition JSON: '' @ err_message e) EINVAL)
      | Inr document \<Rightarrow> ParseDocument fmt document)"

definition ParseStream :: "strtod_fun \<Rightarrow> fmt_fun \<Rightarrow> stream \<Rightarrow> benchmark_document result" where
  "ParseStream strtod fmt s =
     and_then (ReadAllBounded kMaxInputBytes
         (Error (''Benchmark definition exceeds the maximum size of '' @ to_string_nat kMaxInputBytes @ '' bytes'') EFBIG)
         (Error ''I/O error reading benchmark definition'' EIO) s)
       (BenchmarkDefinition_ParseString strtod fmt)"

text \<open>\<open>ParseFile\<close>. The descriptor belongs to the stream buffer, which closes it.\<close>

record input_files =
  fs_calls :: input_calls
  fs_stream :: "nat \<Rightarrow> stream"

definition ParseFile ::
  "strtod_fun \<Rightarrow> fmt_fun \<Rightarrow> input_files \<Rightarrow> string \<Rightarrow> descriptors \<Rightarrow> benchmark_document result \<times> descriptors" where
  "ParseFile strtod fmt fs path fds =
     (if RefusePathTraversal path
      then (Inl (Error (''Refusing to open benchmark definition with an unsafe path: '' @ quoted path) EACCES), fds)
      else if RefuseWritableParentDir (fs_calls fs) path
      then (Inl (Error (''Refusing to open benchmark definition in a writable parent directory: '' @ quoted path) EACCES), fds)
      else case OpenVerifiedInput (fs_calls fs) path fds of
        (Inl e, fds) \<Rightarrow> (Inl e, fds)
      | (Inr fd, fds) \<Rightarrow> (ParseStream strtod fmt (fs_stream fs fd), close_fd fd fds))"

section \<open>Parsed documents\<close>

text \<open>What every parsed rule is: non-empty identifiers, the identity of its document, metadata in
  canonical form, and a procedure that is the compact JSON of an object the JSON parser can read again.\<close>

definition readable :: "json \<Rightarrow> bool" where
  "readable v \<longleftrightarrow> json_wf v \<and> json_depth v \<le> MAX_NESTING"

definition parameters_ok :: "(string, parameter_metadata) omap \<Rightarrow> bool" where
  "parameters_ok m \<longleftrightarrow> om_inv m
     \<and> (\<forall>(name, pm)\<in>set m. name \<noteq> [] \<and> NUL \<notin> set name \<and> NUL \<notin> set (defaultValue pm))"

definition rule_ok :: "fmt_fun \<Rightarrow> BenchmarkInfo \<Rightarrow> resource_rule \<Rightarrow> bool" where
  "rule_ok fmt info r \<longleftrightarrow>
     res_benchmarkInfo r = info \<and> res_id r \<noteq> [] \<and> resourceID r \<noteq> [] \<and> ruleId r \<noteq> [] \<and> res_ruleName r \<noteq> []
     \<and> NUL \<notin> set (res_id r) \<and> NUL \<notin> set (res_ruleName r)
     \<and> parameters_ok (parameterMetadata r) \<and> om_inv (md_additional (res_metadata r))
     \<and> (\<forall>t\<in>set (tags r). CHR '':'' \<in> set t \<and> length t \<le> kMaxTagBytes)
     \<and> res_payload r = None \<and> hasInitAudit r
     \<and> (\<exists>ms. readable (JObject ms) \<and> res_procedure r = json_serialize_to_string fmt (JObject ms))"

definition document_ok :: "fmt_fun \<Rightarrow> benchmark_document \<Rightarrow> bool" where
  "document_ok fmt d \<longleftrightarrow>
     valid_version (doc_version d) \<and> doc_name d \<noteq> [] \<and> NUL \<notin> set (doc_name d)
     \<and> resources d \<noteq> [] \<and> length (resources d) \<le> kMaxRules
     \<and> distinct (map res_id (resources d))
     \<and> (\<forall>r\<in>set (resources d). rule_ok fmt (doc_benchmarkInfo d) r)"

lemma RequiredString_Inr [result_simps]:
  "RequiredString ob key context = Inr s \<longleftrightarrow>
     json_object_get_value ob key = Some (JString s) \<and> s \<noteq> [] \<and> NUL \<notin> set s"
  by (auto simp: RequiredString_def ReadStringValue_def result_simps split: option.splits json.splits if_splits)

lemma SerializeProcedure_Inr [result_simps]:
  "SerializeProcedure fmt ob context = Inr s \<longleftrightarrow>
     (\<exists>ms. json_object_get_value ob ''payload'' = Some (JObject ms) \<and> s = json_serialize_to_string fmt (JObject ms))"
  by (auto simp: SerializeProcedure_def split: option.splits json.splits)

lemma readable_member:
  assumes "readable (JObject ms)" "map_of ms k = Some v"
  shows "readable v"
proof -
  have m: "(k, v) \<in> set ms" using assms(2) by (rule map_of_SomeD)
  then show ?thesis
    using assms(1) json_depth_object_le [of ms 0 MAX_NESTING "(k, v)"] by (auto simp: readable_def)
qed

lemma readable_item: "readable (JArray vs) \<Longrightarrow> v \<in> set vs \<Longrightarrow> readable v"
  using json_depth_array_le [of vs 0 MAX_NESTING v] by (auto simp: readable_def)

lemma readable_parsed: "JsonWrapper_FromString strtod s = Inr v \<Longrightarrow> readable v"
  using json_parse_string_ok by (auto simp: FromString_Inr readable_def)

lemma parameters_ok_insert:
  "parameters_ok m \<Longrightarrow> name \<noteq> [] \<Longrightarrow> NUL \<notin> set name \<Longrightarrow> NUL \<notin> set (defaultValue pm)
   \<Longrightarrow> parameters_ok (om_insert name pm m)"
  using set_om_insert [of name pm m] by (auto simp: parameters_ok_def om_inv_insert)

lemma parameter_entry_Inr:
  "parameter_entry context (n, v) = Inr (name, pm) \<Longrightarrow> name = n \<and> n \<noteq> [] \<and> NUL \<notin> set (defaultValue pm)"
  by (auto simp: parameter_entry_def RequiredStringAllowEmpty_def ReadStringValue_def Let_def result_simps
      split: option.splits if_splits json.splits)

lemma parameter_loop_ok:
  "parameter_loop context ms acc = Inr pm \<Longrightarrow> parameters_ok acc \<Longrightarrow> \<forall>m\<in>set ms. NUL \<notin> set (fst m)
   \<Longrightarrow> parameters_ok pm"
proof (induction ms arbitrary: acc)
  case Nil
  then show ?case by simp
next
  case (Cons m ms)
  obtain n v where m: "m = (n, v)" by (cases m)
  from Cons.prems(1) obtain name e where e: "parameter_entry context (n, v) = Inr (name, e)"
      "parameter_loop context ms (om_insert name e acc) = Inr pm"
    by (auto simp: m result_simps)
  have "parameters_ok (om_insert name e acc)"
    using parameter_entry_Inr [OF e(1)] Cons.prems(2,3) by (intro parameters_ok_insert) (auto simp: m)
  then show ?case using Cons.IH [OF e(2)] Cons.prems(3) by simp
qed

lemma ParseParameterMetadata_ok:
  assumes "ParseParameterMetadata (Some ms) context = Inr pm" "readable (JObject ms)"
  shows "parameters_ok pm"
proof -
  have nil: "parameters_ok []" by (simp add: parameters_ok_def)
  have "\<forall>m\<in>set ps. NUL \<notin> set (fst m)" if "map_of ms ''parameterMetadata'' = Some (JObject ps)" for ps
    using readable_member [OF assms(2) that] by (simp add: readable_def)
  with assms(1) nil show ?thesis
    by (auto simp: ParseParameterMetadata_def dest: parameter_loop_ok split: option.splits json.splits)
qed

lemma additional_loop_inv: "additional_loop ob context names acc = Inr m \<Longrightarrow> om_inv acc \<Longrightarrow> om_inv m"
  by (induction names arbitrary: acc) (auto simp: result_simps om_inv_emplace split: if_splits)

lemma ParseMetadata_inv: "ParseMetadata ob context = Inr md \<Longrightarrow> om_inv (md_additional md)"
  by (auto simp: ParseMetadata_def result_simps Let_def dest: additional_loop_inv split: option.splits)

lemma find_char_in_set: "find_char c s = Some i \<Longrightarrow> c \<in> set s"
  by (auto simp: find_char_Some)

lemma parse_tag_Inr: "parse_tag context v = Inr t \<Longrightarrow> CHR '':'' \<in> set t \<and> length t \<le> kMaxTagBytes"
  by (auto simp: parse_tag_def split: json.splits if_splits option.splits dest: find_char_in_set)

lemma ParseTags_Inr: "ParseTags ob context = Inr ts \<Longrightarrow> t \<in> set ts \<Longrightarrow> CHR '':'' \<in> set t \<and> length t \<le> kMaxTagBytes"
  by (auto simp: ParseTags_def split: option.splits json.splits dest!: map_result_set parse_tag_Inr)

lemma case_error_Inr:
  "(case r of Inl e \<Rightarrow> Inl (f e) | Inr x \<Rightarrow> g x) = Inr y \<longleftrightarrow> (\<exists>x. r = Inr x \<and> g x = Inr y)"
  by (cases r) auto

lemma rule_identity_Inr: "rule_identity ob info context = Inr i \<Longrightarrow> i \<noteq> [] \<and> NUL \<notin> set i"
  by (auto simp: rule_identity_def Let_def result_simps case_error_Inr split: if_splits)

lemma ParseRule_ok:
  assumes "ParseRule fmt (Some ms) i info = Inr r" "readable (JObject ms)"
  shows "rule_ok fmt info r"
  using assms
  by (auto simp: ParseRule_def Let_def result_simps rule_ok_def
      dest: readable_member [rotated] rule_identity_Inr ParseParameterMetadata_ok ParseMetadata_inv ParseTags_Inr)

lemma rules_loop_ok:
  assumes "rules_loop fmt info i vs seen acc = Inr rs"
    and "seen = set (map res_id acc)" "distinct (map res_id acc)" "\<forall>r\<in>set acc. rule_ok fmt info r"
    and "\<forall>v\<in>set vs. readable v"
  shows "distinct (map res_id rs) \<and> (\<forall>r\<in>set rs. rule_ok fmt info r) \<and> length rs = length acc + length vs"
  using assms
proof (induction fmt info i vs seen acc rule: rules_loop.induct)
  case (1 fmt info i seen acc)
  then show ?case by simp
next
  case (2 fmt info i v vs seen acc)
  then obtain ms r where r: "json_value_get_object (Some v) = Some ms" "ParseRule fmt (Some ms) i info = Inr r"
      "res_id r \<notin> seen" "rules_loop fmt info (Suc i) vs (insert (res_id r) seen) (acc @ [r]) = Inr rs"
    by (auto simp: result_simps split: option.splits if_splits)
  have "distinct (map res_id rs) \<and> (\<forall>r\<in>set rs. rule_ok fmt info r) \<and> length rs = length (acc @ [r]) + length vs"
    using r "2.prems" ParseRule_ok [OF r(2)] by (intro "2.IH" [of ms r]) auto
  then show ?case by simp
qed

lemma ParseDocument_ok:
  assumes "ParseDocument fmt document = Inr d" "readable document"
  shows "document_ok fmt d"
proof -
  obtain root metadata spec versionText rules where
    q: "RequiredString (Some metadata) ''name'' ''metadata'' = Inr (doc_name d)"
      "ParseContentVersion versionText = Inr (doc_version d)" "rule_array (Some spec) = Inr rules"
      "rules_loop fmt (doc_benchmarkInfo d) 0 rules {} [] = Inr (resources d)"
    and o: "document = JObject root" "map_of root ''spec'' = Some (JObject spec)"
    using assms
    by (auto simp: ParseDocument_def Let_def result_simps required_object_def json_object_get_object_def
        split: option.splits if_splits)
  have "rules \<noteq> []" "length rules \<le> kMaxRules"
    using q(3) by (auto simp: rule_array_def split: option.splits if_splits)
  have "readable (JArray rules)"
    using q(3) o assms(2)
    by (auto simp: rule_array_def json_object_get_array_def dest!: readable_member [rotated]
        split: option.splits if_splits)
  then have "\<forall>v\<in>set rules. readable v" using readable_item by blast
  then have "distinct (map res_id (resources d)) \<and> (\<forall>r\<in>set (resources d). rule_ok fmt (doc_benchmarkInfo d) r)
      \<and> length (resources d) = length rules"
    using rules_loop_ok [OF q(4)] by simp
  with \<open>rules \<noteq> []\<close> \<open>length rules \<le> kMaxRules\<close> show ?thesis
    using q(1,2) ParseContentVersion_sound by (auto simp: document_ok_def result_simps)
qed

lemma ParseString_ok: "BenchmarkDefinition_ParseString strtod fmt s = Inr d \<Longrightarrow> document_ok fmt d"
  by (auto simp: BenchmarkDefinition_ParseString_def case_error_Inr
      intro: ParseDocument_ok readable_parsed split: if_splits)

lemma ParseFile_ok:
  assumes "ParseFile strtod fmt fs path fds = (Inr d, fds')"
  shows "document_ok fmt d \<and> ''..'' \<notin> set (path_components path)
    \<and> (\<exists>fd st. sys_open (fs_calls fs) (c_str path) = Inr fd \<and> sys_fstat (fs_calls fs) fd = Inr st \<and> trusted_file st
        \<and> length (stream_bytes (fs_stream fs fd)) \<le> kMaxInputBytes)"
proof -
  obtain fd fds1 where o: "OpenVerifiedInput (fs_calls fs) path fds = (Inr fd, fds1)"
      "ParseStream strtod fmt (fs_stream fs fd) = Inr d" "\<not> RefusePathTraversal path"
    using assms by (auto simp: ParseFile_def split: if_splits prod.splits sum.splits)
  then show ?thesis
    using OpenVerifiedInput_Inr [OF o(1)]
    by (auto simp: ParseStream_def result_simps ReadAllBounded_eq RefusePathTraversal_iff
        dest: ParseString_ok split: if_splits)
qed

lemma ParseFile_descriptors: "snd (ParseFile strtod fmt fs path fds) = fds"
  by (auto simp: ParseFile_def dest: OpenVerifiedInput_Inl OpenVerifiedInput_Inr split: prod.splits sum.splits)

text \<open>A procedure without numbers is read by the engine as the payload it was printed from.\<close>

lemma rule_procedure_readable:
  assumes "rule_ok fmt info r"
  shows "\<exists>ms. res_procedure r = json_serialize_to_string fmt (JObject ms)
    \<and> (json_plain (JObject ms) \<longrightarrow> json_parse_string strtod (res_procedure r) = Some (JObject ms))"
proof -
  obtain ms where ms: "readable (JObject ms)" "res_procedure r = json_serialize_to_string fmt (JObject ms)"
    using assms by (auto simp: rule_ok_def)
  then show ?thesis
    using parse_serialize_plain [of "JObject ms" strtod fmt "[]"] by (auto simp: readable_def)
qed

end
