(* ===== verification/Plan.thy ===== *)
theory Plan
  imports BenchmarkDefinition
begin

text \<open>
  \<open>kompli/Plan.cpp\<close>: plan files. A plan selects a mode and parameter values for rules of one or
  more benchmark definitions. This theory has the data, the checks that generation and execution
  share, the generator (\<open>GeneratePlan\<close>), the parser (\<open>ParsePlanFile\<close>) and the validation in front
  of a run (\<open>ValidatePlanForRun\<close>). Regular expressions are \<open>std::regex\<close>, a parameter that gives
  \<open>None\<close> where the constructor throws; so is \<open>realpath\<close>.
\<close>

section \<open>Data\<close>

datatype ToggleMode = ModeAudit | ModeRemediate | ModeEnforce

record Toggle =
  toggle_section :: string
  toggle_mode :: ToggleMode

record ParamOverride =
  selector :: string
  po_value :: string

record plan_rule =
  pr_mode :: ToggleMode
  pr_parameters :: parameter_map

record plan_benchmark =
  pb_file :: string
  pb_name :: string
  pb_version :: content_version
  pb_versionConstraint :: string
  pb_rules :: "(string, plan_rule) omap"

type_synonym plan = "plan_benchmark list"

text \<open>The parts of the world the functions ask: the JSON number conversions, the files, the
  resolution of a path and the regular expressions.\<close>

record plan_env =
  pe_strtod :: strtod_fun
  pe_fmt :: fmt_fun
  pe_files :: input_files
  pe_realpath :: "string \<Rightarrow> string option"
  pe_regex :: "string \<Rightarrow> string \<Rightarrow> bool option"

abbreviation kMaxPlanInputBytes :: nat where "kMaxPlanInputBytes \<equiv> 8 * 1024 * 1024"

definition or_error :: "error \<Rightarrow> 'a option \<Rightarrow> 'a result" where
  "or_error e x = (case x of None \<Rightarrow> Inl e | Some y \<Rightarrow> Inr y)"

lemma or_error_simps [simp]: "or_error e (Some y) = Inr y" "or_error e None = Inl e"
  by (simp_all add: or_error_def)

lemma or_error_iff [result_simps]:
  "or_error e x = Inr y \<longleftrightarrow> x = Some y" "or_error e x = Inl e' \<longleftrightarrow> x = None \<and> e' = e"
  by (auto simp: or_error_def split: option.splits)

section \<open>Shared checks\<close>

text \<open>Indexing an empty \<open>std::string\<close> at 0 gives its terminator.\<close>

definition first_char :: "string \<Rightarrow> char" where
  "first_char s = (case s of [] \<Rightarrow> NUL | c # _ \<Rightarrow> c)"

abbreviation CARET :: char where "CARET \<equiv> CHR 0x5E"
abbreviation TILDE :: char where "TILDE \<equiv> CHR 0x7E"

definition constraint_error :: "string \<Rightarrow> error" where
  "constraint_error constraint =
     Error (''Invalid versionConstraint '' @ quoted constraint @ '': expected the plan'' @ [SQ]
       @ ''s version with optional ^ or ~ prefix'') EINVAL"

definition ValidateVersionConstraint :: "content_version \<Rightarrow> string \<Rightarrow> error option" where
  "ValidateVersionConstraint ver constraint =
     (let minimum = (if constraint \<noteq> [] \<and> (first_char constraint = CARET \<or> first_char constraint = TILDE)
                     then drop 1 constraint else constraint)
      in case ParseContentVersion minimum of
           Inl _ \<Rightarrow> Some (constraint_error constraint)
         | Inr parsed \<Rightarrow> if CompareContentVersion ver parsed \<noteq> 0 then Some (constraint_error constraint) else None)"

fun ToModeString :: "ToggleMode \<Rightarrow> string" where
  "ToModeString ModeAudit = ''audit''"
| "ToModeString ModeRemediate = ''remediate''"
| "ToModeString ModeEnforce = ''enforce''"

definition FromModeString :: "string \<Rightarrow> ToggleMode result" where
  "FromModeString mode =
     (if mode = ''audit'' then Inr ModeAudit
      else if mode = ''remediate'' then Inr ModeRemediate
      else if mode = ''enforce'' then Inr ModeEnforce
      else Inl (Error (''Invalid plan rule mode: '' @ quoted mode @ ''. Must be '' @ quoted ''audit'' @ '', ''
             @ quoted ''remediate'' @ '' or '' @ quoted ''enforce'' @ ''.'') EINVAL))"

text \<open>The two loops of \<open>ValidateParameters\<close>.\<close>

definition missing_parameter :: "string \<Rightarrow> string \<Rightarrow> parameter_map \<Rightarrow> string \<times> parameter_metadata \<Rightarrow> error option" where
  "missing_parameter file rule parameters entry =
     (if mandatory (snd entry) \<and> om_find parameters (fst entry) = None
      then Some (Error (''Missing mandatory parameter '' @ quoted (fst entry) @ '' for rule '' @ quoted rule
             @ '' in benchmark definition '' @ quoted file) EINVAL)
      else None)"

definition invalid_parameter ::
  "(string \<Rightarrow> string \<Rightarrow> bool option) \<Rightarrow> string \<Rightarrow> string \<Rightarrow> (string, parameter_metadata) omap \<Rightarrow> string \<times> string \<Rightarrow> error option"
where
  "invalid_parameter regex file rule metadata parameter =
     (case om_find metadata (fst parameter) of
        None \<Rightarrow> Some (Error (''Unknown parameter '' @ quoted (fst parameter) @ '' for rule '' @ quoted rule
                  @ '' in benchmark definition '' @ quoted file) EINVAL)
      | Some pm \<Rightarrow>
          (case validationRegex pm of
             None \<Rightarrow> None
           | Some pattern \<Rightarrow>
               (case regex pattern (snd parameter) of
                  None \<Rightarrow> Some (Error (''Parameter '' @ quoted (fst parameter) @ '' has an invalid validationRegex'') EINVAL)
                | Some True \<Rightarrow> None
                | Some False \<Rightarrow>
                    Some (Error (case validationFailedMessage pm of
                                   Some m \<Rightarrow> m
                                 | None \<Rightarrow> ''Value '' @ quoted (snd parameter) @ '' for parameter '' @ quoted (fst parameter)
                                     @ '' does not match its required pattern'') EINVAL))))"

definition ValidateParameters ::
  "(string \<Rightarrow> string \<Rightarrow> bool option) \<Rightarrow> string \<Rightarrow> string \<Rightarrow> (string, parameter_metadata) omap \<Rightarrow> parameter_map \<Rightarrow> error option"
where
  "ValidateParameters regex file rule metadata parameters =
     (case first_error (missing_parameter file rule parameters) metadata of
        Some e \<Rightarrow> Some e
      | None \<Rightarrow> first_error (invalid_parameter regex file rule metadata) parameters)"

text \<open>\<open>CheckUniqueBenchmarkFiles\<close>, with its map from canonical to given names.\<close>

fun unique_files_loop :: "(string \<Rightarrow> string option) \<Rightarrow> (string, string) omap \<Rightarrow> string list \<Rightarrow> error option" where
  "unique_files_loop realpath seen [] = None"
| "unique_files_loop realpath seen (file # files) =
     (let canonical = (case realpath (c_str file) of Some resolved \<Rightarrow> resolved | None \<Rightarrow> file) in
      case om_find seen canonical of
        Some original \<Rightarrow>
          Some (Error (''Duplicate benchmark file: '' @ quoted original @ '' and '' @ quoted file
            @ '' refer to the same file'') EINVAL)
      | None \<Rightarrow> unique_files_loop realpath (om_emplace canonical file seen) files)"

definition CheckUniqueBenchmarkFiles :: "(string \<Rightarrow> string option) \<Rightarrow> string list \<Rightarrow> error option" where
  "CheckUniqueBenchmarkFiles realpath files = unique_files_loop realpath [] files"

text \<open>The identity tuple of \<open>CheckUniqueBenchmarkIdentities\<close>.\<close>

type_synonym identity = "string \<times> LinuxDistribution \<times> string \<times> string"

definition benchmark_identity :: "BenchmarkInfo \<Rightarrow> identity" where
  "benchmark_identity info =
     (framework info, bi_distribution info, bi_version info,
      BenchmarkVersionWithoutOptionalPrefix (benchmarkVersion info))"

fun unique_identities_loop :: "(identity \<times> string) list \<Rightarrow> (string \<times> BenchmarkInfo) list \<Rightarrow> error option" where
  "unique_identities_loop seen [] = None"
| "unique_identities_loop seen ((file, info) # entries) =
     (case map_of seen (benchmark_identity info) of
        Some first \<Rightarrow>
          Some (Error (''Benchmark files '' @ quoted first @ '' and '' @ quoted file
            @ '' share the same (framework, distribution, distributionVersion, benchmarkVersion) identity ''
            @ quoted (to_string_BenchmarkInfo info)) EINVAL)
      | None \<Rightarrow> unique_identities_loop ((benchmark_identity info, file) # seen) entries)"

definition CheckUniqueBenchmarkIdentities :: "(string \<times> BenchmarkInfo) list \<Rightarrow> error option" where
  "CheckUniqueBenchmarkIdentities benchmarks = unique_identities_loop [] benchmarks"

section \<open>Plan text\<close>

definition BaseName :: "string \<Rightarrow> string" where
  "BaseName path =
     (case rfind_char (CHR ''/'') path of None \<Rightarrow> path | Some slash \<Rightarrow> drop (slash + 1) path)"

text \<open>The scan for the end of the JSON document: the open delimiters (innermost first), the string
  state, and the rest of the text. \<open>True\<close> means that something follows the document.\<close>

fun trailing_scan :: "string \<Rightarrow> bool \<Rightarrow> bool \<Rightarrow> string \<Rightarrow> bool" where
  "trailing_scan delimiters inString escaped [] = False"
| "trailing_scan delimiters inString escaped (ch # rest) =
     (if inString then
        (if escaped then trailing_scan delimiters True False rest
         else if ch = BSL then trailing_scan delimiters True True rest
         else if ch = DQ then trailing_scan delimiters False False rest
         else trailing_scan delimiters True False rest)
      else if ch = DQ then trailing_scan delimiters True escaped rest
      else if ch = CHR ''{'' \<or> ch = CHR ''['' then trailing_scan (ch # delimiters) False escaped rest
      else if ch = CHR ''}'' \<or> ch = CHR '']'' then
        (case delimiters of
           [] \<Rightarrow> False
         | d # ds \<Rightarrow>
             if d \<noteq> (if ch = CHR ''}'' then CHR ''{'' else CHR ''['') then False
             else if ds = [] then dropWhile isspace rest \<noteq> []
             else trailing_scan ds False escaped rest)
      else trailing_scan delimiters False escaped rest)"

definition RejectTrailingPlanData :: "string \<Rightarrow> error option" where
  "RejectTrailingPlanData content =
     (let r = dropWhile isspace content in
      if r = [] \<or> hd r \<noteq> CHR ''{'' then None
      else if trailing_scan [] False False r
      then Some (Error ''Plan file contains trailing data after the JSON document'' EINVAL)
      else None)"

section \<open>Parsing a plan\<close>

definition plan_error :: "string \<Rightarrow> string \<Rightarrow> error" where
  "plan_error context msg = Error (''Plan file'' @ [SQ] @ ''s '' @ quoted context @ msg) EINVAL"

definition ReadPlanString :: "json option \<Rightarrow> string \<Rightarrow> bool \<Rightarrow> string result" where
  "ReadPlanString v context allowEmpty =
     (case v of
        Some (JString s) \<Rightarrow>
          if NUL \<in> set s then Inl (plan_error context '' contains an embedded NUL'')
          else if \<not> allowEmpty \<and> s = [] then Inl (plan_error context '' is empty'')
          else Inr s
      | _ \<Rightarrow> Inl (plan_error context '' is missing or is not a string''))"

fun plan_parameters_loop :: "string \<Rightarrow> string \<Rightarrow> jobject \<Rightarrow> string list \<Rightarrow> parameter_map \<Rightarrow> parameter_map result" where
  "plan_parameters_loop context rule ms [] acc = Inr acc"
| "plan_parameters_loop context rule ms (name # names) acc =
     (if name = [] then Inl (plan_error context ('' rule '' @ quoted rule @ '' has a parameter with an empty name''))
      else and_then (ReadPlanString (json_object_get_value (Some ms) name)
               (context @ ''.rules.'' @ rule @ ''.parameters.'' @ name) True) (\<lambda>v.
             plan_parameters_loop context rule ms names (om_insert name v acc)))"

definition parse_plan_rule :: "string \<Rightarrow> string \<Rightarrow> json \<Rightarrow> plan_rule result" where
  "parse_plan_rule context rule v =
     (case json_value_get_object (Some v) of
        None \<Rightarrow> Inl (plan_error context ('' rule '' @ quoted rule @ '' is not a JSON object''))
      | Some ms \<Rightarrow>
          and_then (ReadPlanString (json_object_get_value (Some ms) ''mode'') (context @ ''.rules.'' @ rule @ ''.mode'') False)
            (\<lambda>modeText. and_then (FromModeString modeText) (\<lambda>mode.
          (case json_object_get_value (Some ms) ''parameters'' of
             None \<Rightarrow> Inr \<lparr>pr_mode = mode, pr_parameters = []\<rparr>
           | Some (JObject ps) \<Rightarrow>
               and_then (plan_parameters_loop context rule ps (map fst ps) []) (\<lambda>parameters.
                 Inr \<lparr>pr_mode = mode, pr_parameters = parameters\<rparr>)
           | Some _ \<Rightarrow> Inl (plan_error context ('' rule '' @ quoted rule @ '' has a '' @ quoted ''parameters''
                        @ '' field that is not a JSON object''))))))"

fun plan_rules_loop :: "string \<Rightarrow> jobject \<Rightarrow> (string, plan_rule) omap \<Rightarrow> (string, plan_rule) omap result" where
  "plan_rules_loop context [] acc = Inr acc"
| "plan_rules_loop context ((rule, v) # ms) acc =
     (if rule = [] then Inl (plan_error context '' has a rule with an empty id'')
      else and_then (parse_plan_rule context rule v) (\<lambda>r. plan_rules_loop context ms (om_insert rule r acc)))"

definition parse_plan_name :: "string \<Rightarrow> jobject option \<Rightarrow> string result" where
  "parse_plan_name context ob =
     (case json_object_get_value ob ''name'' of
        None \<Rightarrow> Inr []
      | Some v \<Rightarrow> ReadPlanString (Some v) (context @ ''.name'') True)"

definition parse_plan_benchmark :: "nat \<times> json \<Rightarrow> plan_benchmark result" where
  "parse_plan_benchmark iv =
     (case iv of (b, v) \<Rightarrow>
        let context = ''benchmarks['' @ to_string_nat b @ '']'';
            ob = json_value_get_object (Some v)
        in if ob = None then Inl (plan_error context '' is not a JSON object'')
           else
             and_then (ReadPlanString (json_object_get_value ob ''file'') (context @ ''.file'') False) (\<lambda>file.
             and_then (parse_plan_name context ob) (\<lambda>name.
             if json_object_get_value ob ''version'' = None \<or> json_object_get_value ob ''versionConstraint'' = None
             then Inl (plan_error context '' must include both version and versionConstraint'')
             else
             and_then (ReadPlanString (json_object_get_value ob ''version'') (context @ ''.version'') False) (\<lambda>versionText.
             and_then (ParseContentVersion versionText) (\<lambda>ver.
             and_then (ReadPlanString (json_object_get_value ob ''versionConstraint'') (context @ ''.versionConstraint'') False)
               (\<lambda>constraint.
             unless_error (ValidateVersionConstraint ver constraint)
             (case json_object_get_object ob ''rules'' of
                None \<Rightarrow> Inl (plan_error context ('' is missing the '' @ quoted ''rules'' @ '' object''))
              | Some ms \<Rightarrow>
                  and_then (plan_rules_loop context ms []) (\<lambda>rules.
                    Inr \<lparr>pb_file = file, pb_name = name, pb_version = ver, pb_versionConstraint = constraint,
                         pb_rules = rules\<rparr>))))))))"

text \<open>What \<open>ParsePlanFile\<close> does with the bytes of the file.\<close>

definition ParsePlan :: "strtod_fun \<Rightarrow> string \<Rightarrow> plan result" where
  "ParsePlan strtod content =
     (if NUL \<in> set content then Inl (Error ''Plan file contains a raw NUL byte'' EINVAL)
      else unless_error (RejectTrailingPlanData content)
        (case JsonWrapper_FromString strtod content of
           Inl e \<Rightarrow> Inl (Error (''Failed to parse plan JSON: '' @ err_message e) EINVAL)
         | Inr document \<Rightarrow>
             (case json_value_get_object (Some document) of
                None \<Rightarrow> Inl (Error ''Plan file is not a JSON object'' EINVAL)
              | Some root \<Rightarrow>
                  (case json_object_get_array (Some root) ''benchmarks'' of
                     None \<Rightarrow> Inl (Error (''Plan file is missing the '' @ quoted ''benchmarks'' @ '' array'') EINVAL)
                   | Some vs \<Rightarrow>
                       if length vs = 0
                       then Inl (Error (''Plan file'' @ [SQ] @ ''s '' @ quoted ''benchmarks'' @ '' array must not be empty'') EINVAL)
                       else map_result parse_plan_benchmark (enumerate 0 vs)))))"

definition OpenVerified :: "input_calls \<Rightarrow> string \<Rightarrow> descriptors \<Rightarrow> nat result \<times> descriptors" where
  "OpenVerified env path fds =
     (if RefusePathTraversal path
      then (Inl (Error (''Refusing to open '' @ quoted path @ '' with an unsafe path'') EACCES), fds)
      else if RefuseWritableParentDir env path
      then (Inl (Error (''Refusing to open '' @ quoted path @ '' in a writable parent directory'') EACCES), fds)
      else OpenVerifiedInput env path fds)"

definition ParsePlanFile :: "strtod_fun \<Rightarrow> input_files \<Rightarrow> string \<Rightarrow> descriptors \<Rightarrow> plan result \<times> descriptors" where
  "ParsePlanFile strtod fs path fds =
     (case OpenVerified (fs_calls fs) path fds of
        (Inl e, fds) \<Rightarrow> (Inl e, fds)
      | (Inr fd, fds) \<Rightarrow>
          (and_then (ReadAllBounded kMaxPlanInputBytes
              (Error (''Plan file exceeds the maximum size of '' @ to_string_nat kMaxPlanInputBytes @ '' bytes'') EFBIG)
              (Error (''I/O error reading plan file '' @ quoted path) EIO) (fs_stream fs fd))
             (ParsePlan strtod),
           close_fd fd fds))"

end
