(* ===== verification/PlanGenerate.thy ===== *)
theory PlanGenerate
  imports Plan
begin

text \<open>
  \<open>GeneratePlan\<close> of \<open>kompli/Plan.cpp\<close>, with \<open>BuildBenchmarkEntry\<close> and the resolution of toggles
  and parameter overrides, and \<open>ValidatePlanForRun\<close> and \<open>ApplyParameterOverrides\<close>, which take a
  plan up again. A pointer to a parsed file is its index. A parse leaves the descriptors as they
  were (\<open>ParseFile_descriptors\<close>), so the generator does not thread them.
\<close>

section \<open>Selection\<close>

record parsed_file =
  pf_file :: string
  pf_name :: string
  pf_version :: content_version
  pf_rules :: "(string, plan_rule) omap"
  pf_parameterMetadata :: "(string, (string, parameter_metadata) omap) omap"

text \<open>A rule starts in audit mode with the defaults of its parameters.\<close>

definition seed_rule :: "resource_rule \<Rightarrow> plan_rule" where
  "seed_rule r =
     \<lparr>pr_mode = ModeAudit,
      pr_parameters = fold (\<lambda>(name, pm). om_insert name (defaultValue pm)) (parameterMetadata r) []\<rparr>"

definition seed_file :: "string \<Rightarrow> benchmark_document \<Rightarrow> parsed_file" where
  "seed_file file doc =
     \<lparr>pf_file = file, pf_name = doc_name doc, pf_version = doc_version doc,
      pf_rules = fold (\<lambda>r. om_insert (res_id r) (seed_rule r)) (resources doc) [],
      pf_parameterMetadata = fold (\<lambda>r. om_insert (res_id r) (parameterMetadata r)) (resources doc) []\<rparr>"

definition parse_definition :: "plan_env \<Rightarrow> string \<Rightarrow> benchmark_document result" where
  "parse_definition env file = fst (ParseFile (pe_strtod env) (pe_fmt env) (pe_files env) file [])"

definition ResolveRuleRef :: "parsed_file list \<Rightarrow> string \<Rightarrow> bool \<Rightarrow> (nat \<times> string) result" where
  "ResolveRuleRef parsedFiles ref multiFile =
     (if \<not> multiFile then Inr (0, ref)
      else case find_char (CHR '':'') ref of
        None \<Rightarrow> Inl (Error (quoted ref @ '' must be qualified as <file-basename>:<id> when more than one file is given'') EINVAL)
      | Some colon \<Rightarrow>
          let basename = take colon ref; rule = drop (colon + 1) ref in
          (case filter (\<lambda>i. BaseName (pf_file (parsedFiles ! i)) = basename) [0..<length parsedFiles] of
             [] \<Rightarrow> Inl (Error (''Unknown file '' @ quoted basename @ '' in qualified rule reference '' @ quoted ref) EINVAL)
           | [i] \<Rightarrow> Inr (i, rule)
           | _ \<Rightarrow> Inl (Error (''Ambiguous file '' @ quoted basename @ '' in qualified rule reference '' @ quoted ref) EINVAL)))"

definition set_rule :: "nat \<Rightarrow> string \<Rightarrow> plan_rule \<Rightarrow> parsed_file list \<Rightarrow> parsed_file list" where
  "set_rule i rule r parsedFiles =
     parsedFiles[i := (parsedFiles ! i)\<lparr>pf_rules := om_insert rule r (pf_rules (parsedFiles ! i))\<rparr>]"

definition apply_toggle :: "bool \<Rightarrow> Toggle \<Rightarrow> parsed_file list \<Rightarrow> parsed_file list result" where
  "apply_toggle multiFile toggle parsedFiles =
     and_then (ResolveRuleRef parsedFiles (toggle_section toggle) multiFile) (\<lambda>(i, rule).
       case om_find (pf_rules (parsedFiles ! i)) rule of
         None \<Rightarrow> Inl (Error (''Unknown rule '' @ quoted rule @ '' in benchmark definition ''
                   @ quoted (pf_file (parsedFiles ! i))) EINVAL)
       | Some r \<Rightarrow> Inr (set_rule i rule (r\<lparr>pr_mode := toggle_mode toggle\<rparr>) parsedFiles))"

text \<open>Every (file, rule, parameter) whose full name is the selector, in the order of the loops.\<close>

definition selector_matches :: "parsed_file list \<Rightarrow> string \<Rightarrow> bool \<Rightarrow> (nat \<times> string \<times> string) list" where
  "selector_matches parsedFiles sel multiFile =
     concat (map (\<lambda>i.
       let parsed = parsedFiles ! i;
           qualifier = (if multiFile then BaseName (pf_file parsed) @ '':'' else [])
       in concat (map (\<lambda>(rule, parameters).
            map (\<lambda>(name, _). (i, rule, name))
              (filter (\<lambda>(name, _). qualifier @ rule @ ''.'' @ name = sel) parameters)) (pf_parameterMetadata parsed)))
       [0..<length parsedFiles])"

definition ResolveParameterOverride :: "parsed_file list \<Rightarrow> string \<Rightarrow> bool \<Rightarrow> (nat \<times> string \<times> string) result" where
  "ResolveParameterOverride parsedFiles sel multiFile =
     (case selector_matches parsedFiles sel multiFile of
        [] \<Rightarrow> Inl (Error (''Unknown parameter selector '' @ quoted sel) EINVAL)
      | [m] \<Rightarrow> Inr m
      | _ \<Rightarrow> Inl (Error (''Ambiguous parameter selector '' @ quoted sel @ ''; it matches more than one rule and parameter'') EINVAL))"

definition apply_override :: "bool \<Rightarrow> ParamOverride \<Rightarrow> parsed_file list \<Rightarrow> parsed_file list result" where
  "apply_override multiFile po parsedFiles =
     and_then (ResolveParameterOverride parsedFiles (selector po) multiFile) (\<lambda>(i, rule, name).
       case om_find (pf_rules (parsedFiles ! i)) rule of
         None \<Rightarrow> Inl (Error (''Unknown rule '' @ quoted rule @ '' in benchmark definition ''
                   @ quoted (pf_file (parsedFiles ! i)) @ '' for parameter selector '' @ quoted (selector po)) EINVAL)
       | Some r \<Rightarrow>
           Inr (set_rule i rule (r\<lparr>pr_parameters := om_insert name (po_value po) (pr_parameters r)\<rparr>) parsedFiles))"

fun fold_result :: "('a \<Rightarrow> 's \<Rightarrow> 's result) \<Rightarrow> 'a list \<Rightarrow> 's \<Rightarrow> 's result" where
  "fold_result f [] s = Inr s"
| "fold_result f (x # xs) s = and_then (f x s) (fold_result f xs)"

definition validate_selection :: "plan_env \<Rightarrow> parsed_file list \<Rightarrow> error option" where
  "validate_selection env parsedFiles =
     first_error (\<lambda>parsed.
       first_error (\<lambda>(rule, r).
         ValidateParameters (pe_regex env) (pf_file parsed) rule
           (the (om_find (pf_parameterMetadata parsed) rule)) (pr_parameters r)) (pf_rules parsed)) parsedFiles"

definition select_rules ::
  "plan_env \<Rightarrow> string list \<Rightarrow> Toggle list \<Rightarrow> ParamOverride list \<Rightarrow> parsed_file list result" where
  "select_rules env files toggles overrides =
     (if files = [] then Inl (Error ''At least one benchmark-definition file is required'' EINVAL)
      else unless_error (CheckUniqueBenchmarkFiles (pe_realpath env) files)
        (and_then (map_result (\<lambda>file. and_then (parse_definition env file) (\<lambda>doc. Inr (file, doc))) files) (\<lambda>docs.
         unless_error (CheckUniqueBenchmarkIdentities (map (\<lambda>(file, doc). (file, doc_benchmarkInfo doc)) docs))
         (let multiFile = length docs > 1 in
          and_then (fold_result (apply_toggle multiFile) toggles (map (\<lambda>(file, doc). seed_file file doc) docs)) (\<lambda>fs.
          and_then (fold_result (apply_override multiFile) overrides fs) (\<lambda>fs.
            unless_error (validate_selection env fs) (Inr fs)))))))"

section \<open>Printing\<close>

fun build_parameters_loop :: "string \<Rightarrow> parameter_map \<Rightarrow> jobject \<Rightarrow> jobject result" where
  "build_parameters_loop rule [] ob = Inr ob"
| "build_parameters_loop rule ((name, v) # ps) ob =
     and_then (or_error (Error (''Failed to build plan rule '' @ quoted rule @ '' parameter '' @ quoted name) ENOMEM)
         (json_object_set_string ob name v)) (build_parameters_loop rule ps)"

definition build_plan_rule :: "string \<times> plan_rule \<Rightarrow> jobject result" where
  "build_plan_rule entry =
     (case entry of (rule, r) \<Rightarrow>
        let failed = Error (''Failed to build plan rule '' @ quoted rule) ENOMEM in
        and_then (or_error failed (json_object_set_string [] ''mode'' (ToModeString (pr_mode r)))) (\<lambda>ruleObject.
        and_then (build_parameters_loop rule (pr_parameters r) []) (\<lambda>parametersObject.
          or_error failed (json_object_set_value ruleObject ''parameters'' (JObject parametersObject)))))"

fun build_rules_loop :: "(string, plan_rule) omap \<Rightarrow> jobject \<Rightarrow> jobject result" where
  "build_rules_loop [] ob = Inr ob"
| "build_rules_loop ((rule, r) # rules) ob =
     and_then (build_plan_rule (rule, r)) (\<lambda>ruleObject.
     and_then (or_error (Error (''Failed to set plan rule '' @ quoted rule) ENOMEM)
         (json_object_set_value ob (c_str rule) (JObject ruleObject))) (build_rules_loop rules))"

fun set_strings :: "(string \<times> string) list \<Rightarrow> jobject \<Rightarrow> jobject option" where
  "set_strings [] ob = Some ob"
| "set_strings ((name, v) # kvs) ob =
     (case json_object_set_string ob name v of None \<Rightarrow> None | Some ob' \<Rightarrow> set_strings kvs ob')"

definition BuildBenchmarkEntry ::
  "string \<Rightarrow> string \<Rightarrow> content_version \<Rightarrow> (string, plan_rule) omap \<Rightarrow> json result" where
  "BuildBenchmarkEntry file name ver rules =
     (let versionText = ContentVersionToString ver in
      and_then (or_error (Error ''Failed to set plan benchmark fields'' ENOMEM)
        (set_strings [(''file'', file), (''name'', name), (''version'', versionText),
                      (''versionConstraint'', [CARET] @ versionText)] [])) (\<lambda>benchmarkObject.
      and_then (build_rules_loop rules []) (\<lambda>rulesObject.
      and_then (or_error (Error ''Failed to set plan benchmark rules object'' ENOMEM)
        (json_object_set_value benchmarkObject ''rules'' (JObject rulesObject))) (\<lambda>ob. Inr (JObject ob)))))"

definition print_plan :: "fmt_fun \<Rightarrow> parsed_file list \<Rightarrow> string result" where
  "print_plan fmt fs =
     and_then (map_result (\<lambda>p. BuildBenchmarkEntry (pf_file p) (pf_name p) (pf_version p) (pf_rules p)) fs) (\<lambda>entries.
     and_then (or_error (Error ''Failed to set plan benchmarks array'' ENOMEM)
       (json_object_set_value [] ''benchmarks'' (JArray entries))) (\<lambda>root.
       let out = json_serialize_to_string_pretty fmt (JObject root) @ [NL] in
       if length out > kMaxPlanInputBytes
       then Inl (Error (''Generated plan exceeds the maximum size of '' @ to_string_nat kMaxPlanInputBytes @ '' bytes'') EFBIG)
       else Inr out))"

definition GeneratePlan :: "plan_env \<Rightarrow> string list \<Rightarrow> Toggle list \<Rightarrow> ParamOverride list \<Rightarrow> string result" where
  "GeneratePlan env files toggles overrides =
     and_then (select_rules env files toggles overrides) (print_plan (pe_fmt env))"

section \<open>Validation before a run\<close>

definition satisfies_constraint :: "content_version \<Rightarrow> content_version \<Rightarrow> string \<Rightarrow> bool" where
  "satisfies_constraint doc ver constraint \<longleftrightarrow>
     \<not> (CompareContentVersion doc ver < 0
        \<or> (first_char constraint = CARET \<and> cv_major doc \<noteq> cv_major ver)
        \<or> (first_char constraint = TILDE \<and> (cv_major doc \<noteq> cv_major ver \<or> cv_minor doc \<noteq> cv_minor ver))
        \<or> (first_char constraint \<noteq> CARET \<and> first_char constraint \<noteq> TILDE \<and> CompareContentVersion doc ver \<noteq> 0))"

definition validate_plan_rule ::
  "(string \<Rightarrow> string \<Rightarrow> bool option) \<Rightarrow> string \<Rightarrow> (string, resource_rule) omap \<Rightarrow> string \<times> plan_rule \<Rightarrow> error option" where
  "validate_plan_rule regex file rs entry =
     (case om_find rs (fst entry) of
        None \<Rightarrow> Some (Error (''Unknown rule '' @ quoted (fst entry) @ '' in benchmark definition '' @ quoted file) EINVAL)
      | Some r \<Rightarrow> ValidateParameters regex file (fst entry) (parameterMetadata r) (pr_parameters (snd entry)))"

definition validate_plan_benchmark ::
  "(string \<Rightarrow> string \<Rightarrow> bool option) \<Rightarrow> DistributionInfo \<Rightarrow> plan_benchmark \<times> benchmark_document \<Rightarrow> error option" where
  "validate_plan_benchmark regex di bd =
     (case bd of (benchmark, document) \<Rightarrow>
        if \<not> BenchmarkInfo_Match (doc_benchmarkInfo document) di
        then Some (Error (''Benchmark '' @ quoted (pb_file benchmark) @ '' is not applicable for the current distribution'') EINVAL)
        else (case ValidateVersionConstraint (pb_version benchmark) (pb_versionConstraint benchmark) of
          Some e \<Rightarrow> Some e
        | None \<Rightarrow>
            if \<not> satisfies_constraint (doc_version document) (pb_version benchmark) (pb_versionConstraint benchmark)
            then Some (Error (''Benchmark definition '' @ quoted (pb_file benchmark) @ '' version ''
                   @ quoted (ContentVersionToString (doc_version document)) @ '' does not satisfy plan constraint ''
                   @ quoted (pb_versionConstraint benchmark)
                   @ ''; definition upgraded incompatibly or changed: review and regenerate your plan'') EINVAL)
            else first_error (validate_plan_rule regex (pb_file benchmark)
                   (fold (\<lambda>r. om_emplace (res_id r) r) (resources document) [])) (pb_rules benchmark)))"

definition ValidatePlanForRun ::
  "(string \<Rightarrow> string \<Rightarrow> bool option) \<Rightarrow> plan \<Rightarrow> benchmark_document list \<Rightarrow> DistributionInfo \<Rightarrow> error option" where
  "ValidatePlanForRun regex plan documents di =
     (if length plan \<noteq> length documents then Some (Error ''Plan validation received a mismatched definition set'' EINVAL)
      else first_error (validate_plan_benchmark regex di) (zip plan documents))"

section \<open>Overriding the parameters of a procedure\<close>

fun override_loop :: "parameter_map \<Rightarrow> jobject \<Rightarrow> jobject result" where
  "override_loop [] ob = Inr ob"
| "override_loop ((name, v) # ps) ob =
     and_then (or_error (Error (''Failed to set procedure parameter '' @ quoted name) ENOMEM)
         (json_object_set_string ob name v)) (override_loop ps)"

definition ApplyParameterOverrides :: "strtod_fun \<Rightarrow> fmt_fun \<Rightarrow> string \<Rightarrow> parameter_map \<Rightarrow> string result" where
  "ApplyParameterOverrides strtod fmt procedureJson parameters =
     (case JsonWrapper_FromString strtod procedureJson of
        Inl e \<Rightarrow> Inl (Error (''Failed to parse procedure JSON: '' @ err_message e) EINVAL)
      | Inr document \<Rightarrow>
          (case json_value_get_object (Some document) of
             None \<Rightarrow> Inl (Error ''Procedure JSON is not a JSON object'' EINVAL)
           | Some root \<Rightarrow>
               and_then (case json_object_get_object (Some root) ''parameters'' of
                     Some ps \<Rightarrow> Inr (root, ps)
                   | None \<Rightarrow> and_then (or_error (Error ''Failed to add parameters object to procedure JSON'' ENOMEM)
                               (json_object_set_value root ''parameters'' (JObject []))) (\<lambda>root. Inr (root, []))) (\<lambda>(root, ps).
               and_then (override_loop parameters ps) (\<lambda>ps.
                 Inr (json_serialize_to_string fmt (JObject (replace_member root ''parameters'' (JObject ps))))))))"

end
