(* ===== verification/JsonScan.thy ===== *)
theory JsonScan
  imports JsonRoundTrip JsonWrapper Plan
begin

text \<open>
  Character scanners in front of the JSON parser. \<open>ContainsNul\<close> looks for escaped terminators,
  \<open>RejectTrailingPlanData\<close> for the end of the document; both walk over the text with an idea of
  where strings begin and end. The locale states what such a scanner does on single characters;
  its lemma is that it walks over a printed value without noticing it.
\<close>

text \<open>Values none of whose strings has a NUL.\<close>

fun json_no_nul :: "json \<Rightarrow> bool" where
  "json_no_nul (JObject ms) = (\<forall>m\<in>set ms. NUL \<notin> set (fst m) \<and> json_no_nul (snd m))"
| "json_no_nul (JArray vs) = (\<forall>v\<in>set vs. json_no_nul v)"
| "json_no_nul (JString s) = (NUL \<notin> set s)"
| "json_no_nul v = True"

abbreviation delimiter :: "char \<Rightarrow> bool" where
  "delimiter c \<equiv> c = DQ \<or> c = CHR ''{'' \<or> c = CHR ''}'' \<or> c = CHR ''['' \<or> c = CHR '']''"

locale json_scanner =
  fixes scan :: "'s \<Rightarrow> string \<Rightarrow> 'r"
    and scan_string :: "'s \<Rightarrow> string \<Rightarrow> 'r"
    and push :: "char \<Rightarrow> 's \<Rightarrow> 's"
    and nested :: "'s \<Rightarrow> bool"
  assumes open_quote: "scan s (DQ # t) = scan_string s t"
    and close_quote: "scan_string s (DQ # t) = scan s t"
    and escaped: "NUL \<noteq> c \<Longrightarrow> scan_string s (escape_char c @ t) = scan_string s t"
    and passes: "\<not> delimiter c \<Longrightarrow> scan s (c # t) = scan s t"
    and opens: "c = CHR ''{'' \<or> c = CHR ''['' \<Longrightarrow> scan s (c # t) = scan (push c s) t"
    and closes_brace: "nested s \<Longrightarrow> scan (push (CHR ''{'') s) (CHR ''}'' # t) = scan s t"
    and closes_bracket: "nested s \<Longrightarrow> scan (push (CHR ''['') s) (CHR '']'' # t) = scan s t"
    and nested_push: "nested (push c s)"
begin

lemma scan_plain: "\<forall>c\<in>set w. \<not> delimiter c \<Longrightarrow> scan s (w @ t) = scan s t"
  by (induction w) (simp_all add: passes)

lemma scan_escape_string: "NUL \<notin> set x \<Longrightarrow> scan_string s (escape_string x @ t) = scan_string s t"
  by (induction x) (simp_all add: escape_string_def escaped)

lemma scan_serialize_string: "NUL \<notin> set x \<Longrightarrow> scan s (json_serialize_string x @ t) = scan s t"
  by (simp add: json_serialize_string_def open_quote close_quote scan_escape_string)

lemma indent_plain: "\<forall>c\<in>set (append_indent n). \<not> delimiter c"
  by (auto simp: append_indent_def split: if_splits)

lemma scan_value:
  "json_plain v \<Longrightarrow> json_no_nul v \<Longrightarrow> nested s \<Longrightarrow> scan s (json_serialize_r fmt p l v @ t) = scan s t"
  "\<forall>v\<in>set vs. json_plain v \<and> json_no_nul v \<Longrightarrow> nested s \<Longrightarrow> scan s (serialize_items fmt p l vs @ t) = scan s t"
  "\<forall>m\<in>set ms. json_plain (snd m) \<and> NUL \<notin> set (fst m) \<and> json_no_nul (snd m) \<Longrightarrow> nested s
   \<Longrightarrow> scan s (serialize_members fmt p l ms @ t) = scan s t"
proof (induction fmt p l v and fmt p l vs and fmt p l ms arbitrary: s t and s t and s t
    rule: json_serialize_r_serialize_items_serialize_members.induct)
  case (8 fmt pretty level v vs)
  then show ?case by (cases pretty) (simp_all add: passes scan_plain indent_plain)
next
  case (10 fmt pretty level n v ms)
  then show ?case by (cases pretty) (simp_all add: passes scan_plain indent_plain scan_serialize_string)
qed (simp_all add: opens closes_brace closes_bracket nested_push passes scan_plain indent_plain scan_serialize_string)

lemma scan_object:
  assumes "json_plain (JObject ms)" "json_no_nul (JObject ms)"
  shows "scan s (json_serialize_r fmt p l (JObject ms) @ t) = scan (push (CHR ''{'') s) (CHR ''}'' # t)"
  using assms by (simp add: opens nested_push passes scan_plain indent_plain scan_value(3))

end

section \<open>The two scanners\<close>

lemma hex_digit_inject: "i < 16 \<Longrightarrow> j < 16 \<Longrightarrow> hex_digit i = hex_digit j \<longleftrightarrow> i = j"
  by (metis hex_char_hex_digit option.inject)

lemma nul_escape_control:
  assumes "byte c < 0x20" "c \<noteq> NUL"
  shows "contains_nul_escape True (BSL # CHR ''u'' # CHR ''0'' # CHR ''0'' # hex_digit (byte c div 16)
      # hex_digit (byte c mod 16) # t) = contains_nul_escape True t"
proof -
  have d: "byte c div 16 < 16" using assms(1) by simp
  have z: "hex_digit 0 = CHR ''0''" by code_simp
  have "byte c \<noteq> byte NUL" using assms(2) by (metis of_char_eq_iff)
  then have "byte c \<noteq> 0" by simp
  then have "byte c div 16 \<noteq> 0 \<or> byte c mod 16 \<noteq> 0" by (metis div_mult_mod_eq mult_0 add_0)
  then have "hex_digit (byte c div 16) \<noteq> CHR ''0'' \<or> hex_digit (byte c mod 16) \<noteq> CHR ''0''"
    using hex_digit_inject [of "byte c div 16" 0] hex_digit_inject [of "byte c mod 16" 0] d by (simp add: z)
  then show ?thesis
    using hex_digit_plain [OF d] hex_digit_plain [of "byte c mod 16"] by auto
qed

interpretation nul: json_scanner "\<lambda>s::unit. contains_nul_escape False" "\<lambda>s. contains_nul_escape True" "\<lambda>c s. s" "\<lambda>s. True"
proof unfold_locales
  fix c :: char and t :: string
  assume "NUL \<noteq> c"
  then show "contains_nul_escape True (escape_char c @ t) = contains_nul_escape True t"
    using nul_escape_control [of c t] by (cases "byte c < 0x20") (auto simp: escape_char_def parson_escape_slashes_def)
qed auto

interpretation trailing: json_scanner "\<lambda>ds. trailing_scan ds False False" "\<lambda>ds. trailing_scan ds True False"
  "(#)" "\<lambda>ds. ds \<noteq> []"
proof unfold_locales
  fix ds :: string and c :: char and t :: string
  assume "NUL \<noteq> c"
  have "byte c < 32 \<Longrightarrow> byte c div 16 < 16" by simp
  then show "trailing_scan ds True False (escape_char c @ t) = trailing_scan ds True False t"
    using hex_digit_plain [of "byte c div 16"] hex_digit_plain [of "byte c mod 16"]
    by (auto simp: escape_char_def parson_escape_slashes_def)
qed auto

section \<open>Printed documents pass both\<close>

lemma ContainsNul_serialize:
  assumes "json_plain (JObject ms)" "json_no_nul (JObject ms)" "NUL \<notin> set w" "\<forall>c\<in>set w. \<not> delimiter c"
  shows "\<not> ContainsNul (json_serialize_r fmt p 0 (JObject ms) @ w)"
proof -
  have "contains_nul_escape False (json_serialize_r fmt p 0 (JObject ms) @ w) = contains_nul_escape False (CHR ''}'' # w)"
    using nul.scan_object [OF assms(1,2)] by blast
  also have "\<dots> = contains_nul_escape False w" by simp
  also have "\<dots> = contains_nul_escape False (w @ [])" by simp
  also have "\<dots> = False" using nul.scan_plain [OF assms(4)] by (simp del: append_Nil2)
  finally show ?thesis
    using serialize_plain_no_nul [OF assms(1), of fmt p 0] assms(3) by (auto simp: ContainsNul_def)
qed

lemma RejectTrailing_serialize:
  assumes "json_plain (JObject ms)" "json_no_nul (JObject ms)" "blank w"
  shows "RejectTrailingPlanData (json_serialize_r fmt p 0 (JObject ms) @ w) = None"
proof -
  have "trailing_scan [] False False (json_serialize_r fmt p 0 (JObject ms) @ w)
      = trailing_scan [CHR ''{''] False False (CHR ''}'' # w)"
    using trailing.scan_object [OF assms(1,2)] by blast
  also have "\<dots> = False"
    using assms(3) by (auto simp: blank_def dropWhile_eq_Nil_conv)
  finally show ?thesis
    by (auto simp: RejectTrailingPlanData_def Let_def isspace_def)
qed

section \<open>Printable values\<close>

text \<open>Values that can be printed and read again, of a nesting of at most \<open>k\<close>.\<close>

definition printable :: "nat \<Rightarrow> json \<Rightarrow> bool" where
  "printable k v \<longleftrightarrow> json_wf v \<and> json_plain v \<and> json_no_nul v \<and> json_depth v \<le> k"

lemma printable_scalar [simp]:
  "printable k (JString s) \<longleftrightarrow> NUL \<notin> set s" "printable k JNull" "printable k (JBoolean b)"
  by (simp_all add: printable_def)

lemma printable_object:
  "distinct (map fst ms) \<Longrightarrow> \<forall>m\<in>set ms. NUL \<notin> set (fst m) \<and> printable k (snd m) \<Longrightarrow> printable (Suc k) (JObject ms)"
  by (auto simp: printable_def)

lemma printable_array: "\<forall>v\<in>set vs. printable k v \<Longrightarrow> printable (Suc k) (JArray vs)"
  by (auto simp: printable_def)

lemma printable_mono: "printable k v \<Longrightarrow> k \<le> k' \<Longrightarrow> printable k' v"
  by (auto simp: printable_def)

lemma FromString_printed:
  assumes "printable MAX_NESTING (JObject ms)" "blank w"
  shows "JsonWrapper_FromString strtod (json_serialize_to_string_pretty fmt (JObject ms) @ w) = Inr (JObject ms)"
    and "RejectTrailingPlanData (json_serialize_to_string_pretty fmt (JObject ms) @ w) = None"
    and "NUL \<notin> set (json_serialize_to_string_pretty fmt (JObject ms) @ w)"
proof -
  let ?s = "json_serialize_to_string_pretty fmt (JObject ms) @ w"
  have "\<not> isspace NUL" "delimiter c \<Longrightarrow> \<not> isspace c" for c by (auto simp: isspace_def)
  then have "NUL \<notin> set w" "\<forall>c\<in>set w. \<not> delimiter c" using assms(2) unfolding blank_def by blast+
  then have n: "\<not> ContainsNul ?s"
    using assms(1) ContainsNul_serialize [of ms w fmt True]
    by (simp add: printable_def json_serialize_to_string_pretty_def)
  moreover have "json_parse_string strtod ?s = Some (JObject ms)"
    using assms(1) parse_serialize_plain [of "JObject ms" strtod fmt w] by (simp add: printable_def)
  ultimately show "JsonWrapper_FromString strtod ?s = Inr (JObject ms)" by (simp add: FromString_Inr)
  show "NUL \<notin> set ?s" using n by (auto simp: ContainsNul_def)
  show "RejectTrailingPlanData ?s = None"
    using assms RejectTrailing_serialize [of ms w fmt True]
    by (simp add: printable_def json_serialize_to_string_pretty_def)
qed

end
