(* ===== verification/PlanRoundTrip.thy ===== *)
theory PlanRoundTrip
  imports PlanGenerate JsonScan
begin

text \<open>
  A generated plan is read back as the selection it was printed from: the selection printed by
  \<open>print_plan\<close> satisfies an invariant (\<open>file_ok\<close>), its JSON passes the two scanners in front of
  the parser, and the parser of plans inverts the printer of entries.
\<close>

section \<open>The selection as a plan and as JSON\<close>

definition plan_of :: "parsed_file \<Rightarrow> plan_benchmark" where
  "plan_of p =
     \<lparr>pb_file = pf_file p, pb_name = pf_name p, pb_version = pf_version p,
      pb_versionConstraint = CARET # ContentVersionToString (pf_version p), pb_rules = pf_rules p\<rparr>"

definition clean_name :: "string \<Rightarrow> bool" where
  "clean_name s \<longleftrightarrow> s \<noteq> [] \<and> NUL \<notin> set s"

definition values_ok :: "parameter_map \<Rightarrow> bool" where
  "values_ok ps \<longleftrightarrow> om_inv ps \<and> (\<forall>(name, v)\<in>set ps. clean_name name \<and> NUL \<notin> set v)"

definition rules_ok :: "(string, plan_rule) omap \<Rightarrow> bool" where
  "rules_ok rs \<longleftrightarrow> om_inv rs \<and> (\<forall>(rule, r)\<in>set rs. clean_name rule \<and> values_ok (pr_parameters r))"

definition file_ok :: "parsed_file \<Rightarrow> bool" where
  "file_ok p \<longleftrightarrow> clean_name (pf_file p) \<and> NUL \<notin> set (pf_name p) \<and> valid_version (pf_version p) \<and> rules_ok (pf_rules p)"

definition values_json :: "parameter_map \<Rightarrow> jobject" where
  "values_json ps = map (\<lambda>(name, v). (name, JString v)) ps"

definition rule_json :: "plan_rule \<Rightarrow> jobject" where
  "rule_json r = [(''mode'', JString (ToModeString (pr_mode r))), (''parameters'', JObject (values_json (pr_parameters r)))]"

definition rules_json :: "(string, plan_rule) omap \<Rightarrow> jobject" where
  "rules_json rs = map (\<lambda>(rule, r). (rule, JObject (rule_json r))) rs"

definition file_json :: "parsed_file \<Rightarrow> json" where
  "file_json p =
     JObject [(''file'', JString (pf_file p)), (''name'', JString (pf_name p)),
       (''version'', JString (ContentVersionToString (pf_version p))),
       (''versionConstraint'', JString (CARET # ContentVersionToString (pf_version p))),
       (''rules'', JObject (rules_json (pf_rules p)))]"

definition plan_json :: "parsed_file list \<Rightarrow> jobject" where
  "plan_json fs = [(''benchmarks'', JArray (map file_json fs))]"

section \<open>What the printer builds\<close>

lemma set_string_new:
  assumes "json_object_set_string ob name v = Some ob'" "name \<notin> fst ` set ob" "NUL \<notin> set name" "NUL \<notin> set v"
  shows "ob' = ob @ [(name, JString v)]"
  using assms
  by (auto simp: json_object_set_string_def json_value_init_string_def json_value_init_string_with_len_def
      json_object_set_value_def json_object_add_def json_object_getn_value_map_of map_of_eq_None_iff image_iff
      split: option.splits if_splits)

lemma set_value_new:
  assumes "json_object_set_value ob name v = Some ob'" "name \<notin> fst ` set ob"
  shows "ob' = ob @ [(name, v)]"
  using assms
  by (auto simp: json_object_set_value_def json_object_add_def json_object_getn_value_map_of
      map_of_eq_None_iff image_iff split: option.splits if_splits)

lemma version_text_no_nul: "valid_version v \<Longrightarrow> NUL \<notin> set (ContentVersionToString v)"
  by (auto simp: valid_version_def ValidComponent_def ContentVersionToString_def list_all_iff isdigit_def)

lemma build_parameters_json:
  assumes "build_parameters_loop rule ps ob = Inr ob'" "distinct (map fst ob @ map fst ps)"
    and "\<forall>(name, v)\<in>set ps. clean_name name \<and> NUL \<notin> set v"
  shows "ob' = ob @ values_json ps"
  using assms
proof (induction rule ps ob rule: build_parameters_loop.induct)
  case (1 rule ob)
  then show ?case by (simp add: values_json_def)
next
  case (2 rule name v ps ob)
  then obtain ob1 where s: "json_object_set_string ob name v = Some ob1" "build_parameters_loop rule ps ob1 = Inr ob'"
    by (auto simp: result_simps)
  have "ob1 = ob @ [(name, JString v)]"
    using "2.prems" by (intro set_string_new [OF s(1)]) (auto simp: clean_name_def)
  then show ?case using "2.IH" s "2.prems" by (simp add: values_json_def result_simps)
qed

lemma build_plan_rule_json:
  assumes "build_plan_rule (rule, r) = Inr ob" "values_ok (pr_parameters r)"
  shows "ob = rule_json r"
proof -
  obtain ob1 ps where s: "json_object_set_string [] ''mode'' (ToModeString (pr_mode r)) = Some ob1"
      "build_parameters_loop rule (pr_parameters r) [] = Inr ps"
      "json_object_set_value ob1 ''parameters'' (JObject ps) = Some ob"
    using assms(1) by (auto simp: build_plan_rule_def Let_def result_simps)
  have "NUL \<notin> set (ToModeString (pr_mode r))" by (cases "pr_mode r") simp_all
  then have ob1: "ob1 = [(''mode'', JString (ToModeString (pr_mode r)))]"
    using set_string_new [OF s(1)] by simp
  have "ps = values_json (pr_parameters r)"
    using build_parameters_json [OF s(2)] assms(2) by (simp add: values_ok_def om_inv_distinct)
  then show ?thesis using set_value_new [OF s(3)] ob1 by (simp add: rule_json_def)
qed

lemma build_rules_json:
  assumes "build_rules_loop rs ob = Inr ob'" "distinct (map fst ob @ map fst rs)"
    and "\<forall>(rule, r)\<in>set rs. clean_name rule \<and> values_ok (pr_parameters r)"
  shows "ob' = ob @ rules_json rs"
  using assms
proof (induction rs ob rule: build_rules_loop.induct)
  case (1 ob)
  then show ?case by (simp add: rules_json_def)
next
  case (2 rule r rs ob)
  then obtain x ob1 where s: "build_plan_rule (rule, r) = Inr x"
      "json_object_set_value ob (c_str rule) (JObject x) = Some ob1" "build_rules_loop rs ob1 = Inr ob'"
    by (auto simp: result_simps)
  have "x = rule_json r" using build_plan_rule_json [OF s(1)] "2.prems"(3) by simp
  moreover have ob1: "ob1 = ob @ [(rule, JObject x)]"
    using set_value_new [OF s(2)] "2.prems" by (auto simp: clean_name_def)
  moreover have "ob' = ob1 @ rules_json rs"
    using "2.prems" s(3) by (intro "2.IH" [OF s(1)]) (auto simp: ob1 s(2))
  ultimately show ?case by (simp add: rules_json_def)
qed

lemma BuildBenchmarkEntry_json:
  assumes "BuildBenchmarkEntry (pf_file p) (pf_name p) (pf_version p) (pf_rules p) = Inr v" "file_ok p"
  shows "v = file_json p"
proof -
  let ?t = "ContentVersionToString (pf_version p)"
  obtain o1 o2 o3 o4 rs ob where s: "json_object_set_string [] ''file'' (pf_file p) = Some o1"
      "json_object_set_string o1 ''name'' (pf_name p) = Some o2"
      "json_object_set_string o2 ''version'' ?t = Some o3"
      "json_object_set_string o3 ''versionConstraint'' (CARET # ?t) = Some o4"
      "build_rules_loop (pf_rules p) [] = Inr rs" "json_object_set_value o4 ''rules'' (JObject rs) = Some ob"
      "v = JObject ob"
    using assms(1) by (auto simp: BuildBenchmarkEntry_def Let_def result_simps split: option.splits)
  have t: "NUL \<notin> set ?t" using assms(2) version_text_no_nul by (simp add: file_ok_def)
  have o1: "o1 = [(''file'', JString (pf_file p))]"
    using set_string_new [OF s(1)] assms(2) by (simp add: file_ok_def clean_name_def)
  have o2: "o2 = o1 @ [(''name'', JString (pf_name p))]"
    using set_string_new [OF s(2)] assms(2) by (simp add: file_ok_def o1)
  have o3: "o3 = o2 @ [(''version'', JString ?t)]"
    using set_string_new [OF s(3)] t by (simp add: o1 o2)
  have o4: "o4 = o3 @ [(''versionConstraint'', JString (CARET # ?t))]"
    using set_string_new [OF s(4)] t by (simp add: o1 o2 o3)
  have "rs = rules_json (pf_rules p)"
    using build_rules_json [OF s(5)] assms(2) by (simp add: file_ok_def rules_ok_def om_inv_distinct)
  then show ?thesis
    using set_value_new [OF s(6)] s(7) by (simp add: file_json_def o1 o2 o3 o4)
qed

lemma print_plan_json:
  assumes "print_plan fmt fs = Inr out" "\<forall>p\<in>set fs. file_ok p"
  shows "out = json_serialize_to_string_pretty fmt (JObject (plan_json fs)) @ [NL]"
proof -
  obtain es root where s: "map_result (\<lambda>p. BuildBenchmarkEntry (pf_file p) (pf_name p) (pf_version p) (pf_rules p)) fs = Inr es"
      "json_object_set_value [] ''benchmarks'' (JArray es) = Some root"
      "out = json_serialize_to_string_pretty fmt (JObject root) @ [NL]"
    using assms(1) by (auto simp: print_plan_def Let_def result_simps split: if_splits)
  have "list_all2 (\<lambda>p v. v = file_json p) fs es"
    using s(1) assms(2) unfolding map_result_Inr_iff
    by (auto elim!: list.rel_mono_strong dest: BuildBenchmarkEntry_json)
  then have "es = map file_json fs" by (auto simp: list_all2_conv_all_nth intro!: nth_equalityI)
  then show ?thesis using set_value_new [OF s(2)] s(3) by (simp add: plan_json_def)
qed

section \<open>What the parser reads\<close>

lemma ReadPlanString_ok: "NUL \<notin> set s \<Longrightarrow> b \<or> s \<noteq> [] \<Longrightarrow> ReadPlanString (Some (JString s)) context b = Inr s"
  by (auto simp: ReadPlanString_def)

lemma FromModeString_ToModeString: "FromModeString (ToModeString m) = Inr m"
  by (cases m) (simp_all add: FromModeString_def)

lemma plan_parameters_loop_ok:
  assumes "\<forall>(name, v)\<in>set ps. clean_name name \<and> NUL \<notin> set v"
    and "\<forall>(name, v)\<in>set ps. map_of ms name = Some (JString v)"
  shows "plan_parameters_loop context rule ms (map fst ps) acc = Inr (fold (\<lambda>(k, v). om_insert k v) ps acc)"
  using assms
  by (induction ps arbitrary: acc) (auto simp: clean_name_def ReadPlanString_ok)

lemma map_of_values_json: "distinct (map fst ps) \<Longrightarrow> (name, v) \<in> set ps \<Longrightarrow> map_of (values_json ps) name = Some (JString v)"
  by (force simp: values_json_def o_def split_beta intro!: map_of_is_SomeI)

lemma map_fst_values_json: "map fst (values_json ps) = map fst ps"
  by (simp add: values_json_def split_beta)

lemma parse_plan_rule_json:
  assumes "values_ok (pr_parameters r)"
  shows "parse_plan_rule context rule (JObject (rule_json r)) = Inr r"
proof -
  let ?ps = "pr_parameters r"
  have "NUL \<notin> set (ToModeString (pr_mode r))" "ToModeString (pr_mode r) \<noteq> []" by (cases "pr_mode r"; simp)+
  then have mode: "ReadPlanString (Some (JString (ToModeString (pr_mode r)))) c False = Inr (ToModeString (pr_mode r))" for c
    by (simp add: ReadPlanString_ok)
  have "plan_parameters_loop context rule (values_json ?ps) (map fst ?ps) [] = Inr (fold (\<lambda>(k, v). om_insert k v) ?ps [])"
    using assms map_of_values_json [of ?ps]
    by (intro plan_parameters_loop_ok) (auto simp: values_ok_def om_inv_distinct)
  then show ?thesis
    using assms by (simp add: parse_plan_rule_def rule_json_def mode FromModeString_ToModeString map_fst_values_json
        fold_om_insert values_ok_def)
qed

lemma plan_rules_loop_json:
  "\<forall>(rule, r)\<in>set rs. clean_name rule \<and> values_ok (pr_parameters r)
   \<Longrightarrow> plan_rules_loop context (rules_json rs) acc = Inr (fold (\<lambda>(k, v). om_insert k v) rs acc)"
  by (induction rs arbitrary: acc) (auto simp: rules_json_def parse_plan_rule_json clean_name_def)

lemma constraint_of_own_version: "valid_version v \<Longrightarrow> ValidateVersionConstraint v (CARET # ContentVersionToString v) = None"
  using ParseContentVersion_complete [of v]
  by (simp add: ValidateVersionConstraint_def first_char_def CompareContentVersion_numeric)

lemma version_text_nonempty: "ContentVersionToString v \<noteq> []"
  by (simp add: ContentVersionToString_def)

lemma parse_plan_benchmark_json:
  assumes "file_ok p"
  shows "parse_plan_benchmark (b, file_json p) = Inr (plan_of p)"
  using assms version_text_no_nul [of "pf_version p"] version_text_nonempty [of "pf_version p"]
  by (simp add: parse_plan_benchmark_def file_json_def file_ok_def clean_name_def Let_def ReadPlanString_ok
      parse_plan_name_def ParseContentVersion_complete constraint_of_own_version json_object_get_object_def
      plan_rules_loop_json rules_ok_def fold_om_insert plan_of_def)

section \<open>The document is readable\<close>

lemma rule_json_printable:
  assumes "values_ok (pr_parameters r)"
  shows "printable 2 (JObject (rule_json r))"
proof -
  have "NUL \<notin> set (ToModeString (pr_mode r))" by (cases "pr_mode r") simp_all
  moreover have "\<forall>m\<in>set (values_json (pr_parameters r)). NUL \<notin> set (fst m) \<and> printable 0 (snd m)"
    using assms by (auto simp: values_json_def values_ok_def clean_name_def)
  then have "printable (Suc 0) (JObject (values_json (pr_parameters r)))"
    using assms by (intro printable_object) (simp_all add: values_ok_def map_fst_values_json om_inv_distinct)
  ultimately have "printable (Suc (Suc 0)) (JObject (rule_json r))"
    by (intro printable_object) (auto simp: rule_json_def)
  then show ?thesis by (simp add: numeral_2_eq_2)
qed

lemma rules_json_printable: "rules_ok rs \<Longrightarrow> printable 3 (JObject (rules_json rs))"
proof -
  assume ok: "rules_ok rs"
  then have "distinct (map fst rs)" by (simp add: rules_ok_def om_inv_distinct)
  moreover have "map fst (rules_json rs) = map fst rs" by (simp add: rules_json_def split_beta)
  moreover have "\<forall>m\<in>set (rules_json rs). NUL \<notin> set (fst m) \<and> printable 2 (snd m)"
    using ok rule_json_printable by (auto simp: rules_json_def rules_ok_def clean_name_def)
  ultimately have "printable (Suc 2) (JObject (rules_json rs))"
    by (intro printable_object) simp_all
  then show ?thesis by simp
qed

lemma file_json_printable: "file_ok p \<Longrightarrow> printable 4 (file_json p)"
proof -
  assume ok: "file_ok p"
  have "printable (Suc 3) (file_json p)"
    unfolding file_json_def
    by (rule printable_object)
      (use ok rules_json_printable version_text_no_nul in \<open>auto simp: file_ok_def clean_name_def\<close>)
  then show ?thesis by simp
qed

lemma plan_json_printable: "\<forall>p\<in>set fs. file_ok p \<Longrightarrow> printable MAX_NESTING (JObject (plan_json fs))"
proof -
  assume "\<forall>p\<in>set fs. file_ok p"
  then have "printable (Suc 4) (JArray (map file_json fs))"
    using file_json_printable by (intro printable_array) auto
  then have "printable (Suc (Suc 4)) (JObject (plan_json fs))"
    unfolding plan_json_def by (intro printable_object) auto
  then show ?thesis by (rule printable_mono) (simp add: MAX_NESTING_def)
qed

lemma ParsePlan_print:
  assumes "\<forall>p\<in>set fs. file_ok p" "fs \<noteq> []"
  shows "ParsePlan strtod (json_serialize_to_string_pretty fmt (JObject (plan_json fs)) @ [NL]) = Inr (map plan_of fs)"
proof -
  note f = FromString_printed [OF plan_json_printable [OF assms(1)], of "[NL]"]
  have "list_all2 (\<lambda>x y. parse_plan_benchmark x = Inr y) (enumerate 0 (map file_json fs)) (map plan_of fs)"
    using assms(1) by (auto simp: list_all2_conv_all_nth nth_enumerate_eq parse_plan_benchmark_json)
  then have "map_result parse_plan_benchmark (enumerate 0 (map file_json fs)) = Inr (map plan_of fs)"
    by (simp add: map_result_Inr_iff)
  then show ?thesis
    using f assms(2) by (simp add: ParsePlan_def) (simp add: plan_json_def json_object_get_array_def)
qed

section \<open>The selection is printable\<close>

text \<open>What holds of the parsed files from seeding to printing.\<close>

definition selection_ok :: "parsed_file list \<Rightarrow> bool" where
  "selection_ok fs \<longleftrightarrow> fs \<noteq> [] \<and>
     (\<forall>p\<in>set fs. file_ok p \<and> (\<forall>(rule, ps)\<in>set (pf_parameterMetadata p). \<forall>(name, pm)\<in>set ps. clean_name name))"

lemma selection_ok_iff: "selection_ok fs \<longleftrightarrow> fs \<noteq> [] \<and> (\<forall>p\<in>set fs. selection_ok [p])"
  by (auto simp: selection_ok_def)

lemma set_fold_insert:
  "set (fold (\<lambda>r. om_insert (f r) (g r)) xs m) \<subseteq> set m \<union> (\<lambda>r. (f r, g r)) ` set xs"
  using set_om_insert by (induction xs arbitrary: m) fastforce+

lemma om_inv_fold_insert: "om_inv m \<Longrightarrow> om_inv (fold (\<lambda>r. om_insert (f r) (g r)) xs m)"
  by (induction xs arbitrary: m) (simp_all add: om_inv_insert)

lemma seed_rule_ok:
  assumes "rule_ok fmt info r"
  shows "values_ok (pr_parameters (seed_rule r))"
proof -
  let ?v = "\<lambda>e :: string \<times> parameter_metadata. defaultValue (snd e)"
  have s: "pr_parameters (seed_rule r) = fold (\<lambda>e. om_insert (fst e) (?v e)) (parameterMetadata r) []"
    by (simp add: seed_rule_def case_prod_unfold)
  have "set (pr_parameters (seed_rule r)) \<subseteq> (\<lambda>e. (fst e, ?v e)) ` set (parameterMetadata r)"
    unfolding s using set_fold_insert [of fst ?v "parameterMetadata r" "[]"] by simp
  moreover have "om_inv (pr_parameters (seed_rule r))" unfolding s by (rule om_inv_fold_insert) simp
  ultimately show ?thesis
    using assms by (fastforce simp: values_ok_def rule_ok_def parameters_ok_def clean_name_def)
qed

lemma seed_file_ok:
  assumes "document_ok fmt doc" "clean_name file"
  shows "selection_ok [seed_file file doc]"
proof -
  have "rules_ok (pf_rules (seed_file file doc))"
    using assms(1) set_fold_insert [of res_id seed_rule "resources doc" "[]"] seed_rule_ok
    by (fastforce simp: seed_file_def rules_ok_def document_ok_def rule_ok_def clean_name_def om_inv_fold_insert)
  moreover have "clean_name name" if "(rule, ps) \<in> set (pf_parameterMetadata (seed_file file doc))" "(name, pm) \<in> set ps"
    for rule ps name pm
    using assms(1) that set_fold_insert [of res_id parameterMetadata "resources doc" "[]"]
    by (fastforce simp: seed_file_def document_ok_def rule_ok_def parameters_ok_def clean_name_def)
  ultimately show ?thesis
    using assms by (auto simp: selection_ok_def file_ok_def seed_file_def document_ok_def)
qed

lemma rules_ok_update:
  assumes "rules_ok rs" "om_find rs rule = Some r" "values_ok (pr_parameters r')"
  shows "rules_ok (om_insert rule r' rs)"
proof -
  have "clean_name rule" using assms(1,2) om_find_in_set [of rs rule r] by (auto simp: rules_ok_def)
  then show ?thesis
    using assms(1,3) set_om_insert [of rule r' rs] by (auto simp: rules_ok_def om_inv_insert)
qed

lemma selection_ok_set_rule:
  assumes "selection_ok fs" "i < length fs" "om_find (pf_rules (fs ! i)) rule = Some r" "values_ok (pr_parameters r')"
  shows "selection_ok (set_rule i rule r' fs)"
proof -
  have "selection_ok [fs ! i]" using assms(1) nth_mem [OF assms(2)] by (auto simp: selection_ok_def)
  then have "selection_ok [(fs ! i)\<lparr>pf_rules := om_insert rule r' (pf_rules (fs ! i))\<rparr>]"
    using rules_ok_update assms(3,4) by (simp add: selection_ok_def file_ok_def)
  then show ?thesis
    using assms(1) set_update_subset_insert [of fs i] by (fastforce simp: selection_ok_def set_rule_def)
qed

lemma rule_values_ok:
  "selection_ok fs \<Longrightarrow> i < length fs \<Longrightarrow> om_find (pf_rules (fs ! i)) rule = Some r \<Longrightarrow> values_ok (pr_parameters r)"
  using om_find_in_set [of "pf_rules (fs ! i)" rule r] nth_mem [of i fs]
  by (auto simp: selection_ok_def file_ok_def rules_ok_def)

lemma ResolveRuleRef_index:
  assumes "ResolveRuleRef fs ref multi = Inr (i, rule)" "fs \<noteq> []"
  shows "i < length fs"
proof (cases multi)
  case False
  then show ?thesis using assms by (simp add: ResolveRuleRef_def)
next
  case True
  then obtain P where "filter P [0..<length fs] = [i]"
    using assms by (auto simp: ResolveRuleRef_def Let_def split: option.splits list.splits)
  then have "i \<in> set (filter P [0..<length fs])" by simp
  then show ?thesis by simp
qed

lemma apply_toggle_ok:
  assumes "apply_toggle multi t fs = Inr fs'" "selection_ok fs"
  shows "selection_ok fs'"
proof -
  obtain i rule r where m: "ResolveRuleRef fs (toggle_section t) multi = Inr (i, rule)"
      "om_find (pf_rules (fs ! i)) rule = Some r" "fs' = set_rule i rule (r\<lparr>pr_mode := toggle_mode t\<rparr>) fs"
    using assms(1) by (auto simp: apply_toggle_def result_simps split: option.splits)
  have i: "i < length fs" using ResolveRuleRef_index [OF m(1)] assms(2) by (simp add: selection_ok_def)
  show ?thesis
    unfolding m(3) using rule_values_ok [OF assms(2) i m(2)] by (intro selection_ok_set_rule [OF assms(2) i m(2)]) simp
qed

lemma ResolveParameterOverride_match:
  assumes "ResolveParameterOverride fs sel multi = Inr (i, rule, name)"
  shows "i < length fs \<and> (\<exists>ps pm. (rule, ps) \<in> set (pf_parameterMetadata (fs ! i)) \<and> (name, pm) \<in> set ps)"
proof -
  have "(i, rule, name) \<in> set (selector_matches fs sel multi)"
    using assms by (auto simp: ResolveParameterOverride_def split: list.splits)
  then show ?thesis by (fastforce simp: selector_matches_def Let_def)
qed

lemma values_ok_insert: "values_ok ps \<Longrightarrow> clean_name name \<Longrightarrow> NUL \<notin> set v \<Longrightarrow> values_ok (om_insert name v ps)"
  using set_om_insert [of name v ps] by (auto simp: values_ok_def om_inv_insert)

lemma apply_override_ok:
  assumes "apply_override multi po fs = Inr fs'" "selection_ok fs" "NUL \<notin> set (po_value po)"
  shows "selection_ok fs'"
proof -
  obtain i rule name r where m: "ResolveParameterOverride fs (selector po) multi = Inr (i, rule, name)"
      "om_find (pf_rules (fs ! i)) rule = Some r"
      "fs' = set_rule i rule (r\<lparr>pr_parameters := om_insert name (po_value po) (pr_parameters r)\<rparr>) fs"
    using assms(1) by (auto simp: apply_override_def result_simps split: option.splits)
  note i = ResolveParameterOverride_match [OF m(1)]
  then have "clean_name name" using assms(2) nth_mem [of i fs] by (fastforce simp: selection_ok_def)
  then show ?thesis
    using m i assms rule_values_ok by (auto intro!: selection_ok_set_rule values_ok_insert)
qed

lemma fold_result_invariant:
  "fold_result f xs s = Inr s' \<Longrightarrow> P s \<Longrightarrow> (\<And>x s s'. x \<in> set xs \<Longrightarrow> f x s = Inr s' \<Longrightarrow> P s \<Longrightarrow> P s') \<Longrightarrow> P s'"
proof (induction xs arbitrary: s)
  case Nil
  then show ?case by simp
next
  case (Cons x xs)
  from Cons.prems(1) obtain t where t: "f x s = Inr t" "fold_result f xs t = Inr s'" by (auto simp: result_simps)
  have "P t" using Cons.prems(2) Cons.prems(3) [OF _ t(1)] by simp
  then show ?case using Cons.IH [OF t(2)] Cons.prems(3) by auto
qed

lemma parse_definition_ok: "parse_definition env file = Inr doc \<Longrightarrow> document_ok (pe_fmt env) doc"
  unfolding parse_definition_def by (metis ParseFile_ok prod.collapse)

lemma select_rules_ok:
  assumes "select_rules env files toggles overrides = Inr fs"
    and "\<forall>f\<in>set files. clean_name f" "\<forall>po\<in>set overrides. NUL \<notin> set (po_value po)"
  shows "selection_ok fs"
proof -
  obtain docs fs1 where s:
      "map_result (\<lambda>file. and_then (parse_definition env file) (\<lambda>doc. Inr (file, doc))) files = Inr docs"
      "fold_result (apply_toggle (length docs > 1)) toggles (map (\<lambda>(file, doc). seed_file file doc) docs) = Inr fs1"
      "fold_result (apply_override (length docs > 1)) overrides fs1 = Inr fs" "files \<noteq> []"
    using assms(1) by (auto simp: select_rules_def Let_def result_simps split: if_splits)
  have "selection_ok [seed_file fl doc]" if "(fl, doc) \<in> set docs" for fl doc
    using map_result_set [OF s(1) that] assms(2) parse_definition_ok seed_file_ok by (fastforce simp: result_simps)
  moreover have "docs \<noteq> []" using map_result_length [OF s(1)] s(4) by auto
  ultimately have "selection_ok (map (\<lambda>(file, doc). seed_file file doc) docs)"
    by (subst selection_ok_iff) auto
  then have "selection_ok fs1" using fold_result_invariant [OF s(2), of selection_ok] apply_toggle_ok by blast
  then show ?thesis using fold_result_invariant [OF s(3), of selection_ok] apply_override_ok assms(3) by blast
qed

lemma GeneratePlan_readable:
  assumes "GeneratePlan env files toggles overrides = Inr out"
    and "\<forall>f\<in>set files. clean_name f" "\<forall>po\<in>set overrides. NUL \<notin> set (po_value po)"
  shows "\<exists>fs. select_rules env files toggles overrides = Inr fs \<and> ParsePlan strtod out = Inr (map plan_of fs)"
proof -
  obtain fs where fs: "select_rules env files toggles overrides = Inr fs" "print_plan (pe_fmt env) fs = Inr out"
    using assms(1) by (auto simp: GeneratePlan_def result_simps)
  have "selection_ok fs" by (rule select_rules_ok [OF fs(1) assms(2,3)])
  then show ?thesis
    using fs print_plan_json [OF fs(2)] ParsePlan_print [of fs] by (auto simp: selection_ok_def)
qed

end
