(* ===== verification/PlanProps.thy ===== *)
theory PlanProps
  imports PlanRoundTrip
begin

text \<open>
  What \<open>plan\<close> writes, \<open>run\<close> accepts: the selection stays tied to the parsed definitions, so the
  validation in front of a run succeeds on the plan that is read back, on every host the
  definitions apply to. And the modes of a generated plan are those of the toggles: the last one
  for a rule wins, and a rule nobody mentions is audited.
\<close>

section \<open>The selection and its definitions\<close>

text \<open>A parsed file and the document it was seeded from.\<close>

definition tied :: "parsed_file \<Rightarrow> string \<times> benchmark_document \<Rightarrow> bool" where
  "tied p fd \<longleftrightarrow> pf_file p = fst fd \<and> pf_version p = doc_version (snd fd)
     \<and> om_inv (pf_rules p) \<and> om_keys (pf_rules p) = res_id ` set (resources (snd fd))
     \<and> pf_parameterMetadata p = pf_parameterMetadata (seed_file (fst fd) (snd fd))"

lemma om_keys_fold_insert: "om_keys (fold (\<lambda>r. om_insert (f r) (g r)) xs m) = om_keys m \<union> f ` set xs"
  by (induction xs arbitrary: m) auto

lemma om_find_fold_insert_notin:
  "k \<notin> f ` set xs \<Longrightarrow> om_find (fold (\<lambda>r. om_insert (f r) (g r)) xs m) k = om_find m k"
  by (induction xs arbitrary: m) (auto simp: om.find_insert)

lemma om_find_fold_insert_in:
  "distinct (map f xs) \<Longrightarrow> r \<in> set xs \<Longrightarrow> om_find (fold (\<lambda>r. om_insert (f r) (g r)) xs m) (f r) = Some (g r)"
  by (induction xs arbitrary: m) (auto simp: om_find_fold_insert_notin)

lemma om_find_fold_emplace_Some:
  "om_find m k = Some v \<Longrightarrow> om_find (fold (\<lambda>r. om_emplace (f r) (g r)) xs m) k = Some v"
proof (induction xs arbitrary: m)
  case (Cons x xs)
  then have "om_find (om_emplace (f x) (g x) m) k = Some v" by (auto simp: om_find_emplace split: option.split)
  then show ?case using Cons.IH by simp
qed simp

lemma om_find_fold_emplace_in:
  "distinct (map f xs) \<Longrightarrow> r \<in> set xs \<Longrightarrow> om_find m (f r) = None
   \<Longrightarrow> om_find (fold (\<lambda>r. om_emplace (f r) (g r)) xs m) (f r) = Some (g r)"
proof (induction xs arbitrary: m)
  case Nil
  then show ?case by simp
next
  case (Cons x xs)
  show ?case
  proof (cases "r = x")
    case True
    then show ?thesis
      using Cons.prems by (auto simp: om_find_emplace intro!: om_find_fold_emplace_Some)
  next
    case False
    then have "f r \<noteq> f x" using Cons.prems by (auto simp: image_iff)
    then show ?thesis using Cons False by (auto simp: om_find_emplace split: option.split)
  qed
qed

lemma tied_seed: "tied (seed_file (fst fd) (snd fd)) fd"
  by (simp add: tied_def seed_file_def om_keys_fold_insert om_inv_fold_insert)

lemma tied_set_rule:
  assumes "list_all2 tied fs docs" "i < length fs" "om_find (pf_rules (fs ! i)) rule = Some r"
  shows "list_all2 tied (set_rule i rule r' fs) docs"
proof -
  have "tied (fs ! i) (docs ! i)" using assms(1,2) by (rule list_all2_nthD)
  moreover have "rule \<in> om_keys (pf_rules (fs ! i))" using assms(3) by (rule om_find_Some_keys)
  ultimately have "tied ((fs ! i)\<lparr>pf_rules := om_insert rule r' (pf_rules (fs ! i))\<rparr>) (docs ! i)"
    by (auto simp: tied_def om_inv_insert)
  then show ?thesis
    using assms(1,2) list_all2_update_cong [of tied fs docs] unfolding set_rule_def
    by (metis list_update_id)
qed

lemma apply_toggle_tied:
  assumes "apply_toggle multi t fs = Inr fs'" "fs \<noteq> [] \<and> list_all2 tied fs docs"
  shows "fs' \<noteq> [] \<and> list_all2 tied fs' docs"
proof -
  obtain i rule r r' where m: "ResolveRuleRef fs (toggle_section t) multi = Inr (i, rule)"
      "om_find (pf_rules (fs ! i)) rule = Some r" "fs' = set_rule i rule r' fs"
    using assms(1) by (auto simp: apply_toggle_def result_simps split: option.splits)
  moreover have "i < length fs" using ResolveRuleRef_index [OF m(1)] assms(2) by simp
  ultimately show ?thesis using assms(2) tied_set_rule by (auto simp: set_rule_def)
qed

lemma apply_override_tied:
  assumes "apply_override multi po fs = Inr fs'" "list_all2 tied fs docs"
  shows "list_all2 tied fs' docs"
proof -
  obtain i rule name r r' where m: "ResolveParameterOverride fs (selector po) multi = Inr (i, rule, name)"
      "om_find (pf_rules (fs ! i)) rule = Some r" "fs' = set_rule i rule r' fs"
    using assms(1) by (auto simp: apply_override_def result_simps split: option.splits)
  then show ?thesis using assms(2) tied_set_rule ResolveParameterOverride_match [OF m(1)] by blast
qed

lemma validate_selection_iff:
  "validate_selection env fs = None \<longleftrightarrow> (\<forall>p\<in>set fs. validate_selection env [p] = None)"
  by (simp add: validate_selection_def first_error_None del: first_error.simps)

lemma select_rules_parts:
  assumes "select_rules env files toggles overrides = Inr fs"
  shows "\<exists>docs. map_result (parse_definition env) files = Inr (map snd docs) \<and> map fst docs = files
    \<and> list_all2 tied fs docs \<and> validate_selection env fs = None
    \<and> CheckUniqueBenchmarkFiles (pe_realpath env) files = None
    \<and> CheckUniqueBenchmarkIdentities (map (\<lambda>(fl, doc). (fl, doc_benchmarkInfo doc)) docs) = None"
proof -
  obtain docs fs1 where s: "files \<noteq> []"
      "map_result (\<lambda>file. and_then (parse_definition env file) (\<lambda>doc. Inr (file, doc))) files = Inr docs"
      "fold_result (apply_toggle (length docs > 1)) toggles (map (\<lambda>(file, doc). seed_file file doc) docs) = Inr fs1"
      "fold_result (apply_override (length docs > 1)) overrides fs1 = Inr fs"
      "validate_selection env fs = None" "CheckUniqueBenchmarkFiles (pe_realpath env) files = None"
      "CheckUniqueBenchmarkIdentities (map (\<lambda>(file, doc). (file, doc_benchmarkInfo doc)) docs) = None"
    using assms by (auto simp: select_rules_def Let_def result_simps split: if_splits)
  have d: "list_all2 (\<lambda>fl fd. parse_definition env fl = Inr (snd fd) \<and> fst fd = fl) files docs"
    using s(2) by (auto simp: map_result_Inr_iff result_simps elim!: list.rel_mono_strong)
  have "map fst docs = files"
    using d by (auto simp: list_all2_conv_all_nth intro!: nth_equalityI)
  moreover have "map_result (parse_definition env) files = Inr (map snd docs)"
    using d by (auto simp: map_result_Inr_iff list_all2_conv_all_nth)
  moreover have "map (\<lambda>(file, doc). seed_file file doc) docs \<noteq> [] \<and> list_all2 tied (map (\<lambda>(file, doc). seed_file file doc) docs) docs"
    using s(1) map_result_length [OF s(2)] by (auto simp: list_all2_conv_all_nth split_beta tied_seed)
  then have "fs1 \<noteq> [] \<and> list_all2 tied fs1 docs"
    by (rule fold_result_invariant [OF s(3)]) (rule apply_toggle_tied)
  then have "list_all2 tied fs docs"
    using fold_result_invariant [OF s(4), of "\<lambda>fs. list_all2 tied fs docs"] apply_override_tied by blast
  ultimately show ?thesis using s(5,6,7) by auto
qed

section \<open>Validation succeeds\<close>

lemma CompareContentVersion_refl: "valid_version v \<Longrightarrow> CompareContentVersion v v = 0"
  by (simp add: CompareContentVersion_numeric)

lemma validate_rule_tied:
  assumes "tied p (fl, doc)" "document_ok fmt doc" "(rule, r) \<in> set (pf_rules p)"
    and "validate_selection env [p] = None"
  shows "validate_plan_rule (pe_regex env) (pf_file p) (fold (\<lambda>r. om_emplace (res_id r) r) (resources doc) []) (rule, r) = None"
proof -
  have dist: "distinct (map res_id (resources doc))" using assms(2) by (simp add: document_ok_def)
  have "rule \<in> om_keys (pf_rules p)" using assms(3) by (force simp: om_keys_def)
  then obtain res where res: "res \<in> set (resources doc)" "rule = res_id res"
    using assms(1) by (auto simp: tied_def)
  have "om_find (pf_parameterMetadata p) rule = Some (parameterMetadata res)"
    using assms(1) res dist by (simp add: tied_def seed_file_def om_find_fold_insert_in)
  moreover have "ValidateParameters (pe_regex env) (pf_file p) rule (the (om_find (pf_parameterMetadata p) rule)) (pr_parameters r) = None"
    using assms(3,4) by (fastforce simp: validate_selection_def first_error_None split: option.splits)
  moreover have "om_find (fold (\<lambda>r. om_emplace (res_id r) r) (resources doc) []) rule = Some res"
    using om_find_fold_emplace_in [of res_id "resources doc" res "[]" "\<lambda>r. r"] res dist by simp
  ultimately show ?thesis by (simp add: validate_plan_rule_def)
qed

lemma validate_tied:
  assumes "tied p (fl, doc)" "document_ok fmt doc" "validate_selection env [p] = None" "BenchmarkInfo_Match (doc_benchmarkInfo doc) di"
  shows "validate_plan_benchmark (pe_regex env) di (plan_of p, doc) = None"
proof -
  have v: "valid_version (doc_version doc)" "pf_version p = doc_version doc"
    using assms(1,2) by (simp_all add: tied_def document_ok_def)
  then have "satisfies_constraint (doc_version doc) (pf_version p) (CARET # ContentVersionToString (pf_version p))"
    by (simp add: satisfies_constraint_def CompareContentVersion_refl first_char_def)
  moreover have "first_error (validate_plan_rule (pe_regex env) (pf_file p)
      (fold (\<lambda>r. om_emplace (res_id r) r) (resources doc) [])) (pf_rules p) = None"
    using validate_rule_tied [OF assms(1,2) _ assms(3)] by (auto simp: first_error_None)
  ultimately show ?thesis
    using v assms(4) by (simp add: validate_plan_benchmark_def plan_of_def constraint_of_own_version)
qed

text \<open>Generation, printing, parsing and validation composed.\<close>

lemma generated_plan_accepted:
  assumes "GeneratePlan env files toggles overrides = Inr out"
    and "\<forall>f\<in>set files. clean_name f" "\<forall>po\<in>set overrides. NUL \<notin> set (po_value po)"
  shows "\<exists>plan docs. ParsePlan strtod out = Inr plan \<and> map pb_file plan = files
    \<and> CheckUniqueBenchmarkFiles (pe_realpath env) (map pb_file plan) = None
    \<and> map_result (parse_definition env) (map pb_file plan) = Inr docs
    \<and> CheckUniqueBenchmarkIdentities (zip (map pb_file plan) (map doc_benchmarkInfo docs)) = None
    \<and> (\<forall>di. (\<forall>d\<in>set docs. BenchmarkInfo_Match (doc_benchmarkInfo d) di)
         \<longrightarrow> ValidatePlanForRun (pe_regex env) plan docs di = None)"
proof -
  obtain fs where fs: "select_rules env files toggles overrides = Inr fs" "ParsePlan strtod out = Inr (map plan_of fs)"
    using GeneratePlan_readable [OF assms] by blast
  obtain docs where docs: "map_result (parse_definition env) files = Inr (map snd docs)" "map fst docs = files"
      "list_all2 tied fs docs" "validate_selection env fs = None"
      "CheckUniqueBenchmarkFiles (pe_realpath env) files = None"
      "CheckUniqueBenchmarkIdentities (map (\<lambda>(fl, doc). (fl, doc_benchmarkInfo doc)) docs) = None"
    using select_rules_parts [OF fs(1)] by blast
  have len: "length fs = length docs" using docs(3) by (rule list_all2_lengthD)
  have names: "map pb_file (map plan_of fs) = files"
    using docs(2,3) by (auto simp: list_all2_conv_all_nth tied_def plan_of_def intro!: nth_equalityI)
  have ids: "zip files (map doc_benchmarkInfo (map snd docs)) = map (\<lambda>(fl, doc). (fl, doc_benchmarkInfo doc)) docs"
    unfolding docs(2) [symmetric] by (auto intro!: nth_equalityI simp: split_beta)
  have "validate_plan_benchmark (pe_regex env) di (map plan_of fs ! i, map snd docs ! i) = None"
    if "\<forall>d\<in>set (map snd docs). BenchmarkInfo_Match (doc_benchmarkInfo d) di" "i < length fs" for di i
  proof -
    have d: "snd (docs ! i) \<in> set (map snd docs)" using that(2) len by auto
    then obtain f where "parse_definition env f = Inr (snd (docs ! i))"
      using map_result_set [OF docs(1)] by blast
    then have "document_ok (pe_fmt env) (snd (docs ! i))" by (rule parse_definition_ok)
    moreover have "tied (fs ! i) (fst (docs ! i), snd (docs ! i))" using list_all2_nthD [OF docs(3)] that(2) by simp
    moreover have "validate_selection env [fs ! i] = None"
      using docs(4) nth_mem [OF that(2)] validate_selection_iff [of env fs] by blast
    ultimately show ?thesis
      using validate_tied [of "fs ! i" "fst (docs ! i)" "snd (docs ! i)"] that len d by simp
  qed
  then have "ValidatePlanForRun (pe_regex env) (map plan_of fs) (map snd docs) di = None"
    if "\<forall>d\<in>set (map snd docs). BenchmarkInfo_Match (doc_benchmarkInfo d) di" for di
    using that len by (auto simp: ValidatePlanForRun_def first_error_None set_zip)
  then show ?thesis
    using fs(2) names docs ids by (intro exI [of _ "map plan_of fs"] exI [of _ "map snd docs"]) auto
qed

section \<open>The modes of a generated plan\<close>

definition mode_of :: "parsed_file \<Rightarrow> string \<Rightarrow> ToggleMode option" where
  "mode_of p rule = map_option pr_mode (om_find (pf_rules p) rule)"

definition toggle_step :: "string \<Rightarrow> Toggle \<Rightarrow> ToggleMode \<Rightarrow> ToggleMode" where
  "toggle_step rule t m = (if toggle_section t = rule then toggle_mode t else m)"

lemma apply_toggle_mode:
  assumes "apply_toggle False t [p] = Inr fs"
  shows "\<exists>p'. fs = [p'] \<and> (\<forall>rule. mode_of p' rule = map_option (toggle_step rule t) (mode_of p rule))"
proof -
  obtain r where "om_find (pf_rules p) (toggle_section t) = Some r"
      "fs = set_rule 0 (toggle_section t) (r\<lparr>pr_mode := toggle_mode t\<rparr>) [p]"
    using assms by (auto simp: apply_toggle_def ResolveRuleRef_def split: option.splits)
  moreover have "map_option pr_mode x = map_option (toggle_step rule t) (map_option pr_mode x)"
    if "rule \<noteq> toggle_section t" for rule x
    using that by (cases x) (auto simp: toggle_step_def)
  ultimately show ?thesis by (auto simp: set_rule_def mode_of_def toggle_step_def om.find_insert)
qed

lemma apply_toggles_mode:
  "fold_result (apply_toggle False) ts [p] = Inr fs \<Longrightarrow>
     \<exists>p'. fs = [p'] \<and> (\<forall>rule. mode_of p' rule = map_option (fold (toggle_step rule) ts) (mode_of p rule))"
proof (induction ts arbitrary: p)
  case Nil
  then show ?case by (auto simp: option.map_ident)
next
  case (Cons t ts)
  then obtain fs1 where a: "apply_toggle False t [p] = Inr fs1" "fold_result (apply_toggle False) ts fs1 = Inr fs"
    by (auto simp: result_simps)
  then show ?case using apply_toggle_mode [OF a(1)] Cons.IH by (fastforce simp: option.map_comp comp_def)
qed

lemma apply_override_mode:
  assumes "apply_override multi po [p] = Inr fs"
  shows "\<exists>p'. fs = [p'] \<and> mode_of p' = mode_of p"
proof -
  obtain i rule name r where m: "ResolveParameterOverride [p] (selector po) multi = Inr (i, rule, name)"
      "om_find (pf_rules ([p] ! i)) rule = Some r"
      "fs = set_rule i rule (r\<lparr>pr_parameters := om_insert name (po_value po) (pr_parameters r)\<rparr>) [p]"
    using assms by (auto simp: apply_override_def result_simps split: option.splits)
  moreover have "i = 0" using ResolveParameterOverride_match [OF m(1)] by simp
  ultimately show ?thesis by (auto simp: set_rule_def mode_of_def om.find_insert fun_eq_iff)
qed

lemma seed_file_mode: "mode_of (seed_file fl doc) rule = Some m \<Longrightarrow> m = ModeAudit"
  using set_fold_insert [of res_id seed_rule "resources doc" "[]"]
  by (auto simp: mode_of_def seed_file_def om_find_def dest!: map_of_SomeD) (auto simp: seed_rule_def)

lemma selected_modes:
  assumes "select_rules env [fl] toggles overrides = Inr fs"
  shows "\<exists>p. fs = [p] \<and> (\<forall>rule r. om_find (pf_rules p) rule = Some r
    \<longrightarrow> pr_mode r = fold (toggle_step rule) toggles ModeAudit)"
proof -
  obtain doc fs1 where s: "fold_result (apply_toggle False) toggles [seed_file fl doc] = Inr fs1"
      "fold_result (apply_override False) overrides fs1 = Inr fs"
    using assms by (auto simp: select_rules_def Let_def result_simps)
  obtain p1 where p1: "fs1 = [p1]" "\<And>rule. mode_of p1 rule = map_option (fold (toggle_step rule) toggles) (mode_of (seed_file fl doc) rule)"
    using apply_toggles_mode [OF s(1)] by blast
  have "\<exists>p. fs = [p] \<and> mode_of p = mode_of p1"
    using fold_result_invariant [OF s(2), of "\<lambda>fs. \<exists>p. fs = [p] \<and> mode_of p = mode_of p1"] apply_override_mode p1(1)
    by metis
  then obtain p where p: "fs = [p]" "mode_of p = mode_of p1" by blast
  have "pr_mode r = fold (toggle_step rule) toggles ModeAudit" if "om_find (pf_rules p) rule = Some r" for rule r
  proof -
    have "mode_of p1 rule = Some (pr_mode r)" unfolding p(2) [symmetric] using that by (simp add: mode_of_def)
    then show ?thesis using p1(2) [of rule] seed_file_mode [of fl doc rule] by auto
  qed
  with p(1) show ?thesis by blast
qed

section \<open>The uniqueness checks\<close>

definition canonical :: "(string \<Rightarrow> string option) \<Rightarrow> string \<Rightarrow> string" where
  "canonical realpath fl = (case realpath (c_str fl) of Some resolved \<Rightarrow> resolved | None \<Rightarrow> fl)"

lemma unique_files_loop_iff:
  "unique_files_loop realpath seen files = None \<longleftrightarrow>
     distinct (map (canonical realpath) files) \<and> canonical realpath ` set files \<inter> om_keys seen = {}"
proof (induction realpath seen files rule: unique_files_loop.induct)
  case (1 realpath seen)
  then show ?case by simp
next
  case (2 realpath seen fl files)
  have c: "(case realpath (c_str fl) of None \<Rightarrow> fl | Some resolved \<Rightarrow> resolved) = canonical realpath fl"
    by (simp add: canonical_def)
  show ?case
  proof (cases "om_find seen (canonical realpath fl)")
    case None
    then have "om_keys (om_emplace (canonical realpath fl) fl seen) = insert (canonical realpath fl) (om_keys seen)"
      by (simp add: om_emplace_def)
    then show ?thesis using 2 None om_find_None [of seen "canonical realpath fl"] by (auto simp: c Let_def)
  next
    case (Some x)
    then have "canonical realpath fl \<in> om_keys seen" by (rule om_find_Some_keys)
    then show ?thesis using Some by (simp add: c Let_def)
  qed
qed

lemma CheckUniqueBenchmarkFiles_iff:
  "CheckUniqueBenchmarkFiles realpath files = None \<longleftrightarrow> distinct (map (canonical realpath) files)"
  by (simp add: CheckUniqueBenchmarkFiles_def unique_files_loop_iff)

lemma unique_identities_loop_iff:
  "unique_identities_loop seen entries = None \<longleftrightarrow>
     distinct (map (benchmark_identity o snd) entries) \<and> (benchmark_identity o snd) ` set entries \<inter> fst ` set seen = {}"
proof (induction seen entries rule: unique_identities_loop.induct)
  case (1 seen)
  then show ?case by simp
next
  case (2 seen fl info entries)
  show ?case
  proof (cases "map_of seen (benchmark_identity info)")
    case None
    then have "benchmark_identity info \<notin> fst ` set seen" by (simp add: map_of_eq_None_iff)
    then show ?thesis using 2 [OF None] None by simp blast
  next
    case (Some x)
    then have "benchmark_identity info \<in> fst ` set seen" by (metis (no_types) fst_conv imageI map_of_SomeD)
    then show ?thesis using Some by simp
  qed
qed

lemma CheckUniqueBenchmarkIdentities_iff:
  "CheckUniqueBenchmarkIdentities entries = None \<longleftrightarrow> distinct (map (benchmark_identity o snd) entries)"
  by (simp add: CheckUniqueBenchmarkIdentities_def unique_identities_loop_iff)

end
