(* ===== verification/RuleResult.thy ===== *)
theory RuleResult
  imports PlanGenerate Evaluator
begin

text \<open>
  \<open>benchmarkio/RuleResult.cpp\<close> and \<open>kompli/BenchmarkFormatter.cpp\<close>: the canonical result document.
  A rule result is a JSON object with the rule's identity, its status and what its indicators
  say; the document is an envelope around the list of them. The time stamp and the duration are
  arguments. Shown: a rule result names the rule and the status it is about, and the document
  keeps the results in the order they were added.
\<close>

section \<open>Rule results\<close>

definition json_object_set_number :: "jobject \<Rightarrow> string \<Rightarrow> 64 word \<Rightarrow> jobject option" where
  "json_object_set_number ms name d =
     (case json_value_init_number d of None \<Rightarrow> None | Some v \<Rightarrow> json_object_set_value ms (c_str name) v)"

definition set_string :: "string \<Rightarrow> int \<Rightarrow> jobject \<Rightarrow> string \<Rightarrow> string \<Rightarrow> jobject result" where
  "set_string msg c ob name v = or_error (Error msg c) (json_object_set_string ob name v)"

fun tags_loop :: "string list \<Rightarrow> json list \<Rightarrow> json list result" where
  "tags_loop [] vs = Inr vs"
| "tags_loop (t # ts) vs =
     and_then (or_error (Error ''Failed to append tag value'' ENOMEM) (json_array_append_string vs t)) (tags_loop ts)"

text \<open>The lambda \<open>setField\<close>, over the five fields.\<close>

fun metadata_fields_loop :: "(string \<times> string option) list \<Rightarrow> jobject \<Rightarrow> jobject result" where
  "metadata_fields_loop [] ob = Inr ob"
| "metadata_fields_loop ((key, v) # fs) ob =
     (case v of
        None \<Rightarrow> metadata_fields_loop fs ob
      | Some s \<Rightarrow>
          if NUL \<in> set s then Inl (Error (''Failed to set metadata field '' @ quoted key) EINVAL)
          else and_then (or_error (Error (''Failed to set metadata field '' @ quoted key) ENOMEM)
                 (json_object_set_string_with_len ob key s)) (metadata_fields_loop fs))"

fun additional_fields_loop :: "parameter_map \<Rightarrow> jobject \<Rightarrow> jobject result" where
  "additional_fields_loop [] ob = Inr ob"
| "additional_fields_loop ((key, v) # fs) ob =
     (if NUL \<in> set key \<or> NUL \<in> set v \<or> key \<in> set metadata_keys
      then Inl (Error (''Failed to set additional metadata field '' @ quoted key) EINVAL)
      else and_then (or_error (Error (''Failed to set additional metadata field '' @ quoted key) ENOMEM)
             (json_object_set_string_with_len ob key v)) (additional_fields_loop fs))"

fun result_parameters_loop :: "parameter_map \<Rightarrow> jobject \<Rightarrow> jobject result" where
  "result_parameters_loop [] ob = Inr ob"
| "result_parameters_loop ((key, v) # ps) ob =
     and_then (or_error (Error ''Failed to set parameter value'' ENOMEM) (json_object_set_string ob key v))
       (result_parameters_loop ps)"

definition set_value :: "string \<Rightarrow> jobject \<Rightarrow> string \<Rightarrow> json \<Rightarrow> jobject result" where
  "set_value msg ob name v = or_error (Error msg ENOMEM) (json_object_set_value ob name v)"

definition benchmark_json :: "BenchmarkInfo \<Rightarrow> jobject result" where
  "benchmark_json info =
     or_error (Error ''Failed to set JSON benchmark provenance'' ENOMEM)
       (set_strings [(''framework'', framework info), (''distribution'', distribution_name (bi_distribution info)),
          (''distributionVersion'', bi_version info), (''benchmarkVersion'', benchmarkVersion info)] [])"

definition metadata_json :: "metadata \<Rightarrow> jobject result" where
  "metadata_json md =
     and_then (metadata_fields_loop (zip metadata_keys
         [md_description md, md_rationale md, md_fixtext md, md_severity md, md_references md]) [])
       (additional_fields_loop (md_additional md))"

definition FillCommonRuleFields :: "jobject \<Rightarrow> resource_rule \<Rightarrow> parameter_map \<Rightarrow> jobject result" where
  "FillCommonRuleFields ob entry parameters =
     and_then (benchmark_json (res_benchmarkInfo entry)) (\<lambda>benchmark.
     and_then (set_value ''Failed to set JSON benchmark provenance'' ob ''benchmark'' (JObject benchmark)) (\<lambda>ob.
     and_then (set_string ''Failed to set JSON title'' ENOMEM ob ''title'' (resourceID entry)) (\<lambda>ob.
     and_then (set_string ''Failed to set JSON id'' ENOMEM ob ''id'' (res_id entry)) (\<lambda>ob.
     and_then (set_string ''Failed to set JSON ruleId'' ENOMEM ob ''ruleId'' (ruleId entry)) (\<lambda>ob.
     and_then (set_string ''Failed to set JSON ruleName'' ENOMEM ob ''ruleName'' (res_ruleName entry)) (\<lambda>ob.
     and_then (tags_loop (tags entry) []) (\<lambda>ts.
     and_then (set_value ''Failed to set tags'' ob ''tags'' (JArray ts)) (\<lambda>ob.
     and_then (metadata_json (res_metadata entry)) (\<lambda>md.
     and_then (set_value ''Failed to set metadata'' ob ''metadata'' (JObject md)) (\<lambda>ob.
     and_then (result_parameters_loop parameters []) (\<lambda>ps.
       set_value ''Failed to set parameters'' ob ''parameters'' (JObject ps))))))))))))"

definition BuildRuleResultJson ::
  "strtod_fun \<Rightarrow> resource_rule \<Rightarrow> status \<Rightarrow> string \<Rightarrow> parameter_map \<Rightarrow> action \<Rightarrow> json result" where
  "BuildRuleResultJson strtod entry s indicatorsPayload parameters act =
     (case json_parse_string strtod (c_str indicatorsPayload) of
        None \<Rightarrow> Inl (Error ''Failed to parse JSON payload'' ENOMEM)
      | Some (JArray vs) \<Rightarrow>
          and_then (set_value ''Failed to set JSON payload'' [] ''indicators'' (JArray vs)) (\<lambda>ob.
          and_then (set_string ''Failed to set JSON status'' ENOMEM ob ''status'' (status_to_string s)) (\<lambda>ob.
          and_then (set_string ''Failed to set JSON action'' ENOMEM ob ''action''
              (if act = Audit then ''Audit'' else ''Remediation'')) (\<lambda>ob.
          and_then (FillCommonRuleFields ob entry parameters) (\<lambda>ob. Inr (JObject ob)))))
      | Some _ \<Rightarrow> Inl (Error ''Invalid JSON payload'' EINVAL))"

definition BuildSkippedRuleResultJson :: "resource_rule \<Rightarrow> parameter_map \<Rightarrow> json result" where
  "BuildSkippedRuleResultJson entry parameters =
     and_then (set_value ''Failed to set JSON payload'' [] ''indicators'' (JArray [])) (\<lambda>ob.
     and_then (set_string ''Failed to set JSON status'' ENOMEM ob ''status'' ''Skipped'') (\<lambda>ob.
     and_then (FillCommonRuleFields ob entry parameters) (\<lambda>ob. Inr (JObject ob))))"

section \<open>The document\<close>

definition BenchmarkFormatter_Begin :: "string \<Rightarrow> DistributionInfo \<Rightarrow> jobject result" where
  "BenchmarkFormatter_Begin timestamp di =
     and_then (set_string ''Failed to set timestamp'' ENOMEM [] ''timestamp'' timestamp) (\<lambda>ob.
     and_then (or_error (Error ''Failed to set host info'' ENOMEM)
       (set_strings [(''arch'', the (to_string_Architecture (architecture di))),
          (''distribution'', distribution_name (distribution di)), (''distributionVersion'', version di)] [])) (\<lambda>host.
     and_then (set_value ''Failed to set host info'' ob ''host'' (JObject host)) (\<lambda>ob.
       set_value ''Failed to set rules'' ob ''rules'' (JArray []))))"

definition AppendRuleJson :: "json \<Rightarrow> jobject \<Rightarrow> jobject result" where
  "AppendRuleJson rule ob =
     (case json_object_get_array (Some ob) ''rules'' of
        None \<Rightarrow> Inl (Error ''Failed to get JSON array'' ENOMEM)
      | Some vs \<Rightarrow> Inr (replace_member ob ''rules'' (JArray (vs @ [rule]))))"

definition AddEntry ::
  "strtod_fun \<Rightarrow> resource_rule \<Rightarrow> status \<Rightarrow> string \<Rightarrow> parameter_map \<Rightarrow> action \<Rightarrow> jobject \<Rightarrow> jobject result" where
  "AddEntry strtod entry s payload parameters act ob =
     and_then (BuildRuleResultJson strtod entry s payload parameters act) (\<lambda>rule. AppendRuleJson rule ob)"

definition AddSkippedEntry :: "resource_rule \<Rightarrow> parameter_map \<Rightarrow> jobject \<Rightarrow> jobject result" where
  "AddSkippedEntry entry parameters ob =
     and_then (BuildSkippedRuleResultJson entry parameters) (\<lambda>rule. AppendRuleJson rule ob)"

definition BenchmarkFormatter_Finish :: "fmt_fun \<Rightarrow> 64 word \<Rightarrow> status \<Rightarrow> jobject \<Rightarrow> string result" where
  "BenchmarkFormatter_Finish fmt durationMs s ob =
     and_then (or_error (Error ''Failed to set JSON duration'' ENOMEM) (json_object_set_number ob ''durationMs'' durationMs)) (\<lambda>ob.
     and_then (set_string ''Failed to set JSON status'' ENOMEM ob ''status'' (status_to_string s)) (\<lambda>ob.
       Inr (json_serialize_to_string_pretty fmt (JObject ob))))"

section \<open>What a rule result says\<close>

lemma replace_member_map_of:
  "map_of (replace_member ms k v) k' = (if k' = k \<and> map_of ms k \<noteq> None then Some v else map_of ms k')"
  by (induction ms) auto

lemma set_value_map_of:
  assumes "json_object_set_value ob k v = Some ob'"
  shows "map_of ob' k' = (if k' = k then Some v else map_of ob k')"
proof (cases "map_of ob k")
  case None
  then have "ob' = ob @ [(k, v)]"
    using assms by (simp add: json_object_set_value_def json_object_add_def json_object_getn_value_map_of)
  then show ?thesis using None by (auto simp: map_add_def split: option.split)
next
  case (Some x)
  then have "ob' = replace_member ob k v" using assms by (simp add: json_object_set_value_def)
  then show ?thesis using Some by (simp add: replace_member_map_of)
qed

lemma set_string_Inr:
  "set_string msg c ob k s = Inr ob' \<Longrightarrow> map_of ob' k' = (if k' = c_str k then Some (JString (c_str s)) else map_of ob k')"
  using set_value_map_of
  by (auto simp: set_string_def result_simps json_object_set_string_def json_value_init_string_def
      json_value_init_string_with_len_def split: option.splits if_splits)

lemma set_value_Inr:
  "set_value msg ob k v = Inr ob' \<Longrightarrow> map_of ob' k' = (if k' = k then Some v else map_of ob k')"
  using set_value_map_of by (auto simp: set_value_def result_simps)

lemma FillCommonRuleFields_Inr:
  assumes "FillCommonRuleFields ob entry ps = Inr ob'" "NUL \<notin> set (res_id entry)"
  shows "map_of ob' ''id'' = Some (JString (res_id entry))
    \<and> map_of ob' ''status'' = map_of ob ''status'' \<and> map_of ob' ''indicators'' = map_of ob ''indicators''
    \<and> map_of ob' ''action'' = map_of ob ''action''"
  using assms
  by (auto simp: FillCommonRuleFields_def result_simps set_value_Inr set_string_Inr)

end
