(* ===== verification/CliOptions.thy ===== *)
theory CliOptions
  imports Plan
begin

text \<open>
  \<open>kompli/CliOptions.cpp\<close>: the command line. \<open>getopt_long\<close> is modelled as in the GNU C library with
  permutation: options may stand anywhere before \<open>--\<close>, short options cluster, a long option may
  be abbreviated to an unambiguous prefix. It gives the options in order, up to the first it
  does not know, and the other arguments. \<open>telemetry\<close> is the build flag \<open>BUILD_TELEMETRY\<close>.
  Shown: what the subcommands can rely on about the options they are given.
\<close>

section \<open>Options\<close>

datatype Command = Help | Version | Render | Plan | Run | List

datatype Format = NestedList | CompactList | Debug | Junit

record Options =
  verbose :: bool
  debug :: bool
  telemetryEnabled :: bool
  continueOnError :: bool
  logFile :: "string option"
  opt_format :: "Format option"
  command :: Command
  opt_input :: string
  inputs :: "string list"
  suiteName :: "string option"
  toggles :: "Toggle list"
  paramOverrides :: "ParamOverride list"
  opt_output :: "string option"

definition Options_init :: Options where
  "Options_init =
     \<lparr>verbose = False, debug = False, telemetryEnabled = False, continueOnError = False, logFile = None,
      opt_format = None, command = Help, opt_input = [], inputs = [], suiteName = None, toggles = [],
      paramOverrides = [], opt_output = None\<rparr>"

section \<open>getopt_long\<close>

datatype opt_code =
    OptHelp | OptVersion | OptVerbose | OptDebug | OptContinue | OptTelemetry | OptLogFile | OptFormat | OptOutput
  | OptSuiteName | OptAudit | OptRemediate | OptEnforce | OptParam

text \<open>An option with its argument (empty where it takes none), or the answer \<open>?\<close>.\<close>

datatype opt_event = Opt opt_code string | OptUnknown

text \<open>The tables: whether an option takes an argument, and its code.\<close>

definition short_opts :: "char \<Rightarrow> (bool \<times> opt_code) option" where
  "short_opts c = map_of
     [(CHR ''h'', (False, OptHelp)), (CHR ''V'', (False, OptVersion)), (CHR ''v'', (False, OptVerbose)),
      (CHR ''d'', (False, OptDebug)), (CHR ''e'', (False, OptContinue)), (CHR ''t'', (False, OptTelemetry)),
      (CHR ''l'', (True, OptLogFile)), (CHR ''f'', (True, OptFormat)), (CHR ''o'', (True, OptOutput))] c"

definition long_opts :: "bool \<Rightarrow> (string \<times> bool \<times> opt_code) list" where
  "long_opts telemetry =
     [(''help'', False, OptHelp), (''version'', False, OptVersion), (''verbose'', False, OptVerbose),
      (''debug'', False, OptDebug), (''continue-on-error'', False, OptContinue), (''log-file'', True, OptLogFile),
      (''format'', True, OptFormat), (''output'', True, OptOutput), (''suite-name'', True, OptSuiteName)]
     @ (if telemetry then [(''telemetry'', False, OptTelemetry)] else [])
     @ [(''audit'', True, OptAudit), (''remediate'', True, OptRemediate), (''enforce'', True, OptEnforce),
        (''param'', True, OptParam)]"

definition find_long :: "bool \<Rightarrow> string \<Rightarrow> (bool \<times> opt_code) option" where
  "find_long telemetry name =
     (case map_of (long_opts telemetry) name of
        Some e \<Rightarrow> Some e
      | None \<Rightarrow>
          (case filter (\<lambda>(n, e). starts_with name n) (long_opts telemetry) of
             [(n, e)] \<Rightarrow> Some e
           | _ \<Rightarrow> None))"

text \<open>A long option behind its two dashes, with the arguments that follow: the event and the
  arguments left.\<close>

definition long_option :: "bool \<Rightarrow> string \<Rightarrow> string list \<Rightarrow> opt_event \<times> string list" where
  "long_option telemetry s rest =
     (let (name, attached) =
        (case find_char (CHR ''='') s of None \<Rightarrow> (s, None) | Some i \<Rightarrow> (take i s, Some (drop (i + 1) s)))
      in case find_long telemetry name of
        None \<Rightarrow> (OptUnknown, rest)
      | Some (needs, code) \<Rightarrow>
          if needs then
            (case (attached, rest) of
               (Some v, _) \<Rightarrow> (Opt code v, rest)
             | (None, v # rest') \<Rightarrow> (Opt code v, rest')
             | (None, []) \<Rightarrow> (OptUnknown, rest))
          else (if attached = None then Opt code [] else OptUnknown, rest))"

text \<open>A cluster of short options.\<close>

fun short_cluster :: "string \<Rightarrow> string list \<Rightarrow> opt_event list \<times> string list" where
  "short_cluster [] rest = ([], rest)"
| "short_cluster (c # cs) rest =
     (case short_opts c of
        None \<Rightarrow> ([OptUnknown], rest)
      | Some (needs, code) \<Rightarrow>
          if \<not> needs then (case short_cluster cs rest of (evs, rest') \<Rightarrow> (Opt code [] # evs, rest'))
          else if cs \<noteq> [] then ([Opt code cs], rest)
          else (case rest of [] \<Rightarrow> ([OptUnknown], rest) | v # rest' \<Rightarrow> ([Opt code v], rest')))"

lemma long_option_rest: "long_option telemetry s rest = (e, rest') \<Longrightarrow> length rest' \<le> length rest"
  by (auto simp: long_option_def Let_def split: option.splits prod.splits list.splits if_splits)

lemma short_cluster_rest: "short_cluster s rest = (evs, rest') \<Longrightarrow> length rest' \<le> length rest"
  by (induction s rest arbitrary: evs rest' rule: short_cluster.induct)
    (fastforce split: option.splits prod.splits list.splits if_splits)+

function getopt_long :: "bool \<Rightarrow> string list \<Rightarrow> opt_event list \<times> string list" where
  "getopt_long telemetry [] = ([], [])"
| "getopt_long telemetry (a # rest) =
     (if a = ''--'' then ([], rest)
      else if starts_with ''--'' a then
        (let (e, rest') = long_option telemetry (drop 2 a) rest; (evs, pos) = getopt_long telemetry rest' in (e # evs, pos))
      else if starts_with ''-'' a \<and> a \<noteq> ''-'' then
        (let (es, rest') = short_cluster (drop 1 a) rest; (evs, pos) = getopt_long telemetry rest' in (es @ evs, pos))
      else (let (evs, pos) = getopt_long telemetry rest in (evs, a # pos)))"
  by pat_completeness auto
termination
  by (relation "measure (\<lambda>(t, args). length args)")
    (auto dest!: long_option_rest [OF sym] short_cluster_rest [OF sym])

section \<open>The options of the program\<close>

definition parse_format :: "string \<Rightarrow> Format result" where
  "parse_format arg =
     (let formatArg = map tolower arg in
      if formatArg = ''junit'' then Inr Junit
      else if formatArg = ''nested-list'' then Inr NestedList
      else if formatArg = ''compact-list'' then Inr CompactList
      else if formatArg = ''debug'' then Inr Debug
      else Inl (Error1 (''Invalid format: '' @ formatArg @ ''. Allowed values: {junit, nested-list, compact-list, debug}.'')))"

definition param_form :: error where
  "param_form = Error1 ''--param must be of the form <ref>.<name>=<value>.''"

definition parse_param :: "string \<Rightarrow> ParamOverride result" where
  "parse_param arg =
     (case find_char (CHR ''='') arg of
        None \<Rightarrow> Inl param_form
      | Some eq \<Rightarrow>
          if eq = 0 then Inl param_form
          else
            let key = take eq arg; val = drop (eq + 1) arg in
            (case find_char (CHR ''.'') key of
               None \<Rightarrow> Inl param_form
             | Some dot \<Rightarrow>
                 if dot = 0 \<or> last key = CHR ''.'' then Inl param_form
                 else Inr \<lparr>selector = key, po_value = val\<rparr>))"

text \<open>One round of the option loop; the flag says that the parse is finished.\<close>

definition apply_option :: "bool \<Rightarrow> opt_event \<Rightarrow> Options \<Rightarrow> (Options \<times> bool) result" where
  "apply_option telemetry ev o' =
     (let toggle = (\<lambda>mode arg.
        if arg = [] then Inl (Error1 ''Section must not be empty.'')
        else Inr (o'\<lparr>toggles := toggles o' @ [\<lparr>toggle_section = arg, toggle_mode = mode\<rparr>]\<rparr>, False))
      in case ev of
        Opt OptHelp _ \<Rightarrow> Inr (o'\<lparr>command := Help\<rparr>, True)
      | Opt OptVersion _ \<Rightarrow> Inr (o'\<lparr>command := Version\<rparr>, True)
      | Opt OptVerbose _ \<Rightarrow> Inr (o'\<lparr>verbose := True\<rparr>, False)
      | Opt OptDebug _ \<Rightarrow> Inr (o'\<lparr>debug := True\<rparr>, False)
      | Opt OptTelemetry _ \<Rightarrow>
          if telemetry then Inr (o'\<lparr>telemetryEnabled := True\<rparr>, False) else Inl (Error1 ''Unknown option.'')
      | Opt OptContinue _ \<Rightarrow> Inr (o'\<lparr>continueOnError := True\<rparr>, False)
      | Opt OptLogFile arg \<Rightarrow>
          if arg = [] then Inl (Error1 ''Log file path must not be empty.'') else Inr (o'\<lparr>logFile := Some arg\<rparr>, False)
      | Opt OptFormat arg \<Rightarrow>
          if arg = [] then Inl (Error1 ''Format must not be empty.'')
          else and_then (parse_format arg) (\<lambda>f. Inr (o'\<lparr>opt_format := Some f\<rparr>, False))
      | Opt OptSuiteName arg \<Rightarrow>
          if arg = [] then Inl (Error1 ''Suite name must not be empty.'') else Inr (o'\<lparr>suiteName := Some arg\<rparr>, False)
      | Opt OptOutput arg \<Rightarrow>
          if arg = [] then Inl (Error1 ''Output path must not be empty.'') else Inr (o'\<lparr>opt_output := Some arg\<rparr>, False)
      | Opt OptAudit arg \<Rightarrow> toggle ModeAudit arg
      | Opt OptRemediate arg \<Rightarrow> toggle ModeRemediate arg
      | Opt OptEnforce arg \<Rightarrow> toggle ModeEnforce arg
      | Opt OptParam arg \<Rightarrow>
          and_then (parse_param arg) (\<lambda>po. Inr (o'\<lparr>paramOverrides := paramOverrides o' @ [po]\<rparr>, False))
      | OptUnknown \<Rightarrow> Inl (Error1 ''Unknown option.''))"

fun options_loop :: "bool \<Rightarrow> opt_event list \<Rightarrow> Options \<Rightarrow> (Options \<times> bool) result" where
  "options_loop telemetry [] o' = Inr (o', False)"
| "options_loop telemetry (ev # evs) o' =
     and_then (apply_option telemetry ev o') (\<lambda>(o', finished).
       if finished then Inr (o', True) else options_loop telemetry evs o')"

definition parse_command :: "string \<Rightarrow> Command result" where
  "parse_command arg =
     (if arg = ''render'' then Inr Render
      else if arg = ''plan'' then Inr Plan
      else if arg = ''run'' then Inr Run
      else if arg = ''list'' then Inr List
      else Inl (Error1 (''Invalid command: '' @ quoted arg @ ''. Must be '' @ quoted ''render'' @ '', '' @ quoted ''plan''
             @ '', '' @ quoted ''run'' @ '' or '' @ quoted ''list'' @ ''.'')))"

definition parse_positional :: "string list \<Rightarrow> Options \<Rightarrow> Options result" where
  "parse_positional args o' =
     (case args of
        [] \<Rightarrow> Inl (Error1 (''Missing required command: '' @ quoted ''render'' @ '', '' @ quoted ''plan'' @ '', ''
               @ quoted ''run'' @ '' or '' @ quoted ''list'' @ ''.''))
      | arg # rest \<Rightarrow>
          and_then (parse_command arg) (\<lambda>cmd.
            let o' = o'\<lparr>command := cmd\<rparr> in
            if cmd = Plan then Inr (o'\<lparr>inputs := inputs o' @ rest\<rparr>)
            else case rest of
              [] \<Rightarrow> Inr o'
            | [file] \<Rightarrow> Inr (o'\<lparr>opt_input := file\<rparr>)
            | _ \<Rightarrow> Inl (Error1 ''Too many arguments provided.'')))"

text \<open>The three blocks of cross-option validation.\<close>

definition check_render :: "Options \<Rightarrow> Options result" where
  "check_render o' =
     (if command o' = Render then Inr (if opt_format o' = None then o'\<lparr>opt_format := Some Junit\<rparr> else o')
      else if opt_format o' \<noteq> None
      then Inl (Error1 (''--format is only valid for the '' @ quoted ''render'' @ '' subcommand; '' @ quoted ''plan''
             @ '' and '' @ quoted ''run'' @ '' don'' @ [SQ] @ ''t use it.''))
      else if suiteName o' \<noteq> None
      then Inl (Error1 (''--suite-name is only valid for the '' @ quoted ''render'' @ '' subcommand.''))
      else Inr o')"

definition check_plan :: "Options \<Rightarrow> Options result" where
  "check_plan o' =
     (if command o' = Plan then
        (if continueOnError o'
         then Inl (Error1 (''--continue-on-error is not valid for '' @ quoted ''plan'' @ ''; it doesn'' @ [SQ]
                @ ''t execute anything.''))
         else Inr o')
      else if toggles o' \<noteq> [] then Inl (Error1 (''--audit=/--remediate=/--enforce= are only valid for '' @ quoted ''plan'' @ ''.''))
      else if paramOverrides o' \<noteq> [] then Inl (Error1 (''--param= is only valid for '' @ quoted ''plan'' @ ''.''))
      else if opt_output o' \<noteq> None then Inl (Error1 (''--output is only valid for '' @ quoted ''plan'' @ ''.''))
      else if command o' = List \<and> continueOnError o'
      then Inl (Error1 (''--continue-on-error is not valid for '' @ quoted ''list'' @ ''; it doesn'' @ [SQ]
             @ ''t execute anything.''))
      else Inr o')"

definition check_inputs :: "Options \<Rightarrow> Options result" where
  "check_inputs o' =
     (if command o' = Plan then
        (if inputs o' = [] then Inl (Error1 (''At least one benchmark-definition file is required for '' @ quoted ''plan'' @ ''.''))
         else if \<exists>file\<in>set (inputs o'). file = [] \<or> file = ''-''
         then Inl (Error1 (''A file argument is required for '' @ quoted ''plan'' @ ''; stdin ('' @ quoted ''-'' @ '') is not supported.''))
         else Inr o')
      else if (command o' = Run \<or> command o' = List) \<and> (opt_input o' = [] \<or> opt_input o' = ''-'')
      then Inl (Error1 (''A file argument is required for '' @ quoted ''run'' @ '' and '' @ quoted ''list'' @ ''; stdin (''
             @ quoted ''-'' @ '') is not supported.''))
      else Inr o')"

definition ParseCommandLine :: "bool \<Rightarrow> string list \<Rightarrow> Options result" where
  "ParseCommandLine telemetry args =
     (case getopt_long telemetry args of (evs, positional) \<Rightarrow>
        and_then (options_loop telemetry evs Options_init) (\<lambda>(o', finished).
          if finished then Inr o'
          else and_then (parse_positional positional o') (\<lambda>o'.
               and_then (check_render o') (\<lambda>o'.
               and_then (check_plan o') check_inputs))))"

section \<open>What the subcommands rely on\<close>

definition real_file :: "string \<Rightarrow> bool" where
  "real_file f \<longleftrightarrow> f \<noteq> [] \<and> f \<noteq> ''-''"

definition options_ok :: "Options \<Rightarrow> bool" where
  "options_ok o' \<longleftrightarrow>
     (case command o' of
        Help \<Rightarrow> True
      | Version \<Rightarrow> True
      | Render \<Rightarrow> opt_format o' \<noteq> None \<and> toggles o' = [] \<and> paramOverrides o' = [] \<and> opt_output o' = None
      | Plan \<Rightarrow> inputs o' \<noteq> [] \<and> list_all real_file (inputs o') \<and> opt_format o' = None \<and> suiteName o' = None
          \<and> \<not> continueOnError o' \<and> opt_output o' \<noteq> Some []
          \<and> list_all (\<lambda>t. toggle_section t \<noteq> []) (toggles o')
      | Run \<Rightarrow> real_file (opt_input o') \<and> opt_format o' = None \<and> suiteName o' = None \<and> toggles o' = []
          \<and> paramOverrides o' = [] \<and> opt_output o' = None \<and> logFile o' \<noteq> Some []
      | List \<Rightarrow> real_file (opt_input o') \<and> opt_format o' = None \<and> toggles o' = [] \<and> paramOverrides o' = []
          \<and> \<not> continueOnError o')"

definition loop_ok :: "Options \<Rightarrow> bool" where
  "loop_ok o' \<longleftrightarrow> logFile o' \<noteq> Some [] \<and> opt_output o' \<noteq> Some [] \<and> list_all (\<lambda>t. toggle_section t \<noteq> []) (toggles o')"

lemma apply_option_loop_ok:
  "apply_option telemetry ev o' = Inr (o2, finished) \<Longrightarrow> loop_ok o' \<Longrightarrow>
     loop_ok o2 \<and> (finished \<longrightarrow> command o2 = Help \<or> command o2 = Version)"
  by (auto simp: apply_option_def loop_ok_def result_simps Let_def split: opt_event.splits opt_code.splits if_splits)

lemma options_loop_ok:
  "options_loop telemetry evs o' = Inr (o2, finished) \<Longrightarrow> loop_ok o' \<Longrightarrow>
     loop_ok o2 \<and> (finished \<longrightarrow> command o2 = Help \<or> command o2 = Version)"
proof (induction evs arbitrary: o')
  case Nil
  then show ?case by simp
next
  case (Cons ev evs)
  then show ?case using apply_option_loop_ok by (fastforce simp: result_simps split: if_splits)
qed

lemma check_plan_Inr: "check_plan o' = Inr o2 \<Longrightarrow> o2 = o'"
  by (simp add: check_plan_def split: if_splits)

lemma check_inputs_Inr: "check_inputs o' = Inr o2 \<Longrightarrow> o2 = o'"
  by (simp add: check_inputs_def split: if_splits)

lemma parse_command_Inr: "parse_command arg = Inr c \<Longrightarrow> c \<noteq> Help \<and> c \<noteq> Version"
  unfolding parse_command_def by (simp only: sum.inject split: if_splits) auto

lemma parse_positional_Inr:
  assumes "parse_positional args o' = Inr o2" "loop_ok o'"
  shows "loop_ok o2 \<and> command o2 \<noteq> Help \<and> command o2 \<noteq> Version"
proof -
  obtain arg rest cmd where a: "args = arg # rest" "parse_command arg = Inr cmd"
    using assms(1) by (cases args) (auto simp: parse_positional_def and_then_Inr)
  have "command o2 = cmd \<and> loop_ok o2"
    using assms unfolding parse_positional_def a
    by (auto simp: a Let_def loop_ok_def split: list.splits if_splits)
  then show ?thesis using parse_command_Inr [OF a(2)] by simp
qed

text \<open>The three checks together.\<close>

lemma checks_ok:
  assumes "check_render o1 = Inr o2" "check_plan o2 = Inr o2" "check_inputs o2 = Inr o2"
    and "loop_ok o1" "command o1 \<noteq> Help" "command o1 \<noteq> Version"
  shows "options_ok o2"
proof -
  have r: "command o2 = command o1" "loop_ok o2" "command o1 = Render \<Longrightarrow> opt_format o2 \<noteq> None"
      "command o1 \<noteq> Render \<Longrightarrow> opt_format o2 = None \<and> suiteName o2 = None"
    using assms(1,4) by (auto simp: check_render_def loop_ok_def split: if_splits)
  have p: "command o2 = Plan \<Longrightarrow> \<not> continueOnError o2"
      "command o2 \<noteq> Plan \<Longrightarrow> toggles o2 = [] \<and> paramOverrides o2 = [] \<and> opt_output o2 = None"
      "command o2 = List \<Longrightarrow> \<not> continueOnError o2"
    using assms(2) by (auto simp: check_plan_def split: if_splits)
  have i: "command o2 = Plan \<Longrightarrow> inputs o2 \<noteq> [] \<and> list_all real_file (inputs o2)"
      "command o2 = Run \<or> command o2 = List \<Longrightarrow> real_file (opt_input o2)"
    using assms(3) by (auto simp: check_inputs_def real_file_def list_all_iff split: if_splits)
  show ?thesis
    using r p i assms(5,6) by (cases "command o2") (simp_all add: options_ok_def loop_ok_def)
qed

lemma ParseCommandLine_ok:
  assumes "ParseCommandLine telemetry args = Inr o'"
  shows "options_ok o'"
proof -
  obtain evs positional o1 finished where g: "getopt_long telemetry args = (evs, positional)"
      "options_loop telemetry evs Options_init = Inr (o1, finished)"
    using assms by (cases "getopt_long telemetry args") (auto simp: ParseCommandLine_def result_simps)
  have l: "loop_ok o1 \<and> (finished \<longrightarrow> command o1 = Help \<or> command o1 = Version)"
    by (rule options_loop_ok [OF g(2)]) (simp add: loop_ok_def Options_init_def)
  show ?thesis
  proof (cases finished)
    case True
    then show ?thesis using assms g l by (auto simp: ParseCommandLine_def options_ok_def)
  next
    case False
    then obtain o2 o3 where s: "parse_positional positional o1 = Inr o2" "check_render o2 = Inr o3"
        "and_then (check_plan o3) check_inputs = Inr o'"
      using assms g by (auto simp: ParseCommandLine_def and_then_Inr)
    then have "o' = o3" "check_plan o3 = Inr o3" "check_inputs o3 = Inr o3"
      using check_plan_Inr check_inputs_Inr by (fastforce simp: and_then_Inr)+
    then show ?thesis
      using checks_ok [OF s(2)] parse_positional_Inr [OF s(1)] l by simp
  qed
qed

end
