(* ===== verification/PlanWrite.thy ===== *)
theory PlanWrite
  imports Plan
begin

text \<open>
  \<open>WritePlanFile\<close> of \<open>kompli/Plan.cpp\<close>: the output file is reached from a trusted root one
  component at a time, checked, truncated and written. The answers of the system calls are a
  parameter; the state is the open descriptors, the components that were opened and the bytes of
  the destination, \<open>None\<close> while it is untouched. The write loop need not end (\<open>EINTR\<close> for ever),
  so it is a partial function. Shown: what is written is exactly the plan, into a singly linked
  regular file of a directory that only the caller can write, reached without \<open>..\<close>; no descriptor
  leaks; and the loop ends exactly if the writes make progress.
\<close>

section \<open>System calls\<close>

abbreviation EINTR :: int where "EINTR \<equiv> 4"

record output_stat = file_stat +
  st_nlink :: nat

text \<open>\<open>out_write k\<close> is the answer of the \<open>k\<close>-th call of \<open>write\<close>.\<close>

record output_calls =
  out_root :: "string \<Rightarrow> int + nat"
  out_openat :: "nat \<Rightarrow> string \<Rightarrow> int + nat"
  out_create :: "nat \<Rightarrow> string \<Rightarrow> int + nat"
  out_fstat :: "nat \<Rightarrow> int + output_stat"
  out_geteuid :: "32 word"
  out_ftruncate :: "nat \<Rightarrow> int option"
  out_write :: "nat \<Rightarrow> int + nat"
  out_close :: "nat \<Rightarrow> int option"
  out_strerror :: "int \<Rightarrow> string"

record output_state =
  os_fds :: descriptors
  os_opened :: "string list"
  os_content :: "string option"

definition out_error :: "output_calls \<Rightarrow> string \<Rightarrow> string \<Rightarrow> int \<Rightarrow> error" where
  "out_error env msg path errno = Error (msg @ quoted path @ '': '' @ out_strerror env errno) errno"

text \<open>A guard that goes out of scope closes its descriptor.\<close>

definition release :: "nat \<Rightarrow> output_state \<Rightarrow> output_state" where
  "release fd s = s\<lparr>os_fds := close_fd fd (os_fds s)\<rparr>"

definition acquire :: "nat \<Rightarrow> output_state \<Rightarrow> output_state" where
  "acquire fd s = s\<lparr>os_fds := fd # os_fds s\<rparr>"

section \<open>Finding the directory\<close>

text \<open>The next component of the path and what is left behind its slash.\<close>

definition next_component :: "string \<Rightarrow> string \<times> string" where
  "next_component rest =
     (case find_char (CHR ''/'') rest of
        None \<Rightarrow> (rest, [])
      | Some slash \<Rightarrow> (take slash rest, drop (slash + 1) rest))"

lemma next_component_less: "rest \<noteq> [] \<Longrightarrow> length (snd (next_component rest)) < length rest"
  by (auto simp: next_component_def split: option.split)

text \<open>The walk holds one descriptor. On failure it is released.\<close>

function walk :: "output_calls \<Rightarrow> string \<Rightarrow> string \<Rightarrow> nat \<Rightarrow> output_state \<Rightarrow> nat result \<times> output_state" where
  "walk env path rest fd s =
     (if rest = [] then (Inr fd, s)
      else case next_component rest of
        (component, rest') \<Rightarrow>
          if component = [] \<or> component = ''.'' then walk env path rest' fd s
          else if component = ''..''
          then (Inl (Error (''Refusing output path '' @ quoted path @ '': contains path traversal component '' @ quoted ''..'') EINVAL),
                release fd s)
          else (let s = s\<lparr>os_opened := os_opened s @ [c_str component]\<rparr> in
            case out_openat env fd (c_str component) of
              Inl errno \<Rightarrow> (Inl (out_error env ''Failed to resolve output parent for '' path errno), release fd s)
            | Inr next_fd \<Rightarrow> walk env path rest' next_fd (release fd (acquire next_fd s))))"
  by pat_completeness auto
termination
  by (relation "measure (\<lambda>(env, path, rest, fd, s). length rest)")
    (auto simp: next_component_def split: option.splits)

declare walk.simps [simp del]

definition output_name :: "string \<Rightarrow> string" where
  "output_name path = (case rfind_char (CHR ''/'') path of None \<Rightarrow> path | Some slash \<Rightarrow> drop (slash + 1) path)"

definition open_parent :: "output_calls \<Rightarrow> string \<Rightarrow> output_state \<Rightarrow> nat result \<times> output_state" where
  "open_parent env path s =
     (let parentPath = parent_dir path; absolute = (hd parentPath = CHR ''/'') in
      case out_root env (if absolute then ''/'' else ''.'') of
        Inl errno \<Rightarrow> (Inl (out_error env ''Failed to open output parent for '' path errno), s)
      | Inr fd \<Rightarrow> walk env path (if absolute then tl parentPath else parentPath) fd (acquire fd s))"

definition trusted_parent :: "output_calls \<Rightarrow> output_stat \<Rightarrow> bool" where
  "trusted_parent env st \<longleftrightarrow>
     S_ISDIR (st_mode st) \<and> st_uid st = out_geteuid env \<and> \<not> writable_by_others (st_mode st)"

section \<open>Writing\<close>

text \<open>The loop with the number of calls made, the bytes counted as written and the bytes that are
  in the file. Its result is the error number that stopped it, if any.\<close>

partial_function (option) write_loop ::
  "(nat \<Rightarrow> int + nat) \<Rightarrow> nat \<Rightarrow> string \<Rightarrow> nat \<Rightarrow> string \<Rightarrow> (int option \<times> string) option" where
  "write_loop answers k content written bytes =
     (if written < length content then
        (case answers k of
           Inl errno \<Rightarrow>
             if errno = EINTR then write_loop answers (k + 1) content written bytes
             else Some (Some errno, bytes)
         | Inr n \<Rightarrow> write_loop answers (k + 1) content (written + n) (bytes @ take n (drop written content)))
      else Some (None, bytes))"

text \<open>From the descriptor of the destination on: check, truncate, write, close.\<close>

definition write_output :: "output_calls \<Rightarrow> string \<Rightarrow> string \<Rightarrow> nat \<Rightarrow> output_state \<Rightarrow> (error option \<times> output_state) option" where
  "write_output env path content fd s =
     (case out_fstat env fd of
        Inl errno \<Rightarrow> Some (Some (out_error env ''Failed to inspect output file '' path errno), release fd s)
      | Inr st \<Rightarrow>
          if \<not> S_ISREG (st_mode st) \<or> st_nlink st \<noteq> 1
          then Some (Some (Error (''Refusing to write output file '' @ quoted path @ '': destination is not a singly-linked regular file'') EINVAL),
                     release fd s)
          else (case out_ftruncate env fd of
            Some errno \<Rightarrow> Some (Some (out_error env ''Failed to truncate output file '' path errno), release fd s)
          | None \<Rightarrow>
              (case write_loop (out_write env) 0 content 0 [] of
                 None \<Rightarrow> None
               | Some (r, bytes) \<Rightarrow>
                   let s = release fd (s\<lparr>os_content := Some bytes\<rparr>) in
                   Some ((case r of
                            Some errno \<Rightarrow> Some (out_error env ''Failed to write output file '' path errno)
                          | None \<Rightarrow>
                              (case out_close env fd of
                                 Some errno \<Rightarrow> Some (out_error env ''Failed to close output file '' path errno)
                               | None \<Rightarrow> None)), s))))"

definition WritePlanFile :: "output_calls \<Rightarrow> string \<Rightarrow> string \<Rightarrow> output_state \<Rightarrow> (error option \<times> output_state) option" where
  "WritePlanFile env path content s =
     (let filename = output_name path in
      if filename = [] \<or> filename = ''.'' \<or> filename = ''..''
      then Some (Some (Error (''Invalid output file path '' @ quoted path) EINVAL), s)
      else case open_parent env path s of
        (Inl e, s) \<Rightarrow> Some (Some e, s)
      | (Inr parentFd, s) \<Rightarrow>
          (case out_fstat env parentFd of
             Inl errno \<Rightarrow> Some (Some (out_error env ''Failed to inspect output parent for '' path errno), release parentFd s)
           | Inr info \<Rightarrow>
               if \<not> trusted_parent env info
               then Some (Some (Error (''Refusing output path '' @ quoted path @ '': parent directory is not trusted'') EPERM),
                          release parentFd s)
               else (case out_create env parentFd (c_str filename) of
                 Inl errno \<Rightarrow> Some (Some (out_error env ''Failed to open output file '' path errno), release parentFd s)
               | Inr fd \<Rightarrow> write_output env path content fd (release parentFd (acquire fd s)))))"

section \<open>The walk\<close>

lemma path_components_append: "path_components (a @ CHR ''/'' # b) = path_components a @ path_components b"
proof (induction a)
  case Nil
  then show ?case by simp
next
  case (Cons c a)
  obtain p ps where "path_components a = p # ps" using path_components_hd by blast
  then show ?case using Cons by simp
qed

lemma path_components_plain: "CHR ''/'' \<notin> set a \<Longrightarrow> path_components a = [a]"
  by (induction a) auto

lemma find_char_split: "find_char c s = Some i \<Longrightarrow> s = take i s @ c # drop (i + 1) s \<and> c \<notin> set (take i s)"
  by (induction s arbitrary: i) (auto split: if_splits)

lemma next_component_split:
  assumes "next_component rest = (c, rest')"
  shows "path_components rest = (if CHR ''/'' \<in> set rest then c # path_components rest' else [c])
    \<and> (CHR ''/'' \<notin> set rest \<longrightarrow> rest' = []) \<and> set c \<union> set rest' \<subseteq> set rest"
proof (cases "find_char (CHR ''/'') rest")
  case None
  then show ?thesis
    using assms path_components_plain find_char_None [of "CHR ''/''" rest] by (auto simp: next_component_def)
next
  case (Some i)
  have s: "rest = c @ CHR ''/'' # rest'" "CHR ''/'' \<notin> set c"
    using assms Some find_char_split [OF Some] by (auto simp: next_component_def)
  have "path_components rest = c # path_components rest'"
    unfolding s(1) path_components_append path_components_plain [OF s(2)] by simp
  then show ?thesis using s(1) by auto
qed

text \<open>What the walk does to the state, and what it has opened.\<close>

definition plain_component :: "string \<Rightarrow> bool" where
  "plain_component c \<longleftrightarrow> c \<noteq> [] \<and> c \<noteq> ''.'' \<and> c \<noteq> ''..''"

lemma walk_result:
  assumes "walk env path rest fd s = (r, s')" "os_fds s = fd # fds" "NUL \<notin> set rest"
  shows "os_content s' = os_content s
    \<and> (\<exists>cs. os_opened s' = os_opened s @ cs \<and> list_all plain_component cs)
    \<and> (case r of Inl e \<Rightarrow> os_fds s' = fds
        | Inr fd' \<Rightarrow> os_fds s' = fd' # fds \<and> ''..'' \<notin> set (path_components rest))"
  using assms
proof (induction env path rest fd s arbitrary: fds rule: walk.induct)
  case (1 env path rest fd s)
  show ?case
  proof (cases "rest = []")
    case True
    then show ?thesis using "1.prems" by (auto simp: walk.simps [of env path "[]"])
  next
    case False
    obtain c rest' where n: "next_component rest = (c, rest')" by (meson surj_pair)
    note split = next_component_split [OF n]
    have nul: "NUL \<notin> set c" "NUL \<notin> set rest'" using split "1.prems"(3) by auto
    have comps: "set (path_components rest) \<subseteq> insert c (set (path_components rest'))" using split by auto
    consider (skip) "c = [] \<or> c = ''.''" | (up) "c = ''..''" | (plain) "plain_component c"
      by (auto simp: plain_component_def)
    then show ?thesis
    proof cases
      case skip
      then have "walk env path rest' fd s = (r, s')"
        using "1.prems"(1) False n by (auto simp: walk.simps [of env path rest])
      from "1.IH"(1) [OF False n [symmetric] skip this "1.prems"(2) nul(2)] show ?thesis
        using skip comps by (auto split: sum.splits)
    next
      case up
      then show ?thesis
        using "1.prems" False n by (auto simp: walk.simps [of env path rest] release_def)
    next
      case plain
      let ?s = "s\<lparr>os_opened := os_opened s @ [c_str c]\<rparr>"
      show ?thesis
      proof (cases "out_openat env fd (c_str c)")
        case (Inl errno)
        then show ?thesis
          using "1.prems" False n plain nul by (auto simp: walk.simps [of env path rest] release_def plain_component_def)
      next
        case (Inr next_fd)
        let ?s' = "release fd (acquire next_fd ?s)"
        have w: "walk env path rest' next_fd ?s' = (r, s')"
          using "1.prems"(1) False n plain Inr by (auto simp: walk.simps [of env path rest] plain_component_def)
        have f: "os_fds ?s' = next_fd # fds" "os_opened ?s' = os_opened s @ [c]" "os_content ?s' = os_content s"
          using "1.prems"(2) nul(1) by (auto simp: release_def acquire_def)
        have nc: "\<not> (c = [] \<or> c = ''.'')" "c \<noteq> ''..''" using plain by (auto simp: plain_component_def)
        from "1.IH"(2) [OF False n [symmetric] nc refl Inr w f(1) nul(2)] show ?thesis
          using plain comps f(2,3) nc by (auto split: sum.splits)
      qed
    qed
  qed
qed

section \<open>The write loop\<close>

lemma write_loop_prefix:
  assumes "write_loop answers k content written bytes = Some (r, bytes')" "bytes = take written content"
  shows "(\<exists>n. bytes' = take n content) \<and> (r = None \<longrightarrow> bytes' = content) \<and> r \<noteq> Some EINTR"
proof -
  have "bytes = take written content \<longrightarrow>
      (\<exists>n. snd p = take n content) \<and> (fst p = None \<longrightarrow> snd p = content) \<and> fst p \<noteq> Some EINTR"
    if "write_loop answers k content written bytes = Some p" for p
    using that
  proof (induction rule: write_loop.raw_induct [rotated 1, consumes 1, case_names step])
    case (step loop answers k content written bytes p)
    show ?case
    proof (cases "written < length content")
      case False
      then have "p = (None, bytes)" using step.hyps by simp
      then show ?thesis using False by (auto intro: exI [of _ written])
    next
      case True
      show ?thesis
      proof (cases "answers k")
        case (Inl errno)
        then show ?thesis using step.hyps step.IH True by (auto split: if_splits)
      next
        case (Inr n)
        then have "loop answers (k + 1) content (written + n) (bytes @ take n (drop written content)) = Some p"
          using step.hyps True by simp
        from step.IH [OF this] show ?thesis by (simp add: take_add)
      qed
    qed
  qed
  from this [OF assms(1)] show ?thesis using assms(2) by simp
qed

text \<open>An answer that moves the loop on.\<close>

definition progress :: "int + nat \<Rightarrow> bool" where
  "progress a = (case a of Inl errno \<Rightarrow> errno \<noteq> EINTR | Inr n \<Rightarrow> 0 < n)"

lemma write_loop_idle:
  assumes "\<not> progress (answers k)" "written < length content"
  shows "write_loop answers k content written bytes = write_loop answers (k + 1) content written bytes"
  using assms by (subst write_loop.simps) (auto simp: progress_def split: sum.splits)

lemma write_loop_returns:
  assumes "\<forall>k. \<exists>j\<ge>k. progress (answers j)"
  shows "\<exists>p. write_loop answers k content written bytes = Some p"
proof (induction "length content - written" arbitrary: k written bytes rule: less_induct)
  case less
  show ?case
  proof (cases "written < length content")
    case False
    then show ?thesis by (subst write_loop.simps) simp
  next
    case True
    have step: "\<exists>p. write_loop answers j content written bytes = Some p" if "progress (answers j)" for j
    proof (cases "answers j")
      case (Inl errno)
      then show ?thesis using that True by (subst write_loop.simps) (simp add: progress_def)
    next
      case (Inr n)
      then have "length content - (written + n) < length content - written" using that True by (simp add: progress_def)
      from less [OF this] show ?thesis using Inr True by (subst write_loop.simps) simp
    qed
    obtain j where "j \<ge> k" "progress (answers j)" using assms by blast
    then show ?thesis
    proof (induction "j - k" arbitrary: k)
      case 0
      then show ?case using step by simp
    next
      case (Suc d)
      show ?case
      proof (cases "progress (answers k)")
        case False
        then show ?thesis using write_loop_idle [where answers = answers and k = k, OF False True] Suc.hyps(1) [of "k + 1"] Suc.hyps(2) Suc.prems by simp
      qed (rule step)
    qed
  qed
qed

lemma write_loop_diverges:
  assumes "\<forall>j\<ge>k. \<not> progress (answers j)" "written < length content"
  shows "write_loop answers k content written bytes = None"
proof -
  have "\<not> ((\<forall>j\<ge>k. \<not> progress (answers j)) \<and> written < length content)"
    if "write_loop answers k content written bytes = Some p" for p
    using that
  proof (induction rule: write_loop.raw_induct [rotated 1, consumes 1, case_names step])
    case (step loop answers k content written bytes p)
    show ?case
    proof
      assume a: "(\<forall>j\<ge>k. \<not> progress (answers j)) \<and> written < length content"
      then have k: "\<not> progress (answers k)" "\<forall>j\<ge>k + 1. \<not> progress (answers j)" by simp_all
      have "\<exists>bytes. loop answers (k + 1) content written bytes = Some p"
        using step.hyps a k(1) by (cases "answers k") (auto simp: progress_def)
      then show False using step.IH k(2) a by blast
    qed
  qed
  then show ?thesis using assms by (cases "write_loop answers k content written bytes") auto
qed

section \<open>Writing a plan\<close>

lemma rfind_char_split:
  assumes "rfind_char c s = Some i"
  shows "s = take i s @ c # drop (i + 1) s \<and> c \<notin> set (drop (i + 1) s)"
proof -
  obtain j where j: "find_char c (rev s) = Some j" "i = length s - Suc j"
    using assms by (auto simp: rfind_char_def)
  have "j < length s" using find_char_bound [OF j(1)] by simp
  have "rev s = take j (rev s) @ c # drop (j + 1) (rev s)" "c \<notin> set (take j (rev s))"
    using find_char_split [OF j(1)] by auto
  then have "s = rev (drop (j + 1) (rev s)) @ c # rev (take j (rev s))"
    by (metis append.assoc append_Cons append_Nil rev.simps(2) rev_append rev_rev_ident)
  moreover have "rev (drop (j + 1) (rev s)) = take i s" "rev (take j (rev s)) = drop (i + 1) s"
    using \<open>j < length s\<close> j(2) by (simp_all add: rev_drop rev_take Suc_diff_Suc)
  ultimately show ?thesis using \<open>c \<notin> set (take j (rev s))\<close> by (metis set_rev)
qed

text \<open>The path is its directory and its name.\<close>

lemma output_path_components:
  "''..'' \<in> set (path_components path) \<Longrightarrow>
     output_name path = ''..'' \<or> ''..'' \<in> set (path_components
       (if hd (parent_dir path) = CHR ''/'' then tl (parent_dir path) else parent_dir path))"
proof (cases "rfind_char (CHR ''/'') path")
  case None
  then have "CHR ''/'' \<notin> set path" by (auto simp: rfind_char_def find_char_None)
  moreover assume "''..'' \<in> set (path_components path)"
  ultimately show ?thesis using None path_components_plain by (auto simp: output_name_def)
next
  case (Some i)
  note split = rfind_char_split [OF Some]
  assume up: "''..'' \<in> set (path_components path)"
  have "path_components path = path_components (take i path) @ path_components (output_name path)"
    using split path_components_append [of "take i path" "drop (i + 1) path"] Some by (simp add: output_name_def)
  moreover have "path_components (output_name path) = [output_name path]"
    using split Some by (auto simp: output_name_def intro!: path_components_plain)
  ultimately have "output_name path = ''..'' \<or> ''..'' \<in> set (path_components (take i path))" using up by auto
  moreover have "path_components (take i path) = [] # path_components (tl (take i path))"
    if "hd (take i path) = CHR ''/''" "take i path \<noteq> []"
    using that by (cases "take i path") auto
  moreover have "i \<noteq> 0 \<Longrightarrow> take i path \<noteq> []" using rfind_char_split [OF Some] by (cases path) auto
  ultimately show ?thesis
    using Some by (cases "i = 0") (auto simp: parent_dir_def substr_def split: if_splits)
qed

definition sound_destination :: "output_calls \<Rightarrow> string \<Rightarrow> bool" where
  "sound_destination env path \<longleftrightarrow>
     ''..'' \<notin> set (path_components path)
     \<and> (\<exists>parentFd info fd st. out_fstat env parentFd = Inr info \<and> trusted_parent env info
          \<and> out_create env parentFd (output_name path) = Inr fd
          \<and> out_fstat env fd = Inr st \<and> S_ISREG (st_mode st) \<and> st_nlink st = 1)"

lemma open_parent_result:
  assumes "open_parent env path s = (r, s')" "NUL \<notin> set path"
  shows "os_content s' = os_content s
    \<and> (\<exists>cs. os_opened s' = os_opened s @ cs \<and> list_all plain_component cs)
    \<and> (case r of Inl e \<Rightarrow> os_fds s' = os_fds s
        | Inr fd \<Rightarrow> os_fds s' = fd # os_fds s
            \<and> ''..'' \<notin> set (path_components (if hd (parent_dir path) = CHR ''/'' then tl (parent_dir path) else parent_dir path)))"
proof -
  let ?abs = "hd (parent_dir path) = CHR ''/''"
  have nul: "NUL \<notin> set (parent_dir path)"
    using assms(2) by (auto simp: parent_dir_def substr_def dest: in_set_takeD split: option.splits if_splits)
  show ?thesis
  proof (cases "out_root env (if ?abs then ''/'' else ''.'')")
    case (Inl errno)
    then show ?thesis using assms(1) by (auto simp: open_parent_def Let_def)
  next
    case (Inr fd)
    then have w: "walk env path (if ?abs then tl (parent_dir path) else parent_dir path) fd (acquire fd s) = (r, s')"
      using assms(1) by (auto simp: open_parent_def Let_def)
    have "NUL \<notin> set (if ?abs then tl (parent_dir path) else parent_dir path)"
      using nul list.set_sel(2) [of "parent_dir path"] by (cases "parent_dir path") auto
    from walk_result [OF w _ this, of "os_fds s"] show ?thesis by (simp add: acquire_def split: sum.splits)
  qed
qed

lemma write_output_result:
  assumes "write_output env path content fd s = Some (r, s')" "os_fds s = fd # fds"
  shows "os_fds s' = fds \<and> os_opened s' = os_opened s
    \<and> (r = None \<longrightarrow> os_content s' = Some content)
    \<and> (os_content s' = os_content s \<or>
        (\<exists>n st. os_content s' = Some (take n content) \<and> out_fstat env fd = Inr st \<and> S_ISREG (st_mode st) \<and> st_nlink st = 1))"
proof (cases "out_fstat env fd")
  case (Inl errno)
  then show ?thesis using assms by (auto simp: write_output_def release_def)
next
  case (Inr st)
  show ?thesis
  proof (cases "S_ISREG (st_mode st) \<and> st_nlink st = 1 \<and> out_ftruncate env fd = None")
    case False
    then show ?thesis using assms Inr by (auto simp: write_output_def release_def split: option.splits if_splits)
  next
    case True
    then obtain e bytes where w: "write_loop (out_write env) 0 content 0 [] = Some (e, bytes)"
      and s': "s' = release fd (s\<lparr>os_content := Some bytes\<rparr>)" and r: "r = None \<Longrightarrow> e = None"
      using assms(1) Inr by (auto simp: write_output_def Let_def split: option.splits)
    obtain n where "bytes = take n content" and "e = None \<Longrightarrow> bytes = content"
      using write_loop_prefix [OF w take_0 [symmetric]] by blast
    then show ?thesis using True Inr r assms(2) by (auto simp: s' release_def)
  qed
qed

lemma WritePlanFile_result:
  assumes "WritePlanFile env path content s = Some (r, s')" "NUL \<notin> set path"
  shows "os_fds s' = os_fds s
    \<and> (\<exists>cs. os_opened s' = os_opened s @ cs \<and> list_all plain_component cs)
    \<and> (r = None \<longrightarrow> os_content s' = Some content)
    \<and> (os_content s' = os_content s \<or> sound_destination env path \<and> (\<exists>n. os_content s' = Some (take n content)))"
proof (cases "output_name path = [] \<or> output_name path = ''.'' \<or> output_name path = ''..''")
  case True
  then show ?thesis using assms(1) by (auto simp: WritePlanFile_def Let_def)
next
  case name: False
  obtain p s1 where p: "open_parent env path s = (p, s1)" by (meson surj_pair)
  note opened = open_parent_result [OF p assms(2)]
  show ?thesis
  proof (cases p)
    case (Inl e)
    then show ?thesis using assms(1) name p opened by (auto simp: WritePlanFile_def Let_def)
  next
    case (Inr parentFd)
    have nul: "c_str (output_name path) = output_name path"
      using assms(2) by (auto simp: output_name_def dest: in_set_dropD split: option.split intro!: c_str_id)
    show ?thesis
    proof (cases "\<exists>info fd. out_fstat env parentFd = Inr info \<and> trusted_parent env info \<and> out_create env parentFd (output_name path) = Inr fd")
      case False
      then show ?thesis
        using assms(1) name p opened Inr nul
        by (auto simp: WritePlanFile_def Let_def release_def split: sum.splits if_splits)
    next
      case True
      then obtain info fd where f: "out_fstat env parentFd = Inr info" "trusted_parent env info"
          "out_create env parentFd (output_name path) = Inr fd" by blast
      let ?s2 = "release parentFd (acquire fd s1)"
      have w: "write_output env path content fd ?s2 = Some (r, s')"
        using assms(1) name p Inr f nul by (auto simp: WritePlanFile_def Let_def)
      have s2: "os_fds ?s2 = fd # os_fds s" "os_opened ?s2 = os_opened s1" "os_content ?s2 = os_content s"
        using opened Inr by (auto simp: release_def acquire_def)
      have "''..'' \<notin> set (path_components path)" using output_path_components name opened Inr by auto
      then show ?thesis
        using write_output_result [OF w s2(1)] s2 opened f by (auto simp: sound_destination_def)
    qed
  qed
qed

text \<open>If the writes go on making progress, the plan is written or the write fails; if they stop
  doing so, the loop does not end (\<open>write_loop_diverges\<close>).\<close>

lemma WritePlanFile_returns:
  assumes "\<forall>k. \<exists>j\<ge>k. progress (out_write env j)"
  shows "\<exists>r s'. WritePlanFile env path content s = Some (r, s')"
proof -
  obtain e bytes where "write_loop (out_write env) 0 content 0 [] = Some (e, bytes)"
    using write_loop_returns [OF assms] by fastforce
  then have "\<exists>r s'. write_output env path content fd s = Some (r, s')" for fd s
    by (auto simp: write_output_def Let_def split: sum.split option.split)
  then show ?thesis by (auto simp: WritePlanFile_def Let_def split: sum.split prod.split)
qed

end
