(* ===== verification/Kompli.thy ===== *)
theory Kompli
  imports CliOptions RuleResult EngineInterface PlanWrite
begin

text \<open>
  \<open>kompli/Main.cpp\<close>: the commands of the program. \<open>run\<close> executes a plan: it parses and validates
  everything first, then drives the engine rule by rule, collects the results in the document and
  combines their statuses. The outcome of the program is its exit code and what it prints on
  standard output; the log, standard error and telemetry are not represented. The formatter of
  the engine is the JSON one, whatever the environment says.
\<close>

section \<open>The world of the program\<close>

text \<open>What \<open>main\<close> finds: the files and regular expressions of a plan environment, the engine's
  environment, the sources of the distribution information, the state directory (an error where
  it cannot be made), the clock, and whether the build has telemetry.\<close>

record 'w kompli_env =
  ke_plan :: plan_env
  ke_engine :: "'w engine_env"
  ke_os_files :: file_system
  ke_uname :: uname_result
  ke_override :: int
  ke_context :: "'w result"
  ke_timestamp :: string
  ke_duration :: "64 word"

record run_outcome =
  exit_code :: int
  printed :: string

abbreviation failure :: run_outcome where "failure \<equiv> \<lparr>exit_code = 1, printed = []\<rparr>"

definition json_engine :: "'w kompli_env \<Rightarrow> 'w engine_env" where
  "json_engine env = (ke_engine env)\<lparr>env_strtod := pe_strtod (ke_plan env),
     env_format := JsonFormatter_Format (pe_fmt (ke_plan env))\<rparr>"

section \<open>One rule\<close>

record 'w run_state =
  rs_engine :: "'w engine"
  rs_json :: jobject
  rs_status :: status
  rs_hasError :: bool
  rs_evaluated :: nat

text \<open>A step of the loop gives \<open>False\<close> where \<open>main\<close> returns 1.\<close>

type_synonym 'w step = "bool \<times> 'w run_state"

text \<open>What every failed call is followed by.\<close>

definition step_error :: "bool \<Rightarrow> 'w run_state \<Rightarrow> 'w step" where
  "step_error continue s = (continue, s\<lparr>rs_hasError := True\<rparr>)"

definition add_result :: "bool \<Rightarrow> jobject result \<Rightarrow> status \<Rightarrow> 'w run_state \<Rightarrow> 'w step" where
  "add_result continue r st s =
     (case r of
        Inl e \<Rightarrow> step_error continue s
      | Inr json \<Rightarrow> (True, s\<lparr>rs_json := json, rs_status := CombineAllOf (rs_status s) st\<rparr>))"

definition audit_rule :: "'w kompli_env \<Rightarrow> bool \<Rightarrow> resource_rule \<Rightarrow> 'w run_state \<Rightarrow> 'w step" where
  "audit_rule env continue entry s =
     (let eng = json_engine env;
          payload = (case res_payload entry of Some p \<Rightarrow> p | None \<Rightarrow> ''{}'');
          (initResult, en) =
            (if hasInitAudit entry
             then MmiSet eng (Some (c_str (initPrefix @ res_ruleName entry))) payload (rs_engine s)
             else (Inr Compliant, rs_engine s))
      in case initResult of
           Inl e \<Rightarrow> step_error continue (s\<lparr>rs_engine := en\<rparr>)
         | Inr _ \<Rightarrow>
             (case MmiGet eng (Some (c_str (auditPrefix @ res_ruleName entry))) en of
                (Inl e, en) \<Rightarrow> step_error continue (s\<lparr>rs_engine := en\<rparr>)
              | (Inr (st, ind), en) \<Rightarrow>
                  add_result continue
                    (AddEntry (env_strtod eng) entry st ind (GetParameters (res_ruleName entry) en) Audit (rs_json s))
                    st (s\<lparr>rs_engine := en\<rparr>)))"

definition remediate_rule :: "'w kompli_env \<Rightarrow> bool \<Rightarrow> resource_rule \<Rightarrow> 'w run_state \<Rightarrow> 'w step" where
  "remediate_rule env continue entry s =
     (let eng = json_engine env;
          payload = (case res_payload entry of Some p \<Rightarrow> p | None \<Rightarrow> ''{}'')
      in case MmiSet eng (Some (c_str (remediatePrefix @ res_ruleName entry))) payload (rs_engine s) of
           (Inl e, en) \<Rightarrow> step_error continue (s\<lparr>rs_engine := en\<rparr>)
         | (Inr st, en) \<Rightarrow>
             add_result continue
               (AddEntry (env_strtod eng) entry st ''[]'' (GetParameters (res_ruleName entry) en) Remediate (rs_json s))
               st (s\<lparr>rs_engine := en\<rparr>))"

definition planned_procedure :: "'w kompli_env \<Rightarrow> resource_rule \<Rightarrow> plan_rule \<Rightarrow> string result" where
  "planned_procedure env entry r =
     (if pr_parameters r = [] then Inr (res_procedure entry)
      else ApplyParameterOverrides (pe_strtod (ke_plan env)) (pe_fmt (ke_plan env)) (res_procedure entry) (pr_parameters r))"

definition run_rule ::
  "'w kompli_env \<Rightarrow> bool \<Rightarrow> (string, plan_rule) omap \<Rightarrow> resource_rule \<Rightarrow> 'w run_state \<Rightarrow> 'w step" where
  "run_rule env continue rules entry s =
     (case om_find rules (res_id entry) of
        None \<Rightarrow>
          (case AddSkippedEntry entry [] (rs_json s) of
             Inl e \<Rightarrow> step_error continue s
           | Inr json \<Rightarrow> (True, s\<lparr>rs_json := json\<rparr>))
      | Some r \<Rightarrow>
          (case planned_procedure env entry r of
             Inl e \<Rightarrow> step_error continue s
           | Inr procedure \<Rightarrow>
               let s = (if pr_mode r \<noteq> ModeEnforce then s\<lparr>rs_evaluated := rs_evaluated s + 1\<rparr> else s) in
               (case MmiSet (json_engine env) (Some (c_str (procedurePrefix @ res_ruleName entry))) procedure (rs_engine s) of
                  (Inl e, en) \<Rightarrow> step_error continue (s\<lparr>rs_engine := en\<rparr>)
                | (Inr _, en) \<Rightarrow>
                    let s = s\<lparr>rs_engine := en\<rparr> in
                    (case pr_mode r of
                       ModeAudit \<Rightarrow> audit_rule env continue entry s
                     | ModeRemediate \<Rightarrow> remediate_rule env continue entry s
                     | ModeEnforce \<Rightarrow> step_error continue s))))"

section \<open>The loops\<close>

fun run_rules ::
  "'w kompli_env \<Rightarrow> bool \<Rightarrow> (string, plan_rule) omap \<Rightarrow> resource_rule list \<Rightarrow> 'w run_state \<Rightarrow> 'w step" where
  "run_rules env continue rules [] s = (True, s)"
| "run_rules env continue rules (entry # entries) s =
     (case run_rule env continue rules entry s of
        (False, s) \<Rightarrow> (False, s)
      | (True, s) \<Rightarrow> run_rules env continue rules entries s)"

fun run_benchmarks ::
  "'w kompli_env \<Rightarrow> bool \<Rightarrow> (plan_benchmark \<times> benchmark_document) list \<Rightarrow> 'w run_state \<Rightarrow> 'w step" where
  "run_benchmarks env continue [] s = (True, s)"
| "run_benchmarks env continue ((benchmark, document) # bds) s =
     (case run_rules env continue (pb_rules benchmark) (resources document) s of
        (False, s) \<Rightarrow> (False, s)
      | (True, s) \<Rightarrow> run_benchmarks env continue bds s)"

definition final_status :: "'w run_state \<Rightarrow> status" where
  "final_status s = (if rs_evaluated s = 0 then NotApplicable else rs_status s)"

text \<open>From the validated plan to the end of the program.\<close>

definition run_validated ::
  "'w kompli_env \<Rightarrow> bool \<Rightarrow> plan \<Rightarrow> benchmark_document list \<Rightarrow> DistributionInfo \<Rightarrow> 'w \<Rightarrow> run_outcome \<times> 'w" where
  "run_validated env continue plan documents di w =
     (case BenchmarkFormatter_Begin (ke_timestamp env) di of
        Inl e \<Rightarrow> (failure, w)
      | Inr json \<Rightarrow>
          (case run_benchmarks env continue (zip plan documents)
                  \<lparr>rs_engine = \<lparr>mDatabase = [], mContext = w\<rparr>, rs_json = json, rs_status = Compliant,
                   rs_hasError = False, rs_evaluated = 0\<rparr> of
             (False, s) \<Rightarrow> (failure, mContext (rs_engine s))
           | (True, s) \<Rightarrow>
               (case BenchmarkFormatter_Finish (pe_fmt (ke_plan env)) (ke_duration env) (final_status s) (rs_json s) of
                  Inl e \<Rightarrow> (failure, mContext (rs_engine s))
                | Inr out \<Rightarrow>
                    (\<lparr>exit_code = (if rs_hasError s then 1 else 0), printed = out @ [NL]\<rparr>, mContext (rs_engine s)))))"

text \<open>The loop that parses the definitions, with the identities seen so far.\<close>

fun load_documents ::
  "plan_env \<Rightarrow> (string \<times> BenchmarkInfo) list \<Rightarrow> plan \<Rightarrow> benchmark_document list result" where
  "load_documents env identities [] = Inr []"
| "load_documents env identities (b # bs) =
     and_then (parse_definition env (pb_file b)) (\<lambda>doc.
       let identities = identities @ [(pb_file b, doc_benchmarkInfo doc)] in
       unless_error (CheckUniqueBenchmarkIdentities identities)
         (and_then (load_documents env identities bs) (\<lambda>docs. Inr (doc # docs))))"

definition load_plan :: "plan_env \<Rightarrow> string \<Rightarrow> (plan \<times> benchmark_document list) result" where
  "load_plan env file =
     and_then (fst (ParsePlanFile (pe_strtod env) (pe_files env) file [])) (\<lambda>plan.
     unless_error (CheckUniqueBenchmarkFiles (pe_realpath env) (map pb_file plan))
     (and_then (load_documents env [] plan) (\<lambda>documents. Inr (plan, documents))))"

definition unsafe_log_file :: "plan_env \<Rightarrow> string option \<Rightarrow> bool" where
  "unsafe_log_file env log = (case log of None \<Rightarrow> False | Some f \<Rightarrow> f = [] \<or> RefuseUnsafeLogFile (fs_calls (pe_files env)) f)"

definition RunRun :: "'w kompli_env \<Rightarrow> Options \<Rightarrow> run_outcome \<times> 'w option" where
  "RunRun env o' =
     (case load_plan (ke_plan env) (opt_input o') of
        Inl e \<Rightarrow> (failure, None)
      | Inr (plan, documents) \<Rightarrow>
          if unsafe_log_file (ke_plan env) (logFile o') then (failure, None)
          else case ke_context env of
            Inl e \<Rightarrow> (failure, None)
          | Inr w \<Rightarrow>
              (case LoadDistributionInfo (ke_os_files env) (ke_uname env) (ke_override env) of
                 Inl e \<Rightarrow> (failure, Some w)
               | Inr di \<Rightarrow>
                   (case ValidatePlanForRun (pe_regex (ke_plan env)) plan documents di of
                      Some e \<Rightarrow> (failure, Some w)
                    | None \<Rightarrow> (case run_validated env (continueOnError o') plan documents di w of
                                (r, w) \<Rightarrow> (r, Some w)))))"

section \<open>The other commands\<close>

definition RunList :: "plan_env \<Rightarrow> Options \<Rightarrow> run_outcome" where
  "RunList env o' =
     (case parse_definition env (opt_input o') of
        Inl e \<Rightarrow> failure
      | Inr doc \<Rightarrow>
          \<lparr>exit_code = 0, printed = concat (map (\<lambda>r. res_id r @ [TAB] @ resourceID r @ [NL]) (resources doc))\<rparr>)"

text \<open>The plan goes to the file of \<open>--output\<close>, or to standard output. There is no outcome where the
  write never ends.\<close>

definition RunPlan :: "plan_env \<Rightarrow> output_calls \<Rightarrow> Options \<Rightarrow> output_state \<Rightarrow> (run_outcome \<times> output_state) option" where
  "RunPlan env out o' s =
     (case GeneratePlan env (inputs o') (toggles o') (paramOverrides o') of
        Inl e \<Rightarrow> Some (failure, s)
      | Inr plan \<Rightarrow>
          (case opt_output o' of
             None \<Rightarrow> Some (\<lparr>exit_code = 0, printed = plan\<rparr>, s)
           | Some path \<Rightarrow>
               (case WritePlanFile out path plan s of
                  None \<Rightarrow> None
                | Some (None, s) \<Rightarrow> Some (\<lparr>exit_code = 0, printed = []\<rparr>, s)
                | Some (Some e, s) \<Rightarrow> Some (failure, s))))"

end
