(* ===== verification/KompliProps.thy ===== *)
theory KompliProps
  imports Kompli EngineProps PlanProps
begin

text \<open>
  Properties of \<open>kompli run\<close>. The runner drives the engine by object names and keeps every rule in
  the engine's database; \<open>spec_rule\<close> says what a rule does without that database: its procedure
  is parsed, its parameters are updated, it is evaluated, and its result goes into the document.
  The runner refines it, so a rule is never influenced by the rules before it, whatever their
  names. From the specification follow: a run without remediation runs no remediation function,
  and a successful run reports every rule, in order, with the conjunction of the statuses.
\<close>

section \<open>The run without a database\<close>

record 'w run_view =
  rv_context :: 'w
  rv_json :: jobject
  rv_status :: status
  rv_hasError :: bool
  rv_evaluated :: nat

definition view :: "'w run_state \<Rightarrow> 'w run_view" where
  "view s = \<lparr>rv_context = mContext (rs_engine s), rv_json = rs_json s, rv_status = rs_status s,
     rv_hasError = rs_hasError s, rv_evaluated = rs_evaluated s\<rparr>"

lemma view_simps [simp]:
  "view (s\<lparr>rs_engine := en\<rparr>) = (view s)\<lparr>rv_context := mContext en\<rparr>"
  "view (s\<lparr>rs_json := j\<rparr>) = (view s)\<lparr>rv_json := j\<rparr>"
  "view (s\<lparr>rs_status := st\<rparr>) = (view s)\<lparr>rv_status := st\<rparr>"
  "view (s\<lparr>rs_hasError := b\<rparr>) = (view s)\<lparr>rv_hasError := b\<rparr>"
  "view (s\<lparr>rs_evaluated := n\<rparr>) = (view s)\<lparr>rv_evaluated := n\<rparr>"
  "rv_context (view s) = mContext (rs_engine s)" "rv_json (view s) = rs_json s"
  "rv_status (view s) = rs_status s" "rv_hasError (view s) = rs_hasError s" "rv_evaluated (view s) = rs_evaluated s"
  by (simp_all add: view_def)

text \<open>What the evaluation of a rule is: its status, the text of its indicators, and the effective
  parameters; the world may have changed.\<close>

type_synonym 'w judgement = "(status \<times> string \<times> parameter_map) result \<times> 'w"

definition rule_payload :: "resource_rule \<Rightarrow> string" where
  "rule_payload entry = (case res_payload entry of Some p \<Rightarrow> p | None \<Rightarrow> ''{}'')"

definition spec_audit :: "'w kompli_env \<Rightarrow> resource_rule \<Rightarrow> proc \<Rightarrow> 'w \<Rightarrow> 'w judgement" where
  "spec_audit env entry p w =
     (let eng = json_engine env;
          (e, p) = (if hasInitAudit entry then UpdateUserParameters (env_strtod eng) (rule_payload entry) p else (None, p))
      in case e of
           Some e \<Rightarrow> (Inl e, w)
         | None \<Rightarrow>
             (case ExecuteAudit (evaluator_for eng (proc_parameters p)) (res_ruleName entry) (proc_Audit p)
                     (env_format eng) w of
                (Inl e, it, w) \<Rightarrow> (Inl e, w)
              | (Inr (st, ind), it, w) \<Rightarrow> (Inr (st, ind, proc_parameters p), w)))"

definition spec_remediation :: "'w kompli_env \<Rightarrow> resource_rule \<Rightarrow> proc \<Rightarrow> 'w \<Rightarrow> 'w judgement" where
  "spec_remediation env entry p w =
     (let eng = json_engine env
      in case UpdateUserParameters (env_strtod eng) (rule_payload entry) p of
           (Some e, p) \<Rightarrow> (Inl e, w)
         | (None, p) \<Rightarrow>
             (case ExecuteRemediation (evaluator_for eng (proc_parameters p)) (res_ruleName entry)
                     (if proc_Remediation p = None then proc_Audit p else proc_Remediation p) w of
                (Inl e, it, w) \<Rightarrow> (Inl e, w)
              | (Inr st, it, w) \<Rightarrow> (Inr (st, ''[]'', proc_parameters p), w)))"

definition spec_error :: "bool \<Rightarrow> 'w run_view \<Rightarrow> bool \<times> 'w run_view" where
  "spec_error continue v = (continue, v\<lparr>rv_hasError := True\<rparr>)"

definition spec_result ::
  "'w kompli_env \<Rightarrow> bool \<Rightarrow> resource_rule \<Rightarrow> action \<Rightarrow> 'w judgement \<Rightarrow> 'w run_view \<Rightarrow> bool \<times> 'w run_view" where
  "spec_result env continue entry act j v =
     (let v = v\<lparr>rv_context := snd j\<rparr> in
      case fst j of
        Inl e \<Rightarrow> spec_error continue v
      | Inr (st, ind, ps) \<Rightarrow>
          (case AddEntry (pe_strtod (ke_plan env)) entry st ind ps act (rv_json v) of
             Inl e \<Rightarrow> spec_error continue v
           | Inr json \<Rightarrow> (True, v\<lparr>rv_json := json, rv_status := CombineAllOf (rv_status v) st\<rparr>)))"

text \<open>The procedure that a plan runs for a rule.\<close>

definition planned_proc :: "'w kompli_env \<Rightarrow> string \<Rightarrow> proc result" where
  "planned_proc env procedure = and_then (payload_rule (pe_strtod (ke_plan env)) procedure) build_procedure"

definition spec_rule ::
  "'w kompli_env \<Rightarrow> bool \<Rightarrow> (string, plan_rule) omap \<Rightarrow> resource_rule \<Rightarrow> 'w run_view \<Rightarrow> bool \<times> 'w run_view" where
  "spec_rule env continue rules entry v =
     (case om_find rules (res_id entry) of
        None \<Rightarrow>
          (case AddSkippedEntry entry [] (rv_json v) of
             Inl e \<Rightarrow> spec_error continue v
           | Inr json \<Rightarrow> (True, v\<lparr>rv_json := json\<rparr>))
      | Some r \<Rightarrow>
          (case planned_procedure env entry r of
             Inl e \<Rightarrow> spec_error continue v
           | Inr procedure \<Rightarrow>
               let v = (if pr_mode r \<noteq> ModeEnforce then v\<lparr>rv_evaluated := rv_evaluated v + 1\<rparr> else v) in
               (case planned_proc env procedure of
                  Inl e \<Rightarrow> spec_error continue v
                | Inr p \<Rightarrow>
                    (case pr_mode r of
                       ModeAudit \<Rightarrow> spec_result env continue entry Audit (spec_audit env entry p (rv_context v)) v
                     | ModeRemediate \<Rightarrow> spec_result env continue entry Remediate (spec_remediation env entry p (rv_context v)) v
                     | ModeEnforce \<Rightarrow> spec_error continue v))))"

fun spec_rules ::
  "'w kompli_env \<Rightarrow> bool \<Rightarrow> ((string, plan_rule) omap \<times> resource_rule) list \<Rightarrow> 'w run_view \<Rightarrow> bool \<times> 'w run_view" where
  "spec_rules env continue [] v = (True, v)"
| "spec_rules env continue ((rules, entry) # entries) v =
     (case spec_rule env continue rules entry v of
        (False, v) \<Rightarrow> (False, v)
      | (True, v) \<Rightarrow> spec_rules env continue entries v)"

text \<open>All rules of a run in order, each with the selection of its benchmark.\<close>

definition run_entries :: "(plan_benchmark \<times> benchmark_document) list \<Rightarrow> ((string, plan_rule) omap \<times> resource_rule) list" where
  "run_entries bds = concat (map (\<lambda>(b, d). map (Pair (pb_rules b)) (resources d)) bds)"

section \<open>Requests of the runner\<close>

abbreviation named :: "resource_rule \<Rightarrow> bool" where
  "named entry \<equiv> res_ruleName entry \<noteq> [] \<and> NUL \<notin> set (res_ruleName entry)"

lemma prefix_not_procedure:
  "\<not> starts_with ''procedure'' (''init'' @ n)" "\<not> starts_with ''procedure'' (''remediate'' @ n)"
  "\<not> starts_with ''init'' (''remediate'' @ n)"
  by (simp_all add: starts_with_ex)

lemma MmiSet_procedure:
  "MmiSet eng (Some (procedurePrefix @ n)) payload en =
     status_of_error (SetProcedure (env_strtod eng) n payload (mDatabase en)) en"
  by (simp add: MmiSet_def find_str_0)

lemma MmiSet_init:
  "MmiSet eng (Some (initPrefix @ n)) payload en =
     status_of_error (InitAudit (env_strtod eng) n payload (mDatabase en)) en"
  unfolding MmiSet_def by (simp add: find_str_0 prefix_not_procedure [simplified])

lemma MmiSet_remediate:
  "MmiSet eng (Some (remediatePrefix @ n)) payload en = Engine_ExecuteRemediation eng n payload en"
  unfolding MmiSet_def by (simp add: find_str_0 prefix_not_procedure [simplified])

lemma MmiGet_audit:
  assumes "n \<noteq> []" "om_find (mDatabase en) n = Some p" "proc_Audit p \<noteq> None"
  shows "MmiGet eng (Some (auditPrefix @ n)) en =
     (case ExecuteAudit (evaluator_for eng (proc_parameters p)) n (proc_Audit p) (env_format eng) (mContext en) of
        (r, it, w) \<Rightarrow> (r, en\<lparr>mContext := w\<rparr>))"
  using assms by (auto simp: MmiGet_def find_str_0)

text \<open>After the procedure of a rule has been set, its entry is in the database under its name, and
  the requests that follow find it there.\<close>

lemma set_procedure_refines:
  assumes "named entry"
  shows "MmiSet (json_engine env) (Some (c_str (procedurePrefix @ res_ruleName entry))) procedure en =
     (case planned_proc env procedure of
        Inl e \<Rightarrow> (Inl e, en\<lparr>mDatabase := om_erase (res_ruleName entry) (mDatabase en)\<rparr>)
      | Inr p \<Rightarrow> (Inr Compliant, en\<lparr>mDatabase := om_insert (res_ruleName entry) p (om_erase (res_ruleName entry) (mDatabase en))\<rparr>))"
  using assms
  by (auto simp: MmiSet_procedure [simplified] SetProcedure_unfold planned_proc_def json_engine_def status_of_error_def
      split: sum.splits)

lemma planned_proc_audit: "planned_proc env procedure = Inr p \<Longrightarrow> \<exists>ms. proc_Audit p = Some ms"
proof -
  assume "planned_proc env procedure = Inr p"
  then obtain v where v: "payload_rule (pe_strtod (ke_plan env)) procedure = Inr v" "build_procedure v = Inr p"
    by (auto simp: planned_proc_def and_then_Inr)
  obtain ms a r ps where "v = JObject ms" "payload_proc ms a r ps p"
    using build_procedure_Inr [OF v(2) payload_rule_ok [OF v(1)]] by blast
  then have "proc_ok p" using payload_proc_ok payload_rule_ok [OF v(1)] by blast
  then show ?thesis by (rule proc_ok_audit)
qed

lemma UpdateUserParameters_Audit:
  "UpdateUserParameters strtod payload p = (e, p') \<Longrightarrow> proc_Audit p' = proc_Audit p \<and> proc_Remediation p' = proc_Remediation p"
  using UpdateUserParameters_ok [of strtod payload p e p'] by (simp add: proc_Audit_def proc_Remediation_def)

text \<open>\<open>of_spec\<close> takes the runner's outcome to the view.\<close>

definition of_step :: "'w step \<Rightarrow> bool \<times> 'w run_view" where
  "of_step r = (fst r, view (snd r))"

lemma of_step_pair [simp]: "of_step (b, s) = (b, view s)"
  by (simp add: of_step_def)

lemma of_step_error: "of_step (step_error continue s) = spec_error continue (view s)"
  by (simp add: of_step_def step_error_def spec_error_def)

lemma of_step_add:
  "of_step (add_result continue (AddEntry (pe_strtod (ke_plan env)) entry st ind ps act (rs_json s)) st (s\<lparr>rs_engine := en\<rparr>)) =
     spec_result env continue entry act (Inr (st, ind, ps), mContext en) (view s)"
  by (auto simp: of_step_def add_result_def step_error_def spec_error_def spec_result_def Let_def split: sum.split)

lemma env_json_engine [simp]: "env_strtod (json_engine env) = pe_strtod (ke_plan env)"
  by (simp add: json_engine_def)

lemma audit_rule_refines:
  assumes n: "named entry" and db: "om_find (mDatabase (rs_engine s)) (res_ruleName entry) = Some p"
    and a: "proc_Audit p = Some ms"
  shows "of_step (audit_rule env continue entry s) =
     spec_result env continue entry Audit (spec_audit env entry p (mContext (rs_engine s))) (view s)"
proof -
  let ?n = "res_ruleName entry" and ?eng = "json_engine env" and ?db = "mDatabase (rs_engine s)"
  obtain e p' where u: "(if hasInitAudit entry then UpdateUserParameters (env_strtod ?eng) (rule_payload entry) p else (None, p)) = (e, p')"
    by (meson surj_pair)
  then have a': "proc_Audit p' = Some ms" using a UpdateUserParameters_Audit by (metis prod.inject)
  obtain en where en: "(if hasInitAudit entry then MmiSet ?eng (Some (c_str (initPrefix @ ?n))) (rule_payload entry) (rs_engine s)
        else (Inr Compliant, rs_engine s)) = ((case e of None \<Rightarrow> Inr Compliant | Some e \<Rightarrow> Inl e), en)"
      "mContext en = mContext (rs_engine s)" "om_find (mDatabase en) ?n = Some p'"
    using u n db by (cases "hasInitAudit entry")
      (auto simp: MmiSet_init [simplified] InitAudit_def status_of_error_def om_find_insert)
  show ?thesis
  proof (cases e)
    case (Some x)
    then show ?thesis
      using u en n of_step_error [of continue "s\<lparr>rs_engine := en\<rparr>"]
      by (simp add: audit_rule_def spec_audit_def rule_payload_def [symmetric] Let_def spec_result_def)
  next
    case None
    have g: "MmiGet ?eng (Some (auditPrefix @ ?n)) en =
       (case ExecuteAudit (evaluator_for ?eng (proc_parameters p')) ?n (proc_Audit p') (env_format ?eng) (mContext en) of
          (r, it, w) \<Rightarrow> (r, en\<lparr>mContext := w\<rparr>))"
      using MmiGet_audit [of ?n en p' ?eng] n en(3) a' by simp
    obtain r it w where r: "ExecuteAudit (evaluator_for ?eng (proc_parameters p')) ?n (proc_Audit p') (env_format ?eng) (mContext (rs_engine s)) = (r, it, w)"
      by (metis prod_cases3)
    show ?thesis
      using u en n r None of_step_error [of continue "s\<lparr>rs_engine := en\<lparr>mContext := w\<rparr>\<rparr>"]
        of_step_add [of continue env entry _ _ "proc_parameters p'" Audit s "en\<lparr>mContext := w\<rparr>"]
      by (cases r) (auto simp: audit_rule_def spec_audit_def rule_payload_def [symmetric] Let_def g [simplified] GetParameters_def,
         simp add: spec_result_def)
  qed
qed

lemma remediate_rule_refines:
  assumes n: "named entry" and db: "om_find (mDatabase (rs_engine s)) (res_ruleName entry) = Some p"
    and a: "proc_Audit p = Some ms"
  shows "of_step (remediate_rule env continue entry s) =
     spec_result env continue entry Remediate (spec_remediation env entry p (mContext (rs_engine s))) (view s)"
proof -
  let ?n = "res_ruleName entry" and ?eng = "json_engine env" and ?en = "rs_engine s"
  let ?ob = "if proc_Remediation p = None then proc_Audit p else proc_Remediation p"
  obtain e p' where u: "UpdateUserParameters (env_strtod ?eng) (rule_payload entry) p = (e, p')"
    by (meson surj_pair)
  have p': "proc_Audit p' = Some ms" "proc_Remediation p' = proc_Remediation p"
    using a UpdateUserParameters_Audit [OF u] by simp_all
  obtain r it w where r: "ExecuteRemediation (evaluator_for ?eng (proc_parameters p')) ?n ?ob (mContext ?en) = (r, it, w)"
    by (metis prod_cases3)
  obtain rm where rm: "?ob = Some rm" using a by (cases "proc_Remediation p") auto
  let ?en' = "?en\<lparr>mDatabase := om_insert ?n p' (mDatabase ?en)\<rparr>"
  have set: "MmiSet ?eng (Some (remediatePrefix @ ?n)) (rule_payload entry) ?en =
      (case e of Some x \<Rightarrow> (Inl x, ?en') | None \<Rightarrow> (r, ?en'\<lparr>mContext := w\<rparr>))"
    using u r rm n db a
    by (cases "proc_Remediation p") (auto simp: MmiSet_remediate [simplified] Engine_ExecuteRemediation_def split: option.split)
  have spec: "spec_remediation env entry p (mContext ?en) =
      (case e of
         Some x \<Rightarrow> (Inl x, mContext ?en)
       | None \<Rightarrow> (case r of Inl x \<Rightarrow> (Inl x, w) | Inr st \<Rightarrow> (Inr (st, ''[]'', proc_parameters p'), w)))"
    using r u p' a by (cases r; cases "proc_Remediation p") (simp_all add: spec_remediation_def Let_def split: option.split)
  show ?thesis
  proof (cases e)
    case (Some x)
    then show ?thesis
      using spec set n of_step_error [of continue "s\<lparr>rs_engine := ?en'\<rparr>"]
      by (simp add: remediate_rule_def rule_payload_def [symmetric] Let_def spec_result_def)
  next
    case None
    show ?thesis
      using n None of_step_error [of continue "s\<lparr>rs_engine := ?en'\<lparr>mContext := w\<rparr>\<rparr>"]
        of_step_add [of continue env entry _ _ "proc_parameters p'" Remediate s "?en'\<lparr>mContext := w\<rparr>"]
      by (cases r) (auto simp: remediate_rule_def rule_payload_def [symmetric] Let_def set [simplified] spec
          GetParameters_def om_find_insert, simp add: spec_result_def)
  qed
qed

lemma spec_result_context [simp]:
  "spec_result env continue entry act j (v\<lparr>rv_context := x\<rparr>) = spec_result env continue entry act j v"
  by (simp add: spec_result_def)

lemma view_same_context [simp]: "(view s)\<lparr>rv_context := mContext (rs_engine s)\<rparr> = view s"
  by (simp add: view_def)

lemma run_rule_refines:
  assumes "named entry"
  shows "of_step (run_rule env continue rules entry s) = spec_rule env continue rules entry (view s)"
proof (cases "om_find rules (res_id entry)")
  case None
  then show ?thesis
    by (auto simp: run_rule_def spec_rule_def of_step_error split: sum.split)
next
  case (Some r)
  show ?thesis
  proof (cases "planned_procedure env entry r")
    case (Inl e)
    then show ?thesis using Some by (simp add: run_rule_def spec_rule_def of_step_error)
  next
    case (Inr procedure)
    let ?s = "if pr_mode r \<noteq> ModeEnforce then s\<lparr>rs_evaluated := rs_evaluated s + 1\<rparr> else s"
    let ?v = "if pr_mode r \<noteq> ModeEnforce then (view s)\<lparr>rv_evaluated := rv_evaluated (view s) + 1\<rparr> else view s"
    have v: "view ?s = ?v" by simp
    have en: "rs_engine ?s = rs_engine s" by simp
    note set = set_procedure_refines [OF assms, of env procedure "rs_engine s"]
    show ?thesis
    proof (cases "planned_proc env procedure")
      case (Inl e)
      then show ?thesis
        using Some Inr set by (simp add: run_rule_def spec_rule_def Let_def of_step_error spec_error_def)
    next
      case p: (Inr p)
      then obtain ms where ms: "proc_Audit p = Some ms" using planned_proc_audit by blast
      let ?en = "(rs_engine s)\<lparr>mDatabase := om_insert (res_ruleName entry) p (om_erase (res_ruleName entry) (mDatabase (rs_engine s)))\<rparr>"
      let ?s' = "?s\<lparr>rs_engine := ?en\<rparr>"
      have find: "om_find (mDatabase (rs_engine ?s')) (res_ruleName entry) = Some p" by (simp add: om_find_insert)
      show ?thesis
        using Some Inr set p audit_rule_refines [OF assms find ms, of env continue]
          remediate_rule_refines [OF assms find ms, of env continue]
        by (cases "pr_mode r") (simp_all add: run_rule_def spec_rule_def Let_def of_step_error spec_error_def)
    qed
  qed
qed

section \<open>The run as a whole\<close>

lemma run_rules_refines:
  "\<forall>entry\<in>set entries. named entry \<Longrightarrow>
     of_step (run_rules env continue rules entries s) = spec_rules env continue (map (Pair rules) entries) (view s)"
proof (induction entries arbitrary: s)
  case Nil
  then show ?case by simp
next
  case (Cons entry entries)
  obtain b s' where r: "run_rule env continue rules entry s = (b, s')" by (meson surj_pair)
  then have "spec_rule env continue rules entry (view s) = (b, view s')"
    using run_rule_refines [of entry env continue rules s] Cons.prems by simp
  then show ?case using Cons r by (cases b) simp_all
qed

lemma spec_rules_append:
  "spec_rules env continue (xs @ ys) v =
     (case spec_rules env continue xs v of (False, v) \<Rightarrow> (False, v) | (True, v) \<Rightarrow> spec_rules env continue ys v)"
  by (induction env continue xs v rule: spec_rules.induct) (auto split: prod.split bool.split)

lemma run_benchmarks_refines:
  "\<forall>(b, d)\<in>set bds. \<forall>entry\<in>set (resources d). named entry \<Longrightarrow>
     of_step (run_benchmarks env continue bds s) = spec_rules env continue (run_entries bds) (view s)"
proof (induction bds arbitrary: s)
  case Nil
  then show ?case by (simp add: run_entries_def)
next
  case (Cons bd bds)
  obtain benchmark document where bd: "bd = (benchmark, document)" by (cases bd)
  obtain b s' where r: "run_rules env continue (pb_rules benchmark) (resources document) s = (b, s')" by (meson surj_pair)
  then have "spec_rules env continue (map (Pair (pb_rules benchmark)) (resources document)) (view s) = (b, view s')"
    using run_rules_refines [of "resources document" env continue "pb_rules benchmark" s] Cons.prems bd by simp
  then show ?case
    using Cons r bd by (cases b) (simp_all add: run_entries_def spec_rules_append)
qed

definition spec_status :: "'w run_view \<Rightarrow> status" where
  "spec_status v = (if rv_evaluated v = 0 then NotApplicable else rv_status v)"

text \<open>The run of a validated plan, over the view.\<close>

definition spec_run ::
  "'w kompli_env \<Rightarrow> bool \<Rightarrow> ((string, plan_rule) omap \<times> resource_rule) list \<Rightarrow> DistributionInfo \<Rightarrow> 'w \<Rightarrow> run_outcome \<times> 'w" where
  "spec_run env continue entries di w =
     (case BenchmarkFormatter_Begin (ke_timestamp env) di of
        Inl e \<Rightarrow> (failure, w)
      | Inr json \<Rightarrow>
          (case spec_rules env continue entries
                  \<lparr>rv_context = w, rv_json = json, rv_status = Compliant, rv_hasError = False, rv_evaluated = 0\<rparr> of
             (False, v) \<Rightarrow> (failure, rv_context v)
           | (True, v) \<Rightarrow>
               (case BenchmarkFormatter_Finish (pe_fmt (ke_plan env)) (ke_duration env) (spec_status v) (rv_json v) of
                  Inl e \<Rightarrow> (failure, rv_context v)
                | Inr out \<Rightarrow> (\<lparr>exit_code = (if rv_hasError v then 1 else 0), printed = out @ [NL]\<rparr>, rv_context v))))"

lemma rule_ok_named: "rule_ok fmt info entry \<Longrightarrow> named entry"
  by (simp add: rule_ok_def)

lemma document_named: "document_ok fmt d \<Longrightarrow> \<forall>entry\<in>set (resources d). named entry"
  using rule_ok_named by (fastforce simp: document_ok_def)

lemma run_refines:
  assumes "\<forall>d\<in>set documents. document_ok fmt d"
  shows "run_validated env continue plan documents di w = spec_run env continue (run_entries (zip plan documents)) di w"
proof (cases "BenchmarkFormatter_Begin (ke_timestamp env) di")
  case (Inl e)
  then show ?thesis by (simp add: run_validated_def spec_run_def)
next
  case (Inr json)
  let ?s = "\<lparr>rs_engine = \<lparr>mDatabase = [], mContext = w\<rparr>, rs_json = json, rs_status = Compliant,
      rs_hasError = False, rs_evaluated = 0\<rparr>"
  obtain b s where r: "run_benchmarks env continue (zip plan documents) ?s = (b, s)" by (meson surj_pair)
  have "\<forall>(b, d)\<in>set (zip plan documents). \<forall>entry\<in>set (resources d). named entry"
    using assms document_named by (blast dest: set_zip_rightD)
  from run_benchmarks_refines [OF this, of env continue ?s]
  have spec: "spec_rules env continue (run_entries (zip plan documents))
      \<lparr>rv_context = w, rv_json = json, rv_status = Compliant, rv_hasError = False, rv_evaluated = 0\<rparr> = (b, view s)"
    by (simp add: r view_def)
  show ?thesis
    using Inr r spec
    by (cases b) (auto simp: run_validated_def spec_run_def final_status_def spec_status_def split: sum.split)
qed

section \<open>Runs without remediation\<close>

text \<open>Two worlds that agree on all that an audit may call.\<close>

definition same_audits_env :: "'w kompli_env \<Rightarrow> 'w kompli_env \<Rightarrow> bool" where
  "same_audits_env env env' \<longleftrightarrow>
     (\<exists>procs lua. env' = env\<lparr>ke_engine := (ke_engine env)\<lparr>env_procedures := procs, env_lua := lua\<rparr>\<rparr>
        \<and> (\<forall>script. lua script Audit = env_lua (ke_engine env) script Audit)
        \<and> (\<forall>name. map_option audit_fn (procs name) = map_option audit_fn (env_procedures (ke_engine env) name)))"

lemma same_audits_spec:
  assumes "same_audits_env env env'"
  shows "spec_audit env entry p w = spec_audit env' entry p w"
proof -
  have sa: "same_audits (evaluator_for (json_engine env) ps) (evaluator_for (json_engine env') ps)" for ps
    using assms by (auto simp: same_audits_env_def same_audits_def evaluator_for_def json_engine_def)
  have f: "env_format (json_engine env) = env_format (json_engine env')"
    and k: "env_strtod (json_engine env') = env_strtod (json_engine env)"
    using assms by (auto simp: same_audits_env_def json_engine_def)
  have "ExecuteAudit (evaluator_for (json_engine env) ps) n ob (env_format (json_engine env)) w
      = ExecuteAudit (evaluator_for (json_engine env') ps) n ob (env_format (json_engine env')) w" for ps n ob w
    unfolding ExecuteAudit_def f same_audits_evaluation(1) [OF sa refl] by (rule refl)
  then show ?thesis unfolding spec_audit_def Let_def k by (simp only:)
qed

definition never_remediates :: "((string, plan_rule) omap \<times> resource_rule) list \<Rightarrow> bool" where
  "never_remediates entries \<longleftrightarrow>
     (\<forall>(rules, entry)\<in>set entries. \<forall>r. om_find rules (res_id entry) = Some r \<longrightarrow> pr_mode r \<noteq> ModeRemediate)"

lemma spec_rules_same_audits:
  "same_audits_env env env' \<Longrightarrow> never_remediates entries \<Longrightarrow>
     spec_rules env continue entries v = spec_rules env' continue entries v"
proof (induction entries arbitrary: v)
  case Nil
  then show ?case by simp
next
  case (Cons re entries)
  obtain rules entry where re: "re = (rules, entry)" by (cases re)
  have k: "ke_plan env' = ke_plan env" using Cons.prems(1) by (auto simp: same_audits_env_def)
  have "planned_procedure env' = planned_procedure env" "planned_proc env' = planned_proc env"
      "spec_result env' = spec_result env" "spec_audit env' = spec_audit env"
    by (intro ext, unfold planned_procedure_def planned_proc_def spec_result_def k same_audits_spec [OF Cons.prems(1)])
      (rule refl)+
  moreover have "om_find rules (res_id entry) = Some r \<Longrightarrow> pr_mode r \<noteq> ModeRemediate" for r
    using Cons.prems(2) re by (auto simp: never_remediates_def)
  ultimately have "spec_rule env continue rules entry v = spec_rule env' continue rules entry v"
    unfolding spec_rule_def
    by (simp only:) (auto split: option.split sum.split ToggleMode.split simp: Let_def)
  then show ?case using Cons re by (auto simp: never_remediates_def split: prod.split bool.split)
qed

lemma spec_run_same_audits:
  assumes "same_audits_env env env'" "never_remediates entries"
  shows "spec_run env continue entries di w = spec_run env' continue entries di w"
proof -
  have "ke_plan env' = ke_plan env" "ke_timestamp env' = ke_timestamp env" "ke_duration env' = ke_duration env"
    using assms(1) by (auto simp: same_audits_env_def)
  then show ?thesis unfolding spec_run_def spec_rules_same_audits [OF assms] by (simp only:)
qed

section \<open>The report\<close>

text \<open>The rules of a run judged in order, each in the world its predecessors left. A rule that is
  not in the plan is skipped.\<close>

inductive judged ::
  "'w kompli_env \<Rightarrow> ((string, plan_rule) omap \<times> resource_rule) list \<Rightarrow> 'w
   \<Rightarrow> (status \<times> string \<times> parameter_map) option list \<Rightarrow> 'w \<Rightarrow> bool" for env where
  judged_nil: "judged env [] w [] w"
| judged_skip: "om_find rules (res_id entry) = None \<Longrightarrow> judged env entries w outs w'
    \<Longrightarrow> judged env ((rules, entry) # entries) w (None # outs) w'"
| judged_audit: "om_find rules (res_id entry) = Some r \<Longrightarrow> pr_mode r = ModeAudit
    \<Longrightarrow> planned_procedure env entry r = Inr procedure \<Longrightarrow> planned_proc env procedure = Inr p
    \<Longrightarrow> spec_audit env entry p w = (Inr out, w1) \<Longrightarrow> judged env entries w1 outs w'
    \<Longrightarrow> judged env ((rules, entry) # entries) w (Some out # outs) w'"
| judged_remediation: "om_find rules (res_id entry) = Some r \<Longrightarrow> pr_mode r = ModeRemediate
    \<Longrightarrow> planned_procedure env entry r = Inr procedure \<Longrightarrow> planned_proc env procedure = Inr p
    \<Longrightarrow> spec_remediation env entry p w = (Inr out, w1) \<Longrightarrow> judged env entries w1 outs w'
    \<Longrightarrow> judged env ((rules, entry) # entries) w (Some out # outs) w'"

inductive_cases judged_NilE: "judged env [] w outs w'"
inductive_cases judged_ConsE: "judged env ((rules, entry) # entries) w outs w'"

text \<open>What the document says of a rule.\<close>

definition reports ::
  "strtod_fun \<Rightarrow> (string, plan_rule) omap \<times> resource_rule \<Rightarrow> (status \<times> string \<times> parameter_map) option \<Rightarrow> json \<Rightarrow> bool" where
  "reports strtod re out v \<longleftrightarrow>
     (\<exists>ms. v = JObject ms \<and> map_of ms ''id'' = Some (JString (res_id (snd re)))
        \<and> (case out of
             None \<Rightarrow> map_of ms ''status'' = Some (JString ''Skipped'') \<and> map_of ms ''action'' = None
               \<and> map_of ms ''indicators'' = Some (JArray [])
           | Some (st, ind, ps) \<Rightarrow>
               map_of ms ''status'' = Some (JString (status_to_string st))
               \<and> map_of ms ''action'' = Some (JString (case om_find (fst re) (res_id (snd re)) of
                    Some r \<Rightarrow> if pr_mode r = ModeRemediate then ''Remediation'' else ''Audit''
                  | None \<Rightarrow> []))
               \<and> map_of ms ''indicators'' = json_parse_string strtod (c_str ind)))"

definition statuses :: "(status \<times> string \<times> parameter_map) option list \<Rightarrow> status list" where
  "statuses outs = map fst (List.map_filter id outs)"

lemma statuses_simps [simp]:
  "statuses [] = []" "statuses (None # outs) = statuses outs" "statuses (Some out # outs) = fst out # statuses outs"
  by (simp_all add: statuses_def map_filter_simps)

text \<open>The rules of the document under construction.\<close>

definition rules_of :: "jobject \<Rightarrow> json list option" where
  "rules_of ob = json_object_get_array (Some ob) ''rules''"

lemma rules_of_iff: "rules_of ob = Some vs \<longleftrightarrow> map_of ob ''rules'' = Some (JArray vs)"
  by (auto simp: rules_of_def json_object_get_array_def split: option.splits json.splits)

lemma AppendRuleJson_Inr:
  "AppendRuleJson rule ob = Inr ob' \<longleftrightarrow>
     (\<exists>vs. rules_of ob = Some vs \<and> ob' = replace_member ob ''rules'' (JArray (vs @ [rule])))"
  by (auto simp: AppendRuleJson_def rules_of_def split: option.splits)

lemma AppendRuleJson_rules:
  "AppendRuleJson rule ob = Inr ob' \<Longrightarrow> \<exists>vs. rules_of ob = Some vs \<and> rules_of ob' = Some (vs @ [rule])"
  by (auto simp: AppendRuleJson_Inr rules_of_iff replace_member_map_of)

lemma BuildRuleResultJson_reports:
  assumes "BuildRuleResultJson strtod entry st ind ps act = Inr v" "NUL \<notin> set (res_id entry)"
    and "om_find rules (res_id entry) = Some r" "act = (if pr_mode r = ModeRemediate then Remediate else Audit)"
  shows "reports strtod (rules, entry) (Some (st, ind, ps)) v"
proof -
  obtain vs ob1 ob2 ob3 ob4 where p: "json_parse_string strtod (c_str ind) = Some (JArray vs)"
    and o1: "set_value ''Failed to set JSON payload'' [] ''indicators'' (JArray vs) = Inr ob1"
    and o2: "set_string ''Failed to set JSON status'' ENOMEM ob1 ''status'' (status_to_string st) = Inr ob2"
    and o3: "set_string ''Failed to set JSON action'' ENOMEM ob2 ''action'' (if act = Audit then ''Audit'' else ''Remediation'') = Inr ob3"
    and o4: "FillCommonRuleFields ob3 entry ps = Inr ob4" and v: "v = JObject ob4"
    using assms(1) by (auto simp: BuildRuleResultJson_def result_simps split: option.splits json.splits)
  have nul: "NUL \<notin> set (status_to_string st)" by (cases st) simp_all
  show ?thesis
    using set_value_Inr [OF o1] set_string_Inr [OF o2] set_string_Inr [OF o3] FillCommonRuleFields_Inr [OF o4 assms(2)] p nul assms(3,4)
    by (auto simp: reports_def v)
qed

lemma BuildSkippedRuleResultJson_reports:
  assumes "BuildSkippedRuleResultJson entry ps = Inr v" "NUL \<notin> set (res_id entry)"
  shows "reports strtod (rules, entry) None v"
proof -
  obtain ob1 ob2 ob3 where o1: "set_value ''Failed to set JSON payload'' [] ''indicators'' (JArray []) = Inr ob1"
    and o2: "set_string ''Failed to set JSON status'' ENOMEM ob1 ''status'' ''Skipped'' = Inr ob2"
    and o3: "FillCommonRuleFields ob2 entry ps = Inr ob3" and v: "v = JObject ob3"
    using assms(1) by (auto simp: BuildSkippedRuleResultJson_def result_simps)
  show ?thesis
    using set_value_Inr [OF o1] set_string_Inr [OF o2] FillCommonRuleFields_Inr [OF o3 assms(2)]
    by (auto simp: reports_def v)
qed

text \<open>A step that succeeds adds one report.\<close>

lemma spec_result_Inr:
  assumes "spec_result env continue entry act j v = (True, v')" "\<not> rv_hasError v'"
  shows "\<exists>st ind ps json. fst j = Inr (st, ind, ps)
     \<and> AddEntry (pe_strtod (ke_plan env)) entry st ind ps act (rv_json v) = Inr json
     \<and> v' = v\<lparr>rv_context := snd j, rv_json := json, rv_status := CombineAllOf (rv_status v) st\<rparr>"
  using assms by (auto simp: spec_result_def spec_error_def Let_def split: sum.splits)

lemma AddEntry_reports:
  assumes "AddEntry strtod entry st ind ps act ob = Inr ob'" "NUL \<notin> set (res_id entry)"
    and "om_find rules (res_id entry) = Some r" "act = (if pr_mode r = ModeRemediate then Remediate else Audit)"
  shows "\<exists>vs x. rules_of ob = Some vs \<and> rules_of ob' = Some (vs @ [x]) \<and> reports strtod (rules, entry) (Some (st, ind, ps)) x"
  using assms AppendRuleJson_rules BuildRuleResultJson_reports [OF _ assms(2-4)]
  by (fastforce simp: AddEntry_def and_then_Inr)

definition reported :: "'w kompli_env \<Rightarrow> ((string, plan_rule) omap \<times> resource_rule) list
    \<Rightarrow> (status \<times> string \<times> parameter_map) option list \<Rightarrow> 'w run_view \<Rightarrow> 'w run_view \<Rightarrow> bool" where
  "reported env entries outs v v' \<longleftrightarrow>
     judged env entries (rv_context v) outs (rv_context v')
     \<and> (\<exists>vs xs. rules_of (rv_json v) = Some vs \<and> rules_of (rv_json v') = Some (vs @ xs)
          \<and> length entries = length outs \<and> length xs = length outs
          \<and> (\<forall>i<length outs. reports (pe_strtod (ke_plan env)) (entries ! i) (outs ! i) (xs ! i)))
     \<and> rv_status v' = fold CombineAllOf (statuses outs) (rv_status v)
     \<and> rv_evaluated v' = rv_evaluated v + length (statuses outs)"

lemma CombineAllOf_commute: "CombineAllOf a b = CombineAllOf b a"
  by (auto simp: CombineAllOf_def)

lemma spec_rule_reported:
  assumes r: "spec_rule env continue rules entry v = (True, v')" and ok: "\<not> rv_hasError v'"
    and nul: "NUL \<notin> set (res_id entry)"
  shows "\<not> rv_hasError v \<and> (\<exists>out. reported env [(rules, entry)] [out] v v')"
proof (cases "om_find rules (res_id entry)")
  case None
  then obtain json where s: "AddSkippedEntry entry [] (rv_json v) = Inr json" and v': "v' = v\<lparr>rv_json := json\<rparr>"
    using r ok by (auto simp: spec_rule_def spec_error_def split: sum.splits)
  obtain x vs where "reports (pe_strtod (ke_plan env)) (rules, entry) None x"
      "rules_of (rv_json v) = Some vs" "rules_of json = Some (vs @ [x])"
    using s BuildSkippedRuleResultJson_reports [OF _ nul, of "[]"] AppendRuleJson_rules
    by (fastforce simp: AddSkippedEntry_def and_then_Inr)
  then have "reported env [(rules, entry)] [None] v v'"
    by (auto simp: reported_def v' intro!: judged_skip [OF None] judged_nil)
  then show ?thesis using ok v' by auto
next
  case (Some m)
  obtain procedure where pr: "planned_procedure env entry m = Inr procedure"
    using r ok Some by (auto simp: spec_rule_def spec_error_def split: sum.splits)
  obtain p where p: "planned_proc env procedure = Inr p"
    using r ok Some pr by (auto simp: spec_rule_def spec_error_def Let_def split: sum.splits if_splits)
  have mode: "pr_mode m \<noteq> ModeEnforce"
    using r ok Some pr p by (auto simp: spec_rule_def spec_error_def Let_def)
  let ?v = "v\<lparr>rv_evaluated := rv_evaluated v + 1\<rparr>"
  let ?act = "if pr_mode m = ModeRemediate then Remediate else Audit"
  let ?j = "if pr_mode m = ModeRemediate then spec_remediation env entry p (rv_context v) else spec_audit env entry p (rv_context v)"
  have "spec_result env continue entry ?act ?j ?v = (True, v')"
    using r Some pr p mode by (cases "pr_mode m") (simp_all add: spec_rule_def Let_def)
  from spec_result_Inr [OF this ok] obtain st ind ps json where j: "fst ?j = Inr (st, ind, ps)"
    and e: "AddEntry (pe_strtod (ke_plan env)) entry st ind ps ?act (rv_json v) = Inr json"
    and v': "v' = ?v\<lparr>rv_context := snd ?j, rv_json := json, rv_status := CombineAllOf (rv_status v) st\<rparr>"
    by auto
  obtain w1 where w1: "?j = (Inr (st, ind, ps), w1)" using j by (cases ?j) simp
  have "judged env [(rules, entry)] (rv_context v) [Some (st, ind, ps)] w1"
    using w1 mode
    by (cases "pr_mode m") (auto intro: judged_audit [OF Some _ pr p _ judged_nil] judged_remediation [OF Some _ pr p _ judged_nil])
  then have "reported env [(rules, entry)] [Some (st, ind, ps)] v v'"
    using AddEntry_reports [OF e nul Some refl]
    by (auto simp: reported_def v' w1 CombineAllOf_commute)
  then show ?thesis using ok v' by auto
qed

lemma judged_Cons:
  assumes "judged env [re] w [out] w1" "judged env entries w1 outs w'"
  shows "judged env (re # entries) w (out # outs) w'"
  using assms by (cases re) (auto elim!: judged_ConsE judged_NilE intro: judged.intros)

lemma reported_Cons:
  assumes "reported env [re] [out] v v1" "reported env entries outs v1 v'"
  shows "reported env (re # entries) (out # outs) v v'"
proof -
  obtain vs x where x: "rules_of (rv_json v) = Some vs" "rules_of (rv_json v1) = Some (vs @ [x])"
      "reports (pe_strtod (ke_plan env)) re out x"
    using assms(1) by (auto simp: reported_def length_Suc_conv)
  obtain xs where xs: "rules_of (rv_json v') = Some ((vs @ [x]) @ xs)" "length entries = length outs" "length xs = length outs"
      "\<forall>i<length outs. reports (pe_strtod (ke_plan env)) (entries ! i) (outs ! i) (xs ! i)"
    using assms(2) x(2) by (auto simp: reported_def)
  have "\<forall>i<length (out # outs). reports (pe_strtod (ke_plan env)) ((re # entries) ! i) ((out # outs) ! i) ((x # xs) ! i)"
    using x(3) xs(4) by (auto simp: nth_Cons split: nat.split)
  moreover have "rules_of (rv_json v') = Some (vs @ (x # xs))" using xs(1) by simp
  moreover have "judged env (re # entries) (rv_context v) (out # outs) (rv_context v')"
    by (rule judged_Cons [of _ _ _ _ "rv_context v1"]) (use assms in \<open>simp_all add: reported_def\<close>)
  moreover have "rv_status v' = fold CombineAllOf (statuses (out # outs)) (rv_status v)
      \<and> rv_evaluated v' = rv_evaluated v + length (statuses (out # outs))"
    using assms by (cases out) (simp_all add: reported_def)
  moreover have "length (x # xs) = length (out # outs)" "length (re # entries) = length (out # outs)" using xs(2,3) by simp_all
  ultimately show ?thesis using x(1) unfolding reported_def by blast
qed

text \<open>An error is never forgotten.\<close>

lemma spec_error_mono: "spec_error continue v = (b, v') \<Longrightarrow> rv_hasError v'"
  by (auto simp: spec_error_def)

lemma spec_result_mono: "spec_result env continue entry act j v = (b, v') \<Longrightarrow> rv_hasError v \<Longrightarrow> rv_hasError v'"
  by (auto simp: spec_result_def Let_def dest: spec_error_mono split: sum.splits)

lemma spec_rule_mono: "spec_rule env continue rules entry v = (b, v') \<Longrightarrow> rv_hasError v \<Longrightarrow> rv_hasError v'"
  unfolding spec_rule_def Let_def
  by (auto dest: spec_error_mono spec_result_mono split: option.splits sum.splits ToggleMode.splits if_splits)

lemma spec_rules_mono: "spec_rules env continue entries v = (b, v') \<Longrightarrow> rv_hasError v \<Longrightarrow> rv_hasError v'"
proof (induction entries arbitrary: v)
  case Nil
  then show ?case by simp
next
  case (Cons re entries)
  then show ?case using spec_rule_mono by (cases re) (fastforce split: prod.splits bool.splits)
qed

lemma spec_rules_reported:
  assumes "spec_rules env continue entries v = (True, v')" "\<not> rv_hasError v'"
    and "\<forall>(rules, entry)\<in>set entries. NUL \<notin> set (res_id entry)" "rules_of (rv_json v) = Some vs"
  shows "\<not> rv_hasError v \<and> (\<exists>outs. reported env entries outs v v')"
  using assms
proof (induction entries arbitrary: v vs)
  case Nil
  then show ?case by (auto simp: reported_def intro!: exI [of _ "[]"] judged_nil)
next
  case (Cons re entries)
  obtain rules entry where re: "re = (rules, entry)" by (cases re)
  obtain v1 where r: "spec_rule env continue rules entry v = (True, v1)" "spec_rules env continue entries v1 = (True, v')"
    using Cons.prems(1) re by (auto split: prod.splits bool.splits)
  have ok: "\<not> rv_hasError v1" using spec_rules_mono [OF r(2)] Cons.prems(2) by blast
  obtain out where v: "\<not> rv_hasError v" and out: "reported env [re] [out] v v1"
    using spec_rule_reported [OF r(1) ok] Cons.prems(3) re by auto
  then obtain vs' where "rules_of (rv_json v1) = Some vs'" by (auto simp: reported_def)
  then obtain outs where "reported env entries outs v1 v'"
    using Cons.IH [OF r(2) Cons.prems(2)] Cons.prems(3) by auto
  then show ?case using v reported_Cons [OF out] by blast
qed

text \<open>The overall status: NonCompliant dominates, then NotApplicable; a run that judged nothing is
  not applicable.\<close>

definition overall :: "status list \<Rightarrow> status" where
  "overall sts =
     (if NonCompliant \<in> set sts then NonCompliant
      else if NotApplicable \<in> set sts \<or> sts = [] then NotApplicable
      else Compliant)"

lemma fold_CombineAllOf:
  "fold CombineAllOf sts st =
     (if NonCompliant \<in> insert st (set sts) then NonCompliant
      else if NotApplicable \<in> insert st (set sts) then NotApplicable else Compliant)"
proof (induction sts arbitrary: st)
  case Nil
  then show ?case by (cases st) simp_all
next
  case (Cons a sts)
  then show ?case by (cases st; cases a) (simp_all add: CombineAllOf_def)
qed

lemma Begin_rules: "BenchmarkFormatter_Begin ts di = Inr ob \<Longrightarrow> rules_of ob = Some []"
  by (auto simp: BenchmarkFormatter_Begin_def result_simps rules_of_iff set_value_Inr)

lemma Finish_document:
  assumes "BenchmarkFormatter_Finish fmt dur st ob = Inr out"
  shows "\<exists>doc. out = json_serialize_to_string_pretty fmt (JObject doc) \<and> rules_of doc = rules_of ob
     \<and> map_of doc ''status'' = Some (JString (status_to_string st))"
proof -
  obtain ob1 ob2 where o1: "json_object_set_number ob ''durationMs'' dur = Some ob1"
    and o2: "set_string ''Failed to set JSON status'' ENOMEM ob1 ''status'' (status_to_string st) = Inr ob2"
    and out: "out = json_serialize_to_string_pretty fmt (JObject ob2)"
    using assms by (auto simp: BenchmarkFormatter_Finish_def result_simps)
  have "map_of ob1 ''rules'' = map_of ob ''rules''"
    using o1 by (auto simp: json_object_set_number_def set_value_map_of split: option.splits)
  then have "map_of ob2 ''rules'' = map_of ob ''rules''" using set_string_Inr [OF o2] by simp
  moreover have "NUL \<notin> set (status_to_string st)" by (cases st) simp_all
  then have "map_of ob2 ''status'' = Some (JString (status_to_string st))" using set_string_Inr [OF o2] by simp
  ultimately show ?thesis
    using out by (auto simp: rules_of_def json_object_get_array_def json_object_get_value_def json_object_getn_value_map_of)
qed

lemma spec_run_report:
  assumes "spec_run env continue entries di w = (r, w')" "exit_code r = 0"
    and "\<forall>(rules, entry)\<in>set entries. NUL \<notin> set (res_id entry)"
  shows "\<exists>outs doc xs. judged env entries w outs w'
     \<and> printed r = json_serialize_to_string_pretty (pe_fmt (ke_plan env)) (JObject doc) @ [NL]
     \<and> map_of doc ''status'' = Some (JString (status_to_string (overall (statuses outs))))
     \<and> map_of doc ''rules'' = Some (JArray xs) \<and> length entries = length outs \<and> length xs = length outs
     \<and> (\<forall>i<length outs. reports (pe_strtod (ke_plan env)) (entries ! i) (outs ! i) (xs ! i))"
proof -
  obtain json where b: "BenchmarkFormatter_Begin (ke_timestamp env) di = Inr json"
    using assms(1,2) by (auto simp: spec_run_def split: sum.splits)
  let ?v = "\<lparr>rv_context = w, rv_json = json, rv_status = Compliant, rv_hasError = False, rv_evaluated = 0\<rparr>"
  obtain v where v: "spec_rules env continue entries ?v = (True, v)"
    using assms(1,2) b by (cases "spec_rules env continue entries ?v") (auto simp: spec_run_def split: bool.splits)
  obtain out where f: "BenchmarkFormatter_Finish (pe_fmt (ke_plan env)) (ke_duration env) (spec_status v) (rv_json v) = Inr out"
    using assms(1,2) b v by (auto simp: spec_run_def split: sum.splits)
  have r: "\<not> rv_hasError v" "printed r = out @ [NL]" "w' = rv_context v"
    using assms(1,2) b v f by (auto simp: spec_run_def split: if_splits)
  obtain outs where rep: "reported env entries outs ?v v"
    using spec_rules_reported [OF v r(1) assms(3)] Begin_rules [OF b] by auto
  then obtain xs where xs: "rules_of (rv_json v) = Some xs" "length entries = length outs" "length xs = length outs"
      "\<forall>i<length outs. reports (pe_strtod (ke_plan env)) (entries ! i) (outs ! i) (xs ! i)"
    using Begin_rules [OF b] by (auto simp: reported_def)
  have st: "spec_status v = overall (statuses outs)"
    using rep by (auto simp: reported_def spec_status_def overall_def fold_CombineAllOf)
  obtain doc where "out = json_serialize_to_string_pretty (pe_fmt (ke_plan env)) (JObject doc)" "rules_of doc = Some xs"
      "map_of doc ''status'' = Some (JString (status_to_string (overall (statuses outs))))"
    using Finish_document [OF f] xs(1) st by auto
  then show ?thesis using rep r xs rules_of_iff by (auto simp: reported_def)
qed

section \<open>From the command line to the report\<close>

lemma load_documents_ok:
  "load_documents env identities bs = Inr docs \<Longrightarrow>
     length docs = length bs \<and> (\<forall>d\<in>set docs. document_ok (pe_fmt env) d)"
proof (induction bs arbitrary: identities docs)
  case Nil
  then show ?case by simp
next
  case (Cons b bs)
  then obtain d ds where "parse_definition env (pb_file b) = Inr d" "docs = d # ds"
      "load_documents env (identities @ [(pb_file b, doc_benchmarkInfo d)]) bs = Inr ds"
    by (auto simp: result_simps Let_def)
  then show ?case using Cons.IH parse_definition_ok by fastforce
qed

lemma load_plan_ok:
  "load_plan env path = Inr (plan, docs) \<Longrightarrow> length docs = length plan \<and> (\<forall>d\<in>set docs. document_ok (pe_fmt env) d)"
  using load_documents_ok by (fastforce simp: load_plan_def result_simps)

lemma run_entries_set: "re \<in> set (run_entries (zip plan docs)) \<Longrightarrow> \<exists>d\<in>set docs. snd re \<in> set (resources d)"
  by (auto simp: run_entries_def dest: set_zip_rightD)

text \<open>What \<open>RunRun\<close> needs before it runs the rules.\<close>

lemma RunRun_Some:
  assumes "RunRun env o' = (r, Some w')" "exit_code r = 0"
  shows "\<exists>plan docs di w. load_plan (ke_plan env) (opt_input o') = Inr (plan, docs)
     \<and> LoadDistributionInfo (ke_os_files env) (ke_uname env) (ke_override env) = Inr di \<and> ke_context env = Inr w
     \<and> ValidatePlanForRun (pe_regex (ke_plan env)) plan docs di = None
     \<and> run_validated env (continueOnError o') plan docs di w = (r, w')"
  using assms by (auto simp: RunRun_def split: sum.splits option.splits if_splits prod.splits)

section \<open>Plans without remediation\<close>

text \<open>The modes of a selection come from the seed and the toggles.\<close>

definition modes_in :: "ToggleMode set \<Rightarrow> parsed_file list \<Rightarrow> bool" where
  "modes_in M fs \<longleftrightarrow> (\<forall>p\<in>set fs. \<forall>rule r. om_find (pf_rules p) rule = Some r \<longrightarrow> pr_mode r \<in> M)"

lemma modes_inD: "modes_in M fs \<Longrightarrow> i < length fs \<Longrightarrow> om_find (pf_rules (fs ! i)) rule = Some r \<Longrightarrow> pr_mode r \<in> M"
  unfolding modes_in_def using nth_mem by blast

lemma modes_in_set_rule:
  assumes "modes_in M fs" "i < length fs" "pr_mode r \<in> M"
  shows "modes_in M (set_rule i rule r fs)"
proof -
  let ?p = "(fs ! i)\<lparr>pf_rules := om_insert rule r (pf_rules (fs ! i))\<rparr>"
  have "om_find (pf_rules ?p) k = Some r' \<Longrightarrow> pr_mode r' \<in> M" for k r'
    using modes_inD [OF assms(1,2)] assms(3) by (auto simp: om_find_insert split: if_splits)
  then show ?thesis
    using assms(1) set_update_subset_insert [of fs i ?p] by (auto simp: set_rule_def modes_in_def)
qed

lemma apply_toggle_modes:
  assumes "apply_toggle multi t fs = Inr fs'" "modes_in M fs" "fs \<noteq> []" "toggle_mode t \<in> M"
  shows "modes_in M fs' \<and> fs' \<noteq> []"
proof -
  obtain i rule r where m: "ResolveRuleRef fs (toggle_section t) multi = Inr (i, rule)"
      "fs' = set_rule i rule (r\<lparr>pr_mode := toggle_mode t\<rparr>) fs"
    using assms(1) by (auto simp: apply_toggle_def result_simps split: option.splits)
  have "i < length fs" using ResolveRuleRef_index [OF m(1)] assms(3) by simp
  from modes_in_set_rule [OF assms(2) this] show ?thesis
    using m assms(3,4) by (simp add: set_rule_def)
qed

lemma apply_override_modes:
  assumes "apply_override multi po fs = Inr fs'" "modes_in M fs"
  shows "modes_in M fs'"
proof -
  obtain i rule name r where m: "ResolveParameterOverride fs (selector po) multi = Inr (i, rule, name)"
      "om_find (pf_rules (fs ! i)) rule = Some r"
      "fs' = set_rule i rule (r\<lparr>pr_parameters := om_insert name (po_value po) (pr_parameters r)\<rparr>) fs"
    using assms(1) by (auto simp: apply_override_def result_simps split: option.splits)
  then have i: "i < length fs" using ResolveParameterOverride_match [OF m(1)] by simp
  then have "pr_mode r \<in> M" using modes_inD assms(2) m(2) by blast
  then show ?thesis using modes_in_set_rule [OF assms(2) i] m(3) by simp
qed

lemma selected_modes_in:
  assumes "select_rules env files tgs overrides = Inr fs"
  shows "modes_in (insert ModeAudit (toggle_mode ` set tgs)) fs"
proof -
  let ?M = "insert ModeAudit (toggle_mode ` set tgs)"
  obtain docs fs1 where d: "files \<noteq> []"
      "map_result (\<lambda>file. and_then (parse_definition env file) (\<lambda>doc. Inr (file, doc))) files = Inr docs"
    and s: "fold_result (apply_toggle (length docs > 1)) tgs (map (\<lambda>(fl, doc). seed_file fl doc) docs) = Inr fs1"
      "fold_result (apply_override (length docs > 1)) overrides fs1 = Inr fs"
    using assms by (auto simp: select_rules_def result_simps Let_def split: if_splits)
  have "docs \<noteq> []" using d map_result_length [OF d(2)] by auto
  have "modes_in ?M (map (\<lambda>(fl, doc). seed_file fl doc) docs)"
    using seed_file_mode by (force simp: modes_in_def mode_of_def)
  then have "modes_in ?M fs1 \<and> fs1 \<noteq> []"
    using fold_result_invariant [OF s(1), of "\<lambda>fs. modes_in ?M fs \<and> fs \<noteq> []"] apply_toggle_modes \<open>docs \<noteq> []\<close> by blast
  then show ?thesis using fold_result_invariant [OF s(2), of "modes_in ?M"] apply_override_modes by blast
qed

definition remediation_free :: "plan \<Rightarrow> bool" where
  "remediation_free plan \<longleftrightarrow> (\<forall>b\<in>set plan. \<forall>rule r. om_find (pb_rules b) rule = Some r \<longrightarrow> pr_mode r \<noteq> ModeRemediate)"

lemma generated_remediation_free:
  assumes "GeneratePlan env files tgs overrides = Inr out"
    and "\<forall>f\<in>set files. clean_name f" "\<forall>po\<in>set overrides. NUL \<notin> set (po_value po)"
    and "\<forall>t\<in>set tgs. toggle_mode t \<noteq> ModeRemediate"
  shows "\<exists>plan. ParsePlan strtod out = Inr plan \<and> remediation_free plan"
proof -
  obtain fs where fs: "select_rules env files tgs overrides = Inr fs" "ParsePlan strtod out = Inr (map plan_of fs)"
    using GeneratePlan_readable [OF assms(1-3)] by blast
  have "ModeRemediate \<notin> insert ModeAudit (toggle_mode ` set tgs)" using assms(4) by auto
  then have "remediation_free (map plan_of fs)"
    using selected_modes_in [OF fs(1)] by (auto simp: remediation_free_def modes_in_def plan_of_def) (metis ToggleMode.distinct(1))
  then show ?thesis using fs(2) by blast
qed

lemma never_remediates_entries: "remediation_free plan \<Longrightarrow> never_remediates (run_entries (zip plan docs))"
  by (auto simp: never_remediates_def remediation_free_def run_entries_def dest!: set_zip_leftD)

lemma RunRun_same_audits:
  assumes same: "same_audits_env env env'"
    and plan: "\<And>plan docs. load_plan (ke_plan env) (opt_input o') = Inr (plan, docs) \<Longrightarrow> remediation_free plan"
  shows "RunRun env o' = RunRun env' o'"
proof -
  have k: "ke_plan env' = ke_plan env" "ke_context env' = ke_context env" "ke_os_files env' = ke_os_files env"
    "ke_uname env' = ke_uname env" "ke_override env' = ke_override env"
    using same by (auto simp: same_audits_env_def)
  have "run_validated env continue plan docs di w = run_validated env' continue plan docs di w"
    if "load_plan (ke_plan env) (opt_input o') = Inr (plan, docs)" for continue plan docs di w
  proof -
    have ok: "\<forall>d\<in>set docs. document_ok (pe_fmt (ke_plan env)) d" using load_plan_ok [OF that] by simp
    show ?thesis
      unfolding run_refines [OF ok] using spec_run_same_audits [OF same never_remediates_entries [OF plan [OF that]]] by simp
  qed
  then show ?thesis
    unfolding RunRun_def k
    by (cases "load_plan (ke_plan env) (opt_input o')") (auto split: sum.split option.split)
qed

section \<open>Failures\<close>

text \<open>With \<open>--continue-on-error\<close> a rule whose procedure the engine refuses counts as evaluated:
  the status of the document is then that of an empty conjunction.\<close>

lemma failed_rule_counts:
  assumes "named entry" "om_find rules (res_id entry) = Some r" "pr_mode r = ModeAudit"
    and "planned_procedure env entry r = Inr procedure" "planned_proc env procedure = Inl e"
  shows "spec_rule env True rules entry v = (True, v\<lparr>rv_evaluated := rv_evaluated v + 1, rv_hasError := True\<rparr>)"
  using assms by (simp add: spec_rule_def Let_def spec_error_def)

section \<open>Runs that continue\<close>

lemma step_error_continues: "fst (step_error True s)"
  by (simp add: step_error_def)

lemma add_result_continues: "fst (add_result True r st s)"
  by (simp add: add_result_def step_error_continues split: sum.split)

lemma audit_rule_continues: "fst (audit_rule env True entry s)"
  by (simp add: audit_rule_def Let_def split_beta step_error_continues add_result_continues split: sum.split)

lemma remediate_rule_continues: "fst (remediate_rule env True entry s)"
  by (simp add: remediate_rule_def Let_def split_beta step_error_continues add_result_continues split: sum.split)

lemma run_rule_continues: "fst (run_rule env True rules entry s)"
proof (cases "om_find rules (res_id entry)")
  case None
  then show ?thesis by (simp add: run_rule_def step_error_continues split: sum.split)
next
  case (Some r)
  then show ?thesis
    by (cases "pr_mode r"; cases "planned_procedure env entry r")
      (simp_all add: run_rule_def Let_def split_beta step_error_continues audit_rule_continues remediate_rule_continues
        split: sum.split)
qed

lemma run_rule_True: "run_rule env True rules entry s = (True, snd (run_rule env True rules entry s))"
  using run_rule_continues by (simp add: prod_eq_iff)

lemma run_rules_continues: "run_rules env True rules entries s = (True, fold (\<lambda>entry s. snd (run_rule env True rules entry s)) entries s)"
proof (induction entries arbitrary: s)
  case (Cons entry entries)
  show ?case by (subst run_rules.simps, subst run_rule_True) (simp add: Cons)
qed simp

lemma run_benchmarks_continues:
  "run_benchmarks env True bds s =
     (True, fold (\<lambda>(rules, entry) s. snd (run_rule env True rules entry s)) (run_entries bds) s)"
proof (induction bds arbitrary: s)
  case (Cons bd bds)
  obtain b d where "bd = (b, d)" by (meson surj_pair)
  then show ?case using Cons by (simp add: run_entries_def run_rules_continues fold_map comp_def)
qed (simp add: run_entries_def)

end
