(* ===== verification/TextRenderers.thy ===== *)
theory TextRenderers
  imports Logging RuleResult
begin

text \<open>
  \<open>kompli/TextRenderers.cpp\<close>: the nested list, compact list and debug views of a canonical result
  document. The depth of the indicators that are printed is bounded by 16; the recursion of the
  model runs on the levels that are left. Shown: a document is refused only for its structure,
  and every rule has its line in every style.
\<close>

section \<open>Lines\<close>

abbreviation cMaxIndicatorDepth :: nat where "cMaxIndicatorDepth \<equiv> 16"

definition spaces :: "nat \<Rightarrow> string" where
  "spaces n = replicate n (CHR '' '')"

definition string_field :: "jobject \<Rightarrow> string \<Rightarrow> string" where
  "string_field ob name = StringOrEmpty (json_object_get_string (Some ob) name)"

text \<open>The message of a leaf, the procedure of a branch.\<close>

definition indicator_label :: "jobject \<Rightarrow> string" where
  "indicator_label node =
     (let label = string_field node ''message'' in if label = [] then string_field node ''procedure'' else label)"

definition indicator_line :: "string \<Rightarrow> jobject \<Rightarrow> string" where
  "indicator_line prefix node =
     (let st = string_field node ''status''
      in prefix @ indicator_label node @ (if st \<noteq> [] then '' ['' @ st @ '']'' else []) @ [NL])"

text \<open>\<open>left\<close> is \<open>cMaxIndicatorDepth\<close> less the depth.\<close>

fun AppendIndicators :: "nat \<Rightarrow> json list option \<Rightarrow> nat \<Rightarrow> string" where
  "AppendIndicators 0 inds baseIndent = []"
| "AppendIndicators (Suc left) inds baseIndent =
     (case inds of
        None \<Rightarrow> []
      | Some vs \<Rightarrow>
          concat (map (\<lambda>v. case json_value_get_object (Some v) of
              None \<Rightarrow> []
            | Some node \<Rightarrow>
                indicator_line (spaces (baseIndent + (cMaxIndicatorDepth - Suc left) * 2) @ ''- '') node
                @ AppendIndicators left (json_object_get_array (Some node) ''indicators'') baseIndent) vs))"

text \<open>A parameter's value: its characters, or its text where it is not a string.\<close>

definition parameter_text :: "fmt_fun \<Rightarrow> json \<Rightarrow> string" where
  "parameter_text fmt v =
     (let s = StringOrEmpty (json_value_get_string (Some v))
      in if s = [] \<and> json_value_get_type (Some v) \<noteq> JSONString then c_str (json_serialize_to_string fmt v) else s)"

fun join_strings :: "string \<Rightarrow> string list \<Rightarrow> string" where
  "join_strings sep [] = []"
| "join_strings sep [s] = s"
| "join_strings sep (s # ss) = s @ sep @ join_strings sep ss"

definition JoinParameters :: "fmt_fun \<Rightarrow> jobject \<Rightarrow> string" where
  "JoinParameters fmt rule =
     (case json_object_get_object (Some rule) ''parameters'' of
        None \<Rightarrow> []
      | Some ps \<Rightarrow> join_strings '', '' (map (\<lambda>(name, v). c_str name @ ''='' @ parameter_text fmt v) ps))"

section \<open>The report\<close>

datatype TextStyle = NestedListStyle | CompactListStyle | DebugStyle

definition render_rule :: "fmt_fun \<Rightarrow> TextStyle \<Rightarrow> jobject \<Rightarrow> string" where
  "render_rule fmt style rule =
     (let ident = string_field rule ''id''; name = string_field rule ''ruleName''; st = string_field rule ''status'';
          inds = AppendIndicators cMaxIndicatorDepth (json_object_get_array (Some rule) ''indicators'') 4
      in case style of
           CompactListStyle \<Rightarrow> ''  ['' @ st @ ''] '' @ ident @ '' '' @ name @ [NL]
         | NestedListStyle \<Rightarrow> ''  '' @ ident @ '' '' @ name @ '' ['' @ st @ '']'' @ [NL] @ inds
         | DebugStyle \<Rightarrow>
             (let ps = JoinParameters fmt rule
              in ''  '' @ ident @ '' '' @ name @ '' (ruleId='' @ string_field rule ''ruleId'' @ '') ['' @ st @ '']'' @ [NL]
                 @ ''    title: '' @ string_field rule ''title'' @ [NL]
                 @ (if ps \<noteq> [] then ''    parameters: '' @ ps @ [NL] else []) @ inds))"

definition rule_entry_error :: error where
  "rule_entry_error = Error (''Canonical result JSON '' @ quoted ''rules'' @ '' entry is not an object'') EINVAL"

fun render_rules :: "fmt_fun \<Rightarrow> TextStyle \<Rightarrow> json list \<Rightarrow> string result" where
  "render_rules fmt style [] = Inr []"
| "render_rules fmt style (v # vs) =
     (case json_value_get_object (Some v) of
        None \<Rightarrow> Inl rule_entry_error
      | Some rule \<Rightarrow> and_then (render_rules fmt style vs) (\<lambda>rest. Inr (render_rule fmt style rule @ rest)))"

text \<open>The start of both renderers, from the parsed value on.\<close>

definition result_rules :: "jobject \<Rightarrow> json list result" where
  "result_rules root =
     (case json_object_get_array (Some root) ''rules'' of
        None \<Rightarrow> Inl (Error (''Canonical result JSON has no '' @ quoted ''rules'' @ '' array'') EINVAL)
      | Some vs \<Rightarrow> Inr vs)"

definition result_object :: "strtod_fun \<Rightarrow> string \<Rightarrow> jobject result" where
  "result_object strtod canonicalJson =
     (case json_parse_string strtod (c_str canonicalJson) of
        None \<Rightarrow> Inl (Error ''Failed to parse canonical result JSON'' EINVAL)
      | Some v \<Rightarrow>
          (case json_value_get_object (Some v) of
             None \<Rightarrow> Inl (Error ''Canonical result JSON is not an object'' EINVAL)
           | Some root \<Rightarrow> Inr root))"

definition RenderText :: "strtod_fun \<Rightarrow> fmt_fun \<Rightarrow> string \<Rightarrow> TextStyle \<Rightarrow> string result" where
  "RenderText strtod fmt canonicalJson style =
     and_then (result_object strtod canonicalJson) (\<lambda>root.
     and_then (result_rules root) (\<lambda>vs.
     and_then (render_rules fmt style vs) (\<lambda>lines.
       Inr (''Timestamp: '' @ string_field root ''timestamp'' @ [NL] @ ''Rules:'' @ [NL] @ lines
            @ ''Duration: '' @ to_string_int (double_to_llong (json_object_get_number (Some root) ''durationMs'')) @ '' ms'' @ [NL]
            @ ''Status: '' @ string_field root ''status'' @ [NL] @ ''End of Report'' @ [NL]))))"

section \<open>Success\<close>

lemma render_rules_Inr:
  "(\<exists>s. render_rules fmt style vs = Inr s) \<longleftrightarrow> (\<forall>v\<in>set vs. \<exists>ms. v = JObject ms)"
proof (induction vs)
  case Nil
  then show ?case by simp
next
  case (Cons v vs)
  then show ?case by (cases v) (auto simp: and_then_Inr)
qed

lemma render_rules_concat:
  "render_rules fmt style (map JObject rules) = Inr (concat (map (render_rule fmt style) rules))"
  by (induction rules) auto

lemma RenderText_Inr:
  "(\<exists>s. RenderText strtod fmt text style = Inr s) \<longleftrightarrow>
     (\<exists>root rules. json_parse_string strtod (c_str text) = Some (JObject root)
        \<and> map_of root ''rules'' = Some (JArray (map JObject rules)))"
proof
  assume "\<exists>s. RenderText strtod fmt text style = Inr s"
  then obtain root vs s where r: "json_parse_string strtod (c_str text) = Some (JObject root)"
      "map_of root ''rules'' = Some (JArray vs)" "render_rules fmt style vs = Inr s"
    by (auto simp: RenderText_def result_object_def result_rules_def result_simps json_object_get_array_def
        split: option.splits json.splits)
  then have "\<forall>v\<in>set vs. \<exists>ms. v = JObject ms" using render_rules_Inr by blast
  then obtain rules where "vs = map JObject rules" using ex_map_conv [of vs JObject] by metis
  then show "\<exists>root rules. json_parse_string strtod (c_str text) = Some (JObject root)
      \<and> map_of root ''rules'' = Some (JArray (map JObject rules))" using r by blast
next
  assume "\<exists>root rules. json_parse_string strtod (c_str text) = Some (JObject root)
      \<and> map_of root ''rules'' = Some (JArray (map JObject rules))"
  then show "\<exists>s. RenderText strtod fmt text style = Inr s"
    by (auto simp: RenderText_def result_object_def result_rules_def result_simps json_object_get_array_def render_rules_concat)
qed

end
