(* ===== verification/JUnitRenderer.thy ===== *)
theory JUnitRenderer
  imports TextRenderers BenchmarkDefinition Sockets
begin

text \<open>
  \<open>kompli/JUnitRenderer.cpp\<close>: the JUnit view of a canonical result document. The XML document is
  a tree; its text is made by pugixml, which is not under \<open>src/\<close>: \<open>save\<close> is the list of chunks
  that it hands to the writer. Shown: attribute values and texts consist of characters that XML
  1.0 allows, in UTF-8; the counts of the suite are those of its test cases; the class name of a
  test case determines its rule; and the output keeps its limit.
\<close>

section \<open>Trees\<close>

datatype xml = Element string "(string \<times> string) list" "xml list" | PCData string

abbreviation kMaxJUnitBytes :: nat where "kMaxJUnitBytes \<equiv> 16 * 1024 * 1024"

definition junit_size_error :: error where
  "junit_size_error = Error ''JUnit result exceeds the maximum output size'' EFBIG"

text \<open>\<open>BoundedXmlBuffer\<close>: a write that would pass the limit fails, and so does every later one.\<close>

fun bounded_put :: "nat \<Rightarrow> string list \<Rightarrow> string \<Rightarrow> string option" where
  "bounded_put limit [] value = Some value"
| "bounded_put limit (s # ss) value =
     (if length s > limit - length value then None else bounded_put limit ss (value @ s))"

text \<open>\<open>XmlBudget\<close>: the bytes used so far.\<close>

definition XmlBudget_Add :: "nat \<Rightarrow> nat \<Rightarrow> nat option" where
  "XmlBudget_Add bytes used = (if bytes > kMaxJUnitBytes - used then None else Some (used + bytes))"

section \<open>Characters\<close>

definition trailing_object_scan_chars :: "char set" where
  "trailing_object_scan_chars = {CHR '' '', TAB, CHR 0x0D, NL}"

text \<open>\<open>HasTrailingObjectData\<close> from the first brace on; \<open>None\<close> of the search is the end of the loop.\<close>

fun trailing_object_scan :: "nat \<Rightarrow> bool \<Rightarrow> string \<Rightarrow> bool" where
  "trailing_object_scan depth inString [] = True"
| "trailing_object_scan depth inString (ch # rest) =
     (if inString then
        (if ch = BSL then (case rest of [] \<Rightarrow> True | c # rest' \<Rightarrow> trailing_object_scan depth True rest')
         else trailing_object_scan depth (ch \<noteq> DQ) rest)
      else if ch = DQ then trailing_object_scan depth True rest
      else if ch = CHR ''{'' then trailing_object_scan (depth + 1) False rest
      else if ch = CHR ''}'' then
        (if depth = 1 then \<not> set rest \<subseteq> trailing_object_scan_chars else trailing_object_scan (depth - 1) False rest)
      else trailing_object_scan depth False rest)"

definition HasTrailingObjectData :: "string \<Rightarrow> bool" where
  "HasTrailingObjectData json =
     (case find_char (CHR ''{'') json of
        None \<Rightarrow> True
      | Some i \<Rightarrow> trailing_object_scan 0 False (drop i json))"

text \<open>The code points XML 1.0 allows.\<close>

definition xml_char :: "nat \<Rightarrow> bool" where
  "xml_char cp \<longleftrightarrow>
     \<not> ((0xD800 \<le> cp \<and> cp \<le> 0xDFFF) \<or> 0x10FFFF < cp \<or> (cp \<noteq> 0x09 \<and> cp \<noteq> 0x0A \<and> cp \<noteq> 0x0D \<and> cp < 0x20)
        \<or> (0xFFFE \<le> cp \<and> cp \<le> 0xFFFF))"

text \<open>The first byte of a character: the bits it gives and the length of the character.\<close>

definition lead_byte :: "nat \<Rightarrow> (nat \<times> nat) option" where
  "lead_byte b =
     (if b < 0x80 then Some (b, 1)
      else if 0xC2 \<le> b \<and> b \<le> 0xDF then Some (b mod 0x20, 2)
      else if 0xE0 \<le> b \<and> b \<le> 0xEF then Some (b mod 0x10, 3)
      else if 0xF0 \<le> b \<and> b \<le> 0xF4 then Some (b mod 0x08, 4)
      else None)"

text \<open>The continuation bytes, \<open>10xxxxxx\<close>, shifted in six bits each.\<close>

fun continuation :: "nat \<Rightarrow> nat list \<Rightarrow> nat option" where
  "continuation cp [] = Some cp"
| "continuation cp (b # bs) = (if b div 0x40 \<noteq> 2 then None else continuation (cp * 64 + b mod 0x40) bs)"

definition first_xml_char :: "nat list \<Rightarrow> nat option" where
  "first_xml_char xml =
     (case lead_byte (hd xml) of
        None \<Rightarrow> None
      | Some (bits, len) \<Rightarrow>
          if len > length xml then None
          else case continuation bits (take (len - 1) (tl xml)) of
            None \<Rightarrow> None
          | Some cp \<Rightarrow>
              if (len = 2 \<and> cp < 0x80) \<or> (len = 3 \<and> cp < 0x800) \<or> (len = 4 \<and> cp < 0x10000) \<or> \<not> xml_char cp then None
              else Some len)"

lemma first_xml_char_pos: "first_xml_char xml = Some len \<Longrightarrow> 0 < len"
  by (auto simp: first_xml_char_def lead_byte_def split: option.splits if_splits)

function valid_xml_bytes :: "nat list \<Rightarrow> bool" where
  "valid_xml_bytes xml =
     (if xml = [] then True
      else case first_xml_char xml of None \<Rightarrow> False | Some len \<Rightarrow> valid_xml_bytes (drop len xml))"
  by pat_completeness auto
termination
  by (relation "measure length") (auto dest: first_xml_char_pos)

declare valid_xml_bytes.simps [simp del]

definition HasValidXmlCharacters :: "string \<Rightarrow> bool" where
  "HasValidXmlCharacters xml = valid_xml_bytes (map of_char xml)"

section \<open>Nodes\<close>

definition xml_char_error :: error where
  "xml_char_error = Error ''Canonical result contains invalid XML 1.0 characters or UTF-8'' EINVAL"

text \<open>Each gives the budget behind it; the caller builds the node.\<close>

definition AddElement :: "string \<Rightarrow> nat \<Rightarrow> nat result" where
  "AddElement name used = or_error junit_size_error (XmlBudget_Add (3 + length name) used)"

definition AddAttribute :: "string \<Rightarrow> string \<Rightarrow> nat \<Rightarrow> nat result" where
  "AddAttribute name value used =
     (if \<not> HasValidXmlCharacters value then Inl xml_char_error
      else and_then (or_error junit_size_error (XmlBudget_Add (4 + length name) used)) (\<lambda>used.
           or_error junit_size_error (XmlBudget_Add (length value) used)))"

definition blank_control :: "char \<Rightarrow> char" where
  "blank_control ch = (if of_char ch < (0x20 :: nat) \<and> ch \<noteq> TAB \<and> ch \<noteq> NL \<and> ch \<noteq> CHR 0x0D then CHR '' '' else ch)"

text \<open>Control characters of a body become spaces.\<close>

definition AddText :: "string \<Rightarrow> nat \<Rightarrow> (xml \<times> nat) result" where
  "AddText value used =
     (let value = map blank_control value in
      if \<not> HasValidXmlCharacters value then Inl xml_char_error
      else and_then (or_error junit_size_error (XmlBudget_Add (length value) used)) (\<lambda>used. Inr (PCData value, used)))"

section \<open>Bodies\<close>

text \<open>The pieces that are written one by one into the bounded buffer.\<close>

fun JUnit_AppendIndicators :: "nat \<Rightarrow> json list option \<Rightarrow> string list" where
  "JUnit_AppendIndicators 0 inds = []"
| "JUnit_AppendIndicators (Suc left) inds =
     (case inds of
        None \<Rightarrow> []
      | Some vs \<Rightarrow>
          concat (map (\<lambda>v. case json_value_get_object (Some v) of
              None \<Rightarrow> []
            | Some node \<Rightarrow>
                (let st = string_field node ''status''
                 in [spaces ((cMaxIndicatorDepth - Suc left) * 2), ''  - '', indicator_label node]
                    @ (if st \<noteq> [] then ['' ['', st, '']''] else []) @ [[NL]])
                @ JUnit_AppendIndicators left (json_object_get_array (Some node) ''indicators'')) vs))"

definition body_pieces :: "fmt_fun \<Rightarrow> jobject \<Rightarrow> string list" where
  "body_pieces fmt rule =
     [''Rule: '', string_field rule ''ruleName'', [NL, NL], ''Parameters:'' @ [NL]]
     @ (case json_object_get_object (Some rule) ''parameters'' of
          None \<Rightarrow> []
        | Some ps \<Rightarrow> concat (map (\<lambda>(name, v). [''  - '', c_str name, '': '', parameter_text fmt v, [NL]]) ps))
     @ [[NL] @ ''Indicators:'' @ [NL]]
     @ JUnit_AppendIndicators cMaxIndicatorDepth (json_object_get_array (Some rule) ''indicators'')"

definition BuildBody :: "fmt_fun \<Rightarrow> jobject \<Rightarrow> string result" where
  "BuildBody fmt rule = or_error junit_size_error (bounded_put kMaxJUnitBytes (body_pieces fmt rule) [])"

section \<open>Tags\<close>

definition check_tag :: "json \<Rightarrow> string result" where
  "check_tag v =
     (case v of
        JString tag \<Rightarrow>
          if kMaxTagBytes < length tag
          then Inl (Error (''Canonical result JSON rule has a tag exceeding '' @ to_string_nat kMaxTagBytes @ '' bytes'') E2BIG)
          else if NUL \<in> set tag then Inl (Error ''Canonical result JSON rule has a tag with an embedded NUL'' EINVAL)
          else (case find_char (CHR '':'') tag of
                  None \<Rightarrow> Inl (Error (''Canonical result JSON rule has an invalid '' @ quoted ''axis:value'' @ '' tag'') EINVAL)
                | Some colon \<Rightarrow>
                    if colon = 0 \<or> colon + 1 = length tag \<or> \<not> list_all tag_char (take colon tag)
                    then Inl (Error (''Canonical result JSON rule has an invalid '' @ quoted ''axis:value'' @ '' tag'') EINVAL)
                    else Inr tag)
      | _ \<Rightarrow> Inl (Error ''Canonical result JSON rule has a non-string tag'' EINVAL))"

fun tag_nodes :: "json list \<Rightarrow> nat \<Rightarrow> (xml list \<times> nat) result" where
  "tag_nodes [] used = Inr ([], used)"
| "tag_nodes (v # vs) used =
     and_then (check_tag v) (\<lambda>tag.
     and_then (AddElement ''tag'' used) (\<lambda>used.
     and_then (AddAttribute ''value'' tag used) (\<lambda>used.
     and_then (tag_nodes vs used) (\<lambda>(nodes, used). Inr (Element ''tag'' [(''value'', tag)] [] # nodes, used)))))"

text \<open>The block of tags, or nothing where there are none.\<close>

definition BuildTags :: "jobject \<Rightarrow> nat \<Rightarrow> (xml list \<times> nat) result" where
  "BuildTags rule used =
     (case json_object_get_value (Some rule) ''tags'' of
        None \<Rightarrow> Inr ([], used)
      | Some v \<Rightarrow>
          (case json_value_get_array (Some v) of
             None \<Rightarrow> Inl (Error (''Canonical result JSON rule has a non-array '' @ quoted ''tags'' @ '' field'') EINVAL)
           | Some vs \<Rightarrow>
               if vs = [] then Inr ([], used)
               else and_then (AddElement ''tags'' used) (\<lambda>used.
                    and_then (tag_nodes vs used) (\<lambda>(nodes, used). Inr ([Element ''tags'' [] nodes], used)))))"

section \<open>Class names\<close>

text \<open>A component with its length in front.\<close>

definition netstring :: "string \<Rightarrow> string" where
  "netstring s = to_string_nat (length s) @ '':'' @ s"

definition benchmark_keys :: "string list" where
  "benchmark_keys = [''framework'', ''distribution'', ''distributionVersion'', ''benchmarkVersion'']"

definition benchmark_component :: "jobject \<Rightarrow> string \<Rightarrow> string result" where
  "benchmark_component benchmark key =
     (case json_object_get_value (Some benchmark) key of
        Some (JString component) \<Rightarrow>
          if component = [] \<or> NUL \<in> set component
          then Inl (Error (''Canonical result JSON rule has empty or NUL-containing benchmark field '' @ quoted key) EINVAL)
          else Inr component
      | _ \<Rightarrow> Inl (Error (''Canonical result JSON rule has invalid benchmark field '' @ quoted key) EINVAL))"

definition TestcaseClassname :: "jobject \<Rightarrow> string \<Rightarrow> string result" where
  "TestcaseClassname rule ident =
     (case json_object_get_value (Some rule) ''benchmark'' of
        None \<Rightarrow> Inr ident
      | Some v \<Rightarrow>
          (case json_value_get_object (Some v) of
             None \<Rightarrow> Inl (Error (''Canonical result JSON rule has invalid '' @ quoted ''benchmark'' @ '' value'') EINVAL)
           | Some benchmark \<Rightarrow>
               and_then (map_result (benchmark_component benchmark) benchmark_keys) (\<lambda>components.
                 Inr (concat (map netstring components) @ netstring ident))))"

section \<open>Test cases\<close>

record testcase_fields =
  tc_classname :: string
  tc_title :: string
  tc_status :: string

definition read_rule_string :: "jobject \<Rightarrow> string \<Rightarrow> error \<Rightarrow> string result" where
  "read_rule_string rule key e =
     (case json_object_get_value (Some rule) key of Some (JString s) \<Rightarrow> Inr s | _ \<Rightarrow> Inl e)"

definition rule_title :: "jobject \<Rightarrow> string result" where
  "rule_title rule =
     (case json_object_get_value (Some rule) ''title'' of
        Some v \<Rightarrow> read_rule_string rule ''title'' (Error (''Canonical result JSON rule has a non-string '' @ quoted ''title'') EINVAL)
      | None \<Rightarrow> read_rule_string rule ''ruleName''
          (Error (''Canonical result JSON rule has neither a string '' @ quoted ''title'' @ '' nor a string '' @ quoted ''ruleName'') EINVAL))"

definition known_status :: "string \<Rightarrow> bool" where
  "known_status s \<longleftrightarrow> s = ''Compliant'' \<or> s = ''NonCompliant'' \<or> s = ''NotApplicable'' \<or> s = ''Skipped''"

definition no_nul :: "string \<Rightarrow> string \<Rightarrow> error option" where
  "no_nul what s = (if NUL \<in> set s then Some (Error (''Canonical result JSON rule has an embedded NUL in its '' @ what) EINVAL) else None)"

definition read_testcase :: "jobject \<Rightarrow> testcase_fields result" where
  "read_testcase rule =
     and_then (read_rule_string rule ''id'' (Error (''Canonical result JSON rule has no string '' @ quoted ''id'') EINVAL)) (\<lambda>ident.
     if ident = [] then Inl (Error (''Canonical result JSON rule has an empty '' @ quoted ''id'') EINVAL)
     else unless_error (no_nul ''testcase classname'' ident)
     (and_then (rule_title rule) (\<lambda>title.
     unless_error (no_nul ''testcase name'' title)
     (and_then (read_rule_string rule ''status'' (Error (''Canonical result JSON rule has no string '' @ quoted ''status'') EINVAL)) (\<lambda>st.
     unless_error (no_nul ''status'' st)
     (and_then (TestcaseClassname rule ident) (\<lambda>classname.
     if \<not> known_status st
     then Inl (Error (''Canonical result JSON rule has invalid '' @ quoted ''status'' @ '' value: '' @ quoted st) EINVAL)
     else Inr \<lparr>tc_classname = classname, tc_title = title, tc_status = st\<rparr>)))))))"

text \<open>The child of a test case that did not pass: its attributes are added in order, then the body.\<close>

fun add_attributes :: "(string \<times> string) list \<Rightarrow> nat \<Rightarrow> nat result" where
  "add_attributes [] used = Inr used"
| "add_attributes ((name, v) # as) used = and_then (AddAttribute name v used) (add_attributes as)"

definition outcome_node :: "fmt_fun \<Rightarrow> string \<Rightarrow> (string \<times> string) list \<Rightarrow> jobject \<Rightarrow> nat \<Rightarrow> (xml list \<times> nat) result" where
  "outcome_node fmt name as rule used =
     and_then (BuildBody fmt rule) (\<lambda>body.
     and_then (AddElement name used) (\<lambda>used.
     and_then (add_attributes as used) (\<lambda>used.
     and_then (AddText body used) (\<lambda>(t, used). Inr ([Element name as [t]], used)))))"

definition outcome :: "fmt_fun \<Rightarrow> string \<Rightarrow> jobject \<Rightarrow> nat \<Rightarrow> (xml list \<times> nat) result" where
  "outcome fmt st rule used =
     (if st = ''NonCompliant''
      then outcome_node fmt ''failure'' [(''message'', ''Rule is non-compliant''), (''type'', ''NonCompliant'')] rule used
      else if st = ''NotApplicable'' \<or> st = ''Skipped''
      then outcome_node fmt ''skipped''
             [(''message'', if st = ''NotApplicable'' then ''Rule is not applicable'' else ''Rule was skipped'')] rule used
      else Inr ([], used))"

definition testcase :: "fmt_fun \<Rightarrow> jobject \<Rightarrow> nat \<Rightarrow> (xml \<times> string \<times> nat) result" where
  "testcase fmt rule used =
     and_then (read_testcase rule) (\<lambda>tc.
     and_then (AddElement ''testcase'' used) (\<lambda>used.
     and_then (add_attributes [(''classname'', tc_classname tc), (''name'', tc_title tc)] used) (\<lambda>used.
     and_then (BuildTags rule used) (\<lambda>(tagNodes, used).
     and_then (outcome fmt (tc_status tc) rule used) (\<lambda>(nodes, used).
       Inr (Element ''testcase'' [(''classname'', tc_classname tc), (''name'', tc_title tc)] (tagNodes @ nodes),
            tc_status tc, used))))))"

text \<open>The loop over the rules, with the failures and skipped test cases counted so far.\<close>

fun testcases :: "fmt_fun \<Rightarrow> json list \<Rightarrow> nat \<Rightarrow> nat \<Rightarrow> nat \<Rightarrow> (xml list \<times> nat \<times> nat \<times> nat) result" where
  "testcases fmt [] failures skipped used = Inr ([], failures, skipped, used)"
| "testcases fmt (v # vs) failures skipped used =
     (case json_value_get_object (Some v) of
        None \<Rightarrow> Inl rule_entry_error
      | Some rule \<Rightarrow>
          and_then (testcase fmt rule used) (\<lambda>(node, st, used).
          and_then (testcases fmt vs
              (if st = ''NonCompliant'' then failures + 1 else failures)
              (if st = ''NotApplicable'' \<or> st = ''Skipped'' then skipped + 1 else skipped) used) (\<lambda>(nodes, counts).
            Inr (node # nodes, counts))))"

definition junit_document :: "fmt_fun \<Rightarrow> json list \<Rightarrow> string \<Rightarrow> (xml \<times> nat) result" where
  "junit_document fmt vs suiteName =
     and_then (AddElement ''testsuites'' 0) (\<lambda>used.
     and_then (AddElement ''testsuite'' used) (\<lambda>used.
     and_then (AddAttribute ''name'' suiteName used) (\<lambda>used.
     and_then (testcases fmt vs 0 0 used) (\<lambda>(nodes, failures, skipped, used).
       let counts = [(''tests'', to_string_nat (length vs)), (''failures'', to_string_nat failures), (''skipped'', to_string_nat skipped)]
       in and_then (add_attributes counts used) (\<lambda>used.
            Inr (Element ''testsuites'' [] [Element ''testsuite'' ((''name'', suiteName) # counts) nodes], used))))))"

definition RenderJUnit ::
  "strtod_fun \<Rightarrow> fmt_fun \<Rightarrow> (xml \<Rightarrow> string list) \<Rightarrow> string \<Rightarrow> string \<Rightarrow> string result" where
  "RenderJUnit strtod fmt save canonicalJson suiteName =
     (if NUL \<in> set canonicalJson then Inl (Error ''Canonical result JSON contains a NUL byte'' EINVAL)
      else and_then (result_object strtod canonicalJson) (\<lambda>root.
        if HasTrailingObjectData canonicalJson then Inl (Error ''Canonical result JSON contains trailing data'' EINVAL)
        else and_then (result_rules root) (\<lambda>vs.
          and_then (junit_document fmt vs suiteName) (\<lambda>(doc, used).
            or_error junit_size_error (bounded_put kMaxJUnitBytes (save doc) [])))))"

section \<open>The bounded buffer\<close>

lemma bounded_put_iff:
  "length val \<le> limit \<Longrightarrow>
     bounded_put limit ss val = (if length val + length (concat ss) \<le> limit then Some (val @ concat ss) else None)"
  by (induction limit ss val rule: bounded_put.induct) auto

text \<open>A body is refused exactly if it is larger than the limit.\<close>

lemma BuildBody_iff:
  "BuildBody fmt rule =
     (if length (concat (body_pieces fmt rule)) \<le> kMaxJUnitBytes then Inr (concat (body_pieces fmt rule)) else Inl junit_size_error)"
  by (simp add: BuildBody_def bounded_put_iff or_error_def)

section \<open>Weights\<close>

text \<open>The least number of bytes a tree takes as text; the budget is the weight of what has been built.\<close>

definition attribute_weight :: "string \<times> string \<Rightarrow> nat" where
  "attribute_weight a = 4 + length (fst a) + length (snd a)"

fun weight :: "xml \<Rightarrow> nat" where
  "weight (Element name as cs) = 3 + length name + sum_list (map attribute_weight as) + sum_list (map weight cs)"
| "weight (PCData s) = length s"

text \<open>Every value of the tree consists of XML characters.\<close>

fun xml_ok :: "xml \<Rightarrow> bool" where
  "xml_ok (Element name as cs) \<longleftrightarrow> list_all (\<lambda>a. HasValidXmlCharacters (snd a)) as \<and> list_all xml_ok cs"
| "xml_ok (PCData s) \<longleftrightarrow> HasValidXmlCharacters s"

abbreviation nodes_ok :: "xml list \<Rightarrow> nat \<Rightarrow> nat \<Rightarrow> bool" where
  "nodes_ok ns used used' \<equiv> list_all xml_ok ns \<and> used' = used + sum_list (map weight ns) \<and> (used \<le> kMaxJUnitBytes \<longrightarrow> used' \<le> kMaxJUnitBytes)"

lemma XmlBudget_Some [result_simps]:
  "XmlBudget_Add n used = Some used' \<longleftrightarrow> n \<le> kMaxJUnitBytes - used \<and> used' = used + n"
  by (auto simp: XmlBudget_Add_def)

lemma AddElement_Inr [result_simps]:
  "AddElement name used = Inr used' \<longleftrightarrow> 3 + length name \<le> kMaxJUnitBytes - used \<and> used' = used + (3 + length name)"
  by (simp add: AddElement_def result_simps)

lemma AddAttribute_Inr:
  "AddAttribute name v used = Inr used' \<Longrightarrow>
     HasValidXmlCharacters v \<and> used' = used + attribute_weight (name, v) \<and> (used \<le> kMaxJUnitBytes \<longrightarrow> used' \<le> kMaxJUnitBytes)"
  by (auto simp: AddAttribute_def result_simps attribute_weight_def split: if_splits)

lemma add_attributes_Inr:
  "add_attributes as used = Inr used' \<Longrightarrow>
     list_all (\<lambda>a. HasValidXmlCharacters (snd a)) as \<and> used' = used + sum_list (map attribute_weight as)
     \<and> (used \<le> kMaxJUnitBytes \<longrightarrow> used' \<le> kMaxJUnitBytes)"
proof (induction as used rule: add_attributes.induct)
  case (2 name v as used)
  then obtain u where "AddAttribute name v used = Inr u" "add_attributes as u = Inr used'"
    by (auto simp: and_then_Inr)
  then show ?case using "2.IH" AddAttribute_Inr by fastforce
qed simp

lemma AddText_Inr: "AddText v used = Inr (t, used') \<Longrightarrow> nodes_ok [t] used used'"
  by (auto simp: AddText_def Let_def result_simps split: if_splits)

lemma tag_nodes_Inr: "tag_nodes vs used = Inr (ns, used') \<Longrightarrow> nodes_ok ns used used'"
proof (induction vs arbitrary: used ns)
  case Nil
  then show ?case by simp
next
  case (Cons v vs)
  then obtain t u1 u2 ns' where c: "check_tag v = Inr t" "AddElement ''tag'' used = Inr u1"
      "AddAttribute ''value'' t u1 = Inr u2" "tag_nodes vs u2 = Inr (ns', used')" "ns = Element ''tag'' [(''value'', t)] [] # ns'"
    by (auto simp: and_then_Inr)
  show ?case using Cons.IH [OF c(4)] c(2,5) AddAttribute_Inr [OF c(3)] by (auto simp: result_simps)
qed

lemma BuildTags_Inr:
  assumes "BuildTags rule used = Inr (ns, used')"
  shows "nodes_ok ns used used' \<and> (\<forall>n\<in>set ns. \<exists>cs. n = Element ''tags'' [] cs)"
proof -
  consider "ns = []" "used' = used"
    | vs u cs where "AddElement ''tags'' used = Inr u" "tag_nodes vs u = Inr (cs, used')" "ns = [Element ''tags'' [] cs]"
    using assms by (auto simp: BuildTags_def and_then_Inr split: option.splits if_splits)
  then show ?thesis
  proof cases
    case 2
    then show ?thesis using tag_nodes_Inr [OF 2(2)] by (auto simp: result_simps)
  qed simp
qed

lemma outcome_node_Inr:
  assumes "outcome_node fmt name as rule used = Inr (ns, used')"
  shows "nodes_ok ns used used' \<and> (\<exists>t. ns = [Element name as [PCData t]])"
proof -
  obtain body u1 u2 t where c: "AddElement name used = Inr u1" "add_attributes as u1 = Inr u2"
      "AddText body u2 = Inr (t, used')" "ns = [Element name as [t]]"
    using assms by (auto simp: outcome_node_def and_then_Inr)
  have "\<exists>s. t = PCData s" using c(3) by (auto simp: AddText_def Let_def and_then_Inr split: if_splits)
  then show ?thesis using c add_attributes_Inr [OF c(2)] AddText_Inr [OF c(3)] by (auto simp: result_simps)
qed

section \<open>Test cases\<close>

definition rule_status :: "jobject \<Rightarrow> string" where
  "rule_status rule = (case map_of rule ''status'' of Some (JString s) \<Rightarrow> s | _ \<Rightarrow> [])"

fun element_name :: "xml \<Rightarrow> string option" where
  "element_name (Element name as cs) = Some name"
| "element_name (PCData s) = None"

text \<open>What a test case says of its rule: its class name and title, and one child \<open>failure\<close> or
  \<open>skipped\<close> as its status asks for.\<close>

definition case_of :: "jobject \<Rightarrow> xml \<Rightarrow> bool" where
  "case_of rule c \<longleftrightarrow>
     (\<exists>ident classname title cs. c = Element ''testcase'' [(''classname'', classname), (''name'', title)] cs
        \<and> map_of rule ''id'' = Some (JString ident) \<and> TestcaseClassname rule ident = Inr classname
        \<and> map_of rule (if map_of rule ''title'' = None then ''ruleName'' else ''title'') = Some (JString title)
        \<and> known_status (rule_status rule)
        \<and> length (filter (\<lambda>n. element_name n = Some ''failure'') cs) = (if rule_status rule = ''NonCompliant'' then 1 else 0)
        \<and> length (filter (\<lambda>n. element_name n = Some ''skipped'') cs)
            = (if rule_status rule = ''NotApplicable'' \<or> rule_status rule = ''Skipped'' then 1 else 0))"

lemma outcome_Inr:
  assumes "outcome fmt st rule used = Inr (ns, used')"
  shows "nodes_ok ns used used'
    \<and> map element_name ns = (if st = ''NonCompliant'' then [Some ''failure'']
        else if st = ''NotApplicable'' \<or> st = ''Skipped'' then [Some ''skipped''] else [])"
proof -
  consider (fail) "st = ''NonCompliant''" | (skip) "st \<noteq> ''NonCompliant''" "st = ''NotApplicable'' \<or> st = ''Skipped''"
    | (pass) "st \<noteq> ''NonCompliant''" "\<not> (st = ''NotApplicable'' \<or> st = ''Skipped'')"
    by blast
  then show ?thesis
  proof cases
    case fail
    have "\<exists>as. outcome_node fmt ''failure'' as rule used = Inr (ns, used')"
      using assms unfolding outcome_def if_P [OF fail] by (rule exI)
    then show ?thesis using outcome_node_Inr fail by fastforce
  next
    case skip
    have "\<exists>as. outcome_node fmt ''skipped'' as rule used = Inr (ns, used')"
      using assms unfolding outcome_def if_not_P [OF skip(1)] if_P [OF skip(2)] by (rule exI)
    then show ?thesis using outcome_node_Inr skip by fastforce
  next
    case pass
    then have "Inr ([], used) = (Inr (ns, used') :: (xml list \<times> nat) result)"
      using assms unfolding outcome_def if_not_P [OF pass(1)] if_not_P [OF pass(2)] by iprover
    then show ?thesis using pass by simp
  qed
qed

lemma read_rule_string_Inr:
  "read_rule_string rule key e = Inr s \<longleftrightarrow> map_of rule key = Some (JString s)"
  by (auto simp: read_rule_string_def json_object_get_value_def json_object_getn_value_map_of split: option.splits json.splits)

lemma rule_title_Inr:
  "rule_title rule = Inr title \<Longrightarrow>
     map_of rule (if map_of rule ''title'' = None then ''ruleName'' else ''title'') = Some (JString title)"
  by (auto simp: rule_title_def read_rule_string_Inr json_object_get_value_def json_object_getn_value_map_of split: option.splits)

lemma read_testcase_Inr:
  assumes "read_testcase rule = Inr tc"
  shows "\<exists>ident. map_of rule ''id'' = Some (JString ident) \<and> TestcaseClassname rule ident = Inr (tc_classname tc)
    \<and> map_of rule (if map_of rule ''title'' = None then ''ruleName'' else ''title'') = Some (JString (tc_title tc))
    \<and> tc_status tc = rule_status rule \<and> known_status (rule_status rule)"
proof -
  obtain ident where c: "map_of rule ''id'' = Some (JString ident)" "TestcaseClassname rule ident = Inr (tc_classname tc)"
      "rule_title rule = Inr (tc_title tc)" "map_of rule ''status'' = Some (JString (tc_status tc))" "known_status (tc_status tc)"
    using assms by (auto simp: read_testcase_def result_simps read_rule_string_Inr split: if_splits)
  then show ?thesis using rule_title_Inr by (auto simp: rule_status_def)
qed

lemma testcase_Inr:
  assumes "testcase fmt rule used = Inr (n, st, used')"
  shows "nodes_ok [n] used used' \<and> case_of rule n \<and> st = rule_status rule"
proof -
  obtain tc u1 u2 u3 ts ns where c: "read_testcase rule = Inr tc" "AddElement ''testcase'' used = Inr u1"
      "add_attributes [(''classname'', tc_classname tc), (''name'', tc_title tc)] u1 = Inr u2"
      "BuildTags rule u2 = Inr (ts, u3)" "outcome fmt (tc_status tc) rule u3 = Inr (ns, used')"
      "n = Element ''testcase'' [(''classname'', tc_classname tc), (''name'', tc_title tc)] (ts @ ns)" "st = tc_status tc"
    using assms unfolding testcase_def by (auto simp: and_then_Inr simp del: add_attributes.simps)
  note t = BuildTags_Inr [OF c(4)] and o' = outcome_Inr [OF c(5)] and r = read_testcase_Inr [OF c(1)]
  have "filter (\<lambda>n. element_name n = Some s) ts = []" if "s \<noteq> ''tags''" for s
    using t that by (auto simp: filter_empty_conv)
  moreover have "length (filter (\<lambda>n. element_name n = Some s) ns) = length (filter (\<lambda>m. m = Some s) (map element_name ns))" for s
    by (simp add: filter_map comp_def)
  ultimately have "case_of rule n" using o' r c(6) by (auto simp: case_of_def)
  moreover have "nodes_ok [n] used used'"
    using add_attributes_Inr [OF c(3)] t o' c(2,6) by (auto simp: result_simps simp del: add_attributes.simps)
  ultimately show ?thesis using r c(7) by auto
qed

lemma testcases_Inr:
  "testcases fmt vs failures skipped used = Inr (ns, failures', skipped', used') \<Longrightarrow>
     \<exists>rules. vs = map JObject rules \<and> list_all2 case_of rules ns \<and> nodes_ok ns used used'
       \<and> failures' = failures + length (filter (\<lambda>r. rule_status r = ''NonCompliant'') rules)
       \<and> skipped' = skipped + length (filter (\<lambda>r. rule_status r = ''NotApplicable'' \<or> rule_status r = ''Skipped'') rules)"
proof (induction vs arbitrary: failures skipped used ns)
  case Nil
  then show ?case by simp
next
  case (Cons v vs)
  let ?f = "\<lambda>st. if st = ''NonCompliant'' then failures + 1 else failures"
  let ?s = "\<lambda>st. if st = ''NotApplicable'' \<or> st = ''Skipped'' then skipped + 1 else skipped"
  obtain rule n st u ns' where c: "v = JObject rule" "testcase fmt rule used = Inr (n, st, u)"
      "testcases fmt vs (?f st) (?s st) u = Inr (ns', failures', skipped', used')" "ns = n # ns'"
    using Cons.prems by (cases v) (auto simp: and_then_Inr)
  note t = testcase_Inr [OF c(2)]
  obtain rules where r: "vs = map JObject rules" "list_all2 case_of rules ns'" "nodes_ok ns' u used'"
      "failures' = ?f st + length (filter (\<lambda>r. rule_status r = ''NonCompliant'') rules)"
      "skipped' = ?s st + length (filter (\<lambda>r. rule_status r = ''NotApplicable'' \<or> rule_status r = ''Skipped'') rules)"
    using Cons.IH [OF c(3)] by blast
  have st: "st = rule_status rule" using t by blast
  have "v # vs = map JObject (rule # rules)" "list_all2 case_of (rule # rules) ns" using c r t by simp_all
  moreover have "nodes_ok ns used used'" using t r(3) c(4) by auto
  moreover have "failures' = failures + length (filter (\<lambda>r. rule_status r = ''NonCompliant'') (rule # rules))"
    using r(4) unfolding st by (cases "rule_status rule = ''NonCompliant''") simp_all
  moreover have "skipped' = skipped + length (filter (\<lambda>r. rule_status r = ''NotApplicable'' \<or> rule_status r = ''Skipped'') (rule # rules))"
    using r(5) unfolding st by (cases "rule_status rule = ''NotApplicable'' \<or> rule_status rule = ''Skipped''") simp_all
  ultimately show ?case by (intro exI [of _ "rule # rules"] conjI) iprover+
qed

section \<open>The document\<close>

lemma junit_document_Inr:
  assumes "junit_document fmt vs suiteName = Inr (doc, used)"
  shows "\<exists>rules cases. vs = map JObject rules \<and> list_all2 case_of rules cases
    \<and> doc = Element ''testsuites'' [] [Element ''testsuite''
        [(''name'', suiteName), (''tests'', to_string_nat (length rules)),
         (''failures'', to_string_nat (length (filter (\<lambda>r. rule_status r = ''NonCompliant'') rules))),
         (''skipped'', to_string_nat (length (filter (\<lambda>r. rule_status r = ''NotApplicable'' \<or> rule_status r = ''Skipped'') rules)))] cases]
    \<and> xml_ok doc \<and> used = weight doc \<and> weight doc \<le> kMaxJUnitBytes"
proof -
  obtain u1 u2 u3 u4 cases failures skipped where c: "AddElement ''testsuites'' 0 = Inr u1" "AddElement ''testsuite'' u1 = Inr u2"
      "AddAttribute ''name'' suiteName u2 = Inr u3" "testcases fmt vs 0 0 u3 = Inr (cases, failures, skipped, u4)"
      "add_attributes [(''tests'', to_string_nat (length vs)), (''failures'', to_string_nat failures), (''skipped'', to_string_nat skipped)] u4 = Inr used"
      "doc = Element ''testsuites'' [] [Element ''testsuite'' ((''name'', suiteName) #
         [(''tests'', to_string_nat (length vs)), (''failures'', to_string_nat failures), (''skipped'', to_string_nat skipped)]) cases]"
    using assms unfolding junit_document_def Let_def by (auto simp: and_then_Inr simp del: add_attributes.simps)
  obtain rules where r: "vs = map JObject rules" "list_all2 case_of rules cases" "nodes_ok cases u3 u4"
      "failures = length (filter (\<lambda>r. rule_status r = ''NonCompliant'') rules)"
      "skipped = length (filter (\<lambda>r. rule_status r = ''NotApplicable'' \<or> rule_status r = ''Skipped'') rules)"
    using testcases_Inr [OF c(4)] by auto
  have "xml_ok doc \<and> used = weight doc \<and> weight doc \<le> kMaxJUnitBytes"
    using c(1,2,6) AddAttribute_Inr [OF c(3)] add_attributes_Inr [OF c(5)] r(3)
    by (auto simp: result_simps simp del: add_attributes.simps)
  then show ?thesis using r c(6) by auto
qed

section \<open>Class names\<close>

text \<open>A length in front makes the components unambiguous.\<close>

lemma netstring_inject: "netstring s @ x = netstring t @ y \<longleftrightarrow> s = t \<and> x = y"
proof
  assume eq: "netstring s @ x = netstring t @ y"
  have colon: "takeWhile (\<lambda>c. c \<noteq> CHR '':'') (netstring r @ z) = to_string_nat (length r)" for r z
  proof -
    have "CHR '':'' \<notin> set (to_string_nat (length r))"
      using isdigit_to_string_nat [of "CHR '':''" "length r"] by (auto simp: isdigit_def)
    then have "\<forall>c\<in>set (to_string_nat (length r)). c \<noteq> CHR '':''" by blast
    then show ?thesis by (simp add: netstring_def takeWhile_append2)
  qed
  have "to_string_nat (length s) = to_string_nat (length t)" using colon eq by metis
  then have "length s = length t" using digits_value_to_string_nat by metis
  then show "s = t \<and> x = y" using eq by (simp add: netstring_def)
qed simp

lemma netstrings_inject:
  "length ss = length ts \<Longrightarrow> concat (map netstring ss) @ x = concat (map netstring ts) @ y \<longleftrightarrow> ss = ts \<and> x = y"
  by (induction ss ts arbitrary: x y rule: list_induct2) (auto simp: netstring_inject)

text \<open>The provenance of a rule: its benchmark's identity, in the order of the keys.\<close>

definition provenance :: "jobject \<Rightarrow> json list" where
  "provenance rule =
     (case map_of rule ''benchmark'' of
        Some (JObject b) \<Rightarrow> map (\<lambda>key. the (map_of b key)) benchmark_keys
      | _ \<Rightarrow> [])"

lemma benchmark_component_Inr:
  "benchmark_component b key = Inr c \<Longrightarrow> the (map_of b key) = JString c"
  by (auto simp: benchmark_component_def json_object_get_value_def json_object_getn_value_map_of split: option.splits json.splits if_splits)

lemma TestcaseClassname_Inr:
  assumes "TestcaseClassname rule ident = Inr classname" "map_of rule ''benchmark'' \<noteq> None"
  shows "\<exists>cs. length cs = 4 \<and> provenance rule = map JString cs \<and> classname = concat (map netstring cs) @ netstring ident"
proof -
  obtain b cs where b: "map_of rule ''benchmark'' = Some (JObject b)"
      "map_result (benchmark_component b) benchmark_keys = Inr cs" "classname = concat (map netstring cs) @ netstring ident"
    using assms by (auto simp: TestcaseClassname_def and_then_Inr json_object_get_value_def json_object_getn_value_map_of
        split: option.splits json.splits)
  have c: "list_all2 (\<lambda>key c. benchmark_component b key = Inr c) benchmark_keys cs"
    using b(2) by (simp add: map_result_Inr_iff)
  then have "map (\<lambda>key. the (map_of b key)) benchmark_keys = map JString cs"
    using benchmark_component_Inr by (auto simp: list_all2_conv_all_nth intro!: nth_equalityI)
  moreover have "length cs = 4" using list_all2_lengthD [OF c] by (simp add: benchmark_keys_def)
  ultimately show ?thesis using b by (auto simp: provenance_def)
qed

lemma TestcaseClassname_inject:
  assumes "TestcaseClassname r i = Inr c" "TestcaseClassname r' i' = Inr c"
    and "map_of r ''benchmark'' \<noteq> None" "map_of r' ''benchmark'' \<noteq> None"
  shows "i = i' \<and> provenance r = provenance r'"
proof -
  obtain cs cs' where "length cs = 4" "provenance r = map JString cs" "c = concat (map netstring cs) @ netstring i"
    "length cs' = 4" "provenance r' = map JString cs'" "c = concat (map netstring cs') @ netstring i'"
    using TestcaseClassname_Inr assms by metis
  then show ?thesis using netstrings_inject [of cs cs' "netstring i" "netstring i'"] netstring_inject [of i "[]" i' "[]"] by simp
qed

section \<open>Characters, as code points\<close>

text \<open>The reference: the UTF-8 encoding of a code point.\<close>

definition utf8 :: "nat \<Rightarrow> nat list" where
  "utf8 cp =
     (if cp < 0x80 then [cp]
      else if cp < 0x800 then [0xC0 + cp div 64, 0x80 + cp mod 64]
      else if cp < 0x10000 then [0xE0 + cp div 64 div 64, 0x80 + cp div 64 mod 64, 0x80 + cp mod 64]
      else [0xF0 + cp div 64 div 64 div 64, 0x80 + cp div 64 div 64 mod 64, 0x80 + cp div 64 mod 64, 0x80 + cp mod 64])"

lemma continuation_byte: "(0x80 + x mod 64) div 64 = (2::nat)" "(0x80 + x mod 64) mod 64 = (x mod 64 :: nat)"
  using div_mult_self1 [of 64 "x mod 64" 2] mod_mult_self1 [of "x mod 64" 2 64] by (simp_all add: add.commute)

lemma lead_byte_simps:
  "q < 0x80 \<Longrightarrow> lead_byte q = Some (q, 1)"
  "2 \<le> q \<Longrightarrow> q < 32 \<Longrightarrow> lead_byte (0xC0 + q) = Some (q, 2)"
  "q < 16 \<Longrightarrow> lead_byte (0xE0 + q) = Some (q, 3)"
  "q \<le> 4 \<Longrightarrow> lead_byte (0xF0 + q) = Some (q, 4)"
proof -
  have "q < 32 \<Longrightarrow> (0xC0 + q) mod 32 = q" "q < 16 \<Longrightarrow> (0xE0 + q) mod 16 = q" "q \<le> 4 \<Longrightarrow> (0xF0 + q) mod 8 = q"
    using mod_mult_self1 [of q 6 32] mod_mult_self1 [of q 14 16] mod_mult_self1 [of q 30 8] by (simp_all add: add.commute)
  then show "q < 0x80 \<Longrightarrow> lead_byte q = Some (q, 1)"
    "2 \<le> q \<Longrightarrow> q < 32 \<Longrightarrow> lead_byte (0xC0 + q) = Some (q, 2)"
    "q < 16 \<Longrightarrow> lead_byte (0xE0 + q) = Some (q, 3)"
    "q \<le> 4 \<Longrightarrow> lead_byte (0xF0 + q) = Some (q, 4)"
    by (simp_all add: lead_byte_def)
qed

lemma first_xml_char_utf8:
  assumes "xml_char cp"
  shows "first_xml_char (utf8 cp @ rest) = Some (length (utf8 cp))"
proof -
  define a where "a = cp div 64"
  define b where "b = a div 64"
  define c where "c = b div 64"
  have max: "cp \<le> 0x10FFFF" using assms by (auto simp: xml_char_def)
  consider (1) "cp < 0x80" | (2) "0x80 \<le> cp" "cp < 0x800" | (3) "0x800 \<le> cp" "cp < 0x10000" | (4) "0x10000 \<le> cp"
    by linarith
  then show ?thesis
  proof cases
    case 1
    then show ?thesis using assms by (simp add: utf8_def first_xml_char_def lead_byte_simps)
  next
    case 2
    have "2 \<le> a" "a < 32" unfolding a_def using div_le_mono [OF 2(1), of 64] 2(2) by (simp_all add: less_mult_imp_div_less)
    then show ?thesis
      using 2 assms by (simp add: utf8_def first_xml_char_def continuation_byte div_mult_mod_eq lead_byte_simps a_def)
  next
    case 3
    then have "a < 0x400" unfolding a_def by (simp add: less_mult_imp_div_less)
    then have "b < 16" unfolding b_def by (simp add: less_mult_imp_div_less)
    then show ?thesis
      using 3 assms by (simp add: utf8_def first_xml_char_def continuation_byte div_mult_mod_eq lead_byte_simps a_def b_def)
  next
    case 4
    have "a \<le> 0x43FF" unfolding a_def using div_le_mono [OF max, of 64] by simp
    from div_le_mono [OF this, of 64] have "b \<le> 0x10F" unfolding b_def by simp
    from div_le_mono [OF this, of 64] have "c \<le> 4" unfolding c_def by simp
    then show ?thesis
      using 4 assms by (simp add: utf8_def first_xml_char_def continuation_byte div_mult_mod_eq lead_byte_simps a_def b_def c_def)
  qed
qed

lemma six_bits: "(k * 64 + m mod 64) div 64 = (k::nat)" "(k * 64 + m mod 64) mod 64 = m mod 64"
  by simp_all

lemma three_bytes: "q < 16 \<Longrightarrow> x < 64 \<Longrightarrow> y < 64 \<Longrightarrow> (q * 64 + x) * 64 + y < (0x10000 :: nat)"
proof -
  assume small: "q < 16" "x < 64" "y < 64"
  have digit: "k < n \<Longrightarrow> m < 64 \<Longrightarrow> k * 64 + m < n * 64" for k m n :: nat by linarith
  show ?thesis using digit [OF digit [OF small(1,2)] small(3)] by simp
qed

lemma continuation_byte_conv: "b div 64 = (2::nat) \<Longrightarrow> b = 0x80 + b mod 64"
  using div_mult_mod_eq [of b 64] by simp

lemma lead_byte_conv:
  assumes "lead_byte b = Some (q, len)"
  shows "len = 1 \<and> b = q \<and> q < 0x80 \<or> len = 2 \<and> b = 0xC0 + q \<and> q < 32 \<or> len = 3 \<and> b = 0xE0 + q \<and> q < 16
    \<or> len = 4 \<and> b = 0xF0 + q \<and> q \<le> 4"
proof -
  have "r < n \<Longrightarrow> (k * n + r) mod n = r" for k n r :: nat by simp
  from this [of _ 32 6] this [of _ 16 14] this [of _ 8 30]
  have mods: "r < 32 \<Longrightarrow> (0xC0 + r) mod 32 = r" "r < 16 \<Longrightarrow> (0xE0 + r) mod 16 = r" "r < 8 \<Longrightarrow> (0xF0 + r) mod 8 = r" for r :: nat
    by simp_all
  consider (1) "b < 0x80" | (2) r where "b = 0xC0 + r" "2 \<le> r" "r < 32" | (3) r where "b = 0xE0 + r" "r < 16"
    | (4) r where "b = 0xF0 + r" "r \<le> 4" | (none) "lead_byte b = None"
  proof -
    have "0xC2 \<le> b \<and> b \<le> 0xDF \<Longrightarrow> \<exists>r. b = 0xC0 + r \<and> 2 \<le> r \<and> r < 32" by (intro exI [of _ "b - 0xC0"]) auto
    moreover have "0xE0 \<le> b \<and> b \<le> 0xEF \<Longrightarrow> \<exists>r. b = 0xE0 + r \<and> r < 16" by (intro exI [of _ "b - 0xE0"]) auto
    moreover have "0xF0 \<le> b \<and> b \<le> 0xF4 \<Longrightarrow> \<exists>r. b = 0xF0 + r \<and> r \<le> 4" by (intro exI [of _ "b - 0xF0"]) auto
    moreover have "lead_byte b = None"
      if "\<not> b < 0x80" "\<not> (0xC2 \<le> b \<and> b \<le> 0xDF)" "\<not> (0xE0 \<le> b \<and> b \<le> 0xEF)" "\<not> (0xF0 \<le> b \<and> b \<le> 0xF4)"
      using that by (auto simp: lead_byte_def)
    ultimately show ?thesis using that by blast
  qed
  then show ?thesis using assms mods by cases (auto simp: lead_byte_simps)
qed

lemma first_xml_char_conv:
  assumes "first_xml_char bs = Some len" "bs \<noteq> []"
  shows "\<exists>cp. xml_char cp \<and> take len bs = utf8 cp"
proof -
  obtain b bs' where bs: "bs = b # bs'" using assms(2) by (cases bs) auto
  obtain q cp where lead: "lead_byte b = Some (q, len)" and len: "len \<le> length bs"
    and cont: "continuation q (take (len - 1) bs') = Some cp"
    and cp: "xml_char cp" "len = 2 \<longrightarrow> 0x80 \<le> cp" "len = 3 \<longrightarrow> 0x800 \<le> cp" "len = 4 \<longrightarrow> 0x10000 \<le> cp"
    using assms by (auto simp: bs first_xml_char_def split: option.splits if_splits)
  from lead_byte_conv [OF lead] consider "len = 1" "b = q" "q < 0x80" | "len = 2" "b = 0xC0 + q" "q < 32"
    | "len = 3" "b = 0xE0 + q" "q < 16" | "len = 4" "b = 0xF0 + q" "q \<le> 4" by blast
  then have "take len bs = utf8 cp"
  proof cases
    case 1
    then show ?thesis using cont by (simp add: bs utf8_def)
  next
    case 2
    then obtain x rest where x: "bs' = x # rest" using len bs by (cases bs') auto
    then have c: "x = 0x80 + x mod 64" "cp = q * 64 + x mod 64"
      using cont 2 continuation_byte_conv by (auto split: if_splits)
    have "cp div 64 = q" "cp mod 64 = x mod 64" using c(2) by simp_all
    moreover have "cp < 0x800" using c(2) 2(3) mod_less_divisor [of 64 x] by linarith
    ultimately show ?thesis using 2 cp c(1) by (simp add: bs x utf8_def)
  next
    case 3
    then obtain x y rest where x: "bs' = x # y # rest" using len bs by (cases bs'; cases "tl bs'") auto
    then have c: "x = 0x80 + x mod 64" "y = 0x80 + y mod 64" "cp = (q * 64 + x mod 64) * 64 + y mod 64"
      using cont 3 continuation_byte_conv by (auto split: if_splits)
    have "cp div 64 = q * 64 + x mod 64" "cp mod 64 = y mod 64" unfolding c(3) by (rule six_bits)+
    moreover have "cp < 0x10000" unfolding c(3) using 3(3) by (intro three_bytes) simp_all
    ultimately show ?thesis using 3 cp c(1,2) by (simp add: bs x utf8_def)
  next
    case 4
    then obtain x y z rest where x: "bs' = x # y # z # rest"
      using len bs by (cases bs'; cases "tl bs'"; cases "tl (tl bs')") auto
    then have c: "x = 0x80 + x mod 64" "y = 0x80 + y mod 64" "z = 0x80 + z mod 64"
        "cp = ((q * 64 + x mod 64) * 64 + y mod 64) * 64 + z mod 64"
      using cont 4 continuation_byte_conv by (auto split: if_splits)
    have "cp div 64 = (q * 64 + x mod 64) * 64 + y mod 64" "cp mod 64 = z mod 64" unfolding c(4) by (rule six_bits)+
    then have "cp div 64 mod 64 = y mod 64" "cp div 64 div 64 = q * 64 + x mod 64"
      "cp mod 64 = z mod 64" by (simp_all only: six_bits)
    moreover from this have "cp div 64 div 64 div 64 = q" "cp div 64 div 64 mod 64 = x mod 64"
      by (simp_all only: six_bits)
    ultimately show ?thesis using 4 cp c(1-3) by (simp add: bs x utf8_def)
  qed
  then show ?thesis using cp(1) by blast
qed

theorem valid_xml_bytes_iff:
  "valid_xml_bytes bs \<longleftrightarrow> (\<exists>cps. list_all xml_char cps \<and> bs = concat (map utf8 cps))"
proof
  show "valid_xml_bytes bs \<Longrightarrow> \<exists>cps. list_all xml_char cps \<and> bs = concat (map utf8 cps)"
  proof (induction bs rule: valid_xml_bytes.induct)
    case (1 bs)
    show ?case
    proof (cases "bs = []")
      case True
      then show ?thesis by (intro exI [of _ "[]"]) simp
    next
      case False
      then obtain len where l: "first_xml_char bs = Some len" "valid_xml_bytes (drop len bs)"
        using "1.prems" by (auto simp: valid_xml_bytes.simps [of bs] split: option.splits)
      obtain cp where "xml_char cp" "take len bs = utf8 cp" using first_xml_char_conv [OF l(1) False] by blast
      moreover obtain cps where "list_all xml_char cps" "drop len bs = concat (map utf8 cps)"
        using "1.IH" [OF False l] by blast
      ultimately show ?thesis
        using append_take_drop_id [of len bs] by (intro exI [of _ "cp # cps"]) simp
    qed
  qed
next
  have "list_all xml_char cps \<Longrightarrow> valid_xml_bytes (concat (map utf8 cps))" for cps
  proof (induction cps)
    case Nil
    then show ?case by (simp add: valid_xml_bytes.simps)
  next
    case (Cons cp cps)
    then have "first_xml_char (utf8 cp @ concat (map utf8 cps)) = Some (length (utf8 cp))"
      using first_xml_char_utf8 by simp
    moreover have "utf8 cp \<noteq> []" by (simp add: utf8_def)
    ultimately show ?case using Cons by (simp add: valid_xml_bytes.simps [of "utf8 cp @ _"])
  qed
  then show "\<exists>cps. list_all xml_char cps \<and> bs = concat (map utf8 cps) \<Longrightarrow> valid_xml_bytes bs" by blast
qed

end
