(* ===== verification/KompliMain.thy ===== *)
theory KompliMain
  imports Kompli JUnitRenderer
begin

text \<open>
  \<open>kompli/Main.cpp\<close>: \<open>main\<close>, the \<open>render\<close> command, and \<open>PrintHelp\<close> of \<open>kompli/CliOptions.cpp\<close>. The
  outcome of the program is its exit code and what it prints; the file creation mask is what
  \<open>PlanWrite\<close> creates its file with.
\<close>

section \<open>The help text\<close>

definition PrintHelp :: "bool \<Rightarrow> string \<Rightarrow> string" where
  "PrintHelp telemetry programName =
     ''Usage: '' @ programName @ '' [options] <command> [filename...]'' @ [NL] @ [NL]
     @ ''Commands:'' @ [NL]
     @ [TAB] @ ''render'' @ [TAB] @ [TAB] @ ''Render a canonical result JSON into a presentation format.'' @ [NL]
     @ [TAB] @ ''plan'' @ [TAB] @ [TAB] @ ''Generate a plan file selecting a mode (audit/remediate/enforce) per rule, from one or more files.'' @ [NL]
     @ [TAB] @ ''run'' @ [TAB] @ [TAB] @ ''Execute a plan file, emit the canonical result JSON.'' @ [NL]
     @ [TAB] @ ''list'' @ [TAB] @ [TAB] @ ''Enumerate a benchmark-definition file'' @ [SQ] @ ''s rules (id, title).'' @ [NL]
     @ [NL]
     @ ''Common options:'' @ [NL]
     @ [TAB] @ ''-h, --help'' @ [TAB] @ ''Show help and exit.'' @ [NL]
     @ [TAB] @ ''-V, --version'' @ [TAB] @ ''Show software version and exit.'' @ [NL]
     @ [TAB] @ ''-v, --verbose'' @ [TAB] @ ''Run in verbose mode.'' @ [NL]
     @ [TAB] @ ''-d, --debug'' @ [TAB] @ ''Run in debug mode.'' @ [NL]
     @ [TAB] @ ''-l, --log-file'' @ [TAB] @ ''Specify a log file. Default: print log entries to standard error.'' @ [NL]
     @ (if telemetry then [TAB] @ ''-t, --telemetry'' @ [TAB] @ ''Enable telemetry event logging. Default: disabled.'' @ [NL] else [])
     @ [NL]
     @ ''run options:'' @ [NL]
     @ [TAB] @ ''-e, --continue-on-error'' @ [TAB] @ ''Skip rules that fail due to engine errors and continue processing. Returns 1 if any error occurred.'' @ [NL]
     @ [TAB] @ ''filename'' @ [TAB] @ ''The plan file to execute. Required: the file must be supplied on disk; stdin ('' @ [SQ] @ ''-'' @ [SQ] @ '') is not supported for definitions.'' @ [NL]
     @ [NL]
     @ ''plan options:'' @ [NL]
     @ [TAB] @ ''filename...'' @ [TAB] @ ''One or more benchmark-definition JSON files; one plan spanning all of them.'' @ [NL]
     @ [TAB] @ ''    --audit=<ref>'' @ [TAB] @ ''Set <ref>'' @ [SQ] @ ''s mode to audit (the default for every rule). Repeatable. <ref> is an unqualified <id> with'' @ [NL] @ [TAB] @ [TAB] @ [TAB] @ ''one file, or <file-basename>:<id> with more than one.'' @ [NL]
     @ [TAB] @ ''    --remediate=<ref>'' @ [TAB] @ ''Set <ref>'' @ [SQ] @ ''s mode to remediate. Repeatable. Same <ref> form as --audit=.'' @ [NL]
     @ [TAB] @ ''    --enforce=<ref>'' @ [TAB] @ ''Set <ref>'' @ [SQ] @ ''s mode to enforce (accepted, not yet executable by '' @ [SQ] @ ''run'' @ [SQ] @ ''). Repeatable. Same <ref> form as --audit=.'' @ [NL]
     @ [TAB] @ ''    --param=<ref>.<name>=<value>'' @ [TAB] @ ''Override parameter <name> for <ref> (default: pre-filled from the definition'' @ [SQ] @ ''s parameterMetadata). Repeatable. Same <ref> form as --audit=.'' @ [NL]
     @ [TAB] @ ''-o, --output'' @ [TAB] @ ''Write the generated plan to this path. Default: standard output.'' @ [NL]
     @ [NL]
     @ ''render options:'' @ [NL]
     @ [TAB] @ ''-f, --format'' @ [TAB] @ ''Presentation format. Allowed values: {junit, nested-list, compact-list, debug}. Default: junit.'' @ [NL]
     @ [TAB] @ ''    --suite-name'' @ [TAB] @ ''Name for the JUnit <testsuite>. Default: compliance.'' @ [NL]
     @ [TAB] @ ''filename'' @ [TAB] @ ''Read the canonical result JSON from this file. Optional: if skipped or '' @ [SQ] @ ''-'' @ [SQ] @ '', reads standard input.'' @ [NL]
     @ [NL]
     @ ''list options:'' @ [NL]
     @ [TAB] @ ''filename'' @ [TAB] @ ''Enumerate rules (id, title, one per line) in this benchmark-definition JSON file.'' @ [NL]"

section \<open>The program\<close>

text \<open>What \<open>main\<close> finds: the world of \<open>run\<close>, whether the build has telemetry, its version, the
  calls that write a plan, the library that prints the XML tree in pieces, standard input and the
  files \<open>std::ifstream\<close> opens.\<close>

record 'w main_env =
  me_kompli :: "'w kompli_env"
  me_telemetry :: bool
  me_version :: string
  me_output :: output_calls
  me_save :: "xml \<Rightarrow> string list"
  me_stdin :: stream
  me_ifstream :: "string \<Rightarrow> stream option"

abbreviation kMaxResultJsonBytes :: nat where "kMaxResultJsonBytes \<equiv> 256 * 1024 * 1024"

definition Main_ReadAllBounded :: "stream \<Rightarrow> string result" where
  "Main_ReadAllBounded =
     ReadAllBounded kMaxResultJsonBytes (Error ''Input exceeds the maximum allowed size'' EFBIG)
       (Error ''Failed to read input'' EIO)"

definition render_input :: "'w main_env \<Rightarrow> Options \<Rightarrow> string result" where
  "render_input env o' =
     (if opt_input o' = [] \<or> opt_input o' = ''-'' then Main_ReadAllBounded (me_stdin env)
      else case me_ifstream env (c_str (opt_input o')) of
        None \<Rightarrow> Inl (Error1 (''failed to open input file '' @ quoted (opt_input o') @ ''.''))
      | Some s \<Rightarrow> Main_ReadAllBounded s)"

definition render_format :: "'w main_env \<Rightarrow> Options \<Rightarrow> string \<Rightarrow> string result" where
  "render_format env o' json =
     (let strtod = pe_strtod (ke_plan (me_kompli env)); fmt = pe_fmt (ke_plan (me_kompli env));
          suite = (case suiteName o' of Some s \<Rightarrow> s | None \<Rightarrow> ''compliance'')
      in case (case opt_format o' of Some f \<Rightarrow> f | None \<Rightarrow> Junit) of
           Junit \<Rightarrow> RenderJUnit strtod fmt (me_save env) json suite
         | NestedList \<Rightarrow> RenderText strtod fmt json NestedListStyle
         | CompactList \<Rightarrow> RenderText strtod fmt json CompactListStyle
         | Debug \<Rightarrow> RenderText strtod fmt json DebugStyle)"

definition RunRender :: "'w main_env \<Rightarrow> Options \<Rightarrow> run_outcome" where
  "RunRender env o' =
     (case and_then (render_input env o') (render_format env o') of
        Inl e \<Rightarrow> failure
      | Inr text \<Rightarrow> \<lparr>exit_code = 0, printed = text\<rparr>)"

text \<open>\<open>main\<close> with its arguments behind the name of the program. The state is the file a plan is
  written to and, once the context of a run exists, the system the engine works on.\<close>

definition kompli_main ::
  "'w main_env \<Rightarrow> string \<Rightarrow> string list \<Rightarrow> output_state \<Rightarrow> (run_outcome \<times> output_state \<times> 'w option) option" where
  "kompli_main env prog args s =
     (case ParseCommandLine (me_telemetry env) args of
        Inl e \<Rightarrow> Some (\<lparr>exit_code = 1, printed = PrintHelp (me_telemetry env) prog\<rparr>, s, None)
      | Inr o' \<Rightarrow>
          (case command o' of
             Help \<Rightarrow> Some (\<lparr>exit_code = 0, printed = PrintHelp (me_telemetry env) prog\<rparr>, s, None)
           | Version \<Rightarrow>
               Some (\<lparr>exit_code = 0, printed = ''kompli'' @ [NL] @ ''Version: '' @ me_version env @ [NL]\<rparr>, s, None)
           | Render \<Rightarrow> Some (RunRender env o', s, None)
           | Plan \<Rightarrow>
               map_option (\<lambda>(r, s). (r, s, None)) (RunPlan (ke_plan (me_kompli env)) (me_output env) o' s)
           | List \<Rightarrow> Some (RunList (ke_plan (me_kompli env)) o', s, None)
           | Run \<Rightarrow> (case RunRun (me_kompli env) o' of (r, w) \<Rightarrow> Some (r, s, w))))"

end
