(* ===== verification/ReportProps.thy ===== *)
theory ReportProps
  imports KompliMain KompliProps
begin

text \<open>
  The document \<open>run\<close> prints and \<open>render\<close> reads. Every setter of \<open>RuleResult.cpp\<close> and
  \<open>BenchmarkFormatter.cpp\<close> keeps the document a value the parser could have built, with a list of
  rule objects in it; so what a run prints is read back, and the text renderer writes one entry per
  rule of the report, in order.
\<close>

section \<open>The setters keep the document\<close>

definition object_ok :: "jobject \<Rightarrow> bool" where
  "object_ok ob \<longleftrightarrow> json_ok (JObject ob)"

lemma object_ok_simps [simp]: "object_ok []" "json_ok (JObject ob) \<longleftrightarrow> object_ok ob"
  by (simp_all add: object_ok_def del: json_ok.simps) simp

declare json_ok.simps(1) [simp del]

lemma object_ok_iff:
  "object_ok ob \<longleftrightarrow> distinct (map fst ob) \<and> (\<forall>m\<in>set ob. NUL \<notin> set (fst m) \<and> json_ok (snd m))"
  unfolding object_ok_def by (rule json_ok.simps(1))

lemma member_ok: "object_ok ob \<Longrightarrow> map_of ob k = Some v \<Longrightarrow> json_ok v"
  unfolding object_ok_iff by (drule map_of_SomeD) fastforce

lemma set_member_ok:
  assumes "json_object_set_value ob k v = Some ob'" "object_ok ob" "json_ok v" "NUL \<notin> set k"
  shows "object_ok ob'"
proof -
  have keys: "map fst (replace_member ms k v) = map fst ms" for ms by (induction ms) auto
  have members: "m \<in> set (replace_member ms k v) \<Longrightarrow> m = (k, v) \<or> m \<in> set ms" for m ms by (induction ms) (auto split: if_splits)
  show ?thesis
  proof (cases "json_object_get_value (Some ob) k")
    case None
    then have "k \<notin> fst ` set ob" "ob' = ob @ [(k, v)]"
      using assms(1)
      by (auto simp: json_object_set_value_def json_object_add_def json_object_get_value_def json_object_getn_value_map_of
          map_of_eq_None_iff split: if_splits)
    then show ?thesis using assms(2-4) by (auto simp: object_ok_iff)
  next
    case (Some x)
    then have "ob' = replace_member ob k v" using assms(1) by (simp add: json_object_set_value_def)
    then show ?thesis using assms(2-4) keys members [of _ ob] unfolding object_ok_iff by (metis fst_conv snd_conv)
  qed
qed

lemma set_value_ok: "set_value msg ob k v = Inr ob' \<Longrightarrow> object_ok ob \<Longrightarrow> json_ok v \<Longrightarrow> NUL \<notin> set k \<Longrightarrow> object_ok ob'"
  unfolding set_value_def or_error_iff by (rule set_member_ok)

lemma object_set_string_ok: "json_object_set_string ob k s = Some ob' \<Longrightarrow> object_ok ob \<Longrightarrow> object_ok ob'"
  by (auto simp: json_object_set_string_def json_value_init_string_def json_value_init_string_with_len_def
      split: if_splits elim: set_member_ok)

lemma object_set_string_len_ok:
  "json_object_set_string_with_len ob k s = Some ob' \<Longrightarrow> object_ok ob \<Longrightarrow> object_ok ob'"
  by (auto simp: json_object_set_string_with_len_def json_value_init_string_with_len_def
      split: if_splits elim: set_member_ok)

lemma set_string_ok: "set_string msg c ob k s = Inr ob' \<Longrightarrow> object_ok ob \<Longrightarrow> object_ok ob'"
  unfolding set_string_def or_error_iff by (rule object_set_string_ok)

lemma set_strings_ok: "set_strings kvs ob = Some ob' \<Longrightarrow> object_ok ob \<Longrightarrow> object_ok ob'"
proof (induction kvs ob rule: set_strings.induct)
  case (2 name v kvs ob)
  then show ?case by (auto split: option.splits dest: object_set_string_ok)
qed simp

lemma tags_ok: "tags_loop ts vs = Inr vs' \<Longrightarrow> json_ok (JArray vs) \<Longrightarrow> json_ok (JArray vs')"
proof (induction ts vs rule: tags_loop.induct)
  case (2 t ts vs)
  then show ?case
    by (auto simp: result_simps json_array_append_string_def json_value_init_string_def
        json_value_init_string_with_len_def split: option.splits if_splits)
qed simp

lemma metadata_fields_ok: "metadata_fields_loop fs ob = Inr ob' \<Longrightarrow> object_ok ob \<Longrightarrow> object_ok ob'"
proof (induction fs ob rule: metadata_fields_loop.induct)
  case (2 key v fs ob)
  then show ?case by (auto simp: result_simps split: option.splits if_splits dest: object_set_string_len_ok)
qed simp

lemma additional_fields_ok: "additional_fields_loop fs ob = Inr ob' \<Longrightarrow> object_ok ob \<Longrightarrow> object_ok ob'"
proof (induction fs ob rule: additional_fields_loop.induct)
  case (2 key v fs ob)
  then show ?case by (auto simp: result_simps split: if_splits dest: object_set_string_len_ok)
qed simp

lemma result_parameters_ok: "result_parameters_loop ps ob = Inr ob' \<Longrightarrow> object_ok ob \<Longrightarrow> object_ok ob'"
proof (induction ps ob rule: result_parameters_loop.induct)
  case (2 key v ps ob)
  then show ?case by (auto simp: result_simps dest: object_set_string_ok)
qed simp

lemma FillCommonRuleFields_ok:
  assumes "FillCommonRuleFields ob entry ps = Inr ob'" "object_ok ob"
  shows "object_ok ob'"
proof -
  obtain b md ts pv o1 o2 o3 o4 o5 o6 o7 where
      parts: "benchmark_json (res_benchmarkInfo entry) = Inr b" "tags_loop (tags entry) [] = Inr ts"
        "metadata_json (res_metadata entry) = Inr md" "result_parameters_loop ps [] = Inr pv"
    and sets: "set_value ''Failed to set JSON benchmark provenance'' ob ''benchmark'' (JObject b) = Inr o1"
        "set_string ''Failed to set JSON title'' ENOMEM o1 ''title'' (resourceID entry) = Inr o2"
        "set_string ''Failed to set JSON id'' ENOMEM o2 ''id'' (res_id entry) = Inr o3"
        "set_string ''Failed to set JSON ruleId'' ENOMEM o3 ''ruleId'' (ruleId entry) = Inr o4"
        "set_string ''Failed to set JSON ruleName'' ENOMEM o4 ''ruleName'' (res_ruleName entry) = Inr o5"
        "set_value ''Failed to set tags'' o5 ''tags'' (JArray ts) = Inr o6"
        "set_value ''Failed to set metadata'' o6 ''metadata'' (JObject md) = Inr o7"
        "set_value ''Failed to set parameters'' o7 ''parameters'' (JObject pv) = Inr ob'"
    using assms(1) by (auto simp: FillCommonRuleFields_def and_then_Inr)
  have "object_ok b" using parts(1) unfolding benchmark_json_def or_error_iff by (rule set_strings_ok) simp
  moreover have "object_ok md"
    using parts(3) unfolding metadata_json_def and_then_Inr
    by (elim exE conjE) (erule additional_fields_ok, erule metadata_fields_ok, simp)
  moreover have "json_ok (JArray ts)" using tags_ok [OF parts(2)] by simp
  moreover have "object_ok pv" using result_parameters_ok [OF parts(4)] by simp
  ultimately show ?thesis
    using set_value_ok [OF sets(1)] set_string_ok [OF sets(2)] set_string_ok [OF sets(3)] set_string_ok [OF sets(4)]
      set_string_ok [OF sets(5)] set_value_ok [OF sets(6)] set_value_ok [OF sets(7)] set_value_ok [OF sets(8)] assms(2)
    by simp
qed

lemma BuildRuleResultJson_ok:
  assumes "BuildRuleResultJson strtod entry st payload ps act = Inr v"
  shows "json_ok v \<and> (\<exists>ms. v = JObject ms)"
proof -
  obtain vs o1 o2 o3 o4 where p: "json_parse_string strtod (c_str payload) = Some (JArray vs)"
    and o: "set_value ''Failed to set JSON payload'' [] ''indicators'' (JArray vs) = Inr o1"
      "set_string ''Failed to set JSON status'' ENOMEM o1 ''status'' (status_to_string st) = Inr o2"
      "set_string ''Failed to set JSON action'' ENOMEM o2 ''action'' (if act = Audit then ''Audit'' else ''Remediation'') = Inr o3"
      "FillCommonRuleFields o3 entry ps = Inr o4" "v = JObject o4"
    using assms by (auto simp: BuildRuleResultJson_def and_then_Inr split: option.splits json.splits)
  have "json_ok (JArray vs)" using json_parse_string_ok [OF p] by blast
  then have "object_ok o1" using set_value_ok [OF o(1)] by simp
  then have "object_ok o3" using set_string_ok [OF o(2)] set_string_ok [OF o(3)] by blast
  then show ?thesis using FillCommonRuleFields_ok [OF o(4)] o(5) by simp
qed

lemma BuildSkippedRuleResultJson_ok:
  assumes "BuildSkippedRuleResultJson entry ps = Inr v"
  shows "json_ok v \<and> (\<exists>ms. v = JObject ms)"
proof -
  obtain o1 o2 o3 where
    o: "set_value ''Failed to set JSON payload'' [] ''indicators'' (JArray []) = Inr o1"
      "set_string ''Failed to set JSON status'' ENOMEM o1 ''status'' ''Skipped'' = Inr o2"
      "FillCommonRuleFields o2 entry ps = Inr o3" "v = JObject o3"
    using assms by (auto simp: BuildSkippedRuleResultJson_def and_then_Inr)
  have "object_ok o1" using set_value_ok [OF o(1)] by simp
  then show ?thesis using set_string_ok [OF o(2)] FillCommonRuleFields_ok [OF o(3)] o(4) by simp
qed

section \<open>Reports\<close>

text \<open>A report: a value the parser could have built, with its list of rule objects.\<close>

definition report_ok :: "jobject \<Rightarrow> bool" where
  "report_ok ob \<longleftrightarrow> object_ok ob \<and> (\<exists>rules. map_of ob ''rules'' = Some (JArray (map JObject rules)))"

lemma Begin_ok: "BenchmarkFormatter_Begin ts di = Inr ob \<Longrightarrow> report_ok ob"
proof -
  assume "BenchmarkFormatter_Begin ts di = Inr ob"
  then obtain o1 host o2 where
    o: "set_string ''Failed to set timestamp'' ENOMEM [] ''timestamp'' ts = Inr o1"
      "set_strings [(''arch'', the (to_string_Architecture (architecture di))),
          (''distribution'', distribution_name (distribution di)), (''distributionVersion'', version di)] [] = Some host"
      "set_value ''Failed to set host info'' o1 ''host'' (JObject host) = Inr o2"
      "set_value ''Failed to set rules'' o2 ''rules'' (JArray []) = Inr ob"
    unfolding BenchmarkFormatter_Begin_def and_then_Inr or_error_iff by blast
  have "object_ok host" using set_strings_ok [OF o(2)] by simp
  moreover have "object_ok o1" using set_string_ok [OF o(1)] by simp
  ultimately have "object_ok o2" using set_value_ok [OF o(3)] by simp
  then have "object_ok ob" using set_value_ok [OF o(4)] by simp
  moreover have "map_of ob ''rules'' = Some (JArray (map JObject []))" using set_value_Inr [OF o(4)] by simp
  ultimately show ?thesis unfolding report_ok_def by blast
qed

lemma AppendRuleJson_ok:
  assumes "AppendRuleJson v ob = Inr ob'" "report_ok ob" "json_ok v \<and> (\<exists>ms. v = JObject ms)"
  shows "report_ok ob'"
proof -
  obtain rules where r: "map_of ob ''rules'' = Some (JArray (map JObject rules))" using assms(2) by (auto simp: report_ok_def)
  obtain ms where ms: "v = JObject ms" using assms(3) by blast
  have ob': "ob' = replace_member ob ''rules'' (JArray (map JObject (rules @ [ms])))"
    using assms(1) r ms by (auto simp: AppendRuleJson_def json_object_get_array_def)
  have "json_ok (JArray (map JObject rules))"
    using member_ok [OF _ r] assms(2) unfolding report_ok_def by blast
  then have "json_ok (JArray (map JObject (rules @ [ms])))" using assms(3) ms by auto
  moreover have "json_object_set_value ob ''rules'' (JArray (map JObject (rules @ [ms]))) = Some ob'"
    using r by (simp add: json_object_set_value_def json_object_get_value_def json_object_getn_value_map_of ob')
  ultimately have "object_ok ob'" using set_member_ok assms(2) by (auto simp: report_ok_def)
  moreover have "map_of ob' ''rules'' = Some (JArray (map JObject (rules @ [ms])))"
    using r by (simp add: ob' replace_member_map_of)
  ultimately show ?thesis unfolding report_ok_def by blast
qed

lemma AddEntry_ok: "AddEntry strtod entry st payload ps act ob = Inr ob' \<Longrightarrow> report_ok ob \<Longrightarrow> report_ok ob'"
  using AppendRuleJson_ok BuildRuleResultJson_ok by (fastforce simp: AddEntry_def and_then_Inr)

lemma AddSkippedEntry_ok: "AddSkippedEntry entry ps ob = Inr ob' \<Longrightarrow> report_ok ob \<Longrightarrow> report_ok ob'"
  using AppendRuleJson_ok BuildSkippedRuleResultJson_ok by (fastforce simp: AddSkippedEntry_def and_then_Inr)

text \<open>What \<open>Finish\<close> adds is small: it keeps the numbers readable and the nesting.\<close>

lemma set_value_members:
  assumes "json_object_set_value ob k v = Some ob'"
  shows "\<forall>m\<in>set ob'. m = (k, v) \<or> m \<in> set ob"
proof -
  have "m \<in> set (replace_member ms k v) \<Longrightarrow> m = (k, v) \<or> m \<in> set ms" for m ms
    by (induction ms) (auto split: if_splits)
  then show ?thesis using assms by (auto simp: json_object_set_value_def json_object_add_def split: if_splits)
qed

lemma json_depth_object_iff: "json_depth (JObject ms) \<le> n \<longleftrightarrow> ms = [] \<or> (\<forall>m\<in>set ms. Suc (json_depth (snd m)) \<le> n)"
proof (cases "ms = []")
  case False
  then have "Max (set (map (\<lambda>m. json_depth (snd m)) ms)) < n \<longleftrightarrow> (\<forall>m\<in>set ms. json_depth (snd m) < n)" by (subst Max_less_iff) auto
  then show ?thesis using False by (auto simp: Suc_le_eq)
qed simp

definition readable_object :: "strtod_fun \<Rightarrow> fmt_fun \<Rightarrow> jobject \<Rightarrow> bool" where
  "readable_object strtod fmt ob \<longleftrightarrow> numbers_ok strtod fmt (JObject ob) \<and> json_depth (JObject ob) \<le> MAX_NESTING"

lemma readable_set_value:
  assumes "json_object_set_value ob k v = Some ob'" "readable_object strtod fmt ob" "numbers_ok strtod fmt v" "json_depth v = 0"
  shows "readable_object strtod fmt ob'"
proof -
  have "Suc 0 \<le> MAX_NESTING" by (simp add: MAX_NESTING_def)
  then show ?thesis
    using set_value_members [OF assms(1)] assms(2-4)
    unfolding readable_object_def json_depth_object_iff numbers_ok.simps by fastforce
qed

lemma readable_set_string:
  assumes "set_string msg c ob k s = Inr ob'" "readable_object strtod fmt ob"
  shows "readable_object strtod fmt ob'"
proof -
  obtain v where "json_value_init_string s = Some v" "json_object_set_value ob (c_str k) v = Some ob'"
    using assms(1) by (auto simp: set_string_def result_simps json_object_set_string_def split: option.splits)
  then show ?thesis
    using readable_set_value [OF _ assms(2)]
    by (auto simp: json_value_init_string_def json_value_init_string_with_len_def split: if_splits)
qed

lemma Finish_ok:
  assumes "BenchmarkFormatter_Finish fmt dur st ob = Inr out" "report_ok ob"
  shows "\<exists>doc. out = json_serialize_to_string_pretty fmt (JObject doc) \<and> report_ok doc
    \<and> map_of doc ''durationMs'' = Some (JNumber dur) \<and> map_of doc ''status'' = Some (JString (status_to_string st))
    \<and> (\<forall>k. k \<noteq> ''durationMs'' \<and> k \<noteq> ''status'' \<longrightarrow> map_of doc k = map_of ob k)
    \<and> (readable_object strtod fmt ob \<and> reads_back strtod fmt dur \<longrightarrow> readable_object strtod fmt doc)"
proof -
  obtain o1 o2 where o: "json_object_set_number ob ''durationMs'' dur = Some o1"
      "set_string ''Failed to set JSON status'' ENOMEM o1 ''status'' (status_to_string st) = Inr o2"
      "out = json_serialize_to_string_pretty fmt (JObject o2)"
    using assms(1) by (auto simp: BenchmarkFormatter_Finish_def result_simps)
  have d: "\<not> is_number_invalid dur" "json_object_set_value ob ''durationMs'' (JNumber dur) = Some o1"
    using o(1) by (auto simp: json_object_set_number_def json_value_init_number_def split: if_splits)
  have "object_ok o1" using set_member_ok [OF d(2)] d(1) assms(2) by (auto simp: report_ok_def)
  then have "object_ok o2" by (rule set_string_ok [OF o(2)])
  moreover have "NUL \<notin> set (status_to_string st)" by (cases st) simp_all
  then have m: "map_of o2 k = (if k = ''status'' then Some (JString (status_to_string st))
      else if k = ''durationMs'' then Some (JNumber dur) else map_of ob k)" for k
    using set_string_Inr [OF o(2)] set_value_map_of [OF d(2)] by simp
  moreover have "readable_object strtod fmt o2" if "readable_object strtod fmt ob" "reads_back strtod fmt dur"
    using readable_set_string [OF o(2)] readable_set_value [OF d(2) that(1)] that(2) by simp
  ultimately show ?thesis using o(3) assms(2) by (intro exI [of _ o2]) (auto simp: report_ok_def)
qed

section \<open>A run keeps its report\<close>

lemma spec_result_ok: "spec_result env continue entry act j v = (b, v') \<Longrightarrow> report_ok (rv_json v) \<Longrightarrow> report_ok (rv_json v')"
  using AddEntry_ok by (auto simp: spec_result_def spec_error_def Let_def split: sum.splits)

lemma spec_error_json: "spec_error continue v = (b, v') \<Longrightarrow> rv_json v' = rv_json v"
  by (auto simp: spec_error_def)

lemma spec_rule_ok:
  assumes "spec_rule env continue rules entry v = (b, v')" "report_ok (rv_json v)"
  shows "report_ok (rv_json v')"
proof (cases "om_find rules (res_id entry)")
  case None
  then show ?thesis
    using assms AddSkippedEntry_ok by (auto simp: spec_rule_def dest: spec_error_json split: sum.splits)
next
  case (Some m)
  let ?v = "if pr_mode m \<noteq> ModeEnforce then v\<lparr>rv_evaluated := rv_evaluated v + 1\<rparr> else v"
  have v: "report_ok (rv_json ?v)" using assms(2) by simp
  from assms(1) Some consider e where "spec_error continue v = (b, v')" | e where "spec_error continue ?v = (b, v')"
    | act j where "spec_result env continue entry act j ?v = (b, v')"
    by (simp add: spec_rule_def Let_def split: sum.splits ToggleMode.splits)
  then show ?thesis using spec_error_json spec_result_ok v assms(2) by cases fastforce+
qed

lemma spec_rules_ok: "spec_rules env continue entries v = (b, v') \<Longrightarrow> report_ok (rv_json v) \<Longrightarrow> report_ok (rv_json v')"
proof (induction env continue entries v rule: spec_rules.induct)
  case (2 env continue rules entry entries v)
  obtain b1 v1 where s: "spec_rule env continue rules entry v = (b1, v1)" by fastforce
  then have "report_ok (rv_json v1)" using spec_rule_ok 2 by blast
  then show ?case using 2 s by (auto split: bool.splits)
qed simp

lemma spec_run_ok:
  assumes "spec_run env continue entries di w = (r, w')" "printed r \<noteq> []"
  shows "\<exists>doc. printed r = json_serialize_to_string_pretty (pe_fmt (ke_plan env)) (JObject doc) @ [NL] \<and> report_ok doc
    \<and> map_of doc ''durationMs'' = Some (JNumber (ke_duration env))"
proof -
  obtain ob where b: "BenchmarkFormatter_Begin (ke_timestamp env) di = Inr ob"
    using assms by (auto simp: spec_run_def split: sum.splits)
  let ?v = "\<lparr>rv_context = w, rv_json = ob, rv_status = Compliant, rv_hasError = False, rv_evaluated = 0\<rparr>"
  obtain v where v: "spec_rules env continue entries ?v = (True, v)"
    using assms b by (cases "spec_rules env continue entries ?v") (auto simp: spec_run_def split: bool.splits)
  obtain out where f: "BenchmarkFormatter_Finish (pe_fmt (ke_plan env)) (ke_duration env) (spec_status v) (rv_json v) = Inr out"
    using assms b v by (auto simp: spec_run_def split: sum.splits)
  have "printed r = out @ [NL]" using assms(1) b v f by (auto simp: spec_run_def)
  moreover have "report_ok (rv_json v)" using spec_rules_ok [OF v] Begin_ok [OF b] by simp
  ultimately show ?thesis using Finish_ok [OF f] by auto
qed

lemma RunRun_document:
  assumes "RunRun env o' = (r, w)" "printed r \<noteq> []"
  shows "\<exists>doc. printed r = json_serialize_to_string_pretty (pe_fmt (ke_plan env)) (JObject doc) @ [NL] \<and> report_ok doc
    \<and> map_of doc ''durationMs'' = Some (JNumber (ke_duration env))"
proof -
  obtain plan docs di w0 w' where l: "load_plan (ke_plan env) (opt_input o') = Inr (plan, docs)"
    and run: "run_validated env (continueOnError o') plan docs di w0 = (r, w')"
    using assms by (auto simp: RunRun_def split: sum.splits option.splits if_splits prod.splits)
  show ?thesis
    using run unfolding run_refines [OF load_plan_ok [OF l, THEN conjunct2]] by (rule spec_run_ok [OF _ assms(2)])
qed

section \<open>Reading the report\<close>

lemma string_field_value:
  "string_field ob k = (case map_of ob k of Some (JString s) \<Rightarrow> c_str s | _ \<Rightarrow> [])"
  by (auto simp: string_field_def StringOrEmpty_def json_object_get_string_def json_object_get_value_def
      json_object_getn_value_map_of json_value_get_string_def split: option.splits json.splits)

text \<open>The text of a report in one of the three styles.\<close>

definition report_text :: "fmt_fun \<Rightarrow> TextStyle \<Rightarrow> jobject \<Rightarrow> jobject list \<Rightarrow> 64 word \<Rightarrow> string" where
  "report_text fmt style doc rules dur =
     ''Timestamp: '' @ string_field doc ''timestamp'' @ [NL] @ ''Rules:'' @ [NL] @ concat (map (render_rule fmt style) rules)
     @ ''Duration: '' @ to_string_int (double_to_llong dur) @ '' ms'' @ [NL]
     @ ''Status: '' @ string_field doc ''status'' @ [NL] @ ''End of Report'' @ [NL]"

lemma RenderText_report:
  assumes "report_ok doc" "map_of doc ''rules'' = Some (JArray (map JObject rules))" "map_of doc ''durationMs'' = Some (JNumber dur)"
    and "readable_object strtod fmt doc"
  shows "RenderText strtod fmt (json_serialize_to_string_pretty fmt (JObject doc) @ [NL]) style = Inr (report_text fmt style doc rules dur)"
proof -
  let ?s = "json_serialize_to_string_pretty fmt (JObject doc)"
  have wf: "json_wf (JObject doc)" using assms(1) json_ok_wf [of "JObject doc"] by (simp add: report_ok_def)
  have numbers: "numbers_ok strtod fmt (JObject doc)" "json_depth (JObject doc) \<le> MAX_NESTING"
    using assms(4) by (simp_all add: readable_object_def)
  have "NUL \<notin> set ?s"
    using serialize_no_nul(1) [OF numbers(1)] by (simp add: json_serialize_to_string_pretty_def del: json_serialize_r.simps)
  then have "json_parse_string strtod (c_str (?s @ [NL])) = Some (JObject doc)"
    using parse_serialize_document [OF wf numbers, of "[NL]"] by simp
  then show ?thesis
    using assms(2,3)
    by (simp add: RenderText_def result_object_def result_rules_def json_object_get_array_def render_rules_concat report_text_def
        json_object_get_number_def json_object_get_value_def json_object_getn_value_map_of json_value_get_number_def)
qed

end
