(* ===== verification/KompliSamples.thy ===== *)
theory KompliSamples
  imports ReportProps
begin

text \<open>
  One benchmark definition with one rule, the plan made of it and a machine that holds both files:
  what the properties of \<open>kompli\<close> are applied to.
\<close>

text \<open>Numbers: the only one is 0.\<close>

definition sample_strtod :: strtod_fun where
  "sample_strtod s = (if starts_with ''0'' s then Some (0, 1) else None)"

definition sample_fmt :: fmt_fun where
  "sample_fmt d = ''0''"

lemma sample_zero: "reads_back sample_strtod sample_fmt 0"
  by (simp add: reads_back_def sample_strtod_def sample_fmt_def json_value_init_number_def is_number_invalid_def is_decimal_def
      isdigit_def)

definition sample_payload :: jobject where
  "sample_payload = [(''audit'', JObject [(''allOf'', JArray [])])]"

definition sample_definition :: jobject where
  "sample_definition =
     [(''kind'', JString ''BenchmarkDefinition''), (''apiVersion'', JString ''v1''),
      (''metadata'', JObject
         [(''name'', JString ''n''),
          (''labels'', JObject [(''framework'', JString ''cis''), (''distribution'', JString ''ubuntu''),
             (''distributionVersion'', JString ''22'')]),
          (''annotations'', JObject [(''benchmarkVersion'', JString ''1'')])]),
      (''spec'', JObject
         [(''version'', JString ''1.0.0''),
          (''rules'', JArray [JObject
             [(''title'', JString ''t''), (''ruleId'', JString ''i''), (''ruleName'', JString ''r''), (''id'', JString ''1''),
              (''tags'', JArray []), (''metadata'', JObject []), (''payload'', JObject sample_payload)]])])]"

definition sample_info :: BenchmarkInfo where
  "sample_info = \<lparr>framework = ''cis'', bi_distribution = Ubuntu, bi_version = ''22'', benchmarkVersion = ''1'', bi_section = []\<rparr>"

definition sample_resource_rule :: resource_rule where
  "sample_resource_rule =
     \<lparr>res_benchmarkInfo = sample_info, resourceID = ''t'', res_id = ''1'', ruleId = ''i'',
      res_procedure = json_serialize_to_string sample_fmt (JObject sample_payload), res_payload = None, res_ruleName = ''r'',
      tags = [], res_metadata = \<lparr>md_description = None, md_rationale = None, md_fixtext = None, md_severity = None,
        md_references = None, md_additional = []\<rparr>, parameterMetadata = [], hasInitAudit = True\<rparr>"

definition sample_document :: benchmark_document where
  "sample_document =
     \<lparr>doc_name = ''n'', doc_version = \<lparr>cv_major = ''1'', cv_minor = ''0'', cv_patch = ''0''\<rparr>, doc_benchmarkInfo = sample_info,
      resources = [sample_resource_rule]\<rparr>"

lemma sample_ParseDocument: "ParseDocument sample_fmt (JObject sample_definition) = Inr sample_document"
proof -
  have "ParseContentVersion ''1.0.0'' = Inr \<lparr>cv_major = ''1'', cv_minor = ''0'', cv_patch = ''0''\<rparr>" by code_simp
  moreover have "FromMetadata ''cis'' ''ubuntu'' ''22'' ''1'' = Inr sample_info" by code_simp
  ultimately show ?thesis
    by (simp add: ParseDocument_def sample_definition_def check_kind_def RequiredString_def ReadStringValue_def
        kSupportedApiVersions_def required_object_def rule_array_def document_identity_def hoisted_identity_def
        ParseRule_def SerializeProcedure_def ParseParameterMetadata_def rule_identity_def ParseTags_def
        ParseMetadata_def OptionalString_def metadata_keys_def Let_def json_object_has_value_def
        json_object_get_value_def json_object_get_object_def json_object_get_array_def
        sample_document_def sample_resource_rule_def)
qed

definition definition_text :: string where
  "definition_text = json_serialize_to_string_pretty sample_fmt (JObject sample_definition)"

lemma sample_printable: "printable MAX_NESTING (JObject sample_definition)"
  by (simp add: printable_def sample_definition_def sample_payload_def MAX_NESTING_def)

lemma sample_ParseString: "BenchmarkDefinition_ParseString sample_strtod sample_fmt definition_text = Inr sample_document"
  using FromString_printed [OF sample_printable, where w = "[]" and fmt = sample_fmt] sample_ParseDocument
  by (simp add: BenchmarkDefinition_ParseString_def definition_text_def)

lemma definition_text_length: "length definition_text \<le> kMaxInputBytes"
  by (simp add: definition_text_def json_serialize_to_string_pretty_def sample_definition_def sample_payload_def
      json_serialize_string_def escape_string_def escape_char_def append_indent_def)

definition sample_parsed :: parsed_file where
  "sample_parsed = seed_file ''/d'' sample_document"

lemma sample_parsed_eq:
  "sample_parsed = \<lparr>pf_file = ''/d'', pf_name = ''n'', pf_version = \<lparr>cv_major = ''1'', cv_minor = ''0'', cv_patch = ''0''\<rparr>,
     pf_rules = [(''1'', \<lparr>pr_mode = ModeAudit, pr_parameters = []\<rparr>)], pf_parameterMetadata = [(''1'', [])]\<rparr>"
  by (simp add: sample_parsed_def seed_file_def seed_rule_def sample_document_def sample_resource_rule_def)

definition plan_text :: string where
  "plan_text = json_serialize_to_string_pretty sample_fmt (JObject (plan_json [sample_parsed])) @ [NL]"

lemma set_ascii: "\<forall>c\<in>set s. byte c < 128 \<and> c \<noteq> NUL \<Longrightarrow> json_object_set_string ob name s = json_object_set_value ob (c_str name) (JString s)"
proof -
  assume ascii: "\<forall>c\<in>set s. byte c < 128 \<and> c \<noteq> NUL"
  then have "is_valid_utf8 s" by (intro is_valid_utf8_ascii) blast
  moreover have "NUL \<notin> set s" using ascii by blast
  ultimately show ?thesis
    by (simp add: json_object_set_string_def json_value_init_string_def json_value_init_string_with_len_def)
qed

lemma sample_version_text: "ContentVersionToString \<lparr>cv_major = ''1'', cv_minor = ''0'', cv_patch = ''0''\<rparr> = ''1.0.0''"
  by (simp add: ContentVersionToString_def)

lemma plan_text_length: "length plan_text \<le> kMaxPlanInputBytes"
  by (simp add: plan_text_def plan_json_def file_json_def sample_parsed_eq rules_json_def rule_json_def values_json_def
      sample_version_text json_serialize_to_string_pretty_def json_serialize_string_def escape_string_def escape_char_def
      append_indent_def)

lemma sample_print: "print_plan sample_fmt [sample_parsed] = Inr plan_text"
proof -
  have "BuildBenchmarkEntry ''/d'' ''n'' \<lparr>cv_major = ''1'', cv_minor = ''0'', cv_patch = ''0''\<rparr>
      [(''1'', \<lparr>pr_mode = ModeAudit, pr_parameters = []\<rparr>)] = Inr (file_json sample_parsed)"
    by (simp add: BuildBenchmarkEntry_def sample_version_text Let_def set_ascii build_plan_rule_def json_object_set_value_def json_object_add_def
        json_object_get_value_def file_json_def sample_parsed_eq rules_json_def rule_json_def values_json_def)
  then show ?thesis
    using plan_text_length by (simp add: print_plan_def sample_parsed_eq [of] json_object_set_value_def json_object_add_def json_object_get_value_def
        Let_def plan_text_def plan_json_def)
qed

section \<open>The machine\<close>

definition sample_plan_env :: plan_env where
  "sample_plan_env =
     \<lparr>pe_strtod = sample_strtod, pe_fmt = sample_fmt,
      pe_files = \<lparr>fs_calls = \<lparr>sys_stat = (\<lambda>p. Inr \<lparr>st_uid = 0, st_gid = 0, st_mode = S_IFDIR\<rparr>), sys_lstat = (\<lambda>p. Inl ENOENT),
          sys_open = (\<lambda>p. if p = ''/d'' then Inr 3 else if p = ''/p'' then Inr 4 else Inl ENOENT),
          sys_fstat = (\<lambda>fd. Inr \<lparr>st_uid = 0, st_gid = 0, st_mode = S_IFREG\<rparr>), sys_getfl = (\<lambda>fd. Inr 0),
          sys_setfl = (\<lambda>fd flags. None), sys_strerror = (\<lambda>e. [])\<rparr>,
        fs_stream = (\<lambda>fd. \<lparr>stream_bytes = (if fd = 3 then definition_text else plan_text), stream_bad = False\<rparr>)\<rparr>,
      pe_realpath = Some, pe_regex = (\<lambda>r s. Some True)\<rparr>"

lemma sample_parse_definition: "parse_definition sample_plan_env ''/d'' = Inr sample_document"
  using definition_text_length
  by (simp add: parse_definition_def ParseFile_def sample_plan_env_def RefusePathTraversal_def RefuseWritableParentDir_def
      OpenVerifiedInput_def S_ISREG_def writable_by_others_def parent_dir_def ParseStream_def ReadAllBounded_eq sample_ParseString Let_def)

lemma sample_file_ok: "file_ok sample_parsed"
  by (simp add: file_ok_def sample_parsed_eq clean_name_def rules_ok_def values_ok_def om_inv_def valid_version_def ValidComponent_def isdigit_def)

lemma sample_generate: "GeneratePlan sample_plan_env [''/d''] [] [] = Inr plan_text"
proof -
  have "select_rules sample_plan_env [''/d''] [] [] = Inr [sample_parsed]"
    by (simp add: select_rules_def sample_parse_definition sample_parsed_def [symmetric] CheckUniqueBenchmarkFiles_def
        CheckUniqueBenchmarkIdentities_def validate_selection_def sample_parsed_eq [of] ValidateParameters_def)
  then show ?thesis using sample_print by (simp add: GeneratePlan_def) (simp add: sample_plan_env_def)
qed

definition sample_kompli_env :: "unit kompli_env" where
  "sample_kompli_env =
     \<lparr>ke_plan = sample_plan_env,
      ke_engine = \<lparr>env_strtod = sample_strtod, env_procedures = (\<lambda>n. None),
        env_lua = (\<lambda>script act it w. (Inl (Error1 ''Lua is not available''), it, w)), env_format = JsonFormatter_Format sample_fmt\<rparr>,
      ke_os_files = (\<lambda>p. Some (to_string_DistributionInfo (DistributionInfo_init\<lparr>version := ''22''\<rparr>))),
      ke_uname = Inr ([], []), ke_override = 0, ke_context = Inr (), ke_timestamp = ''T'', ke_duration = 0\<rparr>"

lemma sample_kompli_simps [simp]:
  "ke_plan sample_kompli_env = sample_plan_env" "ke_context sample_kompli_env = Inr ()" "ke_timestamp sample_kompli_env = ''T''"
  "ke_duration sample_kompli_env = 0" "pe_strtod sample_plan_env = sample_strtod" "pe_fmt sample_plan_env = sample_fmt"
  by (simp_all add: sample_kompli_env_def sample_plan_env_def)

definition sample_system :: DistributionInfo where
  "sample_system = DistributionInfo_init\<lparr>version := ''22''\<rparr>"

lemma sample_distribution:
  "LoadDistributionInfo (ke_os_files sample_kompli_env) (ke_uname sample_kompli_env) (ke_override sample_kompli_env) = Inr sample_system"
proof -
  have "ParseOverrideFile (ke_os_files sample_kompli_env) p =
      Inr ((DistributionInfo_init\<lparr>version := ''22''\<rparr>)\<lparr>version := filter (\<lambda>c. \<not> isspace c) ''22''\<rparr>)" for p
    by (subst override_file_text [where x = "DistributionInfo_init\<lparr>version := ''22''\<rparr>"]) (simp_all add: sample_kompli_env_def)
  then show ?thesis by (simp add: LoadDistributionInfo_def sample_kompli_env_def sample_system_def isspace_def)
qed

abbreviation sample_plan :: plan where "sample_plan \<equiv> [plan_of sample_parsed]"

lemma sample_ParsePlan: "ParsePlan sample_strtod plan_text = Inr sample_plan"
  unfolding plan_text_def using ParsePlan_print [of "[sample_parsed]"] sample_file_ok by simp

lemma sample_ParsePlanFile: "fst (ParsePlanFile sample_strtod (pe_files sample_plan_env) ''/p'' []) = Inr sample_plan"
  using plan_text_length sample_ParsePlan
  by (simp add: ParsePlanFile_def OpenVerified_def sample_plan_env_def RefusePathTraversal_def RefuseWritableParentDir_def
      OpenVerifiedInput_def S_ISREG_def writable_by_others_def parent_dir_def ReadAllBounded_eq Let_def)

lemma sample_load_plan: "load_plan sample_plan_env ''/p'' = Inr (sample_plan, [sample_document])"
proof -
  have "pb_file (plan_of sample_parsed) = ''/d''" by (simp add: plan_of_def sample_parsed_eq)
  then show ?thesis
    by (simp add: load_plan_def sample_ParsePlanFile sample_parse_definition CheckUniqueBenchmarkFiles_def
        CheckUniqueBenchmarkIdentities_def Let_def)
qed

lemma sample_valid: "ValidatePlanForRun (pe_regex sample_plan_env) sample_plan [sample_document] sample_system = None"
proof -
  have "BenchmarkInfo_Match sample_info sample_system"
    by (simp add: BenchmarkInfo_Match_def sample_info_def sample_system_def DistributionInfo_init_def)
  then have "\<forall>d\<in>set [sample_document]. BenchmarkInfo_Match (doc_benchmarkInfo d) sample_system"
    by (simp add: sample_document_def)
  moreover obtain plan docs where "ParsePlan sample_strtod plan_text = Inr plan"
      "map_result (parse_definition sample_plan_env) (map pb_file plan) = Inr docs" "map pb_file plan = [''/d'']"
      "\<forall>di. (\<forall>d\<in>set docs. BenchmarkInfo_Match (doc_benchmarkInfo d) di) \<longrightarrow> ValidatePlanForRun (pe_regex sample_plan_env) plan docs di = None"
    using generated_plan_accepted [OF sample_generate, of sample_strtod] by (auto simp: clean_name_def)
  ultimately show ?thesis using sample_ParsePlan by (auto simp: sample_parse_definition)
qed

section \<open>The run\<close>

definition sample_procedure :: proc where
  "sample_procedure = Procedure_init\<lparr>proc_audit := Some (JObject [(''allOf'', JArray [])])\<rparr>"

lemma sample_procedure_simps [simp]:
  "proc_Audit sample_procedure = Some [(''allOf'', JArray [])]" "proc_parameters sample_procedure = []"
  by (simp_all add: sample_procedure_def proc_Audit_def Procedure_init_def)

lemma sample_planned: "planned_proc sample_kompli_env (res_procedure sample_resource_rule) = Inr sample_procedure"
proof -
  let ?s = "json_serialize_to_string sample_fmt (JObject sample_payload)"
  have p: "printable MAX_NESTING (JObject sample_payload)" by (simp add: printable_def sample_payload_def MAX_NESTING_def)
  have "hd ?s = CHR ''{''" "?s \<noteq> []" by (simp_all add: json_serialize_to_string_def sample_payload_def)
  then have "CHR ''{'' \<in> set ?s" by (metis hd_in_set)
  moreover have "\<not> IsBase64 (CHR ''{'')" by (simp add: IsBase64_def isalnum_def isalpha_def isupper_def islower_def isdigit_def)
  ultimately have "\<not> list_all IsBase64 ?s" by (auto simp: list_all_iff)
  then have "\<exists>e. JsonWrapper_FromBase64 sample_strtod ?s = Inl e"
    by (simp add: JsonWrapper_FromBase64_def Base64Decode_def)
  moreover have "json_parse_string sample_strtod ?s = Some (JObject sample_payload)"
    using p parse_serialize_plain [of "JObject sample_payload" sample_strtod sample_fmt "[]"] by (simp add: printable_def)
  moreover have "\<not> ContainsNul ?s"
    using p ContainsNul_serialize [of sample_payload "[]" sample_fmt False] by (simp add: printable_def json_serialize_to_string_def)
  ultimately have "payload_rule sample_strtod ?s = Inr (JObject sample_payload)"
    by (auto simp: payload_rule_def FromString_Inr)
  moreover have "json_value_deep_copy (JObject [(''allOf'', JArray [])]) = Some (JObject [(''allOf'', JArray [])])"
    by (rule json_value_deep_copy_ok) (simp add: object_ok_iff)
  ultimately show ?thesis
    by (simp add: planned_proc_def sample_resource_rule_def build_procedure_def sample_payload_def SetAudit_def Procedure_init_def
        proc_Audit_def build_remediation_def build_parameters_def json_object_get_value_def sample_procedure_def)
qed

definition sample_tree :: node where
  "sample_tree = Node ''r'' Compliant [Node ''allOf'' Compliant [] []] []"

lemma sample_audited:
  "\<exists>ind. spec_audit sample_kompli_env sample_resource_rule sample_procedure () = (Inr (Compliant, ind, []), ())
     \<and> json_parse_string sample_strtod ind = Some (tree_json sample_tree)
     \<and> json_parse_string sample_strtod (c_str ind) = Some (tree_json sample_tree)"
proof -
  let ?ev = "evaluator_for (json_engine sample_kompli_env) []"
  have "json_serialize_to_string sample_fmt (JObject []) = ''{}''" by (simp add: json_serialize_to_string_def)
  then have "json_parse_string sample_strtod ''{}'' = Some (JObject [])"
    using parse_serialize_plain [of "JObject []" sample_strtod sample_fmt "[]"] by simp
  then have "JsonWrapper_FromString sample_strtod ''{}'' = Inr (JObject [])" by (simp add: FromString_Inr ContainsNul_def)
  then have u: "UpdateUserParameters sample_strtod ''{}'' sample_procedure = (None, sample_procedure)"
    by (simp add: UpdateUserParameters_def ProcedureParameters_ParseJson_def UpdateFromMap_def)
  have e: "finish (EvaluateProcedure ?ev Audit (Some [(''allOf'', JArray [])]) (Push ''r'' IndicatorsTree_init) ()) =
      (Inr Compliant, Pop (open_tree sample_tree []), ())"
    by (simp add: open_tree_simps EvaluateItems.simps sample_tree_def initial_status_def new_node_def)
  have "is_valid_utf8 ''r''" "is_valid_utf8 ''allOf''" by (rule is_valid_utf8_ascii; simp)+
  then have clean: "node_clean sample_tree" by (simp add: clean_def sample_tree_def)
  let ?ind = "json_serialize_to_string_pretty sample_fmt (tree_json sample_tree)"
  have f: "JsonFormatter_Format sample_fmt (Pop (open_tree sample_tree [])) = Inr ?ind"
    using clean by (simp add: JsonFormatter_Format_def GetRootNode_open json_node_clean tree_json_def)
  have plain: "json_wf (tree_json sample_tree)" "json_plain (tree_json sample_tree)" "json_depth (tree_json sample_tree) \<le> MAX_NESTING"
    by (simp_all add: tree_json_def sample_tree_def MAX_NESTING_def)
  then have p: "json_parse_string sample_strtod ?ind = Some (tree_json sample_tree)"
    using parse_serialize_plain [of "tree_json sample_tree" sample_strtod sample_fmt "[]"] by simp
  have n: "NUL \<notin> set ?ind" using serialize_plain_no_nul [OF plain(2)] by (simp add: json_serialize_to_string_pretty_def)
  have "ExecuteAudit ?ev ''r'' (Some [(''allOf'', JArray [])]) (JsonFormatter_Format sample_fmt) () =
      (Inr (Compliant, ?ind), Pop (open_tree sample_tree []), ())"
    unfolding ExecuteAudit_def e by (simp add: f)
  then show ?thesis
    using u p n
    by (simp add: spec_audit_def Let_def json_engine_def sample_resource_rule_def rule_payload_def)
qed

lemmas sample_setters =
  set_value_def set_string_def set_ascii json_object_set_value_def json_object_add_def json_object_get_value_def

lemma set_strings_Cons: "set_strings ((k, v) # kvs) ob = (case json_object_set_string ob k v of None \<Rightarrow> None | Some ob' \<Rightarrow> set_strings kvs ob')"
  by simp

definition sample_host :: jobject where
  "sample_host = [(''arch'', JString ''x86_64''), (''distribution'', JString ''ubuntu''), (''distributionVersion'', JString ''22'')]"

lemma sample_Begin:
  "BenchmarkFormatter_Begin ''T'' sample_system =
     Inr [(''timestamp'', JString ''T''), (''host'', JObject sample_host), (''rules'', JArray [])]"
proof -
  have "the (to_string_Architecture x86_64) = ''x86_64''" "distribution_name Ubuntu = ''ubuntu''" by code_simp+
  then show ?thesis
    by (simp add: BenchmarkFormatter_Begin_def sample_system_def DistributionInfo_init_def sample_setters sample_host_def)
qed

definition sample_result :: jobject where
  "sample_result =
     [(''indicators'', tree_json sample_tree), (''status'', JString ''Compliant''), (''action'', JString ''Audit''),
      (''benchmark'', JObject [(''framework'', JString ''cis''), (''distribution'', JString ''ubuntu''),
         (''distributionVersion'', JString ''22''), (''benchmarkVersion'', JString ''1'')]),
      (''title'', JString ''t''), (''id'', JString ''1''), (''ruleId'', JString ''i''), (''ruleName'', JString ''r''),
      (''tags'', JArray []), (''metadata'', JObject []), (''parameters'', JObject [])]"

lemma sample_AddEntry:
  assumes "json_parse_string sample_strtod (c_str ind) = Some (tree_json sample_tree)"
  shows "AddEntry sample_strtod sample_resource_rule Compliant ind [] Audit
      [(''timestamp'', JString ''T''), (''host'', JObject sample_host), (''rules'', JArray [])] =
    Inr [(''timestamp'', JString ''T''), (''host'', JObject sample_host), (''rules'', JArray [JObject sample_result])]"
proof -
  have "distribution_name Ubuntu = ''ubuntu''" by code_simp
  then have b: "benchmark_json sample_info =
      Inr [(''framework'', JString ''cis''), (''distribution'', JString ''ubuntu''),
         (''distributionVersion'', JString ''22''), (''benchmarkVersion'', JString ''1'')]"
    by (simp add: benchmark_json_def sample_info_def sample_setters)
  have m: "metadata_json (res_metadata sample_resource_rule) = Inr []"
    by (simp add: metadata_json_def metadata_keys_def sample_resource_rule_def)
  have "BuildRuleResultJson sample_strtod sample_resource_rule Compliant ind [] Audit = Inr (JObject sample_result)"
    using assms b m
    by (simp add: BuildRuleResultJson_def FillCommonRuleFields_def tree_json_def sample_setters sample_result_def)
      (simp add: sample_resource_rule_def b sample_setters)
  then show ?thesis by (simp add: AddEntry_def AppendRuleJson_def json_object_get_array_def)
qed

definition sample_report :: jobject where
  "sample_report =
     [(''timestamp'', JString ''T''), (''host'', JObject sample_host), (''rules'', JArray [JObject sample_result]),
      (''durationMs'', JNumber 0), (''status'', JString ''Compliant'')]"

lemma sample_Finish:
  "BenchmarkFormatter_Finish sample_fmt 0 Compliant
     [(''timestamp'', JString ''T''), (''host'', JObject sample_host), (''rules'', JArray [JObject sample_result])] =
   Inr (json_serialize_to_string_pretty sample_fmt (JObject sample_report))"
  by (simp add: BenchmarkFormatter_Finish_def json_object_set_number_def json_value_init_number_def is_number_invalid_def
      sample_setters sample_report_def)

definition sample_options :: Options where
  "sample_options = Options_init\<lparr>command := Run, opt_input := ''/p''\<rparr>"

definition sample_outcome :: run_outcome where
  "sample_outcome = \<lparr>exit_code = 0, printed = json_serialize_to_string_pretty sample_fmt (JObject sample_report) @ [NL]\<rparr>"

lemma sample_entries:
  "run_entries (zip sample_plan [sample_document]) = [([(''1'', \<lparr>pr_mode = ModeAudit, pr_parameters = []\<rparr>)], sample_resource_rule)]"
  by (simp add: run_entries_def plan_of_def sample_parsed_eq sample_document_def)

lemma sample_spec_run:
  "spec_run sample_kompli_env continue (run_entries (zip sample_plan [sample_document])) sample_system () = (sample_outcome, ())"
proof -
  obtain ind where a: "spec_audit sample_kompli_env sample_resource_rule sample_procedure () = (Inr (Compliant, ind, []), ())"
      "json_parse_string sample_strtod (c_str ind) = Some (tree_json sample_tree)"
    using sample_audited by blast
  have id: "res_id sample_resource_rule = ''1''" by (simp add: sample_resource_rule_def)
  show ?thesis
    unfolding sample_entries
    by (simp add: spec_run_def sample_Begin spec_rule_def id planned_procedure_def sample_planned spec_result_def a(1)
        sample_AddEntry [OF a(2)] spec_status_def CombineAllOf_def sample_Finish sample_outcome_def Let_def)
qed

lemma sample_RunRun: "RunRun sample_kompli_env sample_options = (sample_outcome, Some ())"
proof -
  have "\<forall>d\<in>set [sample_document]. document_ok sample_fmt d"
    using parse_definition_ok [OF sample_parse_definition] by simp
  then have "run_validated sample_kompli_env False sample_plan [sample_document] sample_system () = (sample_outcome, ())"
    by (simp only: run_refines sample_spec_run)
  then show ?thesis
    by (simp add: RunRun_def sample_options_def Options_init_def sample_load_plan unsafe_log_file_def sample_distribution sample_valid)
qed

end
