(* ===== verification/KompliClaims.thy ===== *)
theory KompliClaims
  imports KompliSamples PlanWrite PlanProps
begin

text \<open>
  The properties of \<open>kompli\<close>: its command line, definitions, plans, runs and renderers. The lemmas
  are those of the component theories; each property is applied to the sample machine.
\<close>

section \<open>Runs\<close>

text \<open>
  C2. A run does what its plan says and nothing else: for a plan and definitions that the loader
  accepts, the loops over benchmarks, rules and engine requests are the abstract run, which judges
  the rules one by one from their definitions. In particular the database of the engine is not
  observable: no rule sees the procedure or the parameters of another.
\<close>

theorem run_refinement:
  assumes "load_plan (ke_plan env) path = Inr (plan, documents)"
  shows "run_validated env continue plan documents di w = spec_run env continue (run_entries (zip plan documents)) di w"
  by (rule run_refines [OF load_plan_ok [OF assms, THEN conjunct2]])

theorem run_refinement_witness:
  "run_validated sample_kompli_env False sample_plan [sample_document] sample_system () = (sample_outcome, ())"
  using run_refinement [of sample_kompli_env "''/p''" "sample_plan" "[sample_document]" False sample_system "()"]
  by (simp add: sample_load_plan sample_spec_run del: zip_Cons_Cons)

text \<open>
  C4. The report of a successful run: every rule of every definition appears once, in order, judged
  in the state its predecessors left. A rule outside the plan is Skipped and not run; of the others
  the report names the id, the status, the action and the indicators of their judgement. The status
  of the report is NonCompliant if any rule is, else NotApplicable if any is or none was judged,
  else Compliant.
\<close>

theorem run_report:
  assumes "RunRun env o' = (r, Some w')" "exit_code r = 0"
  shows "\<exists>plan documents w outs doc xs. load_plan (ke_plan env) (opt_input o') = Inr (plan, documents) \<and> ke_context env = Inr w
    \<and> judged env (run_entries (zip plan documents)) w outs w'
    \<and> printed r = json_serialize_to_string_pretty (pe_fmt (ke_plan env)) (JObject doc) @ [NL]
    \<and> map_of doc ''status'' = Some (JString (status_to_string (overall (statuses outs))))
    \<and> map_of doc ''rules'' = Some (JArray xs) \<and> length outs = length (run_entries (zip plan documents)) \<and> length xs = length outs
    \<and> (\<forall>i<length outs. reports (pe_strtod (ke_plan env)) (run_entries (zip plan documents) ! i) (outs ! i) (xs ! i))"
proof -
  obtain plan docs di w where l: "load_plan (ke_plan env) (opt_input o') = Inr (plan, docs)" "ke_context env = Inr w"
    and run: "run_validated env (continueOnError o') plan docs di w = (r, w')"
    using RunRun_Some [OF assms] by blast
  have ok: "\<forall>d\<in>set docs. document_ok (pe_fmt (ke_plan env)) d" using load_plan_ok [OF l(1)] by simp
  have "\<forall>(rules, entry)\<in>set (run_entries (zip plan docs)). NUL \<notin> set (res_id entry)"
    using run_entries_set ok by (fastforce simp: document_ok_def rule_ok_def)
  from spec_run_report [OF run [unfolded run_refines [OF ok]] assms(2) this] l show ?thesis by metis
qed

theorem run_report_witness:
  "\<exists>doc. printed sample_outcome = json_serialize_to_string_pretty sample_fmt (JObject doc) @ [NL]
     \<and> (\<exists>sts. map_of doc ''status'' = Some (JString (status_to_string (overall sts))))"
  using run_report [OF sample_RunRun] by (auto simp: sample_outcome_def)

text \<open>
  C6. Auditing is read-only: a run of a plan that was generated without a --remediate toggle never
  uses a remediation, neither of a builtin procedure nor of a Lua script. With any others in their
  place it prints the same report and leaves the same state.
\<close>

theorem audit_plans_never_remediate:
  assumes "GeneratePlan penv files tgs overrides = Inr content" "\<forall>t\<in>set tgs. toggle_mode t \<noteq> ModeRemediate"
    and "\<forall>f\<in>set files. clean_name f" "\<forall>po\<in>set overrides. NUL \<notin> set (po_value po)"
    and "\<And>p. fst (ParsePlanFile (pe_strtod (ke_plan env)) (pe_files (ke_plan env)) (opt_input o') []) = Inr p
      \<Longrightarrow> ParsePlan (pe_strtod (ke_plan env)) content = Inr p"
    and "same_audits_env env env'"
  shows "RunRun env o' = RunRun env' o'"
proof (rule RunRun_same_audits [OF assms(6)])
  fix plan docs
  assume "load_plan (ke_plan env) (opt_input o') = Inr (plan, docs)"
  then have "ParsePlan (pe_strtod (ke_plan env)) content = Inr plan"
    by (intro assms(5)) (auto simp: load_plan_def result_simps)
  then show "remediation_free plan"
    using generated_remediation_free [OF assms(1,3,4,2), of "pe_strtod (ke_plan env)"] by auto
qed

definition sample_remediating_env :: "unit kompli_env" where
  "sample_remediating_env = sample_kompli_env\<lparr>ke_engine := (ke_engine sample_kompli_env)\<lparr>
     env_procedures := (\<lambda>n. None),
     env_lua := (\<lambda>script act it w. if act = Remediate then (Inr Compliant, it, w) else (Inl (Error1 ''Lua is not available''), it, w))\<rparr>\<rparr>"

theorem audit_plans_never_remediate_witness: "RunRun sample_remediating_env sample_options = (sample_outcome, Some ())"
proof -
  have "RunRun sample_kompli_env sample_options = RunRun sample_remediating_env sample_options"
  proof (rule audit_plans_never_remediate [OF sample_generate])
    show "same_audits_env sample_kompli_env sample_remediating_env"
      unfolding same_audits_env_def sample_remediating_env_def
      by (intro exI conjI refl) (auto simp: sample_kompli_env_def)
    fix p
    assume "fst (ParsePlanFile (pe_strtod (ke_plan sample_kompli_env)) (pe_files (ke_plan sample_kompli_env)) (opt_input sample_options) []) = Inr p"
    then show "ParsePlan (pe_strtod (ke_plan sample_kompli_env)) plan_text = Inr p"
      using sample_ParsePlanFile sample_ParsePlan by (simp add: sample_options_def)
  qed (simp_all add: clean_name_def)
  then show ?thesis using sample_RunRun by simp
qed

section \<open>Reports\<close>

text \<open>
  C17. What run prints, render reads: for a report under construction with the given rules, of
  numbers that the C library reads back and of nesting within the parser's limit, the text renderer
  accepts the finished document, and writes the time stamp, the duration, the overall status and
  exactly one entry per rule, in the order they were added.
\<close>

theorem reports_are_rendered:
  assumes "BenchmarkFormatter_Finish fmt dur st ob = Inr out" "report_ok ob"
    and "map_of ob ''rules'' = Some (JArray (map JObject rules))"
    and "readable_object strtod fmt ob" "reads_back strtod fmt dur"
  shows "RenderText strtod fmt (out @ [NL]) style =
    Inr (''Timestamp: '' @ string_field ob ''timestamp'' @ [NL] @ ''Rules:'' @ [NL] @ concat (map (render_rule fmt style) rules)
      @ ''Duration: '' @ to_string_int (double_to_llong dur) @ '' ms'' @ [NL]
      @ ''Status: '' @ status_to_string st @ [NL] @ ''End of Report'' @ [NL])"
proof -
  obtain doc where doc: "out = json_serialize_to_string_pretty fmt (JObject doc)" "report_ok doc"
      "map_of doc ''durationMs'' = Some (JNumber dur)" "map_of doc ''status'' = Some (JString (status_to_string st))"
      "\<forall>k. k \<noteq> ''durationMs'' \<and> k \<noteq> ''status'' \<longrightarrow> map_of doc k = map_of ob k"
      "readable_object strtod fmt ob \<and> reads_back strtod fmt dur \<longrightarrow> readable_object strtod fmt doc"
    using Finish_ok [OF assms(1,2), of strtod] by blast
  then have same: "map_of doc ''timestamp'' = map_of ob ''timestamp''" "map_of doc ''rules'' = map_of ob ''rules''"
    and readable: "readable_object strtod fmt doc"
    using assms(4,5) by simp_all
  have "NUL \<notin> set (status_to_string st)" by (cases st) simp_all
  then have "string_field doc ''status'' = status_to_string st" "string_field doc ''timestamp'' = string_field ob ''timestamp''"
    using doc(4) same(1) by (simp_all add: string_field_value)
  then show ?thesis
    using RenderText_report [OF doc(2) _ doc(3) readable, of rules style] doc(1) same(2) assms(3) by (simp add: report_text_def)
qed

theorem reports_are_rendered_witness:
  "\<exists>t. RenderText sample_strtod sample_fmt (printed sample_outcome) CompactListStyle = Inr t"
proof -
  let ?ob = "[(''timestamp'', JString ''T''), (''host'', JObject sample_host), (''rules'', JArray [JObject sample_result])]"
  have rules: "map_of ?ob ''rules'' = Some (JArray (map JObject [sample_result]))" by simp
  then have "report_ok ?ob"
    unfolding report_ok_def
    by (intro conjI exI [of _ "[sample_result]"])
      (simp_all add: object_ok_iff sample_host_def sample_result_def tree_json_def sample_tree_def)
  moreover have "readable_object sample_strtod sample_fmt ?ob"
    by (simp add: readable_object_def sample_host_def sample_result_def tree_json_def sample_tree_def MAX_NESTING_def)
  ultimately show ?thesis
    using reports_are_rendered [OF sample_Finish _ rules _ sample_zero] by (simp add: sample_outcome_def)
qed

section \<open>Plans and definitions\<close>

text \<open>
  C8. What plan writes, run accepts: the text of a generated plan is parsed back, names the given
  files in order, passes the checks for duplicate files and identities, and is valid for every
  system all its benchmarks apply to, as long as the definitions are the ones it was made from.
\<close>

theorem generated_plans_are_accepted:
  assumes "GeneratePlan env files tgs overrides = Inr content"
    and "\<forall>f\<in>set files. clean_name f" "\<forall>po\<in>set overrides. NUL \<notin> set (po_value po)"
  shows "\<exists>plan docs. ParsePlan strtod content = Inr plan \<and> map pb_file plan = files
    \<and> CheckUniqueBenchmarkFiles (pe_realpath env) (map pb_file plan) = None
    \<and> map_result (parse_definition env) (map pb_file plan) = Inr docs
    \<and> CheckUniqueBenchmarkIdentities (zip (map pb_file plan) (map doc_benchmarkInfo docs)) = None
    \<and> (\<forall>di. (\<forall>d\<in>set docs. BenchmarkInfo_Match (doc_benchmarkInfo d) di)
         \<longrightarrow> ValidatePlanForRun (pe_regex env) plan docs di = None)"
  by (rule generated_plan_accepted [OF assms])

theorem generated_plans_are_accepted_witness:
  "\<exists>plan. ParsePlan (\<lambda>s. None) plan_text = Inr plan \<and> map pb_file plan = [''/d'']
     \<and> CheckUniqueBenchmarkFiles (pe_realpath sample_plan_env) (map pb_file plan) = None"
  using generated_plans_are_accepted [OF sample_generate, of "\<lambda>s. None"] by (auto simp: clean_name_def)

text \<open>
  C19. A parsed definition is trustworthy and well typed: its path has no \<open>..\<close> component, it was read
  from a regular file owned by root that nobody else can write, within the size limit, and it has a
  valid version, unique rule ids and rules whose fields are all there, with procedures the engine
  can read. Success or failure, no descriptor stays open.
\<close>

theorem definitions_are_checked:
  assumes "ParseFile strtod fmt fs path fds = (r, fds')"
  shows "fds' = fds
    \<and> (case r of Inl e \<Rightarrow> True
        | Inr d \<Rightarrow> document_ok fmt d \<and> ''..'' \<notin> set (path_components path)
            \<and> (\<exists>fd st. sys_open (fs_calls fs) (c_str path) = Inr fd \<and> sys_fstat (fs_calls fs) fd = Inr st \<and> trusted_file st
                \<and> length (stream_bytes (fs_stream fs fd)) \<le> kMaxInputBytes))"
proof (cases r)
  case (Inl e)
  then show ?thesis using ParseFile_descriptors [of strtod fmt fs path fds] assms by simp
next
  case (Inr d)
  then show ?thesis using ParseFile_ok [of strtod fmt fs path fds d fds'] ParseFile_descriptors [of strtod fmt fs path fds] assms by simp
qed

theorem definitions_are_checked_witness: "document_ok sample_fmt sample_document"
proof -
  obtain fds' where "ParseFile sample_strtod sample_fmt (pe_files sample_plan_env) ''/d'' [] = (Inr sample_document, fds')"
    using sample_parse_definition
    by (cases "ParseFile sample_strtod sample_fmt (pe_files sample_plan_env) ''/d'' []") (simp add: parse_definition_def)
  from definitions_are_checked [OF this] show ?thesis by simp
qed

section \<open>Writing a plan\<close>

text \<open>
  C10. Writing a plan is safe: it writes nothing, or a prefix of the plan into a singly linked
  regular file directly below a directory that belongs to the caller and that nobody else can
  write, by a path without \<open>..\<close>. Success means the whole plan is there. No descriptor leaks, and
  no component that was opened on the way is empty, \<open>.\<close> or \<open>..\<close>.
\<close>

theorem plan_files_are_safe:
  assumes "WritePlanFile env path content s = Some (r, s')" "NUL \<notin> set path"
  shows "os_fds s' = os_fds s
    \<and> (\<exists>cs. os_opened s' = os_opened s @ cs \<and> list_all plain_component cs)
    \<and> (r = None \<longrightarrow> os_content s' = Some content)
    \<and> (os_content s' = os_content s \<or> sound_destination env path \<and> (\<exists>n. os_content s' = Some (take n content)))"
  by (rule WritePlanFile_result [OF assms])

definition sample_output :: output_calls where
  "sample_output =
     \<lparr>out_root = (\<lambda>p. Inr 3), out_openat = (\<lambda>fd c. Inl ENOENT), out_create = (\<lambda>fd c. Inr 4),
      out_fstat = (\<lambda>fd. Inr \<lparr>st_uid = 0, st_gid = 0, st_mode = (if fd = 3 then S_IFDIR else S_IFREG), st_nlink = 1\<rparr>),
      out_geteuid = 0, out_ftruncate = (\<lambda>fd. None), out_write = (\<lambda>k. if k = 1 then Inl EINTR else Inr 1),
      out_close = (\<lambda>fd. None), out_strerror = (\<lambda>e. [])\<rparr>"

definition sample_disk :: output_state where
  "sample_disk = \<lparr>os_fds = [], os_opened = [], os_content = None\<rparr>"

lemma sample_WritePlanFile:
  "WritePlanFile sample_output ''/o'' ''ab'' sample_disk = Some (None, sample_disk\<lparr>os_content := Some ''ab''\<rparr>)"
proof -
  have r: "rfind_char (CHR ''/'') ''/o'' = Some 0" by code_simp
  have w: "write_loop (out_write sample_output) 0 ''ab'' 0 [] = Some (None, ''ab'')"
    by (simp add: write_loop.simps sample_output_def)
  have nil: "walk env p [] fd s = (Inr fd, s)" for env p fd s by (simp add: walk.simps)
  have out: "out_root sample_output p = Inr 3" "out_create sample_output fd p = Inr 4" "out_geteuid sample_output = 0"
      "out_fstat sample_output fd = Inr \<lparr>st_uid = 0, st_gid = 0, st_mode = (if fd = 3 then S_IFDIR else S_IFREG), st_nlink = 1\<rparr>"
      "out_ftruncate sample_output fd = None" "out_close sample_output fd = None" for p fd
    by (simp_all add: sample_output_def)
  show ?thesis
    by (simp add: WritePlanFile_def output_name_def open_parent_def parent_dir_def r nil write_output_def w out
        trusted_parent_def S_ISDIR_def S_ISREG_def writable_by_others_def sample_disk_def Let_def release_def acquire_def)
qed

theorem plan_files_are_safe_witness:
  "sound_destination sample_output ''/o'' \<and> os_fds (sample_disk\<lparr>os_content := Some ''ab''\<rparr>) = []"
  using plan_files_are_safe [OF sample_WritePlanFile] by (simp add: sample_disk_def)

text \<open>
  C26. Writing a plan ends: if the writes make progress again and again (no call sequence of only
  \<open>EINTR\<close> and empty writes from some point on), the loop returns, however short the writes are.
\<close>

theorem plan_writes_end:
  assumes "\<And>k. \<exists>j\<ge>k. progress (out_write env j)"
  shows "\<exists>r s'. WritePlanFile env path content s = Some (r, s')"
  using WritePlanFile_returns assms by blast

theorem plan_writes_end_witness: "\<exists>r s'. WritePlanFile sample_output ''/o'' plan_text sample_disk = Some (r, s')"
proof (rule plan_writes_end)
  fix k
  show "\<exists>j\<ge>k. progress (out_write sample_output j)"
    by (intro exI [of _ "k + 2"]) (simp add: sample_output_def progress_def)
qed

section \<open>JUnit\<close>

text \<open>
  C16. The JUnit report counts right and fits: when the renderer succeeds, its input was an object
  with a list of rule objects, and the output is the print of a tree with one test case per rule in
  order, each with the class name, title and outcome of its rule; the attributes tests, failures
  and skipped are the numbers of rules, of non-compliant rules and of rules skipped or not
  applicable. Every value in the tree is valid XML text, and both the tree and the print stay
  within the output limit.
\<close>

theorem junit_report:
  assumes "RenderJUnit strtod fmt save js suite = Inr out"
  shows "\<exists>root rules cases. json_parse_string strtod js = Some (JObject root)
    \<and> map_of root ''rules'' = Some (JArray (map JObject rules)) \<and> list_all2 case_of rules cases
    \<and> (let doc = Element ''testsuites'' [] [Element ''testsuite''
          [(''name'', suite), (''tests'', to_string_nat (length rules)),
           (''failures'', to_string_nat (length (filter (\<lambda>r. rule_status r = ''NonCompliant'') rules))),
           (''skipped'', to_string_nat (length (filter (\<lambda>r. rule_status r = ''NotApplicable'' \<or> rule_status r = ''Skipped'') rules)))] cases]
       in xml_ok doc \<and> weight doc \<le> kMaxJUnitBytes \<and> out = concat (save doc) \<and> length out \<le> kMaxJUnitBytes)"
proof -
  obtain root vs doc used where r: "NUL \<notin> set js" "result_object strtod js = Inr root" "result_rules root = Inr vs"
      "junit_document fmt vs suite = Inr (doc, used)" "bounded_put kMaxJUnitBytes (save doc) [] = Some out"
    using assms by (auto simp: RenderJUnit_def result_simps split: if_splits)
  have parsed: "json_parse_string strtod js = Some (JObject root)"
    using r(1,2) by (auto simp: result_object_def split: option.splits json.splits)
  have vs: "map_of root ''rules'' = Some (JArray vs)"
    using r(3) by (auto simp: result_rules_def json_object_get_array_def split: option.splits json.splits)
  obtain rules cases where j: "vs = map JObject rules" "list_all2 case_of rules cases"
      "doc = Element ''testsuites'' [] [Element ''testsuite''
          [(''name'', suite), (''tests'', to_string_nat (length rules)),
           (''failures'', to_string_nat (length (filter (\<lambda>r. rule_status r = ''NonCompliant'') rules))),
           (''skipped'', to_string_nat (length (filter (\<lambda>r. rule_status r = ''NotApplicable'' \<or> rule_status r = ''Skipped'') rules)))] cases]"
      "xml_ok doc" "weight doc \<le> kMaxJUnitBytes"
    using junit_document_Inr [OF r(4)] by blast
  have "out = concat (save doc)" "length out \<le> kMaxJUnitBytes"
    using r(5) bounded_put_iff [of "[]" kMaxJUnitBytes "save doc"] by (auto split: if_splits)
  then have "xml_ok doc \<and> weight doc \<le> kMaxJUnitBytes \<and> out = concat (save doc) \<and> length out \<le> kMaxJUnitBytes"
    using j(4,5) by blast
  then show ?thesis
    unfolding Let_def using parsed vs j(2) unfolding j(1,3) by blast
qed

definition sample_rules :: jobject where
  "sample_rules = [(''rules'', JArray [JObject [(''id'', JString ''1''), (''title'', JString ''t''), (''status'', JString ''Compliant'')]])]"

lemma sample_RenderJUnit:
  "\<exists>out. RenderJUnit sample_strtod sample_fmt (\<lambda>doc. [''<testsuites/>'']) (json_serialize_to_string sample_fmt (JObject sample_rules)) ''s'' = Inr out"
proof -
  let ?t = "json_serialize_to_string sample_fmt (JObject sample_rules)"
  have plain: "json_wf (JObject sample_rules)" "json_plain (JObject sample_rules)" "json_depth (JObject sample_rules) \<le> MAX_NESTING"
    by (simp_all add: sample_rules_def MAX_NESTING_def)
  have parse: "json_parse_string sample_strtod ?t = Some (JObject sample_rules)"
    using parse_serialize_plain [OF plain, of sample_strtod sample_fmt "[]"] by simp
  have nul: "NUL \<notin> set ?t" using serialize_plain_no_nul [OF plain(2)] by (simp add: json_serialize_to_string_def)
  have trail: "\<not> HasTrailingObjectData ?t"
    by (simp add: json_serialize_to_string_def sample_rules_def json_serialize_string_def escape_string_def escape_char_def
        HasTrailingObjectData_def)
  have valid: "HasValidXmlCharacters ''s''" "HasValidXmlCharacters ''1''" "HasValidXmlCharacters ''t''"
      "HasValidXmlCharacters [char_of (48 :: nat)]" "HasValidXmlCharacters [char_of (49 :: nat)]"
    by (simp_all add: HasValidXmlCharacters_def valid_xml_bytes.simps first_xml_char_def lead_byte_def xml_char_def)
  show ?thesis
    using nul parse trail valid
    by (simp add: RenderJUnit_def result_object_def sample_rules_def result_rules_def json_object_get_array_def
        json_object_get_value_def junit_document_def testcase_def read_testcase_def read_rule_string_def rule_title_def no_nul_def
        TestcaseClassname_def known_status_def BuildTags_def outcome_def AddElement_def AddAttribute_def XmlBudget_Add_def
        to_string_nat.simps digit_char_def Let_def)
qed

theorem junit_report_witness: "\<exists>rules cases. list_all2 case_of rules cases \<and> length rules = 1"
proof -
  obtain out where out: "RenderJUnit sample_strtod sample_fmt (\<lambda>doc. [''<testsuites/>'']) (json_serialize_to_string sample_fmt (JObject sample_rules)) ''s'' = Inr out"
    using sample_RenderJUnit by blast
  have "json_wf (JObject sample_rules)" "json_plain (JObject sample_rules)" "json_depth (JObject sample_rules) \<le> MAX_NESTING"
    by (simp_all add: sample_rules_def MAX_NESTING_def)
  then have "json_parse_string sample_strtod (json_serialize_to_string sample_fmt (JObject sample_rules)) = Some (JObject sample_rules)"
    using parse_serialize_plain [of "JObject sample_rules" sample_strtod sample_fmt "[]"] by simp
  then obtain rules cases where "map_of sample_rules ''rules'' = Some (JArray (map JObject rules))" "list_all2 case_of rules cases"
    using junit_report [OF out] by auto
  then show ?thesis by (intro exI [of _ rules] exI [of _ cases]) (auto simp: sample_rules_def)
qed

text \<open>
  C27. The check of text for XML is exact: a string passes if and only if it is the UTF-8 encoding of
  a sequence of characters that XML 1.0 allows, with every character in its shortest form.
\<close>

theorem xml_characters:
  "HasValidXmlCharacters s \<longleftrightarrow> (\<exists>cps. list_all xml_char cps \<and> map of_char s = concat (map utf8 cps))"
  unfolding HasValidXmlCharacters_def by (rule valid_xml_bytes_iff)

section \<open>The program\<close>

text \<open>
  The command line decides: whatever the arguments, the options that are accepted satisfy what
  their subcommand relies on. A plan has at least one real input file and no option of another
  command; run and list have exactly one file on disk and no toggles; render has a format.
\<close>

lemma command_line:
  assumes "ParseCommandLine telemetry args = Inr o'"
  shows "options_ok o'"
  by (rule ParseCommandLine_ok [OF assms])





end
