(* ===== verification/ProcedureBase.thy ===== *)
theory ProcedureBase
  imports Bindings
begin

text \<open>
  What the rule procedures of \<open>src/lib/procedures\<close> share: their bodies as functions on the indicators
  and the machine, with the three ways in which a body ends or goes on, and \<open>ContextInterface.h\<close>,
  the machine as the procedures see it. A body that is built from these pieces keeps the
  contract of a procedure; the lemmas are collected in \<open>contract_intros\<close>.
\<close>

named_theorems contract_intros \<open>bodies that keep the contract of a procedure\<close>

section \<open>Bodies\<close>

type_synonym 'w body = "indicators_tree \<Rightarrow> 'w \<Rightarrow> 'w outcome"

text \<open>\<open>return indicators.Compliant (msg)\<close> and the like.\<close>

definition returns :: "status \<Rightarrow> string \<Rightarrow> 'w body" where
  "returns s msg it w = (case AddIndicator msg s it of (s', it') \<Rightarrow> (Inr s', it', w))"

text \<open>\<open>return Error (\<dots>)\<close>.\<close>

definition fails :: "error \<Rightarrow> 'w body" where
  "fails e it w = (Inl e, it, w)"

text \<open>\<open>return status\<close>, without an indicator.\<close>

definition returns_plain :: "status \<Rightarrow> 'w body" where
  "returns_plain s it w = (Inr s, it, w)"

text \<open>\<open>indicators.Compliant (msg);\<close> as a statement, and what follows.\<close>

definition remarks :: "status \<Rightarrow> string \<Rightarrow> 'w body \<Rightarrow> 'w body" where
  "remarks s msg k it w = k (snd (AddIndicator msg s it)) w"

text \<open>A call of another procedure, and what follows with its result.\<close>

definition invokes :: "'w body \<Rightarrow> (status result \<Rightarrow> 'w body) \<Rightarrow> 'w body" where
  "invokes b k it w = (case b it w of (r, it', w') \<Rightarrow> k r it' w')"

text \<open>A step on the machine that leaves the indicators alone, and what follows with its result.\<close>

definition does :: "('w \<Rightarrow> 'a \<times> 'w) \<Rightarrow> ('a \<Rightarrow> 'w body) \<Rightarrow> 'w body" where
  "does f k it w = (case f w of (x, w') \<Rightarrow> k x it w')"

text \<open>Reading the machine.\<close>

definition reads :: "('w \<Rightarrow> 'a) \<Rightarrow> ('a \<Rightarrow> 'w body) \<Rightarrow> 'w body" where
  "reads f k it w = k (f w) it w"

text \<open>\<open>return result;\<close> with the result of a call.\<close>

definition returns_result :: "status result \<Rightarrow> 'w body" where
  "returns_result r it w = (r, it, w)"

lemmas body_defs = returns_def fails_def returns_plain_def remarks_def invokes_def does_def reads_def
  returns_result_def

text \<open>The status and the machine a body leaves do not depend on the indicators.\<close>

lemma body_outcome [simp]:
  "fst (returns s msg it w) = Inr s" "snd (snd (returns s msg it w)) = w"
  "fst (fails e it w) = Inl e" "snd (snd (fails e it w)) = w"
  "fst (returns_plain s it w) = Inr s" "snd (snd (returns_plain s it w)) = w"
  "fst (returns_result r it w) = r" "snd (snd (returns_result r it w)) = w"
  by (auto simp: body_defs AddIndicator_def split: prod.splits)

lemma fst_remarks [simp]: "fst (remarks st m k it w) = fst (k (snd (AddIndicator m st it)) w)"
  by (simp add: remarks_def)

section \<open>The contract\<close>

lemma grown_trans_add: "grown (add_indicator x n) n' \<Longrightarrow> grown n n'"
  using grown_trans [OF grown_add_indicator] .

lemma contract_returns [contract_intros]: "procedure_contract (returns s msg)"
  by unfold_locales (auto simp: returns_def AddIndicator_open)

lemma contract_fails [contract_intros]: "procedure_contract (fails e)"
  by unfold_locales (auto simp: fails_def)

lemma contract_returns_plain [contract_intros]: "procedure_contract (returns_plain s)"
  by unfold_locales (auto simp: returns_plain_def)

lemma contract_returns_result [contract_intros]: "procedure_contract (returns_result r)"
  by unfold_locales (auto simp: returns_result_def)

lemma contract_remarks [contract_intros]:
  "procedure_contract k \<Longrightarrow> procedure_contract (remarks s msg k)"
  by unfold_locales (auto simp: remarks_def AddIndicator_open dest!: procedure_contract.success_grows intro: grown_trans_add)

lemma contract_does [contract_intros]:
  "(\<And>x. procedure_contract (k x)) \<Longrightarrow> procedure_contract (does f k)"
  by unfold_locales (auto simp: does_def split: prod.splits dest: procedure_contract.success_grows)

lemma contract_reads [contract_intros]:
  "(\<And>x. procedure_contract (k x)) \<Longrightarrow> procedure_contract (reads f k)"
  by unfold_locales (auto simp: reads_def dest: procedure_contract.success_grows)

text \<open>After a failed call the indicators are as the callee left them; a body that goes on from
  there has to return the error.\<close>

lemma contract_invokes [contract_intros]:
  assumes "procedure_contract b" "\<And>s. procedure_contract (k (Inr s))" "\<And>e it w s. fst (k (Inl e) it w) \<noteq> Inr s"
  shows "procedure_contract (invokes b k)"
proof
  fix n ps w s it w'
  assume "invokes b k (open_tree n ps) w = (Inr s, it, w')"
  then obtain r it1 w1 where b: "b (open_tree n ps) w = (r, it1, w1)" and k: "k r it1 w1 = (Inr s, it, w')"
    by (auto simp: invokes_def split: prod.splits)
  obtain s1 where r: "r = Inr s1"
    using k assms(3) [of "projl r" it1 w1 s] by (cases r) auto
  obtain n1 where n1: "it1 = open_tree n1 ps" "grown n n1"
    using procedure_contract.success_grows [OF assms(1)] b r by blast
  show "\<exists>n'. it = open_tree n' ps \<and> grown n n'"
    using procedure_contract.success_grows [OF assms(2)] k r n1 grown_trans by blast
qed

lemma contract_if [contract_intros]:
  "(c \<Longrightarrow> procedure_contract a) \<Longrightarrow> (\<not> c \<Longrightarrow> procedure_contract b) \<Longrightarrow> procedure_contract (if c then a else b)"
  by simp

lemma contract_option [contract_intros]:
  "procedure_contract a \<Longrightarrow> (\<And>x. procedure_contract (b x)) \<Longrightarrow> procedure_contract (case v of None \<Rightarrow> a | Some x \<Rightarrow> b x)"
  by (cases v) auto

lemma contract_sum [contract_intros]:
  "(\<And>e. procedure_contract (a e)) \<Longrightarrow> (\<And>x. procedure_contract (b x)) \<Longrightarrow> procedure_contract (case v of Inl e \<Rightarrow> a e | Inr x \<Rightarrow> b x)"
  by (cases v) auto

lemma contract_prod [contract_intros]:
  "(\<And>x y. procedure_contract (b x y)) \<Longrightarrow> procedure_contract (case v of (x, y) \<Rightarrow> b x y)"
  by (cases v) auto

lemma contract_Let [contract_intros]:
  "(\<And>x. procedure_contract (b x)) \<Longrightarrow> procedure_contract (let x = v in b x)"
  by simp

section \<open>Outcomes of a body\<close>

text \<open>Every way through the body ends with a result in \<open>R\<close>.\<close>

definition ends_in :: "status result set \<Rightarrow> 'w body \<Rightarrow> bool" where
  "ends_in R b \<longleftrightarrow> (\<forall>it w. fst (b it w) \<in> R)"

named_theorems ends_intros \<open>results of bodies\<close>

lemma ends_base [ends_intros]:
  "Inr s \<in> R \<Longrightarrow> ends_in R (returns s msg)" "Inl e \<in> R \<Longrightarrow> ends_in R (fails e)"
  "Inr s \<in> R \<Longrightarrow> ends_in R (returns_plain s)" "r \<in> R \<Longrightarrow> ends_in R (returns_result r)"
  by (simp_all add: ends_in_def)

lemma ends_step [ends_intros]:
  "ends_in R k \<Longrightarrow> ends_in R (remarks s msg k)"
  "(\<And>x. ends_in R (k2 x)) \<Longrightarrow> ends_in R (does f k2)"
  "(\<And>x. ends_in R (k3 x)) \<Longrightarrow> ends_in R (reads g k3)"
  "(\<And>r. ends_in R (k4 r)) \<Longrightarrow> ends_in R (invokes b k4)"
  by (auto simp: ends_in_def remarks_def does_def reads_def invokes_def split: prod.splits)

lemma ends_split [ends_intros]:
  "(c \<Longrightarrow> ends_in R a) \<Longrightarrow> (\<not> c \<Longrightarrow> ends_in R b) \<Longrightarrow> ends_in R (if c then a else b)"
  "ends_in R d \<Longrightarrow> (\<And>x. ends_in R (f x)) \<Longrightarrow> ends_in R (case v of None \<Rightarrow> d | Some x \<Rightarrow> f x)"
  "(\<And>x. ends_in R (g x)) \<Longrightarrow> (\<And>y. ends_in R (h y)) \<Longrightarrow> ends_in R (case u of Inl x \<Rightarrow> g x | Inr y \<Rightarrow> h y)"
  "(\<And>x y. ends_in R (j x y)) \<Longrightarrow> ends_in R (case q of (x, y) \<Rightarrow> j x y)"
  "(\<And>x. ends_in R (l x)) \<Longrightarrow> ends_in R (let x = t in l x)"
  by (simp, cases v, simp_all, cases u, simp_all, cases q, simp)

section \<open>The machine\<close>

text \<open>The members of \<open>ContextInterface\<close> that the modelled procedures use. A command may change the
  machine; reading a file does not.\<close>

record 'w procedure_context =
  ctx_ExecuteCommand :: "string \<Rightarrow> 'w \<Rightarrow> string result \<times> 'w"
  ctx_GetFileContents :: "string \<Rightarrow> 'w \<Rightarrow> string result"
  ctx_GetSpecialFilePath :: "string \<Rightarrow> string"

section \<open>Texts\<close>

text \<open>\<open>find (text, pos) != npos\<close>.\<close>

definition found_from :: "string \<Rightarrow> string \<Rightarrow> nat \<Rightarrow> bool" where
  "found_from t s pos \<longleftrightarrow> list_ex (\<lambda>k. starts_with t (drop k s)) [pos..<length s + 1]"

section \<open>Octal numbers\<close>

text \<open>\<open>std::oct\<close> of an unsigned value, and with \<open>std::setw (3)\<close> and \<open>std::setfill ('0')\<close>.\<close>

fun to_string_oct :: "nat \<Rightarrow> string" where
  "to_string_oct n = (if n < 8 then [digit_char n] else to_string_oct (n div 8) @ [digit_char (n mod 8)])"

declare to_string_oct.simps [simp del]

definition pad3 :: "string \<Rightarrow> string" where
  "pad3 s = replicate (3 - length s) (CHR ''0'') @ s"

end
