(* ===== verification/FilePermissions.thy ===== *)
theory FilePermissions
  imports ProcedureBase InputSecurity "HOL-Library.AList"
begin

text \<open>
  \<open>src/lib/procedures/FilePermissions.cpp\<close>: owner, group and mode of one file or of a collection. The
  machine is the metadata of the inodes and the open descriptors; how names lead to inodes, the
  user database and the failures of system calls are a parameter. A pattern is its text, since
  only \<open>GetPattern\<close> is used. Shown: what an audit accepts, branch by branch; a remediation touches
  one inode, never a symbolic link, closes its descriptor, and what it leaves the audit accepts.
\<close>

section \<open>Parameters\<close>

datatype behavior = CheckIfExists | AtLeastOneExists | AllExist | AnyExist | NoneExist | OnlyOneExists

record file_permissions_params =
  fp_path :: string
  fp_owner :: "string list option"
  fp_group :: "string list option"
  fp_groupId :: "int option"
  fp_permissions :: "32 word option"
  fp_mask :: "32 word option"
  fp_behavior :: behavior

section \<open>The machine\<close>

text \<open>\<open>pc_stat\<close> and \<open>pc_open\<close> resolve a path, the one through a symbolic link in the last component,
  the other not: an error number or an inode, \<open>pc_open\<close> with a new descriptor.\<close>

record perm_calls =
  pc_stat :: "string \<Rightarrow> int + nat"
  pc_open :: "string \<Rightarrow> int + (nat \<times> nat)"
  pc_fstat :: "nat \<Rightarrow> int option"
  pc_chown :: "nat \<Rightarrow> int option"
  pc_chmod :: "nat \<Rightarrow> int option"
  pc_getpwuid :: "32 word \<Rightarrow> string option"
  pc_getgrgid :: "32 word \<Rightarrow> string option"
  pc_getpwnam :: "string \<Rightarrow> 32 word option"
  pc_getgrnam :: "string \<Rightarrow> 32 word option"
  pc_strerror :: "int \<Rightarrow> string"

record perm_state =
  ps_inodes :: "nat \<Rightarrow> file_stat"
  ps_fds :: "(nat \<times> nat) list"

abbreviation displayMask :: "32 word" where "displayMask \<equiv> 0xFFF"
abbreviation S_ISUID :: "32 word" where "S_ISUID \<equiv> 0x800"
abbreviation S_ISGID :: "32 word" where "S_ISGID \<equiv> 0x400"
abbreviation S_IXGRP :: "32 word" where "S_IXGRP \<equiv> 0x8"

text \<open>Linux drops the set-user-ID bit, and the set-group-ID bit of a group executable, when the owner
  of a file that is no directory is changed, also for root (\<open>chown(2)\<close>).\<close>

definition drop_privileges :: "32 word \<Rightarrow> 32 word" where
  "drop_privileges mode =
     (if S_ISDIR mode then mode
      else let m = mode AND NOT S_ISUID in if mode AND S_IXGRP \<noteq> 0 then m AND NOT S_ISGID else m)"

text \<open>The calls through \<open>/proc/self/fd\<close> reach the inode of the descriptor.\<close>

definition fd_inode :: "perm_state \<Rightarrow> nat \<Rightarrow> nat" where
  "fd_inode s fd = the (map_of (ps_fds s) fd)"

definition do_chown :: "perm_calls \<Rightarrow> nat \<Rightarrow> 32 word \<Rightarrow> 32 word \<Rightarrow> perm_state \<Rightarrow> int option \<times> perm_state" where
  "do_chown env fd uid gid s =
     (let i = fd_inode s fd; st = ps_inodes s i in
      case pc_chown env i of
        Some errno \<Rightarrow> (Some errno, s)
      | None \<Rightarrow> (None, s\<lparr>ps_inodes := (ps_inodes s)(i := st\<lparr>st_uid := uid, st_gid := gid,
                               st_mode := drop_privileges (st_mode st)\<rparr>)\<rparr>))"

text \<open>\<open>chmod\<close> sets the twelve permission bits.\<close>

definition do_chmod :: "perm_calls \<Rightarrow> nat \<Rightarrow> 16 word \<Rightarrow> perm_state \<Rightarrow> int option \<times> perm_state" where
  "do_chmod env fd mode s =
     (let i = fd_inode s fd; st = ps_inodes s i in
      case pc_chmod env i of
        Some errno \<Rightarrow> (Some errno, s)
      | None \<Rightarrow> (None, s\<lparr>ps_inodes := (ps_inodes s)(i := st\<lparr>st_mode := set_mode (st_mode st) (ucast mode)\<rparr>)\<rparr>))"

section \<open>Audit of a file\<close>

definition same_bits_error :: error where
  "same_bits_error = Error1 ''Invalid permissions and mask - same bits set in both''"

abbreviation uns :: "32 word \<Rightarrow> string" where "uns w \<equiv> to_string_nat (unat w)"
abbreviation oct_str :: "32 word \<Rightarrow> string" where "oct_str w \<equiv> to_string_oct (unat w)"
abbreviation names_text :: "string list \<Rightarrow> string" where "names_text \<equiv> Separated_ToString (CHR ''|'') (\<lambda>s. s)"

definition audit_owner :: "perm_calls \<Rightarrow> file_permissions_params \<Rightarrow> file_stat \<Rightarrow> perm_state body \<Rightarrow> perm_state body" where
  "audit_owner env p st k =
     (case fp_owner p of
        None \<Rightarrow> k
      | Some owners \<Rightarrow>
          (case pc_getpwuid env (st_uid st) of
             None \<Rightarrow> returns NonCompliant (''No user with uid '' @ uns (st_uid st))
           | Some name \<Rightarrow>
               if name \<notin> set owners
               then returns NonCompliant (''Invalid owner on '' @ quoted (fp_path p) @ '' - is '' @ quoted name
                 @ '' should be '' @ quoted (names_text owners))
               else remarks Compliant (fp_path p @ '' owner matches expected value '' @ quoted (names_text owners)) k))"

definition audit_group_id :: "file_permissions_params \<Rightarrow> file_stat \<Rightarrow> perm_state body \<Rightarrow> perm_state body" where
  "audit_group_id p st k =
     (case fp_groupId p of
        None \<Rightarrow> k
      | Some gid \<Rightarrow>
          if st_gid st \<noteq> word_of_int gid
          then returns NonCompliant (''Invalid group ID on '' @ quoted (fp_path p) @ '' - is '' @ uns (st_gid st)
            @ '' should be '' @ to_string_int gid)
          else remarks Compliant (fp_path p @ '' group ID matches expected value '' @ to_string_int gid) k)"

definition audit_group :: "perm_calls \<Rightarrow> file_permissions_params \<Rightarrow> file_stat \<Rightarrow> perm_state body \<Rightarrow> perm_state body" where
  "audit_group env p st k =
     (case fp_group p of
        None \<Rightarrow> k
      | Some groups \<Rightarrow>
          (case pc_getgrgid env (st_gid st) of
             None \<Rightarrow> returns NonCompliant (''No group with gid '' @ uns (st_gid st))
           | Some name \<Rightarrow>
               if name \<notin> set groups
               then returns NonCompliant (''Invalid group on '' @ quoted (fp_path p) @ '' - is '' @ quoted name
                 @ '' should be '' @ quoted (names_text groups))
               else remarks Compliant (fp_path p @ '' group matches expected value '' @ quoted (names_text groups)) k))"

definition same_bits :: "file_permissions_params \<Rightarrow> bool" where
  "same_bits p \<longleftrightarrow> (\<exists>perms\<in>set_option (fp_permissions p). \<exists>m\<in>set_option (fp_mask p). perms AND m \<noteq> 0)"

definition audit_permissions :: "file_permissions_params \<Rightarrow> file_stat \<Rightarrow> perm_state body \<Rightarrow> perm_state body" where
  "audit_permissions p st k =
     (case fp_permissions p of
        None \<Rightarrow> k
      | Some perms \<Rightarrow>
          if perms \<noteq> st_mode st AND perms
          then returns NonCompliant (''Invalid permissions on '' @ quoted (fp_path p) @ '' - are ''
            @ oct_str (st_mode st AND displayMask) @ '' should be at least '' @ oct_str perms)
          else remarks Compliant (fp_path p @ '' matches expected permissions '' @ oct_str perms) k)"

definition audit_mask :: "file_permissions_params \<Rightarrow> file_stat \<Rightarrow> perm_state body \<Rightarrow> perm_state body" where
  "audit_mask p st k =
     (case fp_mask p of
        None \<Rightarrow> k
      | Some m \<Rightarrow>
          if st_mode st AND m \<noteq> 0
          then returns NonCompliant (''Invalid permissions on '' @ quoted (fp_path p) @ '' - are ''
            @ oct_str (st_mode st AND displayMask) @ '' should be set to ''
            @ pad3 (oct_str (st_mode st AND NOT m AND displayMask)) @ '' or a more restrictive value'')
          else remarks Compliant (fp_path p @ '' mask matches expected mask '' @ oct_str m) k)"

definition invalid_group_id :: "file_permissions_params \<Rightarrow> bool" where
  "invalid_group_id p \<longleftrightarrow> (\<exists>gid\<in>set_option (fp_groupId p). fp_group p \<noteq> None \<or> gid < 0)"

definition stat_error :: "perm_calls \<Rightarrow> int \<Rightarrow> error" where
  "stat_error env errno = Error (''Stat error '' @ quoted (pc_strerror env errno)) errno"

definition AuditFilePermissions :: "perm_calls \<Rightarrow> file_permissions_params \<Rightarrow> perm_state body" where
  "AuditFilePermissions env p =
     (if invalid_group_id p then fails (Error ''Invalid numeric group ID parameters'' EINVAL)
      else case pc_stat env (fp_path p) of
        Inl errno \<Rightarrow>
          if errno = ENOENT then
            (if fp_behavior p = NoneExist \<or> fp_behavior p = CheckIfExists
             then returns Compliant (''File '' @ quoted (fp_path p) @ '' does not exist as it should'')
             else returns NonCompliant (''File '' @ quoted (fp_path p) @ '' does not exist but it should''))
          else fails (stat_error env errno)
      | Inr i \<Rightarrow>
          reads (\<lambda>s. ps_inodes s i) (\<lambda>st.
            if fp_behavior p = NoneExist
            then returns NonCompliant (''File '' @ quoted (fp_path p) @ '' exist but it should not'')
            else audit_owner env p st (audit_group_id p st (audit_group env p st (
              if same_bits p then fails same_bits_error
              else audit_permissions p st (audit_mask p st (
                returns Compliant (''File '' @ quoted (fp_path p) @ '' has correct permissions and ownership as expected''))))))))"

section \<open>Remediation of a file\<close>

text \<open>The guard of the descriptor: it is closed when the body returns.\<close>

definition guarded :: "nat \<Rightarrow> perm_state body \<Rightarrow> perm_state body" where
  "guarded fd b it s = (case b it s of (r, it', s') \<Rightarrow> (r, it', s'\<lparr>ps_fds := AList.delete fd (ps_fds s')\<rparr>))"

definition open_path_fd :: "perm_calls \<Rightarrow> string \<Rightarrow> perm_state \<Rightarrow> (int + nat) \<times> perm_state" where
  "open_path_fd env path s =
     (case pc_open env path of
        Inl errno \<Rightarrow> (Inl errno, s)
      | Inr (fd, i) \<Rightarrow> (Inr fd, s\<lparr>ps_fds := (fd, i) # ps_fds s\<rparr>))"

definition fstat_fd :: "perm_calls \<Rightarrow> nat \<Rightarrow> perm_state \<Rightarrow> int + file_stat" where
  "fstat_fd env fd s =
     (case pc_fstat env (fd_inode s fd) of Some errno \<Rightarrow> Inl errno | None \<Rightarrow> Inr (ps_inodes s (fd_inode s fd)))"

definition remediated_owner :: "perm_calls \<Rightarrow> file_permissions_params \<Rightarrow> file_stat \<Rightarrow> (32 word \<Rightarrow> perm_state body) \<Rightarrow> perm_state body" where
  "remediated_owner env p st k =
     (case fp_owner p of
        None \<Rightarrow> k (st_uid st)
      | Some owners \<Rightarrow>
          if owners = [] then fails (Error ''Empty list of owners provided'' EINVAL)
          else if pc_getpwuid env (st_uid st) \<in> Some ` set owners then k (st_uid st)
          else (case pc_getpwnam env (hd owners) of
            None \<Rightarrow> returns NonCompliant (''No user with name '' @ hd owners)
          | Some uid \<Rightarrow> k uid))"

definition remediated_group :: "perm_calls \<Rightarrow> file_permissions_params \<Rightarrow> file_stat \<Rightarrow> (32 word \<Rightarrow> perm_state body) \<Rightarrow> perm_state body" where
  "remediated_group env p st k =
     (case fp_group p of
        None \<Rightarrow> k (st_gid st)
      | Some groups \<Rightarrow>
          if groups = [] then fails (Error ''Empty list of groups provided'' EINVAL)
          else if pc_getgrgid env (st_gid st) \<in> Some ` set groups then k (st_gid st)
          else (case pc_getgrnam env (hd groups) of
            None \<Rightarrow> returns NonCompliant (''No group with gid '' @ uns (st_gid st))
          | Some gid \<Rightarrow> k gid))"

definition change_owner ::
  "perm_calls \<Rightarrow> file_permissions_params \<Rightarrow> file_stat \<Rightarrow> nat \<Rightarrow> 32 word \<Rightarrow> 32 word \<Rightarrow> perm_state body \<Rightarrow> perm_state body" where
  "change_owner env p st fd uid gid k =
     (if uid \<noteq> st_uid st \<or> gid \<noteq> st_gid st
      then does (do_chown env fd uid gid) (\<lambda>r. case r of
          Some errno \<Rightarrow> fails (Error (''Chown error: '' @ pc_strerror env errno) errno)
        | None \<Rightarrow> remarks Compliant (fp_path p @ '' owner changed to '' @ uns uid @ '':'' @ uns gid) k)
      else k)"

text \<open>The mode is kept in an \<open>unsigned short\<close>.\<close>

definition new_perms :: "file_permissions_params \<Rightarrow> file_stat \<Rightarrow> 16 word" where
  "new_perms p st =
     (let m = ucast (st_mode st) :: 16 word;
          m = (case fp_permissions p of None \<Rightarrow> m | Some perms \<Rightarrow> m OR ucast perms)
      in (case fp_mask p of None \<Rightarrow> m | Some k \<Rightarrow> m AND NOT (ucast k)))"

definition change_mode :: "perm_calls \<Rightarrow> file_permissions_params \<Rightarrow> file_stat \<Rightarrow> nat \<Rightarrow> perm_state body \<Rightarrow> perm_state body" where
  "change_mode env p st fd k =
     (if same_bits p
      then fails (Error ''Invalid permissions and mask - same bits set in both'' EINVAL)
      else if (ucast (new_perms p st) :: 32 word) \<noteq> st_mode st
      then does (do_chmod env fd (new_perms p st)) (\<lambda>r. case r of
          Some errno \<Rightarrow> fails (Error (''Chmod error: '' @ pc_strerror env errno) errno)
        | None \<Rightarrow> remarks Compliant (fp_path p @ '' permissions changed to '' @ to_string_nat (unat (new_perms p st))) k)
      else k)"

definition remediate_fd :: "perm_calls \<Rightarrow> file_permissions_params \<Rightarrow> nat \<Rightarrow> perm_state body" where
  "remediate_fd env p fd =
     reads (fstat_fd env fd) (\<lambda>r. case r of
        Inl errno \<Rightarrow> fails (stat_error env errno)
      | Inr st \<Rightarrow>
          if S_ISLNK (st_mode st)
          then returns NonCompliant (''Refusing to remediate symbolic link '' @ quoted (fp_path p))
          else remediated_owner env p st (\<lambda>uid. remediated_group env p st (\<lambda>gid.
            change_owner env p st fd uid gid (change_mode env p st fd (returns_plain Compliant)))))"

definition RemediateFilePermissions :: "perm_calls \<Rightarrow> file_permissions_params \<Rightarrow> perm_state body" where
  "RemediateFilePermissions env p =
     (if invalid_group_id p then fails (Error ''Invalid numeric group ID parameters'' EINVAL)
      else if fp_groupId p \<noteq> None then fails (Error ''Numeric group ID remediation is not supported'' ENOTSUP)
      else does (open_path_fd env (fp_path p)) (\<lambda>r. case r of
        Inl errno \<Rightarrow>
          if errno = ENOENT then returns NonCompliant (''File '' @ quoted (fp_path p) @ '' does not exist'')
          else fails (Error (''Open error '' @ quoted (pc_strerror env errno)) errno)
      | Inr fd \<Rightarrow> guarded fd (remediate_fd env p fd)))"

section \<open>What an audit accepts\<close>

text \<open>The requirements on a file that is there.\<close>

definition meets :: "perm_calls \<Rightarrow> file_permissions_params \<Rightarrow> file_stat \<Rightarrow> bool" where
  "meets env p st \<longleftrightarrow>
     (\<forall>owners\<in>set_option (fp_owner p). pc_getpwuid env (st_uid st) \<in> Some ` set owners)
     \<and> (\<forall>gid\<in>set_option (fp_groupId p). st_gid st = word_of_int gid)
     \<and> (\<forall>groups\<in>set_option (fp_group p). pc_getgrgid env (st_gid st) \<in> Some ` set groups)
     \<and> (\<forall>perms\<in>set_option (fp_permissions p). st_mode st AND perms = perms)
     \<and> (\<forall>m\<in>set_option (fp_mask p). st_mode st AND m = 0)"

lemma audit_owner_status:
  assumes "\<And>it. fst (k it w) = r"
  shows "fst (audit_owner env p st k it w) =
    (if \<forall>owners\<in>set_option (fp_owner p). pc_getpwuid env (st_uid st) \<in> Some ` set owners then r else Inr NonCompliant)"
  by (auto simp: audit_owner_def assms split: option.split)

lemma audit_group_id_status:
  assumes "\<And>it. fst (k it w) = r"
  shows "fst (audit_group_id p st k it w) =
    (if \<forall>gid\<in>set_option (fp_groupId p). st_gid st = word_of_int gid then r else Inr NonCompliant)"
  by (auto simp: audit_group_id_def assms split: option.split)

lemma audit_group_status:
  assumes "\<And>it. fst (k it w) = r"
  shows "fst (audit_group env p st k it w) =
    (if \<forall>groups\<in>set_option (fp_group p). pc_getgrgid env (st_gid st) \<in> Some ` set groups then r else Inr NonCompliant)"
  by (auto simp: audit_group_def assms split: option.split)

lemma audit_permissions_status:
  assumes "\<And>it. fst (k it w) = r"
  shows "fst (audit_permissions p st k it w) =
    (if \<forall>perms\<in>set_option (fp_permissions p). st_mode st AND perms = perms then r else Inr NonCompliant)"
  by (auto simp: audit_permissions_def assms split: option.split)

lemma audit_mask_status:
  assumes "\<And>it. fst (k it w) = r"
  shows "fst (audit_mask p st k it w) =
    (if \<forall>m\<in>set_option (fp_mask p). st_mode st AND m = 0 then r else Inr NonCompliant)"
  by (auto simp: audit_mask_def assms split: option.split)

text \<open>The verdict on every branch.\<close>

definition audit_verdict :: "perm_calls \<Rightarrow> file_permissions_params \<Rightarrow> perm_state \<Rightarrow> status result" where
  "audit_verdict env p s =
     (if invalid_group_id p then Inl (Error ''Invalid numeric group ID parameters'' EINVAL)
      else case pc_stat env (fp_path p) of
        Inl errno \<Rightarrow>
          if errno = ENOENT
          then Inr (if fp_behavior p \<in> {NoneExist, CheckIfExists} then Compliant else NonCompliant)
          else Inl (stat_error env errno)
      | Inr i \<Rightarrow>
          if fp_behavior p = NoneExist then Inr NonCompliant
          else if meets env (p\<lparr>fp_permissions := None, fp_mask := None\<rparr>) (ps_inodes s i) \<and> same_bits p
          then Inl same_bits_error
          else Inr (if meets env p (ps_inodes s i) then Compliant else NonCompliant))"

lemma audit_checks_status:
  assumes "\<And>it. fst (k it s) = r"
  shows "fst (audit_owner env p st (audit_group_id p st (audit_group env p st k)) it s) =
    (if meets env (p\<lparr>fp_permissions := None, fp_mask := None\<rparr>) st then r else Inr NonCompliant)"
proof -
  let ?group = "\<forall>groups\<in>set_option (fp_group p). pc_getgrgid env (st_gid st) \<in> Some ` set groups"
  let ?gid = "\<forall>gid\<in>set_option (fp_groupId p). st_gid st = word_of_int gid"
  have 1: "fst (audit_group env p st k it s) = (if ?group then r else Inr NonCompliant)" for it
    by (rule audit_group_status) (rule assms)
  have 2: "fst (audit_group_id p st (audit_group env p st k) it s) =
      (if ?gid then if ?group then r else Inr NonCompliant else Inr NonCompliant)" for it
    by (rule audit_group_id_status) (rule 1)
  show ?thesis
    by (subst audit_owner_status, rule 2) (simp add: meets_def)
qed

lemma audit_bits_status:
  "fst ((if same_bits p then fails same_bits_error
      else audit_permissions p st (audit_mask p st (returns Compliant msg))) it s) =
    (if same_bits p then Inl same_bits_error
     else if (\<forall>perms\<in>set_option (fp_permissions p). st_mode st AND perms = perms)
        \<and> (\<forall>m\<in>set_option (fp_mask p). st_mode st AND m = 0) then Inr Compliant else Inr NonCompliant)"
proof -
  have 1: "fst (audit_mask p st (returns Compliant msg) it s) =
      (if \<forall>m\<in>set_option (fp_mask p). st_mode st AND m = 0 then Inr Compliant else Inr NonCompliant)" for it
    by (rule audit_mask_status) simp
  show ?thesis by (simp add: audit_permissions_status [where k = "audit_mask p st (returns Compliant msg)", OF 1])
qed

lemma AuditFilePermissions_status: "fst (AuditFilePermissions env p it s) = audit_verdict env p s"
proof (cases "pc_stat env (fp_path p)")
  case (Inl e)
  then show ?thesis by (simp add: AuditFilePermissions_def audit_verdict_def)
next
  case (Inr i)
  then show ?thesis
    by (simp add: AuditFilePermissions_def audit_verdict_def reads_def audit_checks_status [OF audit_bits_status])
      (auto simp: meets_def)
qed

lemma audit_blocks_state:
  assumes "\<And>it. snd (snd (k it w)) = w"
  shows "snd (snd (audit_owner env p st k it w)) = w" "snd (snd (audit_group_id p st k it w)) = w"
    "snd (snd (audit_group env p st k it w)) = w" "snd (snd (audit_permissions p st k it w)) = w"
    "snd (snd (audit_mask p st k it w)) = w"
  by (auto simp: audit_owner_def audit_group_id_def audit_group_def audit_permissions_def audit_mask_def
      remarks_def assms split: option.split)

lemma AuditFilePermissions_state: "snd (snd (AuditFilePermissions env p it s)) = s"
  by (auto simp: AuditFilePermissions_def reads_def intro!: audit_blocks_state split: sum.split)

lemma audit_verdict_Compliant:
  "audit_verdict env p s = Inr Compliant \<longleftrightarrow> \<not> invalid_group_id p \<and>
     (case pc_stat env (fp_path p) of
        Inl errno \<Rightarrow> errno = ENOENT \<and> fp_behavior p \<in> {NoneExist, CheckIfExists}
      | Inr i \<Rightarrow> fp_behavior p \<noteq> NoneExist \<and> \<not> same_bits p \<and> meets env p (ps_inodes s i))"
  by (auto simp: audit_verdict_def meets_def split: sum.split)

section \<open>What a remediation does\<close>

lemma mode_mask_mask: "mode_mask = mask 12"
  by (simp add: mask_eq_exp_minus_1)

abbreviation only_mode_bits :: "32 word \<Rightarrow> bool" where
  "only_mode_bits m \<equiv> m AND NOT (mask 12) = 0"

lemma only_mode_bitsD: "only_mode_bits m \<Longrightarrow> bit m n \<Longrightarrow> n < 12"
proof (rule ccontr)
  assume "only_mode_bits m" and n: "bit m n" "\<not> n < 12"
  have "bit (m AND NOT (mask 12)) n"
    using n bit_imp_le_length [OF n(1)] by (simp add: bit_and_iff bit_not_iff bit_mask_iff possible_bit_def)
  with \<open>only_mode_bits m\<close> show False by simp
qed

lemma set_mode_bit:
  assumes "n < 32"
  shows "bit (set_mode old new) n \<longleftrightarrow> (if n < 12 then bit new n else bit old n)"
proof -
  have "set_mode old new = (old AND NOT (mask 12)) OR (new AND mask 12)"
    unfolding set_mode_def mode_mask_mask ..
  then show ?thesis
    using assms by (simp only:) (auto simp: bit_or_iff bit_and_iff bit_not_iff bit_mask_iff possible_bit_def)
qed

lemma new_perms_bit:
  assumes "n < 16"
  shows "bit (ucast (new_perms p st) :: 32 word) n \<longleftrightarrow>
    (bit (st_mode st) n \<or> (\<exists>perms\<in>set_option (fp_permissions p). bit perms n))
    \<and> (\<forall>m\<in>set_option (fp_mask p). \<not> bit m n)"
  using assms
  by (auto simp: new_perms_def Let_def bit_ucast_iff bit_or_iff bit_and_iff bit_not_iff possible_bit_def split: option.split)

text \<open>The mode it leaves has the required bits and none of the mask.\<close>

lemma new_mode_meets:
  assumes "\<not> same_bits p" "\<forall>perms\<in>set_option (fp_permissions p). only_mode_bits perms"
    and "\<forall>m\<in>set_option (fp_mask p). only_mode_bits m"
  shows "\<forall>perms\<in>set_option (fp_permissions p). set_mode old (ucast (new_perms p st)) AND perms = perms"
    "\<forall>m\<in>set_option (fp_mask p). set_mode old (ucast (new_perms p st)) AND m = 0"
proof -
  have apart: "\<not> bit m n" if "fp_permissions p = Some perms" "fp_mask p = Some m" "bit perms n" for perms m n
  proof
    assume "bit m n"
    then have "bit (perms AND m) n" using that(3) by (simp add: bit_and_iff)
    moreover have "perms AND m = 0" using assms(1) that by (simp add: same_bits_def)
    ultimately show False by simp
  qed
  have low: "n < 12 \<and> n < 16 \<and> n < 32" if "only_mode_bits k" "bit k n" for k n
    using only_mode_bitsD [OF that] by simp
  show "\<forall>perms\<in>set_option (fp_permissions p). set_mode old (ucast (new_perms p st)) AND perms = perms"
  proof
    fix perms
    assume p: "perms \<in> set_option (fp_permissions p)"
    show "set_mode old (ucast (new_perms p st)) AND perms = perms"
    proof (rule bit_word_eqI)
      fix n
      have "bit (set_mode old (ucast (new_perms p st))) n" if "bit perms n"
        using low [of perms n] assms(2) p that apart [of perms]
        by (auto simp: set_mode_bit new_perms_bit)
      then show "bit (set_mode old (ucast (new_perms p st)) AND perms) n = bit perms n"
        by (auto simp: bit_and_iff)
    qed
  qed
  show "\<forall>m\<in>set_option (fp_mask p). set_mode old (ucast (new_perms p st)) AND m = 0"
  proof
    fix m
    assume p: "m \<in> set_option (fp_mask p)"
    show "set_mode old (ucast (new_perms p st)) AND m = 0"
    proof (rule bit_word_eqI)
      fix n
      have "\<not> bit (set_mode old (ucast (new_perms p st))) n" if "bit m n"
        using low [of m n] assms(3) p that by (auto simp: set_mode_bit new_perms_bit)
      then show "bit (set_mode old (ucast (new_perms p st)) AND m) n = bit (0::32 word) n"
        by (auto simp: bit_and_iff)
    qed
  qed
qed

lemma privilege_bits:
  "bit S_ISUID n \<longleftrightarrow> n = 11" "bit S_ISGID n \<longleftrightarrow> n = 10"
proof -
  have "S_ISUID = 2 ^ 11" "S_ISGID = 2 ^ 10" by simp_all
  then show "bit S_ISUID n \<longleftrightarrow> n = 11" "bit S_ISGID n \<longleftrightarrow> n = 10"
    by (simp_all only: bit_exp_iff) (auto simp: possible_bit_def)
qed

lemma drop_privileges_bit:
  "bit (drop_privileges m) n \<Longrightarrow> bit m n"
  "bit m n \<Longrightarrow> n \<noteq> 10 \<Longrightarrow> n \<noteq> 11 \<Longrightarrow> bit (drop_privileges m) n"
proof -
  have cases: "drop_privileges m \<in> {m, m AND NOT S_ISUID, (m AND NOT S_ISUID) AND NOT S_ISGID}"
    unfolding drop_privileges_def Let_def by auto
  show "bit (drop_privileges m) n \<Longrightarrow> bit m n"
    using cases unfolding insert_iff by (elim disjE emptyE; simp only: bit_and_iff)
  assume "bit m n" "n \<noteq> 10" "n \<noteq> 11"
  moreover have "bit (NOT S_ISUID) n" "bit (NOT S_ISGID) n"
    using calculation bit_imp_le_length [of m n]
    by (simp_all only: bit_not_iff privilege_bits possible_bit_def) simp_all
  ultimately show "bit (drop_privileges m) n"
    using cases unfolding insert_iff by (elim disjE emptyE; simp only: bit_and_iff)
qed

text \<open>When the mode stays as it is, the bits are there already, and \<open>chown\<close> drops none of those
  asked for.\<close>

lemma kept_mode_meets:
  assumes "ucast (new_perms p st) = st_mode st" "mode1 \<in> {st_mode st, drop_privileges (st_mode st)}" "\<not> same_bits p"
    and "\<forall>perms\<in>set_option (fp_permissions p). only_mode_bits perms \<and> \<not> bit perms 10 \<and> \<not> bit perms 11"
    and "\<forall>m\<in>set_option (fp_mask p). only_mode_bits m"
  shows "\<forall>perms\<in>set_option (fp_permissions p). mode1 AND perms = perms"
    "\<forall>m\<in>set_option (fp_mask p). mode1 AND m = 0"
proof -
  have bits: "bit (set_mode old (ucast (new_perms p st))) n = bit (st_mode st) n" if "n < 12" for n old
    using that by (simp add: set_mode_bit assms(1))
  note new = new_mode_meets [OF assms(3) _ assms(5), of "st_mode st" st]
  show "\<forall>perms\<in>set_option (fp_permissions p). mode1 AND perms = perms"
  proof
    fix perms
    assume p: "perms \<in> set_option (fp_permissions p)"
    show "mode1 AND perms = perms"
    proof (rule bit_word_eqI)
      fix n
      have "bit mode1 n" if n: "bit perms n"
      proof -
        have "n < 12" using n p assms(4) only_mode_bitsD by blast
        moreover have "bit (set_mode (st_mode st) (ucast (new_perms p st)) AND perms) n"
          using n p assms(4) new(1) by (metis (no_types, lifting))
        ultimately have "bit (st_mode st) n" using bits by (simp only: bit_and_iff)
        moreover have "n \<noteq> 10" "n \<noteq> 11" using n p assms(4) by metis+
        ultimately show ?thesis using assms(2) drop_privileges_bit(2) by blast
      qed
      then show "bit (mode1 AND perms) n = bit perms n" by (auto simp: bit_and_iff)
    qed
  qed
  show "\<forall>m\<in>set_option (fp_mask p). mode1 AND m = 0"
  proof
    fix m
    assume p: "m \<in> set_option (fp_mask p)"
    show "mode1 AND m = 0"
    proof (rule bit_word_eqI)
      fix n
      have "\<not> bit mode1 n" if n: "bit m n"
      proof
        assume "bit mode1 n"
        then have "bit (st_mode st) n" using assms(2) drop_privileges_bit(1) by blast
        moreover have low: "n < 12" using n p assms(5) only_mode_bitsD by blast
        ultimately have "bit (set_mode (st_mode st) (ucast (new_perms p st)) AND m) n"
          using n bits by (simp only: bit_and_iff)
        moreover have "set_mode (st_mode st) (ucast (new_perms p st)) AND m = 0"
          using new(2) assms(4) p by blast
        ultimately show False by simp
      qed
      then show "bit (mode1 AND m) n = bit (0::32 word) n" by (auto simp: bit_and_iff)
    qed
  qed
qed

text \<open>A body that changes nothing but the metadata of one inode.\<close>

definition touches_only :: "nat \<Rightarrow> nat \<Rightarrow> perm_state body \<Rightarrow> bool" where
  "touches_only fd i b \<longleftrightarrow>
     (\<forall>it s. map_of (ps_fds s) fd = Some i \<longrightarrow>
        ps_fds (snd (snd (b it s))) = ps_fds s
        \<and> (\<forall>j. j \<noteq> i \<longrightarrow> ps_inodes (snd (snd (b it s))) j = ps_inodes s j))"

named_theorems touches_intros

lemma touches_base [touches_intros]:
  "touches_only fd i (returns st msg)" "touches_only fd i (fails e)" "touches_only fd i (returns_plain st)"
  by (simp_all add: touches_only_def)

lemma touches_remarks [touches_intros]: "touches_only fd i k \<Longrightarrow> touches_only fd i (remarks st msg k)"
  by (simp add: touches_only_def remarks_def)

lemma touches_reads [touches_intros]: "(\<And>x. touches_only fd i (k x)) \<Longrightarrow> touches_only fd i (reads f k)"
  by (simp add: touches_only_def reads_def)

lemma touches_chown [touches_intros]:
  "(\<And>r. touches_only fd i (k r)) \<Longrightarrow> touches_only fd i (does (do_chown env fd uid gid) k)"
  by (auto simp: touches_only_def does_def do_chown_def Let_def fd_inode_def split: option.splits)

lemma touches_chmod [touches_intros]:
  "(\<And>r. touches_only fd i (k r)) \<Longrightarrow> touches_only fd i (does (do_chmod env fd m) k)"
  by (auto simp: touches_only_def does_def do_chmod_def Let_def fd_inode_def split: option.splits)

lemma touches_split [touches_intros]:
  "touches_only fd i a \<Longrightarrow> touches_only fd i b \<Longrightarrow> touches_only fd i (if c then a else b)"
  "touches_only fd i d \<Longrightarrow> (\<And>x. touches_only fd i (f x)) \<Longrightarrow> touches_only fd i (case v of None \<Rightarrow> d | Some x \<Rightarrow> f x)"
  "(\<And>x. touches_only fd i (g x)) \<Longrightarrow> (\<And>y. touches_only fd i (h y)) \<Longrightarrow> touches_only fd i (case u of Inl x \<Rightarrow> g x | Inr y \<Rightarrow> h y)"
  by (simp, cases v, simp_all, cases u, simp_all)

lemma remediate_fd_touches: "touches_only fd i (remediate_fd env p fd)"
  unfolding remediate_fd_def remediated_owner_def remediated_group_def change_owner_def change_mode_def
  by (intro touches_intros)

lemma open_fd_cases:
  assumes "RemediateFilePermissions env p it s = (r, it', s')"
  obtains "s' = s" "r \<noteq> Inr Compliant"
  | fd i s1 where "pc_open env (fp_path p) = Inr (fd, i)"
      "remediate_fd env p fd it (s\<lparr>ps_fds := (fd, i) # ps_fds s\<rparr>) = (r, it', s1)"
      "s' = s1\<lparr>ps_fds := AList.delete fd (ps_fds s1)\<rparr>" "fp_groupId p = None"
proof (cases "invalid_group_id p \<or> fp_groupId p \<noteq> None \<or> (\<exists>e. pc_open env (fp_path p) = Inl e)")
  case True
  then have "s' = s" "r \<noteq> Inr Compliant"
    using assms
    by (auto simp: RemediateFilePermissions_def does_def open_path_fd_def fails_def returns_def
        AddIndicator_def split: if_splits)
  then show thesis by (rule that(1))
next
  case False
  then obtain fd i where "pc_open env (fp_path p) = Inr (fd, i)"
    by (cases "pc_open env (fp_path p)") auto
  with False assms that(2) show thesis
    by (auto simp: RemediateFilePermissions_def does_def open_path_fd_def guarded_def split: prod.splits)
qed

text \<open>A remediation changes at most the inode it opened; its descriptor is closed, and a symbolic
  link stays as it is.\<close>

lemma RemediateFilePermissions_touches:
  assumes run: "RemediateFilePermissions env p it s = (r, it', s')"
    and fresh: "\<forall>fd i. pc_open env (fp_path p) = Inr (fd, i) \<longrightarrow> fd \<notin> fst ` set (ps_fds s)"
  shows "ps_fds s' = ps_fds s"
    "\<And>j. (\<And>fd. pc_open env (fp_path p) \<noteq> Inr (fd, j)) \<Longrightarrow> ps_inodes s' j = ps_inodes s j"
    "\<And>fd i. pc_open env (fp_path p) = Inr (fd, i) \<Longrightarrow> S_ISLNK (st_mode (ps_inodes s i)) \<Longrightarrow>
       ps_inodes s' = ps_inodes s \<and> r \<noteq> Inr Compliant"
proof -
  have "ps_fds s' = ps_fds s
      \<and> (\<forall>j. (\<forall>fd. pc_open env (fp_path p) \<noteq> Inr (fd, j)) \<longrightarrow> ps_inodes s' j = ps_inodes s j)
      \<and> (\<forall>fd i. pc_open env (fp_path p) = Inr (fd, i) \<longrightarrow> S_ISLNK (st_mode (ps_inodes s i)) \<longrightarrow>
            ps_inodes s' = ps_inodes s \<and> r \<noteq> Inr Compliant)"
    using run
  proof (cases rule: open_fd_cases)
    case 1
    then show ?thesis by simp
  next
    case (2 fd i s1)
    have "map_of (ps_fds (s\<lparr>ps_fds := (fd, i) # ps_fds s\<rparr>)) fd = Some i" by simp
    from remediate_fd_touches [unfolded touches_only_def, rule_format, OF this, of env p it]
    have "ps_fds s1 = (fd, i) # ps_fds s" "\<forall>j. j \<noteq> i \<longrightarrow> ps_inodes s1 j = ps_inodes s j"
      by (simp_all add: 2(2))
    moreover have "AList.delete fd (ps_fds s) = ps_fds s"
      using fresh 2(1) by (simp add: AList.delete_idem)
    moreover have "ps_inodes s1 = ps_inodes s \<and> r \<noteq> Inr Compliant" if "S_ISLNK (st_mode (ps_inodes s i))"
      using 2(2) that
      by (auto simp: remediate_fd_def reads_def fstat_fd_def fd_inode_def fails_def returns_def AddIndicator_def
          split: option.splits)
    ultimately show ?thesis using 2 by auto
  qed
  then show "ps_fds s' = ps_fds s"
    "\<And>j. (\<And>fd. pc_open env (fp_path p) \<noteq> Inr (fd, j)) \<Longrightarrow> ps_inodes s' j = ps_inodes s j"
    "\<And>fd i. pc_open env (fp_path p) = Inr (fd, i) \<Longrightarrow> S_ISLNK (st_mode (ps_inodes s i)) \<Longrightarrow>
       ps_inodes s' = ps_inodes s \<and> r \<noteq> Inr Compliant"
    by blast+
qed

definition owner_choice :: "('a \<Rightarrow> string option) \<Rightarrow> (string \<Rightarrow> 'a option) \<Rightarrow> string list option \<Rightarrow> 'a \<Rightarrow> 'a \<Rightarrow> bool" where
  "owner_choice name_of id_of names old new \<longleftrightarrow>
     (case names of
        None \<Rightarrow> new = old
      | Some ns \<Rightarrow> ns \<noteq> [] \<and> (if name_of old \<in> Some ` set ns then new = old else id_of (hd ns) = Some new))"

lemma remediated_owner_Compliant:
  "remediated_owner env p st k it s = (Inr Compliant, it', s') \<longleftrightarrow>
     (\<exists>uid. owner_choice (pc_getpwuid env) (pc_getpwnam env) (fp_owner p) (st_uid st) uid
        \<and> k uid it s = (Inr Compliant, it', s'))"
  by (auto simp: remediated_owner_def owner_choice_def fails_def returns_def AddIndicator_def split: option.split)

lemma remediated_group_Compliant:
  "remediated_group env p st k it s = (Inr Compliant, it', s') \<longleftrightarrow>
     (\<exists>gid. owner_choice (pc_getgrgid env) (pc_getgrnam env) (fp_group p) (st_gid st) gid
        \<and> k gid it s = (Inr Compliant, it', s'))"
  by (auto simp: remediated_group_def owner_choice_def fails_def returns_def AddIndicator_def split: option.split)

lemma change_owner_Compliant:
  assumes "change_owner env p st fd uid gid k it s = (Inr Compliant, it', s')"
    and "fd_inode s fd = i" "ps_inodes s i = st"
  shows "\<exists>mode1 it1 s1. mode1 \<in> {st_mode st, drop_privileges (st_mode st)} \<and> ps_fds s1 = ps_fds s
    \<and> ps_inodes s1 i = st\<lparr>st_uid := uid, st_gid := gid, st_mode := mode1\<rparr>
    \<and> k it1 s1 = (Inr Compliant, it', s')"
proof (cases "uid \<noteq> st_uid st \<or> gid \<noteq> st_gid st")
  case True
  let ?s1 = "s\<lparr>ps_inodes := (ps_inodes s)(i := st\<lparr>st_uid := uid, st_gid := gid, st_mode := drop_privileges (st_mode st)\<rparr>)\<rparr>"
  let ?it1 = "snd (AddIndicator (fp_path p @ '' owner changed to '' @ uns uid @ '':'' @ uns gid) Compliant it)"
  have "pc_chown env i = None"
    using assms True by (auto simp: change_owner_def does_def do_chown_def Let_def fails_def split: option.splits)
  with assms True have "k ?it1 ?s1 = (Inr Compliant, it', s')"
    by (simp add: change_owner_def does_def do_chown_def Let_def remarks_def)
  then have "drop_privileges (st_mode st) \<in> {st_mode st, drop_privileges (st_mode st)} \<and> ps_fds ?s1 = ps_fds s
      \<and> ps_inodes ?s1 i = st\<lparr>st_uid := uid, st_gid := gid, st_mode := drop_privileges (st_mode st)\<rparr>
      \<and> k ?it1 ?s1 = (Inr Compliant, it', s')"
    by simp
  then show ?thesis by blast
next
  case False
  then have "st_mode st \<in> {st_mode st, drop_privileges (st_mode st)} \<and> ps_fds s = ps_fds s
      \<and> ps_inodes s i = st\<lparr>st_uid := uid, st_gid := gid, st_mode := st_mode st\<rparr>
      \<and> k it s = (Inr Compliant, it', s')"
    using assms by (simp add: change_owner_def)
  then show ?thesis by blast
qed

lemma change_mode_Compliant:
  assumes "change_mode env p st fd (returns_plain Compliant) it s = (Inr Compliant, it', s')"
    and "fd_inode s fd = i"
  shows "\<not> same_bits p" "ps_fds s' = ps_fds s"
    "ps_inodes s' i = (ps_inodes s i)\<lparr>st_mode :=
       (if (ucast (new_perms p st) :: 32 word) \<noteq> st_mode st
        then set_mode (st_mode (ps_inodes s i)) (ucast (new_perms p st)) else st_mode (ps_inodes s i))\<rparr>"
  using assms
  by (auto simp: change_mode_def does_def do_chmod_def Let_def fails_def remarks_def returns_plain_def
      split: if_splits option.splits)

lemma remediate_fd_Compliant:
  assumes run: "remediate_fd env p fd it s = (Inr Compliant, it', s')"
    and i: "map_of (ps_fds s) fd = Some i"
  obtains uid gid mode1 where
    "owner_choice (pc_getpwuid env) (pc_getpwnam env) (fp_owner p) (st_uid (ps_inodes s i)) uid"
    "owner_choice (pc_getgrgid env) (pc_getgrnam env) (fp_group p) (st_gid (ps_inodes s i)) gid"
    "mode1 \<in> {st_mode (ps_inodes s i), drop_privileges (st_mode (ps_inodes s i))}" "\<not> same_bits p"
    "ps_inodes s' i = \<lparr>st_uid = uid, st_gid = gid, st_mode =
       (if (ucast (new_perms p (ps_inodes s i)) :: 32 word) \<noteq> st_mode (ps_inodes s i)
        then set_mode mode1 (ucast (new_perms p (ps_inodes s i))) else mode1)\<rparr>"
proof -
  let ?st = "ps_inodes s i"
  have fd: "fd_inode s fd = i" using i by (simp add: fd_inode_def)
  obtain uid gid where choice: "owner_choice (pc_getpwuid env) (pc_getpwnam env) (fp_owner p) (st_uid ?st) uid"
      "owner_choice (pc_getgrgid env) (pc_getgrnam env) (fp_group p) (st_gid ?st) gid"
    and k: "change_owner env p ?st fd uid gid (change_mode env p ?st fd (returns_plain Compliant)) it s
      = (Inr Compliant, it', s')"
    using run
    by (auto simp: remediate_fd_def reads_def fstat_fd_def fd fails_def returns_def AddIndicator_def
        remediated_owner_Compliant remediated_group_Compliant split: option.splits if_splits)
  from change_owner_Compliant [OF k fd refl] obtain mode1 it1 s1 where
    m: "mode1 \<in> {st_mode ?st, drop_privileges (st_mode ?st)}" "ps_fds s1 = ps_fds s"
      "ps_inodes s1 i = ?st\<lparr>st_uid := uid, st_gid := gid, st_mode := mode1\<rparr>"
    and k1: "change_mode env p ?st fd (returns_plain Compliant) it1 s1 = (Inr Compliant, it', s')"
    by blast
  have fd1: "fd_inode s1 fd = i" using fd m(2) by (simp add: fd_inode_def)
  have "ps_inodes s' i = \<lparr>st_uid = uid, st_gid = gid, st_mode =
       (if (ucast (new_perms p ?st) :: 32 word) \<noteq> st_mode ?st
        then set_mode mode1 (ucast (new_perms p ?st)) else mode1)\<rparr>"
    using change_mode_Compliant(3) [OF k1 fd1] by (simp add: m(3))
  with that [OF choice m(1) change_mode_Compliant(1) [OF k1 fd1]] show thesis .
qed

text \<open>A user database in which the first of the names asked for is the name of its number.\<close>

definition names_agree :: "perm_calls \<Rightarrow> file_permissions_params \<Rightarrow> bool" where
  "names_agree env p \<longleftrightarrow>
     (\<forall>ns\<in>set_option (fp_owner p). \<forall>uid. ns \<noteq> [] \<longrightarrow> pc_getpwnam env (hd ns) = Some uid \<longrightarrow> pc_getpwuid env uid = Some (hd ns))
     \<and> (\<forall>ns\<in>set_option (fp_group p). \<forall>gid. ns \<noteq> [] \<longrightarrow> pc_getgrnam env (hd ns) = Some gid \<longrightarrow> pc_getgrgid env gid = Some (hd ns))"

text \<open>Permissions and mask are permission bits, and the set-ID bits are not asked for.\<close>

definition plain_modes :: "file_permissions_params \<Rightarrow> bool" where
  "plain_modes p \<longleftrightarrow>
     (\<forall>perms\<in>set_option (fp_permissions p). only_mode_bits perms \<and> \<not> bit perms 10 \<and> \<not> bit perms 11)
     \<and> (\<forall>m\<in>set_option (fp_mask p). only_mode_bits m)"

lemma owner_choice_agrees:
  assumes "owner_choice name_of id_of names old new"
    and "\<And>ns x. names = Some ns \<Longrightarrow> ns \<noteq> [] \<Longrightarrow> id_of (hd ns) = Some x \<Longrightarrow> name_of x = Some (hd ns)"
  shows "\<forall>ns\<in>set_option names. name_of new \<in> Some ` set ns"
proof (cases names)
  case None
  then show ?thesis by simp
next
  case (Some ns)
  then have ns: "ns \<noteq> []" "name_of old \<in> Some ` set ns \<and> new = old \<or> id_of (hd ns) = Some new"
    using assms(1) by (auto simp: owner_choice_def split: if_splits)
  from ns(2) have "name_of new \<in> Some ` set ns"
  proof
    assume "id_of (hd ns) = Some new"
    from assms(2) [OF Some ns(1) this] hd_in_set [OF ns(1)] show ?thesis by (rule image_eqI)
  qed simp
  then show ?thesis by (simp add: Some)
qed

text \<open>What a successful remediation leaves, the audit accepts.\<close>

lemma remediated_meets:
  assumes run: "RemediateFilePermissions env p it s = (Inr Compliant, it', s')"
    and "pc_open env (fp_path p) = Inr (fd, i)" "names_agree env p" "plain_modes p"
  shows "meets env p (ps_inodes s' i) \<and> \<not> same_bits p \<and> \<not> invalid_group_id p"
  using run
proof (cases rule: open_fd_cases)
  case 1
  then show ?thesis by simp
next
  case (2 fd' i' s1)
  then have i: "i' = i" "fd' = fd" using assms(2) by auto
  let ?st = "ps_inodes s i"
  have st: "ps_inodes (s\<lparr>ps_fds := (fd, i) # ps_fds s\<rparr>) i = ?st" by simp
  have "map_of (ps_fds (s\<lparr>ps_fds := (fd, i) # ps_fds s\<rparr>)) fd = Some i" by simp
  from remediate_fd_Compliant [OF 2(2) [unfolded i] this, unfolded st] obtain uid gid mode1 where
    choice: "owner_choice (pc_getpwuid env) (pc_getpwnam env) (fp_owner p) (st_uid ?st) uid"
      "owner_choice (pc_getgrgid env) (pc_getgrnam env) (fp_group p) (st_gid ?st) gid"
    and m: "mode1 \<in> {st_mode ?st, drop_privileges (st_mode ?st)}" "\<not> same_bits p"
    and s1: "ps_inodes s1 i = \<lparr>st_uid = uid, st_gid = gid, st_mode =
       (if (ucast (new_perms p ?st) :: 32 word) \<noteq> st_mode ?st
        then set_mode mode1 (ucast (new_perms p ?st)) else mode1)\<rparr>"
    by blast
  have masks: "\<forall>perms\<in>set_option (fp_permissions p). only_mode_bits perms \<and> \<not> bit perms 10 \<and> \<not> bit perms 11"
    "\<forall>m\<in>set_option (fp_mask p). only_mode_bits m"
    using assms(4) by (auto simp: plain_modes_def)
  have "\<forall>owners\<in>set_option (fp_owner p). pc_getpwuid env uid \<in> Some ` set owners"
    by (rule owner_choice_agrees [OF choice(1)]) (use assms(3) in \<open>auto simp: names_agree_def\<close>)
  moreover have "\<forall>groups\<in>set_option (fp_group p). pc_getgrgid env gid \<in> Some ` set groups"
    by (rule owner_choice_agrees [OF choice(2)]) (use assms(3) in \<open>auto simp: names_agree_def\<close>)
  moreover have "(\<forall>perms\<in>set_option (fp_permissions p). st_mode (ps_inodes s1 i) AND perms = perms)
      \<and> (\<forall>k\<in>set_option (fp_mask p). st_mode (ps_inodes s1 i) AND k = 0)"
  proof (cases "ucast (new_perms p ?st) = st_mode ?st")
    case True
    then show ?thesis using kept_mode_meets [OF True m(1,2) masks] by (simp add: s1)
  next
    case False
    have "\<forall>perms\<in>set_option (fp_permissions p). only_mode_bits perms" using masks(1) by blast
    from new_mode_meets [OF m(2) this masks(2), of mode1 ?st] False show ?thesis by (simp add: s1)
  qed
  ultimately have "meets env p (ps_inodes s1 i)"
    using 2(4) by (simp add: meets_def s1)
  then show ?thesis using 2(3,4) m(2) by (simp add: invalid_group_id_def)
qed

section \<open>Two defects\<close>

text \<open>\<open>chown\<close> drops the set-user-ID bit; the mode read before it is compared, so it is not set
  again, and the remediation reports success on a file that the audit refuses.\<close>

lemma set_id_lost:
  assumes "st_mode st = 0x89ED" "st_uid st = 1"
    and "pc_open env path = Inr (fd, i)" "pc_stat env path = Inr i" "ps_inodes s i = st"
    and "pc_fstat env i = None" "pc_chown env i = None"
    and "pc_getpwuid env 1 = Some ''daemon''" "pc_getpwnam env ''root'' = Some 0"
  shows "\<exists>it' s'. RemediateFilePermissions env \<lparr>fp_path = path, fp_owner = Some [''root''], fp_group = None,
        fp_groupId = None, fp_permissions = Some 0x9ED, fp_mask = None, fp_behavior = AtLeastOneExists\<rparr> it s = (Inr Compliant, it', s')
      \<and> st_mode (ps_inodes s' i) AND S_ISUID = 0"
  using assms
  by (simp add: RemediateFilePermissions_def invalid_group_id_def does_def open_path_fd_def guarded_def remediate_fd_def
      reads_def fstat_fd_def fd_inode_def S_ISLNK_def remediated_owner_def remediated_group_def change_owner_def do_chown_def
      Let_def remarks_def change_mode_def same_bits_def new_perms_def returns_plain_def drop_privileges_def S_ISDIR_def)

text \<open>For a file that is not there the remediation ignores the behaviour asked for.\<close>

lemma missing_file_behaviors:
  assumes "pc_stat env (fp_path p) = Inl ENOENT" "pc_open env (fp_path p) = Inl ENOENT"
    and "fp_behavior p = CheckIfExists" "fp_groupId p = None"
  shows "fst (AuditFilePermissions env p it s) = Inr Compliant" "fst (RemediateFilePermissions env p it s) = Inr NonCompliant"
  using assms
  by (simp_all add: AuditFilePermissions_def RemediateFilePermissions_def invalid_group_id_def does_def open_path_fd_def)

section \<open>They keep the contract\<close>

lemma contract_guarded [contract_intros]:
  "procedure_contract b \<Longrightarrow> procedure_contract (guarded fd b)"
  by unfold_locales (auto simp: guarded_def split: prod.splits dest: procedure_contract.success_grows)

interpretation audit_file_permissions: procedure_contract "AuditFilePermissions env p" for env p
  unfolding AuditFilePermissions_def audit_owner_def audit_group_id_def audit_group_def audit_permissions_def audit_mask_def
  by (intro contract_intros)

interpretation remediate_file_permissions: procedure_contract "RemediateFilePermissions env p" for env p
  unfolding RemediateFilePermissions_def remediate_fd_def remediated_owner_def remediated_group_def change_owner_def change_mode_def
  by (intro contract_intros)

end
