(* ===== verification/FilePermissionsCollection.thy ===== *)
theory FilePermissionsCollection
  imports FilePermissions
begin

text \<open>
  \<open>EnsureFilePermissionsCollectionHelper\<close> of \<open>src/lib/procedures/FilePermissions.cpp\<close>: the permissions of
  the files below a directory. The walk is that of \<open>fts_read\<close>: a tree of entries in preorder, with
  a closing entry behind the content of a directory; \<open>fts_open\<close>, \<open>fnmatch\<close> and regular
  expressions are parameters. Shown: an audit is the table of the requested behaviour on the verdicts
  of the selected files, and a remediation changes only files that are selected.
\<close>

section \<open>The walk\<close>

datatype fts_info = FTS_F | FTS_D | FTS_DP | FTS_SL | FTS_SLNONE | FTS_DEFAULT | FTS_ERR | FTS_DNR | FTS_NS | FTS_DC

record fts_entry =
  fe_name :: string
  fe_path :: string
  fe_info :: fts_info
  fe_level :: nat
  fe_errno :: int
  fe_uid :: "32 word"
  fe_gid :: "32 word"

text \<open>An entry, the content of the directory, and the entry that follows it (\<open>FTS_DP\<close>, or an error).\<close>

datatype fts_tree = FtsTree fts_entry "fts_tree list" fts_entry

fun fts_sequence :: "(fts_entry \<Rightarrow> bool) \<Rightarrow> fts_tree \<Rightarrow> fts_entry list" where
  "fts_sequence skip (FtsTree e cs closing) =
     e # (if fe_info e \<noteq> FTS_D then []
          else if skip e then [e\<lparr>fe_info := FTS_DP\<rparr>]
          else concat (map (fts_sequence skip) cs) @ [closing])"

text \<open>\<open>fc_fts_open\<close> takes the path and whether the path itself may be a symbolic link; the number
  is \<open>errno\<close> at the end of the walk.\<close>

record walk_calls = perm_calls +
  fc_fts_open :: "string \<Rightarrow> bool \<Rightarrow> int + (fts_tree \<times> int)"
  fc_fnmatch :: "string \<Rightarrow> string \<Rightarrow> bool"
  fc_regex :: "string \<Rightarrow> string + (string \<Rightarrow> bool)"

section \<open>Parameters\<close>

record collection_params =
  fc_directory :: string
  fc_recurse :: "bool option"
  fc_directoriesOnly :: bool
  fc_allFileTypes :: bool
  fc_excludeSymlinks :: bool
  fc_excludeDirectories :: bool
  fc_maximumUid :: "int option"
  fc_maximumGid :: "int option"
  fc_filePattern :: string
  fc_filePatternIsRegex :: bool
  fc_owner :: "string list option"
  fc_group :: "string list option"
  fc_groupId :: "int option"
  fc_permissions :: "32 word option"
  fc_mask :: "32 word option"
  fc_behavior :: behavior

definition numericOwnership :: "collection_params \<Rightarrow> bool" where
  "numericOwnership p \<longleftrightarrow> fc_maximumUid p \<noteq> None \<or> fc_maximumGid p \<noteq> None"

definition collection_error :: "collection_params \<Rightarrow> bool \<Rightarrow> error option" where
  "collection_error p isRemediation =
     (if (\<exists>gid\<in>set_option (fc_groupId p). fc_group p \<noteq> None \<or> numericOwnership p \<or> gid < 0)
      then Some (Error ''Invalid numeric group ID collection parameters'' EINVAL)
      else if (\<exists>u\<in>set_option (fc_maximumUid p). u < 0) \<or> (\<exists>g\<in>set_option (fc_maximumGid p). g < 0)
        \<or> (fc_allFileTypes p \<and> (fc_directoriesOnly p \<or> \<not> numericOwnership p))
        \<or> (fc_excludeSymlinks p \<and> \<not> fc_allFileTypes p) \<or> (fc_excludeDirectories p \<and> \<not> fc_allFileTypes p)
        \<or> (numericOwnership p \<and> ((fc_behavior p \<noteq> AnyExist \<and> fc_behavior p \<noteq> AtLeastOneExists) \<or> fc_owner p \<noteq> None
             \<or> fc_group p \<noteq> None \<or> fc_mask p \<noteq> None \<or> fc_permissions p \<noteq> None))
      then Some (Error ''Invalid numeric ownership collection parameters'' EINVAL)
      else if isRemediation \<and> fc_groupId p \<noteq> None
      then Some (Error ''Numeric group ID remediation is not supported'' ENOTSUP)
      else if isRemediation \<and> (numericOwnership p \<or> fc_allFileTypes p)
      then Some (Error ''Numeric ownership collections are audit-only'' ENOTSUP)
      else None)"

definition file_matcher :: "'m walk_calls_scheme \<Rightarrow> collection_params \<Rightarrow> (string \<Rightarrow> bool) result" where
  "file_matcher env p =
     (if fc_filePatternIsRegex p
      then (case fc_regex env (fc_filePattern p) of
              Inl what \<Rightarrow> Inl (Error (''Invalid file pattern '' @ quoted (fc_filePattern p) @ '': '' @ what) EINVAL)
            | Inr f \<Rightarrow> Inr f)
      else Inr (fc_fnmatch env (fc_filePattern p)))"

definition recurses :: "collection_params \<Rightarrow> bool" where
  "recurses p = (case fc_recurse p of None \<Rightarrow> True | Some b \<Rightarrow> b)"

definition selected :: "collection_params \<Rightarrow> (string \<Rightarrow> bool) \<Rightarrow> fts_entry \<Rightarrow> bool" where
  "selected p matches e \<longleftrightarrow>
     (if fc_allFileTypes p
      then fe_level e > 0 \<and> fe_info e \<in> {FTS_F, FTS_D, FTS_SL, FTS_SLNONE, FTS_DEFAULT}
      else if fc_directoriesOnly p then fe_info e = FTS_D else fe_info e = FTS_F)
     \<and> (recurses p \<or> fe_level e = (if fc_directoriesOnly p then 0 else 1))
     \<and> \<not> (fc_excludeSymlinks p \<and> fe_info e \<in> {FTS_SL, FTS_SLNONE})
     \<and> \<not> (fc_excludeDirectories p \<and> fe_info e = FTS_D)
     \<and> matches (fe_name e)"

definition skipped :: "collection_params \<Rightarrow> fts_entry \<Rightarrow> bool" where
  "skipped p e \<longleftrightarrow> fe_info e = FTS_D \<and> \<not> recurses p \<and> fe_path e \<noteq> fc_directory p"

definition sub_params :: "collection_params \<Rightarrow> fts_entry \<Rightarrow> file_permissions_params" where
  "sub_params p e = \<lparr>fp_path = fe_path e, fp_owner = fc_owner p, fp_group = fc_group p, fp_groupId = fc_groupId p,
     fp_permissions = fc_permissions p, fp_mask = fc_mask p, fp_behavior = fc_behavior p\<rparr>"

section \<open>The loop\<close>

definition within :: "int option \<Rightarrow> 32 word \<Rightarrow> bool" where
  "within limit x \<longleftrightarrow> (case limit of None \<Rightarrow> True | Some m \<Rightarrow> x \<le> word_of_int m)"

fun collection_loop :: "'m walk_calls_scheme \<Rightarrow> collection_params \<Rightarrow> bool \<Rightarrow> (string \<Rightarrow> bool) \<Rightarrow> int
    \<Rightarrow> (nat \<Rightarrow> nat \<Rightarrow> perm_state body) \<Rightarrow> fts_entry list \<Rightarrow> nat \<Rightarrow> nat \<Rightarrow> perm_state body" where
  "collection_loop env p isRemediation matches end_errno k [] good bad =
     (if numericOwnership p \<and> end_errno \<noteq> 0 then fails (Error ''Cannot finish ownership traversal'' end_errno) else k good bad)"
| "collection_loop env p isRemediation matches end_errno k (e # es) good bad =
     (if numericOwnership p \<and> fe_info e \<in> {FTS_ERR, FTS_DNR, FTS_NS}
      then (if fe_level e = 0 \<and> fe_errno e = ENOENT
            then collection_loop env p isRemediation matches end_errno k es good bad
            else fails (Error (''Cannot inspect ownership of '' @ quoted (fe_path e)) (fe_errno e)))
      else if \<not> selected p matches e
      then collection_loop env p isRemediation matches end_errno k es good bad
      else if numericOwnership p
      then (if \<not> within (fc_maximumUid p) (fe_uid e) \<or> \<not> within (fc_maximumGid p) (fe_gid e)
            then returns NonCompliant (''Ownership exceeds allowed ID on '' @ quoted (fe_path e) @ '': ''
              @ uns (fe_uid e) @ '':'' @ uns (fe_gid e))
            else collection_loop env p isRemediation matches end_errno k es (good + 1) bad)
      else invokes (if isRemediation then RemediateFilePermissions (perm_calls.truncate env) (sub_params p e)
                    else AuditFilePermissions (perm_calls.truncate env) (sub_params p e))
        (\<lambda>r. case r of
           Inl err \<Rightarrow> fails err
         | Inr s \<Rightarrow> if s = NonCompliant
                    then collection_loop env p isRemediation matches end_errno k es good (bad + 1)
                    else collection_loop env p isRemediation matches end_errno k es (good + 1) bad))"

section \<open>The verdict\<close>

text \<open>\<open>good\<close> and \<open>bad\<close> count the selected files that are compliant and those that are not.\<close>

definition collection_verdict :: "behavior \<Rightarrow> nat \<Rightarrow> nat \<Rightarrow> bool" where
  "collection_verdict b good bad =
     (case b of
        CheckIfExists \<Rightarrow> bad = 0
      | AnyExist \<Rightarrow> bad = 0
      | NoneExist \<Rightarrow> good = 0 \<and> bad = 0
      | AtLeastOneExists \<Rightarrow> good > 0 \<and> bad = 0
      | OnlyOneExists \<Rightarrow> good = 1 \<and> bad = 0
      | AllExist \<Rightarrow> bad = 0 \<and> good > 0)"

definition verdict_text :: "behavior \<Rightarrow> string \<Rightarrow> bool \<Rightarrow> string" where
  "verdict_text b dir ok =
     (if b = CheckIfExists \<or> b = AnyExist
      then (if ok then ''All matching files in '' @ quoted dir @ '' match expected permissions''
            else ''At least one file in '' @ quoted dir @ '' did not match expected permissions'')
      else if b = NoneExist
      then (if ok then ''No files in '' @ quoted dir @ '' match the pattern as expected''
            else ''No matching files found in '' @ quoted dir @ '' but they should'')
      else if b = AtLeastOneExists
      then (if ok then ''At least one file in '' @ quoted dir @ '' matched required permissions as expected''
            else ''At least one file in '' @ quoted dir @ '' did not match required permissions but it should'')
      else if b = OnlyOneExists
      then (if ok then ''Exactly one file in '' @ quoted dir @ '' matched required permissions as expected''
            else ''Expected exactly one file in '' @ quoted dir @ '' but more matched required permissions'')
      else (if ok then ''All files in '' @ quoted dir @ '' matched required permissions as expected''
            else ''At least one file in '' @ quoted dir @ '' did not match required permissions but they should''))"

definition conclude :: "collection_params \<Rightarrow> nat \<Rightarrow> nat \<Rightarrow> perm_state body" where
  "conclude p good bad =
     (let ok = collection_verdict (fc_behavior p) good bad in
      returns (if ok then Compliant else NonCompliant) (verdict_text (fc_behavior p) (fc_directory p) ok))"

definition EnsureFilePermissionsCollectionHelper ::
  "'m walk_calls_scheme \<Rightarrow> collection_params \<Rightarrow> bool \<Rightarrow> perm_state body" where
  "EnsureFilePermissionsCollectionHelper env p isRemediation =
     (case collection_error p isRemediation of
        Some e \<Rightarrow> fails e
      | None \<Rightarrow>
     (case file_matcher env p of
        Inl e \<Rightarrow> fails e
      | Inr matches \<Rightarrow>
     (case fc_fts_open env (fc_directory p) (\<not> isRemediation) of
        Inl errno \<Rightarrow>
          if numericOwnership p \<and> errno \<noteq> ENOENT
          then fails (Error (''Cannot open ownership traversal for '' @ quoted (fc_directory p)) errno)
          else if fc_behavior p \<in> {NoneExist, CheckIfExists, AnyExist}
          then returns Compliant (''Directory '' @ quoted (fc_directory p) @ '' does not exist as expected'')
          else returns NonCompliant (''Directory '' @ quoted (fc_directory p) @ '' does not exist, but it should'')
      | Inr (tree, end_errno) \<Rightarrow>
          collection_loop env p isRemediation matches end_errno (conclude p) (fts_sequence (skipped p) tree) 0 0)))"

definition AuditFilePermissionsCollection :: "'m walk_calls_scheme \<Rightarrow> collection_params \<Rightarrow> perm_state body" where
  "AuditFilePermissionsCollection env p = EnsureFilePermissionsCollectionHelper env p False"

definition RemediateFilePermissionsCollection :: "'m walk_calls_scheme \<Rightarrow> collection_params \<Rightarrow> perm_state body" where
  "RemediateFilePermissionsCollection env p = EnsureFilePermissionsCollectionHelper env p True"

section \<open>An audit\<close>

text \<open>Without limits on the identifiers: the first failure of a selected file, or the table on the verdicts.\<close>

definition tally :: "behavior \<Rightarrow> nat \<Rightarrow> nat \<Rightarrow> status list \<Rightarrow> status" where
  "tally b good bad vs =
     (if collection_verdict b (good + length (filter (\<lambda>v. v \<noteq> NonCompliant) vs)) (bad + length (filter (\<lambda>v. v = NonCompliant) vs))
      then Compliant else NonCompliant)"

lemma tally_Cons: "tally b good bad (v # vs) =
    (if v = NonCompliant then tally b good (bad + 1) vs else tally b (good + 1) bad vs)"
  by (simp add: tally_def)

lemma conclude_outcome: "fst (conclude p good bad it s) = Inr (tally (fc_behavior p) good bad [])"
    "snd (snd (conclude p good bad it s)) = s"
  by (simp_all add: conclude_def tally_def Let_def)

lemma audit_call: "\<exists>it'. AuditFilePermissions env p it s = (audit_verdict env p s, it', s)"
  using AuditFilePermissions_status [of env p it s] AuditFilePermissions_state [of env p it s]
  by (cases "AuditFilePermissions env p it s") auto

lemma audit_loop:
  assumes "\<not> numericOwnership p"
  shows "fst (collection_loop env p False matches ee (conclude p) es good bad it s) =
      and_then (map_result (\<lambda>e. audit_verdict (perm_calls.truncate env) (sub_params p e) s) (filter (selected p matches) es))
        (\<lambda>vs. Inr (tally (fc_behavior p) good bad vs))
    \<and> snd (snd (collection_loop env p False matches ee (conclude p) es good bad it s)) = s"
proof (induction es arbitrary: good bad it)
  case Nil
  then show ?case using assms by (simp add: conclude_outcome)
next
  case (Cons e es)
  show ?case
  proof (cases "selected p matches e")
    case False
    then show ?thesis using Cons assms by simp
  next
    case True
    obtain it' where "AuditFilePermissions (perm_calls.truncate env) (sub_params p e) it s =
        (audit_verdict (perm_calls.truncate env) (sub_params p e) s, it', s)"
      using audit_call by blast
    then show ?thesis
      using Cons True assms
      by (cases "audit_verdict (perm_calls.truncate env) (sub_params p e) s")
        (simp_all add: invokes_def tally_Cons and_then_assoc)
  qed
qed

lemma AuditFilePermissionsCollection_verdict:
  assumes "collection_error p False = None" "\<not> numericOwnership p" "file_matcher env p = Inr matches"
    and "fc_fts_open env (fc_directory p) True = Inr (tree, ee)"
  shows "fst (AuditFilePermissionsCollection env p it s) =
      and_then (map_result (\<lambda>e. audit_verdict (perm_calls.truncate env) (sub_params p e) s)
          (filter (selected p matches) (fts_sequence (skipped p) tree)))
        (\<lambda>vs. Inr (tally (fc_behavior p) 0 0 vs))"
  using assms by (simp add: AuditFilePermissionsCollection_def EnsureFilePermissionsCollectionHelper_def audit_loop)

text \<open>With limits: accepted are the walks without errors whose selected files are within them.\<close>

lemma numeric_loop:
  assumes "numericOwnership p"
  shows "fst (collection_loop env p False matches ee (conclude p) es good 0 it s) = Inr Compliant \<longleftrightarrow>
    (\<forall>e\<in>set es. fe_info e \<in> {FTS_ERR, FTS_DNR, FTS_NS} \<longrightarrow> fe_level e = 0 \<and> fe_errno e = ENOENT)
    \<and> (\<forall>e\<in>set es. selected p matches e \<longrightarrow> within (fc_maximumUid p) (fe_uid e) \<and> within (fc_maximumGid p) (fe_gid e))
    \<and> ee = 0 \<and> collection_verdict (fc_behavior p) (good + length (filter (selected p matches) es)) 0"
proof (induction es arbitrary: good)
  case Nil
  then show ?case using assms by (simp add: conclude_outcome tally_def)
next
  case (Cons e es)
  have "\<not> selected p matches e" if "fe_info e \<in> {FTS_ERR, FTS_DNR, FTS_NS}"
    using that by (auto simp: selected_def split: if_splits)
  then show ?case using assms by (auto simp: Cons)
qed

section \<open>A remediation\<close>

lemma meets_sub_params: "meets env (sub_params p e) = meets env (sub_params p e')"
  by (simp add: meets_def sub_params_def fun_eq_iff)

lemma RemediateFilePermissions_applicable: "fst (RemediateFilePermissions env p it s) \<noteq> Inr NotApplicable"
proof -
  have guarded: "ends_in R b \<Longrightarrow> ends_in R (guarded fd b)" for R fd b
    by (auto simp: ends_in_def guarded_def split: prod.splits) (metis fst_conv)
  have "ends_in (- {Inr NotApplicable}) (RemediateFilePermissions env p)"
    unfolding RemediateFilePermissions_def remediate_fd_def remediated_owner_def remediated_group_def
      change_owner_def change_mode_def
    by (intro ends_intros guarded) auto
  then show ?thesis by (simp add: ends_in_def)
qed

text \<open>Each step changes at most an inode that a selected entry leads to and that is no symbolic
  link.\<close>

definition reachable :: "perm_calls \<Rightarrow> fts_entry list \<Rightarrow> nat \<Rightarrow> bool" where
  "reachable env es j \<longleftrightarrow> (\<exists>e\<in>set es. \<exists>fd. pc_open env (fe_path e) = Inr (fd, j))"

lemma remediation_loop_touches:
  assumes "collection_loop env p True matches ee (conclude p) es good bad it s = (r, it', s')"
    and "\<forall>e\<in>set es. \<forall>fd i. pc_open (perm_calls.truncate env) (fe_path e) = Inr (fd, i) \<longrightarrow> fd \<notin> fst ` set (ps_fds s)"
    and "\<not> numericOwnership p"
  shows "ps_fds s' = ps_fds s \<and>
    (\<forall>j. \<not> reachable (perm_calls.truncate env) (filter (selected p matches) es) j \<or> S_ISLNK (st_mode (ps_inodes s j))
       \<longrightarrow> ps_inodes s' j = ps_inodes s j)"
  using assms(1,2)
proof (induction es arbitrary: good bad it s)
  case Nil
  then show ?case using conclude_outcome(2) [of p good bad it s] assms(3) by simp
next
  case (Cons e es)
  show ?case
  proof (cases "selected p matches e")
    case False
    then have "collection_loop env p True matches ee (conclude p) es good bad it s = (r, it', s')"
      using Cons.prems(1) assms(3) by simp
    from Cons.IH [OF this] Cons.prems(2) False show ?thesis by simp
  next
    case True
    obtain r1 it1 s1 where step: "RemediateFilePermissions (perm_calls.truncate env) (sub_params p e) it s = (r1, it1, s1)"
      using prod_cases3 by blast
    have fresh: "\<forall>fd i. pc_open (perm_calls.truncate env) (fp_path (sub_params p e)) = Inr (fd, i) \<longrightarrow> fd \<notin> fst ` set (ps_fds s)"
      using Cons.prems(2) by (simp add: sub_params_def)
    note one = RemediateFilePermissions_touches [OF step fresh]
    have fds: "ps_fds s1 = ps_fds s" by (rule one(1))
    have here: "ps_inodes s1 j = ps_inodes s j"
      if "(\<forall>fd. pc_open (perm_calls.truncate env) (fe_path e) \<noteq> Inr (fd, j)) \<or> S_ISLNK (st_mode (ps_inodes s j))" for j
    proof (cases "\<forall>fd. pc_open (perm_calls.truncate env) (fe_path e) \<noteq> Inr (fd, j)")
      case True
      then show ?thesis using one(2) [of j] by (simp add: sub_params_def)
    next
      case False
      then obtain fd where "pc_open (perm_calls.truncate env) (fe_path e) = Inr (fd, j)" by blast
      with one(3) [of fd j] that False show ?thesis by (simp add: sub_params_def)
    qed
    show ?thesis
    proof (cases r1)
      case (Inl err)
      then have "s' = s1" using Cons.prems(1) True assms(3) step by (simp add: invokes_def fails_def)
      then show ?thesis using fds here True by (auto simp: reachable_def)
    next
      case (Inr v)
      then obtain good' bad' where rest:
        "collection_loop env p True matches ee (conclude p) es good' bad' it1 s1 = (r, it', s')"
        using Cons.prems(1) True assms(3) step by (auto simp: invokes_def split: if_splits)
      from Cons.IH [OF rest] Cons.prems(2)
      have ih: "ps_fds s' = ps_fds s1" "\<And>j. \<not> reachable (perm_calls.truncate env) (filter (selected p matches) es) j
          \<or> S_ISLNK (st_mode (ps_inodes s1 j)) \<Longrightarrow> ps_inodes s' j = ps_inodes s1 j"
        by (auto simp: fds)
      show ?thesis using ih fds here True by (auto simp: reachable_def)
    qed
  qed
qed

text \<open>A remediation that succeeds on one file leaves it as required, and keeps every file that was.\<close>

lemma remediation_step_keeps:
  assumes run: "RemediateFilePermissions env (sub_params p e) it s = (Inr Compliant, it', s')"
    and "names_agree env (sub_params p e)" "plain_modes (sub_params p e)"
    and "\<forall>fd i. pc_open env (fe_path e) = Inr (fd, i) \<longrightarrow> fd \<notin> fst ` set (ps_fds s)"
  obtains fd i where "pc_open env (fe_path e) = Inr (fd, i)" "meets env (sub_params p e) (ps_inodes s' i)"
    "\<not> same_bits (sub_params p e)"
    "\<And>j. meets env (sub_params p e) (ps_inodes s j) \<Longrightarrow> meets env (sub_params p e) (ps_inodes s' j)"
proof -
  obtain fd i where i: "pc_open env (fe_path e) = Inr (fd, i)"
    using run
  proof (cases rule: open_fd_cases)
    case (2 fd i s1)
    with that show ?thesis by (simp add: sub_params_def)
  qed simp
  have m: "meets env (sub_params p e) (ps_inodes s' i)" "\<not> same_bits (sub_params p e)"
    using remediated_meets [OF run _ assms(2,3)] i by (simp_all add: sub_params_def)
  have "ps_inodes s' j = ps_inodes s j" if "j \<noteq> i" for j
    by (rule RemediateFilePermissions_touches(2) [OF run]) (use i that assms(4) in \<open>auto simp: sub_params_def\<close>)
  then show thesis using that [OF i m] m(1) by metis
qed

lemma remediation_loop_meets:
  assumes "collection_loop env p True matches ee (conclude p) es good bad it s = (Inr Compliant, it', s')"
    and "\<forall>e\<in>set es. \<forall>fd i. pc_open (perm_calls.truncate env) (fe_path e) = Inr (fd, i) \<longrightarrow> fd \<notin> fst ` set (ps_fds s)"
    and "\<not> numericOwnership p"
    and "names_agree (perm_calls.truncate env) (sub_params p e0)" "plain_modes (sub_params p e0)"
  shows "bad = 0 \<and> collection_verdict (fc_behavior p) (good + length (filter (selected p matches) es)) 0 \<and>
    (\<forall>e\<in>set (filter (selected p matches) es). \<exists>fd i. pc_open (perm_calls.truncate env) (fe_path e) = Inr (fd, i)
       \<and> meets (perm_calls.truncate env) (sub_params p e0) (ps_inodes s' i) \<and> \<not> same_bits (sub_params p e))
    \<and> (\<forall>j. meets (perm_calls.truncate env) (sub_params p e0) (ps_inodes s j)
         \<longrightarrow> meets (perm_calls.truncate env) (sub_params p e0) (ps_inodes s' j))"
  using assms(1,2)
proof (induction es arbitrary: good bad it s)
  case Nil
  then show ?case using conclude_outcome [of p good bad it s] assms(3)
    by (auto simp: tally_def collection_verdict_def split: if_splits behavior.splits)
next
  case (Cons e es)
  show ?case
  proof (cases "selected p matches e")
    case False
    then have "collection_loop env p True matches ee (conclude p) es good bad it s = (Inr Compliant, it', s')"
      using Cons.prems(1) assms(3) by simp
    from Cons.IH [OF this] Cons.prems(2) False show ?thesis by simp
  next
    case True
    obtain r1 it1 s1 where step: "RemediateFilePermissions (perm_calls.truncate env) (sub_params p e) it s = (r1, it1, s1)"
      using prod_cases3 by blast
    have fds: "ps_fds s1 = ps_fds s"
      by (rule RemediateFilePermissions_touches(1) [OF step]) (use Cons.prems(2) in \<open>simp add: sub_params_def\<close>)
    obtain v where v: "r1 = Inr v" "v \<noteq> NotApplicable"
      using Cons.prems(1) True assms(3) step RemediateFilePermissions_applicable [of "perm_calls.truncate env" "sub_params p e" it s]
      by (cases r1) (auto simp: invokes_def fails_def)
    show ?thesis
    proof (cases "v = NonCompliant")
      case True
      then have "collection_loop env p True matches ee (conclude p) es good (bad + 1) it1 s1 = (Inr Compliant, it', s')"
        using Cons.prems(1) \<open>selected p matches e\<close> assms(3) step v by (simp add: invokes_def)
      from Cons.IH [OF this] Cons.prems(2) fds have "bad + 1 = 0" by simp
      then show ?thesis by simp
    next
      case False
      then have c: "v = Compliant" using v(2) by (cases v) auto
      then have rest: "collection_loop env p True matches ee (conclude p) es (good + 1) bad it1 s1 = (Inr Compliant, it', s')"
        using Cons.prems(1) True assms(3) step v by (simp add: invokes_def)
      have same: "names_agree (perm_calls.truncate env) (sub_params p e)" "plain_modes (sub_params p e)"
        using assms(4,5) by (simp_all add: names_agree_def plain_modes_def sub_params_def)
      have fresh: "\<forall>fd i. pc_open (perm_calls.truncate env) (fe_path e) = Inr (fd, i) \<longrightarrow> fd \<notin> fst ` set (ps_fds s)"
        using Cons.prems(2) by simp
      obtain fd i where i: "pc_open (perm_calls.truncate env) (fe_path e) = Inr (fd, i)"
        "meets (perm_calls.truncate env) (sub_params p e0) (ps_inodes s1 i)" "\<not> same_bits (sub_params p e)"
        "\<And>j. meets (perm_calls.truncate env) (sub_params p e0) (ps_inodes s j)
           \<Longrightarrow> meets (perm_calls.truncate env) (sub_params p e0) (ps_inodes s1 j)"
        using remediation_step_keeps [OF step [unfolded v(1) c] same fresh]
        unfolding meets_sub_params [of _ p e e0] by blast
      from Cons.IH [OF rest] Cons.prems(2) fds i True show ?thesis by auto
    qed
  qed
qed

text \<open>A collection whose remediation succeeded is accepted by the audit. The walk is the same for both, and
  \<open>stat\<close> finds what \<open>open\<close> finds, so there are no symbolic links on the paths.\<close>

lemma remediated_collection_passes:
  assumes run: "RemediateFilePermissionsCollection env p it s = (Inr Compliant, it', s')"
    and walk: "fc_fts_open env (fc_directory p) True = fc_fts_open env (fc_directory p) False"
    and stat: "\<forall>path fd i. pc_open env path = Inr (fd, i) \<longrightarrow> pc_stat env path = Inr i \<and> fd \<notin> fst ` set (ps_fds s)"
    and names: "names_agree (perm_calls.truncate env) (sub_params p e0)" "plain_modes (sub_params p e0)"
  shows "fst (AuditFilePermissionsCollection env p it2 s') = Inr Compliant"
proof -
  have ok: "collection_error p True = None"
    using run by (auto simp: RemediateFilePermissionsCollection_def EnsureFilePermissionsCollectionHelper_def fails_def
        split: option.splits)
  then have ok': "collection_error p False = None" "\<not> numericOwnership p" "fc_groupId p = None"
    by (auto simp: collection_error_def split: if_splits)
  obtain matches where matches: "file_matcher env p = Inr matches"
    using run ok by (auto simp: RemediateFilePermissionsCollection_def EnsureFilePermissionsCollectionHelper_def fails_def
        split: sum.splits)
  show ?thesis
  proof (cases "fc_fts_open env (fc_directory p) False")
    case (Inl errno)
    then show ?thesis
      using run ok ok' matches walk
      by (auto simp: RemediateFilePermissionsCollection_def AuditFilePermissionsCollection_def
          EnsureFilePermissionsCollectionHelper_def returns_def AddIndicator_def split: if_splits)
  next
    case (Inr walked)
    obtain tree ee where tree: "walked = (tree, ee)" by fastforce
    let ?es = "fts_sequence (skipped p) tree" and ?sel = "filter (selected p matches) (fts_sequence (skipped p) tree)"
    have "collection_loop env p True matches ee (conclude p) ?es 0 0 it s = (Inr Compliant, it', s')"
      using run ok matches walk Inr tree
      by (simp add: RemediateFilePermissionsCollection_def EnsureFilePermissionsCollectionHelper_def)
    from remediation_loop_meets [OF this _ ok'(2) names] stat
    have cv: "collection_verdict (fc_behavior p) (length ?sel) 0"
      and met: "\<forall>e\<in>set ?sel. \<exists>fd i. pc_open env (fe_path e) = Inr (fd, i)
        \<and> meets (perm_calls.truncate env) (sub_params p e0) (ps_inodes s' i) \<and> \<not> same_bits (sub_params p e)"
      by (auto simp: perm_calls.defs)
    have "audit_verdict (perm_calls.truncate env) (sub_params p e) s' = Inr Compliant" if e: "e \<in> set ?sel" for e
    proof -
      obtain fd i where i: "pc_open env (fe_path e) = Inr (fd, i)"
        "meets (perm_calls.truncate env) (sub_params p e) (ps_inodes s' i)" "\<not> same_bits (sub_params p e)"
        using met e unfolding meets_sub_params [of _ p e0 e] by blast
      have "fc_behavior p \<noteq> NoneExist"
      proof
        assume "fc_behavior p = NoneExist"
        then have "length ?sel = 0" using cv by (simp add: collection_verdict_def)
        then show False using e by simp
      qed
      then show ?thesis
        using i stat ok'(3) by (simp add: audit_verdict_Compliant invalid_group_id_def sub_params_def perm_calls.defs)
    qed
    then have vs: "map_result (\<lambda>e. audit_verdict (perm_calls.truncate env) (sub_params p e) s') ?sel
        = Inr (replicate (length ?sel) Compliant)"
      by (simp add: map_result_Inr_iff list_all2_conv_all_nth del: set_filter)
    have "filter (\<lambda>v. v \<noteq> NonCompliant) (replicate n Compliant) = replicate n Compliant"
      "filter (\<lambda>v. v = NonCompliant) (replicate n Compliant) = []" for n by simp_all
    then show ?thesis
      using AuditFilePermissionsCollection_verdict [OF ok'(1,2) matches, of tree ee it2 s'] vs cv Inr tree walk
      by (simp add: tally_def)
  qed
qed

section \<open>They keep the contract\<close>

lemma collection_loop_contract [contract_intros]:
  assumes "\<And>good bad. procedure_contract (k good bad)"
  shows "procedure_contract (collection_loop env p isRemediation matches ee k es good bad)"
proof (induction es arbitrary: good bad)
  case Nil
  show ?case using assms by (simp add: contract_fails)
next
  case (Cons e es)
  have call: "procedure_contract (if isRemediation then RemediateFilePermissions (perm_calls.truncate env) (sub_params p e)
      else AuditFilePermissions (perm_calls.truncate env) (sub_params p e))"
    by (simp add: audit_file_permissions.procedure_contract_axioms remediate_file_permissions.procedure_contract_axioms)
  show ?case
    unfolding collection_loop.simps
    by (intro contract_if Cons contract_fails contract_returns contract_invokes call) (auto intro!: Cons)
qed

interpretation permissions_collection: procedure_contract "EnsureFilePermissionsCollectionHelper env p isRemediation"
  for env :: "'m walk_calls_scheme" and p isRemediation
  unfolding EnsureFilePermissionsCollectionHelper_def conclude_def by (intro contract_intros)

end
