(* ===== verification/LoginDefs.thy ===== *)
theory LoginDefs
  imports StringTools Status
begin

text \<open>
  \<open>src/lib/parsers/LoginDefs.cpp\<close>: the parser of \<open>/etc/login.defs\<close>. It reads records line by line, each
  a key and a value, and refuses a file in which a known key has two different values. The set of
  keys seen is a list. Shown: an accepted file is within the limits, and a field of the document is
  the one value that every record of its key has.
\<close>

section \<open>Documents\<close>

abbreviation EBADMSG :: int where "EBADMSG \<equiv> 74"

abbreviation MaxBytes :: nat where "MaxBytes \<equiv> 1024 * 1024"
abbreviation MaxLineBytes :: nat where "MaxLineBytes \<equiv> 16 * 1024"
abbreviation MaxRecords :: nat where "MaxRecords \<equiv> 8192"

datatype encryption_method = DES | MD5 | SHA256 | SHA512 | YESCRYPT | BCRYPT

text \<open>The order of the enumeration.\<close>

instantiation encryption_method :: linorder
begin

fun method_rank :: "encryption_method \<Rightarrow> nat" where
  "method_rank DES = 0" | "method_rank MD5 = 1" | "method_rank SHA256 = 2"
| "method_rank SHA512 = 3" | "method_rank YESCRYPT = 4" | "method_rank BCRYPT = 5"

definition less_eq_encryption_method :: "encryption_method \<Rightarrow> encryption_method \<Rightarrow> bool" where
  "less_eq_encryption_method a b \<longleftrightarrow> method_rank a \<le> method_rank b"

definition less_encryption_method :: "encryption_method \<Rightarrow> encryption_method \<Rightarrow> bool" where
  "less_encryption_method a b \<longleftrightarrow> method_rank a < method_rank b"

instance
proof
  fix a b c :: encryption_method
  show "a < b \<longleftrightarrow> a \<le> b \<and> \<not> b \<le> a" by (auto simp: less_eq_encryption_method_def less_encryption_method_def)
  show "a \<le> a" by (simp add: less_eq_encryption_method_def)
  show "a \<le> b \<Longrightarrow> b \<le> c \<Longrightarrow> a \<le> c" by (simp add: less_eq_encryption_method_def)
  show "a \<le> b \<Longrightarrow> b \<le> a \<Longrightarrow> a = b" by (cases a; cases b) (simp_all add: less_eq_encryption_method_def)
  show "a \<le> b \<or> b \<le> a" by (auto simp: less_eq_encryption_method_def)
qed

end

record login_document =
  ld_source :: string
  ld_uidMin :: "int option"
  ld_passMaxDays :: "int option"
  ld_passMinDays :: "int option"
  ld_passWarnAge :: "int option"
  ld_encryptMethod :: "encryption_method option"

definition LoginDefs_ParseEncryptionMethod :: "string \<Rightarrow> encryption_method result" where
  "LoginDefs_ParseEncryptionMethod v =
     (let name = ToLower v in
      if name = ''des'' then Inr DES
      else if name = ''md5'' then Inr MD5
      else if name = ''sha256'' then Inr SHA256
      else if name = ''sha512'' then Inr SHA512
      else if name = ''yescrypt'' then Inr YESCRYPT
      else if name = ''bcrypt'' then Inr BCRYPT
      else Inl (Error (''Unsupported encryption method: '' @ v) EINVAL))"

fun EncryptionMethodName :: "encryption_method \<Rightarrow> string" where
  "EncryptionMethodName DES = ''DES''"
| "EncryptionMethodName MD5 = ''MD5''"
| "EncryptionMethodName SHA256 = ''SHA256''"
| "EncryptionMethodName SHA512 = ''SHA512''"
| "EncryptionMethodName YESCRYPT = ''YESCRYPT''"
| "EncryptionMethodName BCRYPT = ''BCRYPT''"

lemma EncryptionMethodName_parses: "LoginDefs_ParseEncryptionMethod (EncryptionMethodName m) = Inr m"
  by (cases m; simp only:; code_simp)

section \<open>Errors\<close>

definition IsSeparator :: "char \<Rightarrow> bool" where
  "IsSeparator c \<longleftrightarrow> c = CHR '' '' \<or> c = TAB \<or> c = CHR 0x0D \<or> c = CHR 0x0B \<or> c = CHR 0x0C"

definition LimitError :: "string \<Rightarrow> string \<Rightarrow> nat \<Rightarrow> nat \<Rightarrow> string \<Rightarrow> error" where
  "LimitError location limit observed maximum unit =
     Error (location @ '': login.defs '' @ limit @ '' limit exceeded: '' @ to_string_nat observed @ '' '' @ unit
       @ '' (maximum '' @ to_string_nat maximum @ '' '' @ unit @ '')'') E2BIG"

definition at_position :: "string \<Rightarrow> nat \<Rightarrow> nat \<Rightarrow> string" where
  "at_position source line column = source @ '':'' @ to_string_nat line @ '':'' @ to_string_nat column @ '': ''"

definition SyntaxError :: "string \<Rightarrow> nat \<Rightarrow> nat \<Rightarrow> string \<Rightarrow> error" where
  "SyntaxError source line column problem = Error (at_position source line column @ ''login.defs '' @ problem) EBADMSG"

definition ValueError :: "string \<Rightarrow> nat \<Rightarrow> nat \<Rightarrow> string \<Rightarrow> error \<Rightarrow> error" where
  "ValueError source line column key e =
     Error (at_position source line column @ ''invalid '' @ key @ '' value: '' @ err_message e) EBADMSG"

definition ConflictError :: "string \<Rightarrow> nat \<Rightarrow> nat \<Rightarrow> string \<Rightarrow> error" where
  "ConflictError source line column key =
     Error (at_position source line column @ ''conflicting duplicate '' @ key @ '' value'') EBADMSG"

section \<open>One record\<close>

text \<open>The key of a line, and the text behind it from the first character that is no separator; \<open>None\<close>
  for a blank line or a comment.\<close>

definition record_key :: "string \<Rightarrow> (string \<times> string) option" where
  "record_key line =
     (let body = dropWhile IsSeparator line in
      if body = [] \<or> hd body = CHR ''#'' then None
      else Some (takeWhile (\<lambda>c. \<not> IsSeparator c \<and> c \<noteq> CHR ''#'') body,
                 dropWhile IsSeparator (dropWhile (\<lambda>c. \<not> IsSeparator c \<and> c \<noteq> CHR ''#'') body)))"

text \<open>A known value: a repetition has to agree, the first occurrence is stored.\<close>

definition store_value ::
  "bool \<Rightarrow> 'a option \<Rightarrow> 'a \<Rightarrow> error \<Rightarrow> login_document \<Rightarrow> login_document \<Rightarrow> login_document result" where
  "store_value first old v conflict doc doc' =
     (if \<not> first \<and> old \<noteq> Some v then Inl conflict else if first then Inr doc' else Inr doc)"

definition ParseUid :: "string \<Rightarrow> int result" where
  "ParseUid v =
     and_then (TryStringToUint v 10) (\<lambda>n.
       if n > UINT_MAX then Inl (Error (''Integer value out of uid_t range: '' @ v) ERANGE) else Inr n)"

definition with_value_error :: "string \<Rightarrow> nat \<Rightarrow> nat \<Rightarrow> string \<Rightarrow> 'a result \<Rightarrow> 'a result" where
  "with_value_error source line column key r =
     (case r of Inl e \<Rightarrow> Inl (ValueError source line column key e) | Inr v \<Rightarrow> Inr v)"

definition store_record :: "bool \<Rightarrow> nat \<Rightarrow> nat \<Rightarrow> string \<Rightarrow> string \<Rightarrow> login_document \<Rightarrow> login_document result" where
  "store_record first line column key v doc =
     (let bad = with_value_error (ld_source doc) line column key;
          conflict = ConflictError (ld_source doc) line column key in
      if key = ''UID_MIN''
      then and_then (bad (ParseUid v)) (\<lambda>n.
        store_value first (ld_uidMin doc) n conflict doc (doc\<lparr>ld_uidMin := Some n\<rparr>))
      else if key = ''PASS_MAX_DAYS''
      then and_then (bad (TryStringToInt v 10)) (\<lambda>n.
        store_value first (ld_passMaxDays doc) n conflict doc (doc\<lparr>ld_passMaxDays := Some n\<rparr>))
      else if key = ''PASS_MIN_DAYS''
      then and_then (bad (TryStringToInt v 10)) (\<lambda>n.
        store_value first (ld_passMinDays doc) n conflict doc (doc\<lparr>ld_passMinDays := Some n\<rparr>))
      else if key = ''PASS_WARN_AGE''
      then and_then (bad (TryStringToInt v 10)) (\<lambda>n.
        store_value first (ld_passWarnAge doc) n conflict doc (doc\<lparr>ld_passWarnAge := Some n\<rparr>))
      else if key = ''ENCRYPT_METHOD''
      then and_then (with_value_error (ld_source doc) line column key (LoginDefs_ParseEncryptionMethod v)) (\<lambda>m.
        store_value first (ld_encryptMethod doc) m conflict doc (doc\<lparr>ld_encryptMethod := Some m\<rparr>))
      else Inr doc)"

section \<open>The loop\<close>

text \<open>The variables of the loop: the keys seen, the number of records and the document.\<close>

type_synonym login_state = "string list \<times> nat \<times> login_document"

definition line_step :: "nat \<Rightarrow> string \<Rightarrow> login_state \<Rightarrow> login_state result" where
  "line_step n line st =
     (case st of (seen, count, doc) \<Rightarrow>
      if MaxLineBytes < length line
      then Inl (LimitError (ld_source doc @ '':'' @ to_string_nat n) ''line'' (length line) MaxLineBytes ''bytes'')
      else (case find_char NUL line of
        Some k \<Rightarrow> Inl (SyntaxError (ld_source doc) n (k + 1) ''embedded NUL'')
      | None \<Rightarrow>
     (case record_key line of
        None \<Rightarrow> Inr st
      | Some (key, rest) \<Rightarrow>
          if MaxRecords \<le> count
          then Inl (LimitError (ld_source doc @ '':'' @ to_string_nat n) ''record'' (count + 1) MaxRecords ''records'')
          else
            let column = length line - length rest + 1; uncommented = StripComment rest in
            if uncommented = [] then Inl (SyntaxError (ld_source doc) n column ''missing value'')
            else and_then (store_record (key \<notin> set seen) n column key (TrimWhiteSpaces uncommented) doc)
              (\<lambda>doc'. Inr (List.insert key seen, count + 1, doc')))))"

text \<open>\<open>rest\<close> is the input from \<open>start\<close> on. The loop ends with the input; behind a last line without a
  line feed nothing is left.\<close>

lemma span_until_shorter: "s \<noteq> [] \<Longrightarrow> length (snd (span_until c s)) < length s"
proof (induction s)
  case (Cons x xs)
  then show ?case by (cases "xs = []") (auto simp: split_beta less_SucI)
qed simp

function Parse_lines :: "nat \<Rightarrow> string \<Rightarrow> login_state \<Rightarrow> login_document result" where
  "Parse_lines n rest st =
     (if rest = [] then Inr (snd (snd st))
      else case span_until NL rest of
        (line, rest') \<Rightarrow> and_then (line_step n line st) (Parse_lines (n + 1) rest'))"
  by pat_completeness auto
termination
  by (relation "measure (\<lambda>(n, rest, st). length rest)") (auto, metis snd_conv span_until_shorter)

declare Parse_lines.simps [simp del]

definition empty_document :: "string \<Rightarrow> login_document" where
  "empty_document source = \<lparr>ld_source = source, ld_uidMin = None, ld_passMaxDays = None, ld_passMinDays = None,
     ld_passWarnAge = None, ld_encryptMethod = None\<rparr>"

definition LoginDefs_Parse :: "string \<Rightarrow> string \<Rightarrow> login_document result" where
  "LoginDefs_Parse bytes source =
     (if MaxBytes < length bytes then Inl (LimitError source ''byte'' (length bytes) MaxBytes ''bytes'')
      else Parse_lines 1 bytes ([], 0, empty_document source))"

section \<open>What is accepted\<close>

fun input_lines_upto :: "nat \<Rightarrow> string \<Rightarrow> string list" where
  "input_lines_upto 0 s = []"
| "input_lines_upto (Suc k) s =
     (if s = [] then [] else fst (span_until NL s) # input_lines_upto k (snd (span_until NL s)))"

definition input_lines :: "string \<Rightarrow> string list" where
  "input_lines s = input_lines_upto (length s) s"

lemma input_lines_upto_enough: "length s \<le> k \<Longrightarrow> length s \<le> j \<Longrightarrow> input_lines_upto k s = input_lines_upto j s"
proof (induction k arbitrary: s j)
  case 0
  then show ?case by (cases j) auto
next
  case (Suc k)
  show ?case
  proof (cases "s = []")
    case True
    then show ?thesis by (cases j) auto
  next
    case False
    then obtain i where "j = Suc i" using Suc.prems by (cases j) auto
    with Suc.prems False Suc.IH [of "snd (span_until NL s)" i] span_until_shorter [OF False, of NL]
    show ?thesis by simp
  qed
qed

lemma input_lines_simps:
  "input_lines [] = []"
  "s \<noteq> [] \<Longrightarrow> input_lines s = fst (span_until NL s) # input_lines (snd (span_until NL s))"
proof -
  assume s: "s \<noteq> []"
  then obtain k where k: "length s = Suc k" by (cases s) auto
  have "input_lines_upto k (snd (span_until NL s)) = input_lines_upto (length (snd (span_until NL s))) (snd (span_until NL s))"
    using span_until_shorter [OF s, of NL] k by (intro input_lines_upto_enough) auto
  then show "input_lines s = fst (span_until NL s) # input_lines (snd (span_until NL s))"
    using s by (simp add: input_lines_def k)
qed (simp add: input_lines_def)

text \<open>The records of a list of lines: keys with their values.\<close>

definition record_of :: "string \<Rightarrow> (string \<times> string) list" where
  "record_of line =
     (case record_key line of None \<Rightarrow> [] | Some (key, rest) \<Rightarrow> [(key, TrimWhiteSpaces (StripComment rest))])"

definition records :: "string list \<Rightarrow> (string \<times> string) list" where
  "records ls = concat (map record_of ls)"

lemma records_simps [simp]: "records [] = []" "records (l # ls) = record_of l @ records ls"
  by (simp_all add: records_def)

definition line_ok :: "string \<Rightarrow> bool" where
  "line_ok line \<longleftrightarrow> length line \<le> MaxLineBytes \<and> NUL \<notin> set line
     \<and> (\<forall>kr\<in>set_option (record_key line). StripComment (snd kr) \<noteq> [])"

text \<open>The field of a key is absent without a record of it, and otherwise the value of all of them.\<close>

definition agrees :: "(string \<Rightarrow> 'a result) \<Rightarrow> string \<Rightarrow> 'a option \<Rightarrow> (string \<times> string) list \<Rightarrow> bool" where
  "agrees p key f rs \<longleftrightarrow>
     (case f of None \<Rightarrow> key \<notin> fst ` set rs
      | Some v \<Rightarrow> key \<in> fst ` set rs \<and> (\<forall>t. (key, t) \<in> set rs \<longrightarrow> p t = Inr v))"

definition document_agrees :: "(string \<times> string) list \<Rightarrow> login_document \<Rightarrow> bool" where
  "document_agrees rs doc \<longleftrightarrow>
     agrees ParseUid ''UID_MIN'' (ld_uidMin doc) rs
     \<and> agrees (\<lambda>v. TryStringToInt v 10) ''PASS_MAX_DAYS'' (ld_passMaxDays doc) rs
     \<and> agrees (\<lambda>v. TryStringToInt v 10) ''PASS_MIN_DAYS'' (ld_passMinDays doc) rs
     \<and> agrees (\<lambda>v. TryStringToInt v 10) ''PASS_WARN_AGE'' (ld_passWarnAge doc) rs
     \<and> agrees LoginDefs_ParseEncryptionMethod ''ENCRYPT_METHOD'' (ld_encryptMethod doc) rs"

lemma agrees_unique: "agrees p key f rs \<Longrightarrow> agrees p key g rs \<Longrightarrow> f = g"
  by (cases f; cases g) (force simp: agrees_def)+

lemma document_agrees_unique:
  "document_agrees rs a \<Longrightarrow> document_agrees rs b \<Longrightarrow> ld_source a = ld_source b \<Longrightarrow> a = b"
  unfolding document_agrees_def by (cases a; cases b) (auto dest: agrees_unique)

lemma agrees_other: "k \<noteq> key \<Longrightarrow> agrees p key f (rs @ (k, t) # us) \<longleftrightarrow> agrees p key f (rs @ us)"
  by (auto simp: agrees_def split: option.splits)

lemma with_value_error_Inr [simp]: "with_value_error a n c key r = Inr v \<longleftrightarrow> r = Inr v"
  by (cases r) (simp_all add: with_value_error_def)

lemma store_value_agrees:
  assumes "agrees p key f rs"
  shows "and_then (with_value_error a n c key (p t))
      (\<lambda>v. store_value (key \<notin> fst ` set rs) f v conflict doc (upd v)) = Inr doc1 \<longleftrightarrow>
    (\<exists>v. agrees p key (Some v) (rs @ [(key, t)]) \<and> doc1 = (if key \<in> fst ` set rs then doc else upd v))"
proof (cases "key \<in> fst ` set rs")
  case False
  then show ?thesis by (force simp: result_simps store_value_def agrees_def)
next
  case True
  then obtain w where w: "f = Some w" "\<forall>t. (key, t) \<in> set rs \<longrightarrow> p t = Inr w"
    using assms by (cases f) (auto simp: agrees_def)
  obtain t0 where "(key, t0) \<in> set rs" using True by auto
  with w show ?thesis using True by (auto simp: result_simps store_value_def agrees_def)
qed

lemma agrees_step:
  "agrees p key f rs \<Longrightarrow> agrees p key (Some v) (rs @ [(key, t)]) \<Longrightarrow> key \<in> fst ` set rs \<Longrightarrow> f = Some v"
  by (cases f) (force simp: agrees_def)+

lemma agrees_prefix:
  assumes "agrees p key g (rs @ (key, t) # us)"
  shows "\<exists>v. agrees p key (Some v) (rs @ [(key, t)])"
  using assms by (cases g) (auto simp: agrees_def)

lemma store_value_sound:
  assumes "agrees p key f rs"
    and "and_then (with_value_error a n c key (p t))
      (\<lambda>v. store_value (key \<notin> fst ` set rs) f v conflict doc (upd v)) = Inr doc1"
  obtains v where "agrees p key (Some v) (rs @ [(key, t)])" "doc1 = doc \<and> f = Some v \<or> doc1 = upd v"
proof -
  from assms(2) obtain v where v: "agrees p key (Some v) (rs @ [(key, t)])"
      "doc1 = (if key \<in> fst ` set rs then doc else upd v)"
    unfolding store_value_agrees [OF assms(1)] by blast
  with agrees_step [OF assms(1) v(1)] that show thesis by (cases "key \<in> fst ` set rs") auto
qed

lemma store_value_complete:
  assumes "agrees p key f rs" "agrees p key g (rs @ (key, t) # us)"
  shows "\<exists>doc1. and_then (with_value_error a n c key (p t))
      (\<lambda>v. store_value (key \<notin> fst ` set rs) f v conflict doc (upd v)) = Inr doc1"
  unfolding store_value_agrees [OF assms(1)] using agrees_prefix [OF assms(2)] by blast

text \<open>Storing a record keeps the agreement, and fails only where no document agrees.\<close>

lemma record_key_cases:
  obtains "key = ''UID_MIN''" | "key = ''PASS_MAX_DAYS''" | "key = ''PASS_MIN_DAYS''" | "key = ''PASS_WARN_AGE''"
    | "key = ''ENCRYPT_METHOD''"
    | "key \<noteq> ''UID_MIN''" "key \<noteq> ''PASS_MAX_DAYS''" "key \<noteq> ''PASS_MIN_DAYS''" "key \<noteq> ''PASS_WARN_AGE''"
      "key \<noteq> ''ENCRYPT_METHOD''"
  by blast

lemmas document_agreesD = document_agrees_def [THEN iffD1, THEN conjunct1]
  document_agrees_def [THEN iffD1, THEN conjunct2, THEN conjunct1]
  document_agrees_def [THEN iffD1, THEN conjunct2, THEN conjunct2, THEN conjunct1]
  document_agrees_def [THEN iffD1, THEN conjunct2, THEN conjunct2, THEN conjunct2, THEN conjunct1]
  document_agrees_def [THEN iffD1, THEN conjunct2, THEN conjunct2, THEN conjunct2, THEN conjunct2]

lemma store_record_keys:
  "store_record first n c ''UID_MIN'' t doc = and_then (with_value_error (ld_source doc) n c ''UID_MIN'' (ParseUid t))
     (\<lambda>v. store_value first (ld_uidMin doc) v (ConflictError (ld_source doc) n c ''UID_MIN'') doc (doc\<lparr>ld_uidMin := Some v\<rparr>))"
  "store_record first n c ''PASS_MAX_DAYS'' t doc = and_then (with_value_error (ld_source doc) n c ''PASS_MAX_DAYS'' (TryStringToInt t 10))
     (\<lambda>v. store_value first (ld_passMaxDays doc) v (ConflictError (ld_source doc) n c ''PASS_MAX_DAYS'') doc (doc\<lparr>ld_passMaxDays := Some v\<rparr>))"
  "store_record first n c ''PASS_MIN_DAYS'' t doc = and_then (with_value_error (ld_source doc) n c ''PASS_MIN_DAYS'' (TryStringToInt t 10))
     (\<lambda>v. store_value first (ld_passMinDays doc) v (ConflictError (ld_source doc) n c ''PASS_MIN_DAYS'') doc (doc\<lparr>ld_passMinDays := Some v\<rparr>))"
  "store_record first n c ''PASS_WARN_AGE'' t doc = and_then (with_value_error (ld_source doc) n c ''PASS_WARN_AGE'' (TryStringToInt t 10))
     (\<lambda>v. store_value first (ld_passWarnAge doc) v (ConflictError (ld_source doc) n c ''PASS_WARN_AGE'') doc (doc\<lparr>ld_passWarnAge := Some v\<rparr>))"
  "store_record first n c ''ENCRYPT_METHOD'' t doc = and_then (with_value_error (ld_source doc) n c ''ENCRYPT_METHOD'' (LoginDefs_ParseEncryptionMethod t))
     (\<lambda>v. store_value first (ld_encryptMethod doc) v (ConflictError (ld_source doc) n c ''ENCRYPT_METHOD'') doc (doc\<lparr>ld_encryptMethod := Some v\<rparr>))"
  by (simp_all add: store_record_def)

lemma store_record_agrees:
  assumes ag: "document_agrees rs doc" and st: "store_record (key \<notin> fst ` set rs) n c key t doc = Inr doc1"
  shows "document_agrees (rs @ [(key, t)]) doc1 \<and> ld_source doc1 = ld_source doc"
proof (cases key rule: record_key_cases)
  case 1
  obtain v where "agrees ParseUid ''UID_MIN'' (Some v) (rs @ [(''UID_MIN'', t)])"
      "doc1 = doc \<and> ld_uidMin doc = Some v \<or> doc1 = doc\<lparr>ld_uidMin := Some v\<rparr>"
    by (rule store_value_sound [OF document_agreesD(1) [OF ag] st [unfolded 1 store_record_keys]])
  then show ?thesis using document_agreesD(2-5) [OF ag] by (auto simp: 1 document_agrees_def agrees_other)
next
  case 2
  obtain v where "agrees (\<lambda>v. TryStringToInt v 10) ''PASS_MAX_DAYS'' (Some v) (rs @ [(''PASS_MAX_DAYS'', t)])"
      "doc1 = doc \<and> ld_passMaxDays doc = Some v \<or> doc1 = doc\<lparr>ld_passMaxDays := Some v\<rparr>"
    by (rule store_value_sound [OF document_agreesD(2) [OF ag] st [unfolded 2 store_record_keys]])
  then show ?thesis using document_agreesD(1,3-5) [OF ag] by (auto simp: 2 document_agrees_def agrees_other)
next
  case 3
  obtain v where "agrees (\<lambda>v. TryStringToInt v 10) ''PASS_MIN_DAYS'' (Some v) (rs @ [(''PASS_MIN_DAYS'', t)])"
      "doc1 = doc \<and> ld_passMinDays doc = Some v \<or> doc1 = doc\<lparr>ld_passMinDays := Some v\<rparr>"
    by (rule store_value_sound [OF document_agreesD(3) [OF ag] st [unfolded 3 store_record_keys]])
  then show ?thesis using document_agreesD(1,2,4,5) [OF ag] by (auto simp: 3 document_agrees_def agrees_other)
next
  case 4
  obtain v where "agrees (\<lambda>v. TryStringToInt v 10) ''PASS_WARN_AGE'' (Some v) (rs @ [(''PASS_WARN_AGE'', t)])"
      "doc1 = doc \<and> ld_passWarnAge doc = Some v \<or> doc1 = doc\<lparr>ld_passWarnAge := Some v\<rparr>"
    by (rule store_value_sound [OF document_agreesD(4) [OF ag] st [unfolded 4 store_record_keys]])
  then show ?thesis using document_agreesD(1,2,3,5) [OF ag] by (auto simp: 4 document_agrees_def agrees_other)
next
  case 5
  obtain v where "agrees LoginDefs_ParseEncryptionMethod ''ENCRYPT_METHOD'' (Some v) (rs @ [(''ENCRYPT_METHOD'', t)])"
      "doc1 = doc \<and> ld_encryptMethod doc = Some v \<or> doc1 = doc\<lparr>ld_encryptMethod := Some v\<rparr>"
    by (rule store_value_sound [OF document_agreesD(5) [OF ag] st [unfolded 5 store_record_keys]])
  then show ?thesis using document_agreesD(1-4) [OF ag] by (auto simp: 5 document_agrees_def agrees_other)
next
  case 6
  then show ?thesis using ag st by (simp add: store_record_def document_agrees_def agrees_other)
qed

lemma store_record_complete:
  assumes ag: "document_agrees rs doc" and ag': "document_agrees (rs @ (key, t) # us) doc'"
  shows "\<exists>doc1. store_record (key \<notin> fst ` set rs) n c key t doc = Inr doc1"
proof (cases key rule: record_key_cases)
  case 1
  show ?thesis using store_value_complete [OF document_agreesD(1) [OF ag] document_agreesD(1) [OF ag' [unfolded 1]]] unfolding 1 store_record_keys .
next
  case 2
  show ?thesis using store_value_complete [OF document_agreesD(2) [OF ag] document_agreesD(2) [OF ag' [unfolded 2]]] unfolding 2 store_record_keys .
next
  case 3
  show ?thesis using store_value_complete [OF document_agreesD(3) [OF ag] document_agreesD(3) [OF ag' [unfolded 3]]] unfolding 3 store_record_keys .
next
  case 4
  show ?thesis using store_value_complete [OF document_agreesD(4) [OF ag] document_agreesD(4) [OF ag' [unfolded 4]]] unfolding 4 store_record_keys .
next
  case 5
  show ?thesis using store_value_complete [OF document_agreesD(5) [OF ag] document_agreesD(5) [OF ag' [unfolded 5]]] unfolding 5 store_record_keys .
next
  case 6
  then show ?thesis by (simp add: store_record_def)
qed

text \<open>The state after the records \<open>rs\<close>.\<close>

definition login_inv :: "(string \<times> string) list \<Rightarrow> login_state \<Rightarrow> bool" where
  "login_inv rs st \<longleftrightarrow> (case st of (seen, count, doc) \<Rightarrow>
     set seen = fst ` set rs \<and> count = length rs \<and> count \<le> MaxRecords \<and> document_agrees rs doc)"

lemma find_char_line: "find_char NUL line = None \<longleftrightarrow> NUL \<notin> set line"
  by (simp add: str_simps)

lemma line_step_sound:
  assumes "login_inv rs st" "line_step n line st = Inr st'"
  shows "line_ok line \<and> login_inv (rs @ record_of line) st' \<and> ld_source (snd (snd st')) = ld_source (snd (snd st))"
proof -
  obtain seen count doc where st: "st = (seen, count, doc)" by (cases st)
  have len: "length line \<le> MaxLineBytes" and nul: "NUL \<notin> set line"
    using assms(2) find_char_line [of line] by (auto simp: st line_step_def split: if_splits option.splits)
  show ?thesis
  proof (cases "record_key line")
    case None
    then show ?thesis using assms len nul find_char_line [of line]
      by (simp add: st line_step_def line_ok_def record_of_def)
  next
    case (Some kr)
    then obtain key rest where kr: "record_key line = Some (key, rest)" by (cases kr) auto
    let ?c = "length line - length rest + 1" and ?v = "TrimWhiteSpaces (StripComment rest)"
    from assms(2) kr len nul find_char_line [of line] obtain doc1 where
      cnt: "count < MaxRecords" and ne: "StripComment rest \<noteq> []"
      and sr: "store_record (key \<notin> set seen) n ?c key ?v doc = Inr doc1"
      and st': "st' = (List.insert key seen, count + 1, doc1)"
      by (auto simp: st line_step_def Let_def result_simps split: if_splits)
    have inv: "set seen = fst ` set rs" "count = length rs" "document_agrees rs doc"
      using assms(1) by (auto simp: login_inv_def st)
    from store_record_agrees [OF inv(3) sr [unfolded inv(1)]] cnt inv
    show ?thesis using len nul ne by (auto simp: st' kr st login_inv_def record_of_def line_ok_def)
  qed
qed

lemma line_step_complete:
  assumes "login_inv rs st" "line_ok line" "length (rs @ record_of line) \<le> MaxRecords"
    and "document_agrees (rs @ record_of line @ us) doc'"
  shows "\<exists>st'. line_step n line st = Inr st'"
proof -
  obtain seen count doc where st: "st = (seen, count, doc)" by (cases st)
  have nul: "find_char NUL line = None" and len: "\<not> MaxLineBytes < length line"
    using assms(2) by (auto simp: line_ok_def find_char_line)
  show ?thesis
  proof (cases "record_key line")
    case None
    then show ?thesis using nul len by (simp add: st line_step_def)
  next
    case (Some kr)
    then obtain key rest where kr: "record_key line = Some (key, rest)" by (cases kr) auto
    let ?v = "TrimWhiteSpaces (StripComment rest)"
    have inv: "set seen = fst ` set rs" "count = length rs" "document_agrees rs doc"
      using assms(1) by (auto simp: login_inv_def st)
    have ro: "record_of line = [(key, ?v)]" by (simp add: record_of_def kr)
    have "document_agrees (rs @ (key, ?v) # us) doc'" using assms(4) by (simp add: ro)
    from store_record_complete [OF inv(3) this] obtain doc1 where
      "store_record (key \<notin> set seen) n (length line - length rest + 1) key ?v doc = Inr doc1"
      unfolding inv(1) by blast
    moreover have "\<not> MaxRecords \<le> count" using assms(3) inv(2) by (simp add: ro)
    moreover have "StripComment rest \<noteq> []" using assms(2) kr by (simp add: line_ok_def)
    ultimately show ?thesis using nul len kr by (simp add: st line_step_def Let_def)
  qed
qed

lemma Parse_lines_iff:
  assumes "login_inv rs st"
  shows "Parse_lines n rest st = Inr doc' \<longleftrightarrow>
    (\<forall>l\<in>set (input_lines rest). line_ok l) \<and> length (rs @ records (input_lines rest)) \<le> MaxRecords
    \<and> document_agrees (rs @ records (input_lines rest)) doc' \<and> ld_source doc' = ld_source (snd (snd st))"
  using assms
proof (induction n rest st arbitrary: rs rule: Parse_lines.induct)
  case (1 n rest st)
  show ?case
  proof (cases "rest = []")
    case True
    obtain seen count doc where st: "st = (seen, count, doc)" by (cases st)
    show ?thesis using 1(2) document_agrees_unique [of rs doc doc']
      by (auto simp: True input_lines_simps Parse_lines.simps [of n "[]"] st login_inv_def)
  next
    case False
    obtain line rest' where sp: "span_until NL rest = (line, rest')" by fastforce
    have lines: "input_lines rest = line # input_lines rest'"
      using input_lines_simps(2) [OF False] by (simp add: sp)
    show ?thesis
    proof (cases "line_step n line st")
      case (Inl e)
      then have "\<not> (line_ok line \<and> length (rs @ record_of line) \<le> MaxRecords
          \<and> document_agrees (rs @ record_of line @ records (input_lines rest')) doc')"
        using line_step_complete [OF 1(2), of line "records (input_lines rest')" doc' n] by auto
      then show ?thesis using Inl False by (auto simp: Parse_lines.simps [of n rest] sp lines)
    next
      case (Inr st')
      note sound = line_step_sound [OF 1(2) Inr]
      have "Parse_lines n rest st = Parse_lines (n + 1) rest' st'"
        using False Inr by (simp add: Parse_lines.simps [of n rest] sp)
      then show ?thesis
        using 1(1) [OF False sp [symmetric] Inr, of "rs @ record_of line"] sound by (simp add: lines)
    qed
  qed
qed

text \<open>Accepted are the files within the limits whose known keys have one valid value each, and these
  are the fields of the document.\<close>

lemma LoginDefs_Parse_iff:
  "LoginDefs_Parse bytes source = Inr doc \<longleftrightarrow>
     length bytes \<le> MaxBytes \<and> (\<forall>l\<in>set (input_lines bytes). line_ok l)
     \<and> length (records (input_lines bytes)) \<le> MaxRecords
     \<and> document_agrees (records (input_lines bytes)) doc \<and> ld_source doc = source"
proof -
  have "login_inv [] ([], 0, empty_document source)"
    by (simp add: login_inv_def document_agrees_def agrees_def empty_document_def)
  from Parse_lines_iff [OF this, of 1 bytes doc] show ?thesis
    by (simp add: LoginDefs_Parse_def empty_document_def)
qed

end
