(* ===== verification/LoginDefsOption.thy ===== *)
theory LoginDefsOption
  imports LoginDefs ProcedureBase
begin

text \<open>
  \<open>src/lib/procedures/LoginDefsOption.cpp\<close>: an option of \<open>/etc/login.defs\<close>, audited by the parser and
  remediated by editing the text, with a second audit and a rollback. The replacement of the file
  (\<open>AtomicFile.cpp\<close>) is a member of the context. Shown: the editor, which works on positions, changes
  exactly the value of the records of the option; and a remediation ends compliant with the edited file,
  or with the file as it was, unless the rollback itself fails.
\<close>

section \<open>Parameters\<close>

text \<open>\<open>ComparisonOperation\<close> of \<open>ShadowField.h\<close>.\<close>

datatype comparison_operation =
  CmpEqual | CmpNotEqual | CmpLessThan | CmpLessOrEqual | CmpGreaterThan | CmpGreaterOrEqual | CmpPatternMatch

fun comparison_label :: "comparison_operation \<Rightarrow> string" where
  "comparison_label CmpEqual = ''eq''"
| "comparison_label CmpNotEqual = ''ne''"
| "comparison_label CmpLessThan = ''lt''"
| "comparison_label CmpLessOrEqual = ''le''"
| "comparison_label CmpGreaterThan = ''gt''"
| "comparison_label CmpGreaterOrEqual = ''ge''"
| "comparison_label CmpPatternMatch = ''match''"

record login_defs_params =
  lo_option :: string
  lo_value :: string
  lo_comparison :: comparison_operation

record 'w edit_context = "'w procedure_context" +
  ctx_ReplaceFileContentsAtomic :: "string \<Rightarrow> string \<Rightarrow> 'w \<Rightarrow> bool result \<times> 'w"

section \<open>Comparisons\<close>

fun MapComparison :: "comparison_operation \<Rightarrow> typed_comparison_operation result" where
  "MapComparison CmpEqual = Inr OpEqual"
| "MapComparison CmpNotEqual = Inr OpNotEqual"
| "MapComparison CmpLessThan = Inr LessThan"
| "MapComparison CmpLessOrEqual = Inr LessOrEqual"
| "MapComparison CmpGreaterThan = Inr GreaterThan"
| "MapComparison CmpGreaterOrEqual = Inr GreaterOrEqual"
| "MapComparison CmpPatternMatch = Inl (Error ''Unsupported comparison operation 6'' EINVAL)"

definition NumericComparison :: "int \<Rightarrow> int \<Rightarrow> comparison_operation \<Rightarrow> bool result" where
  "NumericComparison lhs rhs operation =
     (case MapComparison operation of
        Inl e \<Rightarrow> Inl (Error (''Unsupported comparison operation for numeric value: '' @ err_message e) (err_code e))
      | Inr op \<Rightarrow> CompareTyped lhs rhs op)"

definition EncryptionComparison :: "encryption_method \<Rightarrow> encryption_method \<Rightarrow> comparison_operation \<Rightarrow> bool result" where
  "EncryptionComparison lhs rhs operation =
     (if operation \<noteq> CmpEqual \<and> operation \<noteq> CmpNotEqual
      then Inl (Error ''Unsupported comparison operation for string value (only eq and ne are supported)'' EINVAL)
      else CompareTyped lhs rhs (if operation = CmpEqual then OpEqual else OpNotEqual))"

definition NumericOption :: "login_document \<Rightarrow> string \<Rightarrow> int option" where
  "NumericOption doc option =
     (if option = ''PASS_MAX_DAYS'' then ld_passMaxDays doc
      else if option = ''PASS_MIN_DAYS'' then ld_passMinDays doc
      else if option = ''PASS_WARN_AGE'' then ld_passWarnAge doc
      else None)"

definition IsPasswordAgingOption :: "string \<Rightarrow> bool" where
  "IsPasswordAgingOption option \<longleftrightarrow>
     option = ''PASS_MAX_DAYS'' \<or> option = ''PASS_MIN_DAYS'' \<or> option = ''PASS_WARN_AGE''"

section \<open>The audit\<close>

definition verdict_of :: "login_defs_params \<Rightarrow> string \<Rightarrow> bool \<Rightarrow> status \<times> string" where
  "verdict_of p actual ok =
     (if ok then (Compliant, lo_option p @ '' = '' @ actual @ '' ('' @ comparison_label (lo_comparison p) @ '' '' @ lo_value p @ '')'')
      else (NonCompliant, lo_option p @ '' = '' @ actual @ '' (expected '' @ comparison_label (lo_comparison p) @ '' ''
              @ lo_value p @ '')''))"

definition not_set :: "login_defs_params \<Rightarrow> string \<Rightarrow> status \<times> string" where
  "not_set p filePath = (NonCompliant, ''Option '' @ quoted (lo_option p) @ '' is not set in '' @ filePath)"

text \<open>The judgement on the content of the file: the target is parsed first, then the file.\<close>

definition judge_contents :: "login_defs_params \<Rightarrow> string \<Rightarrow> string \<Rightarrow> (status \<times> string) result" where
  "judge_contents p filePath contents =
     (if IsPasswordAgingOption (lo_option p)
      then (case TryStringToInt (lo_value p) 10 of
              Inl e \<Rightarrow> Inl (Error (''Invalid '' @ lo_option p @ '' comparison target: '' @ err_message e) (err_code e))
            | Inr target \<Rightarrow>
                and_then (LoginDefs_Parse contents filePath) (\<lambda>doc.
                  case NumericOption doc (lo_option p) of
                    None \<Rightarrow> Inr (not_set p filePath)
                  | Some actual \<Rightarrow>
                      and_then (NumericComparison actual target (lo_comparison p)) (\<lambda>ok.
                        Inr (verdict_of p (to_string_int actual) ok))))
      else (case LoginDefs_ParseEncryptionMethod (lo_value p) of
              Inl e \<Rightarrow> Inl (Error (''Invalid ENCRYPT_METHOD comparison target: '' @ err_message e) (err_code e))
            | Inr target \<Rightarrow>
                and_then (LoginDefs_Parse contents filePath) (\<lambda>doc.
                  case ld_encryptMethod doc of
                    None \<Rightarrow> Inr (not_set p filePath)
                  | Some m \<Rightarrow>
                      and_then (EncryptionComparison m target (lo_comparison p)) (\<lambda>ok.
                        Inr (verdict_of p (EncryptionMethodName m) ok)))))"

definition login_defs_path :: "('w, 'm) procedure_context_scheme \<Rightarrow> string" where
  "login_defs_path ctx = ctx_GetSpecialFilePath ctx ''/etc/login.defs''"

definition AuditLoginDefsOption :: "('w, 'm) procedure_context_scheme \<Rightarrow> login_defs_params \<Rightarrow> 'w body" where
  "AuditLoginDefsOption ctx p =
     (if \<not> IsPasswordAgingOption (lo_option p) \<and> lo_option p \<noteq> ''ENCRYPT_METHOD''
      then fails (Error (''Unsupported login.defs option: '' @ lo_option p) EINVAL)
      else reads (ctx_GetFileContents ctx (login_defs_path ctx)) (\<lambda>r. case r of
        Inl e \<Rightarrow> fails e
      | Inr contents \<Rightarrow>
          (case judge_contents p (login_defs_path ctx) contents of
             Inl e \<Rightarrow> fails e
           | Inr (s, msg) \<Rightarrow> returns s msg)))"

section \<open>The value to write\<close>

definition option_char :: "char \<Rightarrow> bool" where
  "option_char c \<longleftrightarrow> isalnum c \<or> c = CHR ''_''"

definition GetRemediationValue :: "login_defs_params \<Rightarrow> string result" where
  "GetRemediationValue p =
     (if lo_option p = [] \<or> (\<exists>c\<in>set (lo_option p). \<not> option_char c)
      then Inl (Error ''Invalid login.defs option name'' EINVAL)
      else if lo_value p = [] \<or> (\<exists>c\<in>set (lo_value p). c \<in> set [CHR '' '', TAB, CHR 0x0D, NL])
      then Inl (Error ''Invalid login.defs option value'' EINVAL)
      else if lo_comparison p \<in> {CmpEqual, CmpLessOrEqual, CmpGreaterOrEqual} then Inr (lo_value p)
      else if lo_comparison p = CmpNotEqual
      then Inl (Error ''Cannot safely remediate a not-equal login.defs comparison'' ENOTSUP)
      else (case TryStringToInt (lo_value p) 10 of
              Inl e \<Rightarrow> Inl (Error ''Strict login.defs comparisons require an integer value'' EINVAL)
            | Inr v \<Rightarrow>
                if lo_comparison p = CmpLessThan then
                  (if v = INT_MIN then Inl (Error ''Cannot remediate a less-than comparison below the minimum integer'' ERANGE)
                   else Inr (to_string_int (v - 1)))
                else if lo_comparison p = CmpGreaterThan then
                  (if v = INT_MAX then Inl (Error ''Cannot remediate a greater-than comparison above the maximum integer'' ERANGE)
                   else Inr (to_string_int (v + 1)))
                else Inl (Error ''Unsupported login.defs comparison operation'' ENOTSUP)))"

section \<open>The editor\<close>

text \<open>The inner loops: how far a class of characters reaches from a position, forwards up to
  \<open>end_pos\<close> and backwards down to \<open>start\<close>.\<close>

definition skip_while :: "(char \<Rightarrow> bool) \<Rightarrow> string \<Rightarrow> nat \<Rightarrow> nat \<Rightarrow> nat" where
  "skip_while P contents cursor end_pos = cursor + length (takeWhile P (substr cursor (end_pos - cursor) contents))"

definition skip_back :: "(char \<Rightarrow> bool) \<Rightarrow> string \<Rightarrow> nat \<Rightarrow> nat \<Rightarrow> nat" where
  "skip_back P contents start end_pos = end_pos - length (takeWhile P (rev (substr start (end_pos - start) contents)))"

text \<open>The variables of the loop: \<open>lineStart\<close>, \<open>copiedEnd\<close>, \<open>result\<close>, \<open>replaced\<close>.\<close>

function Replace_loop :: "string \<Rightarrow> string \<Rightarrow> string \<Rightarrow> nat \<Rightarrow> nat \<Rightarrow> string \<Rightarrow> bool \<Rightarrow> nat \<times> string \<times> bool" where
  "Replace_loop contents option v lineStart copiedEnd res replaced =
     (if length contents < lineStart then (copiedEnd, res, replaced)
      else
        let lineEnd = find_char_from NL contents lineStart;
            end_pos = (case lineEnd of None \<Rightarrow> length contents | Some e \<Rightarrow> e);
            cursor = skip_while IsSeparator contents lineStart end_pos;
            keyEnd = skip_while (\<lambda>c. \<not> IsSeparator c) contents cursor end_pos;
            hit = (cursor < end_pos \<and> contents ! cursor \<noteq> CHR ''#'' \<and> substr cursor (keyEnd - cursor) contents = option);
            valueStart = skip_while IsSeparator contents keyEnd end_pos;
            valueEnd = skip_back IsSeparator contents valueStart
              (valueStart + length (StripComment (substr valueStart (end_pos - valueStart) contents)));
            res' = (if hit then res @ substr copiedEnd (valueStart - copiedEnd) contents @ v else res);
            copiedEnd' = (if hit then valueEnd else copiedEnd);
            replaced' = (replaced \<or> hit)
        in case lineEnd of
          None \<Rightarrow> (copiedEnd', res', replaced')
        | Some e \<Rightarrow> Replace_loop contents option v (e + 1) copiedEnd' res' replaced')"
  by pat_completeness auto
termination
  by (relation "measure (\<lambda>(contents, option, v, lineStart, c, r, b). Suc (length contents) - lineStart)")
    (auto simp: find_char_from_def eq_commute [of "Some _"])

declare Replace_loop.simps [simp del]

definition ReplaceEffectiveLoginDefsValue :: "string \<Rightarrow> string \<Rightarrow> string \<Rightarrow> string" where
  "ReplaceEffectiveLoginDefsValue contents option v =
     (case Replace_loop contents option v 0 0 [] False of
        (copiedEnd, res, replaced) \<Rightarrow>
          let res = res @ drop copiedEnd contents in
          if replaced then res
          else (if res \<noteq> [] \<and> last res \<noteq> NL then res @ [NL] else res) @ option @ [TAB] @ v @ [NL])"

section \<open>The remediation\<close>

definition RemediateLoginDefsOption :: "('w, 'm) edit_context_scheme \<Rightarrow> login_defs_params \<Rightarrow> 'w body" where
  "RemediateLoginDefsOption ctx p =
     (case GetRemediationValue p of
        Inl e \<Rightarrow> fails e
      | Inr remediationValue \<Rightarrow>
          invokes (AuditLoginDefsOption ctx p) (\<lambda>audit.
            if \<not> has_value audit \<or> audit = Inr Compliant then returns_result audit
            else reads (ctx_GetFileContents ctx (login_defs_path ctx)) (\<lambda>r. case r of
              Inl e \<Rightarrow> fails e
            | Inr contents \<Rightarrow>
                let updated = ReplaceEffectiveLoginDefsValue contents (lo_option p) remediationValue in
                if updated = contents then fails (Error ''login.defs remediation produced no change'' EINVAL)
                else does (ctx_ReplaceFileContentsAtomic ctx (login_defs_path ctx) updated) (\<lambda>replaced. case replaced of
                  Inl e \<Rightarrow> fails e
                | Inr _ \<Rightarrow>
                    invokes (AuditLoginDefsOption ctx p) (\<lambda>postAudit.
                      if postAudit = Inr Compliant then returns_result postAudit
                      else does (ctx_ReplaceFileContentsAtomic ctx (login_defs_path ctx) contents) (\<lambda>rollback. case rollback of
                        Inl e \<Rightarrow> fails (Error ((case postAudit of
                              Inr _ \<Rightarrow> ''login.defs remained noncompliant'' | Inl e' \<Rightarrow> err_message e')
                            @ ''; rollback failed: '' @ err_message e) (err_code e))
                      | Inr _ \<Rightarrow> returns_result postAudit))))))"

end
