(* ===== verification/LoginDefsProps.thy ===== *)
theory LoginDefsProps
  imports LoginDefsOption
begin

text \<open>
  Properties of \<open>LoginDefsOption.cpp\<close>: the editor is a map over lines, an edited file is read back with
  the new value and nothing else changed, and the remediation is a transaction on the file. The interface
  of the file replacement is the locale \<open>atomic_files\<close>.
\<close>

section \<open>The editor as a map over lines\<close>

text \<open>A line in parts: what precedes the value, the value, what follows it.\<close>

definition line_hit :: "string \<Rightarrow> string \<Rightarrow> bool" where
  "line_hit option line \<longleftrightarrow>
     (let body = dropWhile IsSeparator line in
      body \<noteq> [] \<and> hd body \<noteq> CHR ''#'' \<and> takeWhile (\<lambda>c. \<not> IsSeparator c) body = option)"

definition value_tail :: "string \<Rightarrow> string" where
  "value_tail line = dropWhile IsSeparator (dropWhile (\<lambda>c. \<not> IsSeparator c) (dropWhile IsSeparator line))"

definition value_length :: "string \<Rightarrow> nat" where
  "value_length rest = length (StripComment rest) - length (takeWhile IsSeparator (rev (StripComment rest)))"

definition edit_line :: "string \<Rightarrow> string \<Rightarrow> string \<Rightarrow> string" where
  "edit_line option v line =
     (if line_hit option line
      then take (length line - length (value_tail line)) line @ v @ drop (value_length (value_tail line)) (value_tail line)
      else line)"

function edit_text :: "string \<Rightarrow> string \<Rightarrow> string \<Rightarrow> string" where
  "edit_text option v s =
     (case find_char NL s of
        None \<Rightarrow> edit_line option v s
      | Some k \<Rightarrow> edit_line option v (take k s) @ NL # edit_text option v (drop (k + 1) s))"
  by pat_completeness auto
termination
  by (relation "measure (\<lambda>(option, v, s). length s)") (auto dest: find_char_bound)

declare edit_text.simps [simp del]

definition text_hit :: "string \<Rightarrow> string \<Rightarrow> bool" where
  "text_hit option s \<longleftrightarrow> (\<exists>l\<in>set (input_lines s). line_hit option l)"

lemma substr_line:
  "a + n \<le> length line \<Longrightarrow> substr (length pre + a) n (pre @ line @ after) = take n (drop a line)"
  by (simp add: substr_def)

lemma skip_while_line:
  assumes "a \<le> length line"
  shows "skip_while P (pre @ line @ after) (length pre + a) (length pre + length line)
    = length pre + (a + length (takeWhile P (drop a line)))"
proof -
  have "substr (length pre + a) (length pre + length line - (length pre + a)) (pre @ line @ after) = drop a line"
    using substr_line [of a "length line - a" line pre after] assms by simp
  then show ?thesis by (simp add: skip_while_def)
qed

lemma takeWhile_drop_bound: "a \<le> length line \<Longrightarrow> a + length (takeWhile P (drop a line)) \<le> length line"
  using length_takeWhile_le [of P "drop a line"] by simp

lemma drop_skip: "drop (a + length (takeWhile P (drop a line))) line = dropWhile P (drop a line)"
  by (metis add.commute drop_drop dropWhile_eq_drop)

lemma StripComment_prefix: "\<exists>t. s = StripComment s @ t"
  by (auto simp: StripComment_def split: option.split intro: append_take_drop_id [symmetric])

lemma StripComment_take: "take (length (StripComment s)) s = StripComment s"
  using StripComment_prefix [of s] by (metis append_eq_conv_conj)

text \<open>One round of the loop, at the start of a line.\<close>

lemma Replace_loop_line:
  fixes pre line after
  defines "contents \<equiv> pre @ line @ after"
  defines "off \<equiv> length pre"
  assumes nl: "NL \<notin> set line" and tail: "after = [] \<or> hd after = NL" and copied: "copiedEnd \<le> off"
  obtains copiedEnd' res' where
    "Replace_loop contents option v off copiedEnd res replaced =
       (if after = [] then (copiedEnd', res', replaced \<or> line_hit option line)
        else Replace_loop contents option v (off + length line + 1) copiedEnd' res' (replaced \<or> line_hit option line))"
    "copiedEnd' \<le> off + length line"
    "res' @ substr copiedEnd' (off + length line - copiedEnd') contents =
       res @ substr copiedEnd (off - copiedEnd) contents @ edit_line option v line"
proof -
  define c where "c = length (takeWhile IsSeparator line)"
  define k where "k = c + length (takeWhile (\<lambda>x. \<not> IsSeparator x) (drop c line))"
  define vs where "vs = k + length (takeWhile IsSeparator (drop k line))"
  define ve where "ve = vs + value_length (drop vs line)"
  have c_le: "c \<le> length line" by (simp add: c_def length_takeWhile_le)
  have k_le: "k \<le> length line" unfolding k_def by (rule takeWhile_drop_bound [OF c_le])
  have vs_le: "vs \<le> length line" unfolding vs_def by (rule takeWhile_drop_bound [OF k_le])
  have "c \<le> k" by (simp add: k_def)
  note le = c_le k_le vs_le this
  have body: "drop c line = dropWhile IsSeparator line" by (simp add: c_def dropWhile_eq_drop)
  have "drop k line = dropWhile (\<lambda>x. \<not> IsSeparator x) (drop c line)" unfolding k_def by (rule drop_skip)
  moreover have "drop vs line = dropWhile IsSeparator (drop k line)" unfolding vs_def by (rule drop_skip)
  ultimately have tail_eq: "drop vs line = value_tail line" by (simp add: body value_tail_def)
  have strip: "length (StripComment (drop vs line)) \<le> length line - vs"
    by (metis StripComment_prefix le_add1 length_append length_drop)
  have ve: "vs \<le> ve" "ve \<le> length line"
    using strip le(3) by (auto simp: ve_def value_length_def)
  have lineEnd: "find_char_from NL contents off = (if after = [] then None else Some (off + length line))"
  proof (cases after)
    case Nil
    then show ?thesis using nl by (simp add: find_char_from_def contents_def off_def find_char_None)
  next
    case (Cons x xs)
    with tail have "after = NL # xs" by simp
    then show ?thesis using find_char_append [OF nl, of xs] by (simp add: find_char_from_def contents_def off_def)
  qed
  have cursor: "skip_while IsSeparator contents off (off + length line) = off + c"
    using skip_while_line [of 0 line IsSeparator pre after] by (simp add: contents_def off_def c_def)
  have keyEnd: "skip_while (\<lambda>x. \<not> IsSeparator x) contents (off + c) (off + length line) = off + k"
    using skip_while_line [OF le(1)] by (simp add: contents_def off_def k_def)
  have valueStart: "skip_while IsSeparator contents (off + k) (off + length line) = off + vs"
    using skip_while_line [OF le(2)] by (simp add: contents_def off_def vs_def)
  have rest: "substr (off + vs) (off + length line - (off + vs)) contents = drop vs line"
    using substr_line [of vs "length line - vs" line pre after] le(3) by (simp add: contents_def off_def)
  have stripped: "substr (off + vs) (length (StripComment (drop vs line))) contents = StripComment (drop vs line)"
    using substr_line [of vs "length (StripComment (drop vs line))" line pre after] strip le(3)
    by (simp add: contents_def off_def StripComment_take)
  have valueEnd: "skip_back IsSeparator contents (off + vs) (off + vs + length (StripComment (drop vs line))) = off + ve"
  proof -
    have "length (takeWhile IsSeparator (rev (StripComment (drop vs line)))) \<le> length (StripComment (drop vs line))"
      by (metis length_rev length_takeWhile_le)
    then show ?thesis by (simp add: skip_back_def stripped ve_def value_length_def)
  qed
  have key: "substr (off + c) (off + k - (off + c)) contents = takeWhile (\<lambda>x. \<not> IsSeparator x) (dropWhile IsSeparator line)"
  proof -
    have "substr (off + c) (k - c) contents = take (k - c) (drop c line)"
      using substr_line [of c "k - c" line pre after] le by (simp add: contents_def off_def)
    also have "\<dots> = takeWhile (\<lambda>x. \<not> IsSeparator x) (drop c line)"
      unfolding k_def add_diff_cancel_left' by (rule takeWhile_eq_take [symmetric])
    finally show ?thesis by (simp add: body)
  qed
  have at_cursor: "off + c < off + length line \<and> contents ! (off + c) \<noteq> CHR ''#'' \<longleftrightarrow>
      dropWhile IsSeparator line \<noteq> [] \<and> hd (dropWhile IsSeparator line) \<noteq> CHR ''#''"
    using le(1) by (cases "c < length line") (auto simp: contents_def off_def nth_append hd_drop_conv_nth simp flip: body)
  let ?hit = "line_hit option line"
  let ?ce = "if ?hit then off + ve else copiedEnd"
  let ?res = "if ?hit then res @ substr copiedEnd (off + vs - copiedEnd) contents @ v else res"
  have hit: "off + c < off + length line \<and> contents ! (off + c) \<noteq> CHR ''#''
      \<and> substr (off + c) (off + k - (off + c)) contents = option \<longleftrightarrow> ?hit"
    using at_cursor by (simp only: key line_hit_def Let_def) blast
  have len: "\<not> length contents < off" by (simp add: contents_def off_def)
  have end_pos: "(case find_char_from NL contents off of None \<Rightarrow> length contents | Some e \<Rightarrow> e) = off + length line"
    unfolding lineEnd by (simp add: contents_def off_def)
  have step: "Replace_loop contents option v off copiedEnd res replaced =
       (if after = [] then (?ce, ?res, replaced \<or> ?hit)
        else Replace_loop contents option v (off + length line + 1) ?ce ?res (replaced \<or> ?hit))"
    using len unfolding Replace_loop.simps [of contents option v off] Let_def end_pos cursor keyEnd valueStart rest valueEnd hit
    by (simp add: lineEnd)
  have seg: "substr copiedEnd (off + x - copiedEnd) contents = substr copiedEnd (off - copiedEnd) contents @ take x line"
    if "x \<le> length line" for x
    using copied that by (simp add: substr_def contents_def off_def)
  have "?res @ substr ?ce (off + length line - ?ce) contents =
       res @ substr copiedEnd (off - copiedEnd) contents @ edit_line option v line"
  proof (cases ?hit)
    case True
    have "substr (off + ve) (off + length line - (off + ve)) contents = drop ve line"
      using substr_line [of ve "length line - ve" line pre after] ve by (simp add: contents_def off_def)
    moreover have "length line - length (value_tail line) = vs" using le(3) by (simp flip: tail_eq)
    moreover have "drop (value_length (value_tail line)) (value_tail line) = drop ve line"
      by (simp add: ve_def add.commute flip: tail_eq)
    ultimately show ?thesis using True seg [OF le(3)] by (simp add: edit_line_def)
  next
    case False
    then show ?thesis using seg [of "length line"] by (simp add: edit_line_def)
  qed
  moreover have "?ce \<le> off + length line" using ve(2) copied by simp
  ultimately show thesis using that step by blast
qed

lemma span_until_find:
  "span_until c s = (case find_char c s of None \<Rightarrow> (s, []) | Some k \<Rightarrow> (take k s, drop (k + 1) s))"
  by (induction s) (auto split: option.splits)

lemma line_hit_Nil [simp]: "\<not> line_hit option []"
  by (simp add: line_hit_def)

lemma text_hit_simps:
  "find_char NL s = None \<Longrightarrow> text_hit option s \<longleftrightarrow> line_hit option s"
  "find_char NL s = Some k \<Longrightarrow> text_hit option s \<longleftrightarrow> line_hit option (take k s) \<or> text_hit option (drop (k + 1) s)"
proof -
  show "find_char NL s = None \<Longrightarrow> text_hit option s \<longleftrightarrow> line_hit option s"
    by (cases "s = []") (simp_all add: text_hit_def input_lines_simps span_until_find)
  assume k: "find_char NL s = Some k"
  then have "s \<noteq> []" by auto
  with k show "text_hit option s \<longleftrightarrow> line_hit option (take k s) \<or> text_hit option (drop (k + 1) s)"
    by (simp add: text_hit_def input_lines_simps(2) span_until_find)
qed

lemma Replace_loop_edit:
  assumes "copied \<le> length pre" "Replace_loop (pre @ rest) option v (length pre) copied res replaced = (c', r', b')"
  shows "r' @ drop c' (pre @ rest) = res @ substr copied (length pre - copied) (pre @ rest) @ edit_text option v rest
    \<and> b' = (replaced \<or> text_hit option rest)"
  using assms
proof (induction option v rest arbitrary: pre copied res replaced rule: edit_text.induct)
  case (1 option v rest)
  show ?case
  proof (cases "find_char NL rest")
    case None
    then have "NL \<notin> set rest" by (simp add: find_char_None)
    from Replace_loop_line [OF this, of "[]" copied pre option v res replaced] obtain ce rs where
      "Replace_loop (pre @ rest) option v (length pre) copied res replaced = (ce, rs, replaced \<or> line_hit option rest)"
      "ce \<le> length pre + length rest"
      "rs @ substr ce (length pre + length rest - ce) (pre @ rest)
        = res @ substr copied (length pre - copied) (pre @ rest) @ edit_line option v rest"
      using 1(2) by auto
    with 1(3) None show ?thesis by (auto simp: edit_text.simps [of option v rest] text_hit_simps(1) substr_def)
  next
    case (Some k)
    define line where "line = take k rest"
    define rest' where "rest' = drop (k + 1) rest"
    have k: "k < length rest" "rest ! k = NL" "NL \<notin> set line"
      using Some by (auto simp: find_char_Some line_def)
    have rest: "rest = line @ NL # rest'"
      using id_take_nth_drop [OF k(1)] k(2) by (simp add: line_def rest'_def)
    from Replace_loop_line [OF k(3), of "NL # rest'" copied pre option v res replaced] obtain ce rs where
      step: "Replace_loop (pre @ rest) option v (length pre) copied res replaced
        = Replace_loop (pre @ rest) option v (length pre + length line + 1) ce rs (replaced \<or> line_hit option line)"
      and ce: "ce \<le> length pre + length line"
      and rs: "rs @ substr ce (length pre + length line - ce) (pre @ rest)
        = res @ substr copied (length pre - copied) (pre @ rest) @ edit_line option v line"
      using 1(2) unfolding rest by auto
    let ?pre = "pre @ line @ [NL]"
    have whole: "pre @ rest = ?pre @ rest'" by (simp add: rest)
    have len: "length pre + length line + 1 = length ?pre" by simp
    have run: "Replace_loop (?pre @ rest') option v (length ?pre) ce rs (replaced \<or> line_hit option line) = (c', r', b')"
      using 1(3) step unfolding whole len by simp
    have seg: "substr ce (length ?pre - ce) (?pre @ rest') = substr ce (length pre + length line - ce) (pre @ rest) @ [NL]"
      using ce by (simp add: substr_def rest Suc_diff_le)
    have "ce \<le> length ?pre" using ce by simp
    from "1.IH" [OF Some this run [unfolded rest'_def]]
    have "r' @ drop c' (?pre @ rest') = rs @ substr ce (length ?pre - ce) (?pre @ rest') @ edit_text option v rest'
        \<and> b' = ((replaced \<or> line_hit option line) \<or> text_hit option rest')"
      by (simp add: rest'_def)
    then have "r' @ drop c' (pre @ rest) = (rs @ substr ce (length pre + length line - ce) (pre @ rest)) @ [NL] @ edit_text option v rest'
        \<and> b' = ((replaced \<or> line_hit option line) \<or> text_hit option rest')"
      unfolding seg by (simp only: rest append_assoc append_Cons append_Nil disj_assoc)
    then show ?thesis
      unfolding rs using Some by (simp add: edit_text.simps [of option v rest] text_hit_simps(2) line_def rest'_def)
  qed
qed

text \<open>The editor.\<close>

lemma Replace_edit:
  "ReplaceEffectiveLoginDefsValue contents option v =
     (if text_hit option contents then edit_text option v contents
      else (if contents \<noteq> [] \<and> last contents \<noteq> NL then contents @ [NL] else contents) @ option @ [TAB] @ v @ [NL])"
proof -
  obtain c' r' b' where run: "Replace_loop contents option v 0 0 [] False = (c', r', b')"
    by (cases "Replace_loop contents option v 0 0 [] False")
  from Replace_loop_edit [of 0 "[]" contents option v "[]" False c' r' b'] run
  have e: "r' @ drop c' contents = edit_text option v contents" "b' = text_hit option contents"
    by (simp_all add: substr_def)
  have "edit_text option v s = s" if "\<not> text_hit option s" for s
    using that
  proof (induction option v s rule: edit_text.induct)
    case (1 option v s)
    show ?case
    proof (cases "find_char NL s")
      case None
      then show ?thesis using 1(2) by (simp add: edit_text.simps [of option v s] text_hit_simps(1) edit_line_def)
    next
      case (Some k)
      then have "s = take k s @ NL # drop (k + 1) s"
        using id_take_nth_drop [of k s] by (simp add: find_char_Some)
      then show ?thesis using 1 Some by (simp add: edit_text.simps [of option v s] text_hit_simps(2) edit_line_def)
    qed
  qed
  then show ?thesis using e by (auto simp: ReplaceEffectiveLoginDefsValue_def run Let_def)
qed

section \<open>Reading an edited file\<close>

text \<open>A value that can be written: not empty, without white space, comment sign or terminator.\<close>

definition writable :: "string \<Rightarrow> bool" where
  "writable v \<longleftrightarrow> v \<noteq> [] \<and> (\<forall>c\<in>set v. \<not> isspace c \<and> c \<noteq> CHR ''#'' \<and> c \<noteq> NUL)"

lemma IsSeparator_isspace: "IsSeparator c \<Longrightarrow> isspace c"
  by (auto simp: IsSeparator_def isspace_def)

lemma writable_hd: "writable v \<Longrightarrow> \<not> IsSeparator (hd v) \<and> v \<noteq> []"
  using IsSeparator_isspace by (cases v) (auto simp: writable_def)

lemma writable_NL: "writable v \<Longrightarrow> NL \<notin> set v"
  by (auto simp: writable_def isspace_def)

lemma StripComment_decomp:
  obtains c where "s = StripComment s @ c" "c = [] \<or> hd c = CHR ''#''"
proof (cases "find_char (CHR ''#'') s")
  case None
  then show ?thesis using that [of "[]"] by (simp add: StripComment_def)
next
  case (Some i)
  then have "i < length s" "s ! i = CHR ''#''" by (auto simp: find_char_Some)
  then show ?thesis using that [of "drop i s"] Some by (simp add: StripComment_def hd_drop_conv_nth)
qed

lemma StripComment_unique:
  assumes "CHR ''#'' \<notin> set a" "c = [] \<or> hd c = CHR ''#''"
  shows "StripComment (a @ c) = a"
proof (cases c)
  case Nil
  then show ?thesis using assms(1) find_char_None [of "CHR ''#''" a] by (simp add: StripComment_def)
next
  case (Cons x xs)
  then have "c = CHR ''#'' # xs" using assms(2) by simp
  then show ?thesis using find_char_append [OF assms(1), of xs] by (simp add: StripComment_def)
qed

lemma trim_written:
  assumes "writable v" "\<forall>c\<in>set w. IsSeparator c"
  shows "TrimWhiteSpaces (v @ w) = v"
proof -
  have ends: "\<not> isspace (hd v)" "\<not> isspace (last v)" "v \<noteq> []"
    using assms(1) by (auto simp: writable_def)
  have "dropWhile isspace (v @ w) = v @ w" using ends(1,3) by (cases v) auto
  moreover have "dropWhile isspace (rev w @ rev v) = rev v"
  proof -
    have "\<forall>c\<in>set (rev w). isspace c" using assms(2) IsSeparator_isspace by auto
    then have "dropWhile isspace (rev w @ rev v) = dropWhile isspace (rev v)" by (intro dropWhile_append2) auto
    then show ?thesis using ends(2,3) by (cases v rule: rev_cases) auto
  qed
  ultimately show ?thesis by (simp add: TrimWhiteSpaces_def)
qed

text \<open>What follows a value: blanks, then nothing or a comment.\<close>

lemma value_rest:
  obtains w c where "drop (value_length rest) rest = w @ c" "\<forall>x\<in>set w. IsSeparator x" "c = [] \<or> hd c = CHR ''#''"
proof -
  obtain c where c: "rest = StripComment rest @ c" "c = [] \<or> hd c = CHR ''#''" by (rule StripComment_decomp)
  let ?s = "StripComment rest"
  define w where "w = rev (takeWhile IsSeparator (rev ?s))"
  define u where "u = rev (dropWhile IsSeparator (rev ?s))"
  have u: "?s = u @ w"
    unfolding u_def w_def by (metis rev_append rev_rev_ident takeWhile_dropWhile_id)
  have "length ?s = length u + length w" using arg_cong [OF u, of length] by simp
  moreover have "length (takeWhile IsSeparator (rev ?s)) = length w" by (simp only: w_def length_rev)
  ultimately have vl: "value_length rest = length u" by (simp only: value_length_def)
  have "rest = u @ w @ c" using c(1) u by simp
  then have "drop (length u) rest = w @ c" by (metis append_eq_conv_conj)
  then have "drop (value_length rest) rest = w @ c" unfolding vl .
  moreover have "\<forall>x\<in>set w. IsSeparator x" by (auto simp: w_def dest: set_takeWhileD)
  ultimately show thesis using that c(2) by blast
qed

text \<open>In an accepted line the key ends at a separator.\<close>

lemma record_key_parts:
  assumes "line_ok line" "record_key line = Some (key, rest)"
  obtains pre gap where "line = pre @ key @ gap @ rest" "\<forall>c\<in>set pre. IsSeparator c" "\<forall>c\<in>set gap. IsSeparator c"
    "gap \<noteq> []" "key \<noteq> []" "\<forall>c\<in>set key. \<not> IsSeparator c \<and> c \<noteq> CHR ''#''" "value_tail line = rest"
    "dropWhile IsSeparator line = key @ gap @ rest" "takeWhile (\<lambda>c. \<not> IsSeparator c) (dropWhile IsSeparator line) = key"
    "rest \<noteq> []"
proof -
  let ?P = "\<lambda>c. \<not> IsSeparator c \<and> c \<noteq> CHR ''#''"
  define body where "body = dropWhile IsSeparator line"
  define r where "r = dropWhile ?P body"
  have body: "body \<noteq> []" "hd body \<noteq> CHR ''#''" "key = takeWhile ?P body" "rest = dropWhile IsSeparator r"
    using assms(2) by (auto simp: record_key_def body_def r_def Let_def split: if_splits)
  have strip: "StripComment rest \<noteq> []" using assms by (simp add: line_ok_def)
  then have rest: "rest \<noteq> []" "hd rest \<noteq> CHR ''#''"
    by (cases rest; auto simp: StripComment_def)+
  have r: "r \<noteq> []" using rest(1) body(4) by auto
  then have "\<not> ?P (hd r)" using hd_dropWhile [of ?P body] by (simp add: r_def)
  moreover have "hd r \<noteq> CHR ''#''"
  proof
    assume h: "hd r = CHR ''#''"
    then have "\<not> IsSeparator (hd r)" by (simp add: IsSeparator_def)
    then have "rest = r" using body(4) r by (cases r) auto
    with h rest(2) show False by simp
  qed
  ultimately have sep: "IsSeparator (hd r)" by blast
  have hd_body: "\<not> IsSeparator (hd body)" using hd_dropWhile [of IsSeparator line] body(1) by (simp add: body_def)
  have key: "\<forall>c\<in>set key. ?P c" "key \<noteq> []"
    using body hd_body by (auto simp: body(3) dest: set_takeWhileD) (cases body; auto)
  have split: "body = key @ r" by (simp add: body(3) r_def)
  define gap where "gap = takeWhile IsSeparator r"
  have gap: "r = gap @ rest" "\<forall>c\<in>set gap. IsSeparator c" "gap \<noteq> []"
    using sep r by (auto simp: gap_def body(4) dest: set_takeWhileD) (cases r; auto)
  have "line = takeWhile IsSeparator line @ key @ gap @ rest"
    using takeWhile_dropWhile_id [of IsSeparator line] by (simp add: split gap(1) flip: body_def)
  moreover have "\<forall>c\<in>set (takeWhile IsSeparator line). IsSeparator c" by (auto dest: set_takeWhileD)
  moreover have tk: "takeWhile (\<lambda>c. \<not> IsSeparator c) body = key" "dropWhile (\<lambda>c. \<not> IsSeparator c) body = r"
    using key(1) sep r by (cases r; simp add: split)+
  moreover have "value_tail line = rest" using tk(2) body(4) by (simp add: value_tail_def flip: body_def)
  ultimately show thesis
    using that [of "takeWhile IsSeparator line" gap] gap key split rest(1) by (simp flip: body_def)
qed

definition set_value :: "string \<Rightarrow> string \<Rightarrow> string \<times> string \<Rightarrow> string \<times> string" where
  "set_value option v kt = (if fst kt = option then (fst kt, v) else kt)"

lemma line_hit_key:
  assumes "line_ok line" "record_key line = Some (key, rest)"
  shows "line_hit option line \<longleftrightarrow> key = option"
proof (rule record_key_parts [OF assms], goal_cases)
  case (1 pre gap)
  then show ?case by (cases key) (auto simp: line_hit_def Let_def)
qed

lemma not_hit: "record_key line = None \<Longrightarrow> \<not> line_hit option line"
  by (auto simp: record_key_def line_hit_def Let_def split: if_splits)

lemma edited_record:
  assumes ok: "line_ok line" "writable v"
    and size: "length (edit_line option v line) \<le> MaxLineBytes"
  shows "record_of (edit_line option v line) = map (set_value option v) (record_of line)
    \<and> line_ok (edit_line option v line)"
proof (cases "record_key line")
  case None
  then show ?thesis using ok by (simp add: edit_line_def not_hit record_of_def)
next
  case (Some kr)
  then obtain key rest where kr: "record_key line = Some (key, rest)" by (cases kr) auto
  show ?thesis
  proof (cases "key = option")
    case False
    then show ?thesis using ok line_hit_key [OF ok(1) kr, of option]
      by (simp add: edit_line_def record_of_def kr set_value_def)
  next
    case True
    obtain pre gap where p: "line = pre @ key @ gap @ rest" "\<forall>c\<in>set pre. IsSeparator c" "\<forall>c\<in>set gap. IsSeparator c"
      "gap \<noteq> []" "key \<noteq> []" "\<forall>c\<in>set key. \<not> IsSeparator c \<and> c \<noteq> CHR ''#''" "value_tail line = rest"
      by (rule record_key_parts [OF ok(1) kr])
    obtain w c where b: "drop (value_length rest) rest = w @ c" "\<forall>x\<in>set w. IsSeparator x" "c = [] \<or> hd c = CHR ''#''"
      by (rule value_rest)
    have edited: "edit_line option v line = pre @ key @ gap @ v @ w @ c"
      using line_hit_key [OF ok(1) kr, of option] True p(7) b(1) by (simp add: edit_line_def p(1))
    have hd_key: "\<not> IsSeparator (hd key) \<and> hd key \<noteq> CHR ''#''" using p(5,6) by simp
    have body: "dropWhile IsSeparator (pre @ key @ gap @ v @ w @ c) = key @ gap @ v @ w @ c"
      using p(2,5) hd_key by (cases key) (simp_all add: dropWhile_append2)
    have hd_gap: "IsSeparator (hd gap)" using p(3,4) by simp
    have key': "takeWhile (\<lambda>c. \<not> IsSeparator c \<and> c \<noteq> CHR ''#'') (key @ gap @ v @ w @ c) = key"
      "dropWhile (\<lambda>c. \<not> IsSeparator c \<and> c \<noteq> CHR ''#'') (key @ gap @ v @ w @ c) = gap @ v @ w @ c"
      using p(4,6) hd_gap by (cases gap; simp)+
    have rest': "dropWhile IsSeparator (gap @ v @ w @ c) = v @ w @ c"
      using p(3) writable_hd [OF ok(2)] by (cases v) (simp_all add: dropWhile_append2)
    have rk: "record_key (pre @ key @ gap @ v @ w @ c) = Some (key, v @ w @ c)"
      using p(5) hd_key by (simp add: record_key_def Let_def body key' rest')
    have "\<not> IsSeparator (CHR ''#'')" by (simp add: IsSeparator_def)
    then have "CHR ''#'' \<notin> set w" using b(2) by blast
    moreover have "CHR ''#'' \<notin> set v" using ok(2) unfolding writable_def by blast
    ultimately have "CHR ''#'' \<notin> set (v @ w)" by simp
    then have strip: "StripComment (v @ w @ c) = v @ w" using StripComment_unique [of "v @ w" c] b(3) by simp
    have "set (w @ c) \<subseteq> set rest" using set_drop_subset [of "value_length rest" rest] b(1) by simp
    then have nul: "NUL \<notin> set (pre @ key @ gap @ v @ w @ c)"
      using ok by (auto simp: line_ok_def p(1) writable_def)
    show ?thesis
      using size nul ok(2) True trim_written [OF ok(2) b(2)]
      by (simp add: edited record_of_def rk [unfolded True] strip line_ok_def kr set_value_def writable_def)
  qed
qed

lemma input_lines_Cons:
  assumes "NL \<notin> set l"
  shows "input_lines (l @ NL # s) = l # input_lines s"
  using input_lines_simps(2) [of "l @ NL # s"] span_until_append [OF assms, of s] by simp

lemma input_lines_single: "NL \<notin> set l \<Longrightarrow> input_lines l = (if l = [] then [] else [l])"
  using input_lines_simps(2) [of l] by (auto simp: span_until_notin input_lines_simps(1))

lemma edit_line_NL: "NL \<notin> set line \<Longrightarrow> NL \<notin> set v \<Longrightarrow> NL \<notin> set (edit_line option v line)"
  by (auto simp: edit_line_def value_tail_def dest: in_set_takeD in_set_dropD set_dropWhileD)

lemma edit_line_Nil: "v \<noteq> [] \<Longrightarrow> edit_line option v line = [] \<longleftrightarrow> line = []"
  by (auto simp: edit_line_def)

lemma input_lines_edit:
  assumes "NL \<notin> set v" "v \<noteq> []"
  shows "input_lines (edit_text option v s) = map (edit_line option v) (input_lines s)"
  using assms
proof (induction option v s rule: edit_text.induct)
  case (1 option v s)
  show ?case
  proof (cases "find_char NL s")
    case None
    then have "NL \<notin> set s" by (simp add: find_char_None)
    then have "input_lines (edit_line option v s) = map (edit_line option v) (input_lines s)"
      using input_lines_single [of s] input_lines_single [of "edit_line option v s"] 1(2,3)
        edit_line_NL [of s v option] edit_line_Nil [of v option s] by simp
    then show ?thesis using None by (simp add: edit_text.simps [of option v s])
  next
    case (Some k)
    then have s: "s = take k s @ NL # drop (k + 1) s" "NL \<notin> set (take k s)"
      using id_take_nth_drop [of k s] by (simp_all add: find_char_Some)
    have "input_lines s = take k s # input_lines (drop (k + 1) s)"
      using input_lines_Cons [OF s(2), of "drop (k + 1) s"] s(1) by simp
    moreover have "NL \<notin> set (edit_line option v (take k s))" using s(2) 1(2) by (rule edit_line_NL)
    ultimately show ?thesis
      using 1 Some by (simp add: edit_text.simps [of option v s] input_lines_Cons)
  qed
qed

lemma input_lines_append:
  "s = [] \<or> last s = NL \<Longrightarrow> input_lines (s @ t) = input_lines s @ input_lines t"
  "s \<noteq> [] \<Longrightarrow> last s \<noteq> NL \<Longrightarrow> input_lines (s @ [NL]) = input_lines s"
proof (induction s rule: length_induct)
  case (1 s)
  show "s = [] \<or> last s = NL \<Longrightarrow> input_lines (s @ t) = input_lines s @ input_lines t"
    "s \<noteq> [] \<Longrightarrow> last s \<noteq> NL \<Longrightarrow> input_lines (s @ [NL]) = input_lines s"
  proof (atomize (full), cases "NL \<in> set s")
    case False
    then have "s = [] \<or> last s \<noteq> NL" using last_in_set [of s] by metis
    with False show "(s = [] \<or> last s = NL \<longrightarrow> input_lines (s @ t) = input_lines s @ input_lines t) \<and>
      (s \<noteq> [] \<longrightarrow> last s \<noteq> NL \<longrightarrow> input_lines (s @ [NL]) = input_lines s)"
      using input_lines_Cons [OF False, of "[]"] input_lines_single [OF False] last_in_set [of s]
      by (auto simp: input_lines_simps(1))
  next
    case True
    then obtain l s' where s: "s = l @ NL # s'" "NL \<notin> set l" by (auto dest: split_list_first)
    then have "length s' < length s" by simp
    with 1 have ih: "s' = [] \<or> last s' = NL \<longrightarrow> input_lines (s' @ t) = input_lines s' @ input_lines t"
      "s' \<noteq> [] \<longrightarrow> last s' \<noteq> NL \<longrightarrow> input_lines (s' @ [NL]) = input_lines s'"
      by blast+
    show "(s = [] \<or> last s = NL \<longrightarrow> input_lines (s @ t) = input_lines s @ input_lines t) \<and>
      (s \<noteq> [] \<longrightarrow> last s \<noteq> NL \<longrightarrow> input_lines (s @ [NL]) = input_lines s)"
      using ih input_lines_Cons [OF s(2)] by (cases "s' = []") (auto simp: s(1))
  qed
qed

text \<open>The records of the edited text: the value of every record of the option, or one more record.\<close>

definition option_name :: "string \<Rightarrow> bool" where
  "option_name option \<longleftrightarrow> option \<noteq> [] \<and> (\<forall>c\<in>set option. option_char c)"

lemma option_char_plain: "option_char c \<Longrightarrow> \<not> IsSeparator c \<and> c \<noteq> CHR ''#'' \<and> c \<noteq> NL \<and> c \<noteq> NUL"
  by (auto simp: option_char_def IsSeparator_def isalnum_def isalpha_def isupper_def islower_def isdigit_def)

definition fits :: "string \<Rightarrow> bool" where
  "fits s \<longleftrightarrow> length s \<le> MaxBytes \<and> (\<forall>l\<in>set (input_lines s). length l \<le> MaxLineBytes)
     \<and> length (records (input_lines s)) \<le> MaxRecords"

lemma text_hit_records:
  assumes "\<forall>l\<in>set (input_lines s). line_ok l"
  shows "text_hit option s \<longleftrightarrow> option \<in> fst ` set (records (input_lines s))"
proof -
  have "line_hit option l \<longleftrightarrow> option \<in> fst ` set (record_of l)" if "line_ok l" for l
    using not_hit [of l option] line_hit_key [OF that, of _ _ option]
    by (cases "record_key l") (auto simp: record_of_def)
  then have "line_hit option l \<longleftrightarrow> option \<in> fst ` set (record_of l)" if "l \<in> set (input_lines s)" for l
    using that assms by blast
  then show ?thesis unfolding text_hit_def records_def by (auto simp: image_iff; metis fst_conv)
qed

lemma records_edit:
  assumes "\<forall>l\<in>set ls. line_ok l" "writable v" "\<forall>l\<in>set ls. length (edit_line option v l) \<le> MaxLineBytes"
  shows "records (map (edit_line option v) ls) = map (set_value option v) (records ls)
    \<and> (\<forall>l\<in>set (map (edit_line option v) ls). line_ok l)"
  using assms edited_record by (induction ls) auto

lemma new_record:
  assumes "option_name option" "writable v" "length (option @ [TAB] @ v) \<le> MaxLineBytes"
  shows "line_ok (option @ [TAB] @ v) \<and> record_of (option @ [TAB] @ v) = [(option, v)]"
proof -
  have o': "option \<noteq> []" "\<forall>c\<in>set option. \<not> IsSeparator c \<and> c \<noteq> CHR ''#'' \<and> c \<noteq> NUL"
    using assms(1) option_char_plain by (auto simp: option_name_def)
  have tab: "IsSeparator TAB" by (simp add: IsSeparator_def)
  have body: "dropWhile IsSeparator (option @ TAB # v) = option @ TAB # v"
    using o' tab by (cases option) auto
  have key: "takeWhile (\<lambda>c. \<not> IsSeparator c \<and> c \<noteq> CHR ''#'') (option @ TAB # v) = option"
    "dropWhile (\<lambda>c. \<not> IsSeparator c \<and> c \<noteq> CHR ''#'') (option @ TAB # v) = TAB # v"
    using o' tab by (simp_all add: dropWhile_append2)
  have rest: "dropWhile IsSeparator (TAB # v) = v" using tab writable_hd [OF assms(2)] by (cases v) auto
  have rk: "record_key (option @ TAB # v) = Some (option, v)"
    unfolding record_key_def Let_def body key rest using o' by simp
  have "CHR ''#'' \<notin> set v" using assms(2) unfolding writable_def by blast
  then have strip: "StripComment v = v" using StripComment_unique [of v "[]"] by simp
  have "TrimWhiteSpaces v = v" using trim_written [OF assms(2), of "[]"] by simp
  then show ?thesis
    using assms(2,3) o'(2) by (auto simp: line_ok_def record_of_def rk strip writable_def)
qed

lemma replaced_records:
  assumes parse: "LoginDefs_Parse contents src = Inr doc" and "option_name option" "writable v"
    and fit: "fits (ReplaceEffectiveLoginDefsValue contents option v)"
  defines "rs \<equiv> records (input_lines contents)"
  defines "text \<equiv> ReplaceEffectiveLoginDefsValue contents option v"
  shows "(\<forall>l\<in>set (input_lines text). line_ok l)
    \<and> records (input_lines text) = (if option \<in> fst ` set rs then map (set_value option v) rs else rs @ [(option, v)])"
proof (cases "text_hit option contents")
  case True
  have ok: "\<forall>l\<in>set (input_lines contents). line_ok l" using parse by (simp add: LoginDefs_Parse_iff)
  have t: "input_lines text = map (edit_line option v) (input_lines contents)"
    using True assms(3) writable_NL [OF assms(3)] by (simp add: text_def Replace_edit input_lines_edit writable_def)
  then have "\<forall>l\<in>set (input_lines contents). length (edit_line option v l) \<le> MaxLineBytes"
    using fit by (simp add: fits_def flip: text_def)
  from records_edit [OF ok assms(3) this] show ?thesis
    using True text_hit_records [OF ok, of option] by (simp only: t rs_def if_True) blast
next
  case False
  have ok: "\<forall>l\<in>set (input_lines contents). line_ok l" using parse by (simp add: LoginDefs_Parse_iff)
  let ?base = "if contents \<noteq> [] \<and> last contents \<noteq> NL then contents @ [NL] else contents"
  let ?line = "option @ [TAB] @ v"
  have base: "?base = [] \<or> last ?base = NL" "input_lines ?base = input_lines contents"
    using input_lines_append(2) [of contents] by auto
  have nl: "NL \<notin> set ?line"
    using assms(2) option_char_plain writable_NL [OF assms(3)] by (auto simp: option_name_def)
  have "text = ?base @ (?line @ [NL])" using False by (simp add: text_def Replace_edit)
  then have t: "input_lines text = input_lines contents @ [?line]"
    using input_lines_append(1) [OF base(1), of "?line @ [NL]"] input_lines_Cons [OF nl, of "[]"] base(2)
    by (simp add: input_lines_simps(1))
  then have "length ?line \<le> MaxLineBytes" using fit by (simp add: fits_def flip: text_def)
  from new_record [OF assms(2,3) this] show ?thesis
    using False ok text_hit_records [OF ok, of option] by (simp add: t rs_def records_def)
qed

lemma set_value_sel [simp]: "fst (set_value option v kt) = fst kt"
    "snd (set_value option v kt) = (if fst kt = option then v else snd kt)"
  by (simp_all add: set_value_def)

lemma set_value_in: "(key, t) \<in> set_value option v ` S \<longleftrightarrow>
    (if key = option then t = v \<and> option \<in> fst ` S else (key, t) \<in> S)"
  by (cases "key = option") (force simp: set_value_def image_iff)+

lemma agrees_replaced:
  assumes "rs' = (if option \<in> fst ` set rs then map (set_value option v) rs else rs @ [(option, v)])"
  shows "key \<noteq> option \<Longrightarrow> agrees p key f rs \<Longrightarrow> agrees p key f rs'"
    and "p v = Inr n \<Longrightarrow> agrees p option (Some n) rs'"
proof -
  show "agrees p key f rs'" if k: "key \<noteq> option" and ag: "agrees p key f rs"
  proof (cases "option \<in> fst ` set rs")
    case True
    then have "rs' = map (set_value option v) rs" using assms by simp
    then show ?thesis using ag k by (simp add: agrees_def set_value_in image_image split: option.splits)
  next
    case False
    then have "rs' = rs @ [(option, v)]" using assms by simp
    then show ?thesis using ag k by (auto simp: agrees_def split: option.splits)
  qed
  show "agrees p option (Some n) rs'" if n: "p v = Inr n"
  proof (cases "option \<in> fst ` set rs")
    case True
    then have "rs' = map (set_value option v) rs" using assms by simp
    then show ?thesis using True n by (simp add: agrees_def set_value_in image_image)
  next
    case False
    then have "rs' = rs @ [(option, v)]" using assms by simp
    then show ?thesis using False n by (force simp: agrees_def)
  qed
qed

lemma document_replaced:
  assumes r: "rs' = (if option \<in> fst ` set rs then map (set_value option v) rs else rs @ [(option, v)])"
    and ag: "document_agrees rs doc"
  shows "option = ''PASS_MAX_DAYS'' \<Longrightarrow> TryStringToInt v 10 = Inr n \<Longrightarrow> document_agrees rs' (doc\<lparr>ld_passMaxDays := Some n\<rparr>)"
    and "option = ''PASS_MIN_DAYS'' \<Longrightarrow> TryStringToInt v 10 = Inr n \<Longrightarrow> document_agrees rs' (doc\<lparr>ld_passMinDays := Some n\<rparr>)"
    and "option = ''PASS_WARN_AGE'' \<Longrightarrow> TryStringToInt v 10 = Inr n \<Longrightarrow> document_agrees rs' (doc\<lparr>ld_passWarnAge := Some n\<rparr>)"
    and "option = ''ENCRYPT_METHOD'' \<Longrightarrow> LoginDefs_ParseEncryptionMethod v = Inr m \<Longrightarrow>
      document_agrees rs' (doc\<lparr>ld_encryptMethod := Some m\<rparr>)"
proof -
  note other = agrees_replaced(1) [OF r] and own = agrees_replaced(2) [OF r]
  note D = document_agreesD [OF ag]
  show "document_agrees rs' (doc\<lparr>ld_passMaxDays := Some n\<rparr>)" if "option = ''PASS_MAX_DAYS''" "TryStringToInt v 10 = Inr n"
    unfolding document_agrees_def using own [of "\<lambda>v. TryStringToInt v 10" n] other [OF _ D(1)] other [OF _ D(3)]
      other [OF _ D(4)] other [OF _ D(5)] that by simp
  show "document_agrees rs' (doc\<lparr>ld_passMinDays := Some n\<rparr>)" if "option = ''PASS_MIN_DAYS''" "TryStringToInt v 10 = Inr n"
    unfolding document_agrees_def using own [of "\<lambda>v. TryStringToInt v 10" n] other [OF _ D(1)] other [OF _ D(2)]
      other [OF _ D(4)] other [OF _ D(5)] that by simp
  show "document_agrees rs' (doc\<lparr>ld_passWarnAge := Some n\<rparr>)" if "option = ''PASS_WARN_AGE''" "TryStringToInt v 10 = Inr n"
    unfolding document_agrees_def using own [of "\<lambda>v. TryStringToInt v 10" n] other [OF _ D(1)] other [OF _ D(2)]
      other [OF _ D(3)] other [OF _ D(5)] that by simp
  show "document_agrees rs' (doc\<lparr>ld_encryptMethod := Some m\<rparr>)"
    if "option = ''ENCRYPT_METHOD''" "LoginDefs_ParseEncryptionMethod v = Inr m"
    unfolding document_agrees_def using own [of LoginDefs_ParseEncryptionMethod m] other [OF _ D(1)] other [OF _ D(2)]
      other [OF _ D(3)] other [OF _ D(4)] that by simp
qed

text \<open>The field of an option, and a document with another value in it.\<close>

definition numeric_update :: "string \<Rightarrow> int \<Rightarrow> login_document \<Rightarrow> login_document" where
  "numeric_update option n doc =
     (if option = ''PASS_MAX_DAYS'' then doc\<lparr>ld_passMaxDays := Some n\<rparr>
      else if option = ''PASS_MIN_DAYS'' then doc\<lparr>ld_passMinDays := Some n\<rparr>
      else doc\<lparr>ld_passWarnAge := Some n\<rparr>)"

lemma aging_option_name: "IsPasswordAgingOption option \<Longrightarrow> option_name option"
  by (auto simp: IsPasswordAgingOption_def option_name_def option_char_def isalnum_def isalpha_def isupper_def)

text \<open>An edited file is read back with the new value in the place of the old ones and everything else
  as it was.\<close>

lemma parse_replaced:
  assumes parse: "LoginDefs_Parse contents src = Inr doc" and "writable v"
    and fit: "fits (ReplaceEffectiveLoginDefsValue contents option v)"
  shows "IsPasswordAgingOption option \<Longrightarrow> TryStringToInt v 10 = Inr n \<Longrightarrow>
      LoginDefs_Parse (ReplaceEffectiveLoginDefsValue contents option v) src = Inr (numeric_update option n doc)"
    and "option = ''ENCRYPT_METHOD'' \<Longrightarrow> LoginDefs_ParseEncryptionMethod v = Inr m \<Longrightarrow>
      LoginDefs_Parse (ReplaceEffectiveLoginDefsValue contents option v) src = Inr (doc\<lparr>ld_encryptMethod := Some m\<rparr>)"
proof -
  let ?text = "ReplaceEffectiveLoginDefsValue contents option v"
  have doc: "document_agrees (records (input_lines contents)) doc" "ld_source doc = src"
    using parse by (simp_all add: LoginDefs_Parse_iff)
  have lim: "length ?text \<le> MaxBytes" "length (records (input_lines ?text)) \<le> MaxRecords"
    using fit by (simp_all add: fits_def)
  {
    assume o': "IsPasswordAgingOption option" and n: "TryStringToInt v 10 = Inr n"
    note r = replaced_records [OF parse aging_option_name [OF o'] assms(2) fit]
    have "document_agrees (records (input_lines ?text)) (numeric_update option n doc)"
      using o' document_replaced(1-3) [OF r [THEN conjunct2] doc(1) _ n]
      by (auto simp only: IsPasswordAgingOption_def numeric_update_def split: if_split)
    moreover have "ld_source (numeric_update option n doc) = src" using doc(2) by (simp add: numeric_update_def)
    ultimately show "LoginDefs_Parse ?text src = Inr (numeric_update option n doc)"
      using r lim by (simp add: LoginDefs_Parse_iff)
  }
  assume o': "option = ''ENCRYPT_METHOD''" and m: "LoginDefs_ParseEncryptionMethod v = Inr m"
  have "option_name option"
    by (simp add: o' option_name_def option_char_def isalnum_def isalpha_def isupper_def)
  note r = replaced_records [OF parse this assms(2) fit]
  from document_replaced(4) [OF r [THEN conjunct2] doc(1) o' m]
  have "document_agrees (records (input_lines ?text)) (doc\<lparr>ld_encryptMethod := Some m\<rparr>)" .
  then show "LoginDefs_Parse ?text src = Inr (doc\<lparr>ld_encryptMethod := Some m\<rparr>)"
    using r lim doc(2) by (simp add: LoginDefs_Parse_iff)
qed

section \<open>The remediation as a transaction\<close>

text \<open>The audit of the file as it is.\<close>

definition login_defs_audit :: "('w, 'm) procedure_context_scheme \<Rightarrow> login_defs_params \<Rightarrow> 'w \<Rightarrow> status result" where
  "login_defs_audit ctx p w = fst (AuditLoginDefsOption ctx p IndicatorsTree_init w)"

lemma AuditLoginDefsOption_outcome: "\<exists>it'. AuditLoginDefsOption ctx p it w = (login_defs_audit ctx p w, it', w)"
proof -
  have "fst (AuditLoginDefsOption ctx p it w) = login_defs_audit ctx p w" "snd (snd (AuditLoginDefsOption ctx p it w)) = w" for it
    by (auto simp: login_defs_audit_def AuditLoginDefsOption_def reads_def split: sum.split prod.split)
  then show ?thesis by (cases "AuditLoginDefsOption ctx p it w") (metis fst_conv snd_conv)
qed

lemma audit_result_known:
  assumes "IsPasswordAgingOption (lo_option p) \<or> lo_option p = ''ENCRYPT_METHOD''"
    and "ctx_GetFileContents ctx (login_defs_path ctx) w = Inr c"
  shows "login_defs_audit ctx p w = and_then (judge_contents p (login_defs_path ctx) c) (\<lambda>sm. Inr (fst sm))"
  using assms
  by (cases "judge_contents p (login_defs_path ctx) c")
    (auto simp: login_defs_audit_def AuditLoginDefsOption_def reads_def split: prod.split)

lemma to_string_int_writable: "writable (to_string_int i)"
proof -
  have d: "\<not> isspace (digit_char d) \<and> digit_char d \<noteq> CHR ''#'' \<and> digit_char d \<noteq> NUL" if "d < 10" for d
  proof -
    have "byte (digit_char d) = 48 + d" using that by (simp add: digit_char_def)
    moreover have "byte (CHR ''#'') = 35" "byte NUL = 0" by simp_all
    ultimately have "digit_char d \<noteq> CHR ''#''" "digit_char d \<noteq> NUL" by fastforce+
    then show ?thesis using isspace_digit_char [OF that] by blast
  qed
  have n: "to_string_nat k \<noteq> []" "\<forall>c\<in>set (to_string_nat k). \<not> isspace c \<and> c \<noteq> CHR ''#'' \<and> c \<noteq> NUL" for k
  proof -
    obtain ds where ds: "ds \<noteq> []" "\<forall>d\<in>set ds. d < 10" "to_string_nat k = map digit_char ds"
      using to_string_nat_digits [of k] by blast
    show "to_string_nat k \<noteq> []" using ds(1,3) by simp
    show "\<forall>c\<in>set (to_string_nat k). \<not> isspace c \<and> c \<noteq> CHR ''#'' \<and> c \<noteq> NUL"
    proof
      fix c
      assume "c \<in> set (to_string_nat k)"
      then obtain x where x: "c = digit_char x" "x \<in> set ds" unfolding ds(3) set_map by (elim imageE)
      then have "x < 10" using ds(2) by simp
      from d [OF this] show "\<not> isspace c \<and> c \<noteq> CHR ''#'' \<and> c \<noteq> NUL" unfolding x(1) .
    qed
  qed
  have minus: "\<not> isspace (CHR ''-'')" by (simp add: isspace_def)
  show ?thesis
  proof (cases "i < 0")
    case True
    then show ?thesis using n [of "nat (- i)"] minus by (simp add: writable_def to_string_int_def)
  next
    case False
    then show ?thesis using n [of "nat i"] by (simp add: writable_def to_string_int_def)
  qed
qed

lemma remediation_value_writable:
  assumes "GetRemediationValue p = Inr v" "\<forall>c\<in>set (lo_value p). \<not> isspace c \<and> c \<noteq> CHR ''#'' \<and> c \<noteq> NUL"
  shows "writable v" "option_name (lo_option p)"
  using assms to_string_int_writable
  by (auto simp: GetRemediationValue_def option_name_def writable_def split: if_splits sum.splits)

text \<open>The interface of file replacement: a success is read back, a failure leaves the file as it was. What
  is read is a C string.\<close>

locale atomic_files =
  fixes ctx :: "('w, 'm) edit_context_scheme" and sane :: "'w \<Rightarrow> bool"
  assumes replaced: "sane w \<Longrightarrow> ctx_ReplaceFileContentsAtomic ctx path c w = (Inr b, w') \<Longrightarrow> NUL \<notin> set c
      \<Longrightarrow> ctx_GetFileContents ctx path w' = Inr c"
    and kept: "sane w \<Longrightarrow> ctx_ReplaceFileContentsAtomic ctx path c w = (Inl e, w')
      \<Longrightarrow> ctx_GetFileContents ctx path w' = ctx_GetFileContents ctx path w"
    and preserved: "sane w \<Longrightarrow> ctx_ReplaceFileContentsAtomic ctx path c w = (r, w') \<Longrightarrow> sane w'"
    and clean: "ctx_GetFileContents ctx path w = Inr c \<Longrightarrow> NUL \<notin> set c"
begin

lemma edited_clean:
  assumes "NUL \<notin> set c" "writable v" "option_name option"
  shows "NUL \<notin> set (ReplaceEffectiveLoginDefsValue c option v)"
proof -
  have v: "NUL \<notin> set v" using assms(2) unfolding writable_def by blast
  have o': "NUL \<notin> set option" using assms(3) option_char_plain unfolding option_name_def by blast
  have line: "NUL \<notin> set (edit_line option v l)" if "NUL \<notin> set l" for l
    using that v by (auto simp: edit_line_def value_tail_def dest: in_set_takeD in_set_dropD set_dropWhileD)
  have "NUL \<notin> set (edit_text option v s)" if "NUL \<notin> set s" "NUL \<notin> set v" for s
    using that(1)
  proof (induction s rule: length_induct)
    case (1 s)
    show ?case
    proof (cases "find_char NL s")
      case None
      then show ?thesis using line [OF 1(2)] by (simp add: edit_text.simps [of option v s])
    next
      case (Some k)
      then have "k < length s" by (rule find_char_bound)
      then have "length (drop (k + 1) s) < length s" by simp
      moreover have "NUL \<notin> set (take k s)" "NUL \<notin> set (drop (k + 1) s)"
        using 1(2) by (auto dest: in_set_takeD in_set_dropD)
      ultimately show ?thesis using 1(1) line Some by (simp add: edit_text.simps [of option v s])
    qed
  qed
  then show ?thesis using assms(1) v o' by (auto simp: Replace_edit)
qed

text \<open>Whatever happens, the file is the one it was or the edited one; the edited one stays only behind a
  compliant result or a rollback that failed.\<close>

lemma transaction:
  assumes sane: "sane w" and run: "RemediateLoginDefsOption ctx p it w = (r, it', w')"
    and c: "ctx_GetFileContents ctx (login_defs_path ctx) w = Inr c"
    and plain: "\<forall>x\<in>set (lo_value p). \<not> isspace x \<and> x \<noteq> CHR ''#'' \<and> x \<noteq> NUL"
  shows "ctx_GetFileContents ctx (login_defs_path ctx) w' = Inr c \<or>
    (\<exists>v. GetRemediationValue p = Inr v
       \<and> ctx_GetFileContents ctx (login_defs_path ctx) w' = Inr (ReplaceEffectiveLoginDefsValue c (lo_option p) v)
       \<and> (r = Inr Compliant \<or> (\<exists>e a b. r = Inl e \<and> err_message e = a @ ''; rollback failed: '' @ b)))"
proof (cases "GetRemediationValue p")
  case (Inl e)
  then show ?thesis using run c by (simp add: RemediateLoginDefsOption_def fails_def)
next
  case (Inr v)
  let ?path = "login_defs_path ctx" and ?new = "ReplaceEffectiveLoginDefsValue c (lo_option p) v"
  obtain it1 where a1: "AuditLoginDefsOption ctx p it w = (login_defs_audit ctx p w, it1, w)"
    using AuditLoginDefsOption_outcome [of ctx p it w] by (elim exE)
  show ?thesis
  proof (cases "\<not> has_value (login_defs_audit ctx p w) \<or> login_defs_audit ctx p w = Inr Compliant \<or> ?new = c")
    case True
    then show ?thesis using run c
      by (auto simp: RemediateLoginDefsOption_def Inr invokes_def a1 returns_result_def reads_def fails_def Let_def split: if_splits)
  next
    case False
    obtain r1 w1 where rep: "ctx_ReplaceFileContentsAtomic ctx ?path ?new w = (r1, w1)" by fastforce
    show ?thesis
    proof (cases r1)
      case (Inl e)
      then show ?thesis using run c rep False kept [OF sane, of ?path ?new e w1]
        by (auto simp: RemediateLoginDefsOption_def \<open>GetRemediationValue p = Inr v\<close> invokes_def a1 reads_def fails_def
            Let_def does_def)
    next
      case (Inr b)
      obtain it2 where a2: "AuditLoginDefsOption ctx p it1 w1 = (login_defs_audit ctx p w1, it2, w1)"
        using AuditLoginDefsOption_outcome [of ctx p it1 w1] by (elim exE)
      have new: "ctx_GetFileContents ctx ?path w1 = Inr ?new"
        using replaced [OF sane rep [unfolded Inr]] edited_clean [OF clean [OF c]]
          remediation_value_writable [OF \<open>GetRemediationValue p = Inr v\<close> plain] by blast
      obtain r2 w2 where rb: "ctx_ReplaceFileContentsAtomic ctx ?path c w1 = (r2, w2)" by fastforce
      have res: "(r, it', w') = (if login_defs_audit ctx p w1 = Inr Compliant then (Inr Compliant, it2, w1)
          else case r2 of
            Inl e \<Rightarrow> (Inl (Error ((case login_defs_audit ctx p w1 of
                Inr _ \<Rightarrow> ''login.defs remained noncompliant'' | Inl e' \<Rightarrow> err_message e')
              @ ''; rollback failed: '' @ err_message e) (err_code e)), it2, w2)
          | Inr _ \<Rightarrow> (login_defs_audit ctx p w1, it2, w2))"
        using run c rep False Inr
        by (cases r2) (auto simp: RemediateLoginDefsOption_def \<open>GetRemediationValue p = Inr v\<close> invokes_def a1 a2 reads_def
            fails_def returns_result_def Let_def does_def rb)
      show ?thesis
      proof (cases "login_defs_audit ctx p w1 = Inr Compliant")
        case True
        then show ?thesis using res new \<open>GetRemediationValue p = Inr v\<close> by simp
      next
        case False
        show ?thesis
        proof (cases r2)
          case (Inl e)
          then have "ctx_GetFileContents ctx ?path w' = Inr ?new"
            using res False kept [OF preserved [OF sane rep] rb [unfolded Inl]] new by simp
          moreover have "\<exists>e a b. r = Inl e \<and> err_message e = a @ ''; rollback failed: '' @ b"
            using res False Inl by auto
          ultimately show ?thesis using \<open>GetRemediationValue p = Inr v\<close> by blast
        next
          case (Inr b')
          then show ?thesis using res False replaced [OF preserved [OF sane rep] rb [unfolded Inr] clean [OF c]] by simp
        qed
      qed
    qed
  qed
qed

end

section \<open>A remediation that can succeed does\<close>

text \<open>The value written satisfies the comparison with the target.\<close>

lemma numeric_value:
  assumes "GetRemediationValue p = Inr v" "TryStringToInt (lo_value p) 10 = Inr target"
  obtains n where "TryStringToInt v 10 = Inr n" "NumericComparison n target (lo_comparison p) = Inr True"
proof (cases "lo_comparison p \<in> {CmpEqual, CmpLessOrEqual, CmpGreaterOrEqual}")
  case True
  then have "v = lo_value p" using assms(1) by (auto simp: GetRemediationValue_def split: if_splits)
  moreover have "NumericComparison target target (lo_comparison p) = Inr True"
    using True by (auto simp: NumericComparison_def)
  ultimately show thesis using that assms(2) by blast
next
  case False
  have b: "INT_MIN \<le> target" "target \<le> INT_MAX" using TryStringToInt_bounds [OF assms(2)] by auto
  consider "lo_comparison p = CmpLessThan" "target \<noteq> INT_MIN" "v = to_string_int (target - 1)"
    | "lo_comparison p = CmpGreaterThan" "target \<noteq> INT_MAX" "v = to_string_int (target + 1)"
    using assms False by (auto simp: GetRemediationValue_def split: if_splits)
  then show thesis
  proof cases
    case 1
    then have "TryStringToInt v 10 = Inr (target - 1)" using b by (simp add: TryStringToInt_to_string_int)
    then show thesis using that 1(1) by (simp add: NumericComparison_def)
  next
    case 2
    then have "TryStringToInt v 10 = Inr (target + 1)" using b by (simp add: TryStringToInt_to_string_int)
    then show thesis using that 2(1) by (simp add: NumericComparison_def)
  qed
qed

lemma numeric_update_option: "IsPasswordAgingOption option \<Longrightarrow> NumericOption (numeric_update option n doc) option = Some n"
  by (auto simp: IsPasswordAgingOption_def NumericOption_def numeric_update_def)

text \<open>After the edit the file is judged compliant.\<close>

lemma edited_compliant:
  assumes judged: "judge_contents p path c = Inr (NonCompliant, msg)"
    and option: "IsPasswordAgingOption (lo_option p) \<or> lo_option p = ''ENCRYPT_METHOD'' \<and> lo_comparison p = CmpEqual"
    and v: "GetRemediationValue p = Inr v" "writable v"
    and fit: "fits (ReplaceEffectiveLoginDefsValue c (lo_option p) v)"
  shows "\<exists>msg'. judge_contents p path (ReplaceEffectiveLoginDefsValue c (lo_option p) v) = Inr (Compliant, msg')"
proof (cases "IsPasswordAgingOption (lo_option p)")
  case True
  then obtain target doc where t: "TryStringToInt (lo_value p) 10 = Inr target" and doc: "LoginDefs_Parse c path = Inr doc"
    using judged by (auto simp: judge_contents_def result_simps split: sum.splits)
  obtain n where n: "TryStringToInt v 10 = Inr n" "NumericComparison n target (lo_comparison p) = Inr True"
    by (rule numeric_value [OF v(1) t])
  show ?thesis
    using parse_replaced(1) [OF doc v(2) fit True n(1)] True t n(2)
    by (simp add: judge_contents_def numeric_update_option verdict_of_def)
next
  case False
  then have e: "lo_option p = ''ENCRYPT_METHOD''" "lo_comparison p = CmpEqual" using option by auto
  obtain target doc where t: "LoginDefs_ParseEncryptionMethod (lo_value p) = Inr target" and doc: "LoginDefs_Parse c path = Inr doc"
    using judged False by (auto simp: judge_contents_def result_simps split: sum.splits)
  have "v = lo_value p" using v(1) e(2) by (auto simp: GetRemediationValue_def split: if_splits)
  then show ?thesis
    using parse_replaced(2) [OF doc v(2) fit e(1)] False t e(2)
    by (simp add: judge_contents_def EncryptionComparison_def verdict_of_def)
qed

context atomic_files
begin

lemma remediation_succeeds:
  assumes sane: "sane w" and c: "ctx_GetFileContents ctx (login_defs_path ctx) w = Inr c"
    and audit: "login_defs_audit ctx p w = Inr NonCompliant"
    and option: "IsPasswordAgingOption (lo_option p) \<or> lo_option p = ''ENCRYPT_METHOD'' \<and> lo_comparison p = CmpEqual"
    and v: "GetRemediationValue p = Inr v" "\<forall>x\<in>set (lo_value p). \<not> isspace x \<and> x \<noteq> CHR ''#'' \<and> x \<noteq> NUL"
    and fit: "fits (ReplaceEffectiveLoginDefsValue c (lo_option p) v)"
    and rep: "ctx_ReplaceFileContentsAtomic ctx (login_defs_path ctx) (ReplaceEffectiveLoginDefsValue c (lo_option p) v) w
      = (Inr b, w1)"
  shows "\<exists>it'. RemediateLoginDefsOption ctx p it w = (Inr Compliant, it', w1)"
    "login_defs_audit ctx p w1 = Inr Compliant"
    "ctx_GetFileContents ctx (login_defs_path ctx) w1 = Inr (ReplaceEffectiveLoginDefsValue c (lo_option p) v)"
proof -
  let ?new = "ReplaceEffectiveLoginDefsValue c (lo_option p) v"
  note wr = remediation_value_writable [OF v]
  have known: "IsPasswordAgingOption (lo_option p) \<or> lo_option p = ''ENCRYPT_METHOD''" using option by blast
  obtain msg where judged: "judge_contents p (login_defs_path ctx) c = Inr (NonCompliant, msg)"
    using audit audit_result_known [OF known c] by (auto simp: result_simps)
  obtain msg' where after': "judge_contents p (login_defs_path ctx) ?new = Inr (Compliant, msg')"
    using edited_compliant [OF judged option v(1) wr(1) fit] by blast
  show new: "ctx_GetFileContents ctx (login_defs_path ctx) w1 = Inr ?new"
    using replaced [OF sane rep] edited_clean [OF clean [OF c] wr] by blast
  show post: "login_defs_audit ctx p w1 = Inr Compliant"
    using audit_result_known [OF known new] after' by simp
  have ne: "?new \<noteq> c" using judged after' by auto
  obtain it1 where a1: "AuditLoginDefsOption ctx p it w = (login_defs_audit ctx p w, it1, w)"
    using AuditLoginDefsOption_outcome [of ctx p it w] by (elim exE)
  obtain it2 where a2: "AuditLoginDefsOption ctx p it1 w1 = (login_defs_audit ctx p w1, it2, w1)"
    using AuditLoginDefsOption_outcome [of ctx p it1 w1] by (elim exE)
  show "\<exists>it'. RemediateLoginDefsOption ctx p it w = (Inr Compliant, it', w1)"
    using ne by (simp add: RemediateLoginDefsOption_def v(1) invokes_def a1 a2 audit post reads_def c Let_def does_def rep
        returns_result_def)
qed

end

section \<open>The contract of a procedure\<close>

interpretation audit_login_defs: procedure_contract "AuditLoginDefsOption ctx p" for ctx p
  unfolding AuditLoginDefsOption_def by (intro contract_intros)

end
