(* ===== verification/FileContents.thy ===== *)
theory FileContents
  imports FileAccess Json
begin

text \<open>
  The contents of files: the rest of \<open>src/common/commonutils/FileUtils.c\<close>, and \<open>GetFileContents\<close> of
  \<open>src/lib/CommonContext.cpp\<close>. The state maps the names of files to their bytes; which calls of the C
  library fail is a parameter. The counter of \<open>LoadStringFromFile\<close> is an \<open>int\<close>: files of two
  gigabytes are outside the model. Shown: the buffer grows before it is written past its end, and what is loaded
  is the file up to its first NUL; an append keeps what was there and puts the payload on a line of its own.
\<close>

section \<open>Loading\<close>

record file_io_calls =
  io_open :: "string \<Rightarrow> bool"
  io_lock :: bool
  io_malloc :: bool
  io_realloc :: "nat \<Rightarrow> bool"
  io_seek :: bool
  io_stat :: "string \<Rightarrow> bool"
  io_fwrite :: "string \<Rightarrow> string \<Rightarrow> nat"

type_synonym file_bytes = "string \<rightharpoonup> string"

definition initialSize :: nat where "initialSize = 1024"

text \<open>The loop: the buffer, the next index, and what the stream still has.\<close>

fun load_loop :: "(nat \<Rightarrow> bool) \<Rightarrow> bool \<Rightarrow> string \<Rightarrow> nat \<Rightarrow> string \<Rightarrow> string option" where
  "load_loop grows stopAtEol buffer i [] = Some (buffer[i := NUL])"
| "load_loop grows stopAtEol buffer i (c # rest) =
     (if stopAtEol \<and> c = NL then Some (buffer[i := NUL])
      else
        let buffer = buffer[i := c]; i = i + 1
        in if length buffer \<le> i
           then (if grows (length buffer + initialSize)
                 then load_loop grows stopAtEol (buffer @ replicate initialSize NUL) i rest
                 else None)
           else load_loop grows stopAtEol buffer i rest)"

definition ContentExists :: "file_bytes \<Rightarrow> string option \<Rightarrow> bool" where
  "ContentExists fs name = (case name of None \<Rightarrow> False | Some n \<Rightarrow> fs n \<noteq> None)"

definition LoadStringFromFile :: "file_io_calls \<Rightarrow> string option \<Rightarrow> bool \<Rightarrow> file_bytes \<Rightarrow> string option" where
  "LoadStringFromFile calls name stopAtEol fs =
     (if \<not> ContentExists fs name then None
      else if io_open calls (the name) \<and> io_lock calls \<and> io_malloc calls
      then load_loop (io_realloc calls) stopAtEol (replicate initialSize NUL) 0 (the (fs (the name)))
      else None)"

text \<open>\<open>CommonContext::GetFileContents\<close>: \<open>file\<close> is the error number of \<open>stat\<close>, or the bytes.\<close>

definition GetFileContents :: "file_io_calls \<Rightarrow> (int \<Rightarrow> string) \<Rightarrow> string \<Rightarrow> int + string \<Rightarrow> string result" where
  "GetFileContents calls strerror filePath file =
     (case file of
        Inl status \<Rightarrow>
          if status = ENOENT then Inl (Error (''File not found: '' @ filePath) status)
          else Inl (Error (''Failed to stat file: '' @ strerror status) status)
      | Inr bytes \<Rightarrow>
          (case LoadStringFromFile calls (Some filePath) False [filePath \<mapsto> bytes] of
             None \<Rightarrow> Inl (Error ''Failed to load file contents'' (-1))
           | Some output \<Rightarrow> Inr (c_str output)))"

section \<open>Saving and appending\<close>

text \<open>\<open>fwrite\<close> tells how many bytes it wrote; an open for writing creates the file. What \<open>fclose\<close>
  says is ignored.\<close>

datatype open_mode = ModeWrite | ModeAppend

definition SaveToFile :: "file_io_calls \<Rightarrow> string option \<Rightarrow> open_mode \<Rightarrow> string option \<Rightarrow> int \<Rightarrow> file_bytes \<Rightarrow> bool \<times> file_bytes" where
  "SaveToFile calls fileName mode payload payloadSizeBytes fs =
     (case (fileName, payload) of
        (Some name, Some bytes) \<Rightarrow>
          if payloadSizeBytes \<le> 0 then (False, fs)
          else if io_open calls name then
            let old = (case mode of ModeWrite \<Rightarrow> [] | ModeAppend \<Rightarrow> (case fs name of None \<Rightarrow> [] | Some b \<Rightarrow> b));
                data = take (nat payloadSizeBytes) bytes;
                n = min (length data) (io_fwrite calls name data)
            in (n = nat payloadSizeBytes, fs(name \<mapsto> old @ take n data))
          else (False, fs)
      | _ \<Rightarrow> (False, fs))"

definition FileEndsInEol :: "file_io_calls \<Rightarrow> string option \<Rightarrow> file_bytes \<Rightarrow> bool" where
  "FileEndsInEol calls fileName fs =
     (case fileName of
        None \<Rightarrow> False
      | Some name \<Rightarrow>
          (case fs name of
             None \<Rightarrow> False
           | Some bytes \<Rightarrow>
               io_stat calls name \<and> 0 < length bytes \<and> io_open calls name \<and> io_seek calls \<and> last bytes = NL))"

definition AppendPayloadToFile :: "file_io_calls \<Rightarrow> string option \<Rightarrow> string option \<Rightarrow> int \<Rightarrow> file_bytes \<Rightarrow> bool \<times> file_bytes" where
  "AppendPayloadToFile calls fileName payload payloadSizeBytes fs =
     (if fileName = None \<or> payload = None \<or> payloadSizeBytes \<le> 0 then (False, fs)
      else
        let fs = (if ContentExists fs fileName \<and> \<not> FileEndsInEol calls fileName fs
                  then snd (SaveToFile calls fileName ModeAppend (Some [NL]) 1 fs) else fs)
        in SaveToFile calls fileName ModeAppend payload payloadSizeBytes fs)"

definition GetNumberOfCharacterInstancesInFile :: "file_io_calls \<Rightarrow> string option \<Rightarrow> char \<Rightarrow> file_bytes \<Rightarrow> 32 word" where
  "GetNumberOfCharacterInstancesInFile calls fileName what fs =
     (if ContentExists fs fileName \<and> io_open calls (the fileName)
      then fold (\<lambda>next numberOf. if what = next then numberOf + 1 else numberOf) (the (fs (the fileName))) 0
      else 0)"

definition GetNumberOfLinesInFile :: "file_io_calls \<Rightarrow> string option \<Rightarrow> file_bytes \<Rightarrow> 32 word" where
  "GetNumberOfLinesInFile calls fileName fs = GetNumberOfCharacterInstancesInFile calls fileName NL fs"

definition RestrictFileAccessToCurrentAccountOnly :: "file_calls \<Rightarrow> string option \<Rightarrow> files \<Rightarrow> int \<times> files" where
  "RestrictFileAccessToCurrentAccountOnly calls fileName fs =
     (case fileName of
        None \<Rightarrow> (EINVAL, fs)
      | Some n \<Rightarrow>
          (case fs n of
             None \<Rightarrow> (-1, fs)
           | Some st \<Rightarrow>
               if chmod_errno calls n \<noteq> 0 then (-1, fs)
               else (0, fs(n \<mapsto> st\<lparr>st_mode := set_mode (st_mode st) (0x100 OR 0x80 OR 0x20 OR 0x10)\<rparr>))))"

section \<open>What is loaded\<close>

text \<open>The index is inside the buffer at every step; the result starts with what was read and a NUL.\<close>

lemma load_loop_buffer:
  assumes "i < length buffer" "load_loop grows stop buffer i input = Some b"
  shows "\<exists>after. b = take i buffer @ (if stop then takeWhile (\<lambda>c. c \<noteq> NL) input else input) @ NUL # after"
  using assms
proof (induction input arbitrary: buffer i)
  case Nil
  then have "b = take i buffer @ NUL # drop (Suc i) buffer" by (auto simp: upd_conv_take_nth_drop)
  then show ?case by simp
next
  case (Cons c input)
  have t: "take (Suc i) (buffer[i := c]) = take i buffer @ [c]" "Suc i - length buffer = 0"
    using Cons(2) by (simp_all add: take_Suc_conv_app_nth)
  show ?case
  proof (cases "stop \<and> c = NL")
    case True
    then have "b = take i buffer @ NUL # drop (Suc i) buffer" using Cons(2,3) by (auto simp: upd_conv_take_nth_drop)
    then show ?thesis using True by simp
  next
    case False
    let ?line = "if stop then takeWhile (\<lambda>c. c \<noteq> NL) input else input"
    have "\<exists>ext. load_loop grows stop (buffer[i := c] @ ext) (Suc i) input = Some b \<and> Suc i < length (buffer[i := c] @ ext)"
    proof (cases "length buffer \<le> Suc i")
      case True
      then show ?thesis
        using Cons(2,3) False
        by (intro exI [of _ "replicate initialSize NUL"]) (auto simp: Let_def initialSize_def split: if_splits)
    next
      case small: False
      then show ?thesis using Cons(3) False by (intro exI [of _ "[]"]) (auto simp: Let_def split: if_splits)
    qed
    then obtain ext where "load_loop grows stop (buffer[i := c] @ ext) (Suc i) input = Some b"
      "Suc i < length (buffer[i := c] @ ext)" by blast
    from Cons(1) [OF this(2,1)] show ?thesis using False by (auto simp: t)
  qed
qed

text \<open>With memory there is a result.\<close>

lemma load_loop_returns: "(\<And>n. grows n) \<Longrightarrow> \<exists>b. load_loop grows stop buffer i input = Some b"
  by (induction grows stop buffer i input rule: load_loop.induct) (auto simp: Let_def)

lemma c_str_prefix: "c_str (a @ NUL # b) = c_str a"
  by (induction a) (auto simp: c_str_def)

lemma LoadStringFromFile_contents:
  assumes "LoadStringFromFile calls name stopAtEol fs = Some b"
  obtains n bytes where "name = Some n" "fs n = Some bytes"
    "c_str b = c_str (if stopAtEol then takeWhile (\<lambda>c. c \<noteq> NL) bytes else bytes)"
proof -
  obtain n bytes where n: "name = Some n" "fs n = Some bytes"
    "load_loop (io_realloc calls) stopAtEol (replicate initialSize NUL) 0 bytes = Some b"
    using assms by (auto simp: LoadStringFromFile_def ContentExists_def split: if_splits option.splits)
  from load_loop_buffer [OF _ n(3)] obtain after where
    "b = (if stopAtEol then takeWhile (\<lambda>c. c \<noteq> NL) bytes else bytes) @ NUL # after"
    by (auto simp: initialSize_def)
  then show thesis using that [OF n(1,2)] by (simp add: c_str_prefix)
qed

text \<open>All calls succeed.\<close>

definition working :: "file_io_calls \<Rightarrow> bool" where
  "working calls \<longleftrightarrow> (\<forall>n. io_open calls n) \<and> io_lock calls \<and> io_malloc calls \<and> (\<forall>n. io_realloc calls n) \<and> io_seek calls
     \<and> (\<forall>n. io_stat calls n) \<and> (\<forall>n d. length d \<le> io_fwrite calls n d)"

lemma LoadStringFromFile_works:
  assumes "working calls" "fs n = Some bytes"
  shows "\<exists>b. LoadStringFromFile calls (Some n) stopAtEol fs = Some b
    \<and> c_str b = c_str (if stopAtEol then takeWhile (\<lambda>c. c \<noteq> NL) bytes else bytes)"
proof -
  obtain b where "load_loop (io_realloc calls) stopAtEol (replicate initialSize NUL) 0 bytes = Some b"
    using load_loop_returns [of "io_realloc calls"] assms(1) unfolding working_def by blast
  then have b: "LoadStringFromFile calls (Some n) stopAtEol fs = Some b"
    using assms by (simp add: LoadStringFromFile_def ContentExists_def working_def)
  from b show ?thesis by (rule LoadStringFromFile_contents) (use b assms(2) in auto)
qed

lemma GetFileContents_value:
  "GetFileContents calls strerror path file = Inr c \<Longrightarrow> \<exists>bytes. file = Inr bytes \<and> c = c_str bytes"
  by (auto simp: GetFileContents_def split: sum.splits if_splits option.splits elim!: LoadStringFromFile_contents)

lemma GetFileContents_works: "working calls \<Longrightarrow> GetFileContents calls strerror path (Inr bytes) = Inr (c_str bytes)"
  using LoadStringFromFile_works [of calls "[path \<mapsto> bytes]" path bytes False] by (auto simp: GetFileContents_def)

section \<open>What is appended\<close>

lemma SaveToFile_append:
  assumes "SaveToFile calls (Some name) ModeAppend (Some payload) n fs = (r, fs')"
  shows "\<forall>k. k \<noteq> name \<longrightarrow> fs' k = fs k"
    "fs name = Some b \<Longrightarrow> \<exists>more. fs' name = Some (b @ more)"
    "r \<Longrightarrow> fs' name = Some ((case fs name of None \<Rightarrow> [] | Some b \<Rightarrow> b) @ take (nat n) payload)"
  using assms by (auto simp: SaveToFile_def Let_def min_def split: if_splits)

text \<open>Whatever fails, nothing that was in the file is lost.\<close>

lemma AppendPayloadToFile_keeps:
  assumes "AppendPayloadToFile calls (Some name) payload n fs = (r, fs')" "fs name = Some b"
  shows "\<exists>more. fs' name = Some (b @ more)"
proof -
  let ?fs1 = "if ContentExists fs (Some name) \<and> \<not> FileEndsInEol calls (Some name) fs
                  then snd (SaveToFile calls (Some name) ModeAppend (Some [NL]) 1 fs) else fs"
  have "\<exists>more. ?fs1 name = Some (b @ more)"
    using SaveToFile_append(2) [of calls name "[NL]" 1 fs _ _ b] assms(2) by (cases "SaveToFile calls (Some name) ModeAppend (Some [NL]) 1 fs") auto
  then obtain more where more: "?fs1 name = Some (b @ more)" by blast
  show ?thesis
  proof (cases "payload = None \<or> n \<le> 0")
    case True
    then show ?thesis using assms by (auto simp: AppendPayloadToFile_def)
  next
    case False
    then obtain p where "payload = Some p" by auto
    then have "SaveToFile calls (Some name) ModeAppend (Some p) n ?fs1 = (r, fs')"
      using assms(1) False by (simp add: AppendPayloadToFile_def Let_def)
    from SaveToFile_append(2) [OF this more] show ?thesis by auto
  qed
qed

lemma AppendPayloadToFile_works:
  assumes "working calls" "payload \<noteq> []"
  shows "AppendPayloadToFile calls (Some name) (Some payload) (int (length payload)) fs =
    (True, fs(name \<mapsto> (case fs name of None \<Rightarrow> [] | Some b \<Rightarrow> if b \<noteq> [] \<and> last b = NL then b else b @ [NL]) @ payload))"
proof (cases "fs name")
  case None
  then show ?thesis
    using assms by (simp add: AppendPayloadToFile_def Let_def ContentExists_def SaveToFile_def working_def min_def)
next
  case (Some b)
  then show ?thesis
    using assms by (auto simp: AppendPayloadToFile_def Let_def ContentExists_def SaveToFile_def FileEndsInEol_def working_def min_def)
qed

text \<open>The number of lines, at the width of the counter.\<close>

lemma GetNumberOfLinesInFile_count:
  assumes "fs name = Some bytes" "io_open calls name"
  shows "GetNumberOfLinesInFile calls (Some name) fs = of_nat (count_list bytes NL)"
proof -
  have "fold (\<lambda>next numberOf. if c = next then numberOf + 1 else numberOf) bytes k = (k :: 32 word) + of_nat (count_list bytes c)" for k c
    by (induction bytes arbitrary: k) (auto simp: algebra_simps)
  then show ?thesis using assms by (simp add: GetNumberOfLinesInFile_def GetNumberOfCharacterInstancesInFile_def ContentExists_def)
qed

end
