(* ===== verification/AtomicFile.thy ===== *)
theory AtomicFile
  imports LoginDefsProps InputSecurity FileContents "HOL-Library.AList" "HOL-Library.Multiset"
begin

text \<open>
  \<open>src/lib/AtomicFile.cpp\<close>: the replacement of a file by a temporary file that is renamed over it. The
  machine is the entries of the directories, the inodes, and the open descriptors. Calls that are interrupted
  are repeated, so an answer is that of the call that is not; every other failure is a parameter. Other
  processes may change the entries before the file is opened and before it is inspected again
  (\<open>ac_race\<close>). Shown: the file has the old or the new content, never another; its owner and mode stay; no
  descriptor and no temporary file are left; and the replacement keeps the contract of \<open>LoginDefsOption\<close>.
\<close>

section \<open>The machine\<close>

abbreviation EEXIST :: int where "EEXIST \<equiv> 17"
abbreviation EMLINK :: int where "EMLINK \<equiv> 31"

record inode = file_stat +
  in_nlink :: nat
  in_bytes :: string
  in_xattrs :: "(string \<times> string) list"

text \<open>A descriptor of a directory or of a file.\<close>

datatype handle = DirHandle nat | FileHandle nat

text \<open>An entry is a name in a directory; \<open>d_next\<close> and all numbers above it are free inodes, and
  \<open>d_sequence\<close> is the static counter of \<open>CreateTemporaryFile\<close>.\<close>

record disk =
  d_entries :: "nat \<times> string \<rightharpoonup> nat"
  d_inodes :: "nat \<Rightarrow> inode"
  d_open :: "handle list"
  d_next :: nat
  d_sequence :: nat

datatype call_site = StatOriginal | OpenSource | StatSource | ChownTemp | ChmodTemp | FsyncTemp | CloseSource
  | CloseTemp | StatTemp | StatCurrent | RenameTemp | LinkTemp

record atomic_calls =
  ac_root :: "int + nat"
  ac_opendir :: "nat \<Rightarrow> string \<Rightarrow> int + nat"
  ac_fails :: "call_site \<Rightarrow> int option"
  ac_create :: "nat \<Rightarrow> int option"
  ac_write :: "nat \<Rightarrow> int + nat"
  ac_list_size :: "int + nat"
  ac_list :: "int + string"
  ac_xattr_size :: "string \<Rightarrow> int + nat"
  ac_getxattr :: "string \<Rightarrow> int + string"
  ac_setxattr :: "string \<Rightarrow> int option"
  ac_getpid :: nat
  ac_strerror :: "int \<Rightarrow> string"
  ac_race :: "nat \<Rightarrow> (nat \<times> string \<rightharpoonup> nat) \<Rightarrow> (nat \<times> string \<rightharpoonup> nat)"

definition opened :: "handle \<Rightarrow> disk \<Rightarrow> disk" where
  "opened h s = s\<lparr>d_open := h # d_open s\<rparr>"

definition closed :: "handle \<Rightarrow> disk \<Rightarrow> disk" where
  "closed h s = s\<lparr>d_open := remove1 h (d_open s)\<rparr>"

definition unlink :: "nat \<times> string \<Rightarrow> disk \<Rightarrow> disk" where
  "unlink key s = s\<lparr>d_entries := (d_entries s)(key := None)\<rparr>"

definition update_inode :: "nat \<Rightarrow> (inode \<Rightarrow> inode) \<Rightarrow> disk \<Rightarrow> disk" where
  "update_inode i f s = s\<lparr>d_inodes := (d_inodes s)(i := f (d_inodes s i))\<rparr>"

definition race :: "atomic_calls \<Rightarrow> nat \<Rightarrow> disk \<Rightarrow> disk" where
  "race env n s = s\<lparr>d_entries := ac_race env n (d_entries s)\<rparr>"

definition FileError :: "atomic_calls \<Rightarrow> string \<Rightarrow> string \<Rightarrow> int \<Rightarrow> error" where
  "FileError env operation path errno = Error (operation @ '' '' @ quoted path @ '': '' @ ac_strerror env errno) errno"

text \<open>\<open>fstatat\<close> without following a symbolic link.\<close>

definition fstatat :: "atomic_calls \<Rightarrow> call_site \<Rightarrow> nat \<times> string \<Rightarrow> disk \<Rightarrow> int + nat" where
  "fstatat env site key s =
     (case ac_fails env site of
        Some errno \<Rightarrow> Inl errno
      | None \<Rightarrow> (case d_entries s key of None \<Rightarrow> Inl ENOENT | Some i \<Rightarrow> Inr i))"

section \<open>The parent directory\<close>

text \<open>The components between the root and the last slash.\<close>

function resolve_components :: "atomic_calls \<Rightarrow> string \<Rightarrow> nat \<Rightarrow> string \<Rightarrow> disk \<Rightarrow> nat result \<times> disk" where
  "resolve_components env path parent [] s = (Inr parent, s)"
| "resolve_components env path parent (c # rest) s =
     (if c = CHR ''/'' then resolve_components env path parent rest s
      else
        let component = takeWhile (\<lambda>x. x \<noteq> CHR ''/'') (c # rest);
            rest' = drop (length component + 1) (c # rest)
        in if component = ''..''
           then (Inl (Error (''Refusing parent directory traversal in '' @ quoted path) EINVAL), closed (DirHandle parent) s)
           else if component = ''.'' then resolve_components env path parent rest' s
           else (case ac_opendir env parent component of
             Inl errno \<Rightarrow> (Inl (FileError env ''Failed to resolve parent directory for'' path errno), closed (DirHandle parent) s)
           | Inr child \<Rightarrow>
               resolve_components env path child rest' (closed (DirHandle parent) (opened (DirHandle child) s))))"
  by pat_completeness auto
termination
  by (relation "measure (\<lambda>(env, path, parent, rest, s). length rest)") auto

definition ResolveParentNoFollow :: "atomic_calls \<Rightarrow> string \<Rightarrow> disk \<Rightarrow> (nat \<times> string) result \<times> disk" where
  "ResolveParentNoFollow env path s =
     (if path = [] \<or> hd path \<noteq> CHR ''/''
      then (Inl (Error ''Atomic file operations require an absolute path'' EINVAL), s)
      else
        let lastSlash = the (rfind_char (CHR ''/'') path); name = drop (lastSlash + 1) path in
        if name = [] \<or> name = ''.'' \<or> name = ''..''
        then (Inl (Error (''Invalid atomic file path '' @ quoted path) EINVAL), s)
        else (case ac_root env of
          Inl errno \<Rightarrow> (Inl (FileError env ''Failed to open parent directory for'' path errno), s)
        | Inr root \<Rightarrow>
            (case resolve_components env path root (drop 1 (take lastSlash path)) (opened (DirHandle root) s) of
               (Inl e, s) \<Rightarrow> (Inl e, s)
             | (Inr parent, s) \<Rightarrow> (Inr (parent, name), s))))"

section \<open>The temporary file\<close>

definition temporary_name :: "atomic_calls \<Rightarrow> nat \<Rightarrow> string" where
  "temporary_name env k = ''.kompli.'' @ to_string_nat (ac_getpid env) @ ''.'' @ to_string_nat k"

definition new_inode :: inode where
  "new_inode = \<lparr>st_uid = 0, st_gid = 0, st_mode = S_IFREG OR 0x180, in_nlink = 1, in_bytes = [], in_xattrs = []\<rparr>"

text \<open>The attempts that are left. A name that exists is \<open>EEXIST\<close>.\<close>

fun create_attempts :: "nat \<Rightarrow> atomic_calls \<Rightarrow> nat \<Rightarrow> string \<Rightarrow> disk \<Rightarrow> (nat \<times> string) result \<times> disk" where
  "create_attempts 0 env parent path s =
     (Inl (Error (''Failed to create a unique temporary file for '' @ quoted path) EEXIST), s)"
| "create_attempts (Suc n) env parent path s =
     (let name = temporary_name env (d_sequence s);
          answer = (case ac_create env (d_sequence s) of
             Some errno \<Rightarrow> Some errno
           | None \<Rightarrow> if d_entries s (parent, name) \<noteq> None then Some EEXIST else None);
          s = s\<lparr>d_sequence := d_sequence s + 1\<rparr>
      in case answer of
        None \<Rightarrow> (Inr (d_next s, name),
          opened (FileHandle (d_next s)) (s\<lparr>d_entries := (d_entries s)((parent, name) \<mapsto> d_next s),
            d_inodes := (d_inodes s)(d_next s := new_inode), d_next := d_next s + 1\<rparr>))
      | Some errno \<Rightarrow>
          if errno \<noteq> EEXIST then (Inl (FileError env ''Failed to create temporary file for'' path errno), s)
          else create_attempts n env parent path s)"

definition CreateTemporaryFile :: "atomic_calls \<Rightarrow> nat \<Rightarrow> string \<Rightarrow> disk \<Rightarrow> (nat \<times> string) result \<times> disk" where
  "CreateTemporaryFile = create_attempts 100"

text \<open>The loop of \<open>write\<close>: the number of the call, the bytes counted as written and those in the file.
  It ends with the error number that stopped it, if any.\<close>

function write_contents :: "(nat \<Rightarrow> int + nat) \<Rightarrow> nat \<Rightarrow> string \<Rightarrow> nat \<Rightarrow> string \<Rightarrow> int option \<times> string" where
  "write_contents answers k contents written bytes =
     (if length contents \<le> written then (None, bytes)
      else (case answers k of
        Inl errno \<Rightarrow> (Some errno, bytes)
      | Inr n \<Rightarrow>
          if n = 0 then (Some EIO, bytes)
          else write_contents answers (k + 1) contents (written + n) (bytes @ take n (drop written contents))))"
  by pat_completeness auto
termination
  by (relation "measure (\<lambda>(answers, k, contents, written, bytes). length contents - written)") auto

declare write_contents.simps [simp del]

definition WriteContents :: "atomic_calls \<Rightarrow> nat \<Rightarrow> string \<Rightarrow> disk \<Rightarrow> int option \<times> disk" where
  "WriteContents env i contents s =
     (case write_contents (ac_write env) 0 contents 0 [] of
        (r, bytes) \<Rightarrow> (r, update_inode i (\<lambda>f. f\<lparr>in_bytes := bytes\<rparr>) s))"

text \<open>The extended attributes, one by one: what is left of the list of names, each with its final NUL.\<close>

function copy_xattrs :: "atomic_calls \<Rightarrow> string \<Rightarrow> nat \<Rightarrow> string \<Rightarrow> disk \<Rightarrow> error option \<times> disk" where
  "copy_xattrs env path i names s =
     (if names = [] then (None, s)
      else
     (let name = takeWhile (\<lambda>c. c \<noteq> NUL) names in
      if length name = length names
      then (Some (Error (''Invalid extended attribute list for '' @ quoted path) EIO), s)
      else (case ac_xattr_size env name of
        Inl errno \<Rightarrow> (Some (FileError env (''Failed to inspect extended attribute '' @ quoted name @ '' for'') path errno), s)
      | Inr sz \<Rightarrow>
     (case (if sz > 0 then ac_getxattr env name else Inr []) of
        Inl errno \<Rightarrow> (Some (FileError env (''Failed to read extended attribute '' @ quoted name @ '' for'') path errno), s)
      | Inr v \<Rightarrow>
          if length v \<noteq> sz
          then (Some (Error (''Extended attribute '' @ quoted name @ '' changed while replacing '' @ quoted path) EAGAIN), s)
          else (case ac_setxattr env name of
            Some errno \<Rightarrow> (Some (FileError env (''Failed to preserve extended attribute '' @ quoted name @ '' for'') path errno), s)
          | None \<Rightarrow>
              copy_xattrs env path i (drop (length name + 1) names)
                (update_inode i (\<lambda>f. f\<lparr>in_xattrs := AList.update name v (in_xattrs f)\<rparr>) s))))))"
  by pat_completeness auto
termination
  by (relation "measure (\<lambda>(env, path, i, names, s). length names)") auto

declare copy_xattrs.simps [simp del]

definition CopyExtendedAttributes :: "atomic_calls \<Rightarrow> string \<Rightarrow> nat \<Rightarrow> disk \<Rightarrow> error option \<times> disk" where
  "CopyExtendedAttributes env path i s =
     (case ac_list_size env of
        Inl errno \<Rightarrow>
          if errno = ENOTSUP then (None, s) else (Some (FileError env ''Failed to list extended attributes for'' path errno), s)
      | Inr listSize \<Rightarrow>
          if listSize = 0 then (None, s)
          else (case ac_list env of
            Inl errno \<Rightarrow> (Some (FileError env ''Failed to read extended attribute names for'' path errno), s)
          | Inr names \<Rightarrow> copy_xattrs env path i names s))"

section \<open>The replacement\<close>

text \<open>The lambda \<open>fail\<close>, and the other ways back: what is closed, then the temporary file removed and the
  parent closed.\<close>

definition give_up :: "handle list \<Rightarrow> nat \<Rightarrow> string \<Rightarrow> error \<Rightarrow> disk \<Rightarrow> bool result \<times> disk" where
  "give_up hs parent temp e s = (Inl e, closed (DirHandle parent) (unlink (parent, temp) (fold closed hs s)))"

text \<open>\<open>rename\<close> leaves two names of one inode alone. A name that is gone is \<open>ENOENT\<close>.\<close>

definition rename_entry :: "nat \<times> string \<Rightarrow> nat \<times> string \<Rightarrow> (nat \<times> string \<rightharpoonup> nat) \<Rightarrow> (nat \<times> string \<rightharpoonup> nat)" where
  "rename_entry old new entries =
     (if entries old = entries new then entries else (entries(new := entries old))(old := None))"

text \<open>From the closing of the temporary file on.\<close>

definition rename_over :: "atomic_calls \<Rightarrow> string \<Rightarrow> nat \<Rightarrow> string \<Rightarrow> string \<Rightarrow> nat \<Rightarrow> disk \<Rightarrow> bool result \<times> disk" where
  "rename_over env path parent name temp original s =
     (let s = race env 1 s in
      case fstatat env StatCurrent (parent, name) s of
        Inl errno \<Rightarrow> give_up [] parent temp (FileError env ''Failed to re-inspect'' path errno) s
      | Inr current \<Rightarrow>
          if current \<noteq> original
          then give_up [] parent temp (Error (''File changed before replacement '' @ quoted path) EAGAIN) s
          else (case (if d_entries s (parent, temp) = None then Some ENOENT else ac_fails env RenameTemp) of
            Some errno \<Rightarrow> give_up [] parent temp (FileError env ''Failed to replace'' path errno) s
          | None \<Rightarrow>
              (Inr True, closed (DirHandle parent)
                (s\<lparr>d_entries := rename_entry (parent, temp) (parent, name) (d_entries s)\<rparr>))))"

text \<open>From the content on: \<open>t\<close> is the temporary inode, \<open>source\<close> the one that was opened and
  \<open>st\<close> the metadata of the original.\<close>

definition fill_temporary ::
  "atomic_calls \<Rightarrow> string \<Rightarrow> string \<Rightarrow> nat \<Rightarrow> string \<Rightarrow> string \<Rightarrow> nat \<Rightarrow> nat \<Rightarrow> inode \<Rightarrow> disk \<Rightarrow> bool result \<times> disk" where
  "fill_temporary env path contents parent name temp t source st s =
     (let fail = (\<lambda>operation errno s. give_up [FileHandle t, FileHandle source] parent temp (FileError env operation path errno) s) in
      case WriteContents env t contents s of
        (Some errno, s) \<Rightarrow> fail ''Failed to write replacement for'' errno s
      | (None, s) \<Rightarrow>
     (case ac_fails env ChownTemp of
        Some errno \<Rightarrow> fail ''Failed to preserve ownership for'' errno s
      | None \<Rightarrow>
     (let s = update_inode t (\<lambda>f. f\<lparr>st_uid := st_uid st, st_gid := st_gid st\<rparr>) s in
      case ac_fails env ChmodTemp of
        Some errno \<Rightarrow> fail ''Failed to preserve permissions for'' errno s
      | None \<Rightarrow>
     (let s = update_inode t (\<lambda>f. f\<lparr>st_mode := set_mode (st_mode f) (st_mode st AND 0xFFF)\<rparr>) s in
      case CopyExtendedAttributes env path t s of
        (Some e, s) \<Rightarrow> give_up [FileHandle t, FileHandle source] parent temp e s
      | (None, s) \<Rightarrow>
     (case ac_fails env FsyncTemp of
        Some errno \<Rightarrow> fail ''Failed to flush replacement for'' errno s
      | None \<Rightarrow>
     (case ac_fails env CloseSource of
        Some errno \<Rightarrow> give_up [FileHandle source, FileHandle t] parent temp (FileError env ''Failed to close source for'' path errno) s
      | None \<Rightarrow>
     (case ac_fails env CloseTemp of
        Some errno \<Rightarrow> give_up [FileHandle source, FileHandle t] parent temp (FileError env ''Failed to close replacement for'' path errno) s
      | None \<Rightarrow>
          rename_over env path parent name temp source (closed (FileHandle t) (closed (FileHandle source) s)))))))))"

definition ReplaceFileContentsAtomic :: "atomic_calls \<Rightarrow> string \<Rightarrow> string \<Rightarrow> disk \<Rightarrow> bool result \<times> disk" where
  "ReplaceFileContentsAtomic env path contents s =
     (case ResolveParentNoFollow env path s of
        (Inl e, s) \<Rightarrow> (Inl e, s)
      | (Inr (parent, name), s) \<Rightarrow>
     (let back = (\<lambda>hs e s. (Inl e, closed (DirHandle parent) (fold closed hs s))) in
      case fstatat env StatOriginal (parent, name) s of
        Inl errno \<Rightarrow> back [] (FileError env ''Failed to inspect'' path errno) s
      | Inr original \<Rightarrow>
      if \<not> S_ISREG (st_mode (d_inodes s original))
      then back [] (Error (''Refusing to replace non-regular file '' @ quoted path) EINVAL) s
      else if in_nlink (d_inodes s original) \<noteq> 1
      then back [] (Error (''Refusing to replace multiply-linked file '' @ quoted path) EMLINK) s
      else
     (let st = d_inodes s original; s = race env 0 s in
      case fstatat env OpenSource (parent, name) s of
        Inl errno \<Rightarrow> back [] (FileError env ''Failed to open'' path errno) s
      | Inr source \<Rightarrow>
      if S_ISLNK (st_mode (d_inodes s source))
      then back [] (FileError env ''Failed to open'' path ELOOP) s
      else
     (let s = opened (FileHandle source) s in
      case ac_fails env StatSource of
        Some errno \<Rightarrow> back [FileHandle source] (FileError env ''Failed to inspect opened file'' path errno) s
      | None \<Rightarrow>
      if source \<noteq> original
      then back [FileHandle source] (Error (''File changed while opening '' @ quoted path) EAGAIN) s
      else (case CreateTemporaryFile env parent path s of
        (Inl e, s) \<Rightarrow> back [FileHandle source] e s
      | (Inr (t, temp), s) \<Rightarrow> fill_temporary env path contents parent name temp t source st s)))))"

section \<open>The creation\<close>

text \<open>\<open>CreateFileContentsAtomic\<close>: a new file, linked to its name only if there is none. The metadata of the
  file is returned with \<open>True\<close>.\<close>

definition link_new :: "atomic_calls \<Rightarrow> string \<Rightarrow> nat \<Rightarrow> string \<Rightarrow> string \<Rightarrow> disk \<Rightarrow> bool result \<times> disk" where
  "link_new env path parent name temp s =
     (case fstatat env StatTemp (parent, temp) s of
        Inl errno \<Rightarrow> give_up [] parent temp (FileError env ''Failed to inspect temporary file for'' path errno) s
      | Inr created \<Rightarrow>
     (let s = race env 1 s in
      case fstatat env StatCurrent (parent, name) s of
        Inr _ \<Rightarrow> give_up [] parent temp (Error (''File appeared before creation '' @ quoted path) EEXIST) s
      | Inl errno \<Rightarrow>
          if errno \<noteq> ENOENT then give_up [] parent temp (FileError env ''Failed to re-inspect'' path errno) s
          else (case (if d_entries s (parent, name) \<noteq> None then Some EEXIST
              else if d_entries s (parent, temp) = None then Some ENOENT else ac_fails env LinkTemp) of
            Some errno \<Rightarrow> give_up [] parent temp (FileError env ''Failed to create'' path errno) s
          | None \<Rightarrow>
              (Inr True, closed (DirHandle parent)
                (unlink (parent, temp) (s\<lparr>d_entries := (d_entries s)((parent, name) := d_entries s (parent, temp))\<rparr>))))))"

definition CreateFileContentsAtomic :: "atomic_calls \<Rightarrow> string \<Rightarrow> string \<Rightarrow> 32 word \<Rightarrow> disk \<Rightarrow> bool result \<times> disk" where
  "CreateFileContentsAtomic env path contents mode s =
     (case ResolveParentNoFollow env path s of
        (Inl e, s) \<Rightarrow> (Inl e, s)
      | (Inr (parent, name), s) \<Rightarrow>
     (case fstatat env StatOriginal (parent, name) s of
        Inr _ \<Rightarrow> (Inl (Error (''Refusing to replace existing file '' @ quoted path) EEXIST), closed (DirHandle parent) s)
      | Inl errno \<Rightarrow>
      if errno \<noteq> ENOENT then (Inl (FileError env ''Failed to inspect'' path errno), closed (DirHandle parent) s)
      else (case CreateTemporaryFile env parent path s of
        (Inl e, s) \<Rightarrow> (Inl e, closed (DirHandle parent) s)
      | (Inr (t, temp), s) \<Rightarrow>
     (let fail = (\<lambda>operation errno s. give_up [FileHandle t] parent temp (FileError env operation path errno) s) in
      case ac_fails env ChmodTemp of
        Some errno \<Rightarrow> fail ''Failed to set permissions for'' errno s
      | None \<Rightarrow>
     (case WriteContents env t contents (update_inode t (\<lambda>f. f\<lparr>st_mode := set_mode (st_mode f) (mode AND 0xFFF)\<rparr>) s) of
        (Some errno, s) \<Rightarrow> fail ''Failed to write replacement for'' errno s
      | (None, s) \<Rightarrow>
     (case ac_fails env FsyncTemp of
        Some errno \<Rightarrow> fail ''Failed to flush replacement for'' errno s
      | None \<Rightarrow>
     (case ac_fails env CloseTemp of
        Some errno \<Rightarrow> give_up [FileHandle t] parent temp (FileError env ''Failed to close replacement for'' path errno) s
      | None \<Rightarrow> link_new env path parent name temp (closed (FileHandle t) s))))))))"

section \<open>The steps\<close>

named_theorems disk_simps \<open>what the steps do to each part of the machine\<close>

lemma handle_simps [disk_simps]:
  "d_entries (opened h s) = d_entries s" "d_inodes (opened h s) = d_inodes s" "d_next (opened h s) = d_next s"
  "mset (d_open (opened h s)) = add_mset h (mset (d_open s))"
  "d_entries (closed h s) = d_entries s" "d_inodes (closed h s) = d_inodes s" "d_next (closed h s) = d_next s"
  "mset (d_open (closed h s)) = mset (d_open s) - {#h#}"
  by (simp_all add: opened_def closed_def)

lemma fold_closed [disk_simps]:
  "d_entries (fold closed hs s) = d_entries s" "d_inodes (fold closed hs s) = d_inodes s"
  "d_next (fold closed hs s) = d_next s" "mset (d_open (fold closed hs s)) = mset (d_open s) - mset hs"
  by (induction hs arbitrary: s) (simp_all add: disk_simps)

lemma update_simps [disk_simps]:
  "d_entries (update_inode i f s) = d_entries s" "d_next (update_inode i f s) = d_next s"
  "d_open (update_inode i f s) = d_open s" "d_inodes (update_inode i f s) = (d_inodes s)(i := f (d_inodes s i))"
  "d_entries (unlink key s) = (d_entries s)(key := None)" "d_next (unlink key s) = d_next s"
  "d_open (unlink key s) = d_open s" "d_inodes (unlink key s) = d_inodes s"
  "d_entries (race env n s) = ac_race env n (d_entries s)" "d_next (race env n s) = d_next s"
  "d_open (race env n s) = d_open s" "d_inodes (race env n s) = d_inodes s"
  by (simp_all add: update_inode_def unlink_def race_def)

lemma give_up_simps [disk_simps]:
  "fst (give_up hs parent temp e s) = Inl e"
  "d_entries (snd (give_up hs parent temp e s)) = (d_entries s)((parent, temp) := None)"
  "d_inodes (snd (give_up hs parent temp e s)) = d_inodes s" "d_next (snd (give_up hs parent temp e s)) = d_next s"
  "mset (d_open (snd (give_up hs parent temp e s))) = mset (d_open s) - mset hs - {#DirHandle parent#}"
  by (simp_all add: give_up_def disk_simps)

text \<open>A step that leaves entries and inodes alone.\<close>

definition same_files :: "disk \<Rightarrow> disk \<Rightarrow> bool" where
  "same_files a b \<longleftrightarrow> d_entries b = d_entries a \<and> d_inodes b = d_inodes a \<and> d_next b = d_next a"

lemma same_files_trans: "same_files a b \<Longrightarrow> same_files b c \<Longrightarrow> same_files a c"
  by (simp add: same_files_def)

lemma resolve_components_outcome:
  "same_files s (snd (resolve_components env path parent rest s))
   \<and> (DirHandle parent \<in># mset (d_open s) \<longrightarrow>
      mset (d_open (snd (resolve_components env path parent rest s))) =
        mset (d_open s) - {#DirHandle parent#} +
        (case fst (resolve_components env path parent rest s) of Inl _ \<Rightarrow> {#} | Inr p \<Rightarrow> {#DirHandle p#}))"
proof (induction env path parent rest s rule: resolve_components.induct)
  case (1 env path parent s)
  then show ?case by (simp add: same_files_def)
next
  case (2 env path parent c rest s)
  show ?case
  proof (cases "c = CHR ''/''")
    case True
    then show ?thesis using 2(1) by simp
  next
    case c: False
    define comp where "comp = takeWhile (\<lambda>x. x \<noteq> CHR ''/'') (c # rest)"
    have eq: "resolve_components env path parent (c # rest) s =
        (if comp = ''..''
         then (Inl (Error (''Refusing parent directory traversal in '' @ quoted path) EINVAL), closed (DirHandle parent) s)
         else if comp = ''.'' then resolve_components env path parent (drop (length comp + 1) (c # rest)) s
         else (case ac_opendir env parent comp of
           Inl errno \<Rightarrow> (Inl (FileError env ''Failed to resolve parent directory for'' path errno), closed (DirHandle parent) s)
         | Inr child \<Rightarrow> resolve_components env path child (drop (length comp + 1) (c # rest))
             (closed (DirHandle parent) (opened (DirHandle child) s))))"
      by (subst resolve_components.simps(2)) (simp only: Let_def if_not_P [OF c] comp_def)
    note ih_dot = 2(2) [OF c, folded comp_def, OF refl refl]
    note ih_child = 2(3) [OF c, folded comp_def, OF refl refl]
    consider "comp = ''..''" | "comp \<noteq> ''..''" "comp = ''.''"
      | errno where "comp \<noteq> ''..''" "comp \<noteq> ''.''" "ac_opendir env parent comp = Inl errno"
      | child where "comp \<noteq> ''..''" "comp \<noteq> ''.''" "ac_opendir env parent comp = Inr child"
      by (cases "ac_opendir env parent comp") blast+
    then show ?thesis
    proof cases
      case 1
      then show ?thesis by (simp add: eq same_files_def disk_simps del: resolve_components.simps)
    next
      case 2
      then show ?thesis using ih_dot by (simp add: eq del: resolve_components.simps)
    next
      case (3 errno)
      then show ?thesis by (simp add: eq same_files_def disk_simps del: resolve_components.simps)
    next
      case (4 child)
      let ?s1 = "closed (DirHandle parent) (opened (DirHandle child) s)"
      have s1: "same_files s ?s1" by (simp add: same_files_def disk_simps)
      have step: "resolve_components env path parent (c # rest) s =
          resolve_components env path child (drop (length comp + 1) (c # rest)) ?s1"
        using 4 by (simp add: eq del: resolve_components.simps)
      have m1: "mset (d_open ?s1) = mset (d_open s) - {#DirHandle parent#} + {#DirHandle child#}"
        if "DirHandle parent \<in># mset (d_open s)"
        using that by (simp add: disk_simps multiset_eq_iff)
      have m2: "mset (d_open ?s1) - {#DirHandle child#} = mset (d_open s) - {#DirHandle parent#}"
        "DirHandle child \<in># mset (d_open ?s1)" if "DirHandle parent \<in># mset (d_open s)"
        using m1 [OF that] by simp_all
      show ?thesis
        using ih_child [OF 4(1) 4(2) 4(3)] same_files_trans [OF s1] m2 unfolding step by metis
    qed
  qed
qed

lemma ResolveParentNoFollow_outcome:
  "same_files s (snd (ResolveParentNoFollow env path s))
   \<and> mset (d_open (snd (ResolveParentNoFollow env path s))) = mset (d_open s) +
        (case fst (ResolveParentNoFollow env path s) of Inl _ \<Rightarrow> {#} | Inr (p, n) \<Rightarrow> {#DirHandle p#})"
proof (cases "ac_root env")
  case (Inl e)
  then show ?thesis by (simp add: ResolveParentNoFollow_def Let_def same_files_def)
next
  case (Inr root)
  let ?r = "resolve_components env path root (drop 1 (take (the (rfind_char (CHR ''/'') path)) path)) (opened (DirHandle root) s)"
  have "same_files s (opened (DirHandle root) s)" by (simp add: same_files_def disk_simps)
  from same_files_trans [OF this] resolve_components_outcome [of "opened (DirHandle root) s" env path root
      "drop 1 (take (the (rfind_char (CHR ''/'') path)) path)"]
  have r: "same_files s (snd ?r)" "mset (d_open (snd ?r)) = mset (d_open s) +
        (case fst ?r of Inl _ \<Rightarrow> {#} | Inr p \<Rightarrow> {#DirHandle p#})"
    by (auto simp: disk_simps)
  then show ?thesis
    by (cases ?r; cases "fst ?r") (auto simp: ResolveParentNoFollow_def Let_def Inr same_files_def)
qed

lemma create_attempts_outcome:
  "case create_attempts n env parent path s of
     (Inl e, s') \<Rightarrow> same_files s s' \<and> d_open s' = d_open s
   | (Inr (t, temp), s') \<Rightarrow> t = d_next s \<and> d_entries s (parent, temp) = None
       \<and> d_entries s' = (d_entries s)((parent, temp) \<mapsto> t) \<and> d_inodes s' = (d_inodes s)(t := new_inode)
       \<and> d_next s' = d_next s + 1 \<and> mset (d_open s') = add_mset (FileHandle t) (mset (d_open s))"
proof (induction n env parent path s rule: create_attempts.induct)
  case (1 env parent path s)
  then show ?case by (simp add: same_files_def)
next
  case (2 n env parent path s)
  let ?s = "s\<lparr>d_sequence := d_sequence s + 1\<rparr>"
  have s: "same_files s ?s" "d_open ?s = d_open s" by (simp_all add: same_files_def)
  show ?case
  proof (cases "ac_create env (d_sequence s) = None \<and> d_entries s (parent, temporary_name env (d_sequence s)) = None")
    case True
    then show ?thesis by (simp add: Let_def disk_simps)
  next
    case failed: False
    define errno where "errno = (case ac_create env (d_sequence s) of Some e \<Rightarrow> e | None \<Rightarrow> EEXIST)"
    have answer: "(case ac_create env (d_sequence s) of Some errno \<Rightarrow> Some errno
        | None \<Rightarrow> if d_entries s (parent, temporary_name env (d_sequence s)) \<noteq> None then Some EEXIST else None) = Some errno"
      using failed by (auto simp: errno_def split: option.splits)
    show ?thesis
    proof (cases "errno = EEXIST")
      case False
      have "create_attempts (Suc n) env parent path s =
          (Inl (FileError env ''Failed to create temporary file for'' path errno), ?s)"
        by (simp only: create_attempts.simps Let_def answer option.case if_P [OF False])
      then show ?thesis using s by (simp add: same_files_def)
    next
      case True
      then have na: "\<not> errno \<noteq> EEXIST" by simp
      have eq: "create_attempts (Suc n) env parent path s = create_attempts n env parent path ?s"
        by (simp only: create_attempts.simps Let_def answer option.case if_not_P [OF na])
      show ?thesis
        using 2 [OF refl refl refl answer na] s unfolding eq
        by (auto simp: same_files_def split: prod.splits sum.splits)
    qed
  qed
qed

text \<open>A step that changes one inode.\<close>

definition only_inode :: "nat \<Rightarrow> disk \<Rightarrow> disk \<Rightarrow> bool" where
  "only_inode t a b \<longleftrightarrow> d_entries b = d_entries a \<and> d_next b = d_next a \<and> d_open b = d_open a
     \<and> (\<forall>i. i \<noteq> t \<longrightarrow> d_inodes b i = d_inodes a i)"

lemma only_inode_refl [simp]: "only_inode t s s"
  by (simp add: only_inode_def)

lemma only_inode_trans: "only_inode t a b \<Longrightarrow> only_inode t b c \<Longrightarrow> only_inode t a c"
  by (simp add: only_inode_def)

lemma only_inode_update [simp]: "only_inode t s (update_inode t f s)"
  by (simp add: only_inode_def disk_simps)

lemma write_contents_bytes:
  "bytes = take written contents \<Longrightarrow> fst (write_contents answers k contents written bytes) = None
   \<Longrightarrow> snd (write_contents answers k contents written bytes) = contents"
proof (induction answers k contents written bytes rule: write_contents.induct)
  case (1 answers k contents written bytes)
  show ?case
  proof (cases "length contents \<le> written")
    case True
    then show ?thesis using 1(2) by (simp add: write_contents.simps [of answers k contents written])
  next
    case False
    then obtain n where n: "answers k = Inr n" "n \<noteq> 0"
      using 1(3) by (cases "answers k") (auto simp: write_contents.simps [of answers k contents written] split: if_splits)
    have step: "write_contents answers k contents written bytes
        = write_contents answers (k + 1) contents (written + n) (bytes @ take n (drop written contents))"
      using False n by (simp add: write_contents.simps [of answers k contents written])
    show ?thesis
      using 1(1) [OF False n] 1(2,3) unfolding step by (simp add: take_add)
  qed
qed

lemma WriteContents_outcome:
  assumes "WriteContents env t contents s = (r, s')"
  shows "only_inode t s s'"
    "r = None \<Longrightarrow> d_inodes s' t = (d_inodes s t)\<lparr>in_bytes := contents\<rparr>"
  using assms write_contents_bytes [of "[]" 0 contents "ac_write env" 0]
  by (auto simp: WriteContents_def disk_simps split: prod.splits)

lemma copy_xattrs_outcome:
  "only_inode i s (snd (copy_xattrs env path i names s))
   \<and> (\<exists>x. d_inodes (snd (copy_xattrs env path i names s)) i = (d_inodes s i)\<lparr>in_xattrs := x\<rparr>)"
proof (induction env path i names s rule: copy_xattrs.induct)
  case (1 env path i names s)
  have id: "\<exists>x. d_inodes s i = (d_inodes s i)\<lparr>in_xattrs := x\<rparr>" by (rule exI [of _ "in_xattrs (d_inodes s i)"]) simp
  define name where "name = takeWhile (\<lambda>c. c \<noteq> NUL) names"
  show ?case
  proof (cases "names = [] \<or> length name = length names")
    case True
    then show ?thesis using id by (auto simp: copy_xattrs.simps [of env path i names s] Let_def name_def)
  next
    case False
    then have nm: "names \<noteq> []" "length name \<noteq> length names" by auto
    note ih = 1 [OF nm(1), folded name_def, OF refl nm(2)]
    have eq: "copy_xattrs env path i names s =
     (case ac_xattr_size env name of
        Inl errno \<Rightarrow> (Some (FileError env (''Failed to inspect extended attribute '' @ quoted name @ '' for'') path errno), s)
      | Inr sz \<Rightarrow>
     (case (if sz > 0 then ac_getxattr env name else Inr []) of
        Inl errno \<Rightarrow> (Some (FileError env (''Failed to read extended attribute '' @ quoted name @ '' for'') path errno), s)
      | Inr v \<Rightarrow>
          if length v \<noteq> sz
          then (Some (Error (''Extended attribute '' @ quoted name @ '' changed while replacing '' @ quoted path) EAGAIN), s)
          else (case ac_setxattr env name of
            Some errno \<Rightarrow> (Some (FileError env (''Failed to preserve extended attribute '' @ quoted name @ '' for'') path errno), s)
          | None \<Rightarrow>
              copy_xattrs env path i (drop (length name + 1) names)
                (update_inode i (\<lambda>f. f\<lparr>in_xattrs := AList.update name v (in_xattrs f)\<rparr>) s))))"
      using nm by (subst copy_xattrs.simps) (simp only: Let_def if_False name_def)
    show ?thesis
    proof (cases "ac_xattr_size env name")
      case (Inl e)
      then show ?thesis using id by (simp add: eq)
    next
      case sz: (Inr sz)
      show ?thesis
      proof (cases "if sz > 0 then ac_getxattr env name else Inr []")
        case (Inl e)
        then show ?thesis using id by (simp add: eq sz)
      next
        case v: (Inr v)
        show ?thesis
        proof (cases "length v \<noteq> sz \<or> ac_setxattr env name \<noteq> None")
          case True
          then show ?thesis using id by (auto simp: eq sz v)
        next
          case False
          let ?s = "update_inode i (\<lambda>f. f\<lparr>in_xattrs := AList.update name v (in_xattrs f)\<rparr>) s"
          have step: "copy_xattrs env path i names s = copy_xattrs env path i (drop (length name + 1) names) ?s"
            using False by (simp add: eq sz v)
          have "\<not> length v \<noteq> sz" "ac_setxattr env name = None" using False by auto
          from ih [OF sz v this] only_inode_trans [OF only_inode_update]
          show ?thesis unfolding step by (auto simp: disk_simps)
        qed
      qed
    qed
  qed
qed

lemma CopyExtendedAttributes_outcome:
  assumes "CopyExtendedAttributes env path i s = (r, s')"
  shows "only_inode i s s'" "\<exists>x. d_inodes s' i = (d_inodes s i)\<lparr>in_xattrs := x\<rparr>"
proof -
  have id: "\<exists>x. d_inodes s i = (d_inodes s i)\<lparr>in_xattrs := x\<rparr>" by (rule exI [of _ "in_xattrs (d_inodes s i)"]) simp
  have "s' = s \<or> (\<exists>names. s' = snd (copy_xattrs env path i names s))"
    using assms by (auto simp: CopyExtendedAttributes_def split: sum.splits if_splits) (metis snd_conv)
  then show "only_inode i s s'" "\<exists>x. d_inodes s' i = (d_inodes s i)\<lparr>in_xattrs := x\<rparr>"
    using id copy_xattrs_outcome by auto
qed

section \<open>The replacement as a whole\<close>

text \<open>What a run from \<open>s\<close> to \<open>s'\<close> with the temporary inode \<open>t\<close> leaves.\<close>

definition replaced_by :: "atomic_calls \<Rightarrow> string \<Rightarrow> nat \<times> string \<Rightarrow> nat \<times> string \<Rightarrow> nat \<Rightarrow> nat \<Rightarrow> inode \<Rightarrow> disk \<Rightarrow> bool result \<Rightarrow> disk \<Rightarrow> bool" where
  "replaced_by env contents key tkey t source st s r s' \<longleftrightarrow>
     (case r of
        Inl e \<Rightarrow> d_entries s' = (d_entries s)(tkey := None) \<or> d_entries s' = (ac_race env 1 (d_entries s))(tkey := None)
      | Inr b \<Rightarrow> b \<and> ac_race env 1 (d_entries s) key = Some source
          \<and> d_entries s' = rename_entry tkey key (ac_race env 1 (d_entries s))
          \<and> in_bytes (d_inodes s' t) = contents \<and> st_uid (d_inodes s' t) = st_uid st \<and> st_gid (d_inodes s' t) = st_gid st
          \<and> st_mode (d_inodes s' t) AND 0xFFF = st_mode st AND 0xFFF)"

lemma rename_over_outcome:
  assumes "rename_over env path parent name temp source s = (r, s')"
  shows "d_next s' = d_next s" "d_inodes s' = d_inodes s" "mset (d_open s') = mset (d_open s) - {#DirHandle parent#}"
    "case r of
        Inl e \<Rightarrow> d_entries s' = (ac_race env 1 (d_entries s))((parent, temp) := None)
      | Inr b \<Rightarrow> b \<and> ac_race env 1 (d_entries s) (parent, name) = Some source
          \<and> d_entries s' = rename_entry (parent, temp) (parent, name) (ac_race env 1 (d_entries s))"
  using assms
  by (auto simp: rename_over_def Let_def fstatat_def give_up_def disk_simps split: option.splits sum.splits if_splits)

lemma fill_temporary_outcome:
  assumes run: "fill_temporary env path contents parent name temp t source st s = (r, s')"
    and open': "mset (d_open s) = add_mset (FileHandle t) (add_mset (FileHandle source) (add_mset (DirHandle parent) rest))"
  shows "d_next s' = d_next s" "\<forall>i. i \<noteq> t \<longrightarrow> d_inodes s' i = d_inodes s i" "mset (d_open s') = rest"
    "replaced_by env contents (parent, name) (parent, temp) t source st s r s'"
proof -
  obtain r1 s1 where w: "WriteContents env t contents s = (r1, s1)" by fastforce
  note wo = WriteContents_outcome [OF w]
  let ?s2 = "update_inode t (\<lambda>f. f\<lparr>st_uid := st_uid st, st_gid := st_gid st\<rparr>) s1"
  let ?s3 = "update_inode t (\<lambda>f. f\<lparr>st_mode := set_mode (st_mode f) (st_mode st AND 0xFFF)\<rparr>) ?s2"
  obtain r4 s4 where x: "CopyExtendedAttributes env path t ?s3 = (r4, s4)" by fastforce
  note xo = CopyExtendedAttributes_outcome [OF x]
  have o2: "only_inode t s ?s2" and o3: "only_inode t s ?s3"
    using only_inode_trans [OF wo(1)] only_inode_trans [OF only_inode_trans [OF wo(1)] only_inode_update] by auto
  have o4: "only_inode t s s4" using only_inode_trans [OF o3 xo(1)] .
  have given_up: "d_next s' = d_next s \<and> (\<forall>i. i \<noteq> t \<longrightarrow> d_inodes s' i = d_inodes s i) \<and> mset (d_open s') = rest
      \<and> replaced_by env contents (parent, name) (parent, temp) t source st s r s'"
    if "give_up hs parent temp e s0 = (r, s')" "only_inode t s s0"
      "hs = [FileHandle t, FileHandle source] \<or> hs = [FileHandle source, FileHandle t]" for hs e s0
    using that open' give_up_simps [of hs parent temp e s0]
    by (auto simp: only_inode_def replaced_by_def)
  let ?s5 = "closed (FileHandle t) (closed (FileHandle source) s4)"
  have "d_next s' = d_next s \<and> (\<forall>i. i \<noteq> t \<longrightarrow> d_inodes s' i = d_inodes s i) \<and> mset (d_open s') = rest
      \<and> replaced_by env contents (parent, name) (parent, temp) t source st s r s'"
  proof (cases "r1 = None \<and> ac_fails env ChownTemp = None \<and> ac_fails env ChmodTemp = None \<and> r4 = None
      \<and> ac_fails env FsyncTemp = None \<and> ac_fails env CloseSource = None \<and> ac_fails env CloseTemp = None")
    case True
    then have ro: "rename_over env path parent name temp source ?s5 = (r, s')"
      using run by (simp add: fill_temporary_def w x)
    have t4: "in_bytes (d_inodes s4 t) = contents" "st_uid (d_inodes s4 t) = st_uid st" "st_gid (d_inodes s4 t) = st_gid st"
      "st_mode (d_inodes s4 t) AND 0xFFF = st_mode st AND 0xFFF"
      using xo(2) wo(2) True set_mode_mask [of "st_mode (d_inodes s t)" "st_mode st AND 0xFFF"]
      by (auto simp: disk_simps and.assoc)
    show ?thesis
      using rename_over_outcome [OF ro] o4 open' t4
      by (cases r) (auto simp: only_inode_def disk_simps replaced_by_def)
  next
    case False
    then obtain hs e s0 where "give_up hs parent temp e s0 = (r, s')" "s0 \<in> {s1, ?s2, ?s3, s4}"
      "hs = [FileHandle t, FileHandle source] \<or> hs = [FileHandle source, FileHandle t]"
      using run by (simp add: fill_temporary_def w x Let_def split: option.splits)
    then show ?thesis using given_up wo(1) o2 o3 o4 by blast
  qed
  then show "d_next s' = d_next s" "\<forall>i. i \<noteq> t \<longrightarrow> d_inodes s' i = d_inodes s i" "mset (d_open s') = rest"
    "replaced_by env contents (parent, name) (parent, temp) t source st s r s'" by auto
qed

text \<open>The entries refer to inodes that are in use.\<close>

definition sound :: "disk \<Rightarrow> bool" where
  "sound s \<longleftrightarrow> (\<forall>key i. d_entries s key = Some i \<longrightarrow> i < d_next s)"

text \<open>No other process changes the entries.\<close>

definition undisturbed :: "atomic_calls \<Rightarrow> bool" where
  "undisturbed env \<longleftrightarrow> (\<forall>n entries. ac_race env n entries = entries)"

text \<open>The run of the replacement after the resolution: nothing was replaced, or the temporary file was filled.\<close>

lemma ReplaceFileContentsAtomic_cases:
  assumes run: "ReplaceFileContentsAtomic env path contents s = (r, s')"
  obtains (failed) e where "r = Inl e" "d_inodes s' = d_inodes s" "d_next s' = d_next s"
      "mset (d_open s') = mset (d_open s)" "d_entries s' = d_entries s \<or> d_entries s' = ac_race env 0 (d_entries s)"
  | (filled) parent name original temp s1 where
      "fst (ResolveParentNoFollow env path s) = Inr (parent, name)"
      "d_entries s (parent, name) = Some original" "S_ISREG (st_mode (d_inodes s original))"
      "in_nlink (d_inodes s original) = 1" "ac_race env 0 (d_entries s) (parent, name) = Some original"
      "ac_race env 0 (d_entries s) (parent, temp) = None"
      "d_entries s1 = (ac_race env 0 (d_entries s))((parent, temp) \<mapsto> d_next s)"
      "d_inodes s1 = (d_inodes s)(d_next s := new_inode)" "d_next s1 = d_next s + 1"
      "mset (d_open s1) = add_mset (FileHandle (d_next s)) (add_mset (FileHandle original)
         (add_mset (DirHandle parent) (mset (d_open s))))"
      "fill_temporary env path contents parent name temp (d_next s) original (d_inodes s original) s1 = (r, s')"
proof (cases "ResolveParentNoFollow env path s")
  case (Pair r0 s0)
  note ro = ResolveParentNoFollow_outcome [of s env path, unfolded Pair same_files_def, simplified]
  show thesis
  proof (cases r0)
    case (Inl e)
    then show thesis using run Pair ro failed [of e] by (simp add: ReplaceFileContentsAtomic_def)
  next
    case (Inr key)
    obtain parent name where key: "key = (parent, name)" by fastforce
    note ro = ro [unfolded Inr key, simplified]
    note run' = run [unfolded ReplaceFileContentsAtomic_def Pair Inr key, simplified]
    show thesis
    proof (cases "fstatat env StatOriginal (parent, name) s0")
      case (Inl errno)
      then show thesis using run' ro by (intro failed) (auto simp: Let_def disk_simps)
    next
      case (Inr original)
      then have orig: "d_entries s (parent, name) = Some original"
        using ro by (auto simp: fstatat_def split: option.splits)
      let ?s2 = "race env 0 s0" and ?st = "d_inodes s0 original"
      consider (bad) "\<not> S_ISREG (st_mode ?st) \<or> in_nlink ?st \<noteq> 1 \<or> fstatat env OpenSource (parent, name) ?s2 \<noteq> Inr original
            \<or> S_ISLNK (st_mode (d_inodes ?s2 original)) \<or> ac_fails env StatSource \<noteq> None"
        | (good) "S_ISREG (st_mode ?st)" "in_nlink ?st = 1" "fstatat env OpenSource (parent, name) ?s2 = Inr original"
            "\<not> S_ISLNK (st_mode (d_inodes ?s2 original))" "ac_fails env StatSource = None"
        by blast
      then show thesis
      proof cases
        case bad
        have "(\<exists>e. r = Inl e) \<and> d_inodes s' = d_inodes s \<and> d_next s' = d_next s
            \<and> mset (d_open s') = mset (d_open s)
            \<and> (d_entries s' = d_entries s \<or> d_entries s' = ac_race env 0 (d_entries s))"
          using run' bad ro Inr
          by (auto simp: Let_def disk_simps split: sum.splits option.splits if_splits)
        then show thesis using failed by blast
      next
        case good
        let ?s3 = "opened (FileHandle original) ?s2"
        have raced: "ac_race env 0 (d_entries s) (parent, name) = Some original"
          using good(3) ro by (auto simp: fstatat_def disk_simps split: option.splits)
        obtain r4 s4 where ct: "CreateTemporaryFile env parent path ?s3 = (r4, s4)" by fastforce
        note co = create_attempts_outcome [where n = 100 and env = env and parent = parent and path = path and s = ?s3, folded CreateTemporaryFile_def, unfolded ct, simplified]
        show thesis
        proof (cases r4)
          case (Inl e)
          then show thesis
            using run' good Inr ct co ro
            by (intro failed [of e]) (auto simp: Let_def disk_simps same_files_def)
        next
          case r4: (Inr q)
          obtain t temp where q: "q = (t, temp)" by fastforce
          note co = co [unfolded r4 q, simplified]
          have t: "t = d_next s" using co ro by (simp add: disk_simps)
          have f: "fill_temporary env path contents parent name temp (d_next s) original (d_inodes s original) s4 = (r, s')"
            using run' good Inr ct ro r4 q t by (simp add: Let_def)
          show thesis
            using orig good(1,2) raced co ro t Pair f
            by (intro filled [of parent name original temp s4]) (auto simp: disk_simps \<open>r0 = Inr key\<close> key)
        qed
      qed
    qed
  qed
qed

text \<open>Whatever other processes do: no descriptor is left open and no inode that was in use is written.\<close>

lemma replacement_frame:
  assumes run: "ReplaceFileContentsAtomic env path contents s = (r, s')"
  shows "mset (d_open s') = mset (d_open s)" "\<forall>i. i \<noteq> d_next s \<longrightarrow> d_inodes s' i = d_inodes s i"
    "d_next s' = d_next s \<or> d_next s' = d_next s + 1"
proof -
  have "mset (d_open s') = mset (d_open s) \<and> (\<forall>i. i \<noteq> d_next s \<longrightarrow> d_inodes s' i = d_inodes s i)
      \<and> (d_next s' = d_next s \<or> d_next s' = d_next s + 1)"
    using run
  proof (cases rule: ReplaceFileContentsAtomic_cases)
    case (failed e)
    then show ?thesis by simp
  next
    case (filled parent name original temp s1)
    then show ?thesis using fill_temporary_outcome(1,2,3) [OF filled(11,10)] by simp
  qed
  then show "mset (d_open s') = mset (d_open s)" "\<forall>i. i \<noteq> d_next s \<longrightarrow> d_inodes s' i = d_inodes s i"
    "d_next s' = d_next s \<or> d_next s' = d_next s + 1" by auto
qed

text \<open>What a run that is not disturbed leaves: the old entries, or the new inode under the name.\<close>

definition put_in_place :: "atomic_calls \<Rightarrow> string \<Rightarrow> string \<Rightarrow> disk \<Rightarrow> disk \<Rightarrow> bool" where
  "put_in_place env path contents s s' \<longleftrightarrow>
     (\<exists>key original. fst (ResolveParentNoFollow env path s) = Inr key \<and> d_entries s key = Some original
        \<and> S_ISREG (st_mode (d_inodes s original)) \<and> in_nlink (d_inodes s original) = 1
        \<and> d_entries s' = (d_entries s)(key \<mapsto> d_next s)
        \<and> in_bytes (d_inodes s' (d_next s)) = contents
        \<and> st_uid (d_inodes s' (d_next s)) = st_uid (d_inodes s original)
        \<and> st_gid (d_inodes s' (d_next s)) = st_gid (d_inodes s original)
        \<and> st_mode (d_inodes s' (d_next s)) AND 0xFFF = st_mode (d_inodes s original) AND 0xFFF)"

lemma replacement_undisturbed:
  assumes run: "ReplaceFileContentsAtomic env path contents s = (r, s')"
    and "undisturbed env" "sound s"
  shows "case r of Inl e \<Rightarrow> d_entries s' = d_entries s | Inr b \<Rightarrow> b \<and> put_in_place env path contents s s'"
    and "sound s'"
proof -
  have id: "ac_race env n E = E" for n E using assms(2) by (simp add: undisturbed_def)
  have fresh: "d_entries s key \<noteq> Some (d_next s)" for key using assms(3) unfolding sound_def by (metis order_less_irrefl)
  have "(case r of Inl e \<Rightarrow> d_entries s' = d_entries s | Inr b \<Rightarrow> b \<and> put_in_place env path contents s s')
     \<and> d_next s \<le> d_next s' \<and> (\<forall>key. d_entries s' key = Some (d_next s) \<longrightarrow> d_next s < d_next s')"
    using run
  proof (cases rule: ReplaceFileContentsAtomic_cases)
    case (failed e)
    then show ?thesis using id fresh by auto
  next
    case (filled parent name original temp s1)
    note o' = fill_temporary_outcome [OF filled(11,10)]
    let ?key = "(parent, name)" and ?tkey = "(parent, temp)"
    have ne: "?tkey \<noteq> ?key" using filled(2,6) id by auto
    show ?thesis
    proof (cases r)
      case (Inl e)
      have "d_entries s' = d_entries s"
        using o'(4) filled(6,7) id unfolding Inl replaced_by_def by auto
      then show ?thesis using Inl o'(1) filled(9) by simp
    next
      case (Inr b)
      have E: "d_entries s' = rename_entry ?tkey ?key ((d_entries s)(?tkey \<mapsto> d_next s))"
        using o'(4) filled(7) id unfolding Inr replaced_by_def by simp
      have "d_entries s' = (d_entries s)(?key \<mapsto> d_next s)"
      proof -
        have "original \<noteq> d_next s" using fresh [of ?key] filled(2) by simp
        moreover have "d_entries s ?tkey = None" using filled(6) id by simp
        ultimately show ?thesis
          unfolding E rename_entry_def using ne filled(2) by (simp add: fun_eq_iff)
      qed
      then show ?thesis
        using o'(1,4) filled(1-4,9) unfolding Inr replaced_by_def put_in_place_def by auto
    qed
  qed
  note both = this
  show "case r of Inl e \<Rightarrow> d_entries s' = d_entries s | Inr b \<Rightarrow> b \<and> put_in_place env path contents s s'"
    using both by simp
  have "d_entries s' key = Some i \<Longrightarrow> d_entries s key = Some i \<or> i = d_next s" for key i
    using both by (cases r) (auto simp: put_in_place_def split: if_splits)
  then show "sound s'"
    using both assms(3) unfolding sound_def by (metis order_less_le_trans)
qed

section \<open>The creation as a whole\<close>

lemma link_new_outcome:
  assumes "link_new env path parent name temp s = (r, s')"
  shows "d_next s' = d_next s" "d_inodes s' = d_inodes s" "mset (d_open s') = mset (d_open s) - {#DirHandle parent#}"
    "case r of
        Inl e \<Rightarrow> d_entries s' = (d_entries s)((parent, temp) := None)
          \<or> d_entries s' = (ac_race env 1 (d_entries s))((parent, temp) := None)
      | Inr b \<Rightarrow> b \<and> ac_race env 1 (d_entries s) (parent, name) = None
          \<and> ac_race env 1 (d_entries s) (parent, temp) \<noteq> None
          \<and> d_entries s' = (let E = ac_race env 1 (d_entries s) in
               (E((parent, name) := E (parent, temp)))((parent, temp) := None))"
  using assms
  by (auto simp: link_new_def Let_def fstatat_def give_up_def disk_simps split: option.splits sum.splits if_splits)

lemma CreateFileContentsAtomic_cases:
  assumes run: "CreateFileContentsAtomic env path contents mode s = (r, s')"
  obtains (failed) e where "r = Inl e" "d_inodes s' = d_inodes s" "d_next s' = d_next s"
      "mset (d_open s') = mset (d_open s)" "d_entries s' = d_entries s"
  | (undone) e parent temp s1 where "r = Inl e" "s' = closed (DirHandle parent) (unlink (parent, temp) (closed (FileHandle (d_next s)) s1))"
      "d_entries s (parent, temp) = None" "d_entries s1 = (d_entries s)((parent, temp) \<mapsto> d_next s)"
      "d_next s1 = d_next s + 1" "\<forall>i. i \<noteq> d_next s \<longrightarrow> d_inodes s1 i = d_inodes s i"
      "mset (d_open s1) = add_mset (FileHandle (d_next s)) (add_mset (DirHandle parent) (mset (d_open s)))"
  | (filled) parent name temp s1 where
      "fst (ResolveParentNoFollow env path s) = Inr (parent, name)" "d_entries s (parent, temp) = None"
      "d_entries s1 = (d_entries s)((parent, temp) \<mapsto> d_next s)"
      "d_next s1 = d_next s + 1" "\<forall>i. i \<noteq> d_next s \<longrightarrow> d_inodes s1 i = d_inodes s i"
      "in_bytes (d_inodes s1 (d_next s)) = contents" "st_mode (d_inodes s1 (d_next s)) AND 0xFFF = mode AND 0xFFF"
      "mset (d_open s1) = add_mset (DirHandle parent) (mset (d_open s))"
      "link_new env path parent name temp s1 = (r, s')"
proof (cases "ResolveParentNoFollow env path s")
  case (Pair r0 s0)
  note ro = ResolveParentNoFollow_outcome [of s env path, unfolded Pair same_files_def, simplified]
  show thesis
  proof (cases r0)
    case (Inl e)
    then show thesis using run Pair ro failed [of e] by (simp add: CreateFileContentsAtomic_def)
  next
    case r0: (Inr key)
    obtain parent name where key: "key = (parent, name)" by fastforce
    note ro = ro [unfolded r0 key, simplified]
    note run' = run [unfolded CreateFileContentsAtomic_def Pair r0 key, simplified]
    show thesis
    proof (cases "fstatat env StatOriginal (parent, name) s0 = Inl ENOENT")
      case False
      then show thesis using run' ro failed by (auto simp: disk_simps split: sum.splits if_splits)
    next
      case True
      obtain r4 s4 where ct: "CreateTemporaryFile env parent path s0 = (r4, s4)" by fastforce
      note co = create_attempts_outcome [where n = 100 and env = env and parent = parent and path = path and s = s0,
          folded CreateTemporaryFile_def, unfolded ct, simplified]
      show thesis
      proof (cases r4)
        case (Inl e)
        then show thesis
          using run' True ct co ro by (intro failed [of e]) (auto simp: disk_simps same_files_def)
      next
        case r4: (Inr q)
        obtain t temp where q: "q = (t, temp)" by fastforce
        note co = co [unfolded r4 q, simplified]
        have t: "t = d_next s" using co ro by simp
        let ?s5 = "update_inode t (\<lambda>f. f\<lparr>st_mode := set_mode (st_mode f) (mode AND 0xFFF)\<rparr>) s4"
        obtain r6 s6 where w: "WriteContents env t contents ?s5 = (r6, s6)" by fastforce
        note wo = WriteContents_outcome [OF w]
        have o6: "only_inode t s4 s6" using only_inode_trans [OF only_inode_update wo(1)] .
        show thesis
        proof (cases "ac_fails env ChmodTemp = None \<and> r6 = None \<and> ac_fails env FsyncTemp = None \<and> ac_fails env CloseTemp = None")
          case good: True
          have l: "link_new env path parent name temp (closed (FileHandle t) s6) = (r, s')"
            using run' True ct r4 q w good by (simp add: Let_def)
          have "st_mode (d_inodes s6 t) AND 0xFFF = mode AND 0xFFF"
            using wo(2) good set_mode_mask [of "st_mode (d_inodes s4 t)" "mode AND 0xFFF"] by (simp add: disk_simps and.assoc)
          then show thesis
            using l o6 co ro t wo(2) good Pair r0 key
            by (intro filled [of parent name temp "closed (FileHandle t) s6"]) (auto simp: disk_simps only_inode_def)
        next
          case False
          then have "\<exists>e s1. r = Inl e \<and> s' = closed (DirHandle parent) (unlink (parent, temp) (closed (FileHandle t) s1))
              \<and> s1 \<in> {s4, s6}"
            using run' True ct r4 q w by (auto simp: Let_def give_up_def split: option.splits)
          then obtain e s1 where e: "r = Inl e" "s' = closed (DirHandle parent) (unlink (parent, temp) (closed (FileHandle t) s1))"
            "s1 \<in> {s4, s6}" by blast
          then have "only_inode t s4 s1" using o6 by auto
          then show thesis
            using e(1,2) co ro t by (intro undone [of e parent temp s1]) (auto simp: only_inode_def)
        qed
      qed
    qed
  qed
qed

lemma creation_frame:
  assumes run: "CreateFileContentsAtomic env path contents mode s = (r, s')"
  shows "mset (d_open s') = mset (d_open s)" "\<forall>i. i \<noteq> d_next s \<longrightarrow> d_inodes s' i = d_inodes s i"
proof -
  have "mset (d_open s') = mset (d_open s) \<and> (\<forall>i. i \<noteq> d_next s \<longrightarrow> d_inodes s' i = d_inodes s i)"
    using run
  proof (cases rule: CreateFileContentsAtomic_cases)
    case (failed e)
    then show ?thesis by simp
  next
    case (undone e parent temp s1)
    then show ?thesis by (simp add: disk_simps)
  next
    case (filled parent name temp s1)
    then show ?thesis using link_new_outcome(2,3) [OF filled(9)] by simp
  qed
  then show "mset (d_open s') = mset (d_open s)" "\<forall>i. i \<noteq> d_next s \<longrightarrow> d_inodes s' i = d_inodes s i" by auto
qed

text \<open>An undisturbed creation never replaces a file: the name was free, or nothing changed.\<close>

lemma creation_undisturbed:
  assumes run: "CreateFileContentsAtomic env path contents mode s = (r, s')" and "undisturbed env"
  shows "case r of Inl e \<Rightarrow> d_entries s' = d_entries s
    | Inr b \<Rightarrow> b \<and> (\<exists>key. fst (ResolveParentNoFollow env path s) = Inr key \<and> d_entries s key = None
        \<and> d_entries s' = (d_entries s)(key \<mapsto> d_next s) \<and> in_bytes (d_inodes s' (d_next s)) = contents
        \<and> st_mode (d_inodes s' (d_next s)) AND 0xFFF = mode AND 0xFFF)"
proof -
  have id: "ac_race env n E = E" for n E using assms(2) by (simp add: undisturbed_def)
  from run show ?thesis
  proof (cases rule: CreateFileContentsAtomic_cases)
    case (failed e)
    then show ?thesis by simp
  next
    case (undone e parent temp s1)
    then show ?thesis by (auto simp: disk_simps fun_eq_iff)
  next
    case (filled parent name temp s1)
    note l = link_new_outcome [OF filled(9)]
    show ?thesis
    proof (cases r)
      case (Inl e)
      then show ?thesis using l(4) filled(2,3) id by (auto simp: fun_eq_iff)
    next
      case (Inr b)
      have k: "(parent, temp) \<noteq> (parent, name)" "d_entries s (parent, name) = None"
        using l(4) filled(3) id Inr by (auto split: if_splits)
      have "d_entries s' = (d_entries s)((parent, name) \<mapsto> d_next s)"
        using l(4) filled(2,3) id Inr k by (auto simp: fun_eq_iff Let_def)
      then show ?thesis using l(2,4) filled(1,6,7) Inr k(2) by auto
    qed
  qed
qed

section \<open>The files behind \<open>LoginDefsOption\<close>\<close>

text \<open>The parent is the same whatever was opened, closed or written before.\<close>

lemma resolve_components_value: "fst (resolve_components env path parent rest s) = fst (resolve_components env path parent rest s0)"
proof (induction env path parent rest s arbitrary: s0 rule: resolve_components.induct)
  case (1 env path parent s)
  then show ?case by simp
next
  case (2 env path parent c rest s)
  show ?case
  proof (cases "c = CHR ''/''")
    case True
    then show ?thesis using 2(1) by simp
  next
    case c: False
    define comp where "comp = takeWhile (\<lambda>x. x \<noteq> CHR ''/'') (c # rest)"
    have eq: "resolve_components env path parent (c # rest) s1 =
        (if comp = ''..''
         then (Inl (Error (''Refusing parent directory traversal in '' @ quoted path) EINVAL), closed (DirHandle parent) s1)
         else if comp = ''.'' then resolve_components env path parent (drop (length comp + 1) (c # rest)) s1
         else (case ac_opendir env parent comp of
           Inl errno \<Rightarrow> (Inl (FileError env ''Failed to resolve parent directory for'' path errno), closed (DirHandle parent) s1)
         | Inr child \<Rightarrow> resolve_components env path child (drop (length comp + 1) (c # rest))
             (closed (DirHandle parent) (opened (DirHandle child) s1))))" for s1
      by (subst resolve_components.simps(2)) (simp only: Let_def if_not_P [OF c] comp_def)
    note ih_dot = 2(2) [OF c, folded comp_def, OF refl refl]
    note ih_child = 2(3) [OF c, folded comp_def, OF refl refl]
    consider "comp = ''..''" | "comp \<noteq> ''..''" "comp = ''.''"
      | errno where "comp \<noteq> ''..''" "comp \<noteq> ''.''" "ac_opendir env parent comp = Inl errno"
      | child where "comp \<noteq> ''..''" "comp \<noteq> ''.''" "ac_opendir env parent comp = Inr child"
      by (cases "ac_opendir env parent comp") blast+
    then show ?thesis
    proof cases
      case 1
      then show ?thesis by (simp only: eq simp_thms if_True fst_conv)
    next
      case 2
      then show ?thesis using ih_dot [OF 2, of s0] by (simp only: eq simp_thms if_True if_False)
    next
      case (3 errno)
      then show ?thesis by (simp only: eq simp_thms if_False sum.case fst_conv)
    next
      case (4 child)
      then show ?thesis
        using ih_child [OF 4, of "closed (DirHandle parent) (opened (DirHandle child) s0)"]
        by (simp only: eq simp_thms if_False sum.case)
    qed
  qed
qed

lemma ResolveParentNoFollow_value: "fst (ResolveParentNoFollow env path s) = fst (ResolveParentNoFollow env path s0)"
proof (cases "ac_root env")
  case (Inl e)
  then show ?thesis by (simp add: ResolveParentNoFollow_def Let_def)
next
  case (Inr root)
  have e: "fst (case r of (Inl e, s) \<Rightarrow> (Inl e, s) | (Inr parent, s) \<Rightarrow> (Inr (parent, name), s))
      = (case fst r of Inl e \<Rightarrow> Inl e | Inr parent \<Rightarrow> Inr (parent, name))" for r :: "nat result \<times> disk" and name :: string
    by (cases r; cases "fst r") auto
  show ?thesis
    using resolve_components_value [of env path root "drop 1 (take (the (rfind_char (CHR ''/'') path)) path)"
        "opened (DirHandle root) s" "opened (DirHandle root) s0"]
    by (simp add: ResolveParentNoFollow_def Let_def Inr e)
qed

text \<open>What \<open>stat\<close> and a read through the same directories find.\<close>

definition file_at :: "atomic_calls \<Rightarrow> string \<Rightarrow> disk \<Rightarrow> int + string" where
  "file_at env path s =
     (case fst (ResolveParentNoFollow env path s) of
        Inl e \<Rightarrow> Inl (err_code e)
      | Inr key \<Rightarrow> (case d_entries s key of None \<Rightarrow> Inl ENOENT | Some i \<Rightarrow> Inr (in_bytes (d_inodes s i))))"

lemma file_at_replaced:
  assumes run: "ReplaceFileContentsAtomic env path contents s = (r, s')" and "undisturbed env" "sound s"
  shows "file_at env path s' = (case r of Inl e \<Rightarrow> file_at env path s | Inr b \<Rightarrow> Inr contents)"
proof (cases r)
  case (Inl e)
  have "d_entries s' = d_entries s" using replacement_undisturbed(1) [OF assms] Inl by simp
  moreover have "d_inodes s' i = d_inodes s i" if "d_entries s key = Some i" for key i
    using replacement_frame(2) [OF run] that assms(3) unfolding sound_def by (metis order_less_irrefl)
  ultimately show ?thesis
    using Inl ResolveParentNoFollow_value [of env path s' s]
    by (auto simp: file_at_def split: sum.splits option.splits prod.splits)
next
  case (Inr b)
  then show ?thesis
    using replacement_undisturbed(1) [OF assms] ResolveParentNoFollow_value [of env path s' s]
    by (auto simp: put_in_place_def file_at_def)
qed

text \<open>No call of the library fails.\<close>

definition all_calls :: file_io_calls where
  "all_calls = \<lparr>io_open = \<lambda>n. True, io_lock = True, io_malloc = True, io_realloc = \<lambda>n. True, io_seek = True,
     io_stat = \<lambda>n. True, io_fwrite = \<lambda>n d. length d\<rparr>"

lemma working_all_calls [simp]: "working all_calls"
  by (simp add: working_def all_calls_def)

definition alone :: "atomic_calls \<Rightarrow> atomic_calls" where
  "alone env = env\<lparr>ac_race := \<lambda>n entries. entries\<rparr>"

lemma undisturbed_alone [simp]: "undisturbed (alone env)"
  by (simp add: undisturbed_def alone_def)

text \<open>The context over the machine, when no other process changes the entries. \<open>command\<close> is not called.\<close>

definition disk_context :: "atomic_calls \<Rightarrow> (string \<Rightarrow> disk \<Rightarrow> string result \<times> disk) \<Rightarrow> (string \<Rightarrow> string) \<Rightarrow> disk edit_context" where
  "disk_context env command special =
     \<lparr>ctx_ExecuteCommand = command,
      ctx_GetFileContents = \<lambda>path s. GetFileContents all_calls (ac_strerror env) path (file_at (alone env) path s),
      ctx_GetSpecialFilePath = special,
      ctx_ReplaceFileContentsAtomic = ReplaceFileContentsAtomic (alone env)\<rparr>"

interpretation disk_files: atomic_files "disk_context env command special" sound for env command special
proof
  fix w path c b w' e r
  assume s: "sound w"
  { assume "ctx_ReplaceFileContentsAtomic (disk_context env command special) path c w = (Inr b, w')" "NUL \<notin> set c"
    then show "ctx_GetFileContents (disk_context env command special) path w' = Inr c"
      using file_at_replaced [of "alone env" path c w "Inr b" w'] s
      by (simp add: disk_context_def GetFileContents_works) }
  { assume "ctx_ReplaceFileContentsAtomic (disk_context env command special) path c w = (Inl e, w')"
    then show "ctx_GetFileContents (disk_context env command special) path w'
        = ctx_GetFileContents (disk_context env command special) path w"
      using file_at_replaced [of "alone env" path c w "Inl e" w'] s by (simp add: disk_context_def) }
  { assume "ctx_ReplaceFileContentsAtomic (disk_context env command special) path c w = (r, w')"
    then show "sound w'"
      using replacement_undisturbed(2) [of "alone env" path c w r w'] s by (simp add: disk_context_def) }
next
  fix path w c
  assume "ctx_GetFileContents (disk_context env command special) path w = Inr c"
  then show "NUL \<notin> set c" by (auto simp: disk_context_def dest!: GetFileContents_value)
qed

end
