(* ===== verification/ProcedureClaims.thy ===== *)
theory ProcedureClaims
  imports AtomicFile FilePermissionsCollection
begin

text \<open>
  The properties of the procedures that change the machine: the permissions of a collection of files, an option
  of \<open>login.defs\<close>, and the replacement of a file. The lemmas are those of the component theories; each
  property is applied to a sample machine.
\<close>

section \<open>A sample machine\<close>

definition sample_tree :: indicators_tree where
  "sample_tree = IndicatorsTree_init"

definition sample_root :: fts_entry where
  "sample_root = \<lparr>fe_name = ''d'', fe_path = ''/d'', fe_info = FTS_D, fe_level = 0, fe_errno = 0, fe_uid = 0, fe_gid = 0\<rparr>"

definition sample_file :: fts_entry where
  "sample_file = \<lparr>fe_name = ''a'', fe_path = ''/d/a'', fe_info = FTS_F, fe_level = 1, fe_errno = 0, fe_uid = 0, fe_gid = 0\<rparr>"

definition sample_walk :: walk_calls where
  "sample_walk = \<lparr>pc_stat = \<lambda>path. if path = ''/d/a'' then Inr 1 else Inl ENOENT,
     pc_open = \<lambda>path. if path = ''/d/a'' then Inr (7, 1) else Inl ENOENT,
     pc_fstat = \<lambda>i. None, pc_chown = \<lambda>i. None, pc_chmod = \<lambda>i. None,
     pc_getpwuid = \<lambda>u. None, pc_getgrgid = \<lambda>g. None, pc_getpwnam = \<lambda>n. None, pc_getgrnam = \<lambda>n. None,
     pc_strerror = \<lambda>e. ''error'',
     fc_fts_open = \<lambda>path follow. Inr (FtsTree sample_root [FtsTree sample_file [] sample_file] sample_root, 0),
     fc_fnmatch = \<lambda>pattern name. True, fc_regex = \<lambda>pattern. Inl ''none''\<rparr>"

definition sample_collection :: collection_params where
  "sample_collection = \<lparr>fc_directory = ''/d'', fc_recurse = None, fc_directoriesOnly = False, fc_allFileTypes = False,
     fc_excludeSymlinks = False, fc_excludeDirectories = False, fc_maximumUid = None, fc_maximumGid = None,
     fc_filePattern = ''*'', fc_filePatternIsRegex = False, fc_owner = None, fc_group = None, fc_groupId = None,
     fc_permissions = None, fc_mask = Some 0x12, fc_behavior = AtLeastOneExists\<rparr>"

text \<open>A file of mode 666.\<close>

definition sample_perm_state :: perm_state where
  "sample_perm_state = \<lparr>ps_inodes = \<lambda>i. \<lparr>st_uid = 0, st_gid = 0, st_mode = 0x81B6\<rparr>, ps_fds = []\<rparr>"

lemma sample_names: "names_agree (perm_calls.truncate sample_walk) (sub_params sample_collection e)"
    "plain_modes (sub_params sample_collection e)"
  by (simp_all add: names_agree_def plain_modes_def sub_params_def sample_collection_def mask_eq_exp_minus_1)

lemma sample_remediation:
  "\<exists>it' s'. RemediateFilePermissionsCollection sample_walk sample_collection it sample_perm_state = (Inr Compliant, it', s')"
  by (simp add: RemediateFilePermissionsCollection_def EnsureFilePermissionsCollectionHelper_def collection_error_def
      numericOwnership_def sample_collection_def file_matcher_def sample_walk_def skipped_def selected_def sample_root_def
      sample_file_def recurses_def invokes_def RemediateFilePermissions_def sub_params_def invalid_group_id_def does_def
      open_path_fd_def guarded_def remediate_fd_def reads_def fstat_fd_def fd_inode_def sample_perm_state_def S_ISLNK_def
      remediated_owner_def remediated_group_def change_owner_def change_mode_def same_bits_def new_perms_def do_chmod_def
      remarks_def returns_plain_def conclude_def collection_verdict_def returns_def perm_calls.defs AddIndicator_def Let_def)

definition sample_inode :: inode where
  "sample_inode = \<lparr>st_uid = 0, st_gid = 0, st_mode = 0x81A4, in_nlink = 1, in_bytes = ''PASS_MAX_DAYS 99999'' @ [NL], in_xattrs = []\<rparr>"

definition sample_disk :: disk where
  "sample_disk = \<lparr>d_entries = [(1, ''login.defs'') \<mapsto> 5], d_inodes = \<lambda>i. sample_inode, d_open = [], d_next = 6, d_sequence = 0\<rparr>"

definition sample_atomic :: atomic_calls where
  "sample_atomic = \<lparr>ac_root = Inr 0, ac_opendir = \<lambda>parent name. if parent = 0 \<and> name = ''etc'' then Inr 1 else Inl ENOENT,
     ac_fails = \<lambda>site. None, ac_create = \<lambda>k. None, ac_write = \<lambda>k. Inr 4096, ac_list_size = Inr 0, ac_list = Inr [],
     ac_xattr_size = \<lambda>name. Inr 0, ac_getxattr = \<lambda>name. Inr [], ac_setxattr = \<lambda>name. None, ac_getpid = 42,
     ac_strerror = \<lambda>e. ''error'', ac_race = \<lambda>n entries. entries\<rparr>"

abbreviation sample_context :: "disk edit_context" where
  "sample_context \<equiv> disk_context sample_atomic (\<lambda>cmd s. (Inl (Error ''none'' 1), s)) (\<lambda>path. path)"

definition sample_params :: login_defs_params where
  "sample_params = \<lparr>lo_option = ''PASS_MAX_DAYS'', lo_value = ''365'', lo_comparison = CmpLessOrEqual\<rparr>"

lemma sample_sound: "sound sample_disk"
  by (simp add: sound_def sample_disk_def)


lemma sample_alone: "alone sample_atomic = sample_atomic"
  by (simp add: alone_def sample_atomic_def)

definition sample_new :: string where
  "sample_new = ''PASS_MAX_DAYS 365'' @ [NL]"


lemma sample_edit: "ReplaceEffectiveLoginDefsValue (in_bytes sample_inode) ''PASS_MAX_DAYS'' ''365'' = sample_new"
  by code_simp

lemma sample_file_at: "file_at sample_atomic ''/etc/login.defs'' sample_disk = Inr (in_bytes sample_inode)"
  by code_simp

lemma sample_contents: "ctx_GetFileContents sample_context (login_defs_path sample_context) sample_disk = Inr (in_bytes sample_inode)"
proof -
  have "c_str (in_bytes sample_inode) = in_bytes sample_inode" by code_simp
  then show ?thesis using sample_file_at by (simp add: disk_context_def login_defs_path_def sample_alone GetFileContents_works)
qed

lemma sample_digits: "digit_char 9 = CHR ''9''" "digit_char 3 = CHR ''3''" "digit_char 6 = CHR ''6''" "digit_char 5 = CHR ''5''"
  by code_simp+

lemma sample_number: "TryStringToInt ''99999'' 10 = Inr 99999" "TryStringToInt ''365'' 10 = Inr 365"
proof -
  have "to_string_int 99999 = ''99999''" "to_string_int 365 = ''365''"
    using sample_digits by (simp_all add: to_string_int_def to_string_nat.simps)
  then show "TryStringToInt ''99999'' 10 = Inr 99999" "TryStringToInt ''365'' 10 = Inr 365"
    using TryStringToInt_to_string_int [of 99999] TryStringToInt_to_string_int [of 365] by simp_all
qed

lemma sample_lines: "input_lines (in_bytes sample_inode) = [''PASS_MAX_DAYS 99999'']" "input_lines sample_new = [''PASS_MAX_DAYS 365'']"
  by code_simp+

lemma sample_records: "record_of ''PASS_MAX_DAYS 99999'' = [(''PASS_MAX_DAYS'', ''99999'')]"
    "record_of ''PASS_MAX_DAYS 365'' = [(''PASS_MAX_DAYS'', ''365'')]"
  by code_simp+

definition sample_document :: "string \<Rightarrow> login_document" where
  "sample_document source = (empty_document source)\<lparr>ld_passMaxDays := Some 99999\<rparr>"

lemma sample_conditions:
  "length (in_bytes sample_inode) \<le> MaxBytes \<and> (\<forall>l\<in>set (input_lines (in_bytes sample_inode)). line_ok l)
     \<and> length (records (input_lines (in_bytes sample_inode))) \<le> MaxRecords
     \<and> document_agrees (records (input_lines (in_bytes sample_inode))) (sample_document source)
     \<and> ld_source (sample_document source) = source"
proof -
  have "StripComment (snd kr) \<noteq> []" if "record_key ''PASS_MAX_DAYS 99999'' = Some kr" for kr
  proof -
    have "record_key ''PASS_MAX_DAYS 99999'' = Some (''PASS_MAX_DAYS'', ''99999'')" by code_simp
    moreover have "StripComment ''99999'' \<noteq> []" by code_simp
    ultimately show ?thesis using that by simp
  qed
  then have "line_ok ''PASS_MAX_DAYS 99999''" by (simp add: line_ok_def)
  moreover have "length (in_bytes sample_inode) \<le> MaxBytes" by (simp add: sample_inode_def)
  ultimately show ?thesis
    by (simp add: sample_lines sample_records document_agrees_def agrees_def sample_document_def
        empty_document_def sample_number)
qed



lemma sample_value: "GetRemediationValue sample_params = Inr ''365''"
  by code_simp

lemma sample_plain: "\<forall>x\<in>set (lo_value sample_params). \<not> isspace x \<and> x \<noteq> CHR ''#'' \<and> x \<noteq> NUL"
  by (simp add: sample_params_def isspace_def)

section \<open>The text of login.defs\<close>

text \<open>
  C23. A text of \<open>login.defs\<close> is accepted exactly when it is within the limits, its lines are well formed, and all
  records of a known key have the same valid value; the document then has these values and nothing else.
\<close>

theorem login_defs_language:
  "LoginDefs_Parse bytes source = Inr doc \<longleftrightarrow>
     length bytes \<le> MaxBytes \<and> (\<forall>l\<in>set (input_lines bytes). line_ok l)
     \<and> length (records (input_lines bytes)) \<le> MaxRecords
     \<and> document_agrees (records (input_lines bytes)) doc \<and> ld_source doc = source"
  by (rule LoginDefs_Parse_iff)

theorem login_defs_language_witness:
  "LoginDefs_Parse (in_bytes sample_inode) ''f'' = Inr (sample_document ''f'')"
  by (rule login_defs_language [THEN iffD2, OF sample_conditions])

section \<open>The replacement of a file\<close>



section \<open>An option of login.defs\<close>

text \<open>
  C12. Whatever a remediation of an option answers, \<open>login.defs\<close> has its old content or the edited one, never
  another; the edited one stays only with the answer Compliant, or with an error that says that the rollback failed.
\<close>

theorem login_defs_transaction:
  assumes "sound s" "RemediateLoginDefsOption (disk_context env command special) p it s = (r, it', s')"
    and "ctx_GetFileContents (disk_context env command special) (login_defs_path (disk_context env command special)) s = Inr c"
    and "\<forall>x\<in>set (lo_value p). \<not> isspace x \<and> x \<noteq> CHR ''#'' \<and> x \<noteq> NUL"
  shows "ctx_GetFileContents (disk_context env command special) (login_defs_path (disk_context env command special)) s' = Inr c \<or>
    (\<exists>v. GetRemediationValue p = Inr v
       \<and> ctx_GetFileContents (disk_context env command special) (login_defs_path (disk_context env command special)) s'
           = Inr (ReplaceEffectiveLoginDefsValue c (lo_option p) v)
       \<and> (r = Inr Compliant \<or> (\<exists>e a b. r = Inl e \<and> err_message e = a @ ''; rollback failed: '' @ b)))"
  by (rule disk_files.transaction [OF assms])

theorem login_defs_transaction_witness:
  "\<exists>r it' s'. RemediateLoginDefsOption sample_context sample_params sample_tree sample_disk = (r, it', s')
    \<and> ctx_GetFileContents sample_context (login_defs_path sample_context) s' \<in> {Inr (in_bytes sample_inode), Inr sample_new}"
proof -
  obtain r it' s' where run: "RemediateLoginDefsOption sample_context sample_params sample_tree sample_disk = (r, it', s')"
    using prod_cases3 by blast
  from login_defs_transaction [OF sample_sound run sample_contents sample_plain] sample_value sample_edit
  have "ctx_GetFileContents sample_context (login_defs_path sample_context) s' \<in> {Inr (in_bytes sample_inode), Inr sample_new}"
    by (auto simp: sample_params_def)
  then show ?thesis using run by blast
qed



section \<open>Permissions of a collection\<close>

text \<open>
  C11. A collection of files whose remediation answered Compliant is accepted by the audit that follows: every selected
  file has the owner, group, permissions and mask asked for, and their number is what the behaviour asks for. The user
  database names what it numbers, no set-ID bits are asked for, and the paths have no symbolic links.
\<close>

theorem collection_remediated:
  assumes "RemediateFilePermissionsCollection env p it s = (Inr Compliant, it', s')"
    and "fc_fts_open env (fc_directory p) True = fc_fts_open env (fc_directory p) False"
    and "\<forall>path fd i. pc_open env path = Inr (fd, i) \<longrightarrow> pc_stat env path = Inr i \<and> fd \<notin> fst ` set (ps_fds s)"
    and "names_agree (perm_calls.truncate env) (sub_params p e)" "plain_modes (sub_params p e)"
  shows "fst (AuditFilePermissionsCollection env p it2 s') = Inr Compliant"
  by (rule remediated_collection_passes [OF assms])

theorem collection_remediated_witness:
  "\<exists>it' s'. RemediateFilePermissionsCollection sample_walk sample_collection sample_tree sample_perm_state = (Inr Compliant, it', s')
    \<and> fst (AuditFilePermissionsCollection sample_walk sample_collection it' s') = Inr Compliant"
proof -
  obtain it' s' where run: "RemediateFilePermissionsCollection sample_walk sample_collection sample_tree sample_perm_state = (Inr Compliant, it', s')"
    using sample_remediation by blast
  have "fst (AuditFilePermissionsCollection sample_walk sample_collection it' s') = Inr Compliant"
    by (rule collection_remediated [OF run _ _ sample_names])
      (auto simp: sample_walk_def sample_perm_state_def split: if_splits)
  then show ?thesis using run by blast
qed

text \<open>
  C22. The remediation of a collection changes no file but those its selected entries lead to, never a symbolic link, and
  leaves no descriptor open, whatever it answers.
\<close>

theorem collection_confined:
  assumes "RemediateFilePermissionsCollection env p it s = (r, it', s')"
    and "\<forall>path fd i. pc_open (perm_calls.truncate env) path = Inr (fd, i) \<longrightarrow> fd \<notin> fst ` set (ps_fds s)"
  shows "ps_fds s' = ps_fds s
    \<and> (\<forall>j. (\<forall>matches tree ee. file_matcher env p = Inr matches \<longrightarrow> fc_fts_open env (fc_directory p) False = Inr (tree, ee)
            \<longrightarrow> \<not> reachable (perm_calls.truncate env) (filter (selected p matches) (fts_sequence (skipped p) tree)) j)
          \<or> S_ISLNK (st_mode (ps_inodes s j))
        \<longrightarrow> ps_inodes s' j = ps_inodes s j)"
proof -
  consider "s' = s"
    | matches tree ee where "file_matcher env p = Inr matches" "fc_fts_open env (fc_directory p) False = Inr (tree, ee)"
      "collection_loop env p True matches ee (conclude p) (fts_sequence (skipped p) tree) 0 0 it s = (r, it', s')"
      "\<not> numericOwnership p"
    using assms(1)
    by (cases "collection_error p True"; cases "file_matcher env p"; cases "fc_fts_open env (fc_directory p) False")
      (auto simp: RemediateFilePermissionsCollection_def EnsureFilePermissionsCollectionHelper_def fails_def returns_def
        AddIndicator_def collection_error_def split: if_splits)
  then show ?thesis
  proof cases
    case 1
    then show ?thesis by simp
  next
    case (2 matches tree ee)
    from remediation_loop_touches [OF 2(3) _ 2(4)] assms(2) 2(1,2) show ?thesis by auto
  qed
qed

theorem collection_confined_witness:
  "\<exists>it' s'. RemediateFilePermissionsCollection sample_walk sample_collection sample_tree sample_perm_state = (Inr Compliant, it', s')
    \<and> ps_fds s' = []"
proof -
  obtain it' s' where run: "RemediateFilePermissionsCollection sample_walk sample_collection sample_tree sample_perm_state = (Inr Compliant, it', s')"
    using sample_remediation by blast
  have "ps_fds s' = ps_fds sample_perm_state"
    using collection_confined [OF run] by (simp add: sample_perm_state_def)
  then show ?thesis using run by (auto simp: sample_perm_state_def)
qed

end
