(* ===== verification/Accounts.thy ===== *)
theory Accounts
  imports LoginDefsOption
begin

text \<open>
  The procedures of \<open>src/lib/procedures\<close> that audit the accounts of the machine: \<open>UniqueUserId\<close>,
  \<open>UniqueGroupId\<close>, \<open>NoShadowPrimaryGroup\<close>, \<open>PasswdGroupsExist\<close>, \<open>PasswordChangeDate\<close>,
  \<open>NoShellAccountsLocked\<close>, \<open>SystemAccountShell\<close>, \<open>ShadowField\<close> and
  \<open>NoDuplicateEntries\<close>, with \<open>Users.cpp\<close> and \<open>ListValidShells.cpp\<close>. The databases are lists of
  entries: a file that can be opened is read to its end (the iterators throw on other errors, which is not
  represented). Shown: each audit is Compliant exactly when the accounts are as required.
\<close>

section \<open>The databases\<close>

record passwd_entry =
  pw_name :: string
  pw_uid :: "32 word"
  pw_gid :: "32 word"
  pw_shell :: string

record group_entry =
  gr_name :: string
  gr_gid :: "32 word"

text \<open>The numbers of a shadow entry are \<open>long\<close>; -1 is an empty field.\<close>

record shadow_entry =
  sp_namp :: string
  sp_pwdp :: string
  sp_lstchg :: int
  sp_min :: int
  sp_max :: int
  sp_warn :: int
  sp_inact :: int
  sp_expire :: int

text \<open>\<open>fopen\<close> with the entries, or the error number; the streams of \<open>ifstream\<close>; the enumerations
  with the final \<open>errno\<close>.\<close>

record account_calls =
  ac_passwd :: "string \<Rightarrow> int + passwd_entry list"
  ac_group :: "string \<Rightarrow> int + group_entry list"
  ac_shadow :: "string \<Rightarrow> int + shadow_entry list"
  ac_ifstream :: "string \<Rightarrow> string option"
  ac_stat_file :: "string \<Rightarrow> int option"
  ac_stream_bad :: "string \<Rightarrow> bool"
  ac_getpwnam :: "string \<Rightarrow> 32 word option"
  ac_getgrnam :: "string \<Rightarrow> 32 word option"
  ac_getpwent :: "passwd_entry list \<times> int"
  ac_getgrent :: "group_entry list \<times> int"
  ac_errstr :: "int \<Rightarrow> string"
  ac_time :: int
  ac_regex :: "string \<Rightarrow> string + (string \<Rightarrow> bool)"
  ac_special :: "string \<Rightarrow> string"
  ac_contents :: "string \<Rightarrow> string result"

definition UsersRange_Make :: "account_calls \<Rightarrow> string \<Rightarrow> passwd_entry list result" where
  "UsersRange_Make env path =
     (case ac_passwd env path of
        Inl errno \<Rightarrow> Inl (Error (''Failed to create UsersRange: '' @ ac_errstr env errno) errno)
      | Inr es \<Rightarrow> Inr es)"

definition GroupsRange_Make :: "account_calls \<Rightarrow> string \<Rightarrow> group_entry list result" where
  "GroupsRange_Make env path =
     (case ac_group env path of
        Inl errno \<Rightarrow> Inl (Error (''Failed to create GroupsRange: '' @ ac_errstr env errno) errno)
      | Inr es \<Rightarrow> Inr es)"

definition PasswordEntryRange_Make :: "account_calls \<Rightarrow> string \<Rightarrow> shadow_entry list result" where
  "PasswordEntryRange_Make env path =
     (case ac_shadow env path of
        Inl errno \<Rightarrow> Inl (Error (''Failed to open /etc/shadow file: '' @ ac_errstr env errno) errno)
      | Inr es \<Rightarrow> Inr es)"

text \<open>A call that returns a \<open>Result\<close> whose error is returned.\<close>

definition tries :: "'a result \<Rightarrow> ('a \<Rightarrow> 'w body) \<Rightarrow> 'w body" where
  "tries r k = (case r of Inl e \<Rightarrow> fails e | Inr x \<Rightarrow> k x)"

lemma tries_simps [simp]: "tries (Inl e) k = fails e" "tries (Inr x) k = k x"
  by (simp_all add: tries_def)

lemma contract_tries [contract_intros]: "(\<And>x. procedure_contract (k x)) \<Longrightarrow> procedure_contract (tries r k)"
  unfolding tries_def by (intro contract_intros)

text \<open>A loop over entries whose step may return or go on with the rest.\<close>

lemma contract_foldr [contract_intros]:
  "(\<And>x b. procedure_contract b \<Longrightarrow> procedure_contract (step x b)) \<Longrightarrow> procedure_contract k
   \<Longrightarrow> procedure_contract (foldr step xs k)"
  by (induction xs) auto

text \<open>The status of a body that does not read the machine.\<close>

definition ends_with :: "status result \<Rightarrow> 'w body \<Rightarrow> bool" where
  "ends_with r b \<longleftrightarrow> (\<forall>it w. fst (b it w) = r)"

lemma ends_with_base [simp]:
  "ends_with r (returns s msg) \<longleftrightarrow> Inr s = r" "ends_with r (fails e) \<longleftrightarrow> Inl e = r"
  "ends_with r (returns_plain s) \<longleftrightarrow> Inr s = r"
  by (simp_all add: ends_with_def)

lemma ends_with_remarks [simp]: "ends_with r k \<Longrightarrow> ends_with r (remarks s msg k)"
  by (simp add: ends_with_def)

section \<open>Unique identifiers\<close>

record unique_user_params =
  uu_username :: string
  uu_uid :: "int option"
  uu_gid :: "int option"

text \<open>The comparison with an identifier that is asked for, converted to \<open>uid_t\<close>.\<close>

definition asked :: "int option \<Rightarrow> 32 word \<Rightarrow> bool" where
  "asked x actual \<longleftrightarrow> (case x of None \<Rightarrow> False | Some i \<Rightarrow> actual = word_of_int i)"

lemma asked_simps [simp]: "\<not> asked None i" "asked (Some x) i \<longleftrightarrow> i = word_of_int x"
  by (simp_all add: asked_def)

text \<open>The flags \<open>hasUid\<close> and \<open>hasGid\<close>.\<close>

fun unique_user_loop :: "unique_user_params \<Rightarrow> bool \<Rightarrow> bool \<Rightarrow> passwd_entry list \<Rightarrow> (bool \<Rightarrow> bool \<Rightarrow> 'w body) \<Rightarrow> 'w body" where
  "unique_user_loop p hasUid hasGid [] k = k hasUid hasGid"
| "unique_user_loop p hasUid hasGid (u # us) k =
     (let uid_hit = asked (uu_uid p) (pw_uid u);
          gid_hit = asked (uu_gid p) (pw_gid u)
      in if uid_hit \<and> pw_name u \<noteq> uu_username p
         then returns NonCompliant (''A user other than '' @ quoted (uu_username p) @ '' has UID '' @ to_string_nat (unat (pw_uid u)))
         else if gid_hit \<and> pw_name u \<noteq> uu_username p
         then returns NonCompliant (''A user other than '' @ quoted (uu_username p) @ '' has GID '' @ to_string_nat (unat (pw_gid u)))
         else unique_user_loop p (hasUid \<or> uid_hit) (hasGid \<or> gid_hit) us k)"

definition AuditUniqueUserId :: "account_calls \<Rightarrow> unique_user_params \<Rightarrow> 'w body" where
  "AuditUniqueUserId env p =
     tries (UsersRange_Make env (ac_special env ''/etc/passwd'')) (\<lambda>us.
       unique_user_loop p False False us (\<lambda>hasUid hasGid.
         if uu_uid p \<noteq> None \<and> \<not> hasUid
         then returns NonCompliant (''No user with UID '' @ to_string_int (the (uu_uid p)) @ '' found'')
         else if uu_gid p \<noteq> None \<and> \<not> hasGid
         then returns NonCompliant (''No user with GID '' @ to_string_int (the (uu_gid p)) @ '' found'')
         else returns Compliant (''All criteria has been met for user '' @ quoted (uu_username p))))"

record unique_group_params =
  ug_groupName :: string
  ug_gid :: "int option"

fun unique_group_loop :: "unique_group_params \<Rightarrow> bool \<Rightarrow> group_entry list \<Rightarrow> (bool \<Rightarrow> 'w body) \<Rightarrow> 'w body" where
  "unique_group_loop p hasGid [] k = k hasGid"
| "unique_group_loop p hasGid (g # gs) k =
     (let hit = asked (ug_gid p) (gr_gid g)
      in if hit \<and> gr_name g \<noteq> ug_groupName p
         then returns NonCompliant (''A group other than '' @ quoted (ug_groupName p) @ '' has GID '' @ to_string_nat (unat (gr_gid g)))
         else unique_group_loop p (hasGid \<or> hit) gs k)"

definition AuditUniqueGroupId :: "account_calls \<Rightarrow> unique_group_params \<Rightarrow> 'w body" where
  "AuditUniqueGroupId env p =
     tries (GroupsRange_Make env (ac_special env ''/etc/group'')) (\<lambda>gs.
       unique_group_loop p False gs (\<lambda>hasGid.
         if ug_gid p \<noteq> None \<and> \<not> hasGid
         then returns NonCompliant (''No group with GID '' @ to_string_int (the (ug_gid p)) @ '' found'')
         else returns Compliant (''All criteria has been met for group '' @ quoted (ug_groupName p))))"

section \<open>Groups\<close>

definition AuditNoShadowPrimaryGroup :: "account_calls \<Rightarrow> 'w body" where
  "AuditNoShadowPrimaryGroup env =
     (case ac_getgrnam env ''shadow'' of
        None \<Rightarrow> fails (Error (''Group '' @ quoted ''shadow'' @ '' not found'') EINVAL)
      | Some gid \<Rightarrow>
          tries (UsersRange_Make env ''/etc/passwd'') (\<lambda>us.
            foldr (\<lambda>u k. if gid = pw_gid u
                then returns NonCompliant (''User's '' @ quoted (pw_name u) @ '' primary group is '' @ quoted ''shadow'') else k) us
              (returns Compliant (''No user has '' @ quoted ''shadow'' @ '' as primary group''))))"

fun passwd_groups_loop :: "32 word set \<Rightarrow> status \<Rightarrow> passwd_entry list \<Rightarrow> (status \<Rightarrow> 'w body) \<Rightarrow> 'w body" where
  "passwd_groups_loop gids res [] k = k res"
| "passwd_groups_loop gids res (u # us) k =
     (if pw_gid u \<notin> gids
      then remarks NonCompliant (''User's '' @ quoted (pw_name u) @ '' group '' @ to_string_nat (unat (pw_gid u))
        @ '' from /etc/passwd does not exist in /etc/group'') (passwd_groups_loop gids NonCompliant us k)
      else passwd_groups_loop gids res us k)"

definition AuditPasswdGroupsExist :: "account_calls \<Rightarrow> 'w body" where
  "AuditPasswdGroupsExist env =
     (case ac_getgrent env of (gs, group_errno) \<Rightarrow>
      if group_errno \<noteq> 0 then fails (Error (''getgrent failed: '' @ ac_errstr env group_errno) group_errno)
      else (case ac_getpwent env of (us, passwd_errno) \<Rightarrow>
        passwd_groups_loop (set (map gr_gid gs)) Compliant us (\<lambda>res.
          if passwd_errno \<noteq> 0 then fails (Error (''getpwent failed: '' @ ac_errstr env passwd_errno) passwd_errno)
          else if res = Compliant
          then remarks Compliant (''All user groups from '' @ quoted ''/etc/passwd'' @ '' exist in '' @ quoted ''/etc/group'') (returns_plain res)
          else returns_plain res)))"

definition RemediatePasswdGroupsExist :: "account_calls \<Rightarrow> 'w body" where
  "RemediatePasswdGroupsExist env =
     invokes (AuditPasswdGroupsExist env) (\<lambda>r. case r of
        Inl e \<Rightarrow> fails e
      | Inr s \<Rightarrow>
          if s = Compliant then returns Compliant ''Audit passed, remediation not required''
          else returns NonCompliant ''Manual remediation is required to ensure all groups from /etc/passwd exist in /etc/group'')"

section \<open>Dates\<close>

definition maxInvalidUsers :: nat where "maxInvalidUsers = 5"

fun change_date_loop :: "account_calls \<Rightarrow> int \<Rightarrow> nat \<Rightarrow> shadow_entry list \<Rightarrow> (nat \<Rightarrow> 'w body) \<Rightarrow> 'w body" where
  "change_date_loop env today count [] k = k count"
| "change_date_loop env today count (e # es) k =
     (if sp_lstchg e \<le> today then change_date_loop env today count es k
      else
        let next = (if count + 1 \<ge> maxInvalidUsers then k (count + 1) else change_date_loop env today (count + 1) es k)
        in if count < maxInvalidUsers
           then remarks NonCompliant (case ac_getpwnam env (sp_namp e) of
               Some uid \<Rightarrow> ''User '' @ to_string_nat (unat uid) @ '' has a password change date in the future''
             | None \<Rightarrow> ''Some user has a password change date in the future and is not present in password database'') next
           else next)"

definition AuditPasswordChangeDate :: "account_calls \<Rightarrow> 'w body" where
  "AuditPasswordChangeDate env =
     tries (PasswordEntryRange_Make env (ac_special env ''/etc/shadow'')) (\<lambda>es.
       change_date_loop env (ac_time env div (24 * 3600)) 0 es (\<lambda>count.
         if count = 0 then returns Compliant ''All users have password change dates in the past''
         else returns NonCompliant (''At least '' @ to_string_nat count @ '' users have password change dates in the future'')))"

section \<open>What is accepted\<close>

lemma unique_user_ends:
  assumes "\<And>a b. ends_with (r a b) (k a b)"
  shows "ends_with
    (if \<exists>u\<in>set us. pw_name u \<noteq> uu_username p
        \<and> (asked (uu_uid p) (pw_uid u) \<or> asked (uu_gid p) (pw_gid u))
     then Inr NonCompliant
     else r (hasUid \<or> (\<exists>u\<in>set us. asked (uu_uid p) (pw_uid u)))
       (hasGid \<or> (\<exists>u\<in>set us. asked (uu_gid p) (pw_gid u))))
    (unique_user_loop p hasUid hasGid us k)"
proof (induction us arbitrary: hasUid hasGid)
  case Nil
  then show ?case using assms by simp
next
  case (Cons u us)
  show ?case
  proof (cases "pw_name u \<noteq> uu_username p
        \<and> (asked (uu_uid p) (pw_uid u) \<or> asked (uu_gid p) (pw_gid u))")
    case True
    then show ?thesis by (auto simp: Let_def)
  next
    case False
    then have step: "unique_user_loop p hasUid hasGid (u # us) k = unique_user_loop p
        (hasUid \<or> asked (uu_uid p) (pw_uid u))
        (hasGid \<or> asked (uu_gid p) (pw_gid u)) us k"
      by (auto simp: Let_def)
    show ?thesis
      using Cons [of "hasUid \<or> asked (uu_uid p) (pw_uid u)" "hasGid \<or> asked (uu_gid p) (pw_gid u)"] False
      unfolding step by (auto simp: disj_assoc split: if_splits)
  qed
qed

text \<open>The identifiers asked for belong to the user and to no other.\<close>

lemma AuditUniqueUserId_Compliant:
  "fst (AuditUniqueUserId env p it w) = Inr Compliant \<longleftrightarrow>
     (\<exists>us. ac_passwd env (ac_special env ''/etc/passwd'') = Inr us
       \<and> (\<forall>x\<in>set_option (uu_uid p). (\<exists>u\<in>set us. pw_uid u = word_of_int x)
            \<and> (\<forall>u\<in>set us. pw_uid u = word_of_int x \<longrightarrow> pw_name u = uu_username p))
       \<and> (\<forall>x\<in>set_option (uu_gid p). (\<exists>u\<in>set us. pw_gid u = word_of_int x)
            \<and> (\<forall>u\<in>set us. pw_gid u = word_of_int x \<longrightarrow> pw_name u = uu_username p)))"
proof (cases "ac_passwd env (ac_special env ''/etc/passwd'')")
  case (Inl e)
  then show ?thesis by (simp add: AuditUniqueUserId_def UsersRange_Make_def)
next
  case (Inr us)
  let ?k = "\<lambda>hasUid hasGid. if uu_uid p \<noteq> None \<and> \<not> hasUid
         then returns NonCompliant (''No user with UID '' @ to_string_int (the (uu_uid p)) @ '' found'')
         else if uu_gid p \<noteq> None \<and> \<not> hasGid
         then returns NonCompliant (''No user with GID '' @ to_string_int (the (uu_gid p)) @ '' found'')
         else returns Compliant (''All criteria has been met for user '' @ quoted (uu_username p))"
  have k: "ends_with (if uu_uid p \<noteq> None \<and> \<not> a \<or> uu_gid p \<noteq> None \<and> \<not> b then Inr NonCompliant else Inr Compliant) (?k a b)"
    for a b by auto
  have "ends_with
    (if \<exists>u\<in>set us. pw_name u \<noteq> uu_username p
        \<and> (asked (uu_uid p) (pw_uid u) \<or> asked (uu_gid p) (pw_gid u))
     then Inr NonCompliant
     else if uu_uid p \<noteq> None \<and> \<not> (\<exists>u\<in>set us. asked (uu_uid p) (pw_uid u))
         \<or> uu_gid p \<noteq> None \<and> \<not> (\<exists>u\<in>set us. asked (uu_gid p) (pw_gid u))
     then Inr NonCompliant else Inr Compliant) (AuditUniqueUserId env p)"
    unfolding AuditUniqueUserId_def UsersRange_Make_def Inr sum.case tries_simps
    using unique_user_ends [where k = ?k and hasUid = False and hasGid = False and us = us, OF k]
    by (simp only: simp_thms)
  then show ?thesis using Inr by (cases "uu_uid p"; cases "uu_gid p") (auto simp: ends_with_def split: if_splits)
qed

lemma unique_group_ends:
  assumes "\<And>a. ends_with (r a) (k a)"
  shows "ends_with
    (if \<exists>g\<in>set gs. gr_name g \<noteq> ug_groupName p \<and> asked (ug_gid p) (gr_gid g) then Inr NonCompliant
     else r (hasGid \<or> (\<exists>g\<in>set gs. asked (ug_gid p) (gr_gid g))))
    (unique_group_loop p hasGid gs k)"
proof (induction gs arbitrary: hasGid)
  case Nil
  then show ?case using assms by simp
next
  case (Cons g gs)
  show ?case
  proof (cases "gr_name g \<noteq> ug_groupName p \<and> asked (ug_gid p) (gr_gid g)")
    case True
    then show ?thesis by (auto simp: Let_def)
  next
    case False
    then have step: "unique_group_loop p hasGid (g # gs) k
        = unique_group_loop p (hasGid \<or> asked (ug_gid p) (gr_gid g)) gs k"
      by (auto simp: Let_def)
    show ?thesis using Cons [of "hasGid \<or> asked (ug_gid p) (gr_gid g)"] False unfolding step
      by (auto simp: disj_assoc split: if_splits)
  qed
qed

lemma AuditUniqueGroupId_Compliant:
  "fst (AuditUniqueGroupId env p it w) = Inr Compliant \<longleftrightarrow>
     (\<exists>gs. ac_group env (ac_special env ''/etc/group'') = Inr gs
       \<and> (\<forall>x\<in>set_option (ug_gid p). (\<exists>g\<in>set gs. gr_gid g = word_of_int x)
            \<and> (\<forall>g\<in>set gs. gr_gid g = word_of_int x \<longrightarrow> gr_name g = ug_groupName p)))"
proof (cases "ac_group env (ac_special env ''/etc/group'')")
  case (Inl e)
  then show ?thesis by (simp add: AuditUniqueGroupId_def GroupsRange_Make_def)
next
  case (Inr gs)
  let ?k = "\<lambda>hasGid. if ug_gid p \<noteq> None \<and> \<not> hasGid
         then returns NonCompliant (''No group with GID '' @ to_string_int (the (ug_gid p)) @ '' found'')
         else returns Compliant (''All criteria has been met for group '' @ quoted (ug_groupName p))"
  have k: "ends_with (if ug_gid p \<noteq> None \<and> \<not> a then Inr NonCompliant else Inr Compliant) (?k a)" for a by auto
  have "ends_with
    (if \<exists>g\<in>set gs. gr_name g \<noteq> ug_groupName p \<and> asked (ug_gid p) (gr_gid g) then Inr NonCompliant
     else if ug_gid p \<noteq> None \<and> \<not> (\<exists>g\<in>set gs. asked (ug_gid p) (gr_gid g)) then Inr NonCompliant else Inr Compliant)
    (AuditUniqueGroupId env p)"
    unfolding AuditUniqueGroupId_def GroupsRange_Make_def Inr sum.case tries_simps
    using unique_group_ends [where k = ?k and hasGid = False and gs = gs, OF k] by (simp only: simp_thms)
  then show ?thesis using Inr by (cases "ug_gid p") (auto simp: ends_with_def split: if_splits)
qed

lemma AuditNoShadowPrimaryGroup_Compliant:
  "fst (AuditNoShadowPrimaryGroup env it w) = Inr Compliant \<longleftrightarrow>
     (\<exists>gid us. ac_getgrnam env ''shadow'' = Some gid \<and> ac_passwd env ''/etc/passwd'' = Inr us \<and> (\<forall>u\<in>set us. pw_gid u \<noteq> gid))"
proof -
  have loop: "fst (foldr (\<lambda>u k. if gid = pw_gid u then returns NonCompliant (msg u) else k) us (returns Compliant t) it w)
      = Inr Compliant \<longleftrightarrow> (\<forall>u\<in>set us. pw_gid u \<noteq> gid)" for gid us msg t
    by (induction us) auto
  show ?thesis
    by (auto simp: AuditNoShadowPrimaryGroup_def UsersRange_Make_def loop split: option.splits sum.splits)
qed

lemma passwd_groups_ends:
  assumes "\<And>a. ends_with (r a) (k a)"
  shows "ends_with (r (if \<exists>u\<in>set us. pw_gid u \<notin> gids then NonCompliant else res)) (passwd_groups_loop gids res us k)"
proof (induction us arbitrary: res)
  case Nil
  then show ?case using assms by simp
next
  case (Cons u us)
  then show ?case using Cons [of NonCompliant] Cons [of res] by auto
qed

text \<open>Every primary group exists; the remediation asks for the same.\<close>

lemma AuditPasswdGroupsExist_Compliant:
  "fst (AuditPasswdGroupsExist env it w) = Inr Compliant \<longleftrightarrow>
     snd (ac_getgrent env) = 0 \<and> snd (ac_getpwent env) = 0
     \<and> pw_gid ` set (fst (ac_getpwent env)) \<subseteq> gr_gid ` set (fst (ac_getgrent env))"
proof -
  obtain gs e1 us e2 where c: "ac_getgrent env = (gs, e1)" "ac_getpwent env = (us, e2)" by (meson surj_pair)
  let ?k = "\<lambda>res. if e2 \<noteq> 0 then fails (Error (''getpwent failed: '' @ ac_errstr env e2) e2)
          else if res = Compliant
          then remarks Compliant (''All user groups from '' @ quoted ''/etc/passwd'' @ '' exist in '' @ quoted ''/etc/group'') (returns_plain res)
          else returns_plain res"
  have k: "ends_with (if e2 \<noteq> 0 then Inl (Error (''getpwent failed: '' @ ac_errstr env e2) e2) else Inr res) (?k res)" for res
    by auto
  show ?thesis
    using passwd_groups_ends [where k = ?k and us = us and res = Compliant and gids = "set (map gr_gid gs)", OF k] c
    by (auto simp: AuditPasswdGroupsExist_def ends_with_def split: if_splits)
qed

lemma change_date_ends:
  assumes "\<And>n. ends_with (if n = 0 then Inr Compliant else Inr NonCompliant) (k n)"
  shows "ends_with (if count = 0 \<and> (\<forall>e\<in>set es. sp_lstchg e \<le> today) then Inr Compliant else Inr NonCompliant)
    (change_date_loop env today count es k)"
proof (induction es arbitrary: count)
  case Nil
  then show ?case using assms [of count] by simp
next
  case (Cons e es)
  have "ends_with (Inr NonCompliant) (if count + 1 \<ge> maxInvalidUsers then k (count + 1) else change_date_loop env today (count + 1) es k)"
    using assms [of "count + 1"] Cons [of "count + 1"] by simp
  then show ?case using Cons [of count] by (auto simp: Let_def split: if_splits)
qed

lemma AuditPasswordChangeDate_Compliant:
  "fst (AuditPasswordChangeDate env it w) = Inr Compliant \<longleftrightarrow>
     (\<exists>es. ac_shadow env (ac_special env ''/etc/shadow'') = Inr es \<and> (\<forall>e\<in>set es. sp_lstchg e \<le> ac_time env div 86400))"
proof (cases "ac_shadow env (ac_special env ''/etc/shadow'')")
  case (Inl e)
  then show ?thesis by (simp add: AuditPasswordChangeDate_def PasswordEntryRange_Make_def)
next
  case (Inr es)
  let ?k = "\<lambda>count. if count = 0 then returns Compliant ''All users have password change dates in the past''
         else returns NonCompliant (''At least '' @ to_string_nat count @ '' users have password change dates in the future'')"
  have k: "ends_with (if n = 0 then Inr Compliant else Inr NonCompliant) (?k n)" for n by simp
  show ?thesis
    using change_date_ends [where k = ?k and count = 0 and es = es and env = env and today = "ac_time env div 86400", OF k] Inr
    by (auto simp: AuditPasswordChangeDate_def PasswordEntryRange_Make_def ends_with_def split: if_splits)
qed

section \<open>They keep the contract\<close>

lemma account_loops_contract [contract_intros]:
  "(\<And>a b. procedure_contract (k a b)) \<Longrightarrow> procedure_contract (unique_user_loop p a0 b0 us k)"
  "(\<And>a. procedure_contract (k1 a)) \<Longrightarrow> procedure_contract (unique_group_loop q a1 gs k1)"
  "(\<And>s. procedure_contract (k2 s)) \<Longrightarrow> procedure_contract (passwd_groups_loop gids res us k2)"
  "(\<And>n. procedure_contract (k3 n)) \<Longrightarrow> procedure_contract (change_date_loop env today n3 es k3)"
proof -
  show "(\<And>a b. procedure_contract (k a b)) \<Longrightarrow> procedure_contract (unique_user_loop p a0 b0 us k)"
    by (induction us arbitrary: a0 b0) (auto simp: Let_def intro!: contract_returns)
  show "(\<And>a. procedure_contract (k1 a)) \<Longrightarrow> procedure_contract (unique_group_loop q a1 gs k1)"
    by (induction gs arbitrary: a1) (auto simp: Let_def intro!: contract_returns)
  show "(\<And>s. procedure_contract (k2 s)) \<Longrightarrow> procedure_contract (passwd_groups_loop gids res us k2)"
    by (induction us arbitrary: res) (auto intro!: contract_remarks)
  show "(\<And>n. procedure_contract (k3 n)) \<Longrightarrow> procedure_contract (change_date_loop env today n3 es k3)"
    by (induction es arbitrary: n3) (auto simp: Let_def intro!: contract_remarks)
qed

interpretation unique_user: procedure_contract "AuditUniqueUserId env p" for env p
  unfolding AuditUniqueUserId_def by (intro contract_intros)

interpretation unique_group: procedure_contract "AuditUniqueGroupId env p" for env p
  unfolding AuditUniqueGroupId_def by (intro contract_intros)

interpretation no_shadow_group: procedure_contract "AuditNoShadowPrimaryGroup env" for env
  unfolding AuditNoShadowPrimaryGroup_def by (intro contract_intros)

interpretation passwd_groups: procedure_contract "AuditPasswdGroupsExist env" for env
  unfolding AuditPasswdGroupsExist_def by (intro contract_intros)

interpretation remediate_passwd_groups: procedure_contract "RemediatePasswdGroupsExist env" for env
  unfolding RemediatePasswdGroupsExist_def
  by (intro contract_intros passwd_groups.procedure_contract_axioms) auto

interpretation change_date: procedure_contract "AuditPasswordChangeDate env" for env
  unfolding AuditPasswordChangeDate_def by (intro contract_intros)

end
