(* ===== verification/AccountPolicies.thy ===== *)
theory AccountPolicies
  imports Accounts
begin

text \<open>
  The account procedures that look into the content of a field or a file: \<open>Users.cpp\<close> and
  \<open>ListValidShells.cpp\<close>, \<open>NoShellAccountsLocked\<close>, \<open>SystemAccountShell\<close>,
  \<open>ShadowField\<close> and \<open>NoDuplicateEntries\<close>. Shown: what each accepts, and four defects: an audit
  that its own option makes vacuous, two comparisons whose operands are in different order, numbers that are cut
  to 32 bits, and an empty last column that is an error.
\<close>

section \<open>Shells and identifiers\<close>

text \<open>A line of \<open>/etc/shells\<close> without its comment, unless it ends in a \<open>nologin\<close>.\<close>

definition shell_of_line :: "string \<Rightarrow> string option" where
  "shell_of_line line =
     (let line = (case find_char (CHR ''#'') line of None \<Rightarrow> line | Some i \<Rightarrow> take i line);
          index = (case rfind_char (CHR ''/'') line of None \<Rightarrow> 0 | Some i \<Rightarrow> i)
      in if found_from ''nologin'' line index then None else Some line)"

definition ListValidShells :: "account_calls \<Rightarrow> string set result" where
  "ListValidShells env =
     (case ac_ifstream env (ac_special env ''/etc/shells'') of
        None \<Rightarrow> Inl (Error ''Failed to open /etc/shells file'' EINVAL)
      | Some bytes \<Rightarrow> Inr (set (List.map_filter shell_of_line (input_lines bytes))))"

definition GetUidMin :: "string result \<Rightarrow> int result" where
  "GetUidMin loginDefsResult =
     and_then loginDefsResult (\<lambda>contents.
       if contents = [] then Inl (Error1 ''Failed to read /etc/login.defs'')
       else and_then (LoginDefs_Parse contents ''/etc/login.defs'') (\<lambda>doc.
         case ld_uidMin doc of
           None \<Rightarrow> Inl (Error1 ''Could not get UID_MIN find value'')
         | Some uid \<Rightarrow> Inr uid))"

record no_shell_params =
  ns_excludeUsers :: "string list option"
  ns_skipBelowUidMin :: "bool option"
  ns_skipInvalidShells :: bool

definition locked_entry :: "shadow_entry \<Rightarrow> bool" where
  "locked_entry e \<longleftrightarrow> sp_pwdp e \<noteq> [] \<and> (hd (sp_pwdp e) = CHR ''!'' \<or> hd (sp_pwdp e) = CHR ''*'')"

text \<open>What the loop passes over.\<close>

definition no_shell_skips :: "no_shell_params \<Rightarrow> int result \<Rightarrow> string set \<Rightarrow> passwd_entry \<Rightarrow> bool" where
  "no_shell_skips p uidMin shells u \<longleftrightarrow>
     pw_shell u \<in> shells \<or> pw_name u = ''root'' \<or> ns_skipInvalidShells p
     \<or> (\<exists>excluded\<in>set_option (ns_excludeUsers p). \<exists>x\<in>set excluded. pw_name u = c_str x)
     \<or> (ns_skipBelowUidMin p \<noteq> None \<and> (\<exists>m. uidMin = Inr m \<and> uint (pw_uid u) < m))"

definition AuditNoShellAccountsLocked :: "account_calls \<Rightarrow> no_shell_params \<Rightarrow> 'w body" where
  "AuditNoShellAccountsLocked env p =
     (let uidMin = (if ns_skipBelowUidMin p = Some True then GetUidMin (ac_contents env ''/etc/login.defs'')
                    else Inl (Error1 ''Uninitialised UID_MIN''))
      in tries (ListValidShells env) (\<lambda>shells.
         tries (PasswordEntryRange_Make env (ac_special env ''/etc/shadow'')) (\<lambda>es.
         let lockedUsers = set (map sp_namp (filter locked_entry es)) in
         tries (UsersRange_Make env (ac_special env ''/etc/passwd'')) (\<lambda>us.
           foldr (\<lambda>u k.
             if no_shell_skips p uidMin shells u then k
             else if pw_name u \<notin> lockedUsers
             then returns NonCompliant (''User '' @ to_string_nat (unat (pw_uid u))
               @ '' does not have a valid shell, but the account is not locked'')
             else remarks Compliant (''User '' @ to_string_nat (unat (pw_uid u))
               @ '' does not have a valid shell, but the account is locked'') k)
             us (returns Compliant ''All non-root users without a login shell are locked'')))))"

definition allowlistedAccounts :: "string set" where
  "allowlistedAccounts = {''root'', ''halt'', ''sync'', ''shutdown'', ''nfsnobody''}"

text \<open>\<open>LoadMinUID\<close>: at most one byte more than the limit is read.\<close>

definition LoadMinUID :: "account_calls \<Rightarrow> int result" where
  "LoadMinUID env =
     (let filename = ac_special env ''/etc/login.defs'' in
      case ac_stat_file env filename of
        Some errno \<Rightarrow>
          if errno = ENOENT then Inr 1000
          else Inl (Error (''Failed to read '' @ filename @ '' file: '' @ ac_errstr env errno) errno)
      | None \<Rightarrow>
     (case ac_ifstream env filename of
        None \<Rightarrow> Inl (Error (''Failed to read '' @ filename) EINVAL)
      | Some bytes \<Rightarrow>
          if ac_stream_bad env filename then Inl (Error (''Failed to read '' @ filename) EIO)
          else and_then (LoginDefs_Parse (take (MaxBytes + 1) bytes) filename) (\<lambda>doc.
            case ld_uidMin doc of None \<Rightarrow> Inr 1000 | Some uid \<Rightarrow> Inr uid)))"

definition AuditSystemAccountShell :: "account_calls \<Rightarrow> 'w body" where
  "AuditSystemAccountShell env =
     tries (ListValidShells env) (\<lambda>shells.
     tries (LoadMinUID env) (\<lambda>minUID.
     tries (UsersRange_Make env (ac_special env ''/etc/passwd'')) (\<lambda>us.
       foldr (\<lambda>u k.
         if minUID \<le> uint (pw_uid u) \<or> pw_name u \<in> allowlistedAccounts then k
         else if pw_shell u \<in> shells
         then returns NonCompliant (''System user '' @ to_string_nat (unat (pw_uid u)) @ '' has a valid login shell'')
         else remarks Compliant (''System user '' @ to_string_nat (unat (pw_uid u)) @ '' does not have a valid login shell'') k)
         us (returns_plain Compliant))))"

section \<open>Shadow entries\<close>

datatype password_method = PwDES | PwBSDi | PwMD5 | PwBlowfish | PwSHA256 | PwSHA512 | PwYesCrypt | PwEmpty | PwNone

text \<open>The number of an enumerator, by which \<open>CompareTyped\<close> compares.\<close>

fun method_number :: "password_method \<Rightarrow> nat" where
  "method_number PwDES = 0"
| "method_number PwBSDi = 1"
| "method_number PwMD5 = 2"
| "method_number PwBlowfish = 3"
| "method_number PwSHA256 = 4"
| "method_number PwSHA512 = 5"
| "method_number PwYesCrypt = 6"
| "method_number PwEmpty = 7"
| "method_number PwNone = 8"

datatype shadow_field = FUsername | FPassword | FLastChange | FMinAge | FMaxAge | FWarnPeriod | FInactivityPeriod
  | FExpirationDate | FReserved | FEncryptionMethod

fun PrettyFieldName :: "shadow_field \<Rightarrow> string" where
  "PrettyFieldName FUsername = ''login name''"
| "PrettyFieldName FPassword = ''encrypted password''"
| "PrettyFieldName FLastChange = ''last password change date''"
| "PrettyFieldName FMinAge = ''minimum password age''"
| "PrettyFieldName FMaxAge = ''maximum password age''"
| "PrettyFieldName FWarnPeriod = ''password warning period''"
| "PrettyFieldName FInactivityPeriod = ''password inactivity period''"
| "PrettyFieldName FExpirationDate = ''account expiration date''"
| "PrettyFieldName FReserved = ''reserved''"
| "PrettyFieldName FEncryptionMethod = ''password encryption method''"

definition encryptionTypeMap :: "(string \<times> password_method) list" where
  "encryptionTypeMap = [(''DES'', PwDES), (''BSDi'', PwBSDi), (''MD5'', PwMD5), (''Blowfish'', PwBlowfish), (''Sun MD5'', PwMD5),
     (''SHA-256'', PwSHA256), (''SHA-512'', PwSHA512), (''YesCrypt'', PwYesCrypt), (''Empty'', PwEmpty), (''None'', PwNone)]"

definition encryptionMethodMap :: "(string \<times> password_method) list" where
  "encryptionMethodMap = [(''1'', PwMD5), (''2'', PwBlowfish), (''2a'', PwBlowfish), (''2y'', PwBlowfish), (''md5'', PwMD5),
     (''5'', PwSHA256), (''6'', PwSHA512), (''y'', PwYesCrypt)]"

definition ParseMethodName :: "string \<Rightarrow> password_method result" where
  "ParseMethodName method =
     (case map_of encryptionTypeMap method of
        None \<Rightarrow> Inl (Error (''Invalid encryption method: '' @ method) EINVAL)
      | Some m \<Rightarrow> Inr m)"

text \<open>The method of a password field. The field is never a null pointer here.\<close>

definition ParseEntryMethod :: "string \<Rightarrow> password_method result" where
  "ParseEntryMethod entry =
     (if entry = [] then Inr PwEmpty
      else if hd entry = CHR ''_'' then Inr PwBSDi
      else if hd entry = CHR ''!'' \<or> hd entry = CHR ''*'' then Inr PwNone
      else if hd entry \<noteq> CHR ''$'' then Inr PwDES
      else (case find_char_from (CHR ''$'') entry 1 of
        None \<Rightarrow> Inl (Error ''Invalid password format in shadow entry'' EINVAL)
      | Some index \<Rightarrow>
          (case map_of encryptionMethodMap (substr 1 (index - 1) entry) of
             None \<Rightarrow> Inl (Error (''Unsupported password encryption method: '' @ substr 1 (index - 1) entry) EINVAL)
           | Some m \<Rightarrow> Inr m)))"

definition StringComparison :: "account_calls \<Rightarrow> string \<Rightarrow> string \<Rightarrow> comparison_operation \<Rightarrow> bool result" where
  "StringComparison env lhs rhs operation =
     (if operation = CmpPatternMatch
      then (case ac_regex env lhs of
              Inl what \<Rightarrow> Inl (Error (''Pattern match failed: '' @ what) EINVAL)
            | Inr search \<Rightarrow> Inr (search rhs))
      else (case MapComparison operation of
              Inl e \<Rightarrow> Inl (Error (''Unsupported comparison operation for a string type: '' @ err_message e) (err_code e))
            | Inr op \<Rightarrow> CompareTyped lhs rhs op))"

text \<open>Both operands are \<open>const int\<close>; a \<open>long\<close> is converted.\<close>

definition to_int :: "int \<Rightarrow> int" where
  "to_int x = sint (word_of_int x :: 32 word)"

definition IntegerComparison :: "int \<Rightarrow> int \<Rightarrow> comparison_operation \<Rightarrow> bool result" where
  "IntegerComparison lhs rhs operation =
     (case MapComparison operation of
        Inl e \<Rightarrow> Inl (Error (''Unsupported comparison operation for an integer type: '' @ err_message e) (err_code e))
      | Inr op \<Rightarrow> CompareTyped (to_int lhs) (to_int rhs) op)"

fun field_number :: "shadow_field \<Rightarrow> shadow_entry \<Rightarrow> int option" where
  "field_number FLastChange e = Some (sp_lstchg e)"
| "field_number FMinAge e = Some (sp_min e)"
| "field_number FMaxAge e = Some (sp_max e)"
| "field_number FWarnPeriod e = Some (sp_warn e)"
| "field_number FInactivityPeriod e = Some (sp_inact e)"
| "field_number FExpirationDate e = Some (sp_expire e)"
| "field_number field e = None"

definition CompareUserEntry :: "account_calls \<Rightarrow> shadow_entry \<Rightarrow> shadow_field \<Rightarrow> string \<Rightarrow> comparison_operation \<Rightarrow> bool result" where
  "CompareUserEntry env e field v operation =
     (if field = FUsername then Inl (Error ''Username field comparison is not supported'' EINVAL)
      else if field = FPassword then StringComparison env v (sp_pwdp e) operation
      else if field = FEncryptionMethod then
        (if operation \<noteq> CmpEqual \<and> operation \<noteq> CmpNotEqual
         then Inl (Error ''Unsupported comparison operation for encryption method'' EINVAL)
         else and_then (ParseMethodName v) (\<lambda>supplied.
              and_then (ParseEntryMethod (sp_pwdp e)) (\<lambda>actual.
                CompareTyped (method_number actual) (method_number supplied) (if operation = CmpEqual then OpEqual else OpNotEqual))))
      else (case TryStringToInt v 10 of
        Inl _ \<Rightarrow> Inl (Error (''invalid '' @ PrettyFieldName field @ '' parameter value'') EINVAL)
      | Inr n \<Rightarrow>
          (case field_number field e of
             Some x \<Rightarrow> IntegerComparison x n operation
           | None \<Rightarrow> Inl (Error (PrettyFieldName field @ '' field comparison is not supported'') EINVAL))))"

record shadow_field_params =
  sf_username :: "string option"
  sf_usernameOperation :: comparison_operation
  sf_field :: shadow_field
  sf_value :: string
  sf_operation :: comparison_operation

text \<open>Whether an entry is compared.\<close>

definition shadow_selected :: "account_calls \<Rightarrow> shadow_field_params \<Rightarrow> shadow_entry \<Rightarrow> bool result" where
  "shadow_selected env p e =
     and_then (case sf_username p of None \<Rightarrow> Inr True | Some n \<Rightarrow> StringComparison env n (sp_namp e) (sf_usernameOperation p)) (\<lambda>named.
       if \<not> named then Inr False
       else if sf_field p \<noteq> FPassword \<and> sf_field p \<noteq> FEncryptionMethod
       then and_then (ParseEntryMethod (sp_pwdp e)) (\<lambda>m. Inr (m \<noteq> PwNone))
       else Inr True)"

definition AuditShadowField :: "account_calls \<Rightarrow> shadow_field_params \<Rightarrow> 'w body" where
  "AuditShadowField env p =
     tries (PasswordEntryRange_Make env (ac_special env ''/etc/shadow'')) (\<lambda>es.
       foldr (\<lambda>e k.
         tries (shadow_selected env p e) (\<lambda>compared.
           if \<not> compared then k
           else tries (CompareUserEntry env e (sf_field p) (sf_value p) (sf_operation p)) (\<lambda>ok.
             if \<not> ok
             then returns NonCompliant (PrettyFieldName (sf_field p) @ '' does not match expected value for user '' @ quoted (sp_namp e))
             else if sf_username p \<noteq> None
             then remarks Compliant (PrettyFieldName (sf_field p) @ '' matches expected value for user '' @ quoted (sp_namp e)) k
             else k)))
         es (returns Compliant (PrettyFieldName (sf_field p) @ '' matches expected value for all tested users'')))"

section \<open>Duplicates\<close>

record no_duplicates_params =
  nd_filename :: string
  nd_delimiter :: string
  nd_column :: int
  nd_context :: "string option"

text \<open>\<open>std::getline\<close> with a delimiter, again and again: the pieces before the failure.\<close>

function getline_pieces :: "char \<Rightarrow> string \<Rightarrow> string list" where
  "getline_pieces d s =
     (if s = [] then []
      else takeWhile (\<lambda>c. c \<noteq> d) s # getline_pieces d (drop (length (takeWhile (\<lambda>c. c \<noteq> d) s) + 1) s))"
  by pat_completeness auto
termination
  by (relation "measure (\<lambda>(d, s). length s)") auto

declare getline_pieces.simps [simp del]

fun duplicates_loop :: "char \<Rightarrow> nat \<Rightarrow> string list \<Rightarrow> string set \<Rightarrow> string set \<Rightarrow> string set result" where
  "duplicates_loop d column [] uniq dups = Inr dups"
| "duplicates_loop d column (line # lines) uniq dups =
     (let pieces = getline_pieces d line in
      if length pieces \<le> column then Inl (Error ''Column index out of bounds'' EINVAL)
      else let token = pieces ! column in
        if token \<in> uniq then duplicates_loop d column lines uniq (insert token dups)
        else duplicates_loop d column lines (insert token uniq) dups)"

definition AuditNoDuplicateEntries :: "account_calls \<Rightarrow> no_duplicates_params \<Rightarrow> 'w body" where
  "AuditNoDuplicateEntries env p =
     (if length (nd_delimiter p) \<noteq> 1 then fails (Error ''Delimiter must be a single character'' EINVAL)
      else if nd_column p < 0 then fails (Error ''Column must be a non-negative integer'' EINVAL)
      else (case ac_ifstream env (nd_filename p) of
        None \<Rightarrow> fails (Error (''Failed to open file: '' @ nd_filename p) ENOENT)
      | Some bytes \<Rightarrow>
          tries (duplicates_loop (hd (nd_delimiter p)) (nat (nd_column p)) (input_lines bytes) {} {}) (\<lambda>dups.
            if dups \<noteq> {}
            then foldr (\<lambda>e k. remarks NonCompliant (''Duplicate entry: '' @ quoted e) k) (sorted_list_of_set dups)
              (returns_plain NonCompliant)
            else returns Compliant (''No duplicate '' @ (case nd_context p of None \<Rightarrow> ''entries'' | Some c \<Rightarrow> c)
              @ '' found in '' @ nd_filename p))))"

section \<open>What is accepted\<close>

lemma AuditNoShellAccountsLocked_Compliant:
  assumes "ListValidShells env = Inr shells" "ac_shadow env (ac_special env ''/etc/shadow'') = Inr es"
    and "ac_passwd env (ac_special env ''/etc/passwd'') = Inr us"
  shows "fst (AuditNoShellAccountsLocked env p it w) = Inr Compliant \<longleftrightarrow>
    (\<forall>u\<in>set us. no_shell_skips p
        (if ns_skipBelowUidMin p = Some True then GetUidMin (ac_contents env ''/etc/login.defs'') else Inl (Error1 ''Uninitialised UID_MIN''))
        shells u \<or> (\<exists>e\<in>set es. sp_namp e = pw_name u \<and> locked_entry e))"
proof -
  have loop: "fst (foldr (\<lambda>u k.
             if no_shell_skips p m shells u then k
             else if pw_name u \<notin> lockedUsers then returns NonCompliant (bad u) else remarks Compliant (good u) k)
             us (returns Compliant t) it w) = Inr Compliant
      \<longleftrightarrow> (\<forall>u\<in>set us. no_shell_skips p m shells u \<or> pw_name u \<in> lockedUsers)" for m lockedUsers bad good t it
    by (induction us arbitrary: it) auto
  show ?thesis
    using assms
    by (simp add: AuditNoShellAccountsLocked_def PasswordEntryRange_Make_def UsersRange_Make_def Let_def loop)
      (auto simp: image_iff; metis)
qed

lemma AuditSystemAccountShell_Compliant:
  assumes "ListValidShells env = Inr shells" "LoadMinUID env = Inr minUID"
    and "ac_passwd env (ac_special env ''/etc/passwd'') = Inr us"
  shows "fst (AuditSystemAccountShell env it w) = Inr Compliant \<longleftrightarrow>
    (\<forall>u\<in>set us. uint (pw_uid u) < minUID \<longrightarrow> pw_name u \<notin> allowlistedAccounts \<longrightarrow> pw_shell u \<notin> shells)"
proof -
  have loop: "fst (foldr (\<lambda>u k.
         if minUID \<le> uint (pw_uid u) \<or> pw_name u \<in> allowlistedAccounts then k
         else if pw_shell u \<in> shells then returns NonCompliant (bad u) else remarks Compliant (good u) k)
         us (returns_plain Compliant) it w) = Inr Compliant
      \<longleftrightarrow> (\<forall>u\<in>set us. minUID \<le> uint (pw_uid u) \<or> pw_name u \<in> allowlistedAccounts \<or> pw_shell u \<notin> shells)" for bad good it
    by (induction us arbitrary: it) auto
  show ?thesis
    using assms by (simp add: AuditSystemAccountShell_def UsersRange_Make_def loop) (auto simp: not_le)
qed

lemma AuditShadowField_Compliant:
  "fst (AuditShadowField env p it w) = Inr Compliant \<longleftrightarrow>
    (\<exists>es. ac_shadow env (ac_special env ''/etc/shadow'') = Inr es
      \<and> (\<forall>e\<in>set es. shadow_selected env p e = Inr False
          \<or> shadow_selected env p e = Inr True \<and> CompareUserEntry env e (sf_field p) (sf_value p) (sf_operation p) = Inr True))"
proof -
  have loop: "fst (foldr (\<lambda>e k.
         tries (shadow_selected env p e) (\<lambda>compared.
           if \<not> compared then k
           else tries (CompareUserEntry env e (sf_field p) (sf_value p) (sf_operation p)) (\<lambda>ok.
             if \<not> ok then returns NonCompliant (bad e)
             else if sf_username p \<noteq> None then remarks Compliant (good e) k else k)))
         es (returns Compliant t) it w) = Inr Compliant
      \<longleftrightarrow> (\<forall>e\<in>set es. shadow_selected env p e = Inr False
          \<or> shadow_selected env p e = Inr True \<and> CompareUserEntry env e (sf_field p) (sf_value p) (sf_operation p) = Inr True)"
    for es bad good t it
  proof (induction es arbitrary: it)
    case Nil
    then show ?case by simp
  next
    case (Cons e es)
    show ?case
      using Cons by (cases "shadow_selected env p e"; cases "CompareUserEntry env e (sf_field p) (sf_value p) (sf_operation p)") auto
  qed
  show ?thesis
    by (cases "ac_shadow env (ac_special env ''/etc/shadow'')")
      (simp_all add: AuditShadowField_def PasswordEntryRange_Make_def loop)
qed

lemma duplicates_loop_none:
  "duplicates_loop d column lines uniq dups = Inr {} \<longleftrightarrow>
     dups = {} \<and> (\<forall>l\<in>set lines. column < length (getline_pieces d l))
     \<and> distinct (map (\<lambda>l. getline_pieces d l ! column) lines)
     \<and> uniq \<inter> (\<lambda>l. getline_pieces d l ! column) ` set lines = {}"
  by (induction lines arbitrary: uniq dups) (auto simp: Let_def not_le)

lemma AuditNoDuplicateEntries_Compliant:
  "fst (AuditNoDuplicateEntries env p it w) = Inr Compliant \<longleftrightarrow>
     (\<exists>d bytes. nd_delimiter p = [d] \<and> 0 \<le> nd_column p \<and> ac_ifstream env (nd_filename p) = Some bytes
       \<and> (\<forall>l\<in>set (input_lines bytes). nat (nd_column p) < length (getline_pieces d l))
       \<and> distinct (map (\<lambda>l. getline_pieces d l ! nat (nd_column p)) (input_lines bytes)))"
proof -
  have loop: "fst (foldr (\<lambda>e k. remarks NonCompliant (msg e) k) xs (returns_plain NonCompliant) it w) = Inr NonCompliant"
    for xs msg it by (induction xs arbitrary: it) auto
  show ?thesis
  proof (cases "length (nd_delimiter p) = 1 \<and> 0 \<le> nd_column p")
    case False
    then show ?thesis by (auto simp: AuditNoDuplicateEntries_def)
  next
    case True
    then obtain d where d: "nd_delimiter p = [d]" by (cases "nd_delimiter p") auto
    show ?thesis
    proof (cases "ac_ifstream env (nd_filename p)")
      case None
      then show ?thesis using True by (simp add: AuditNoDuplicateEntries_def d)
    next
      case (Some bytes)
      have "fst (AuditNoDuplicateEntries env p it w) = Inr Compliant
          \<longleftrightarrow> duplicates_loop d (nat (nd_column p)) (input_lines bytes) {} {} = Inr {}"
        using True Some
        by (cases "duplicates_loop d (nat (nd_column p)) (input_lines bytes) {} {}")
          (auto simp: AuditNoDuplicateEntries_def d loop)
      then show ?thesis using True Some by (simp add: duplicates_loop_none d)
    qed
  qed
qed

section \<open>Defects\<close>

text \<open>The users that are checked are those without a valid shell, and \<open>skipInvalidShells\<close> passes over all of
  them: with it the audit accepts every machine.\<close>

lemma skip_invalid_shells_vacuous:
  assumes "ListValidShells env = Inr shells" "ac_shadow env (ac_special env ''/etc/shadow'') = Inr es"
    and "ac_passwd env (ac_special env ''/etc/passwd'') = Inr us" "ns_skipInvalidShells p"
  shows "fst (AuditNoShellAccountsLocked env p it w) = Inr Compliant"
  using assms by (simp add: AuditNoShellAccountsLocked_Compliant no_shell_skips_def)

text \<open>\<open>lt\<close> asks for a number below the value, but for a password above it.\<close>

lemma shadow_operands:
  "CompareUserEntry env e FPassword v CmpLessThan = Inr (v < sp_pwdp e)"
  "TryStringToInt v 10 = Inr n \<Longrightarrow> CompareUserEntry env e FMaxAge v CmpLessThan = Inr (to_int (sp_max e) < to_int n)"
  by (simp_all add: CompareUserEntry_def StringComparison_def IntegerComparison_def)

text \<open>The numbers of an entry are cut to 32 bits before they are compared.\<close>

lemma shadow_number_cut: "to_int (2 ^ 32 + n) = to_int n"
proof -
  have "word_of_int (2 ^ 32 + n) = (word_of_int n :: 32 word)" by (simp add: word_of_int_eq_iff take_bit_eq_mod)
  then show ?thesis by (simp only: to_int_def)
qed

text \<open>A line that ends in the delimiter has no last column: an empty shell in \<open>/etc/passwd\<close> is an error.\<close>

lemma empty_last_column: "getline_pieces (CHR '':'') ''u:x:0:0::/r:'' = [''u'', ''x'', ''0'', ''0'', [], ''/r'']"
  by (simp add: getline_pieces.simps)

section \<open>They keep the contract\<close>

interpretation no_shell_accounts: procedure_contract "AuditNoShellAccountsLocked env p" for env p
  unfolding AuditNoShellAccountsLocked_def by (intro contract_intros)

interpretation system_account_shell: procedure_contract "AuditSystemAccountShell env" for env
  unfolding AuditSystemAccountShell_def by (intro contract_intros)

interpretation shadow_field: procedure_contract "AuditShadowField env p" for env p
  unfolding AuditShadowField_def by (intro contract_intros)

interpretation no_duplicate_entries: procedure_contract "AuditNoDuplicateEntries env p" for env p
  unfolding AuditNoDuplicateEntries_def by (intro contract_intros)

end
