(* ===== verification/SysctlValue.thy ===== *)
theory SysctlValue
  imports FileContents ProcedureBase LoginDefs
begin

text \<open>
  \<open>src/lib/procedures/SysctlValue.cpp\<close>: the value of a kernel parameter, at run time, in the stored
  configuration and in that of the firewall, and its remediation at run time. The machine is the bytes of the
  files; the fixed regular expressions of the code are functions here, that of the parameter is an argument.
  Shown: no name reaches a file outside \<open>/proc/sys\<close>; a runtime remediation ends with the desired value
  accepted by the audit, or with the old value, unless a write failed.
\<close>

section \<open>Parameters and checks\<close>

record sysctl_params =
  sv_sysctlName :: string
  sv_pattern :: string
  sv_search :: "string \<Rightarrow> bool"
  sv_runtimeOnly :: "bool option"

definition sysctl_char :: "char \<Rightarrow> bool" where
  "sysctl_char c \<longleftrightarrow> isalnum c \<or> c \<in> {CHR ''.'', CHR ''_'', CHR ''/'', CHR ''-''}"

definition IsValidSysctlName :: "string \<Rightarrow> bool" where
  "IsValidSysctlName name \<longleftrightarrow> name \<noteq> [] \<and> \<not> found_from ''..'' name 0 \<and> list_all sysctl_char name"

definition IsValidFilePath :: "string \<Rightarrow> bool" where
  "IsValidFilePath path \<longleftrightarrow> path \<noteq> [] \<and> hd path = CHR ''/'' \<and> \<not> found_from ''..'' path 0"

definition GetLiteralRemediationValue :: "string \<Rightarrow> string result" where
  "GetLiteralRemediationValue pattern =
     (let literal = (if 2 \<le> length pattern \<and> hd pattern = CHR ''^'' \<and> last pattern = CHR ''$''
                     then substr 1 (length pattern - 2) pattern else pattern)
      in if literal = [] \<or> (\<exists>c\<in>set literal. c \<in> set (BSL # ''.^$|()[]{}*+?'')) \<or> NUL \<in> set literal
            \<or> CHR 0x0D \<in> set literal \<or> NL \<in> set literal
         then Inl (Error ''Sysctl remediation requires an exact literal value'' ENOTSUP)
         else Inr literal)"

definition sysctl_path :: "string \<Rightarrow> string" where
  "sysctl_path name = map (\<lambda>c. if c = CHR ''.'' then CHR ''/'' else c) name"

section \<open>Writing the value\<close>

record sysctl_calls =
  sy_open :: "string \<Rightarrow> int option"
  sy_fstat :: "int option"
  sy_regular :: bool
  sy_write :: "nat \<Rightarrow> int + nat"
  sy_close :: "int option"
  sy_strerror :: "int \<Rightarrow> string"

datatype write_end = WriteDone | WriteErrno int | WriteNothing

text \<open>The number of the call, what is left to write, and what the file has. Interrupted calls are repeated.\<close>

function sysctl_write :: "(nat \<Rightarrow> int + nat) \<Rightarrow> nat \<Rightarrow> string \<Rightarrow> string \<Rightarrow> write_end \<times> string" where
  "sysctl_write answers k rest bytes =
     (if rest = [] then (WriteDone, bytes)
      else (case answers k of
        Inl errno \<Rightarrow> (WriteErrno errno, bytes)
      | Inr n \<Rightarrow>
          if n = 0 then (WriteNothing, bytes)
          else sysctl_write answers (k + 1) (drop n rest) (bytes @ take n rest)))"
  by pat_completeness auto
termination
  by (relation "measure (\<lambda>(answers, k, rest, bytes). length rest)") auto

declare sysctl_write.simps [simp del]

text \<open>The open truncates the file.\<close>

definition WriteRuntimeSysctl :: "sysctl_calls \<Rightarrow> string \<Rightarrow> string \<Rightarrow> file_bytes \<Rightarrow> error option \<times> file_bytes" where
  "WriteRuntimeSysctl env path v fs =
     (case sy_open env path of
        Some errno \<Rightarrow> (Some (Error (''Failed to open runtime sysctl '' @ quoted path @ '': '' @ sy_strerror env errno) errno), fs)
      | None \<Rightarrow>
     (let fs = fs(path \<mapsto> []) in
      case sy_fstat env of
        Some errno \<Rightarrow> (Some (Error (''Failed to inspect runtime sysctl '' @ quoted path @ '': '' @ sy_strerror env errno) errno), fs)
      | None \<Rightarrow>
      if \<not> sy_regular env then (Some (Error (''Runtime sysctl is not a regular file: '' @ path) EINVAL), fs)
      else (case sysctl_write (sy_write env) 0 v [] of (res, bytes) \<Rightarrow>
       (let fs = fs(path \<mapsto> bytes) in
        case res of
          WriteErrno errno \<Rightarrow> (Some (Error (''Failed to write runtime sysctl '' @ quoted path @ '': '' @ sy_strerror env errno) errno), fs)
        | WriteNothing \<Rightarrow> (Some (Error (''Failed to write runtime sysctl '' @ quoted path) EIO), fs)
        | WriteDone \<Rightarrow>
            (case sy_close env of
               Some errno \<Rightarrow> (Some (Error (''Failed to close runtime sysctl '' @ quoted path @ '': '' @ sy_strerror env errno) errno), fs)
             | None \<Rightarrow> (None, fs))))))"

section \<open>The stored configuration\<close>

text \<open>The search for \<open>\s*([a-zA-Z0-9_]+[\.a-zA-Z0-9_-]+)\s*=\s*(.*)\<close>: before some equals sign, and white
  space, stand at least two characters of a name, and one before the last is no dot or hyphen.\<close>

definition word_char :: "char \<Rightarrow> bool" where
  "word_char c \<longleftrightarrow> isalnum c \<or> c = CHR ''_''"

definition name_before :: "string \<Rightarrow> bool" where
  "name_before pre \<longleftrightarrow>
     (let run = takeWhile (\<lambda>c. word_char c \<or> c = CHR ''.'' \<or> c = CHR ''-'') (dropWhile isspace (rev pre))
      in list_ex word_char (tl run))"

definition name_value_line :: "string \<Rightarrow> bool" where
  "name_value_line line \<longleftrightarrow> list_ex (\<lambda>i. line ! i = CHR ''='' \<and> name_before (take i line)) [0..<length line]"

text \<open>The search for \<open>^\s*#\s*(\/.*\.conf)$\<close>, with the name it captures.\<close>

definition conf_name :: "string \<Rightarrow> string option" where
  "conf_name line =
     (let r = dropWhile isspace line in
      if r = [] \<or> hd r \<noteq> CHR ''#'' then None
      else let name = dropWhile isspace (tl r) in
        if 6 \<le> length name \<and> hd name = CHR ''/'' \<and> drop (length name - 5) name = ''.conf''
           \<and> list_all (\<lambda>c. c \<noteq> NL \<and> c \<noteq> CHR 0x0D) name
        then Some name else None)"

definition without_comment :: "string \<Rightarrow> string" where
  "without_comment line = (case find_char (CHR ''#'') line of None \<Rightarrow> line | Some i \<Rightarrow> take i line)"

text \<open>The backward loop: the value of the last line for the name, with the lines above it.\<close>

fun stored_loop :: "string \<Rightarrow> string list \<Rightarrow> (string \<times> string list) option" where
  "stored_loop name [] = None"
| "stored_loop name (l # ls) =
     (let line = without_comment l in
      if line \<noteq> [] \<and> name_value_line line then
        (case find_char (CHR ''='') line of
           None \<Rightarrow> stored_loop name ls
         | Some eqPos \<Rightarrow>
             if TrimWhiteSpaces (take eqPos line) = name then Some (TrimWhiteSpaces (drop (eqPos + 1) line), ls)
             else stored_loop name ls)
      else stored_loop name ls)"

definition conf_file :: "string list \<Rightarrow> string" where
  "conf_file ls = (case List.map_filter conf_name ls of [] \<Rightarrow> [] | name # _ \<Rightarrow> name)"

text \<open>The configuration of the firewall.\<close>

definition ufw_line :: "string \<Rightarrow> string \<Rightarrow> string" where
  "ufw_line key contents = (case find (starts_with key) (input_lines contents) of None \<Rightarrow> [] | Some l \<Rightarrow> drop (length key) l)"

definition audit_ufw :: "('w, 'm) procedure_context_scheme \<Rightarrow> sysctl_params \<Rightarrow> 'w body" where
  "audit_ufw ctx p =
     (let name = sv_sysctlName p in
      reads (ctx_GetFileContents ctx ''/etc/default/ufw'') (\<lambda>r. case r of
        Inl e \<Rightarrow> returns NonCompliant (''Failed to read /etc/default/ufw: '' @ err_message e)
      | Inr defaults \<Rightarrow>
          let sysctlFile = ufw_line ''IPT_SYSCTL='' defaults in
          if sysctlFile = [] then returns NonCompliant ''Failed to find IPT_SYSCTL in /etc/default/ufw''
          else if \<not> IsValidFilePath (TrimWhiteSpaces sysctlFile)
          then returns NonCompliant ''Invalid sysctl file path in /etc/default/ufw''
          else reads (ctx_GetFileContents ctx (TrimWhiteSpaces sysctlFile)) (\<lambda>r. case r of
            Inl e \<Rightarrow> returns NonCompliant (''Failed to read ufw sysctl config file: '' @ err_message e)
          | Inr contents \<Rightarrow>
              (case find (starts_with (sysctl_path name @ ''='')) (input_lines contents) of
                 None \<Rightarrow> returns NonCompliant (''Value not found in UFW configuration for '' @ quoted name)
               | Some line \<Rightarrow>
                   let v = drop (length name + 1) line in
                   if sv_search p v then returns Compliant (''Correct value for '' @ quoted name @ '' in UFW configuration'')
                   else returns NonCompliant (''Expected '' @ quoted name @ '', got '' @ quoted v @ '' in UFW configuration'')))))"

definition audit_stored :: "('w, 'm) procedure_context_scheme \<Rightarrow> sysctl_params \<Rightarrow> string \<Rightarrow> 'w body" where
  "audit_stored ctx p cmd =
     (let name = sv_sysctlName p in
      does (ctx_ExecuteCommand ctx (cmd @ '' --cat-config'')) (\<lambda>r. case r of
        Inl e \<Rightarrow> fails e
      | Inr configurations \<Rightarrow>
          (case stored_loop name (rev (input_lines configurations)) of
             Some (v, earlier) \<Rightarrow>
               if sv_search p v then returns Compliant (''Correct value for '' @ quoted name @ '' in stored configuration'')
               else returns NonCompliant (''Expected '' @ quoted name @ '' got '' @ quoted v @ '' found in: '' @ quoted (conf_file earlier))
           | None \<Rightarrow>
               remarks NonCompliant (''Expected '' @ quoted name @ '' not found in stored sysctl configuration'') (audit_ufw ctx p))))"

section \<open>The audit\<close>

definition chomp :: "string \<Rightarrow> string" where
  "chomp s = (if s \<noteq> [] \<and> last s = NL then butlast s else s)"

definition runtime_path :: "('w, 'm) procedure_context_scheme \<Rightarrow> sysctl_params \<Rightarrow> string" where
  "runtime_path ctx p = ctx_GetSpecialFilePath ctx (''/proc/sys/'' @ sysctl_path (sv_sysctlName p))"

definition AuditSysctlValue :: "('w, 'm) procedure_context_scheme \<Rightarrow> sysctl_params \<Rightarrow> 'w body" where
  "AuditSysctlValue ctx p =
     (let name = sv_sysctlName p in
      if \<not> IsValidSysctlName name then fails (Error (''Invalid sysctl name: '' @ name) EINVAL)
      else reads (ctx_GetFileContents ctx (runtime_path ctx p)) (\<lambda>r. case r of
        Inl e \<Rightarrow>
          if err_code e = ENOENT then returns NotApplicable (''Sysctl '' @ quoted name @ '' not found in runtime configuration'')
          else fails e
      | Inr output \<Rightarrow>
          let sysctlOutput = TrimWhiteSpaces (chomp output) in
          if \<not> sv_search p sysctlOutput
          then returns NonCompliant (''Expected '' @ quoted name @ '' value '' @ quoted (sv_pattern p) @ '' got '' @ quoted sysctlOutput
            @ '' in runtime configuration'')
          else remarks Compliant (''Correct value for '' @ quoted name @ '' in runtime configuration'')
           (if sv_runtimeOnly p = Some True then returns Compliant (''Runtime-only check for '' @ quoted name @ '' passed'')
            else does (ctx_ExecuteCommand ctx ''/lib/systemd/systemd-sysctl --version'') (\<lambda>r1.
              if has_value r1 then audit_stored ctx p ''/lib/systemd/systemd-sysctl''
              else does (ctx_ExecuteCommand ctx ''/usr/lib/systemd/systemd-sysctl --version'') (\<lambda>r2.
                if has_value r2 then audit_stored ctx p ''/usr/lib/systemd/systemd-sysctl''
                else fails (Error ''Cannot find systemd-sysctl command'' ENOENT))))))"

section \<open>The remediation\<close>

definition RemediateSysctlValue :: "sysctl_calls \<Rightarrow> file_bytes procedure_context \<Rightarrow> sysctl_params \<Rightarrow> file_bytes body" where
  "RemediateSysctlValue env ctx p =
     (if sv_runtimeOnly p \<noteq> Some True then fails (Error ''Sysctl remediation currently supports runtime-only policies'' ENOTSUP)
      else if \<not> IsValidSysctlName (sv_sysctlName p) then fails (Error (''Invalid sysctl name: '' @ sv_sysctlName p) EINVAL)
      else (case GetLiteralRemediationValue (sv_pattern p) of
        Inl e \<Rightarrow> fails e
      | Inr desired \<Rightarrow>
          invokes (AuditSysctlValue ctx p) (\<lambda>audit.
            if audit \<noteq> Inr NonCompliant then returns_result audit
            else reads (ctx_GetFileContents ctx (runtime_path ctx p)) (\<lambda>r. case r of
              Inl e \<Rightarrow> fails e
            | Inr original \<Rightarrow>
                does (WriteRuntimeSysctl env (runtime_path ctx p) desired) (\<lambda>writeError. case writeError of
                  Some e \<Rightarrow> fails e
                | None \<Rightarrow>
                    invokes (AuditSysctlValue ctx p) (\<lambda>postAudit.
                      if postAudit = Inr Compliant then returns_result postAudit
                      else does (WriteRuntimeSysctl env (runtime_path ctx p) original) (\<lambda>rollbackError. case rollbackError of
                        Some e \<Rightarrow> fails (Error ((case postAudit of
                            Inr _ \<Rightarrow> ''Runtime sysctl remained noncompliant'' | Inl e' \<Rightarrow> err_message e')
                          @ ''; rollback failed: '' @ err_message e) (err_code e))
                      | None \<Rightarrow> returns_result postAudit)))))))"

section \<open>Names and paths\<close>

text \<open>The path of a valid name has only plain characters and no dot, so it stays below \<open>/proc/sys\<close>.\<close>

lemma valid_name_path:
  assumes "IsValidSysctlName name"
  shows "\<forall>c\<in>set (sysctl_path name). isalnum c \<or> c \<in> {CHR ''_'', CHR ''/'', CHR ''-''}"
  using assms by (auto simp: IsValidSysctlName_def sysctl_path_def sysctl_char_def list_all_iff)

lemma sysctl_write_done:
  "fst (sysctl_write answers k rest bytes) = WriteDone \<Longrightarrow> snd (sysctl_write answers k rest bytes) = bytes @ rest"
proof (induction answers k rest bytes rule: sysctl_write.induct)
  case (1 answers k rest bytes)
  show ?case
  proof (cases "rest = []")
    case True
    then show ?thesis by (simp add: sysctl_write.simps)
  next
    case False
    then obtain n where n: "answers k = Inr n" "n \<noteq> 0"
      using 1(2) by (cases "answers k") (auto simp: sysctl_write.simps [of answers k rest] split: if_splits)
    have step: "sysctl_write answers k rest bytes = sysctl_write answers (k + 1) (drop n rest) (bytes @ take n rest)"
      using False n by (simp add: sysctl_write.simps [of answers k rest])
    show ?thesis using 1(1) [OF False n] 1(2) unfolding step by simp
  qed
qed

text \<open>A write changes one file; one that succeeds leaves the value.\<close>

lemma WriteRuntimeSysctl_outcome:
  assumes "WriteRuntimeSysctl env path v fs = (r, fs')"
  shows "\<forall>q. q \<noteq> path \<longrightarrow> fs' q = fs q" "r = None \<Longrightarrow> fs' path = Some v"
  using assms sysctl_write_done [of "sy_write env" 0 v "[]"]
  by (auto simp: WriteRuntimeSysctl_def Let_def split: option.splits prod.splits write_end.splits if_splits)

section \<open>The runtime value\<close>

text \<open>The files behind the context.\<close>

definition reads_files :: "file_bytes procedure_context \<Rightarrow> bool" where
  "reads_files ctx \<longleftrightarrow> (\<forall>path fs bytes. fs path = Some bytes \<longrightarrow> ctx_GetFileContents ctx path fs = Inr (c_str bytes))
     \<and> (\<forall>path fs. fs path = None \<longrightarrow> (\<exists>e. ctx_GetFileContents ctx path fs = Inl e))"

text \<open>The verdict of an audit at run time.\<close>

definition runtime_verdict :: "file_bytes procedure_context \<Rightarrow> sysctl_params \<Rightarrow> file_bytes \<Rightarrow> status result" where
  "runtime_verdict ctx p fs =
     (if \<not> IsValidSysctlName (sv_sysctlName p) then Inl (Error (''Invalid sysctl name: '' @ sv_sysctlName p) EINVAL)
      else case ctx_GetFileContents ctx (runtime_path ctx p) fs of
        Inl e \<Rightarrow> if err_code e = ENOENT then Inr NotApplicable else Inl e
      | Inr output \<Rightarrow> Inr (if sv_search p (TrimWhiteSpaces (chomp output)) then Compliant else NonCompliant))"

lemma runtime_audit:
  assumes "sv_runtimeOnly p = Some True"
  shows "\<exists>it'. AuditSysctlValue ctx p it fs = (runtime_verdict ctx p fs, it', fs)"
  using assms
  by (cases "ctx_GetFileContents ctx (runtime_path ctx p) fs")
    (auto simp: AuditSysctlValue_def runtime_verdict_def Let_def body_defs AddIndicator_def split: prod.splits)

text \<open>What a remediation leaves: no other file is changed; with an answer that is no error the file is untouched,
  or has the desired value and is accepted, or has its old content again.\<close>

lemma RemediateSysctlValue_outcome:
  assumes run: "RemediateSysctlValue env ctx p it fs = (r, it', fs')" and files: "reads_files ctx"
  shows "\<forall>q. q \<noteq> runtime_path ctx p \<longrightarrow> fs' q = fs q"
    "r = Inr s \<Longrightarrow> fs' = fs \<and> runtime_verdict ctx p fs = r
      \<or> s = Compliant \<and> (\<exists>v. GetLiteralRemediationValue (sv_pattern p) = Inr v \<and> fs' (runtime_path ctx p) = Some v)
          \<and> runtime_verdict ctx p fs' = Inr Compliant
      \<or> s \<noteq> Compliant \<and> map_option c_str (fs (runtime_path ctx p)) = fs' (runtime_path ctx p)"
proof -
  let ?path = "runtime_path ctx p"
  have "(\<forall>q. q \<noteq> ?path \<longrightarrow> fs' q = fs q) \<and>
    (\<forall>s. r = Inr s \<longrightarrow> fs' = fs \<and> runtime_verdict ctx p fs = r
      \<or> s = Compliant \<and> (\<exists>v. GetLiteralRemediationValue (sv_pattern p) = Inr v \<and> fs' ?path = Some v) \<and> runtime_verdict ctx p fs' = Inr Compliant
      \<or> s \<noteq> Compliant \<and> map_option c_str (fs ?path) = fs' ?path)"
  proof (cases "sv_runtimeOnly p = Some True \<and> IsValidSysctlName (sv_sysctlName p) \<and> has_value (GetLiteralRemediationValue (sv_pattern p))")
    case False
    then show ?thesis
      using run by (auto simp: RemediateSysctlValue_def fails_def split: sum.splits if_splits)
  next
    case True
    then obtain v where v: "GetLiteralRemediationValue (sv_pattern p) = Inr v" by (cases "GetLiteralRemediationValue (sv_pattern p)") auto
    have only: "sv_runtimeOnly p = Some True" using True by simp
    obtain it1 where a1: "AuditSysctlValue ctx p it fs = (runtime_verdict ctx p fs, it1, fs)"
      using runtime_audit [OF only] by blast
    show ?thesis
    proof (cases "runtime_verdict ctx p fs = Inr NonCompliant")
      case False
      then show ?thesis using run True v a1 by (auto simp: RemediateSysctlValue_def invokes_def returns_result_def)
    next
      case nc: True
      then obtain original where o': "ctx_GetFileContents ctx ?path fs = Inr original"
        by (auto simp: runtime_verdict_def split: sum.splits if_splits)
      have old: "map_option c_str (fs ?path) = Some original"
      proof (cases "fs ?path")
        case None
        then obtain e where "ctx_GetFileContents ctx ?path fs = Inl e" using files unfolding reads_files_def by blast
        then show ?thesis using o' by simp
      next
        case (Some bytes)
        then have "ctx_GetFileContents ctx ?path fs = Inr (c_str bytes)" using files unfolding reads_files_def by blast
        then show ?thesis using o' Some by simp
      qed
      obtain r1 fs1 where w1: "WriteRuntimeSysctl env ?path v fs = (r1, fs1)" by fastforce
      note wo1 = WriteRuntimeSysctl_outcome [OF w1]
      show ?thesis
      proof (cases r1)
        case (Some e)
        then show ?thesis
          using run True v a1 nc o' w1 wo1
          by (auto simp: RemediateSysctlValue_def invokes_def reads_def does_def fails_def)
      next
        case None
        obtain it2 where a2: "AuditSysctlValue ctx p it1 fs1 = (runtime_verdict ctx p fs1, it2, fs1)"
          using runtime_audit [OF only] by blast
        obtain r2 fs2 where w2: "WriteRuntimeSysctl env ?path original fs1 = (r2, fs2)" by fastforce
        note wo2 = WriteRuntimeSysctl_outcome [OF w2]
        have res: "(r, it', fs') = (if runtime_verdict ctx p fs1 = Inr Compliant then (Inr Compliant, it2, fs1)
            else case r2 of
              Some e \<Rightarrow> (Inl (Error ((case runtime_verdict ctx p fs1 of
                  Inr _ \<Rightarrow> ''Runtime sysctl remained noncompliant'' | Inl e' \<Rightarrow> err_message e')
                @ ''; rollback failed: '' @ err_message e) (err_code e)), it2, fs2)
            | None \<Rightarrow> (runtime_verdict ctx p fs1, it2, fs2))"
          using run True v a1 nc o' w1 None a2 w2
          by (auto simp: RemediateSysctlValue_def invokes_def reads_def does_def fails_def returns_result_def split: option.splits)
        show ?thesis
        proof (cases "runtime_verdict ctx p fs1 = Inr Compliant")
          case True
          then show ?thesis using res wo1 None v by auto
        next
          case False
          then show ?thesis using res wo1 wo2 old by (cases r2) auto
        qed
      qed
    qed
  qed
  then show "\<forall>q. q \<noteq> ?path \<longrightarrow> fs' q = fs q"
    "r = Inr s \<Longrightarrow> fs' = fs \<and> runtime_verdict ctx p fs = r
      \<or> s = Compliant \<and> (\<exists>v. GetLiteralRemediationValue (sv_pattern p) = Inr v \<and> fs' ?path = Some v)
          \<and> runtime_verdict ctx p fs' = Inr Compliant
      \<or> s \<noteq> Compliant \<and> map_option c_str (fs ?path) = fs' ?path" by auto
qed

section \<open>They keep the contract\<close>

lemma audit_sysctl_contract: "procedure_contract (AuditSysctlValue ctx p)"
  unfolding AuditSysctlValue_def audit_stored_def audit_ufw_def by (intro contract_intros)

interpretation audit_sysctl: procedure_contract "AuditSysctlValue ctx p" for ctx p
  by (rule audit_sysctl_contract)

interpretation remediate_sysctl: procedure_contract "RemediateSysctlValue env ctx p" for env ctx p
  unfolding RemediateSysctlValue_def
  by (intro contract_intros audit_sysctl_contract) (auto simp: body_defs split: prod.splits option.splits)

end
