(* ===== verification/PackageVersion.thy ===== *)
theory PackageVersion
  imports ContentVersion "HOL-Library.Word"
begin

text \<open>
  \<open>VersionCompare\<close> of \<open>src/lib/procedures/PackageInstalled.cpp\<close>: the comparison of package
  versions. A version is split into epoch, version and release, each of these into runs of digits and of other
  characters. Shown: the comparison is that of a linear order on the lists of runs, in which a run of
  digits counts as its number and is above every other run.
\<close>

section \<open>The code\<close>

text \<open>\<open>evrSplit\<close>.\<close>

definition evrSplit :: "string \<Rightarrow> string list" where
  "evrSplit ver =
     (let (epoch, pos) = (case find_char (CHR '':'') ver of
            Some colonPos \<Rightarrow> (take colonPos ver, colonPos + 1)
          | None \<Rightarrow> (''0'', 0))
      in (case rfind_char (CHR ''-'') ver of
            Some dashPos \<Rightarrow>
              if pos < dashPos then [epoch, substr pos (dashPos - pos) ver, drop (dashPos + 1) ver]
              else [epoch, drop pos ver, ''0'']
          | None \<Rightarrow> [epoch, drop pos ver, ''0'']))"

text \<open>\<open>split\<close>: a run that starts with a letter goes on to the next digit, over separators.\<close>

function version_parts :: "string \<Rightarrow> string list" where
  "version_parts [] = []"
| "version_parts (c # cs) =
     (if \<not> isalnum c then version_parts cs
      else if isdigit c then takeWhile isdigit (c # cs) # version_parts (dropWhile isdigit (c # cs))
      else takeWhile (\<lambda>x. \<not> isdigit x) (c # cs) # version_parts (dropWhile (\<lambda>x. \<not> isdigit x) (c # cs)))"
  by pat_completeness auto
termination
  by (relation "measure length") (auto simp: le_imp_less_Suc length_dropWhile_le)

declare version_parts.simps(2) [simp del]

text \<open>\<open>find_first_not_of ("0")\<close>, or the last character when there are only zeros.\<close>

definition strip_zeros :: "string \<Rightarrow> string" where
  "strip_zeros p = (let r = dropWhile (\<lambda>c. c = CHR ''0'') p in if r = [] then [last p] else r)"

definition compare_strings :: "string \<Rightarrow> string \<Rightarrow> int" where
  "compare_strings a b = (if a < b then -1 else if b < a then 1 else 0)"

text \<open>The difference of the sizes is cut to an \<open>int\<close>.\<close>

definition compare_numbers :: "string \<Rightarrow> string \<Rightarrow> int" where
  "compare_numbers a b =
     (let a = strip_zeros a; b = strip_zeros b;
          cmp = sint (word_of_int (int (length a) - int (length b)) :: 32 word)
      in if cmp < 0 then -1 else if 0 < cmp then 1 else compare_strings a b)"

definition compare_part :: "string \<Rightarrow> string \<Rightarrow> int" where
  "compare_part a b =
     (let n1 = isdigit (hd a); n2 = isdigit (hd b) in
      if n1 \<and> n2 then compare_numbers a b
      else if \<not> n1 \<and> \<not> n2 then compare_strings a b
      else if n1 then 1 else -1)"

text \<open>The loop of \<open>compareParts\<close>.\<close>

fun compare_runs :: "string list \<Rightarrow> string list \<Rightarrow> int" where
  "compare_runs [] [] = 0"
| "compare_runs [] (b # bs) = -1"
| "compare_runs (a # as) [] = 1"
| "compare_runs (a # as) (b # bs) =
     (let cmp = compare_part a b in if cmp \<noteq> 0 then cmp else compare_runs as bs)"

definition compareParts :: "string \<Rightarrow> string \<Rightarrow> int" where
  "compareParts p1 p2 = compare_runs (version_parts p1) (version_parts p2)"

text \<open>The loop over epoch, version and release.\<close>

fun compare_evr :: "string list \<Rightarrow> string list \<Rightarrow> int" where
  "compare_evr (a # as) (b # bs) =
     (let cmp = compareParts a b in if cmp < 0 then -1 else if 0 < cmp then 1 else compare_evr as bs)"
| "compare_evr _ _ = 0"

definition VersionCompare :: "string \<Rightarrow> string \<Rightarrow> int" where
  "VersionCompare v1 v2 = compare_evr (evrSplit v1) (evrSplit v2)"

section \<open>The order of versions\<close>

datatype version_run = Letters string | Number nat

instantiation version_run :: linorder
begin

fun less_version_run :: "version_run \<Rightarrow> version_run \<Rightarrow> bool" where
  "less_version_run (Letters a) (Letters b) \<longleftrightarrow> a < b"
| "less_version_run (Letters a) (Number n) \<longleftrightarrow> True"
| "less_version_run (Number m) (Number n) \<longleftrightarrow> m < n"
| "less_version_run (Number m) (Letters b) \<longleftrightarrow> False"

definition less_eq_version_run :: "version_run \<Rightarrow> version_run \<Rightarrow> bool" where
  "less_eq_version_run a b \<longleftrightarrow> a = b \<or> a < b"

instance
proof
  fix x y z :: version_run
  show "(x < y) = (x \<le> y \<and> \<not> y \<le> x)" "x \<le> y \<Longrightarrow> y \<le> x \<Longrightarrow> x = y" "x \<le> y \<or> y \<le> x"
    by (cases x; cases y; auto simp: less_eq_version_run_def)+
  show "x \<le> x" by (simp add: less_eq_version_run_def)
  show "x \<le> y \<Longrightarrow> y \<le> z \<Longrightarrow> x \<le> z"
    by (cases x; cases y; cases z; auto simp: less_eq_version_run_def)
qed

end

text \<open>The value of a run, and the key of a version.\<close>

definition run_value :: "string \<Rightarrow> version_run" where
  "run_value p = (if isdigit (hd p) then Number (dec p) else Letters p)"

definition version_key :: "string \<Rightarrow> version_run list list" where
  "version_key v = map (\<lambda>p. map run_value (version_parts p)) (evrSplit v)"

text \<open>Three-way comparison in a linear order.\<close>

definition three_way :: "'a::linorder \<Rightarrow> 'a \<Rightarrow> int" where
  "three_way a b = (if a < b then -1 else if a = b then 0 else 1)"

lemma three_way_Cons: "three_way (a # as) (b # bs) = (if a = b then three_way as bs else three_way a b)"
  by (auto simp: three_way_def)

lemma compare_strings_three_way: "compare_strings a b = three_way a b"
  by (auto simp: compare_strings_def three_way_def)

text \<open>The runs are not empty, and those that start with a digit are digits.\<close>

definition run_ok :: "string \<Rightarrow> bool" where
  "run_ok p \<longleftrightarrow> p \<noteq> [] \<and> (isdigit (hd p) \<longrightarrow> (\<forall>c\<in>set p. isdigit c))"

lemma version_parts_ok: "p \<in> set (version_parts v) \<Longrightarrow> run_ok p \<and> length p \<le> length v"
proof (induction v rule: version_parts.induct)
  case 1
  then show ?case by simp
next
  case (2 c cs)
  have len: "length (dropWhile P xs) \<le> length xs" "length (takeWhile P xs) \<le> length xs" for P and xs :: string
    by (simp_all add: length_dropWhile_le length_takeWhile_le)
  consider "\<not> isalnum c" | "isalnum c" "isdigit c" | "isalnum c" "\<not> isdigit c" by blast
  then show ?case
  proof cases
    case 1
    then show ?thesis using 2 by (auto simp: version_parts.simps)
  next
    case 2
    then have "p = takeWhile isdigit (c # cs) \<or> p \<in> set (version_parts (dropWhile isdigit (c # cs)))"
      using "2.prems" by (simp add: version_parts.simps)
    then show ?thesis
    proof
      assume "p = takeWhile isdigit (c # cs)"
      then show ?thesis using 2 len(2) [of isdigit "c # cs"] by (auto simp: run_ok_def dest: set_takeWhileD)
    next
      assume "p \<in> set (version_parts (dropWhile isdigit (c # cs)))"
      then show ?thesis using "2.IH"(2) [OF _ _] 2 len(1) [of isdigit "c # cs"] by fastforce
    qed
  next
    case 3
    then have "p = takeWhile (\<lambda>x. \<not> isdigit x) (c # cs) \<or> p \<in> set (version_parts (dropWhile (\<lambda>x. \<not> isdigit x) (c # cs)))"
      using "2.prems" by (simp add: version_parts.simps)
    then show ?thesis
    proof
      assume "p = takeWhile (\<lambda>x. \<not> isdigit x) (c # cs)"
      then show ?thesis using 3 len(2) [of "\<lambda>x. \<not> isdigit x" "c # cs"] by (auto simp: run_ok_def)
    next
      assume "p \<in> set (version_parts (dropWhile (\<lambda>x. \<not> isdigit x) (c # cs)))"
      then show ?thesis using "2.IH"(3) [OF _ _] 3 len(1) [of "\<lambda>x. \<not> isdigit x" "c # cs"] by fastforce
    qed
  qed
qed

section \<open>The comparison is the order\<close>

lemma strip_zeros_valid:
  assumes "p \<noteq> []" "\<forall>c\<in>set p. isdigit c"
  shows "ValidComponent (strip_zeros p) \<and> length (strip_zeros p) \<le> length p"
proof (cases "dropWhile (\<lambda>c. c = CHR ''0'') p = []")
  case True
  then show ?thesis using assms by (cases p) (auto simp: strip_zeros_def ValidComponent_def)
next
  case False
  then show ?thesis
    using assms hd_dropWhile [OF False] length_dropWhile_le [of "\<lambda>c. c = CHR ''0''" p]
    by (auto simp: strip_zeros_def ValidComponent_def dest: set_dropWhileD)
qed

lemma dec_strip_zeros:
  assumes "p \<noteq> []"
  shows "dec (strip_zeros p) = dec p"
proof -
  have zero: "dec (c # cs) = dec cs" if "c = CHR ''0''" for c cs
    using that by (simp add: dec_Cons digit_value_def isdigit_def)
  have drop: "dec (dropWhile (\<lambda>c. c = CHR ''0'') q) = dec q" for q
    by (induction q) (auto simp: zero)
  show ?thesis
  proof (cases "dropWhile (\<lambda>c. c = CHR ''0'') p = []")
    case True
    then have "last p = CHR ''0''" using assms last_in_set [of p] by (simp only: dropWhile_eq_Nil_conv) blast
    moreover have "dec p = 0" using drop [of p] unfolding True by (simp add: digits_value_def)
    moreover have "dec ''0'' = 0" by (simp add: zero) (simp add: digits_value_def)
    ultimately show ?thesis using True by (simp add: strip_zeros_def)
  next
    case False
    then have "strip_zeros p = dropWhile (\<lambda>c. c = CHR ''0'') p" by (simp only: strip_zeros_def Let_def if_False)
    then show ?thesis by (simp only: drop)
  qed
qed

lemma int_difference:
  assumes "m < 2 ^ 31" "n < 2 ^ 31"
  shows "sint (word_of_int (int m - int n) :: 32 word) = int m - int n"
  unfolding sint_sbintrunc' using assms by (intro signed_take_bit_int_eq_self) simp_all

lemma compare_numbers_three_way:
  assumes "run_ok a" "isdigit (hd a)" "run_ok b" "isdigit (hd b)" "length a < 2 ^ 31" "length b < 2 ^ 31"
  shows "compare_numbers a b = three_way (dec a) (dec b)"
proof -
  have v: "ValidComponent (strip_zeros a)" "ValidComponent (strip_zeros b)"
      "length (strip_zeros a) < 2 ^ 31" "length (strip_zeros b) < 2 ^ 31"
    using strip_zeros_valid [of a] strip_zeros_valid [of b] assms by (auto simp: run_ok_def)
  have "compare_numbers a b = CompareDecimal (strip_zeros a) (strip_zeros b)"
    unfolding compare_numbers_def Let_def int_difference [OF v(3,4)]
    by (auto simp: CompareDecimal_def compare_strings_def)
  also have "\<dots> = sgn (int (dec a) - int (dec b))"
    using CompareDecimal_numeric [OF v(1,2)] assms by (simp add: dec_strip_zeros run_ok_def)
  finally show ?thesis by (simp add: three_way_def sgn_if)
qed

lemma compare_part_three_way:
  assumes "run_ok a" "run_ok b" "length a < 2 ^ 31" "length b < 2 ^ 31"
  shows "compare_part a b = three_way (run_value a) (run_value b)"
  using compare_numbers_three_way [OF assms(1) _ assms(2) _ assms(3,4)]
  by (auto simp: compare_part_def run_value_def compare_strings_three_way three_way_def Let_def)

lemma compare_runs_three_way:
  assumes "\<forall>p\<in>set as. run_ok p \<and> length p < 2 ^ 31" "\<forall>p\<in>set bs. run_ok p \<and> length p < 2 ^ 31"
  shows "compare_runs as bs = three_way (map run_value as) (map run_value bs)"
  using assms
proof (induction as bs rule: compare_runs.induct)
  case (4 a as b bs)
  then show ?case
    by (simp add: compare_part_three_way three_way_Cons Let_def) (simp add: three_way_def)
qed (simp_all add: three_way_def)

lemma compareParts_three_way:
  assumes "length p < 2 ^ 31" "length q < 2 ^ 31"
  shows "compareParts p q = three_way (map run_value (version_parts p)) (map run_value (version_parts q))"
  unfolding compareParts_def
  using assms version_parts_ok by (intro compare_runs_three_way) fastforce+

lemma evrSplit_length: "length (evrSplit v) = 3"
  by (auto simp: evrSplit_def Let_def split: option.splits prod.splits)

lemma evrSplit_bound: "p \<in> set (evrSplit v) \<Longrightarrow> length p \<le> max 1 (length v)"
  by (auto simp: evrSplit_def Let_def substr_def split: option.splits if_splits)

lemma compare_evr_three_way:
  assumes "length as = length bs" "\<forall>p\<in>set as. length p < 2 ^ 31" "\<forall>p\<in>set bs. length p < 2 ^ 31"
  shows "compare_evr as bs =
    three_way (map (\<lambda>p. map run_value (version_parts p)) as) (map (\<lambda>p. map run_value (version_parts p)) bs)"
  using assms
proof (induction as bs rule: list_induct2)
  case Nil
  then show ?case by (simp add: three_way_def)
next
  case (Cons a as b bs)
  then show ?case
    by (simp add: compareParts_three_way three_way_Cons Let_def) (simp add: three_way_def)
qed

text \<open>The comparison of two versions is the three-way comparison of their keys.\<close>

lemma VersionCompare_key:
  assumes "length v1 < 2 ^ 31" "length v2 < 2 ^ 31"
  shows "VersionCompare v1 v2 = three_way (version_key v1) (version_key v2)"
proof -
  have "length p < 2 ^ 31" if "p \<in> set (evrSplit v)" "length v < 2 ^ 31" for p v
    using evrSplit_bound [OF that(1)] that(2) by (auto simp: max_def split: if_splits)
  then show ?thesis
    unfolding VersionCompare_def version_key_def
    using assms by (intro compare_evr_three_way) (auto simp: evrSplit_length)
qed

text \<open>Hence versions are totally ordered, up to the spelling of numbers and separators.\<close>

lemma VersionCompare_trans:
  assumes "length u < 2 ^ 31" "length v < 2 ^ 31" "length w < 2 ^ 31"
    and "VersionCompare u v \<le> 0" "VersionCompare v w \<le> 0"
  shows "VersionCompare u w \<le> 0"
  using assms by (auto simp: VersionCompare_key three_way_def split: if_splits)

lemma VersionCompare_swap:
  assumes "length u < 2 ^ 31" "length v < 2 ^ 31"
  shows "VersionCompare v u = - VersionCompare u v"
  using assms by (auto simp: VersionCompare_key three_way_def)

text \<open>Digits behind a tilde or a letter make a version newer, so that a release candidate is above the
  release; the package managers order the tilde the other way round.\<close>

lemma tilde_is_newer: "VersionCompare ''1.0~rc1'' ''1.0'' = 1"
  by code_simp

end
