(* ===== verification/PackageInstalled.thy ===== *)
theory PackageInstalled
  imports PackageVersion LoginDefsProps
begin

text \<open>
  \<open>src/lib/procedures/PackageInstalled.cpp\<close>: whether a package is installed, in a version. The list
  of packages is kept in a file between the runs: it is used for 3000 seconds, refreshed
  after that, and used once more when the refresh fails, up to 12600 seconds. Shown: the file reads back as
  the list that was written, a failed save changes nothing, and a verdict comes from the list that the ages
  call for.
\<close>

section \<open>The cache\<close>

datatype package_manager = Autodetect | RPM | DPKG

fun package_manager_label :: "package_manager \<Rightarrow> string" where
  "package_manager_label Autodetect = ''autodetect''"
| "package_manager_label RPM = ''rpm''"
| "package_manager_label DPKG = ''dpkg''"

record package_cache =
  pc_lastUpdateTime :: int
  pc_packageManager :: package_manager
  pc_packages :: "(string, string) omap"

abbreviation PACKAGELIST_TTL :: int where "PACKAGELIST_TTL \<equiv> 3000"
abbreviation PACKAGELIST_STALE_TTL :: int where "PACKAGELIST_STALE_TTL \<equiv> 12600"

text \<open>The context, and the calls on files. \<open>pk_put\<close> appends to the open stream.\<close>

record 'w package_calls =
  pk_ExecuteCommand :: "string \<Rightarrow> 'w \<Rightarrow> string result \<times> 'w"
  pk_GetStatePath :: string
  pk_time :: "'w \<Rightarrow> int"
  pk_read :: "string \<Rightarrow> 'w \<Rightarrow> string option"
  pk_bad :: "string \<Rightarrow> 'w \<Rightarrow> bool"
  pk_mkstemp :: "string \<Rightarrow> 'w \<Rightarrow> string option \<times> 'w"
  pk_open :: "string \<Rightarrow> 'w \<Rightarrow> bool \<times> 'w"
  pk_put :: "string \<Rightarrow> string \<Rightarrow> 'w \<Rightarrow> bool \<times> 'w"
  pk_close :: "string \<Rightarrow> 'w \<Rightarrow> bool \<times> 'w"
  pk_rename :: "string \<Rightarrow> string \<Rightarrow> 'w \<Rightarrow> bool \<times> 'w"
  pk_remove :: "string \<Rightarrow> 'w \<Rightarrow> 'w"

definition pkgCacheHeader :: string where
  "pkgCacheHeader = ''# PackageCache ''"

text \<open>A line \<open>name version\<close>; lines without a space are skipped.\<close>

definition package_line :: "string \<Rightarrow> (string, string) omap \<Rightarrow> (string, string) omap" where
  "package_line line packages =
     (case find_char (CHR '' '') line of
        None \<Rightarrow> packages
      | Some sepPos \<Rightarrow> om_insert (take sepPos line) (drop (sepPos + 1) line) packages)"

definition header_manager :: "string \<Rightarrow> package_manager result" where
  "header_manager s =
     (if s = ''dpkg'' then Inr DPKG else if s = ''rpm'' then Inr RPM else Inl (Error1 ''Invalid package manager type''))"

text \<open>\<open>std::stol\<close>, whose exceptions are caught.\<close>

definition header_time :: "string \<Rightarrow> int result" where
  "header_time s =
     (case strtol s 10 of
        None \<Rightarrow> Inl (Error1 ''Invalid timestamp in cache file header'')
      | Some (v, _) \<Rightarrow>
          if v < - LONG_MAX - 1 \<or> LONG_MAX < v then Inl (Error1 ''Invalid timestamp in cache file header'') else Inr v)"

definition LoadPackageCache :: "'w package_calls \<Rightarrow> string \<Rightarrow> 'w \<Rightarrow> package_cache result" where
  "LoadPackageCache env path w =
     (case pk_read env path w of
        None \<Rightarrow> Inl (Error1 (''Failed to open cache file: '' @ path))
      | Some bytes \<Rightarrow>
     (case input_lines bytes of
        [] \<Rightarrow> Inl (Error1 ''Invalid cache file format'')
      | header # lines \<Rightarrow>
          if \<not> starts_with pkgCacheHeader header then Inl (Error1 ''Invalid cache file format'')
          else (case find_char (CHR ''@'') header of
            None \<Rightarrow> Inl (Error1 ''Invalid cache file header format'')
          | Some separatorPos \<Rightarrow>
              and_then (header_manager (substr (length pkgCacheHeader) (separatorPos - length pkgCacheHeader) header)) (\<lambda>manager.
              and_then (header_time (drop (separatorPos + 1) header)) (\<lambda>t.
                if pk_bad env path w then Inl (Error1 ''Error reading cache file'')
                else Inr \<lparr>pc_lastUpdateTime = t, pc_packageManager = manager, pc_packages = fold package_line lines []\<rparr>)))))"

definition cache_header :: "package_cache \<Rightarrow> string" where
  "cache_header c = pkgCacheHeader @ package_manager_label (pc_packageManager c) @ ''@'' @ to_string_int (pc_lastUpdateTime c) @ [NL]"

fun put_packages :: "'w package_calls \<Rightarrow> string \<Rightarrow> (string \<times> string) list \<Rightarrow> 'w \<Rightarrow> bool \<times> 'w" where
  "put_packages env temp [] w = (True, w)"
| "put_packages env temp ((name, version) # ps) w =
     (case pk_put env temp (name @ '' '' @ version @ [NL]) w of
        (False, w) \<Rightarrow> (False, w)
      | (True, w) \<Rightarrow> put_packages env temp ps w)"

text \<open>What happens between the creation of the temporary file and the end of the guard that removes it.\<close>

definition write_cache :: "'w package_calls \<Rightarrow> package_cache \<Rightarrow> string \<Rightarrow> string \<Rightarrow> 'w \<Rightarrow> unit result \<times> 'w" where
  "write_cache env c temp path w =
     (case pk_open env temp w of
        (False, w) \<Rightarrow> (Inl (Error1 (''Failed to open temporary file for writing: '' @ temp)), w)
      | (True, w) \<Rightarrow>
     (case pk_put env temp (cache_header c) w of
        (False, w) \<Rightarrow> (Inl (Error1 ''Failed to write header to temporary file''), w)
      | (True, w) \<Rightarrow>
     (case put_packages env temp (pc_packages c) w of
        (False, w) \<Rightarrow> (Inl (Error1 ''Failed to write package name to temporary file''), w)
      | (True, w) \<Rightarrow>
     (case pk_close env temp w of
        (False, w) \<Rightarrow> (Inl (Error1 ''Failed to close temporary file''), w)
      | (True, w) \<Rightarrow>
     (case pk_rename env temp path w of
        (False, w) \<Rightarrow> (Inl (Error1 (''Failed to rename temporary file to target path: '' @ temp @ ''->'' @ path)), w)
      | (True, w) \<Rightarrow> (Inr (), w))))))"

definition cache_template :: "string \<Rightarrow> string" where
  "cache_template path = take 4095 (c_str (path @ ''.tmp.XXXXXX''))"

definition SavePackageCache :: "'w package_calls \<Rightarrow> package_cache \<Rightarrow> string \<Rightarrow> 'w \<Rightarrow> unit result \<times> 'w" where
  "SavePackageCache env c path w =
     (case pk_mkstemp env (cache_template path) w of
        (None, w) \<Rightarrow> (Inl (Error1 ''Failed to create temporary file''), w)
      | (Some temp, w) \<Rightarrow>
          (case write_cache env c temp path w of
             (Inl e, w) \<Rightarrow> (Inl e, pk_remove env temp w)
           | (Inr u, w) \<Rightarrow> (Inr u, w)))"

section \<open>The package managers\<close>

definition DetectPackageManager :: "'w package_calls \<Rightarrow> 'w \<Rightarrow> package_manager result \<times> 'w" where
  "DetectPackageManager env w =
     (case pk_ExecuteCommand env ''dpkg -l dpkg'' w of
        (Inr _, w) \<Rightarrow> (Inr DPKG, w)
      | (Inl _, w) \<Rightarrow>
     (case pk_ExecuteCommand env ''rpm -q rpm'' w of
        (Inr _, w) \<Rightarrow> (Inr RPM, w)
      | (Inl _, w) \<Rightarrow>
     (case pk_ExecuteCommand env ''rpm -q rpm-ndb'' w of
        (Inr _, w) \<Rightarrow> (Inr RPM, w)
      | (Inl _, w) \<Rightarrow> (Inl (Error ''No package manager found'' ENOENT), w))))"

definition rpm_command :: string where
  "rpm_command = ''rpm -qa --qf='' @ quoted (''%{NAME} %{EVR}'' @ [NL])"

definition GetInstalledPackagesRpm :: "'w package_calls \<Rightarrow> 'w \<Rightarrow> package_cache result \<times> 'w" where
  "GetInstalledPackagesRpm env w =
     (case pk_ExecuteCommand env rpm_command w of
        (Inl _, w') \<Rightarrow> (Inl (Error1 ''Failed to execute rpm command''), w')
      | (Inr out, w') \<Rightarrow>
          (Inr \<lparr>pc_lastUpdateTime = pk_time env w, pc_packageManager = RPM, pc_packages = fold package_line (input_lines out) []\<rparr>, w'))"

text \<open>\<open>stream >> word\<close>.\<close>

definition next_word :: "string \<Rightarrow> string \<times> string" where
  "next_word s = (let r = dropWhile isspace s in (takeWhile (\<lambda>c. \<not> isspace c) r, dropWhile (\<lambda>c. \<not> isspace c) r))"

text \<open>A line of \<open>dpkg -l\<close> behind the header; the architecture behind a colon is cut off.\<close>

definition dpkg_line :: "string \<Rightarrow> (string, string) omap \<Rightarrow> (string, string) omap" where
  "dpkg_line line packages =
     (if \<not> starts_with ''ii '' line then packages
      else
        let (state, r) = next_word line; (name, r) = next_word r; (version, r) = next_word r
        in if name = [] then packages
           else om_insert (takeWhile (\<lambda>c. c \<noteq> CHR '':'') name) version packages)"

text \<open>The loop with the flag \<open>headerSkipped\<close>.\<close>

fun dpkg_lines :: "bool \<Rightarrow> string list \<Rightarrow> (string, string) omap \<Rightarrow> (string, string) omap" where
  "dpkg_lines headerSkipped [] packages = packages"
| "dpkg_lines headerSkipped (line # lines) packages =
     (if \<not> headerSkipped then dpkg_lines (starts_with ''+++-'' line) lines packages
      else dpkg_lines True lines (dpkg_line line packages))"

definition GetInstalledPackagesDpkg :: "'w package_calls \<Rightarrow> 'w \<Rightarrow> package_cache result \<times> 'w" where
  "GetInstalledPackagesDpkg env w =
     (case pk_ExecuteCommand env ''dpkg -l'' w of
        (Inl _, w') \<Rightarrow> (Inl (Error1 ''Failed to execute dpkg command''), w')
      | (Inr out, w') \<Rightarrow>
          (Inr \<lparr>pc_lastUpdateTime = pk_time env w, pc_packageManager = DPKG, pc_packages = dpkg_lines False (input_lines out) []\<rparr>, w'))"

definition GetInstalledPackages :: "'w package_calls \<Rightarrow> package_manager \<Rightarrow> 'w \<Rightarrow> package_cache result \<times> 'w" where
  "GetInstalledPackages env manager w =
     (case manager of
        RPM \<Rightarrow> GetInstalledPackagesRpm env w
      | DPKG \<Rightarrow> GetInstalledPackagesDpkg env w
      | Autodetect \<Rightarrow> (Inl (Error1 (''Unsupported package manager: '' @ package_manager_label manager)), w))"

section \<open>The audit\<close>

record package_params =
  pi_packageName :: string
  pi_minPackageVersion :: "string option"
  pi_packageManager :: package_manager

definition cache_path :: "'w package_calls \<Rightarrow> string" where
  "cache_path env = pk_GetStatePath env @ ''/ComplianceEnginePackageCache''"

definition judge_package :: "package_params \<Rightarrow> package_cache \<Rightarrow> 'w body" where
  "judge_package p c =
     (case om_find (pc_packages c) (pi_packageName p) of
        None \<Rightarrow> returns NonCompliant (''Package '' @ pi_packageName p @ '' is not installed'')
      | Some installed \<Rightarrow>
     (case pi_minPackageVersion p of
        None \<Rightarrow> returns Compliant (''Package '' @ pi_packageName p @ '' is installed'')
      | Some minimum \<Rightarrow>
          if VersionCompare installed minimum < 0
          then returns NonCompliant (''Package '' @ pi_packageName p @ '' is installed but version '' @ installed
            @ '' is less than minimum required version '' @ minimum)
          else returns Compliant (''Package '' @ pi_packageName p @ '' is installed with version '' @ installed
            @ '', which meets or exceeds the minimum required version '' @ minimum)))"

text \<open>The list is refreshed; an old one, if there is one that may be used, is kept when that fails.\<close>

definition refresh_and_judge :: "'w package_calls \<Rightarrow> package_params \<Rightarrow> package_manager \<Rightarrow> package_cache option \<Rightarrow> 'w body" where
  "refresh_and_judge env p manager stale =
     does (GetInstalledPackages env manager) (\<lambda>listed.
       case listed of
         Inr c \<Rightarrow> does (SavePackageCache env c (cache_path env)) (\<lambda>saved. judge_package p c)
       | Inl e \<Rightarrow>
           (case stale of
              Some c \<Rightarrow> judge_package p c
            | None \<Rightarrow> fails (Error1 (''Failed to get installed packages: '' @ err_message e))))"

definition AuditPackageInstalled :: "'w package_calls \<Rightarrow> package_params \<Rightarrow> 'w body" where
  "AuditPackageInstalled env p =
     reads (LoadPackageCache env (cache_path env)) (\<lambda>loaded.
     case loaded of
       Inl _ \<Rightarrow>
         if pi_packageManager p = Autodetect
         then does (DetectPackageManager env) (\<lambda>detected.
           case detected of
             Inl e \<Rightarrow> if err_code e = ENOENT then returns NotApplicable (err_message e) else fails e
           | Inr manager \<Rightarrow> refresh_and_judge env p manager None)
         else refresh_and_judge env p (pi_packageManager p) None
     | Inr c \<Rightarrow>
         let manager = (if pi_packageManager p = Autodetect then pc_packageManager c else pi_packageManager p) in
         if pc_packageManager c \<noteq> manager then refresh_and_judge env p manager None
         else reads (pk_time env) (\<lambda>now.
           let cacheAge = now - pc_lastUpdateTime c in
           if PACKAGELIST_STALE_TTL < cacheAge then refresh_and_judge env p manager None
           else if PACKAGELIST_TTL < cacheAge then refresh_and_judge env p manager (Some c)
           else judge_package p c))"

section \<open>The text of a cache\<close>

fun package_text :: "(string \<times> string) list \<Rightarrow> string" where
  "package_text [] = []"
| "package_text ((name, version) # ps) = name @ '' '' @ version @ [NL] @ package_text ps"

definition cache_text :: "package_cache \<Rightarrow> string" where
  "cache_text c = cache_header c @ package_text (pc_packages c)"

text \<open>What a list of a package manager is: no name has a space or ends the line, no version ends the line.\<close>

definition package_ok :: "string \<times> string \<Rightarrow> bool" where
  "package_ok nv \<longleftrightarrow> CHR '' '' \<notin> set (fst nv) \<and> NL \<notin> set (fst nv) \<and> NL \<notin> set (snd nv)"

definition cache_ok :: "package_cache \<Rightarrow> bool" where
  "cache_ok c \<longleftrightarrow> pc_packageManager c \<noteq> Autodetect \<and> om_inv (pc_packages c) \<and> (\<forall>nv\<in>set (pc_packages c). package_ok nv)
     \<and> - LONG_MAX - 1 \<le> pc_lastUpdateTime c \<and> pc_lastUpdateTime c \<le> LONG_MAX"

lemma package_line_text:
  "package_ok (name, version) \<Longrightarrow> package_line (name @ '' '' @ version) m = om_insert name version m"
  by (simp add: package_line_def package_ok_def str_simps)

lemma package_text_lines:
  assumes "\<forall>nv\<in>set ps. package_ok nv"
  shows "fold package_line (input_lines (package_text ps)) m = fold (\<lambda>(k, v). om_insert k v) ps m"
  using assms
proof (induction ps arbitrary: m rule: package_text.induct)
  case 1
  then show ?case by (simp add: input_lines_simps)
next
  case (2 name version ps)
  then have ok: "package_ok (name, version)" by simp
  then have nl: "NL \<notin> set (name @ '' '' @ version)" by (simp add: package_ok_def)
  have "input_lines (package_text ((name, version) # ps)) = (name @ '' '' @ version) # input_lines (package_text ps)"
    using input_lines_Cons [OF nl, of "package_text ps"] by simp
  then show ?case using 2 package_line_text [OF ok, of m] by simp
qed

lemma label_clean: "CHR ''@'' \<notin> set (package_manager_label m)" "NL \<notin> set (package_manager_label m)"
  by (cases m; simp)+

lemma header_manager_label: "m \<noteq> Autodetect \<Longrightarrow> header_manager (package_manager_label m) = Inr m"
  by (cases m) (simp_all add: header_manager_def)

lemma header_time_text:
  "- LONG_MAX - 1 \<le> t \<Longrightarrow> t \<le> LONG_MAX \<Longrightarrow> header_time (to_string_int t) = Inr t"
  by (simp add: header_time_def strtol_to_string_int)

lemma to_string_int_NL: "NL \<notin> set (to_string_int t)"
  using to_string_int_writable [of t] by (auto simp: writable_def isspace_def)

lemma LoadPackageCache_text:
  assumes "cache_ok c" "pk_read env path w = Some (cache_text c)" "\<not> pk_bad env path w"
  shows "LoadPackageCache env path w = Inr c"
proof -
  let ?pre = "pkgCacheHeader @ package_manager_label (pc_packageManager c)"
  let ?header = "?pre @ ''@'' @ to_string_int (pc_lastUpdateTime c)"
  have nl: "NL \<notin> set ?header" by (simp add: pkgCacheHeader_def label_clean to_string_int_NL)
  have lines: "input_lines (cache_text c) = ?header # input_lines (package_text (pc_packages c))"
    using input_lines_Cons [OF nl, of "package_text (pc_packages c)"] by (simp add: cache_text_def cache_header_def)
  have at: "find_char (CHR ''@'') ?header = Some (length ?pre)"
    by (simp add: str_simps pkgCacheHeader_def label_clean)
  have "fold package_line (input_lines (package_text (pc_packages c))) [] = pc_packages c"
    using assms(1) by (simp add: cache_ok_def package_text_lines fold_om_insert)
  moreover have "starts_with pkgCacheHeader ?header" by (simp add: pkgCacheHeader_def)
  moreover have "substr (length pkgCacheHeader) (length ?pre - length pkgCacheHeader) ?header = package_manager_label (pc_packageManager c)"
    by (simp add: substr_def)
  moreover have "drop (length ?pre + 1) ?header = to_string_int (pc_lastUpdateTime c)"
    by simp
  ultimately show ?thesis
    using assms at
    by (simp add: LoadPackageCache_def lines cache_ok_def header_manager_label header_time_text del: append_assoc)
qed

text \<open>Both package managers give such a list.\<close>

lemma package_line_ok:
  assumes "om_inv m" "\<forall>nv\<in>set m. package_ok nv" "NL \<notin> set line"
  shows "om_inv (package_line line m) \<and> (\<forall>nv\<in>set (package_line line m). package_ok nv)"
proof (cases "find_char (CHR '' '') line")
  case None
  then show ?thesis using assms by (simp add: package_line_def)
next
  case (Some k)
  have "package_ok (take k line, drop (k + 1) line)"
    using Some assms(3) by (auto simp: package_ok_def find_char_Some dest: in_set_takeD in_set_dropD)
  then show ?thesis
    using assms Some set_om_insert [of "take k line" "drop (k + 1) line" m] by (auto simp: package_line_def om_inv_insert)
qed

lemma input_lines_no_NL: "line \<in> set (input_lines s) \<Longrightarrow> NL \<notin> set line"
proof (induction s rule: length_induct)
  case (1 s)
  show ?case
  proof (cases "s = []")
    case True
    then show ?thesis using 1 by (simp add: input_lines_simps)
  next
    case False
    have "NL \<notin> set (fst (span_until NL s))" by (induction s) (auto split: prod.splits)
    then show ?thesis using 1 False input_lines_simps(2) [OF False] span_until_shorter [OF False, of NL] by auto
  qed
qed

lemma package_lines_ok:
  assumes "\<forall>line\<in>set lines. NL \<notin> set line" "om_inv m" "\<forall>nv\<in>set m. package_ok nv"
  shows "om_inv (fold package_line lines m) \<and> (\<forall>nv\<in>set (fold package_line lines m). package_ok nv)"
  using assms
proof (induction lines arbitrary: m)
  case Nil
  then show ?case by simp
next
  case (Cons line lines)
  then have ok: "om_inv (package_line line m)" "\<forall>nv\<in>set (package_line line m). package_ok nv"
    using package_line_ok [OF Cons.prems(2,3), of line] by simp_all
  show ?case using Cons.IH [OF _ ok] Cons.prems(1) by simp
qed

lemma next_word_clean: "c \<in> set (fst (next_word s)) \<Longrightarrow> \<not> isspace c"
  by (auto simp: next_word_def Let_def dest: set_takeWhileD)

lemma dpkg_line_ok:
  assumes "om_inv m" "\<forall>nv\<in>set m. package_ok nv"
  shows "om_inv (dpkg_line line m) \<and> (\<forall>nv\<in>set (dpkg_line line m). package_ok nv)"
proof -
  define name where "name = fst (next_word (snd (next_word line)))"
  define version where "version = fst (next_word (snd (next_word (snd (next_word line)))))"
  define short where "short = takeWhile (\<lambda>c. c \<noteq> CHR '':'') name"
  have clean: "\<not> isspace c" if "c \<in> set short \<or> c \<in> set version" for c
    using that by (auto simp: short_def name_def version_def dest: set_takeWhileD next_word_clean)
  have "isspace (CHR '' '')" "isspace NL" by (simp_all add: isspace_def)
  then have ok: "package_ok (short, version)" using clean by (auto simp: package_ok_def)
  have "dpkg_line line m = m \<or> dpkg_line line m = om_insert short version m"
    by (auto simp: dpkg_line_def short_def name_def version_def split: prod.splits)
  then show ?thesis using assms ok set_om_insert [of short version m] by (auto simp: om_inv_insert)
qed

lemma dpkg_lines_ok:
  assumes "om_inv m" "\<forall>nv\<in>set m. package_ok nv"
  shows "om_inv (dpkg_lines h lines m) \<and> (\<forall>nv\<in>set (dpkg_lines h lines m). package_ok nv)"
  using assms
proof (induction h lines m rule: dpkg_lines.induct)
  case (1 h m)
  then show ?case by simp
next
  case (2 h line lines m)
  have ok: "om_inv (dpkg_line line m)" "\<forall>nv\<in>set (dpkg_line line m). package_ok nv"
    using dpkg_line_ok [OF "2.prems"] by simp_all
  show ?case
  proof (cases h)
    case True
    have "om_inv (dpkg_lines True lines (dpkg_line line m)) \<and> (\<forall>nv\<in>set (dpkg_lines True lines (dpkg_line line m)). package_ok nv)"
      by (rule "2.IH"(2)) (use ok True in simp_all)
    then show ?thesis using True by simp
  next
    case False
    have "om_inv (dpkg_lines (starts_with ''+++-'' line) lines m) \<and> (\<forall>nv\<in>set (dpkg_lines (starts_with ''+++-'' line) lines m). package_ok nv)"
      by (rule "2.IH"(1)) (use "2.prems" False in simp_all)
    then show ?thesis using False by simp
  qed
qed

lemma GetInstalledPackages_ok:
  assumes "GetInstalledPackages env manager w = (Inr c, w')" "- LONG_MAX - 1 \<le> pk_time env w" "pk_time env w \<le> LONG_MAX"
  shows "cache_ok c \<and> pc_packageManager c = manager \<and> pc_lastUpdateTime c = pk_time env w"
proof (cases manager)
  case Autodetect
  then show ?thesis using assms by (simp add: GetInstalledPackages_def)
next
  case RPM
  with assms(1) obtain out where "c = \<lparr>pc_lastUpdateTime = pk_time env w, pc_packageManager = RPM,
      pc_packages = fold package_line (input_lines out) []\<rparr>"
    by (auto simp: GetInstalledPackages_def GetInstalledPackagesRpm_def split: prod.splits sum.splits)
  then show ?thesis
    using assms(2,3) RPM package_lines_ok [of "input_lines out" "[]"] input_lines_no_NL by (simp add: cache_ok_def)
next
  case DPKG
  with assms(1) obtain out where "c = \<lparr>pc_lastUpdateTime = pk_time env w, pc_packageManager = DPKG,
      pc_packages = dpkg_lines False (input_lines out) []\<rparr>"
    by (auto simp: GetInstalledPackages_def GetInstalledPackagesDpkg_def split: prod.splits sum.splits)
  moreover have "om_inv (dpkg_lines False (input_lines out) []) \<and> (\<forall>nv\<in>set (dpkg_lines False (input_lines out) []). package_ok nv)"
    by (rule dpkg_lines_ok) simp_all
  ultimately show ?thesis using assms(2,3) DPKG by (simp add: cache_ok_def)
qed

section \<open>Saving\<close>

text \<open>What a file system promises of the calls: \<open>content w path\<close> is the content of a file. A call that fails on
  the temporary file may leave anything in it.\<close>

locale cache_files =
  fixes env :: "'w package_calls" and content :: "'w \<Rightarrow> string \<Rightarrow> string option"
  assumes mkstemp: "pk_mkstemp env t w = (Some n, w') \<Longrightarrow> length n = length t \<and> content w n = None \<and> content w' = (content w)(n \<mapsto> [])"
    and mkstemp_fails: "pk_mkstemp env t w = (None, w') \<Longrightarrow> content w' = content w"
    and open_file: "pk_open env n w = (ok, w') \<Longrightarrow> \<exists>x. content w' = (content w)(n := x) \<and> (ok \<longrightarrow> x = Some [])"
    and put: "content w n = Some s \<Longrightarrow> pk_put env n t w = (ok, w')
      \<Longrightarrow> \<exists>x. content w' = (content w)(n := x) \<and> (ok \<longrightarrow> x = Some (s @ t))"
    and close: "content w n = Some s \<Longrightarrow> pk_close env n w = (ok, w') \<Longrightarrow> \<exists>x. content w' = (content w)(n := x) \<and> (ok \<longrightarrow> x = Some s)"
    and rename: "n \<noteq> path \<Longrightarrow> pk_rename env n path w = (ok, w')
      \<Longrightarrow> content w' = (if ok then (content w)(path := content w n, n := None) else content w)"
    and remove: "content (pk_remove env n w) = (content w)(n := None)"
    and read: "pk_read env n w = content w n"
begin

lemma put_packages_file:
  assumes "content w n = Some s" "put_packages env n ps w = (ok, w')"
  shows "\<exists>x. content w' = (content w)(n := x) \<and> (ok \<longrightarrow> x = Some (s @ package_text ps))"
  using assms
proof (induction ps arbitrary: w s)
  case Nil
  then show ?case by (intro exI [of _ "Some s"]) auto
next
  case (Cons p ps)
  obtain name version where p: "p = (name, version)" by (cases p)
  obtain b w1 where b: "pk_put env n (name @ '' '' @ version @ [NL]) w = (b, w1)" by fastforce
  from put [OF Cons.prems(1) b] obtain x where x: "content w1 = (content w)(n := x)"
      "b \<longrightarrow> x = Some (s @ name @ '' '' @ version @ [NL])" by auto
  show ?case
  proof (cases b)
    case False
    then show ?thesis using Cons.prems(2) x b p by auto
  next
    case True
    then have "content w1 n = Some (s @ name @ '' '' @ version @ [NL])" "put_packages env n ps w1 = (ok, w')"
      using x Cons.prems(2) b p by auto
    from Cons.IH [OF this] obtain y where "content w' = (content w1)(n := y)"
        "ok \<longrightarrow> y = Some ((s @ name @ '' '' @ version @ [NL]) @ package_text ps)" by blast
    then show ?thesis using x by (intro exI [of _ y]) (simp add: p)
  qed
qed

text \<open>Writing ends with the whole text in the target, or with the target as it was.\<close>

lemma write_cache_outcome:
  assumes "content w n = Some s" "n \<noteq> path" "write_cache env c n path w = (r, w')"
  shows "case r of Inr _ \<Rightarrow> content w' = (content w)(path \<mapsto> cache_text c, n := None)
    | Inl _ \<Rightarrow> \<exists>x. content w' = (content w)(n := x)"
proof -
  obtain b1 w1 where 1: "pk_open env n w = (b1, w1)" by fastforce
  obtain b2 w2 where 2: "pk_put env n (cache_header c) w1 = (b2, w2)" by fastforce
  obtain b3 w3 where 3: "put_packages env n (pc_packages c) w2 = (b3, w3)" by fastforce
  obtain b4 w4 where 4: "pk_close env n w3 = (b4, w4)" by fastforce
  obtain b5 w5 where 5: "pk_rename env n path w4 = (b5, w5)" by fastforce
  obtain x1 where x1: "content w1 = (content w)(n := x1)" "b1 \<longrightarrow> x1 = Some []" using open_file [OF 1] by blast
  show ?thesis
  proof (cases b1)
    case False
    then show ?thesis using assms(3) 1 x1 by (auto simp: write_cache_def)
  next
    case b1: True
    then have "content w1 n = Some []" using x1 by simp
    from put [OF this 2] obtain x2 where x2: "content w2 = (content w)(n := x2)" "b2 \<longrightarrow> x2 = Some (cache_header c)"
      using x1 by auto
    show ?thesis
    proof (cases b2)
      case False
      then show ?thesis using assms(3) 1 2 b1 x2 by (auto simp: write_cache_def)
    next
      case b2: True
      then have "content w2 n = Some (cache_header c)" using x2 by simp
      from put_packages_file [OF this 3] obtain x3 where x3: "content w3 = (content w)(n := x3)"
          "b3 \<longrightarrow> x3 = Some (cache_text c)" using x2 by (auto simp: cache_text_def)
      show ?thesis
      proof (cases b3)
        case False
        then show ?thesis using assms(3) 1 2 3 b1 b2 x3 by (auto simp: write_cache_def)
      next
        case b3: True
        then have "content w3 n = Some (cache_text c)" using x3 by simp
        from close [OF this 4] obtain x4 where x4: "content w4 = (content w)(n := x4)" "b4 \<longrightarrow> x4 = Some (cache_text c)"
          using x3 by auto
        show ?thesis
        proof (cases b4)
          case False
          then show ?thesis using assms(3) 1 2 3 4 b1 b2 b3 x4 by (auto simp: write_cache_def)
        next
          case b4: True
          have "content w5 = (if b5 then (content w4)(path := content w4 n, n := None) else content w4)"
            by (rule rename [OF assms(2) 5])
          then show ?thesis
            using assms(2,3) 1 2 3 4 5 b1 b2 b3 b4 x4 by (cases b5) (auto simp: write_cache_def fun_upd_twist)
        qed
      qed
    qed
  qed
qed

lemma SavePackageCache_outcome:
  assumes "SavePackageCache env c path w = (r, w')" "NUL \<notin> set path" "length path < 4085"
  shows "content w' = (case r of Inr _ \<Rightarrow> (content w)(path \<mapsto> cache_text c) | Inl _ \<Rightarrow> content w)"
proof -
  obtain t w1 where t: "pk_mkstemp env (cache_template path) w = (t, w1)" by fastforce
  show ?thesis
  proof (cases t)
    case None
    then show ?thesis using assms(1) t mkstemp_fails by (auto simp: SavePackageCache_def)
  next
    case (Some n)
    note m = mkstemp [OF t [unfolded Some]]
    have "c_str (path @ ''.tmp.XXXXXX'') = path @ ''.tmp.XXXXXX''" using assms(2) by (intro c_str_id) simp
    then have "length (cache_template path) \<noteq> length path" using assms(3) by (simp add: cache_template_def)
    then have n: "n \<noteq> path" using m by auto
    obtain r2 w2 where w2: "write_cache env c n path w1 = (r2, w2)" by fastforce
    have n1: "content w1 n = Some []" and w1: "content w1 = (content w)(n \<mapsto> [])" and fresh: "content w n = None"
      using m by simp_all
    have idem: "(content w)(n := None) = content w" using fresh by (simp add: fun_upd_idem)
    show ?thesis
    proof (cases r2)
      case (Inl e)
      then obtain x where "content w2 = (content w1)(n := x)" using write_cache_outcome [OF n1 n w2] by auto
      then have "content (pk_remove env n w2) = content w" using w1 idem by (simp add: remove)
      moreover have "r = Inl e" "w' = pk_remove env n w2"
        using assms(1) t Some w2 Inl by (simp_all add: SavePackageCache_def)
      ultimately show ?thesis by simp
    next
      case (Inr u)
      then have "content w2 = (content w1)(path \<mapsto> cache_text c, n := None)" using write_cache_outcome [OF n1 n w2] by simp
      also have "\<dots> = (content w)(path \<mapsto> cache_text c)"
        using n fresh by (auto simp: w1 fun_eq_iff)
      finally have "content w2 = (content w)(path \<mapsto> cache_text c)" .
      moreover have "r = Inr ()" "w' = w2" using assms(1) t Some w2 Inr by (simp_all add: SavePackageCache_def)
      ultimately show ?thesis by simp
    qed
  qed
qed

text \<open>A list that was saved is the one that is loaded.\<close>

lemma SavePackageCache_LoadPackageCache:
  assumes "SavePackageCache env c path w = (Inr u, w')" "NUL \<notin> set path" "length path < 4085" "cache_ok c"
    and "\<not> pk_bad env path w'"
  shows "LoadPackageCache env path w' = Inr c"
  using SavePackageCache_outcome [OF assms(1-3)] assms(4,5)
  by (intro LoadPackageCache_text) (simp_all add: read)

end

text \<open>A directory with the answers of the calls: the name \<open>mkstemp\<close> finds (it never takes one that
  exists), and which calls fail. A failed write or close loses the text.\<close>

record save_faults =
  sv_name :: "string \<Rightarrow> string option"
  sv_open_fails :: bool
  sv_put_fails :: "string \<Rightarrow> bool"
  sv_close_fails :: bool
  sv_rename_fails :: bool

type_synonym file_map = "string \<Rightarrow> string option"

definition fault_mkstemp :: "save_faults \<Rightarrow> string \<Rightarrow> file_map \<Rightarrow> string option \<times> file_map" where
  "fault_mkstemp f t d =
     (case sv_name f t of
        None \<Rightarrow> (None, d)
      | Some n \<Rightarrow> if length n = length t \<and> d n = None then (Some n, d(n \<mapsto> [])) else (None, d))"

definition fault_put :: "save_faults \<Rightarrow> string \<Rightarrow> string \<Rightarrow> file_map \<Rightarrow> bool \<times> file_map" where
  "fault_put f n t d = (if sv_put_fails f t then (False, d(n \<mapsto> [])) else (True, d(n := map_option (\<lambda>s. s @ t) (d n))))"

definition disk_package_calls ::
  "save_faults \<Rightarrow> (string \<Rightarrow> file_map \<Rightarrow> string result \<times> file_map) \<Rightarrow> (file_map \<Rightarrow> int) \<Rightarrow> string \<Rightarrow> file_map package_calls" where
  "disk_package_calls f execute now state =
     \<lparr>pk_ExecuteCommand = execute, pk_GetStatePath = state, pk_time = now,
      pk_read = (\<lambda>n d. d n), pk_bad = (\<lambda>n d. False),
      pk_mkstemp = fault_mkstemp f,
      pk_open = (\<lambda>n d. if sv_open_fails f then (False, d) else (True, d(n \<mapsto> []))),
      pk_put = fault_put f,
      pk_close = (\<lambda>n d. if sv_close_fails f then (False, d(n \<mapsto> [])) else (True, d)),
      pk_rename = (\<lambda>a b d. if sv_rename_fails f then (False, d) else (True, d(b := d a, a := None))),
      pk_remove = (\<lambda>n d. d(n := None))\<rparr>"

interpretation package_disk: cache_files "disk_package_calls f execute now state" "\<lambda>d. d" for f execute now state
proof (unfold_locales, goal_cases)
  case (1 t w n w')
  then show ?case by (auto simp: disk_package_calls_def fault_mkstemp_def split: option.splits if_splits)
next
  case (2 t w w')
  then show ?case by (auto simp: disk_package_calls_def fault_mkstemp_def split: option.splits if_splits)
next
  case (3 n w ok w')
  then show ?case by (auto simp: disk_package_calls_def split: if_splits intro!: exI [of _ "w n"])
next
  case (4 w n s t ok w')
  then show ?case by (auto simp: disk_package_calls_def fault_put_def split: if_splits)
next
  case (5 w n s ok w')
  then show ?case by (cases "sv_close_fails f") (auto simp: disk_package_calls_def fun_upd_idem)
next
  case (6 n path ok w w')
  then show ?case by (auto simp: disk_package_calls_def split: if_splits)
next
  case (7 n w)
  then show ?case by (simp add: disk_package_calls_def)
next
  case (8 n w)
  then show ?case by (simp add: disk_package_calls_def)
qed

section \<open>The verdicts\<close>

text \<open>What a list says of a package.\<close>

definition package_verdict :: "package_params \<Rightarrow> package_cache \<Rightarrow> status" where
  "package_verdict p c =
     (case om_find (pc_packages c) (pi_packageName p) of
        None \<Rightarrow> NonCompliant
      | Some installed \<Rightarrow>
          (case pi_minPackageVersion p of
             None \<Rightarrow> Compliant
           | Some minimum \<Rightarrow> if VersionCompare installed minimum < 0 then NonCompliant else Compliant))"

lemma judge_package_status [simp]: "fst (judge_package p c it w) = Inr (package_verdict p c)"
  by (simp add: judge_package_def package_verdict_def split: option.split)

lemma judge_package_machine [simp]: "snd (snd (judge_package p c it w)) = w"
  by (simp add: judge_package_def split: option.split)

lemma package_verdict_version:
  assumes "om_find (pc_packages c) (pi_packageName p) = Some installed" "pi_minPackageVersion p = Some minimum"
    and "length installed < 2 ^ 31" "length minimum < 2 ^ 31"
  shows "package_verdict p c = Compliant \<longleftrightarrow> version_key minimum \<le> version_key installed"
  using assms by (auto simp: package_verdict_def VersionCompare_key three_way_def)

text \<open>The age of a list, and the manager that is asked.\<close>

definition manager_matches :: "package_params \<Rightarrow> package_cache \<Rightarrow> bool" where
  "manager_matches p c \<longleftrightarrow> pi_packageManager p = Autodetect \<or> pi_packageManager p = pc_packageManager c"

text \<open>A recent list decides, and nothing is run or written.\<close>

lemma recent_cache_decides:
  assumes "LoadPackageCache env (cache_path env) w = Inr c" "manager_matches p c"
    and "pk_time env w - pc_lastUpdateTime c \<le> PACKAGELIST_TTL"
  shows "AuditPackageInstalled env p it w = judge_package p c it w"
  using assms by (auto simp: AuditPackageInstalled_def reads_def manager_matches_def Let_def)

text \<open>An older list is refreshed, and decides if the refresh fails.\<close>

lemma stale_cache_refreshed:
  assumes "LoadPackageCache env (cache_path env) w = Inr c" "manager_matches p c"
    and "PACKAGELIST_TTL < pk_time env w - pc_lastUpdateTime c" "pk_time env w - pc_lastUpdateTime c \<le> PACKAGELIST_STALE_TTL"
  shows "fst (AuditPackageInstalled env p it w) =
    (case fst (GetInstalledPackages env (pc_packageManager c) w) of
       Inr c' \<Rightarrow> Inr (package_verdict p c') | Inl _ \<Rightarrow> Inr (package_verdict p c))"
  using assms
  by (auto simp: AuditPackageInstalled_def reads_def manager_matches_def Let_def refresh_and_judge_def does_def
      split: prod.splits sum.splits)

text \<open>A list that is too old, of another manager or unreadable is never used.\<close>

definition unusable :: "'w package_calls \<Rightarrow> package_params \<Rightarrow> 'w \<Rightarrow> bool" where
  "unusable env p w \<longleftrightarrow>
     (case LoadPackageCache env (cache_path env) w of
        Inl _ \<Rightarrow> pi_packageManager p \<noteq> Autodetect
      | Inr c \<Rightarrow> \<not> manager_matches p c \<or> PACKAGELIST_STALE_TTL < pk_time env w - pc_lastUpdateTime c)"

lemma unusable_cache_ignored:
  assumes "unusable env p w"
  shows "\<exists>manager. manager \<in> {pi_packageManager p} \<union> pc_packageManager ` {c. LoadPackageCache env (cache_path env) w = Inr c}
    \<and> fst (AuditPackageInstalled env p it w) =
      (case fst (GetInstalledPackages env manager w) of
         Inr c \<Rightarrow> Inr (package_verdict p c)
       | Inl e \<Rightarrow> Inl (Error1 (''Failed to get installed packages: '' @ err_message e)))"
proof -
  have run: "fst (refresh_and_judge env p manager None it w) =
      (case fst (GetInstalledPackages env manager w) of
         Inr c \<Rightarrow> Inr (package_verdict p c)
       | Inl e \<Rightarrow> Inl (Error1 (''Failed to get installed packages: '' @ err_message e)))" for manager
    by (auto simp: refresh_and_judge_def does_def split: prod.splits sum.splits)
  show ?thesis
  proof (cases "LoadPackageCache env (cache_path env) w")
    case (Inl e)
    then have "AuditPackageInstalled env p it w = refresh_and_judge env p (pi_packageManager p) None it w"
      using assms by (simp add: unusable_def AuditPackageInstalled_def reads_def)
    then show ?thesis using run by auto
  next
    case (Inr c)
    define manager where "manager = (if pi_packageManager p = Autodetect then pc_packageManager c else pi_packageManager p)"
    have "AuditPackageInstalled env p it w = refresh_and_judge env p manager None it w"
      using assms Inr by (auto simp: unusable_def manager_matches_def manager_def AuditPackageInstalled_def reads_def Let_def)
    then show ?thesis using run Inr by (auto simp: manager_def)
  qed
qed

text \<open>The age is signed: a list that claims to be from the future is never refreshed.\<close>

lemma future_cache_trusted:
  assumes "LoadPackageCache env (cache_path env) w = Inr c" "manager_matches p c" "pk_time env w \<le> pc_lastUpdateTime c"
  shows "AuditPackageInstalled env p it w = judge_package p c it w"
  using assms by (intro recent_cache_decides) auto

section \<open>The contract of procedures\<close>

lemma contract_judge [contract_intros]: "procedure_contract (judge_package p c)"
  unfolding judge_package_def by (intro contract_intros)

lemma contract_refresh [contract_intros]: "procedure_contract (refresh_and_judge env p manager stale)"
  unfolding refresh_and_judge_def by (intro contract_intros)

interpretation package_installed: procedure_contract "AuditPackageInstalled env p" for env p
  unfolding AuditPackageInstalled_def by (intro contract_intros)

end
