(* ===== verification/Nameservers.thy ===== *)
theory Nameservers
  imports LoginDefsProps
begin

text \<open>
  \<open>src/lib/parsers/NameserverSelection.cpp\<close>: the selection of the values of \<open>nameserver\<close> lines, with its
  limits. The code scans the bytes from anchor to anchor; a run of white space behind the word may cross the
  end of the line. Shown: within the limits the captures are those of a reference definition on lines, they
  lie inside the text and do not overlap, and the limits are never exceeded.
\<close>

section \<open>The code\<close>

record selection_limits =
  sl_occurrences :: nat
  sl_captureBytes :: nat
  sl_capturedBytes :: nat

record capture =
  cp_anchor :: nat
  cp_offset :: nat
  cp_length :: nat

record selection_document =
  sd_bytes :: string
  sd_source :: string
  sd_captures :: "capture list"

text \<open>The word, one white space character and the rest behind the maximal run of white space.\<close>

definition nameserver_value :: "string \<Rightarrow> string option" where
  "nameserver_value rest =
     (if starts_with ''nameserver'' rest \<and> drop 10 rest \<noteq> [] \<and> IsAsciiWhitespace (hd (drop 10 rest))
      then Some (dropWhile IsAsciiWhitespace (drop 10 rest)) else None)"

lemma nameserver_value_length: "nameserver_value rest = Some r \<Longrightarrow> length r < length rest"
  using length_dropWhile_le [of IsAsciiWhitespace "drop 10 rest"]
  by (auto simp: nameserver_value_def split: if_splits)

abbreviation until_NL :: "string \<Rightarrow> string" where "until_NL \<equiv> takeWhile (\<lambda>c. c \<noteq> NL)"

text \<open>The loop: \<open>rest\<close> is the content from \<open>anchor\<close> on.\<close>

function capture_loop :: "selection_limits \<Rightarrow> string \<Rightarrow> nat \<Rightarrow> string \<Rightarrow> capture list \<Rightarrow> nat \<Rightarrow> capture list result" where
  "capture_loop li source anchor rest caps used =
     (case nameserver_value rest of
        Some r \<Rightarrow>
          let cursor = anchor + (length rest - length r); n = length (until_NL r) in
          if sl_occurrences li \<le> length caps
          then Inl (Error (''Nameserver selection occurrence limit exceeded: '' @ source) E2BIG)
          else if sl_captureBytes li < n \<or> sl_capturedBytes li - used < n
          then Inl (Error (''Nameserver selection capture limit exceeded: '' @ source) E2BIG)
          else
            let caps = caps @ [\<lparr>cp_anchor = anchor, cp_offset = cursor, cp_length = n\<rparr>] in
            if NL \<notin> set r then Inr caps
            else capture_loop li source (cursor + n + 1) (drop (n + 1) r) caps (used + n)
      | None \<Rightarrow>
          if NL \<notin> set rest then Inr caps
          else let n = length (until_NL rest) in
            capture_loop li source (anchor + n + 1) (drop (n + 1) rest) caps used)"
  by pat_completeness auto
termination
  by (relation "measure (\<lambda>(li, source, anchor, rest, caps, used). length rest)")
    (auto dest: nameserver_value_length, metis diff_less length_pos_if_in_set zero_less_Suc)

declare capture_loop.simps [simp del]

definition FindNameserverCaptures :: "string \<Rightarrow> string \<Rightarrow> selection_limits \<Rightarrow> selection_document result" where
  "FindNameserverCaptures bytes source li =
     (if sl_occurrences li = 0 \<or> sl_captureBytes li = 0 \<or> sl_capturedBytes li = 0
      then Inl (Error (''Nameserver selection limits must be positive: '' @ source) EINVAL)
      else and_then (capture_loop li source 0 bytes [] 0) (\<lambda>caps.
        Inr \<lparr>sd_bytes = bytes, sd_source = source, sd_captures = caps\<rparr>))"

section \<open>The reference: lines\<close>

text \<open>The pieces between line ends, the last one included.\<close>

fun pieces :: "string \<Rightarrow> string list" where
  "pieces [] = [[]]"
| "pieces (c # cs) = (if c = NL then [] # pieces cs else (c # hd (pieces cs)) # tl (pieces cs))"

text \<open>The value of a \<open>nameserver\<close> line: what is behind the word and white space on the line, or, when
  there is nothing, the next line that is not blank without its indentation.\<close>

abbreviation trim_left :: "string \<Rightarrow> string" where "trim_left \<equiv> dropWhile IsAsciiWhitespace"

fun value_lines :: "string \<Rightarrow> string list \<Rightarrow> string \<times> string list" where
  "value_lines l [] = (trim_left l, [])"
| "value_lines l (m # ms) = (if trim_left l = [] then value_lines m ms else (trim_left l, m # ms))"

lemma value_lines_length: "length (snd (value_lines l ms)) \<le> length ms"
  by (induction l ms rule: value_lines.induct) auto

text \<open>Whether a line has the word and something white behind it, be it the end of the line.\<close>

definition nameserver_line :: "string \<Rightarrow> bool \<Rightarrow> bool" where
  "nameserver_line l terminated \<longleftrightarrow> starts_with ''nameserver'' l
     \<and> (if drop 10 l = [] then terminated else IsAsciiWhitespace (hd (drop 10 l)))"

function line_values :: "string list \<Rightarrow> string list" where
  "line_values [] = []"
| "line_values (l # ls) =
     (if nameserver_line l (ls \<noteq> [])
      then (let (v, ms) = value_lines (drop 10 l) ls in v # line_values ms)
      else line_values ls)"
  by pat_completeness auto
termination
  by (relation "measure length") (auto, metis le_imp_less_Suc snd_conv value_lines_length)

declare line_values.simps(2) [simp del]

section \<open>The captures are those of the lines\<close>

lemma pieces_not_Nil [simp]: "pieces s \<noteq> []"
  by (cases s) auto

lemma pieces_hd: "hd (pieces s) = until_NL s"
  by (induction s) auto

text \<open>The pieces behind the first one.\<close>

definition more_pieces :: "string \<Rightarrow> string list" where
  "more_pieces s = (if NL \<in> set s then pieces (drop (length (until_NL s) + 1) s) else [])"

lemma pieces_tl: "tl (pieces s) = more_pieces s"
  by (induction s) (auto simp: more_pieces_def)

lemma pieces_Cons: "pieces s = until_NL s # more_pieces s"
  using pieces_hd [of s] pieces_tl [of s] by (cases "pieces s") auto

lemma more_pieces_Nil: "more_pieces s = [] \<longleftrightarrow> NL \<notin> set s"
  by (simp add: more_pieces_def)

lemma white_NL: "IsAsciiWhitespace NL"
  by (simp add: IsAsciiWhitespace_def)

lemma split_NL: "NL \<in> set s \<Longrightarrow> s = until_NL s @ NL # drop (length (until_NL s) + 1) s"
  by (induction s) auto

lemma trim_left_all: "(\<forall>c\<in>set a. IsAsciiWhitespace c) \<Longrightarrow> trim_left (a @ b) = trim_left b"
  by (induction a) auto

lemma trim_left_some: "\<exists>c\<in>set a. \<not> IsAsciiWhitespace c \<Longrightarrow> trim_left (a @ b) = trim_left a @ b"
  by (induction a) auto

lemma until_NL_id: "NL \<notin> set a \<Longrightarrow> until_NL (a @ NL # b) = a"
  by (induction a) auto

lemma more_pieces_append: "NL \<notin> set a \<Longrightarrow> more_pieces (a @ NL # b) = pieces b"
  by (simp add: more_pieces_def until_NL_id)

text \<open>Skipping white space over line ends is skipping blank lines.\<close>

lemma value_lines_pieces: "value_lines (until_NL s) (more_pieces s) = (until_NL (trim_left s), more_pieces (trim_left s))"
proof (induction s rule: length_induct)
  case (1 s)
  show ?case
  proof (cases "NL \<in> set s")
    case False
    then have "NL \<notin> set (trim_left s)" by (auto dest: set_dropWhileD)
    then have "until_NL s = s" "until_NL (trim_left s) = trim_left s" "more_pieces s = []" "more_pieces (trim_left s) = []"
      using False by (auto simp: more_pieces_def takeWhile_eq_all_conv)
    then show ?thesis by (simp only: value_lines.simps)
  next
    case True
    define a where "a = until_NL s"
    define b where "b = drop (length a + 1) s"
    have s: "s = a @ NL # b" using split_NL [OF True] by (simp add: a_def b_def)
    have a: "NL \<notin> set a" by (auto simp: a_def dest: set_takeWhileD)
    have m: "more_pieces s = until_NL b # more_pieces b" using a by (simp add: s more_pieces_append pieces_Cons)
    show ?thesis
    proof (cases "\<forall>c\<in>set a. IsAsciiWhitespace c")
      case True
      then have "trim_left a = []" "trim_left s = trim_left b" by (simp_all add: s trim_left_all white_NL)
      moreover have "value_lines (until_NL b) (more_pieces b) = (until_NL (trim_left b), more_pieces (trim_left b))"
        using 1 by (simp add: s)
      ultimately show ?thesis using a_def by (simp add: m)
    next
      case False
      then have t: "trim_left a \<noteq> []" "trim_left s = trim_left a @ NL # b" by (simp_all add: s trim_left_some)
      have n: "NL \<notin> set (trim_left a)" using a by (auto dest: set_dropWhileD)
      have "until_NL (trim_left s) = trim_left a" "more_pieces (trim_left s) = pieces b"
        using until_NL_id [OF n, of b] more_pieces_append [OF n, of b] by (simp_all only: t(2))
      then show ?thesis using t(1) a_def by (auto simp: m pieces_Cons)
    qed
  qed
qed

lemma nameserver_prefix: "starts_with ''nameserver'' s \<longleftrightarrow> starts_with ''nameserver'' (until_NL s)"
proof
  assume "starts_with ''nameserver'' s"
  then obtain t where "s = ''nameserver'' @ t" by (auto simp only: starts_with_ex)
  then show "starts_with ''nameserver'' (until_NL s)" by (simp add: starts_with_iff)
next
  assume "starts_with ''nameserver'' (until_NL s)"
  then obtain t where "until_NL s = ''nameserver'' @ t" by (auto simp only: starts_with_ex)
  then have "s = ''nameserver'' @ t @ dropWhile (\<lambda>c. c \<noteq> NL) s" by (metis append.assoc takeWhile_dropWhile_id)
  then show "starts_with ''nameserver'' s" by (metis starts_with_ex)
qed

lemma nameserver_value_line:
  "nameserver_value s = (if nameserver_line (until_NL s) (more_pieces s \<noteq> []) then Some (trim_left (drop 10 s)) else None)"
proof -
  show ?thesis
  proof (cases "starts_with ''nameserver'' s")
    case False
    then show ?thesis using nameserver_prefix [of s] by (simp add: nameserver_value_def nameserver_line_def)
  next
    case True
    then obtain t where s: "s = ''nameserver'' @ t" by (auto simp only: starts_with_ex)
    have u: "until_NL s = ''nameserver'' @ until_NL t" "NL \<in> set s \<longleftrightarrow> NL \<in> set t" by (simp_all add: s)
    have "(t \<noteq> [] \<and> IsAsciiWhitespace (hd t)) \<longleftrightarrow> (if until_NL t = [] then NL \<in> set t else IsAsciiWhitespace (hd (until_NL t)))"
      using white_NL by (cases t) auto
    then show ?thesis
      using True nameserver_prefix [of s] by (auto simp: nameserver_value_def nameserver_line_def more_pieces_Nil u s)
  qed
qed

definition capture_text :: "string \<Rightarrow> capture \<Rightarrow> string" where
  "capture_text bytes c = substr (cp_offset c) (cp_length c) bytes"

text \<open>The captures lie one behind the other in the text, from a position on.\<close>

fun captures_within :: "nat \<Rightarrow> capture list \<Rightarrow> nat \<Rightarrow> bool" where
  "captures_within start [] n \<longleftrightarrow> True"
| "captures_within start (c # cs) n \<longleftrightarrow> start \<le> cp_anchor c \<and> cp_anchor c + 10 < cp_offset c
     \<and> cp_offset c + cp_length c \<le> n \<and> captures_within (cp_offset c + cp_length c) cs n"

lemma captures_within_mono: "captures_within i cs n \<Longrightarrow> j \<le> i \<Longrightarrow> captures_within j cs n"
  by (cases cs) auto

lemma line_values_step:
  "line_values (pieces s) =
     (case nameserver_value s of
        None \<Rightarrow> line_values (more_pieces s)
      | Some r \<Rightarrow> until_NL r # line_values (more_pieces r))"
proof (cases "nameserver_line (until_NL s) (more_pieces s \<noteq> [])")
  case True
  then have "starts_with ''nameserver'' s" using nameserver_prefix [of s] by (simp add: nameserver_line_def)
  then obtain t where s: "s = ''nameserver'' @ t" by (auto simp only: starts_with_ex)
  then have "drop 10 (until_NL s) = until_NL (drop 10 s)" "more_pieces (drop 10 s) = more_pieces s"
    by (simp_all add: more_pieces_def)
  then have "value_lines (drop 10 (until_NL s)) (more_pieces s)
      = (until_NL (trim_left (drop 10 s)), more_pieces (trim_left (drop 10 s)))"
    using value_lines_pieces [of "drop 10 s"] by simp
  then show ?thesis using True by (simp add: pieces_Cons [of s] line_values.simps nameserver_value_line)
next
  case False
  then show ?thesis by (simp add: pieces_Cons [of s] line_values.simps nameserver_value_line)
qed

text \<open>What a successful run of the loop has found, with the limits it kept.\<close>

definition loop_found :: "selection_limits \<Rightarrow> nat \<Rightarrow> string \<Rightarrow> string \<Rightarrow> capture list \<Rightarrow> nat \<Rightarrow> capture list \<Rightarrow> bool" where
  "loop_found li anchor pre rest caps used new \<longleftrightarrow>
     map (capture_text (pre @ rest)) new = line_values (pieces rest)
     \<and> captures_within anchor new (length (pre @ rest))
     \<and> (new = [] \<or> length (caps @ new) \<le> sl_occurrences li)
     \<and> (\<forall>c\<in>set new. cp_length c \<le> sl_captureBytes li)
     \<and> used + sum_list (map cp_length new) \<le> max used (sl_capturedBytes li)"

lemma nameserver_value_suffix:
  assumes "nameserver_value s = Some r"
  shows "\<exists>w. s = w @ r \<and> 10 < length w"
proof -
  obtain t where s: "s = ''nameserver'' @ t" "t \<noteq> []" "IsAsciiWhitespace (hd t)" "r = trim_left t"
    using assms by (auto simp: nameserver_value_def starts_with_ex split: if_splits)
  then have "t = takeWhile IsAsciiWhitespace t @ r" "takeWhile IsAsciiWhitespace t \<noteq> []"
    by (simp_all add: takeWhile_eq_Nil_iff)
  then show ?thesis using s(1)
    by (intro exI [of _ "''nameserver'' @ takeWhile IsAsciiWhitespace t"]) (cases "takeWhile IsAsciiWhitespace t"; simp)
qed

lemma capture_loop_found:
  assumes "capture_loop li src anchor rest caps used = Inr caps'" "anchor = length pre" "used \<le> sl_capturedBytes li"
  shows "\<exists>new. caps' = caps @ new \<and> loop_found li anchor pre rest caps used new"
  using assms
proof (induction li src anchor rest caps used arbitrary: pre rule: capture_loop.induct)
  case (1 li src anchor rest caps used)
  show ?case
  proof (cases "nameserver_value rest")
    case None
    show ?thesis
    proof (cases "NL \<in> set rest")
      case False
      then show ?thesis using "1.prems"(1) None
        by (auto simp: capture_loop.simps [of _ _ _ rest] loop_found_def line_values_step more_pieces_def)
    next
      case True
      let ?n = "length (until_NL rest)"
      let ?pre = "pre @ until_NL rest @ [NL]"
      have split: "?pre @ drop (?n + 1) rest = pre @ rest" using split_NL [OF True] by simp
      have "capture_loop li src (anchor + ?n + 1) (drop (?n + 1) rest) caps used = Inr caps'"
        using "1.prems"(1) None True by (simp add: capture_loop.simps [of _ _ _ rest] Let_def)
      from "1.IH"(1) [OF None _ refl this, of ?pre] 1 True obtain new
        where new: "caps' = caps @ new" "loop_found li (anchor + ?n + 1) ?pre (drop (?n + 1) rest) caps used new" by auto
      then show ?thesis
        using True None unfolding loop_found_def split
        by (auto simp: line_values_step [of rest] more_pieces_def intro: captures_within_mono)
    qed
  next
    case (Some r)
    let ?n = "length (until_NL r)"
    define k where "k = anchor + (length rest - length r)"
    let ?cap = "\<lparr>cp_anchor = anchor, cp_offset = k, cp_length = ?n\<rparr>"
    obtain w where w: "rest = w @ r" "10 < length w" using nameserver_value_suffix [OF Some] by blast
    have k: "k = length pre + length w" using w "1.prems"(2) by (simp add: k_def)
    have gap: "anchor + 10 < k" using w(2) "1.prems"(2) by (simp add: k)
    have lv: "line_values (pieces rest) = until_NL r # line_values (more_pieces r)"
      using Some by (simp add: line_values_step [of rest])
    have captured: "capture_text (pre @ rest) ?cap = until_NL r"
      by (simp add: capture_text_def substr_def k w(1) takeWhile_eq_take [symmetric])
    have ok: "\<not> sl_occurrences li \<le> length caps" "\<not> (sl_captureBytes li < ?n \<or> sl_capturedBytes li - used < ?n)"
      using "1.prems"(1) Some by (auto simp: capture_loop.simps [of _ _ _ rest] Let_def split: if_splits)
    have inside: "k + ?n \<le> length (pre @ rest)" using length_takeWhile_le [of _ r] by (simp add: k w(1))
    show ?thesis
    proof (cases "NL \<in> set r")
      case False
      then have "caps' = caps @ [?cap]" using "1.prems"(1) Some ok False by (simp add: capture_loop.simps [of _ _ _ rest] Let_def k_def)
      moreover have "loop_found li anchor pre rest caps used [?cap]"
        using captured ok inside gap lv False "1.prems"(3)
        by (auto simp: loop_found_def more_pieces_def)
      ultimately show ?thesis by blast
    next
      case True
      let ?pre = "pre @ w @ until_NL r @ [NL]"
      have split: "?pre @ drop (?n + 1) r = pre @ rest" using split_NL [OF True] by (simp add: w(1))
      have run: "capture_loop li src (k + ?n + 1) (drop (?n + 1) r) (caps @ [?cap]) (used + ?n) = Inr caps'"
        using "1.prems"(1) Some ok True by (simp add: capture_loop.simps [of _ _ _ rest] Let_def k_def)
      have len: "k + ?n + 1 = length ?pre" by (simp add: k)
      have le: "used + ?n \<le> sl_capturedBytes li" using ok(2) "1.prems"(3) by linarith
      obtain new where new: "caps' = (caps @ [?cap]) @ new"
          "loop_found li (k + ?n + 1) ?pre (drop (?n + 1) r) (caps @ [?cap]) (used + ?n) new"
        using "1.IH"(2) [OF Some k_def refl ok refl _ run len le] True by auto
      have "loop_found li anchor pre rest caps used (?cap # new)"
        using new(2) captured ok inside gap lv True "1.prems"(3) unfolding loop_found_def split
        by (auto simp: more_pieces_def intro: captures_within_mono)
      then show ?thesis using new(1) by (intro exI [of _ "?cap # new"]) simp
    qed
  qed
qed

text \<open>An error means that the values are too many or too long.\<close>

definition values_fit :: "selection_limits \<Rightarrow> nat \<Rightarrow> nat \<Rightarrow> string list \<Rightarrow> bool" where
  "values_fit li found used vs \<longleftrightarrow> (vs = [] \<or> found + length vs \<le> sl_occurrences li)
     \<and> (\<forall>v\<in>set vs. length v \<le> sl_captureBytes li)
     \<and> used + sum_list (map length vs) \<le> max used (sl_capturedBytes li)"

lemma values_fit_Cons:
  "values_fit li found used (v # vs) \<Longrightarrow> used \<le> sl_capturedBytes li \<Longrightarrow>
     found < sl_occurrences li \<and> length v \<le> sl_captureBytes li \<and> length v \<le> sl_capturedBytes li - used
     \<and> values_fit li (Suc found) (used + length v) vs"
  by (auto simp: values_fit_def)

lemma capture_loop_fits:
  assumes "values_fit li (length caps) used (line_values (pieces rest))" "used \<le> sl_capturedBytes li"
  shows "\<exists>caps'. capture_loop li src anchor rest caps used = Inr caps'"
  using assms
proof (induction li src anchor rest caps used rule: capture_loop.induct)
  case (1 li src anchor rest caps used)
  show ?case
  proof (cases "nameserver_value rest")
    case None
    then have "values_fit li (length caps) used (line_values (more_pieces rest))"
      using "1.prems"(1) by (simp add: line_values_step [of rest])
    then show ?thesis
      using "1.IH"(1) [OF None] None "1.prems"(2)
      by (auto simp: capture_loop.simps [of _ _ _ rest] more_pieces_def Let_def)
  next
    case (Some r)
    let ?n = "length (until_NL r)"
    have fit: "length caps < sl_occurrences li" "?n \<le> sl_captureBytes li" "?n \<le> sl_capturedBytes li - used"
        "values_fit li (Suc (length caps)) (used + ?n) (line_values (more_pieces r))"
      using values_fit_Cons [of li "length caps" used "until_NL r" "line_values (more_pieces r)"] "1.prems" Some
      by (simp_all add: line_values_step [of rest])
    show ?thesis
    proof (cases "NL \<in> set r")
      case False
      then show ?thesis using Some fit by (auto simp: capture_loop.simps [of _ _ _ rest] Let_def)
    next
      case True
      have "\<exists>caps'. capture_loop li src (anchor + (length rest - length r) + ?n + 1) (drop (?n + 1) r)
          (caps @ [\<lparr>cp_anchor = anchor, cp_offset = anchor + (length rest - length r), cp_length = ?n\<rparr>]) (used + ?n) = Inr caps'"
        by (rule "1.IH"(2) [OF Some refl refl]) (use fit True "1.prems"(2) in \<open>auto simp: more_pieces_def\<close>)
      then show ?thesis using Some fit True by (auto simp: capture_loop.simps [of _ _ _ rest] Let_def)
    qed
  qed
qed

text \<open>The selection succeeds exactly when the values fit, and then gives them.\<close>

lemma FindNameserverCaptures_iff:
  "FindNameserverCaptures bytes src li = Inr d \<Longrightarrow>
     sd_bytes d = bytes \<and> map (capture_text bytes) (sd_captures d) = line_values (pieces bytes)
     \<and> captures_within 0 (sd_captures d) (length bytes)"
  "(\<exists>d. FindNameserverCaptures bytes src li = Inr d) \<longleftrightarrow>
     0 < sl_occurrences li \<and> 0 < sl_captureBytes li \<and> 0 < sl_capturedBytes li
     \<and> values_fit li 0 0 (line_values (pieces bytes))"
proof -
  have found: "loop_found li 0 [] bytes [] 0 caps" if "capture_loop li src 0 bytes [] 0 = Inr caps" for caps
    using capture_loop_found [OF that, of "[]"] by simp
  show "FindNameserverCaptures bytes src li = Inr d \<Longrightarrow>
     sd_bytes d = bytes \<and> map (capture_text bytes) (sd_captures d) = line_values (pieces bytes)
     \<and> captures_within 0 (sd_captures d) (length bytes)"
    using found by (auto simp: FindNameserverCaptures_def result_simps loop_found_def split: if_splits)
  have "values_fit li 0 0 (line_values (pieces bytes))" if "capture_loop li src 0 bytes [] 0 = Inr caps" for caps
  proof -
    from found [OF that] have f: "map (capture_text bytes) caps = line_values (pieces bytes)"
        "captures_within 0 caps (length bytes)" "caps = [] \<or> length caps \<le> sl_occurrences li"
        "\<forall>c\<in>set caps. cp_length c \<le> sl_captureBytes li" "sum_list (map cp_length caps) \<le> sl_capturedBytes li"
      by (simp_all add: loop_found_def)
    have "\<forall>c\<in>set cs. length (capture_text bytes c) = cp_length c" if "captures_within i cs (length bytes)" for i cs
      using that by (induction cs arbitrary: i) (auto simp: capture_text_def substr_def)
    with f(2) have len: "map (\<lambda>c. length (capture_text bytes c)) caps = map cp_length caps" by simp
    then show ?thesis
      unfolding values_fit_def f(1) [symmetric] using f(3-5) by (auto simp: o_def) (metis len map_eq_conv)
  qed
  then show "(\<exists>d. FindNameserverCaptures bytes src li = Inr d) \<longleftrightarrow>
     0 < sl_occurrences li \<and> 0 < sl_captureBytes li \<and> 0 < sl_capturedBytes li
     \<and> values_fit li 0 0 (line_values (pieces bytes))"
    using capture_loop_fits [of li "[]" 0 bytes src 0]
    by (auto simp: FindNameserverCaptures_def result_simps)
qed

end
