(* ===== verification/FileObjects.thy ===== *)
theory FileObjects
  imports Nameservers InputSecurity AtomicFile
begin

text \<open>
  \<open>src/lib/FileObjectCollector.cpp\<close>, \<open>VariableResolver.h\<close>, \<open>ranges/\<close> and
  \<open>procedures/NameserverCount.cpp\<close>: a file is read through a pinned descriptor with limits, its
  \<open>nameserver\<close> values become the items of a collection, and the distinct ones are counted. The state is the list
  of open descriptors; the answers of the calls are arguments. Shown: reading ends, a collection holds the
  values of a regular file that did not change meanwhile, no descriptor is left open, and the audit is
  Compliant exactly for two distinct values.
\<close>

section \<open>Reading a file\<close>

abbreviation EINTR :: int where "EINTR \<equiv> 4"

record observed =
  ob_dev :: nat
  ob_ino :: nat
  ob_mode :: "32 word"
  ob_size :: int
  ob_mtim :: "int \<times> int"
  ob_ctim :: "int \<times> int"

datatype root_symlinks = FollowRegular | RejectSymlink

record collection_policy =
  po_rootSymlinks :: root_symlinks
  po_contentBytes :: nat
  po_occurrences :: nat
  po_captureBytes :: nat
  po_capturedBytes :: nat
  po_values :: nat
  po_readRetries :: nat

definition default_policy :: collection_policy where
  "default_policy = \<lparr>po_rootSymlinks = FollowRegular, po_contentBytes = 1048576, po_occurrences = 16384,
     po_captureBytes = 65536, po_capturedBytes = 1048576, po_values = 65536, po_readRetries = 128\<rparr>"

text \<open>The calls: opening with flags; the first or second inspection of a descriptor; the \<open>n\<close>-th read of at
  most so many bytes; closing.\<close>

datatype inspection = BeforeRead | AfterRead

record collector_calls =
  co_open :: "string \<Rightarrow> bool \<Rightarrow> bool \<Rightarrow> int + nat"
  co_stat :: "inspection \<Rightarrow> nat \<Rightarrow> int + observed"
  co_read :: "nat \<Rightarrow> nat \<Rightarrow> int + string"
  co_close :: "nat \<Rightarrow> int option"

definition SameIdentity :: "observed \<Rightarrow> observed \<Rightarrow> bool" where
  "SameIdentity l r \<longleftrightarrow> ob_dev l = ob_dev r \<and> ob_ino l = ob_ino r \<and> S_ISREG (ob_mode r)"

definition SameObservedFile :: "observed \<Rightarrow> observed \<Rightarrow> bool" where
  "SameObservedFile l r \<longleftrightarrow> SameIdentity l r \<and> ob_size l = ob_size r \<and> ob_mtim l = ob_mtim r \<and> ob_ctim l = ob_ctim r"

text \<open>\<open>errno == 0 ? EIO : errno\<close>.\<close>

definition or_EIO :: "int \<Rightarrow> int" where
  "or_EIO errno = (if errno = 0 then EIO else errno)"

text \<open>The loop, at its \<open>k\<close>-th read.\<close>

function file_read_loop :: "collector_calls \<Rightarrow> collection_policy \<Rightarrow> nat \<Rightarrow> string \<Rightarrow> nat \<Rightarrow> string result" where
  "file_read_loop env po k content retries =
     (let remaining = po_contentBytes po - length content;
          request = min 8192 (remaining + (if remaining = 0 then 1 else 0))
      in case co_read env k request of
        Inl errno \<Rightarrow>
          if errno = EINTR
          then (if retries < po_readRetries po then file_read_loop env po (k + 1) content (retries + 1)
                else Inl (Error ''Exact file read retry limit exceeded'' E2BIG))
          else Inl (Error ''Failed to read exact file'' (or_EIO errno))
      | Inr bytes \<Rightarrow>
          if bytes = [] then Inr content
          else if request < length bytes then Inl (Error ''Exact file read exceeded the requested byte count'' EIO)
          else if remaining < length bytes then Inl (Error ''Exact file content limit exceeded'' E2BIG)
          else file_read_loop env po (k + 1) (content @ bytes) retries)"
  by pat_completeness auto
termination
  by (relation "measure (\<lambda>(env, po, k, content, retries). (po_contentBytes po - length content) + (po_readRetries po - retries))")
    (auto simp: Let_def not_less neq_Nil_conv)

declare file_read_loop.simps [simp del]

definition ReadCompleteFile :: "collector_calls \<Rightarrow> nat \<Rightarrow> observed \<Rightarrow> collection_policy \<Rightarrow> string result" where
  "ReadCompleteFile env descriptor before po =
     and_then (file_read_loop env po 0 [] 0) (\<lambda>content.
       if 0 < ob_size before \<and> int (length content) \<noteq> ob_size before
       then Inl (Error ''Exact file ended before its stable size'' EIO)
       else (case co_stat env AfterRead descriptor of
         Inl errno \<Rightarrow> Inl (Error ''Failed to verify exact file after reading'' (or_EIO errno))
       | Inr after \<Rightarrow>
           if \<not> SameObservedFile before after then Inl (Error ''Exact file changed while being read'' EAGAIN)
           else Inr content))"

section \<open>The collection\<close>

type_synonym object_item = "(string \<times> string list) list"

record object_collection =
  oc_items :: "object_item list"
  oc_complete :: bool

fun project_loop :: "nat \<Rightarrow> selection_document \<Rightarrow> capture list \<Rightarrow> object_item list \<Rightarrow> object_item list result" where
  "project_loop maxValues sel [] items = Inr items"
| "project_loop maxValues sel (c # cs) items =
     (if maxValues \<le> length items then Inl (Error ''Exact file value limit exceeded'' E2BIG)
      else project_loop maxValues sel cs (items @ [[(''subexpression'', [capture_text (sd_bytes sel) c])]]))"

definition ProjectNameservers :: "selection_document \<Rightarrow> nat \<Rightarrow> object_collection result" where
  "ProjectNameservers sel maxValues =
     and_then (project_loop maxValues sel (sd_captures sel) []) (\<lambda>items. Inr \<lparr>oc_items = items, oc_complete = True\<rparr>)"

definition selection_limits_of :: "collection_policy \<Rightarrow> selection_limits" where
  "selection_limits_of po = \<lparr>sl_occurrences = po_occurrences po, sl_captureBytes = po_captureBytes po, sl_capturedBytes = po_capturedBytes po\<rparr>"

text \<open>\<open>Descriptor::Close\<close>: the descriptor counts as closed even if the call fails. The destructor closes what is
  still open; its failure is ignored.\<close>

definition Descriptor_Close :: "collector_calls \<Rightarrow> nat \<Rightarrow> nat list \<Rightarrow> unit result \<times> nat list" where
  "Descriptor_Close env d fds =
     (case co_close env d of
        Some errno \<Rightarrow> Inl (Error ''Failed to finalize exact file descriptor'' (or_EIO errno))
      | None \<Rightarrow> Inr (), remove1 d fds)"

definition guarded_descriptor :: "nat \<Rightarrow> (nat list \<Rightarrow> 'a result \<times> nat list) \<Rightarrow> nat list \<Rightarrow> 'a result \<times> nat list" where
  "guarded_descriptor d body fds = (case body (d # fds) of (r, fds') \<Rightarrow> (r, remove1 d fds'))"

text \<open>With both descriptors open: read, close both, select.\<close>

definition collect_data ::
  "collector_calls \<Rightarrow> collection_policy \<Rightarrow> string \<Rightarrow> nat \<Rightarrow> nat \<Rightarrow> observed \<Rightarrow> nat list \<Rightarrow> object_collection result \<times> nat list" where
  "collect_data env po path pinned data pathMetadata fds =
     (case co_stat env BeforeRead data of
        Inl errno \<Rightarrow> (Inl (Error ''Failed to inspect pinned exact file'' (or_EIO errno)), fds)
      | Inr dataMetadata \<Rightarrow>
          if \<not> SameIdentity pathMetadata dataMetadata
          then (Inl (Error ''Pinned exact file identity changed'' EAGAIN), fds)
          else (case ReadCompleteFile env data dataMetadata po of
            Inl e \<Rightarrow> (Inl e, fds)
          | Inr content \<Rightarrow>
         (case Descriptor_Close env data fds of
            (Inl e, fds) \<Rightarrow> (Inl e, fds)
          | (Inr _, fds) \<Rightarrow>
         (case Descriptor_Close env pinned fds of
            (Inl e, fds) \<Rightarrow> (Inl e, fds)
          | (Inr _, fds) \<Rightarrow>
              (and_then (FindNameserverCaptures content path (selection_limits_of po)) (\<lambda>sel.
                 ProjectNameservers sel (po_values po)), fds)))))"

definition collect_pinned ::
  "collector_calls \<Rightarrow> collection_policy \<Rightarrow> string \<Rightarrow> nat \<Rightarrow> nat list \<Rightarrow> object_collection result \<times> nat list" where
  "collect_pinned env po path pinned fds =
     (case co_stat env BeforeRead pinned of
        Inl errno \<Rightarrow> (Inl (Error ''Failed to inspect exact file path'' (or_EIO errno)), fds)
      | Inr pathMetadata \<Rightarrow>
          if S_ISLNK (ob_mode pathMetadata) then (Inl (Error ''Exact file symlink is not allowed'' ELOOP), fds)
          else if \<not> S_ISREG (ob_mode pathMetadata)
          then (Inl (Error ''Exact file target is not a regular file'' EINVAL), fds)
          else (case co_open env (''/proc/self/fd/'' @ to_string_nat pinned) False False of
            Inl errno \<Rightarrow> (Inl (Error ''Failed to open pinned exact file'' (or_EIO errno)), fds)
          | Inr data \<Rightarrow> guarded_descriptor data (collect_data env po path pinned data pathMetadata) fds))"

text \<open>\<open>co_open path True nofollow\<close> is \<open>O_PATH\<close>, with \<open>O_NOFOLLOW\<close> if asked for.\<close>

definition CollectNameserverObject ::
  "collector_calls \<Rightarrow> string \<Rightarrow> collection_policy \<Rightarrow> nat list \<Rightarrow> object_collection result \<times> nat list" where
  "CollectNameserverObject env path po fds =
     (if path = [] \<or> hd path \<noteq> CHR ''/'' \<or> NUL \<in> set path
      then (Inl (Error ''A NUL-free absolute path is required'' EINVAL), fds)
      else if po_contentBytes po = 0 \<or> po_occurrences po = 0 \<or> po_captureBytes po = 0 \<or> po_capturedBytes po = 0
        \<or> po_values po = 0 \<or> po_readRetries po = 0
      then (Inl (Error ''Exact file limits must be positive'' EINVAL), fds)
      else (case co_open env path True (po_rootSymlinks po = RejectSymlink) of
        Inl errno \<Rightarrow> (Inl (Error ''Failed to open exact file path'' (or_EIO errno)), fds)
      | Inr pinned \<Rightarrow> guarded_descriptor pinned (collect_pinned env po path pinned) fds))"

section \<open>Ranges\<close>

text \<open>A view is the list of what its \<open>Next\<close> gives: values until the end, or until an error that stops it.\<close>

type_synonym 'a range_view = "'a result list"

fun field_values :: "string \<Rightarrow> string \<Rightarrow> object_item list \<Rightarrow> string range_view" where
  "field_values objectRef itemField [] = []"
| "field_values objectRef itemField (item # items) =
     (case map_of item itemField of
        Some (v # vs) \<Rightarrow> map Inr (v # vs) @ field_values objectRef itemField items
      | _ \<Rightarrow> [Inl (Error (''Missing object field '' @ quoted itemField @ '' in '' @ objectRef) EINVAL)])"

definition ObjectFieldRange :: "object_collection \<Rightarrow> string \<Rightarrow> string \<Rightarrow> string range_view" where
  "ObjectFieldRange c objectRef itemField =
     (if objectRef = [] \<or> itemField = [] then [Inl (Error ''Object reference and field name must be nonempty'' EINVAL)]
      else if \<not> oc_complete c then [Inl (Error (''Incomplete object collection: '' @ objectRef) EAGAIN)]
      else if oc_items c = [] then [Inl (Error (''No items for object field resolution: '' @ objectRef) ENODATA)]
      else field_values objectRef itemField (oc_items c))"

text \<open>\<open>UniqueSource::Next\<close> with the set of the values it has seen.\<close>

fun Unique_from :: "'a set \<Rightarrow> 'a range_view \<Rightarrow> 'a range_view" where
  "Unique_from seen [] = []"
| "Unique_from seen (Inl e # rs) = [Inl e]"
| "Unique_from seen (Inr v # rs) = (if v \<in> seen then Unique_from seen rs else Inr v # Unique_from (insert v seen) rs)"

definition Unique :: "'a range_view \<Rightarrow> 'a range_view" where
  "Unique = Unique_from {}"

abbreviation SIZE_MAX :: nat where "SIZE_MAX \<equiv> 18446744073709551615"

fun Count_from :: "nat \<Rightarrow> 'a range_view \<Rightarrow> nat result" where
  "Count_from n [] = Inr n"
| "Count_from n (Inl e # rs) = Inl e"
| "Count_from n (Inr v # rs) =
     (if n = SIZE_MAX then Inl (Error ''Range count out of range'' ERANGE) else Count_from (n + 1) rs)"

definition Count :: "'a range_view \<Rightarrow> nat result" where
  "Count = Count_from 0"

text \<open>\<open>ExtractObjectFields\<close> is the list of all values, or the first error.\<close>

definition ExtractObjectFields :: "object_collection \<Rightarrow> string \<Rightarrow> string \<Rightarrow> string list result" where
  "ExtractObjectFields c objectRef itemField = map_result (\<lambda>x. x) (ObjectFieldRange c objectRef itemField)"

definition ResolveObjectFieldValues :: "string \<Rightarrow> string \<Rightarrow> (string \<Rightarrow> object_collection result) option \<Rightarrow> string list result" where
  "ResolveObjectFieldValues objectRef itemField collect =
     (case collect of
        Some f \<Rightarrow>
          if objectRef = [] \<or> itemField = []
          then Inl (Error ''Object reference, field name and collector are required'' EINVAL)
          else and_then (f objectRef) (\<lambda>c. ExtractObjectFields c objectRef itemField)
      | None \<Rightarrow> Inl (Error ''Object reference, field name and collector are required'' EINVAL))"

text \<open>One value of \<open>IntegerValues\<close>. Behind the check of the characters \<open>strtoll\<close> reads the whole text.\<close>

definition IntegerValue :: "string \<Rightarrow> int result" where
  "IntegerValue v =
     (let digits = (if v \<noteq> [] \<and> (hd v = CHR ''-'' \<or> hd v = CHR ''+'') then tl v else v) in
      if digits = [] \<or> \<not> list_all isdigit digits then Inl (Error (''Invalid variable integer value: '' @ v) EINVAL)
      else (case strtol v 10 of
        None \<Rightarrow> Inl (Error (''Invalid variable integer value: '' @ v) EINVAL)
      | Some (n, consumed) \<Rightarrow>
          if n < - LONG_MAX - 1 \<or> LONG_MAX < n then Inl (Error (''Variable integer value out of range: '' @ v) ERANGE)
          else if consumed \<noteq> length v then Inl (Error (''Invalid variable integer value: '' @ v) EINVAL)
          else Inr n))"

definition IntegerValues :: "string list \<Rightarrow> int list result" where
  "IntegerValues = map_result IntegerValue"

lemma find_str_position: "find_str p s = Some i \<Longrightarrow> i \<le> length s \<and> starts_with p (drop i s)"
  by (induction s arbitrary: i) (auto split: if_splits option.splits)

function split_value :: "string \<Rightarrow> string \<Rightarrow> string list" where
  "split_value delimiter v =
     (if delimiter = [] then [v]
      else case find_str delimiter v of
        None \<Rightarrow> [v]
      | Some end_pos \<Rightarrow> take end_pos v # split_value delimiter (drop (end_pos + length delimiter) v))"
  by pat_completeness auto
termination
proof (relation "measure (\<lambda>(d, v). length v)", simp, goal_cases)
  case (1 delimiter v end_pos)
  then have f: "end_pos \<le> length v" "starts_with delimiter (drop end_pos v)" using find_str_position [of delimiter v end_pos] by simp_all
  then have "length delimiter \<le> length (drop end_pos v)" by (auto simp only: starts_with_ex length_append)
  then have "length delimiter \<le> length v - end_pos" by (simp only: length_drop)
  moreover have "0 < length delimiter" using 1 by simp
  ultimately have "length v - (end_pos + length delimiter) < length v" by linarith
  then show ?case by simp
qed

declare split_value.simps [simp del]

text \<open>\<open>VariableResolution::Split\<close>.\<close>

definition Split_values :: "string list \<Rightarrow> string \<Rightarrow> string list result" where
  "Split_values vs delimiter =
     (if delimiter = [] then Inl (Error ''Empty variable split delimiter'' EINVAL)
      else Inr (concat (map (split_value delimiter) vs)))"

section \<open>The audit\<close>

definition AuditNameserverCount :: "collector_calls \<Rightarrow> (string \<Rightarrow> string) \<Rightarrow> string \<Rightarrow> nat list body" where
  "AuditNameserverCount env special path =
     does (CollectNameserverObject env (special path) default_policy) (\<lambda>collection.
       case collection of
         Inl e \<Rightarrow> fails e
       | Inr c \<Rightarrow>
      (case Count (Unique (ObjectFieldRange c ''nameserver'' ''subexpression'')) of
         Inl e \<Rightarrow> fails e
       | Inr n \<Rightarrow>
           let assessment = and_then (CompareTyped n 2 GreaterOrEqual) (\<lambda>b. Inr (if b then Satisfied else NotSatisfied));
               evidence = AddItem assessment SelectedItemsEvidence_init
           in case AllSelectedItemsSatisfied evidence of
             Inl e \<Rightarrow> fails e
           | Inr s \<Rightarrow>
               if \<not> HasSelectedItems evidence then returns NonCompliant ''No nameserver count assessment was produced''
               else if s = Satisfied then returns Compliant ''At least two distinct nameserver entries are configured''
               else returns NonCompliant ''Fewer than two distinct nameserver entries are configured''))"

section \<open>What a collection holds\<close>

text \<open>The content that was read is within the limit, and of the size the file had before and after.\<close>

lemma read_loop_bound: "file_read_loop env po k content retries = Inr s \<Longrightarrow> length content \<le> po_contentBytes po \<Longrightarrow> length s \<le> po_contentBytes po"
proof (induction env po k content retries rule: file_read_loop.induct)
  case (1 env po k content retries)
  define remaining where "remaining = po_contentBytes po - length content"
  define request where "request = min 8192 (remaining + (if remaining = 0 then 1 else 0))"
  note simps = file_read_loop.simps [of env po k content retries, folded remaining_def, unfolded Let_def, folded remaining_def, folded request_def]
  show ?case
  proof (cases "co_read env k request")
    case (Inl errno)
    then have "errno = EINTR" "retries < po_readRetries po" "file_read_loop env po (k + 1) content (retries + 1) = Inr s"
      using "1.prems"(1) by (auto simp: simps split: if_splits)
    then show ?thesis using "1.IH"(1) [OF remaining_def request_def Inl] "1.prems"(2) by simp
  next
    case (Inr bytes)
    show ?thesis
    proof (cases "bytes = []")
      case True
      then show ?thesis using "1.prems" Inr by (simp add: simps)
    next
      case False
      then have ok: "\<not> request < length bytes" "\<not> remaining < length bytes"
          "file_read_loop env po (k + 1) (content @ bytes) retries = Inr s"
        using "1.prems"(1) Inr by (auto simp: simps split: if_splits)
      then have "length (content @ bytes) \<le> po_contentBytes po" using "1.prems"(2) by (simp add: remaining_def)
      then show ?thesis using "1.IH"(2) [OF remaining_def request_def Inr False ok] by simp
    qed
  qed
qed

lemma project_loop_items:
  "project_loop m sel cs items = Inr r \<Longrightarrow>
     r = items @ map (\<lambda>c. [(''subexpression'', [capture_text (sd_bytes sel) c])]) cs"
  by (induction m sel cs items rule: project_loop.induct) (auto split: if_splits)

definition value_items :: "string list \<Rightarrow> object_item list" where
  "value_items vs = map (\<lambda>v. [(''subexpression'', [v])]) vs"

lemma ProjectNameservers_items:
  assumes "ProjectNameservers sel m = Inr c"
  shows "c = \<lparr>oc_items = value_items (map (capture_text (sd_bytes sel)) (sd_captures sel)), oc_complete = True\<rparr>"
  using assms by (auto simp: ProjectNameservers_def result_simps value_items_def dest!: project_loop_items)

text \<open>What holds of a collection: it has the values of a content that was read from a regular file, found to be
  the same before and after.\<close>

definition collected_from :: "collector_calls \<Rightarrow> string \<Rightarrow> collection_policy \<Rightarrow> string \<Rightarrow> bool" where
  "collected_from env path po content \<longleftrightarrow>
     length content \<le> po_contentBytes po
     \<and> (\<exists>pinned data st0 st1 st2.
          co_open env path True (po_rootSymlinks po = RejectSymlink) = Inr pinned
          \<and> co_open env (''/proc/self/fd/'' @ to_string_nat pinned) False False = Inr data
          \<and> co_stat env BeforeRead pinned = Inr st0 \<and> S_ISREG (ob_mode st0) \<and> \<not> S_ISLNK (ob_mode st0)
          \<and> co_stat env BeforeRead data = Inr st1 \<and> SameIdentity st0 st1
          \<and> co_stat env AfterRead data = Inr st2 \<and> SameObservedFile st1 st2
          \<and> (0 < ob_size st1 \<longrightarrow> ob_size st1 = int (length content)))"

lemma ReadCompleteFile_Inr:
  assumes "ReadCompleteFile env d before po = Inr content"
  shows "length content \<le> po_contentBytes po \<and> (0 < ob_size before \<longrightarrow> ob_size before = int (length content))
    \<and> (\<exists>after. co_stat env AfterRead d = Inr after \<and> SameObservedFile before after)"
  using assms read_loop_bound [of env po 0 "[]" 0 content]
  by (auto simp: ReadCompleteFile_def result_simps split: if_splits sum.splits)

lemma collect_data_Inr:
  assumes "collect_data env po path pinned data st0 fds = (Inr c, fds')"
  shows "\<exists>content st1. ReadCompleteFile env data st1 po = Inr content
    \<and> co_stat env BeforeRead data = Inr st1 \<and> SameIdentity st0 st1
    \<and> length (line_values (pieces content)) \<le> po_occurrences po
    \<and> c = \<lparr>oc_items = value_items (line_values (pieces content)), oc_complete = True\<rparr>"
proof -
  obtain st1 content sel where 1: "co_stat env BeforeRead data = Inr st1" "SameIdentity st0 st1"
      "ReadCompleteFile env data st1 po = Inr content"
      "FindNameserverCaptures content path (selection_limits_of po) = Inr sel" "ProjectNameservers sel (po_values po) = Inr c"
    using assms by (auto simp: collect_data_def result_simps split: sum.splits prod.splits if_splits)
  have "values_fit (selection_limits_of po) 0 0 (line_values (pieces content))"
    using FindNameserverCaptures_iff(2) [of content path "selection_limits_of po"] 1(4) by blast
  then have "length (line_values (pieces content)) \<le> po_occurrences po"
    by (auto simp: values_fit_def selection_limits_of_def)
  then show ?thesis
    using 1 FindNameserverCaptures_iff(1) [OF 1(4)] ProjectNameservers_items [OF 1(5)] by auto
qed

lemma CollectNameserverObject_Inr:
  assumes "CollectNameserverObject env path po fds = (Inr c, fds')"
  shows "\<exists>content. collected_from env path po content
    \<and> length (line_values (pieces content)) \<le> po_occurrences po
    \<and> c = \<lparr>oc_items = value_items (line_values (pieces content)), oc_complete = True\<rparr>"
proof -
  obtain pinned st0 data gds where 1: "co_open env path True (po_rootSymlinks po = RejectSymlink) = Inr pinned"
      "co_stat env BeforeRead pinned = Inr st0" "S_ISREG (ob_mode st0)" "\<not> S_ISLNK (ob_mode st0)"
      "co_open env (''/proc/self/fd/'' @ to_string_nat pinned) False False = Inr data"
      "collect_data env po path pinned data st0 (data # pinned # fds) = (Inr c, gds)"
    using assms
    by (auto simp: CollectNameserverObject_def collect_pinned_def guarded_descriptor_def split: if_splits sum.splits prod.splits)
  from collect_data_Inr [OF 1(6)] 1 ReadCompleteFile_Inr show ?thesis
    unfolding collected_from_def by blast
qed

text \<open>Every way out closes what was opened, when the kernel hands out descriptors that are not in use.\<close>

lemma collect_data_fds:
  assumes "pinned \<noteq> data" "pinned \<notin> set fds" "data \<notin> set fds"
  shows "remove1 pinned (remove1 data (snd (collect_data env po path pinned data st0 (data # pinned # fds)))) = fds"
  using assms
  by (auto simp: collect_data_def Descriptor_Close_def remove1_idem split: sum.splits prod.splits option.splits)

lemma CollectNameserverObject_fds:
  assumes "\<And>pinned. co_open env path True (po_rootSymlinks po = RejectSymlink) = Inr pinned
      \<Longrightarrow> pinned \<notin> set fds \<and> (\<forall>data. co_open env (''/proc/self/fd/'' @ to_string_nat pinned) False False = Inr data
            \<longrightarrow> data \<notin> set (pinned # fds))"
  shows "snd (CollectNameserverObject env path po fds) = fds"
  using assms collect_data_fds
  by (auto simp: CollectNameserverObject_def collect_pinned_def guarded_descriptor_def split: sum.splits prod.splits)
    (metis snd_conv)+

section \<open>What the audit counts\<close>

lemma Count_from_Unique_from:
  assumes "n + length vs < SIZE_MAX"
  shows "Count_from n (Unique_from seen (map Inr vs)) = Inr (n + card (set vs - seen))"
  using assms
proof (induction vs arbitrary: n seen)
  case Nil
  then show ?case by simp
next
  case (Cons v vs)
  show ?case
  proof (cases "v \<in> seen")
    case True
    then show ?thesis using Cons.IH [of n seen] Cons.prems by (simp add: insert_Diff_if)
  next
    case False
    have "set (v # vs) - seen = insert v (set vs - insert v seen)" using False by auto
    then have "card (set (v # vs) - seen) = Suc (card (set vs - insert v seen))" by simp
    then show ?thesis using Cons.IH [of "n + 1" "insert v seen"] Cons.prems False by simp
  qed
qed

lemma field_values_items: "field_values r ''subexpression'' (value_items vs) = map Inr vs"
  by (induction vs) (simp_all add: value_items_def)

lemma nameserver_range:
  "ObjectFieldRange \<lparr>oc_items = value_items vs, oc_complete = True\<rparr> ''nameserver'' ''subexpression'' =
     (if vs = [] then [Inl (Error ''No items for object field resolution: nameserver'' ENODATA)] else map Inr vs)"
  using field_values_items [of "''nameserver''" vs] by (simp add: ObjectFieldRange_def value_items_def)

lemma AuditNameserverCount_verdict:
  assumes "CollectNameserverObject env (special path) default_policy fds = (collection, fds')"
  shows "fst (AuditNameserverCount env special path it fds) =
    (case collection of
       Inl e \<Rightarrow> Inl e
     | Inr c \<Rightarrow>
        (case Count (Unique (ObjectFieldRange c ''nameserver'' ''subexpression'')) of
           Inl e \<Rightarrow> Inl e
         | Inr n \<Rightarrow> Inr (if 2 \<le> n then Compliant else NonCompliant)))"
  using assms
  by (auto simp: AuditNameserverCount_def does_def AllSelectedItemsSatisfied_def AddItem_def AddSelected_def Let_def
      SelectedItemsEvidence_init_def CompletedItemEvidence_init_def HasSelectedItems_def split: sum.splits)

lemma AuditNameserverCount_counts:
  assumes "fst (AuditNameserverCount env special path it fds) = Inr s"
  shows "\<exists>content. collected_from env (special path) default_policy content
    \<and> line_values (pieces content) \<noteq> []
    \<and> (s = Compliant \<longleftrightarrow> 2 \<le> card (set (line_values (pieces content)))) \<and> s \<in> {Compliant, NonCompliant}"
proof -
  obtain collection fds' where c: "CollectNameserverObject env (special path) default_policy fds = (collection, fds')"
    by fastforce
  note run = AuditNameserverCount_verdict [of env special path fds collection fds' it, OF c]
  obtain oc where oc: "collection = Inr oc" using run assms by (cases collection) auto
  from CollectNameserverObject_Inr [OF c [unfolded oc]] obtain content
    where content: "collected_from env (special path) default_policy content"
      "length (line_values (pieces content)) \<le> 16384"
      "oc = \<lparr>oc_items = value_items (line_values (pieces content)), oc_complete = True\<rparr>"
    by (auto simp: default_policy_def)
  let ?vs = "line_values (pieces content)"
  have ne: "?vs \<noteq> []" using run assms oc content(3) by (auto simp: nameserver_range Count_def Unique_def)
  have "Count (Unique (map Inr ?vs)) = Inr (card (set ?vs))"
    unfolding Count_def Unique_def using Count_from_Unique_from [of 0 ?vs "{}"] content(2) by simp
  then have "s = (if 2 \<le> card (set ?vs) then Compliant else NonCompliant)"
    using run assms oc content(3) ne by (simp add: nameserver_range)
  then show ?thesis using content(1) ne by auto
qed

text \<open>Splitting and joining.\<close>

lemma split_value_join: "foldr (\<lambda>p acc. case acc of None \<Rightarrow> Some p | Some t \<Rightarrow> Some (p @ d @ t)) (split_value d v) None = Some v"
proof (induction d v rule: split_value.induct)
  case (1 d v)
  show ?case
  proof (cases "d = [] \<or> find_str d v = None")
    case True
    then show ?thesis by (subst split_value.simps) (auto split: option.split)
  next
    case False
    then obtain i where i: "d \<noteq> []" "find_str d v = Some i" by auto
    have "starts_with d (drop i v)" using find_str_position [OF i(2)] by simp
    then obtain t where t: "drop i v = d @ t" by (auto simp only: starts_with_ex)
    then have rest: "drop (i + length d) v = t" by (metis add.commute append_eq_conv_conj drop_drop)
    have v: "take i v @ d @ t = v" using t by (metis append_take_drop_id)
    have "split_value d v = take i v # split_value d t" using i rest by (subst split_value.simps) simp
    then show ?thesis using "1.IH" [OF i] rest v by simp
  qed
qed

section \<open>The contract of procedures\<close>

interpretation nameserver_count: procedure_contract "AuditNameserverCount env special path" for env special path
  unfolding AuditNameserverCount_def by (intro contract_intros)

end
