(* ===== verification/PasswordCredit.thy ===== *)
theory PasswordCredit
  imports Status
begin

text \<open>
  \<open>src/lib/PasswordCreditUnionEvidence.cpp\<close>: the evidence of the two places that configure password
  credits is joined into one verdict, and reported item by item. The reporter is an argument with a state; it may
  throw. Shown: the verdict is Compliant exactly when both places are sound, an item is selected, and every
  selected value is negative; the reports do not influence a verdict of an error; and as long as the reporter
  does not throw everything is reported, also behind an error.
\<close>

record credit_item =
  ci_identity :: string
  ci_value :: "int option"

datatype credit_outcome = Unspecified | Complete | Absent | Stopped

record credit_root =
  cr_outcome :: credit_outcome
  cr_selected :: "credit_item list"
  cr_exclusions :: "string list"
  cr_stopReason :: string

record credit_assessment =
  as_result :: "credit_root result"
  as_observed :: "string list"

datatype root_location = MainRoot | DropInRoot

datatype evidence_kind = EvSelected | EvExcluded | EvObserved

datatype thrown = StdException | UnknownException

type_synonym 'w reporter = "root_location \<Rightarrow> evidence_kind \<Rightarrow> string \<Rightarrow> 'w \<Rightarrow> thrown option \<times> 'w"

definition ReportOne :: "'w reporter \<Rightarrow> root_location \<Rightarrow> evidence_kind \<Rightarrow> string \<Rightarrow> 'w \<Rightarrow> unit result \<times> 'w" where
  "ReportOne report location kind identity w =
     (case report location kind identity w of
        (None, w) \<Rightarrow> (Inr (), w)
      | (Some StdException, w) \<Rightarrow> (Inl (Error ''Password credit diagnostic reporter threw an exception'' EIO), w)
      | (Some UnknownException, w) \<Rightarrow> (Inl (Error ''Password credit diagnostic reporter threw an unknown exception'' EIO), w))"

text \<open>The loops of \<open>ReportEvidence\<close>, each of which stops at the first error.\<close>

fun report_list :: "'w reporter \<Rightarrow> root_location \<Rightarrow> (evidence_kind \<times> string) list \<Rightarrow> 'w \<Rightarrow> unit result \<times> 'w" where
  "report_list report location [] w = (Inr (), w)"
| "report_list report location ((kind, identity) # rs) w =
     (case ReportOne report location kind identity w of
        (Inl e, w) \<Rightarrow> (Inl e, w)
      | (Inr _, w) \<Rightarrow> report_list report location rs w)"

definition evidence_of :: "credit_assessment \<Rightarrow> (evidence_kind \<times> string) list" where
  "evidence_of root =
     (case as_result root of
        Inl _ \<Rightarrow> []
      | Inr r \<Rightarrow> map (\<lambda>i. (EvSelected, ci_identity i)) (cr_selected r) @ map (\<lambda>x. (EvExcluded, x)) (cr_exclusions r))
     @ map (\<lambda>x. (EvObserved, x)) (as_observed root)"

definition ReportEvidence :: "'w reporter \<Rightarrow> root_location \<Rightarrow> credit_assessment \<Rightarrow> 'w \<Rightarrow> unit result \<times> 'w" where
  "ReportEvidence report location root w = report_list report location (evidence_of root) w"

definition ReportAllEvidence :: "'w reporter \<Rightarrow> credit_assessment \<Rightarrow> credit_assessment \<Rightarrow> 'w \<Rightarrow> unit result \<times> 'w" where
  "ReportAllEvidence report main_root drop_in w =
     (case ReportEvidence report MainRoot main_root w of
        (Inl e, w) \<Rightarrow> (Inl e, w)
      | (Inr _, w) \<Rightarrow> ReportEvidence report DropInRoot drop_in w)"

definition ValidateRoot :: "credit_root \<Rightarrow> string \<Rightarrow> unit result" where
  "ValidateRoot r name =
     (if cr_outcome r = Stopped
      then (if cr_stopReason r = [] then Inl (Error (''Stopped password credit root lacks a reason: '' @ name) EINVAL)
            else Inl (Error (''Insufficient stop in '' @ name @ '' password credit root: '' @ cr_stopReason r) EINVAL))
      else if cr_outcome r \<noteq> Complete \<and> cr_outcome r \<noteq> Absent
      then Inl (Error (''Invalid password credit root outcome: '' @ name) EINVAL)
      else if cr_outcome r = Absent \<and> (cr_selected r \<noteq> [] \<or> cr_exclusions r \<noteq> [])
      then Inl (Error (''Absent password credit root contains items: '' @ name) EINVAL)
      else if cr_stopReason r \<noteq> [] \<and> cr_outcome r \<noteq> Stopped
      then Inl (Error (''Non-stopped password credit root contains a stop reason: '' @ name) EINVAL)
      else Inr ())"

text \<open>The state of a selected item: a missing value fails.\<close>

definition credit_state :: "credit_item \<Rightarrow> state_satisfaction result" where
  "credit_state i =
     (case ci_value i of
        None \<Rightarrow> Inr NotSatisfied
      | Some v \<Rightarrow> and_then (CompareTyped v 0 LessThan) (\<lambda>b. Inr (if b then Satisfied else NotSatisfied)))"

definition evaluate_credits :: "credit_assessment \<Rightarrow> credit_assessment \<Rightarrow> status result" where
  "evaluate_credits main_root drop_in =
     and_then (as_result main_root) (\<lambda>m. and_then (as_result drop_in) (\<lambda>d.
     and_then (ValidateRoot m ''main'') (\<lambda>_. and_then (ValidateRoot d ''drop-in'') (\<lambda>_.
       let combined = fold AddSelected (map credit_state (cr_selected m @ cr_selected d)) CompletedItemEvidence_init
       in and_then (mAllSatisfied combined) (\<lambda>s.
         Inr (if mHasSelected combined \<and> s = Satisfied then Compliant else NonCompliant))))))"

definition EvaluatePasswordCreditUnion ::
  "'w reporter option \<Rightarrow> credit_assessment \<Rightarrow> credit_assessment \<Rightarrow> 'w \<Rightarrow> status result \<times> 'w" where
  "EvaluatePasswordCreditUnion reporter main_root drop_in w =
     (case reporter of
        None \<Rightarrow> (Inl (Error ''Missing password credit diagnostic reporter'' EINVAL), w)
      | Some report \<Rightarrow>
          (case ReportAllEvidence report main_root drop_in w of
             (reported, w) \<Rightarrow>
               (case evaluate_credits main_root drop_in of
                  Inl e \<Rightarrow> (Inl e, w)
                | Inr s \<Rightarrow> (case reported of Inl e \<Rightarrow> (Inl e, w) | Inr _ \<Rightarrow> (Inr s, w)))))"

section \<open>The verdict\<close>

definition sound_root :: "credit_root \<Rightarrow> bool" where
  "sound_root r \<longleftrightarrow> cr_stopReason r = []
     \<and> (cr_outcome r = Complete \<or> cr_outcome r = Absent \<and> cr_selected r = [] \<and> cr_exclusions r = [])"

lemma ValidateRoot_Inr: "ValidateRoot r name = Inr () \<longleftrightarrow> sound_root r"
  by (cases "cr_outcome r") (auto simp: ValidateRoot_def sound_root_def)

lemma evaluate_credits_sound:
  assumes "evaluate_credits main_root drop_in = Inr s"
  shows "\<exists>m d. as_result main_root = Inr m \<and> as_result drop_in = Inr d \<and> sound_root m \<and> sound_root d
    \<and> (s = Compliant \<longleftrightarrow> cr_selected m @ cr_selected d \<noteq> []
         \<and> (\<forall>i\<in>set (cr_selected m @ cr_selected d). \<exists>v. ci_value i = Some v \<and> v < 0))"
proof -
  obtain m d where r: "as_result main_root = Inr m" "as_result drop_in = Inr d"
      "ValidateRoot m ''main'' = Inr ()" "ValidateRoot d ''drop-in'' = Inr ()"
    using assms by (auto simp: evaluate_credits_def result_simps)
  let ?items = "cr_selected m @ cr_selected d"
  let ?ev = "fold AddSelected (map credit_state ?items) CompletedItemEvidence_init"
  have no_error: "first_Inl (map credit_state xs) = None" for xs
    by (induction xs) (auto simp: credit_state_def split: option.split)
  have sat: "credit_state i = Inr Satisfied \<longleftrightarrow> (\<exists>v. ci_value i = Some v \<and> v < 0)" for i
    by (auto simp: credit_state_def split: option.split)
  have "mAllSatisfied ?ev = Inr (if \<forall>x\<in>set (map credit_state ?items). x = Inr Satisfied then Satisfied else NotSatisfied)"
    using AddSelected_fold [of CompletedItemEvidence_init Satisfied "map credit_state ?items"] no_error [of ?items]
    by (simp add: CompletedItemEvidence_init_def)
  moreover have "mHasSelected ?ev \<longleftrightarrow> ?items \<noteq> []"
    using AddSelected_fold_has [of "map credit_state ?items" CompletedItemEvidence_init]
    by (simp add: CompletedItemEvidence_init_def)
  ultimately have "s = (if ?items \<noteq> [] \<and> (\<forall>i\<in>set ?items. credit_state i = Inr Satisfied) then Compliant else NonCompliant)"
    using assms r by (simp only: evaluate_credits_def and_then.simps Let_def) (auto split: if_splits)
  then show ?thesis using r by (auto simp: ValidateRoot_Inr sat)
qed

section \<open>The reports\<close>

text \<open>A reporter that never throws gets every piece of evidence, in order, whatever the verdict is.\<close>

definition all_evidence :: "credit_assessment \<Rightarrow> credit_assessment \<Rightarrow> (root_location \<times> evidence_kind \<times> string) list" where
  "all_evidence main_root drop_in =
     map (\<lambda>(k, i). (MainRoot, k, i)) (evidence_of main_root) @ map (\<lambda>(k, i). (DropInRoot, k, i)) (evidence_of drop_in)"

definition recorder :: "(root_location \<times> evidence_kind \<times> string) list reporter" where
  "recorder l k i w = (None, w @ [(l, k, i)])"

lemma report_list_recorder:
  "report_list recorder l rs w = (Inr (), w @ map (\<lambda>(k, i). (l, k, i)) rs)"
  by (induction rs arbitrary: w) (auto simp: ReportOne_def recorder_def)

lemma EvaluatePasswordCreditUnion_reports:
  "EvaluatePasswordCreditUnion (Some recorder) main_root drop_in [] =
     (evaluate_credits main_root drop_in, all_evidence main_root drop_in)"
  by (auto simp: EvaluatePasswordCreditUnion_def ReportAllEvidence_def ReportEvidence_def report_list_recorder
      all_evidence_def split: sum.split)

text \<open>An error of the assessment goes before one of the reporter.\<close>

lemma EvaluatePasswordCreditUnion_error:
  "evaluate_credits main_root drop_in = Inl e \<Longrightarrow> fst (EvaluatePasswordCreditUnion (Some report) main_root drop_in w) = Inl e"
  by (simp add: EvaluatePasswordCreditUnion_def split: prod.split)

lemma EvaluatePasswordCreditUnion_Inr:
  "fst (EvaluatePasswordCreditUnion reporter main_root drop_in w) = Inr s \<Longrightarrow> evaluate_credits main_root drop_in = Inr s"
  by (auto simp: EvaluatePasswordCreditUnion_def split: option.splits sum.splits prod.splits)

end
