(* ===== verification/Spec2Isabelle.thy ===== *)
theory Spec2Isabelle
  imports Prelude OrderedMap Json JsonParse JsonSerialize JsonRoundTrip StringTools ContentVersion Base64 JsonWrapper Status Indicators Evaluator EvaluatorTree EvaluatorSem Formatters JsonOps Procedure ProcedureProps Engine EngineProps Bindings TestingProcedures DistributionInfo BenchmarkInfo EngineInterface Sockets FileAccess Daemons MpiClient Resource ResourceProps Logging InputSecurity BenchmarkDefinition Plan PlanGenerate JsonScan PlanRoundTrip PlanProps RuleResult CliOptions Kompli KompliProps PlanWrite TextRenderers JUnitRenderer KompliMain ReportProps KompliSamples KompliClaims ProcedureBase FilePermissions FilePermissionsCollection LoginDefs LoginDefsOption LoginDefsProps FileContents AtomicFile ProcedureClaims Accounts AccountPolicies SysctlValue PackageVersion PackageInstalled Nameservers FileObjects PasswordCredit PolicyClaims
begin

text \<open>
  Kompli is a compliance engine for Linux: it audits a machine against security benchmarks and
  remediates it. This library models the program as functions of Isabelle/HOL and proves what
  makes it correct. Paths are under \<open>src/src\<close>; LIB stands for \<open>modules/complianceengine/src/lib\<close>, BIO
  for \<open>modules/complianceengine/src/benchmarkio\<close>, CLI for \<open>modules/complianceengine/src/kompli\<close>.

  \<^bold>\<open>The program.\<close> A rule is a pair of JSON expressions (audit and remediation) over builtin
  procedures, with named parameters. The engine (LIB) keeps a database of rules behind four requests
  (procedure, init, remediate, audit); an audit interprets the expression, collects a tree of
  indicators, and prints it with one of five formatters. Two clients drive the engine. The one is
  the resource provider of machine configuration (\<open>adapters/mc\<close>), which reaches it through a C
  interface or, for other components, through the HTTP client of the management platform. The other
  is the program \<open>kompli\<close> (CLI): it reads benchmark definitions (BIO) and plans, runs a plan
  rule by rule and prints a canonical result document, which it can also render as text or JUnit.

  \<^bold>\<open>Conventions.\<close> Strings are lists of bytes (\<open>char list\<close>, also those behind \<open>const char *\<close>, which
  are cut at the first NUL where the code does that). \<open>Result<T>\<close> is the sum \<open>'a result\<close> with the error
  on the left; a nullable pointer is an option. \<open>std::map\<close> is a sorted association list (OrderedMap).
  An operation on an object or on globals takes the state and returns it; the outside world of the
  procedures is the type parameter \<open>'w\<close> they take and return. Machine integers are
  unbounded integers with the range checks of the code written out, or words where bits matter
  (UTF-8 in Json, JsonParse and JUnitRenderer, modes of files, decimal digits of versions).

  \<^bold>\<open>Theories and code.\<close>
  \<^item> Prelude: \<open>LIB/Result.h\<close>, errors, \<open>and_then\<close>, lemmas on lists and characters. OrderedMap:
    \<open>std::map\<close>, with its laws as the locale \<open>std_map\<close>, interpreted on the lists.
  \<^item> Json, JsonParse, JsonSerialize, JsonOps: \<open>common/parson/parson.c\<close>: values and accessors, parser,
    serialiser, deep copy. JsonRoundTrip shows that the parser inverts the serialiser. JsonWrapper:
    \<open>LIB/JsonWrapper.cpp\<close>. JsonScan: the scanners of \<open>CLI/Plan.cpp\<close> in front of the parser, with the
    locale \<open>json_scanner\<close> for what both share.
  \<^item> StringTools, Base64, Status, Indicators: the files of these names in LIB, with
    \<open>MmiResults.h\<close>, \<open>ResultEvidence.cpp\<close> and \<open>TypedComparison.h\<close> in Status.
  \<^item> Evaluator, Formatters: \<open>LIB/Evaluator.cpp\<close>. EvaluatorTree states the contract of a procedure and
    of an evaluator (locales \<open>procedure_contract\<close>, \<open>evaluator_contract\<close>) and derives the shape of the
    indicator tree; EvaluatorSem the meaning of the operators. TestingProcedures
    (\<open>LIB/procedures/TestingProcedures.cpp\<close>) interprets both locales.
  \<^item> Procedure, ProcedureProps: \<open>LIB/Procedure.cpp\<close>. Bindings: \<open>LIB/Bindings.h\<close>, \<open>BindingParsers.cpp\<close>.
  \<^item> Engine, EngineProps: \<open>LIB/Engine.cpp\<close>, the four requests, sessions as an inductive step relation
    and the invariant of the database.
  \<^item> ContentVersion (\<open>BIO\<close>), DistributionInfo, BenchmarkInfo (LIB): the files of these names.
  \<^item> EngineInterface: \<open>LIB/ComplianceEngineInterface.cpp\<close> and \<open>adapters/mc/complianceengine/Baseline.c\<close>.
    Resource, ResourceProps: \<open>adapters/mc/OsConfigResource.c\<close>, the handlers with the globals that
    live between calls; what every handler keeps is the locale \<open>resource_frame\<close>, interpreted twice.
  \<^item> Sockets, MpiClient: \<open>common/commonutils/SocketUtils.c\<close>, \<open>common/mpiclient/MpiClient.c\<close>. FileAccess,
    Daemons, Logging: \<open>common/commonutils/FileUtils.c\<close>, \<open>DaemonUtils.c\<close>, \<open>ConfigUtils.c\<close> and
    \<open>common/logging/Logging.c\<close>.
  \<^item> InputSecurity, BenchmarkDefinition, RuleResult: the files of these names in BIO, with
    \<open>CLI/BenchmarkFormatter.cpp\<close> in RuleResult.
  \<^item> Plan, PlanGenerate, PlanWrite: \<open>CLI/Plan.cpp\<close>. PlanRoundTrip and PlanProps show that what
    \<open>plan\<close> writes \<open>run\<close> accepts.
  \<^item> CliOptions, TextRenderers, JUnitRenderer, Kompli, KompliMain: the rest of CLI, the last two for
    \<open>Main.cpp\<close>. KompliProps has the runner as a refinement of an abstract run; ReportProps follows the
    document from the setters to the renderers; KompliSamples has a machine the properties are applied
    to; KompliClaims has the properties.

  \<^item> ProcedureBase: the bodies of the rule procedures (\<open>LIB/procedures\<close>) as functions on the indicators and the
    machine, with the combinators that keep the contract, and the members of \<open>LIB/ContextInterface.h\<close> they
    call. FilePermissions, FilePermissionsCollection: \<open>FilePermissions.cpp\<close>, audit and remediation over
    inodes and descriptors, and the walk of a directory. LoginDefs, LoginDefsOption: \<open>LIB/parsers/LoginDefs.cpp\<close>
    and \<open>LoginDefsOption.cpp\<close>; LoginDefsProps has the contract of a file replacement as the locale
    \<open>atomic_files\<close> and what the remediation does under it. FileContents: the loops of \<open>FileUtils.c\<close> over
    streams and \<open>LIB/CommonContext.cpp\<close>. AtomicFile: \<open>LIB/AtomicFile.cpp\<close> over directories, inodes and
    extended attributes, with the interpretation of \<open>atomic_files\<close> on it.
  \<^item> Accounts, AccountPolicies: the ten procedures on users, groups and passwords, with \<open>Users.cpp\<close>,
    \<open>ListValidShells.cpp\<close> and the ranges of LIB. SysctlValue: \<open>SysctlValue.cpp\<close>, audit of the running and the stored
    configuration and remediation with rollback. PackageVersion, PackageInstalled: \<open>PackageInstalled.cpp\<close>;
    the locale \<open>cache_files\<close> is what a save relies on, interpreted on a directory whose calls may fail.
    Nameservers, FileObjects: \<open>LIB/parsers/NameserverSelection.cpp\<close>, \<open>FileObjectCollector.cpp\<close>, \<open>VariableResolver.h\<close>,
    \<open>ranges\<close> and \<open>NameserverCount.cpp\<close>. PasswordCredit: \<open>LIB/PasswordCreditUnionEvidence.cpp\<close>.

  \<^bold>\<open>Properties.\<close> They are in this theory, in KompliClaims, ProcedureClaims and PolicyClaims, each behind a text with its number. Those
  of this theory: what an audit's tree explains, the meaning of the operators, that negation never
  remediates, the invariant of sessions, the effect of requests, the round trips of JSON, Base64,
  parameters and payload keys, the verdicts and the invariant of the
  resource provider, and the delivery of HTTP responses. Those of KompliClaims: the runner refines an abstract run
  over the definitions, the report lists every rule with its own judgement, plans without
  remediation never remediate, generated plans are accepted, plan files are written safely and the
  writing ends, definitions are checked, the renderers and the command line. Those of
  ProcedureClaims: what a remediation of file permissions or of \<open>login.defs\<close> establishes and leaves alone, and the
  replacement of a file. Those of PolicyClaims: the order of package versions, the saved list of packages, the count of
  name servers and the audits of accounts.

  \<^bold>\<open>Bounds and termination.\<close> Recursion is structural or has a measure; there is no fuel. The nesting
  of the JSON parser is its own limit of 2048 (\<open>MAX_NESTING\<close>), the depth of the renderers 16
  (\<open>cMaxIndicatorDepth\<close>), inputs are limited to 8 MiB (definitions, plans), 16 MiB (JUnit output) and 256
  MiB (results), as in the code. The one loop that need not end, the write loop of plan files under
  endless interrupts, is a \<open>partial_function (option)\<close>, and that it returns is a property.

  \<^bold>\<open>Parameters.\<close> What is not under \<open>src\<close>, or not in it as text, is an argument: \<open>strtod\<close> and the printing
  of doubles (the round trip assumes that they invert each other on the numbers of the document),
  \<open>getopt_long\<close> as documented, the answers of system calls, the shell, \<open>realpath\<close>, \<open>fnmatch\<close>
  for patterns without brackets, regular expressions, the walk of \<open>fts\<close>, the user database, the Lua
  interpreter, the procedure map, the XML printer, the clock and the server of the management platform.

  \<^bold>\<open>Not modelled.\<close> \<open>adapters/mc/MI.h\<close>, \<open>schema.c\<close> and \<open>OsConfigResource.h\<close> are generated from the
  interface of the Open Management Infrastructure; the tables of \<open>LIB/ProcedureMap.h\<close> only list fields.
  The rule procedures not named above and the parsers, walks and caches that only they use are left out: they
  are parameters of the evaluator, and what is proved about it holds for all that keep the contract. The Lua sandbox is calls to the Lua C API.
  Log messages, standard error and telemetry leave no trace in the models except in Logging. Memory
  exhaustion is not represented.
\<close>

section \<open>Evaluation of rules\<close>



definition sample_evaluator :: "unit evaluator" where
  "sample_evaluator = testing_evaluator [(''m'', ''off'')]"

lemma sample_procedures [simp]:
  "mProcedureMap sample_evaluator ''AuditSuccess'' =
     Some \<lparr>audit_fn = Some (testing_handler AuditAuditSuccess), remediate_fn = None\<rparr>"
  "mProcedureMap sample_evaluator ''AuditFailure'' =
     Some \<lparr>audit_fn = Some (testing_handler AuditAuditFailure), remediate_fn = None\<rparr>"
  "mParameters sample_evaluator = [(''m'', ''off'')]"
  by (simp_all add: sample_evaluator_def testing_evaluator_def testing_procedure_map_def)

lemmas evaluation_simps =
  EvaluateItems.simps EvaluateBuiltinProcedure_def GetBuiltinProcedureArguments_def argument_step_def
  select_function_def testing_handler_def ParametrizedProcedureHandler_def ParseArguments_def
  TestingProcedureParams_fields_def TestingProcedureParams_init_def optional_field_def Parse_string_def
  unknown_parameter_def AuditAuditSuccess_def AuditAuditFailure_def with_message_def open_tree_simps
  om_emplace_def json_value_get_string_def c_str_def initial_status_def new_node_def





text \<open>
  C5. Evaluating an allOf or anyOf list runs its operands in order, each from the state the
  previous one left, and stops behind the first operand that decides. The result is the operator
  on the statuses of the operands that ran: conjunction for allOf; for anyOf Compliant if there
  is one, else NotApplicable if there is one.
\<close>

theorem operator_semantics:
  assumes "EvaluateList ev act la (JArray vs) it w = (Inr s, it', w')"
  shows "\<exists>k ss. k \<le> length vs \<and> operands_run ev act (take k vs) it w ss it' w'
    \<and> s = list_status la ss \<and> (\<forall>t\<in>set (butlast ss). t \<noteq> decisive la)
    \<and> (k = length vs \<or> (ss \<noteq> [] \<and> last ss = decisive la))"
proof -
  have items: "EvaluateItems ev act la (initial_status la) vs it w = (Inr s, it', w')"
    using assms by simp
  have stops: "stops la t \<longleftrightarrow> t = decisive la" for t by (simp add: stops_def decisive_def)
  obtain k ss where k: "k \<le> length vs" "operands_run ev act (take k vs) it w ss it' w'"
    and r: "(ends_decided la ss \<and> s = last ss) \<or> (k = length vs \<and> (\<forall>t\<in>set ss. \<not> stops la t)
      \<and> s = (if NotApplicable \<in> set ss then NotApplicable else initial_status la))"
    using EvaluateItems_success [OF items] by blast
  from r have "s = list_status la ss \<and> (\<forall>t\<in>set (butlast ss). t \<noteq> decisive la)
      \<and> (k = length vs \<or> (ss \<noteq> [] \<and> last ss = decisive la))"
  proof
    assume d: "ends_decided la ss \<and> s = last ss"
    then have "decisive la \<in> set ss" "last ss = decisive la" "ss \<noteq> []"
      by (auto simp: ends_decided_def stops) (metis last_in_set)
    with d show ?thesis by (simp add: list_status_decisive ends_decided_def stops)
  next
    assume d: "k = length vs \<and> (\<forall>t\<in>set ss. \<not> stops la t)
      \<and> s = (if NotApplicable \<in> set ss then NotApplicable else initial_status la)"
    then have "decisive la \<notin> set ss" by (auto simp: stops)
    with d show ?thesis by (auto simp: list_status_decisive dest: in_set_butlastD)
  qed
  with k show ?thesis by blast
qed

lemma sample_list:
  "EvaluateList sample_evaluator Audit AnyOf (JArray [JObject [(''AuditFailure'', JObject [])],
      JObject [(''AuditSuccess'', JObject [])], JNull]) (open_tree (new_node ''x'') []) () =
     (Inr Compliant, open_tree (Node ''x'' NonCompliant [Node ''AuditFailure'' NonCompliant [] [],
        Node ''AuditSuccess'' Compliant [] []] []) [], ())"
  by (simp add: evaluation_simps)

theorem operator_semantics_witness:
  "\<exists>k ss. k \<le> (3::nat) \<and> Compliant = list_status AnyOf ss \<and> (k = 3 \<or> last ss = decisive AnyOf)"
  using operator_semantics [OF sample_list] by fastforce

text \<open>
  C14. An error is never swallowed: when an allOf or anyOf list fails, some operand was reached
  with all operands before it successful and undecided, and the failure of the list, with the
  state it leaves, is exactly that operand's.
\<close>

theorem operator_error_propagation:
  assumes "EvaluateList ev act la (JArray vs) it w = (Inl e, it', w')"
  shows "\<exists>k ss it1 w1. k < length vs \<and> operands_run ev act (take k vs) it w ss it1 w1
    \<and> decisive la \<notin> set ss
    \<and> EvaluateProcedure ev act (json_value_get_object (Some (vs ! k))) it1 w1 = (Inl e, it', w')"
proof -
  have items: "EvaluateItems ev act la (initial_status la) vs it w = (Inl e, it', w')"
    using assms by simp
  have "stops la t \<longleftrightarrow> t = decisive la" for t by (simp add: stops_def decisive_def)
  then have undecided: "(\<forall>t\<in>set ss. \<not> stops la t) \<longleftrightarrow> decisive la \<notin> set ss" for ss by auto
  show ?thesis using EvaluateItems_failure [OF items] unfolding undecided .
qed

lemma sample_list_error:
  "EvaluateList sample_evaluator Audit AllOf (JArray [JObject [(''AuditSuccess'', JObject [])], JNull])
      (open_tree (new_node ''x'') []) () =
     (Inl (Error ''invalid json argument'' EINVAL),
      open_tree (Node ''x'' NonCompliant [Node ''AuditSuccess'' Compliant [] []] []) [], ())"
  by (simp add: evaluation_simps)

theorem operator_error_propagation_witness:
  "\<exists>k ss it1 w1. k < 2 \<and> operands_run sample_evaluator Audit
      (take k [JObject [(''AuditSuccess'', JObject [])], JNull]) (open_tree (new_node ''x'') []) () ss it1 w1"
  using operator_error_propagation [OF sample_list_error] by force

text \<open>
  C9. The operand of \<open>not\<close> is never remediated: whatever the requested action, the evaluation of a
  \<open>not\<close> expression depends only on the audit functions of the procedures and on the audit action
  of the Lua interpreter. Two evaluators that agree on those give the same result, tree and
  system, so no remediation function has been run below the \<open>not\<close>.
\<close>

theorem not_never_remediates:
  assumes "same_audits ev ev'"
  shows "EvaluateProcedure ev act (Some [(''not'', v)]) it w = EvaluateProcedure ev' act' (Some [(''not'', v)]) it w"
proof -
  have "EvaluateNot ev act v (Push ''not'' it) w = EvaluateNot ev act' v (Push ''not'' it) w"
    by (cases v) simp_all
  then show ?thesis using same_audits_evaluation(4) [OF assms] by simp
qed

text \<open>The same procedures without their remediation functions.\<close>

definition audit_only :: "'w evaluator \<Rightarrow> 'w evaluator" where
  "audit_only ev = ev\<lparr>mProcedureMap := (\<lambda>name. map_option (\<lambda>p. p\<lparr>remediate_fn := None\<rparr>) (mProcedureMap ev name))\<rparr>"

theorem not_never_remediates_witness:
  "\<forall>it. EvaluateProcedure sample_evaluator Remediate (Some [(''not'', JObject [(''RemediationSuccess'', JObject [])])]) it () =
   EvaluateProcedure (audit_only sample_evaluator) Audit (Some [(''not'', JObject [(''RemediationSuccess'', JObject [])])]) it ()"
proof (intro allI not_never_remediates)
  show "same_audits sample_evaluator (audit_only sample_evaluator)"
    by (auto simp: same_audits_def audit_only_def option.map_comp comp_def)
qed

text \<open>
  C25. The arguments of a builtin procedure are exactly the members of its object: each is a
  string, an argument \<open>$name\<close> has the value of the parameter of that name, every other argument
  its own text, and there is nothing else in the map.
\<close>

theorem builtin_arguments:
  assumes "GetBuiltinProcedureArguments params (JObject ms) = Inr args" "distinct (map fst ms)"
  shows "om_inv args \<and> om_keys args = fst ` set ms \<and> (\<forall>k v. (k, v) \<in> set ms \<longrightarrow>
      (\<exists>t x. v = JString t \<and> substituted params (c_str t) = Some x \<and> om_find args k = Some x))"
proof -
  have run: "argument_loop params ms [] = Inr args"
    using assms(1) by (simp add: GetBuiltinProcedureArguments_def)
  have inv: "om_inv args" and mem: "\<forall>k v. (k, v) \<in> set ms \<longrightarrow>
      (\<exists>t x. v = JString t \<and> substituted params (c_str t) = Some x \<and> om_find args k = Some x)"
    and other: "\<forall>k. k \<notin> fst ` set ms \<longrightarrow> om_find args k = None"
    using argument_loop_Inr [OF run assms(2)] by simp_all
  have "k \<in> om_keys args \<longleftrightarrow> k \<in> fst ` set ms" for k
    using mem other om_find_None [of args k] by fastforce
  then show ?thesis using inv mem by blast
qed

theorem builtin_arguments_witness:
  "\<exists>args. GetBuiltinProcedureArguments [(''p'', ''on'')] (JObject [(''b'', JString ''$p''), (''a'', JString ''x'')]) = Inr args
     \<and> om_keys args = {''a'', ''b''} \<and> om_find args ''b'' = Some ''on''"
proof -
  let ?ms = "[(''b'', JString ''$p''), (''a'', JString ''x'')]"
  have run: "GetBuiltinProcedureArguments [(''p'', ''on'')] (JObject ?ms) = Inr [(''a'', ''x''), (''b'', ''on'')]"
    by (simp add: GetBuiltinProcedureArguments_def argument_step_def om_emplace_def
        json_value_get_string_def c_str_def)
  from builtin_arguments [OF this] have "om_keys [(''a'', ''x''), (''b'', ''on'')] = {''b'', ''a''}"
    and "om_find [(''a'', ''x''), (''b'', ''on'')] ''b'' = Some ''on''"
    by auto
  with run show ?thesis by blast
qed

section \<open>Payload formatters\<close>



text \<open>
  C29. The JSON payload is the tree: for names and messages that are valid UTF-8 without embedded
  terminators, within the parser's nesting limit, the JSON formatter succeeds and parsing its
  output gives the document of the tree.
\<close>

theorem json_payload_is_the_tree:
  assumes "GetRootNode it = Some n" "node_clean n" "json_depth (tree_json n) \<le> MAX_NESTING"
  shows "\<exists>p. JsonFormatter_Format fmt it = Inr p \<and> json_parse_string strtod p = Some (tree_json n)"
  by (rule JsonFormatter_document [OF assms])

theorem json_payload_is_the_tree_witness:
  "\<exists>p. JsonFormatter_Format (\<lambda>d. []) (Pop (open_tree (Node ''r'' Compliant [Node ''Lua'' Compliant [] [Indicator ''ok'' Compliant]] []) [])) = Inr p
    \<and> json_parse_string (\<lambda>s. None) p = Some (JArray [JObject [(''procedure'', JString ''Lua''), (''status'', JString ''Compliant''),
        (''indicators'', JArray [JObject [(''message'', JString ''ok''), (''status'', JString ''Compliant'')]])]])"
proof -
  let ?n = "Node ''r'' Compliant [Node ''Lua'' Compliant [] [Indicator ''ok'' Compliant]] []"
  have "is_valid_utf8 ''r''" "is_valid_utf8 ''Lua''" "is_valid_utf8 ''ok''"
    by (rule is_valid_utf8_ascii; simp)+
  then have clean: "node_clean ?n" by (simp add: clean_def)
  have root: "GetRootNode (Pop (open_tree ?n [])) = Some ?n" by (rule GetRootNode_open)
  have "json_depth (tree_json ?n) \<le> MAX_NESTING"
    by (simp add: tree_json_def indicator_json_def MAX_NESTING_def)
  from json_payload_is_the_tree [OF root clean this] show ?thesis
    by (simp add: tree_json_def indicator_json_def json_status_def)
qed

section \<open>The engine\<close>

text \<open>
  C7. Whatever requests an engine receives after start-up, its database stays well formed: keys
  are sorted and not empty, every rule has an audit object (so \<open>MmiGet\<close> and \<open>ExecuteRemediation\<close>
  cannot fail for lack of one), its expressions are well-formed JSON objects, and its parameters
  are a map in canonical form.
\<close>

theorem session_invariant:
  assumes "session env \<lparr>mDatabase = [], mContext = w\<rparr> requests en"
  shows "om_inv (mDatabase en) \<and> (\<forall>k p. om_find (mDatabase en) k = Some p \<longrightarrow>
    k \<noteq> [] \<and> (\<exists>ms. proc_Audit p = Some ms \<and> json_ok (JObject ms)) \<and> proc_ok p)"
proof -
  have "db_ok (mDatabase en)"
    by (rule session_db_ok [OF assms]) (simp add: db_ok_def)
  then show ?thesis
    by (fastforce simp: db_ok_def proc_ok_def proc_Audit_def)
qed

definition sample_env :: "unit engine_env" where
  "sample_env = \<lparr>env_strtod = (\<lambda>s. None), env_procedures = map_of testing_procedure_map,
     env_lua = (\<lambda>script act it w. (Inl (Error1 ''Lua is not available''), it, w)),
     env_format = DebugFormatter_Format\<rparr>"

theorem session_invariant_witness:
  "\<exists>en. session sample_env \<lparr>mDatabase = [], mContext = ()\<rparr> [MSet (Some ''procedureR'') ''{}''] en
     \<and> om_inv (mDatabase en)"
proof -
  obtain r en where "MmiSet sample_env (Some ''procedureR'') ''{}'' \<lparr>mDatabase = [], mContext = ()\<rparr> = (r, en)"
    by (cases "MmiSet sample_env (Some ''procedureR'') ''{}'' \<lparr>mDatabase = [], mContext = ()\<rparr>")
  then have "session sample_env \<lparr>mDatabase = [], mContext = ()\<rparr> ([] @ [MSet (Some ''procedureR'') ''{}'']) en"
    by (intro session_step [OF session_nil] set_step)
  then have run: "session sample_env \<lparr>mDatabase = [], mContext = ()\<rparr> [MSet (Some ''procedureR'') ''{}''] en"
    by simp
  from session_invariant [OF run] run show ?thesis by blast
qed

text \<open>
  C31. The expressions of a rule and the names of its parameters change only with a \<open>procedure\<close>
  request for that rule: any session without one, whatever it initialises, audits or remediates,
  leaves them as they were. Users can change the values of parameters and nothing else.
\<close>

theorem rules_are_fixed:
  assumes "session env en requests en'"
    and "\<forall>r\<in>set requests. addressed procedurePrefix r \<noteq> Some k"
  shows "rule_shape (mDatabase en') k = rule_shape (mDatabase en) k"
  by (rule session_shape [OF assms])

theorem rules_are_fixed_witness:
  "\<exists>en'. session sample_env \<lparr>mDatabase = [(''R'', Procedure_init)], mContext = ()\<rparr> [MSet (Some ''initR'') ''x=1''] en'
     \<and> rule_shape (mDatabase en') ''R'' = Some ({}, None, None)"
proof -
  let ?en = "\<lparr>mDatabase = [(''R'', Procedure_init)], mContext = ()\<rparr>"
  obtain r en where "MmiSet sample_env (Some ''initR'') ''x=1'' ?en = (r, en)"
    by (cases "MmiSet sample_env (Some ''initR'') ''x=1'' ?en")
  then have "session sample_env ?en ([] @ [MSet (Some ''initR'') ''x=1'']) en"
    by (intro session_step [OF session_nil] set_step)
  then have run: "session sample_env ?en [MSet (Some ''initR'') ''x=1''] en" by simp
  have "\<forall>r\<in>set [MSet (Some ''initR'') ''x=1'']. addressed procedurePrefix r \<noteq> Some ''R''"
    by (simp add: addressed_def)
  from rules_are_fixed [OF run this] run show ?thesis
    by (auto simp: rule_shape_def om_keys_def)
qed

text \<open>
  C13. Setting a procedure replaces the rule as a whole or removes it: on success the rule has
  the payload's audit and remediation objects and its default parameters, on any error of a
  named rule there is no rule of that name afterwards; other rules are untouched either way.
\<close>

theorem set_procedure_effect:
  assumes "SetProcedure strtod k payload db = (e, db')" "k \<noteq> []"
  shows "(\<forall>k'. k' \<noteq> k \<longrightarrow> om_find db' k' = om_find db k')
    \<and> (case e of
         Some _ \<Rightarrow> om_find db' k = None
       | None \<Rightarrow> \<exists>ms a r ps p. payload_rule strtod payload = Inr (JObject ms)
           \<and> payload_proc ms a r ps p \<and> om_find db' k = Some p)"
proof (cases e)
  case None
  with assms(1) have "SetProcedure strtod k payload db = (None, db')" by simp
  from SetProcedure_success [OF this] obtain ms a r ps p where
    "payload_rule strtod payload = Inr (JObject ms)" "payload_proc ms a r ps p"
    "om_find db' = (om_find db)(k \<mapsto> p)" by blast
  then show ?thesis using None by auto
next
  case (Some err)
  then show ?thesis
    using assms SetProcedure_frame [OF assms(1)] SetProcedure_error_erases [of strtod k payload db err db']
    by simp
qed

theorem set_procedure_effect_witness:
  "\<exists>db'. SetProcedure (\<lambda>s. None) ''R'' ''nothing'' [(''Q'', Procedure_init), (''R'', Procedure_init)] = (Some (Error ''Failed to parse JSON'' EINVAL), db')
     \<and> om_find db' ''R'' = None \<and> om_find db' ''Q'' = Some Procedure_init"
proof -
  have set: "SetProcedure (\<lambda>s. None) ''R'' ''nothing'' [(''Q'', Procedure_init), (''R'', Procedure_init)] =
      (Some (Error ''Failed to parse JSON'' EINVAL), [(''Q'', Procedure_init)])"
    by (simp add: SetProcedure_def JsonWrapper_FromBase64_def Base64Decode_def JsonWrapper_FromString_def
        ContainsNul_def json_parse_string_def Let_def parse_value.simps [of _ 0] skip_whitespaces_def
        isspace_def parse_null_value_def om_erase_def MAX_NESTING_def c_str_def isdigit_def)
  from set_procedure_effect [OF this] set show ?thesis by simp
qed

text \<open>
  A procedure payload may be sent as JSON text or as the Base64 form of that text, with the
  same effect: text that starts an object cannot be mistaken for Base64.
\<close>

lemma payload_encodings_agree:
  assumes "JsonWrapper_FromString strtod (CHR ''{'' # s) = Inr rule"
  shows "SetProcedure strtod k (base64_encode (CHR ''{'' # s)) db = SetProcedure strtod k (CHR ''{'' # s) db"
proof -
  have "JsonWrapper_FromBase64 strtod (base64_encode (CHR ''{'' # s)) = Inr rule"
    by (simp only: FromBase64_encode assms)
  moreover have "\<not> IsBase64 (CHR ''{'')"
    by (simp add: IsBase64_def isalnum_def isalpha_def isupper_def islower_def isdigit_def)
  then have "\<exists>e. JsonWrapper_FromBase64 strtod (CHR ''{'' # s) = Inl e"
    by (auto simp: JsonWrapper_FromBase64_def Base64Decode_def)
  ultimately show ?thesis
    using assms by (auto simp: SetProcedure_unfold payload_rule_def)
qed

lemma payload_encodings_agree_sample:
  "SetProcedure (\<lambda>s. None) ''R'' (base64_encode ''{}'') [] = SetProcedure (\<lambda>s. None) ''R'' ''{}'' []"
proof -
  have "JsonWrapper_FromString (\<lambda>s. None) ''{}'' = Inr (JObject [])"
    by (simp add: JsonWrapper_FromString_def ContainsNul_def json_parse_string_def Let_def
        parse_value.simps [of _ 0] parse_object_value.simps [of _ "Suc 0"] skip_whitespaces_def
        isspace_def MAX_NESTING_def c_str_def)
  from payload_encodings_agree [OF this] show ?thesis .
qed

section \<open>Parameters\<close>

text \<open>
  C18. Key/value text written with quoted values is read back exactly: the text of any map whose
  keys are identifiers parses to that map, whatever characters the values contain.
\<close>

theorem key_value_round_trip:
  assumes "om_inv m" "\<forall>k\<in>om_keys m. ident k"
  shows "ProcedureParameters_Parse (concat (map pair_text m)) = Inr m"
  by (rule ProcedureParameters_Parse_map [OF assms])

theorem key_value_round_trip_witness:
  "ProcedureParameters_Parse (concat (map pair_text [(''a'', ''x y''), (''b_2'', [BSL, DQ])])) =
     Inr [(''a'', ''x y''), (''b_2'', [BSL, DQ])]"
proof (rule key_value_round_trip)
  show "om_inv [(''a'', ''x y''), (''b_2'', [BSL, DQ])]"
    by (simp add: om_inv_def less_char_def)
  show "\<forall>k\<in>om_keys [(''a'', ''x y''), (''b_2'', [BSL, DQ])]. ident k"
    by (simp add: ident_def isalnum_def isalpha_def isupper_def islower_def isdigit_def)
qed

text \<open>
  A user update never adds or removes a parameter. When all keys are known every one gets
  its new value; otherwise the update stops at the first unknown key in key order, with the
  assignments before it applied and the error naming the key.
\<close>

lemma user_update:
  assumes "UpdateFromMap user p = (e, p')" "om_inv user"
  shows "om_keys (proc_parameters p') = om_keys (proc_parameters p)
    \<and> (case e of
         None \<Rightarrow> om_find (proc_parameters p') = om_find (proc_parameters p) ++ map_of user
       | Some err \<Rightarrow> \<exists>before key v after. user = before @ (key, v) # after
           \<and> key \<notin> om_keys (proc_parameters p)
           \<and> err = Error1 (''User parameter '' @ quoted key @ '' not found'')
           \<and> om_find (proc_parameters p') = om_find (proc_parameters p) ++ map_of before)"
proof -
  obtain ps where run: "update_loop user (proc_parameters p) = (e, ps)" and p': "p' = p\<lparr>proc_parameters := ps\<rparr>"
    using assms(1) by (auto simp: UpdateFromMap_def split: prod.splits)
  have keys: "om_keys ps = om_keys (proc_parameters p)" by (rule update_loop_keys [OF run])
  show ?thesis
  proof (cases e)
    case None
    then show ?thesis using update_loop_find run om_inv_distinct [OF assms(2)] keys by (simp add: p')
  next
    case (Some err)
    then obtain before key v after where split: "user = before @ (key, v) # after"
      "err = Error1 (''User parameter '' @ quoted key @ '' not found'')"
      "key \<notin> om_keys (proc_parameters p)" "update_loop before (proc_parameters p) = (None, ps)"
      using update_loop_split run by blast
    have "distinct (map fst before)" using om_inv_distinct [OF assms(2)] split(1) by simp
    then have "om_find ps = om_find (proc_parameters p) ++ map_of before"
      using update_loop_find split(4) by blast
    then show ?thesis using Some split keys by (auto simp: p')
  qed
qed

section \<open>JSON\<close>

text \<open>
  C15. A document of member names that are distinct C strings and of nesting at most the parser's
  limit survives printing and parsing, whichever layout is chosen and whatever text follows it, if
  each of its numbers does: \<open>strtod\<close> must read back what \<open>sprintf\<close> printed, up to the separator.
  This is what makes a plan, a result document or a rule payload readable by the program that reads
  it next.
\<close>

theorem json_parse_serialize:
  assumes "json_wf v" "numbers_ok strtod fmt v" "json_depth v \<le> MAX_NESTING"
    and "\<And>d. v = JNumber d \<Longrightarrow> ends_number rest"
  shows "json_parse_string strtod (json_serialize_to_string fmt v @ rest) = Some v
    \<and> json_parse_string strtod (json_serialize_to_string_pretty fmt v @ rest) = Some v"
  by (rule parse_serialize_document [OF assms])

theorem json_parse_serialize_witness:
  "json_parse_string (\<lambda>s. if starts_with ''1'' s then Some (0x3FF0000000000000, 1) else None)
     (json_serialize_to_string (\<lambda>d. ''1'')
        (JObject [(''a'', JArray [JNull, JString [DQ, NL]]), (''b'', JNumber 0x3FF0000000000000)]) @ ''...'') =
   Some (JObject [(''a'', JArray [JNull, JString [DQ, NL]]), (''b'', JNumber 0x3FF0000000000000)])"
  by (rule json_parse_serialize [THEN conjunct1])
    (simp_all add: MAX_NESTING_def reads_back_def json_value_init_number_def is_number_invalid_def is_decimal_def
      isdigit_def)

text \<open>
  C37. Whatever text it is given, the parser returns only well-formed values: distinct member
  names that are C strings, no infinite numbers, nesting within the limit; and deep copies of
  such values are exact. So every parsed document without numbers can be printed and read
  again.
\<close>

theorem json_parse_well_formed:
  assumes "json_parse_string strtod s = Some v"
  shows "json_ok v \<and> json_wf v \<and> json_depth v \<le> MAX_NESTING \<and> json_value_deep_copy v = Some v"
  using json_parse_string_ok [OF assms] json_parse_string_deep_copy [OF assms] by simp

lemma parse_empty_object: "json_parse_string (\<lambda>s. None) ''{}'' = Some (JObject [])"
  by (simp add: json_parse_string_def Let_def parse_value.simps [of _ 0]
      parse_object_value.simps [of _ "Suc 0"] skip_whitespaces_def isspace_def MAX_NESTING_def)

theorem json_parse_well_formed_witness: "json_value_deep_copy (JObject []) = Some (JObject [])"
  using json_parse_well_formed [OF parse_empty_object] by simp

section \<open>Text formats\<close>

text \<open>
  C38. The Base64 decoder inverts the standard encoder on every byte string, and its output is
  never longer than three quarters of its input, the size the code reserves.
\<close>

theorem base64_decoder:
  "Base64Decode (base64_encode s) = Inr s
   \<and> (\<forall>u. Base64Decode t = Inr u \<longrightarrow> length u \<le> length t * 3 div 4)"
  using Base64Decode_encode decode_groups_length
  by (auto simp: Base64Decode_def split: if_splits)

theorem base64_decoder_witness:
  "Base64Decode (base64_encode ''{}'') = Inr ''{}'' \<and> length ''{}'' \<le> length (base64_encode ''{}'') * 3 div 4"
  using base64_decoder [of "''{}''" "base64_encode ''{}''"] by blast

text \<open>
  C39. Text escaped for the shell and placed between double quotes is read by the shell as the
  text itself, and the string ends at the closing quote that was written: no byte sequence can
  leave the quotes or start an expansion.
\<close>

theorem shell_escaping_safe:
  "shell_read_dquoted (EscapeForShell s @ [DQ] @ rest) = Some (s, rest)"
  by (simp add: shell_read_escaped)

text \<open>
  A content version parses exactly when it is three valid decimal components joined by
  dots, and printing the result gives the text back.
\<close>

lemma content_version_parse:
  "ParseContentVersion t = Inr v \<longleftrightarrow> valid_version v \<and> ContentVersionToString v = t"
  using ParseContentVersion_sound ParseContentVersion_complete by blast

text \<open>
  Comparing two parsed content versions compares the numbers they denote, component by
  component, for components of any size.
\<close>

lemma content_version_compare:
  assumes "ParseContentVersion s = Inr l" "ParseContentVersion t = Inr r"
  shows "CompareContentVersion l r =
    (if dec (cv_major l) \<noteq> dec (cv_major r) then sgn (int (dec (cv_major l)) - int (dec (cv_major r)))
     else if dec (cv_minor l) \<noteq> dec (cv_minor r) then sgn (int (dec (cv_minor l)) - int (dec (cv_minor r)))
     else sgn (int (dec (cv_patch l)) - int (dec (cv_patch r))))"
  using ParseContentVersion_sound [OF assms(1)] ParseContentVersion_sound [OF assms(2)]
  by (intro CompareContentVersion_numeric) simp_all

lemma sample_versions:
  "ParseContentVersion ''1.9.0'' = Inr \<lparr>cv_major = ''1'', cv_minor = ''9'', cv_patch = ''0''\<rparr>"
  "ParseContentVersion ''1.10.0'' = Inr \<lparr>cv_major = ''1'', cv_minor = ''10'', cv_patch = ''0''\<rparr>"
  by (simp_all add: ParseContentVersion_def find_char_from_def substr_def ValidComponent_def isdigit_def Let_def)

lemma content_version_compare_sample:
  "CompareContentVersion \<lparr>cv_major = ''1'', cv_minor = ''9'', cv_patch = ''0''\<rparr>
     \<lparr>cv_major = ''1'', cv_minor = ''10'', cv_patch = ''0''\<rparr> = -1"
  using content_version_compare [OF sample_versions]
  by (simp add: digits_value_def digit_value_def isdigit_def)

section \<open>Benchmarks and distributions\<close>

text \<open>
  C24. A payload key is accepted exactly when it is the text of a well-formed benchmark identity,
  possibly followed by a newline and anything else, and the result is that identity: no two
  identities share a key.
\<close>

theorem payload_key_parse:
  "BenchmarkInfo_Parse key = Inr b \<longleftrightarrow>
     key_ok b \<and> (\<exists>r. key = to_string_BenchmarkInfo b @ r \<and> line_end r)"
  using Parse_Inr Parse_to_string by blast

text \<open>
  The sanitized version of a valid benchmark matches the benchmark's own pattern, unless the
  pattern ends in a backslash that escapes nothing; then it does not.
\<close>

lemma sanitized_version_matches:
  assumes "ValidateGlobbing (bi_version b) = None"
  shows "BenchmarkInfo_Match b \<lparr>osType = os, architecture = arch, distribution = bi_distribution b, version = SanitizedVersion b\<rparr>
    \<longleftrightarrow> \<not> lone_backslash (bi_version b)"
  by (rule Match_SanitizedVersion [OF assms])


text \<open>
  The text of a distribution record, used as an override file, is read back as that record,
  with the white space of a version dropped; versions hold no double quote.
\<close>

lemma override_file_round_trip:
  assumes "files path = Some (to_string_DistributionInfo x)" "DQ \<notin> set (version x)"
  shows "ParseOverrideFile files path = Inr (x\<lparr>version := filter (\<lambda>c. \<not> isspace c) (version x)\<rparr>)"
  by (rule override_file_text [of files path x, OF assms])

lemma override_file_round_trip_sample:
  "\<exists>text. ParseOverrideFile (\<lambda>path. Some text) ''id'' = Inr (DistributionInfo_init\<lparr>version := ''2204''\<rparr>)"
  using override_file_round_trip [of "\<lambda>path. Some (to_string_DistributionInfo (DistributionInfo_init\<lparr>version := ''22 04''\<rparr>))"
      "''id''" "DistributionInfo_init\<lparr>version := ''22 04''\<rparr>"]
  by (auto simp: isspace_def)

section \<open>The resource provider\<close>















text \<open>
  A set without a procedure object is answered by what its input holds and by the
  applicability of its benchmark alone: the answer is success even if the value could not be
  set. A set that is refused changes neither the engine nor the machine.
\<close>

lemma set_answers:
  assumes "in_ProcedureObjectName i = None" "\<forall>c. r_mi env c = MI_RESULT_OK"
  shows "fst (Invoke_SetTargetResource env (Some i) s) =
      [SetInstance, PostResult (if \<not> complete_set i then MI_RESULT_FAILED
         else if BaselineIsCorrectDistribution (in_PayloadKey i) (g_baseline s) \<noteq> 0 then MI_RESULT_NOT_SUPPORTED
         else MI_RESULT_OK)]
    \<and> (\<not> complete_set i \<or> BaselineIsCorrectDistribution (in_PayloadKey i) (g_baseline s) \<noteq> 0 \<longrightarrow>
         g_baseline (snd (Invoke_SetTargetResource env (Some i) s)) = g_baseline s
         \<and> g_machine (snd (Invoke_SetTargetResource env (Some i) s)) = g_machine s)"
  using Set_answers [OF assms, of s] Set_refused [OF assms(1), of s env] by blast


section \<open>The platform, its files and the log\<close>





text \<open>
  Enabling and starting a service runs no commands but \<open>systemctl\<close> with one of its four
  verbs and the service's name, and none at all unless the name is plain.
\<close>

lemma daemon_commands:
  assumes "EnableAndStartDaemon (recording sh) name (m, []) = (r, m', cs)"
  shows "\<forall>c\<in>set cs. systemctl_command name c"
  using only_systemctl_EnableAndStartDaemon [of name sh] assms
  unfolding only_systemctl_def by (metis append_Nil)

end
